(* ===== verification/Condr_Prelude.thy ===== *)
theory Condr_Prelude
  imports Main "HOL-Library.Word" "HOL-Library.Multiset"
begin

text \<open>
  What every component of the development shares: the machine integers of the Rust source,
  its strings as lists of Unicode scalar values, the few operations of the Rust standard
  library the code uses on them (\<open>checked_add\<close>, \<open>trim\<close>, \<open>is_control\<close>, \<open>Vec::remove\<close>,
  \<open>Vec::insert\<close>, \<open>Iterator::position\<close>), and the list lemmas the component proofs rest on.
\<close>

named_theorems wf_simps \<open>unfolding rules of the well-formedness predicates\<close>
named_theorems keeps \<open>an operation leaves a part of the state as it was\<close>

section \<open>Machine integers\<close>

type_synonym u8 = "8 word"
type_synonym u16 = "16 word"
type_synonym u32 = "32 word"
type_synonym u64 = "64 word"

text \<open>\<open>usize\<close> on the 64-bit targets the program ships for. Lengths are \<open>nat\<close>; where the
  source guards an addition with \<open>checked_add\<close> the bound is written out.\<close>

definition usize_max :: nat where
  "usize_max = 2 ^ 64 - 1"

definition checked_add_usize :: "nat \<Rightarrow> nat \<Rightarrow> nat option" where
  "checked_add_usize a b = (if a + b \<le> usize_max then Some (a + b) else None)"

definition saturating_add_usize :: "nat \<Rightarrow> nat \<Rightarrow> nat" where
  "saturating_add_usize a b = min (a + b) usize_max"

lemma checked_add_usize_Some [simp]:
  "checked_add_usize a b = Some c \<longleftrightarrow> c = a + b \<and> a + b \<le> usize_max"
  by (auto simp: checked_add_usize_def)

lemma checked_add_usize_None [simp]: "checked_add_usize a b = None \<longleftrightarrow> usize_max < a + b"
  by (auto simp: checked_add_usize_def)

section \<open>Strings\<close>

text \<open>A Rust \<open>str\<close> is a sequence of Unicode scalar values; its \<open>len\<close> counts UTF-8 bytes.\<close>

type_synonym rstr = "nat list"

definition str_lit :: "string \<Rightarrow> rstr" where
  "str_lit s = map of_char s"

text \<open>The UTF-8 bytes of a scalar value, for \<open>str::as_bytes\<close> and \<open>str::len\<close>.\<close>

definition utf8_bytes :: "nat \<Rightarrow> nat list" where
  "utf8_bytes c =
     (if c < 128 then [c]
      else if c < 2048 then [192 + c div 64, 128 + c mod 64]
      else if c < 65536 then [224 + c div 4096, 128 + c div 64 mod 64, 128 + c mod 64]
      else [240 + c div 262144, 128 + c div 4096 mod 64, 128 + c div 64 mod 64, 128 + c mod 64])"

definition str_bytes :: "rstr \<Rightarrow> nat list" where
  "str_bytes s = concat (map utf8_bytes s)"

definition str_len :: "rstr \<Rightarrow> nat" where
  "str_len s = length (str_bytes s)"

lemma length_utf8_bytes: "1 \<le> length (utf8_bytes c)" "length (utf8_bytes c) \<le> 4"
  by (simp_all add: utf8_bytes_def)

lemma str_len_Nil [simp]: "str_len [] = 0"
  by (simp add: str_len_def str_bytes_def)

lemma str_len_ge_length: "length s \<le> str_len s"
proof (induction s)
  case (Cons c s)
  then show ?case using length_utf8_bytes(1) [of c] by (simp add: str_len_def str_bytes_def)
qed simp

text \<open>\<open>char::is_whitespace\<close>: the Unicode property White\_Space.\<close>

definition is_whitespace :: "nat \<Rightarrow> bool" where
  "is_whitespace c \<longleftrightarrow> (9 \<le> c \<and> c \<le> 13) \<or> c = 32 \<or> c = 133 \<or> c = 160 \<or> c = 5760
     \<or> (8192 \<le> c \<and> c \<le> 8202) \<or> c = 8232 \<or> c = 8233 \<or> c = 8239 \<or> c = 8287 \<or> c = 12288"

text \<open>\<open>char::is_control\<close>: the general category Cc.\<close>

definition is_control :: "nat \<Rightarrow> bool" where
  "is_control c \<longleftrightarrow> c < 32 \<or> (127 \<le> c \<and> c < 160)"

definition is_ascii_alphanumeric :: "nat \<Rightarrow> bool" where
  "is_ascii_alphanumeric c \<longleftrightarrow>
     (48 \<le> c \<and> c \<le> 57) \<or> (65 \<le> c \<and> c \<le> 90) \<or> (97 \<le> c \<and> c \<le> 122)"

definition trim_end :: "rstr \<Rightarrow> rstr" where
  "trim_end s = rev (dropWhile is_whitespace (rev s))"

definition trim :: "rstr \<Rightarrow> rstr" where
  "trim s = trim_end (dropWhile is_whitespace s)"

lemma trim_end_suffix_not_space: "trim_end s \<noteq> [] \<Longrightarrow> \<not> is_whitespace (last (trim_end s))"
  by (metis dropWhile_eq_Nil_conv hd_dropWhile last_rev rev_is_Nil_conv trim_end_def)

lemma trim_end_Nil_iff: "trim_end s = [] \<longleftrightarrow> (\<forall>c \<in> set s. is_whitespace c)"
  by (simp add: trim_end_def)

lemma set_trim_end: "set (trim_end s) \<subseteq> set s"
  by (auto simp: trim_end_def dest: set_dropWhileD)

lemma set_trim: "set (trim s) \<subseteq> set s"
  using set_trim_end by (force simp: trim_def dest: set_dropWhileD)

section \<open>Lists\<close>

text \<open>\<open>Iterator::position\<close>, \<open>Vec::remove\<close> and \<open>Vec::insert\<close> (whose panics out of range the
  callers exclude by construction).\<close>

fun position :: "('a \<Rightarrow> bool) \<Rightarrow> 'a list \<Rightarrow> nat option" where
  "position p [] = None"
| "position p (x # xs) = (if p x then Some 0 else map_option Suc (position p xs))"

definition remove_at :: "nat \<Rightarrow> 'a list \<Rightarrow> 'a list" where
  "remove_at i xs = take i xs @ drop (Suc i) xs"

definition insert_at :: "nat \<Rightarrow> 'a \<Rightarrow> 'a list \<Rightarrow> 'a list" where
  "insert_at i x xs = take i xs @ x # drop i xs"

lemma position_Some:
  "position p xs = Some i \<Longrightarrow> i < length xs \<and> p (xs ! i) \<and> (\<forall>j < i. \<not> p (xs ! j))"
proof (induction xs arbitrary: i)
  case (Cons x xs)
  then show ?case
    by (cases i) (auto split: if_splits simp: less_Suc_eq_0_disj)
qed simp

lemma position_None: "position p xs = None \<longleftrightarrow> (\<forall>x \<in> set xs. \<not> p x)"
  by (induction xs) auto

lemma position_lessD: "position p xs = Some i \<Longrightarrow> i < length xs"
  and position_satD: "position p xs = Some i \<Longrightarrow> p (xs ! i)"
  by (auto dest: position_Some)

lemma length_remove_at: "i < length xs \<Longrightarrow> length (remove_at i xs) = length xs - 1"
  by (simp add: remove_at_def)

lemma mset_remove_at: "i < length xs \<Longrightarrow> add_mset (xs ! i) (mset (remove_at i xs)) = mset xs"
proof -
  assume "i < length xs"
  then have "mset xs = mset (take i xs @ xs ! i # drop (Suc i) xs)"
    by (simp add: id_take_nth_drop [symmetric])
  then show ?thesis by (simp add: remove_at_def)
qed

lemma mset_insert_at: "mset (insert_at i x xs) = add_mset x (mset xs)"
proof -
  have "mset (take i xs) + mset (drop i xs) = mset xs"
    by (metis append_take_drop_id mset_append)
  then show ?thesis by (simp add: insert_at_def)
qed

lemma set_remove_at_subset: "set (remove_at i xs) \<subseteq> set xs"
  by (auto simp: remove_at_def dest: in_set_takeD in_set_dropD)

lemma set_remove_at_distinct:
  assumes "i < length xs" and "distinct xs"
  shows "set (remove_at i xs) = set xs - {xs ! i}"
proof -
  from assms(1) have "add_mset (xs ! i) (mset (remove_at i xs)) = mset xs"
    by (rule mset_remove_at)
  then have "mset (xs ! i # remove_at i xs) = mset xs" by simp
  moreover from this assms(2) have "distinct (xs ! i # remove_at i xs)"
    by (metis mset_eq_imp_distinct_iff)
  ultimately show ?thesis
    by (metis Diff_insert_absorb distinct.simps(2) list.simps(15) mset_eq_setD)
qed

lemma map_remove_at: "map f (remove_at i xs) = remove_at i (map f xs)"
  by (simp add: remove_at_def take_map drop_map)

lemma mset_move:
  "i < length xs \<Longrightarrow> mset (insert_at j (xs ! i) (remove_at i xs)) = mset xs"
  by (simp add: mset_insert_at mset_remove_at)

text \<open>Replacing one element of a list of groups exchanges its members for the new ones.\<close>

lemma mset_concat_map_update:
  assumes "i < length xs"
  shows "mset (concat (map f (xs[i := y]))) + mset (f (xs ! i))
       = mset (concat (map f xs)) + mset (f y)"
proof -
  have "map f xs = map f (take i xs) @ f (xs ! i) # map f (drop (Suc i) xs)"
    by (metis assms id_take_nth_drop list.simps(9) map_append)
  moreover have "xs[i := y] = take i xs @ y # drop (Suc i) xs"
    using assms by (rule upd_conv_take_nth_drop)
  ultimately show ?thesis by simp
qed

lemma distinct_mset_iff: "distinct xs \<longleftrightarrow> (\<forall>x. count (mset xs) x \<le> 1)"
  by (metis (no_types, lifting) count_eq_zero_iff count_mset_0_iff distinct_count_atmost_1
      le_numeral_extra(4) less_one linorder_not_less nle_le set_mset_mset)

lemma distinct_subset_mset: "mset xs \<subseteq># mset ys \<Longrightarrow> distinct ys \<Longrightarrow> distinct xs"
  by (metis distinct_mset_iff le_trans subseteq_mset_def)

lemma distinct_mset_eq: "mset xs = mset ys \<Longrightarrow> distinct xs \<longleftrightarrow> distinct ys"
  by (simp add: distinct_mset_iff)

lemma distinct_concat_map_update:
  assumes "i < length xs" and "distinct (concat (map f xs))"
    and "mset (f y) \<subseteq># mset (f (xs ! i))"
  shows "distinct (concat (map f (xs[i := y])))"
proof (rule distinct_subset_mset [OF _ assms(2)])
  from mset_concat_map_update [OF assms(1), of f y] assms(3)
  show "mset (concat (map f (xs[i := y]))) \<subseteq># mset (concat (map f xs))"
    by (metis mset_subset_eq_mono_add_left_cancel mset_subset_eq_mono_add_right_cancel
        union_commute)
qed

lemma map_update_same: "i < length xs \<Longrightarrow> f y = f (xs ! i) \<Longrightarrow> map f (xs[i := y]) = map f xs"
  by (metis list_update_id map_update)

lemma set_update_cases:
  "z \<in> set (xs[i := y]) \<Longrightarrow> (z = y \<Longrightarrow> P) \<Longrightarrow> (z \<in> set xs \<Longrightarrow> P) \<Longrightarrow> P"
  using set_update_subset_insert by fastforce

section \<open>Results\<close>

text \<open>\<open>Result\<close> as a sum, the error on the left. \<open>bind_ok\<close> is the \<open>?\<close> operator, \<open>require\<close> an early
  \<open>return Err\<close>, \<open>fold_ok\<close> a \<open>for\<close> loop whose body may return early.\<close>

fun bind_ok :: "'e + 'a \<Rightarrow> ('a \<Rightarrow> 'e + 'b) \<Rightarrow> 'e + 'b" where
  "bind_ok (Inl e) f = Inl e"
| "bind_ok (Inr x) f = f x"

definition require :: "bool \<Rightarrow> 'e \<Rightarrow> 'e + unit" where
  "require b e = (if b then Inr () else Inl e)"

fun fold_ok :: "('x \<Rightarrow> 'a \<Rightarrow> 'e + 'a) \<Rightarrow> 'x list \<Rightarrow> 'a \<Rightarrow> 'e + 'a" where
  "fold_ok f [] acc = Inr acc"
| "fold_ok f (x # xs) acc = bind_ok (f x acc) (fold_ok f xs)"

lemma bind_ok_Inr [simp]: "bind_ok m f = Inr y \<longleftrightarrow> (\<exists>x. m = Inr x \<and> f x = Inr y)"
  by (cases m) auto

lemma require_Inr [simp]: "require b e = Inr u \<longleftrightarrow> b"
  by (simp add: require_def)

lemma require_True [simp]: "require True e = Inr ()"
  by (simp add: require_def)

text \<open>\<open>those (map f xs)\<close>: a \<open>map\<close> whose function may panic.\<close>

lemma those_map_Some:
  "those (map f xs) = Some ys \<longleftrightarrow> list_all2 (\<lambda>x y. f x = Some y) xs ys"
proof (induction xs arbitrary: ys)
  case Nil
  then show ?case by auto
next
  case (Cons x xs)
  then show ?case by (cases ys) (auto split: option.splits)
qed

lemma those_map_total: "(\<And>x. x \<in> set xs \<Longrightarrow> f x \<noteq> None) \<Longrightarrow> those (map f xs) \<noteq> None"
  by (induction xs) (auto split: option.splits)

lemma those_map_all: "(\<And>x. x \<in> set xs \<Longrightarrow> f x = Some (g x)) \<Longrightarrow> those (map f xs) = Some (map g xs)"
  by (induction xs) auto

text \<open>A loop whose body succeeds exactly under \<open>ok\<close>, with \<open>g\<close> as its effect.\<close>

fun all_ok :: "('x \<Rightarrow> 'a \<Rightarrow> bool) \<Rightarrow> ('x \<Rightarrow> 'a \<Rightarrow> 'a) \<Rightarrow> 'x list \<Rightarrow> 'a \<Rightarrow> bool" where
  "all_ok ok g [] s = True"
| "all_ok ok g (x # xs) s = (ok x s \<and> all_ok ok g xs (g x s))"

lemma fold_ok_Inr:
  assumes "\<And>x s s'. f x s = Inr s' \<longleftrightarrow> ok x s \<and> s' = g x s"
  shows "fold_ok f xs s = Inr s' \<longleftrightarrow> all_ok ok g xs s \<and> s' = fold g xs s"
  by (induction xs arbitrary: s) (auto simp: assms)

lemma list_all2_map_eq:
  "list_all2 R xs ys \<Longrightarrow> (\<And>x y. x \<in> set xs \<Longrightarrow> R x y \<Longrightarrow> f x = g y) \<Longrightarrow> map f xs = map g ys"
  by (induction rule: list_all2_induct) auto

lemma list_all2_origin: "list_all2 R xs ys \<Longrightarrow> y \<in> set ys \<Longrightarrow> \<exists>x \<in> set xs. R x y"
  by (induction rule: list_all2_induct) auto

end
