(* ===== verification/Session_Ids.thy ===== *)
theory Session_Ids
  imports Condr_Prelude
begin

text \<open>
  Stable identifiers (\<open>session.rs\<close>): the process-wide counter \<open>NEXT_ID\<close> as an explicit
  \<open>u64\<close> state, its atomic reservation, and the three newtypes it numbers. What the Session
  operations rely on, that a reserved block is new and ends inside the id space, is the
  contract \<open>id_source\<close>; \<open>reserve_ids\<close> is shown to keep it.
\<close>

datatype workspace_id = WorkspaceId (workspace_u64: u64)
datatype tab_id = TabId (tab_u64: u64)
datatype pane_id = PaneId (pane_u64: u64)

definition MAX_STABLE_ID :: u64 where
  "MAX_STABLE_ID = (- 1) div 2"

definition MAX_NEXT_STABLE_ID_EXCLUSIVE :: u64 where
  "MAX_NEXT_STABLE_ID_EXCLUSIVE = MAX_STABLE_ID + 1"

text \<open>\<open>u64::checked_add\<close>.\<close>

definition checked_add_u64 :: "u64 \<Rightarrow> u64 \<Rightarrow> u64 option" where
  "checked_add_u64 a b = (if unat a + unat b < 2 ^ 64 then Some (a + b) else None)"

text \<open>The first id of the block and the counter after it; \<open>None\<close> leaves the counter alone.\<close>

definition reserve_ids :: "u64 \<Rightarrow> u64 \<Rightarrow> (u64 \<times> u64) option" where
  "reserve_ids n nxt =
     (case checked_add_u64 nxt n of
        None \<Rightarrow> None
      | Some end \<Rightarrow> if end \<le> MAX_NEXT_STABLE_ID_EXCLUSIVE then Some (nxt, end) else None)"

text \<open>\<open>validate_id\<close> of the snapshot code: the running maximum, or the refusal.\<close>

definition valid_id :: "u64 \<Rightarrow> bool" where
  "valid_id i \<longleftrightarrow> i \<noteq> 0 \<and> i \<le> MAX_STABLE_ID"

lemma MAX_STABLE_ID_value: "MAX_STABLE_ID = 9223372036854775807"
  by (simp add: MAX_STABLE_ID_def)

lemma unat_MAX_STABLE_ID: "unat MAX_STABLE_ID = 2 ^ 63 - 1"
  by (simp add: MAX_STABLE_ID_value)

lemma MAX_NEXT_value: "MAX_NEXT_STABLE_ID_EXCLUSIVE = 9223372036854775808"
  by (simp add: MAX_NEXT_STABLE_ID_EXCLUSIVE_def MAX_STABLE_ID_value)

lemma unat_MAX_NEXT: "unat MAX_NEXT_STABLE_ID_EXCLUSIVE = 2 ^ 63"
  by (simp add: MAX_NEXT_value)

lemma unat_checked_add_u64: "checked_add_u64 a b = Some c \<Longrightarrow> unat c = unat a + unat b"
  by (auto simp: checked_add_u64_def unat_word_ariths split: if_splits)

lemma reserve_ids_Some:
  assumes "reserve_ids n nxt = Some (first, nxt')"
  shows "first = nxt" and "unat nxt' = unat nxt + unat n" and "unat nxt' \<le> 2 ^ 63"
  using assms unat_MAX_NEXT
  by (auto simp: reserve_ids_def word_le_nat_alt dest: unat_checked_add_u64
      split: option.splits if_splits)

text \<open>
  The contract: a successful reservation of \<open>n\<close> ids starts at or above the counter,
  advances it past the block, and stays in the id space.
\<close>

locale id_source =
  fixes reserve :: "u64 \<Rightarrow> u64 \<Rightarrow> (u64 \<times> u64) option"
  assumes block_new: "reserve n nxt = Some (first, nxt') \<Longrightarrow> unat nxt \<le> unat first"
    and block_end: "reserve n nxt = Some (first, nxt') \<Longrightarrow> unat first + unat n = unat nxt'"
    and block_bound: "reserve n nxt = Some (first, nxt') \<Longrightarrow> unat nxt' \<le> 2 ^ 63"
begin

lemma nth_id:
  assumes "reserve n nxt = Some (first, nxt')" and "k < unat n"
  shows "unat (first + of_nat k) = unat first + k"
proof -
  have "unat first + k < 2 ^ 63"
    using block_end [OF assms(1)] block_bound [OF assms(1)] assms(2) by linarith
  then show ?thesis by (simp add: unat_word_ariths unat_of_nat)
qed

lemma block_valid:
  assumes "reserve n nxt = Some (first, nxt')" and "k < unat n" and "0 < unat nxt"
  shows "valid_id (first + of_nat k)" and "unat nxt \<le> unat (first + of_nat k)"
    and "unat (first + of_nat k) < unat nxt'"
proof -
  note u = nth_id [OF assms(1,2)] block_new [OF assms(1)] block_end [OF assms(1)]
    block_bound [OF assms(1)]
  show "unat nxt \<le> unat (first + of_nat k)" and "unat (first + of_nat k) < unat nxt'"
    using u assms(2) by linarith+
  then show "valid_id (first + of_nat k)"
    using u assms(3) unat_MAX_STABLE_ID by (auto simp: valid_id_def word_le_nat_alt)
qed

lemma counter_grows: "reserve n nxt = Some (first, nxt') \<Longrightarrow> unat nxt \<le> unat nxt'"
  using block_new block_end by fastforce

lemma counter_positive:
  "reserve n nxt = Some (first, nxt') \<Longrightarrow> 0 < unat nxt \<Longrightarrow> 0 < unat nxt'"
  using counter_grows by fastforce

end

interpretation ids: id_source reserve_ids
proof
  fix n nxt first nxt' :: u64
  assume "reserve_ids n nxt = Some (first, nxt')"
  note reserve_ids_Some [OF this]
  then show "unat nxt \<le> unat first" and "unat first + unat n = unat nxt'"
    and "unat nxt' \<le> 2 ^ 63" by simp_all
qed

end
