(* ===== verification/Float32.thy ===== *)
theory Float32
  imports Condr_Prelude
begin

text \<open>
  The \<open>f32\<close> arithmetic of the layout code: IEEE 754 binary32 with round-to-nearest,
  ties-to-even. Every finite \<open>f32\<close> is an integer multiple of \<open>2\<^sup>-\<^sup>1\<^sup>4\<^sup>9\<close>, so a finite value is a
  sign and a magnitude counted in that unit; infinities and NaN are constructors of their own
  (one NaN: the code never reads a payload). All operations are integer computations, so
  they evaluate in the kernel.
\<close>

datatype f32 = NaN | Inf bool | Fin bool nat

section \<open>Rounding\<close>

fun bit_length :: "nat \<Rightarrow> nat" where
  "bit_length n = (if n = 0 then 0 else Suc (bit_length (n div 2)))"

declare bit_length.simps [simp del]

text \<open>The nearest integer to \<open>n / d\<close>, the even one of two equally near ones.\<close>

definition rne_div :: "nat \<Rightarrow> nat \<Rightarrow> nat" where
  "rne_div n d = (let q = n div d; r = n mod d in
     if 2 * r < d then q
     else if d < 2 * r then q + 1
     else if even q then q else q + 1)"

text \<open>The magnitude nearest to \<open>n / d\<close> units that has at most 24 significant bits.\<close>

definition quantum :: "nat \<Rightarrow> nat \<Rightarrow> nat" where
  "quantum n d = bit_length (n div d) - 24"

definition round_mag :: "nat \<Rightarrow> nat \<Rightarrow> nat" where
  "round_mag n d = rne_div n (d * 2 ^ quantum n d) * 2 ^ quantum n d"

text \<open>\<open>2\<^sup>1\<^sup>2\<^sup>8\<close> in units: a rounded magnitude from here on is infinite.\<close>

definition f32_overflow :: nat where
  "f32_overflow = 2 ^ 277"

definition f32_round :: "bool \<Rightarrow> nat \<Rightarrow> nat \<Rightarrow> f32" where
  "f32_round neg n d =
     (let m = round_mag n d in if f32_overflow \<le> m then Inf neg else Fin neg m)"

text \<open>A decimal literal \<open>n / d\<close> of the source.\<close>

definition f32_lit :: "nat \<Rightarrow> nat \<Rightarrow> f32" where
  "f32_lit n d = f32_round False (n * 2 ^ 149) d"

section \<open>Operations\<close>

fun f32_is_finite :: "f32 \<Rightarrow> bool" where
  "f32_is_finite (Fin _ _) = True"
| "f32_is_finite _ = False"

fun f32_neg :: "f32 \<Rightarrow> f32" where
  "f32_neg NaN = NaN"
| "f32_neg (Inf s) = Inf (\<not> s)"
| "f32_neg (Fin s m) = Fin (\<not> s) m"

fun f32_abs :: "f32 \<Rightarrow> f32" where
  "f32_abs NaN = NaN"
| "f32_abs (Inf _) = Inf False"
| "f32_abs (Fin _ m) = Fin False m"

fun f32_int :: "bool \<Rightarrow> nat \<Rightarrow> int" where
  "f32_int s m = (if s then - int m else int m)"

fun f32_add :: "f32 \<Rightarrow> f32 \<Rightarrow> f32" where
  "f32_add NaN _ = NaN"
| "f32_add _ NaN = NaN"
| "f32_add (Inf s) (Inf t) = (if s = t then Inf s else NaN)"
| "f32_add (Inf s) (Fin _ _) = Inf s"
| "f32_add (Fin _ _) (Inf t) = Inf t"
| "f32_add (Fin s m) (Fin t n) =
     (let v = f32_int s m + f32_int t n in
      if v = 0 then Fin (s \<and> t) 0 else f32_round (v < 0) (nat \<bar>v\<bar>) 1)"

definition f32_sub :: "f32 \<Rightarrow> f32 \<Rightarrow> f32" where
  "f32_sub a b = f32_add a (f32_neg b)"

fun f32_mul :: "f32 \<Rightarrow> f32 \<Rightarrow> f32" where
  "f32_mul NaN _ = NaN"
| "f32_mul _ NaN = NaN"
| "f32_mul (Inf s) (Inf t) = Inf (s \<noteq> t)"
| "f32_mul (Inf s) (Fin t n) = (if n = 0 then NaN else Inf (s \<noteq> t))"
| "f32_mul (Fin s m) (Inf t) = (if m = 0 then NaN else Inf (s \<noteq> t))"
| "f32_mul (Fin s m) (Fin t n) = f32_round (s \<noteq> t) (m * n) (2 ^ 149)"

text \<open>The IEEE comparisons: NaN compares false with everything, the zeros are equal.\<close>

fun f32_lt :: "f32 \<Rightarrow> f32 \<Rightarrow> bool" where
  "f32_lt NaN _ = False"
| "f32_lt _ NaN = False"
| "f32_lt (Inf s) (Inf t) = (s \<and> \<not> t)"
| "f32_lt (Inf s) (Fin _ _) = s"
| "f32_lt (Fin _ _) (Inf t) = (\<not> t)"
| "f32_lt (Fin s m) (Fin t n) = (f32_int s m < f32_int t n)"

fun f32_eq :: "f32 \<Rightarrow> f32 \<Rightarrow> bool" where
  "f32_eq (Inf s) (Inf t) = (s = t)"
| "f32_eq (Fin s m) (Fin t n) = (f32_int s m = f32_int t n)"
| "f32_eq _ _ = False"

definition f32_le :: "f32 \<Rightarrow> f32 \<Rightarrow> bool" where
  "f32_le a b \<longleftrightarrow> f32_lt a b \<or> f32_eq a b"

text \<open>\<open>f32::min\<close> (a NaN loses) and \<open>f32::clamp\<close> (a NaN stays).\<close>

definition f32_min :: "f32 \<Rightarrow> f32 \<Rightarrow> f32" where
  "f32_min a b = (if a = NaN then b else if b = NaN then a else if f32_lt b a then b else a)"

definition f32_clamp :: "f32 \<Rightarrow> f32 \<Rightarrow> f32 \<Rightarrow> f32" where
  "f32_clamp x lo hi =
     (let y = (if f32_lt x lo then lo else x) in if f32_lt hi y then hi else y)"

text \<open>\<open>f32::total_cmp\<close>: a key into the integers. NaN counts as the positive one.\<close>

fun f32_total_key :: "f32 \<Rightarrow> int" where
  "f32_total_key NaN = 2 ^ 300"
| "f32_total_key (Inf s) = (if s then - (2 ^ 299) else 2 ^ 299)"
| "f32_total_key (Fin s m) = (if s then - int m - 1 else int m)"

definition f32_total_less :: "f32 \<Rightarrow> f32 \<Rightarrow> bool" where
  "f32_total_less a b \<longleftrightarrow> f32_total_key a < f32_total_key b"

definition f32_zero :: f32 where
  "f32_zero = Fin False 0"

definition f32_epsilon :: f32 where
  "f32_epsilon = Fin False (2 ^ 126)"

section \<open>Facts about rounding\<close>

lemma bit_length_le_iff: "bit_length n \<le> k \<longleftrightarrow> n < 2 ^ k"
proof (induction k arbitrary: n)
  case 0
  then show ?case by (subst bit_length.simps) simp
next
  case (Suc k)
  show ?case by (subst bit_length.simps) (auto simp: Suc.IH)
qed

lemma bit_length_mono: "m \<le> n \<Longrightarrow> bit_length m \<le> bit_length n"
  by (meson bit_length_le_iff le_less_trans order_refl)

lemma rne_div_bounds:
  assumes "0 < d"
  shows "2 * n \<le> 2 * rne_div n d * d + d" and "2 * rne_div n d * d \<le> 2 * n + d"
proof -
  define q r where "q = n div d" and "r = n mod d"
  have n: "n = q * d + r" and r: "r < d" using assms by (simp_all add: q_def r_def)
  have v: "rne_div n d = (if 2 * r < d then q else if d < 2 * r then q + 1
      else if even q then q else q + 1)"
    by (simp add: rne_div_def Let_def q_def r_def)
  from r show "2 * n \<le> 2 * rne_div n d * d + d" and "2 * rne_div n d * d \<le> 2 * n + d"
    unfolding v by (auto simp: n algebra_simps)
qed

lemma rne_div_mono:
  assumes "0 < d" and "m \<le> n"
  shows "rne_div m d \<le> rne_div n d"
proof (cases "m div d = n div d")
  case True
  then have "m mod d \<le> n mod d"
    using assms(2) by (metis div_mult_mod_eq nat_add_left_cancel_le)
  with True show ?thesis by (auto simp: rne_div_def Let_def)
next
  case False
  with assms have "m div d < n div d" by (simp add: div_le_mono le_neq_implies_less)
  then show ?thesis by (auto simp: rne_div_def Let_def)
qed

lemma rne_div_le: "0 < d \<Longrightarrow> n \<le> k * d \<Longrightarrow> rne_div n d \<le> k"
proof -
  assume d: "0 < d" and n: "n \<le> k * d"
  have "rne_div n d \<le> rne_div (k * d) d" using d n by (rule rne_div_mono)
  also have "\<dots> = k" using d by (simp add: rne_div_def)
  finally show ?thesis .
qed

lemma rne_div_ge: "0 < d \<Longrightarrow> k * d \<le> n \<Longrightarrow> k \<le> rne_div n d"
proof -
  assume d: "0 < d" and n: "k * d \<le> n"
  have "k = rne_div (k * d) d" using d by (simp add: rne_div_def)
  also have "\<dots> \<le> rne_div n d" using d n by (rule rne_div_mono)
  finally show ?thesis .
qed

lemma quantum_bound: "n div (d * 2 ^ quantum n d) < 2 ^ 24"
proof -
  have "bit_length (n div d) \<le> quantum n d + 24" by (simp add: quantum_def)
  then have "n div d < 2 ^ 24 * 2 ^ quantum n d"
    by (simp only: bit_length_le_iff power_add [symmetric] add.commute)
  then show ?thesis by (simp only: div_mult2_eq less_mult_imp_div_less)
qed

lemma quantum_mono: "m \<le> n \<Longrightarrow> quantum m d \<le> quantum n d"
  unfolding quantum_def by (intro diff_le_mono bit_length_mono div_le_mono)

lemma round_mag_le_pow:
  assumes "0 < d"
  shows "round_mag n d \<le> 2 ^ (24 + quantum n d)"
proof -
  let ?D = "d * 2 ^ quantum n d"
  have "n < 2 ^ 24 * ?D"
    using quantum_bound [of n d] assms by (simp add: div_less_iff_less_mult)
  then have "rne_div n ?D \<le> 2 ^ 24" using assms by (intro rne_div_le) simp_all
  then show ?thesis by (simp add: round_mag_def power_add)
qed

lemma round_mag_ge_pow:
  assumes "0 < d" and "0 < quantum n d"
  shows "2 ^ (23 + quantum n d) \<le> round_mag n d"
proof -
  let ?q = "quantum n d"
  have "\<not> bit_length (n div d) \<le> 23 + ?q" using assms(2) by (simp add: quantum_def)
  then have "2 ^ (23 + ?q) \<le> n div d" by (simp only: bit_length_le_iff not_less)
  then have "2 ^ (23 + ?q) * d \<le> n"
    using assms(1) by (simp add: less_eq_div_iff_mult_less_eq)
  then have "2 ^ 23 * (d * 2 ^ ?q) \<le> n" by (simp add: power_add mult.commute mult.left_commute)
  then have "2 ^ 23 \<le> rne_div n (d * 2 ^ ?q)" using assms(1) by (intro rne_div_ge) simp_all
  then show ?thesis by (simp add: round_mag_def power_add)
qed

lemma round_mag_mono:
  assumes "0 < d" and "m \<le> n"
  shows "round_mag m d \<le> round_mag n d"
proof (cases "quantum m d = quantum n d")
  case True
  then show ?thesis using assms by (simp add: round_mag_def rne_div_mono)
next
  case False
  with quantum_mono [OF assms(2), of d] have q: "quantum m d < quantum n d" by (simp add: le_less)
  have "round_mag m d \<le> 2 ^ (24 + quantum m d)" using assms(1) by (rule round_mag_le_pow)
  also have "\<dots> \<le> 2 ^ (23 + quantum n d)" using q by (intro power_increasing) simp_all
  also have "\<dots> \<le> round_mag n d" using assms(1) q by (intro round_mag_ge_pow) simp_all
  finally show ?thesis .
qed

text \<open>A magnitude that has at most 24 significant bits is left alone by rounding.\<close>

definition representable :: "nat \<Rightarrow> bool" where
  "representable m \<longleftrightarrow> 2 ^ quantum m 1 dvd m"

lemma round_mag_exact: "representable m \<Longrightarrow> 0 < d \<Longrightarrow> round_mag (m * d) d = m"
  by (simp add: round_mag_def quantum_def representable_def rne_div_def Let_def
      mult.commute [of m d] div_mult_mult1 mult_mod_right [symmetric])

lemma round_mag_error:
  assumes "0 < d"
  shows "2 * n \<le> 2 * (round_mag n d * d) + d * 2 ^ quantum n d"
    and "2 * (round_mag n d * d) \<le> 2 * n + d * 2 ^ quantum n d"
  using rne_div_bounds [of "d * 2 ^ quantum n d" n] assms
  by (simp_all add: round_mag_def algebra_simps)

section \<open>Clamping\<close>

lemma f32_clamp_finite:
  "f32_is_finite lo \<Longrightarrow> f32_is_finite hi \<Longrightarrow> f32_is_finite x \<Longrightarrow> f32_is_finite (f32_clamp x lo hi)"
  by (simp add: f32_clamp_def Let_def)

lemma f32_not_lt: "a \<noteq> NaN \<Longrightarrow> b \<noteq> NaN \<Longrightarrow> \<not> f32_lt a b \<longleftrightarrow> f32_le b a"
  by (cases a; cases b) (auto simp: f32_le_def)

lemma f32_clamp_range:
  assumes "x \<noteq> NaN" and "lo \<noteq> NaN" and "hi \<noteq> NaN" and "\<not> f32_lt hi lo"
  shows "\<not> f32_lt (f32_clamp x lo hi) lo" and "\<not> f32_lt hi (f32_clamp x lo hi)"
  using assms by (cases lo; cases hi; auto simp: f32_clamp_def Let_def)+

lemma f32_clamp_id: "\<not> f32_lt x lo \<Longrightarrow> \<not> f32_lt hi x \<Longrightarrow> f32_clamp x lo hi = x"
  by (simp add: f32_clamp_def)

section \<open>The literals of the layout code\<close>

lemmas f32_eval = f32_lit_def f32_round_def round_mag_def quantum_def bit_length.simps
  rne_div_def f32_overflow_def f32_sub_def f32_le_def f32_clamp_def f32_min_def
  f32_zero_def f32_epsilon_def f32_total_less_def Let_def

text \<open>\<open>0.1\<close> is \<open>13421773 / 2\<^sup>2\<^sup>7\<close>, \<open>0.9\<close> is \<open>15099494 / 2\<^sup>2\<^sup>4\<close>, \<open>0.5\<close> and \<open>1.0\<close> are exact.\<close>

definition ratio_min :: f32 where
  "ratio_min = f32_lit 1 10"

definition ratio_max :: f32 where
  "ratio_max = f32_lit 9 10"

definition ratio_half :: f32 where
  "ratio_half = f32_lit 1 2"

definition f32_one :: f32 where
  "f32_one = f32_lit 1 1"

lemma f32_literals:
  "ratio_min = Fin False (13421773 * 2 ^ 122)"
  "ratio_max = Fin False (15099494 * 2 ^ 125)"
  "ratio_half = Fin False (2 ^ 148)"
  "f32_one = Fin False (2 ^ 149)"
  "f32_lit 4 10 = Fin False (13421773 * 2 ^ 124)"
  by (simp_all add: ratio_min_def ratio_max_def ratio_half_def f32_one_def f32_eval)

lemma f32_ratio_bounds [simp]:
  "ratio_min \<noteq> NaN" "ratio_max \<noteq> NaN" "f32_is_finite ratio_min" "f32_is_finite ratio_max"
  "f32_is_finite ratio_half" "\<not> f32_lt ratio_max ratio_min"
  "\<not> f32_lt ratio_half ratio_min" "\<not> f32_lt ratio_max ratio_half"
  by (simp_all add: f32_literals)

end
