(* ===== verification/Pane_Layout.thy ===== *)
theory Pane_Layout
  imports Session_Ids Float32
begin

text \<open>
  The binary split tree of a Tab (\<open>session/layout.rs\<close> and the geometry of \<open>session.rs\<close>):
  splitting, removal, swapping, ratios, and the directional neighbour search over the
  rectangles the tree describes. A function of the source that mutates its layout through
  \<open>&mut\<close> returns the new layout beside its result.
\<close>

datatype split_direction = Horizontal | Vertical

datatype pane_direction = Left | Right | Up | Down

datatype pane_layout =
    Pane pane_id
  | Split split_direction f32 pane_layout pane_layout

record pane_rect =
  pr_id :: pane_id
  pr_left :: f32
  pr_top :: f32
  pr_right :: f32
  pr_bottom :: f32

section \<open>The operations of the source\<close>

fun side_direction :: "pane_direction \<Rightarrow> split_direction" where
  "side_direction Left = Horizontal"
| "side_direction Right = Horizontal"
| "side_direction Up = Vertical"
| "side_direction Down = Vertical"

fun side_order :: "pane_direction \<Rightarrow> pane_id \<Rightarrow> pane_id \<Rightarrow> pane_id \<times> pane_id" where
  "side_order Left new_pane target = (new_pane, target)"
| "side_order Up new_pane target = (new_pane, target)"
| "side_order Right new_pane target = (target, new_pane)"
| "side_order Down new_pane target = (target, new_pane)"

fun split_layout ::
  "pane_layout \<Rightarrow> pane_id \<Rightarrow> pane_id \<Rightarrow> pane_direction \<Rightarrow> f32 \<Rightarrow> bool \<times> pane_layout" where
  "split_layout (Pane i) target new_pane side ratio =
     (if i = target
      then let (first, second) = side_order side new_pane target
           in (True, Split (side_direction side) ratio (Pane first) (Pane second))
      else (False, Pane i))"
| "split_layout (Split d r first second) target new_pane side ratio =
     (let (ok, first') = split_layout first target new_pane side ratio in
      if ok then (True, Split d r first' second)
      else let (ok, second') = split_layout second target new_pane side ratio
           in (ok, Split d r first' second'))"

fun pane_layout_depth :: "pane_layout \<Rightarrow> pane_id \<Rightarrow> nat \<Rightarrow> nat option" where
  "pane_layout_depth (Pane i) target depth = (if i = target then Some depth else None)"
| "pane_layout_depth (Split d r first second) target depth =
     (case pane_layout_depth first target (depth + 1) of
        Some k \<Rightarrow> Some k
      | None \<Rightarrow> pane_layout_depth second target (depth + 1))"

definition valid_split_ratio :: "f32 \<Rightarrow> f32" where
  "valid_split_ratio ratio =
     (if f32_is_finite ratio then f32_clamp ratio ratio_min ratio_max else ratio_half)"

fun remove_from_layout :: "pane_layout \<Rightarrow> pane_id \<Rightarrow> pane_layout option" where
  "remove_from_layout (Pane i) target = (if i = target then None else Some (Pane i))"
| "remove_from_layout (Split d r first second) target =
     (case (remove_from_layout first target, remove_from_layout second target) of
        (None, Some second') \<Rightarrow> Some second'
      | (Some first', None) \<Rightarrow> Some first'
      | (Some first', Some second') \<Rightarrow> Some (Split d r first' second')
      | (None, None) \<Rightarrow> None)"

fun first_pane_id :: "pane_layout \<Rightarrow> pane_id" where
  "first_pane_id (Pane i) = i"
| "first_pane_id (Split d r first second) = first_pane_id first"

fun collect_pane_rects :: "pane_layout \<Rightarrow> f32 \<Rightarrow> f32 \<Rightarrow> f32 \<Rightarrow> f32 \<Rightarrow> pane_rect list" where
  "collect_pane_rects (Pane i) left upper right lower =
     [\<lparr>pr_id = i, pr_left = left, pr_top = upper, pr_right = right, pr_bottom = lower\<rparr>]"
| "collect_pane_rects (Split Horizontal ratio first second) left upper right lower =
     (let split = f32_add left (f32_mul (f32_sub right left) ratio) in
      collect_pane_rects first left upper split lower
      @ collect_pane_rects second split upper right lower)"
| "collect_pane_rects (Split Vertical ratio first second) left upper right lower =
     (let split = f32_add upper (f32_mul (f32_sub lower upper) ratio) in
      collect_pane_rects first left upper right split
      @ collect_pane_rects second left split right lower)"

definition interval_gap :: "f32 \<Rightarrow> f32 \<Rightarrow> f32 \<Rightarrow> f32 \<Rightarrow> f32" where
  "interval_gap first_start first_end second_start second_end =
     (if f32_lt first_end second_start then f32_sub second_start first_end
      else if f32_lt second_end first_start then f32_sub first_start second_end
      else f32_zero)"

definition center_offset :: "f32 \<Rightarrow> f32 \<Rightarrow> f32 \<Rightarrow> f32 \<Rightarrow> f32" where
  "center_offset a b c d = f32_abs (f32_sub (f32_add a b) (f32_add c d))"

definition weighted_score :: "f32 \<Rightarrow> f32 \<Rightarrow> f32 \<Rightarrow> f32" where
  "weighted_score primary secondary center =
     f32_add (f32_add (f32_mul primary (f32_lit 100 1)) (f32_mul secondary (f32_lit 10 1))) center"

fun directional_score :: "pane_rect \<Rightarrow> pane_rect \<Rightarrow> pane_direction \<Rightarrow> f32 option" where
  "directional_score t c Left =
     (if f32_le (pr_right c) (f32_add (pr_left t) f32_epsilon)
      then Some (weighted_score (f32_sub (pr_left t) (pr_right c))
             (interval_gap (pr_top t) (pr_bottom t) (pr_top c) (pr_bottom c))
             (center_offset (pr_top t) (pr_bottom t) (pr_top c) (pr_bottom c)))
      else None)"
| "directional_score t c Right =
     (if f32_le (f32_sub (pr_right t) f32_epsilon) (pr_left c)
      then Some (weighted_score (f32_sub (pr_left c) (pr_right t))
             (interval_gap (pr_top t) (pr_bottom t) (pr_top c) (pr_bottom c))
             (center_offset (pr_top t) (pr_bottom t) (pr_top c) (pr_bottom c)))
      else None)"
| "directional_score t c Up =
     (if f32_le (pr_bottom c) (f32_add (pr_top t) f32_epsilon)
      then Some (weighted_score (f32_sub (pr_top t) (pr_bottom c))
             (interval_gap (pr_left t) (pr_right t) (pr_left c) (pr_right c))
             (center_offset (pr_left t) (pr_right t) (pr_left c) (pr_right c)))
      else None)"
| "directional_score t c Down =
     (if f32_le (f32_sub (pr_bottom t) f32_epsilon) (pr_top c)
      then Some (weighted_score (f32_sub (pr_top c) (pr_bottom t))
             (interval_gap (pr_left t) (pr_right t) (pr_left c) (pr_right c))
             (center_offset (pr_left t) (pr_right t) (pr_left c) (pr_right c)))
      else None)"

text \<open>\<open>Iterator::min_by\<close> with \<open>f32::total_cmp\<close>: the first of the least elements.\<close>

fun min_by_score :: "('a \<times> f32) list \<Rightarrow> ('a \<times> f32) option" where
  "min_by_score [] = None"
| "min_by_score (x # xs) =
     Some (fold (\<lambda>y best. if f32_total_less (snd y) (snd best) then y else best) xs x)"

definition neighbor_pane_id :: "pane_layout \<Rightarrow> pane_id \<Rightarrow> pane_direction \<Rightarrow> pane_id option" where
  "neighbor_pane_id layout target direction =
     (let rects = collect_pane_rects layout f32_zero f32_zero f32_one f32_one in
      case find (\<lambda>r. pr_id r = target) rects of
        None \<Rightarrow> None
      | Some t \<Rightarrow>
          map_option fst (min_by_score (List.map_filter
            (\<lambda>c. map_option (Pair (pr_id c)) (directional_score t c direction))
            (filter (\<lambda>c. pr_id c \<noteq> pr_id t) rects))))"

fun contains_pane :: "pane_layout \<Rightarrow> pane_id \<Rightarrow> bool" where
  "contains_pane (Pane i) p = (i = p)"
| "contains_pane (Split d r first second) p = (contains_pane first p \<or> contains_pane second p)"

fun resize_between :: "pane_layout \<Rightarrow> pane_id \<Rightarrow> pane_id \<Rightarrow> f32 \<Rightarrow> bool \<times> pane_layout" where
  "resize_between (Pane i) target neighbor amount = (False, Pane i)"
| "resize_between (Split d ratio first second) target neighbor amount =
     (let target_first = contains_pane first target;
          neighbor_first = contains_pane first neighbor in
      if target_first \<noteq> neighbor_first
      then let next = valid_split_ratio
                        (f32_add ratio (if target_first then amount else f32_neg amount))
           in if f32_eq next ratio then (False, Split d ratio first second)
              else (True, Split d next first second)
      else if target_first
      then let (ok, first') = resize_between first target neighbor amount
           in (ok, Split d ratio first' second)
      else let (ok, second') = resize_between second target neighbor amount
           in (ok, Split d ratio first second'))"

fun swap_layout_panes :: "pane_layout \<Rightarrow> pane_id \<Rightarrow> pane_id \<Rightarrow> pane_layout" where
  "swap_layout_panes (Pane i) first_id second_id =
     (if i = first_id then Pane second_id
      else if i = second_id then Pane first_id
      else Pane i)"
| "swap_layout_panes (Split d r first second) first_id second_id =
     Split d r (swap_layout_panes first first_id second_id)
               (swap_layout_panes second first_id second_id)"

fun split_count :: "pane_layout \<Rightarrow> nat" where
  "split_count (Pane i) = 0"
| "split_count (Split d r first second) = 1 + split_count first + split_count second"

text \<open>The ratio iterator is the list it still has to yield; \<open>None\<close> is the panic of \<open>expect\<close>.\<close>

fun apply_split_ratios :: "pane_layout \<Rightarrow> f32 list \<Rightarrow> (pane_layout \<times> f32 list) option" where
  "apply_split_ratios (Pane i) ratios = Some (Pane i, ratios)"
| "apply_split_ratios (Split d r first second) ratios =
     (case ratios of
        [] \<Rightarrow> None
      | ratio # ratios \<Rightarrow>
          (case apply_split_ratios first ratios of
             None \<Rightarrow> None
           | Some (first', ratios) \<Rightarrow>
               (case apply_split_ratios second ratios of
                  None \<Rightarrow> None
                | Some (second', ratios) \<Rightarrow>
                    Some (Split d (valid_split_ratio ratio) first' second', ratios))))"

text \<open>The derived \<open>PartialEq\<close> of a layout compares its ratios as floats.\<close>

fun layout_eq :: "pane_layout \<Rightarrow> pane_layout \<Rightarrow> bool" where
  "layout_eq (Pane i) (Pane j) = (i = j)"
| "layout_eq (Split d r a b) (Split e q u v) =
     (d = e \<and> f32_eq r q \<and> layout_eq a u \<and> layout_eq b v)"
| "layout_eq _ _ = False"

section \<open>What a layout is, for the statements\<close>

text \<open>The Panes in layout order, the height, the ratios in pre-order, and the ratio check of
  the snapshot code (\<open>is_finite\<close> and \<open>(0.1..=0.9).contains\<close>).\<close>

fun leaves :: "pane_layout \<Rightarrow> pane_id list" where
  "leaves (Pane i) = [i]"
| "leaves (Split d r a b) = leaves a @ leaves b"

fun layout_height :: "pane_layout \<Rightarrow> nat" where
  "layout_height (Pane i) = 1"
| "layout_height (Split d r a b) = Suc (max (layout_height a) (layout_height b))"

fun split_ratios :: "pane_layout \<Rightarrow> f32 list" where
  "split_ratios (Pane i) = []"
| "split_ratios (Split d r a b) = r # split_ratios a @ split_ratios b"

definition ratio_ok :: "f32 \<Rightarrow> bool" where
  "ratio_ok r \<longleftrightarrow> f32_is_finite r \<and> f32_le ratio_min r \<and> f32_le r ratio_max"

definition ratios_ok :: "pane_layout \<Rightarrow> bool" where
  "ratios_ok t \<longleftrightarrow> (\<forall>r \<in> set (split_ratios t). ratio_ok r)"

lemma ratios_ok_simps [simp]:
  "ratios_ok (Pane i)"
  "ratios_ok (Split d r a b) \<longleftrightarrow> ratio_ok r \<and> ratios_ok a \<and> ratios_ok b"
  by (auto simp: ratios_ok_def)

lemma leaves_not_Nil [simp]: "leaves t \<noteq> []"
  by (induction t) auto

lemma layout_height_pos [simp]: "0 < layout_height t"
  by (cases t) auto

lemma split_count_leaves: "Suc (split_count t) = length (leaves t)"
  by (induction t) auto

lemma length_split_ratios: "length (split_ratios t) = split_count t"
  by (induction t) auto

lemma first_pane_id_leaves: "first_pane_id t = hd (leaves t)"
  by (induction t) auto

lemma first_pane_id_in: "first_pane_id t \<in> set (leaves t)"
  by (simp add: first_pane_id_leaves)

lemma contains_pane_leaves: "contains_pane t p \<longleftrightarrow> p \<in> set (leaves t)"
  by (induction t) auto

section \<open>Ratios stay in range\<close>

lemma valid_split_ratio_ok: "ratio_ok (valid_split_ratio r)"
proof (cases "f32_is_finite r")
  case True
  then have n: "r \<noteq> NaN" by auto
  let ?c = "f32_clamp r ratio_min ratio_max"
  have fin: "f32_is_finite ?c" using True by (simp add: f32_clamp_finite)
  then have c: "?c \<noteq> NaN" by auto
  have "\<not> f32_lt ?c ratio_min" and "\<not> f32_lt ratio_max ?c"
    using n by (simp_all add: f32_clamp_range)
  then show ?thesis
    using True fin c by (simp add: valid_split_ratio_def ratio_ok_def f32_not_lt)
next
  case False
  then show ?thesis
    by (simp add: valid_split_ratio_def ratio_ok_def f32_literals f32_le_def)
qed

lemma valid_split_ratio_id: "ratio_ok r \<Longrightarrow> valid_split_ratio r = r"
proof -
  assume r: "ratio_ok r"
  then have "r \<noteq> NaN" by (auto simp: ratio_ok_def)
  with r have "\<not> f32_lt r ratio_min" and "\<not> f32_lt ratio_max r"
    by (simp_all add: ratio_ok_def f32_not_lt)
  with r show ?thesis by (simp add: valid_split_ratio_def ratio_ok_def f32_clamp_id)
qed

lemma ratio_ok_half: "ratio_ok ratio_half"
  by (simp add: ratio_ok_def f32_literals f32_le_def)

section \<open>Splitting\<close>

lemma side_order_cases: "side_order side n t = (n, t) \<or> side_order side n t = (t, n)"
  by (cases side) auto

lemma split_layout_found: "fst (split_layout t p n side r) \<longleftrightarrow> p \<in> set (leaves t)"
  by (induction t) (auto split: prod.splits)

lemma split_layout_missing: "p \<notin> set (leaves t) \<Longrightarrow> split_layout t p n side r = (False, t)"
  by (induction t) (auto split: prod.splits)

lemma split_layout_leaves:
  "p \<in> set (leaves t) \<Longrightarrow>
   mset (leaves (snd (split_layout t p n side r))) = add_mset n (mset (leaves t))"
proof (induction t)
  case (Pane i)
  then show ?case using side_order_cases [of side n i] by auto
next
  case (Split d q a b)
  show ?case
  proof (cases "p \<in> set (leaves a)")
    case True
    then show ?thesis
      using Split.IH(1) split_layout_found [of a p n side r] by (auto split: prod.splits)
  next
    case False
    then show ?thesis
      using Split split_layout_missing [OF False, of n side r] by (auto split: prod.splits)
  qed
qed

lemma split_layout_ratios:
  "ratio_ok r \<Longrightarrow> ratios_ok t \<Longrightarrow> ratios_ok (snd (split_layout t p n side r))"
  by (induction t) (auto split: prod.splits if_splits)

lemma pane_layout_depth_None: "pane_layout_depth t p d = None \<longleftrightarrow> p \<notin> set (leaves t)"
proof (induction t arbitrary: d)
  case (Split e r a b)
  from Split.IH(1) [of "d + 1"] Split.IH(2) [of "d + 1"] show ?case
    by (cases "pane_layout_depth a p (d + 1)") auto
qed simp

lemma pane_layout_depth_le:
  "pane_layout_depth t p d = Some k \<Longrightarrow> d \<le> k \<and> k < d + layout_height t"
  by (induction t arbitrary: d) (fastforce split: option.splits if_splits)+

lemma split_layout_height:
  "pane_layout_depth t p d = Some k \<Longrightarrow>
   d + layout_height (snd (split_layout t p n side r)) \<le> max (d + layout_height t) (k + 2)"
proof (induction t arbitrary: d)
  case (Pane i)
  then show ?case by (auto split: prod.splits if_splits)
next
  case (Split e q a b)
  show ?case
  proof (cases "p \<in> set (leaves a)")
    case True
    then have "fst (split_layout a p n side r)" by (simp add: split_layout_found)
    moreover from Split.prems True have "pane_layout_depth a p (d + 1) = Some k"
      using pane_layout_depth_None [of a p "d + 1"] by (auto split: option.splits)
    from Split.IH(1) [OF this]
    have "d + 1 + layout_height (snd (split_layout a p n side r))
        \<le> max (d + 1 + layout_height a) (k + 2)" .
    ultimately show ?thesis
      using pane_layout_depth_le [OF \<open>pane_layout_depth a p (d + 1) = Some k\<close>]
      by (auto simp: max_def split: prod.splits if_splits)
  next
    case False
    then have a: "pane_layout_depth a p (d + 1) = None" by (simp add: pane_layout_depth_None)
    with Split.prems have b: "pane_layout_depth b p (d + 1) = Some k" by simp
    from Split.IH(2) [OF b]
    have "d + 1 + layout_height (snd (split_layout b p n side r))
        \<le> max (d + 1 + layout_height b) (k + 2)" .
    then show ?thesis
      using pane_layout_depth_le [OF b] split_layout_missing [OF False, of n side r]
      by (auto simp: max_def split: prod.splits if_splits)
  qed
qed

section \<open>Removal\<close>

lemma remove_from_layout_None: "remove_from_layout t p = None \<longleftrightarrow> set (leaves t) \<subseteq> {p}"
  by (induction t) (auto split: option.splits)

lemma remove_from_layout_leaves:
  "remove_from_layout t p = Some t' \<Longrightarrow> leaves t' = filter (\<lambda>i. i \<noteq> p) (leaves t)"
proof (induction t arbitrary: t')
  case (Split d r a b)
  have nil: "remove_from_layout u p = None \<Longrightarrow> filter (\<lambda>i. i \<noteq> p) (leaves u) = []" for u
    by (auto simp: remove_from_layout_None filter_empty_conv)
  from Split show ?case by (auto simp: nil split: option.splits)
qed (auto split: if_splits)

lemma remove_from_layout_absent: "p \<notin> set (leaves t) \<Longrightarrow> remove_from_layout t p = Some t"
  by (induction t) auto

lemma remove_from_layout_height:
  "remove_from_layout t p = Some t' \<Longrightarrow> layout_height t' \<le> layout_height t"
  by (induction t arbitrary: t') (fastforce split: option.splits if_splits)+

lemma remove_from_layout_ratios:
  "remove_from_layout t p = Some t' \<Longrightarrow> ratios_ok t \<Longrightarrow> ratios_ok t'"
  by (induction t arbitrary: t') (fastforce split: option.splits if_splits)+

lemma split_then_remove:
  assumes "p \<in> set (leaves t)" and "n \<notin> set (leaves t)"
  shows "remove_from_layout (snd (split_layout t p n side r)) n = Some t"
  using assms
proof (induction t)
  case (Pane i)
  then show ?case by (cases side) auto
next
  case (Split d q a b)
  show ?case
  proof (cases "p \<in> set (leaves a)")
    case True
    then show ?thesis
      using Split split_layout_found [of a p n side r]
      by (auto simp: remove_from_layout_absent split: prod.splits option.splits)
  next
    case False
    then show ?thesis
      using Split split_layout_missing [OF False, of n side r]
      by (auto simp: remove_from_layout_absent split: prod.splits option.splits)
  qed
qed

section \<open>Swapping, resizing, ratios\<close>

definition swap_id :: "pane_id \<Rightarrow> pane_id \<Rightarrow> pane_id \<Rightarrow> pane_id" where
  "swap_id p q i = (if i = p then q else if i = q then p else i)"

lemma swap_layout_leaves: "leaves (swap_layout_panes t p q) = map (swap_id p q) (leaves t)"
  by (induction t) (auto simp: swap_id_def)

lemma swap_layout_involution: "swap_layout_panes (swap_layout_panes t p q) p q = t"
  by (induction t) auto

lemma swap_layout_ratios: "split_ratios (swap_layout_panes t p q) = split_ratios t"
  by (induction t) auto

lemma swap_layout_height: "layout_height (swap_layout_panes t p q) = layout_height t"
  by (induction t) auto

lemma swap_id_image: "p \<in> A \<Longrightarrow> q \<in> A \<Longrightarrow> swap_id p q ` A = A"
  by (auto simp: swap_id_def image_iff)

lemma inj_swap_id: "inj (swap_id p q)"
  by (auto simp: inj_def swap_id_def split: if_splits)

lemma swap_layout_perm:
  assumes "p \<in> set (leaves t)" and "q \<in> set (leaves t)"
  shows "set (leaves (swap_layout_panes t p q)) = set (leaves t)"
    and "distinct (leaves (swap_layout_panes t p q)) \<longleftrightarrow> distinct (leaves t)"
  using assms inj_swap_id [of p q]
  by (auto simp: swap_layout_leaves swap_id_image distinct_map inj_def intro: inj_onI)

lemma resize_between_leaves: "leaves (snd (resize_between t p q x)) = leaves t"
  by (induction t) (auto simp: Let_def split: prod.splits)

lemma resize_between_height: "layout_height (snd (resize_between t p q x)) = layout_height t"
  by (induction t) (auto simp: Let_def split: prod.splits)

lemma resize_between_ratios: "ratios_ok t \<Longrightarrow> ratios_ok (snd (resize_between t p q x))"
  by (induction t) (auto simp: Let_def valid_split_ratio_ok split: prod.splits)

lemma resize_between_unchanged: "\<not> fst (resize_between t p q x) \<Longrightarrow> snd (resize_between t p q x) = t"
  by (induction t) (auto simp: Let_def split: prod.splits)

lemma apply_split_ratios_Some:
  "split_count t \<le> length rs \<Longrightarrow>
   \<exists>t'. apply_split_ratios t rs = Some (t', drop (split_count t) rs)
      \<and> split_ratios t' = map valid_split_ratio (take (split_count t) rs)
      \<and> leaves t' = leaves t \<and> layout_height t' = layout_height t"
proof (induction t arbitrary: rs)
  case (Split d q a b)
  then obtain r rs' where rs: "rs = r # rs'" and len: "split_count a + split_count b \<le> length rs'"
    by (cases rs) auto
  from Split.IH(1) [of rs'] len obtain a' where a: "apply_split_ratios a rs' = Some (a', drop (split_count a) rs')"
    "split_ratios a' = map valid_split_ratio (take (split_count a) rs')"
    "leaves a' = leaves a" "layout_height a' = layout_height a" by auto
  from len have "split_count b \<le> length (drop (split_count a) rs')" by simp
  from Split.IH(2) [OF this] obtain b' where
    b: "apply_split_ratios b (drop (split_count a) rs') = Some (b', drop (split_count b) (drop (split_count a) rs'))"
    "split_ratios b' = map valid_split_ratio (take (split_count b) (drop (split_count a) rs'))"
    "leaves b' = leaves b" "layout_height b' = layout_height b" by blast
  from a b show ?case
    by (simp add: rs drop_drop add.commute map_append [symmetric] take_add [symmetric] del: map_append)
qed simp

section \<open>The neighbour search\<close>

lemma collect_pane_rects_ids: "map pr_id (collect_pane_rects t l u r b) = leaves t"
proof (induction t arbitrary: l u r b)
  case (Split d q x y)
  then show ?case by (cases d) (simp_all add: Let_def)
qed simp

lemma fold_min_in:
  "fold (\<lambda>y best. if f32_total_less (snd y) (snd best) then y else best) xs x \<in> insert x (set xs)"
  by (induction xs arbitrary: x) auto

lemma fold_min_least:
  "z \<in> insert x (set xs) \<Longrightarrow> \<not> f32_total_less (snd z)
     (snd (fold (\<lambda>y best. if f32_total_less (snd y) (snd best) then y else best) xs x))"
proof (induction xs arbitrary: x z)
  case (Cons y ys)
  let ?m = "if f32_total_less (snd y) (snd x) then y else x"
  have m: "\<not> f32_total_less (snd ?m) (snd (fold (\<lambda>y best. if f32_total_less (snd y) (snd best) then y else best) ys ?m))"
    by (rule Cons.IH) simp
  from Cons.prems consider "z \<in> set ys" | "z = x" | "z = y" by auto
  then show ?case
  proof cases
    case 1
    then show ?thesis using Cons.IH [of z ?m] by simp
  qed (use m in \<open>auto simp: f32_total_less_def split: if_splits\<close>)
qed (simp add: f32_total_less_def)

lemma min_by_score_in: "min_by_score xs = Some x \<Longrightarrow> x \<in> set xs"
  using fold_min_in [of "tl xs" "hd xs"] by (cases xs) auto

lemma min_by_score_least:
  "min_by_score xs = Some x \<Longrightarrow> y \<in> set xs \<Longrightarrow> \<not> f32_total_less (snd y) (snd x)"
  using fold_min_least [of y "hd xs" "tl xs"] by (cases xs) auto

lemma min_by_score_None: "min_by_score xs = None \<longleftrightarrow> xs = []"
  by (cases xs) auto

text \<open>The Panes a direction can reach from a rectangle, with their scores.\<close>

definition candidates :: "pane_layout \<Rightarrow> pane_rect \<Rightarrow> pane_direction \<Rightarrow> (pane_id \<times> f32) list" where
  "candidates layout t direction = List.map_filter
     (\<lambda>c. map_option (Pair (pr_id c)) (directional_score t c direction))
     (filter (\<lambda>c. pr_id c \<noteq> pr_id t)
        (collect_pane_rects layout f32_zero f32_zero f32_one f32_one))"

lemma neighbor_pane_id_candidates:
  "neighbor_pane_id layout p dir = Some q \<longleftrightarrow>
   (\<exists>t. find (\<lambda>r. pr_id r = p) (collect_pane_rects layout f32_zero f32_zero f32_one f32_one) = Some t
      \<and> (\<exists>s. min_by_score (candidates layout t dir) = Some (q, s)))"
  by (auto simp: neighbor_pane_id_def Let_def candidates_def split: option.splits)

lemma candidates_in: "(q, s) \<in> set (candidates layout t dir) \<Longrightarrow> q \<in> set (leaves layout) \<and> q \<noteq> pr_id t"
  using collect_pane_rects_ids [of layout f32_zero f32_zero f32_one f32_one, symmetric]
  by (auto simp: candidates_def List.map_filter_def)

lemma neighbor_pane_id_in:
  assumes "neighbor_pane_id layout p dir = Some q"
  shows "p \<in> set (leaves layout)" and "q \<in> set (leaves layout)" and "q \<noteq> p"
proof -
  let ?rs = "collect_pane_rects layout f32_zero f32_zero f32_one f32_one"
  from assms obtain t s where t: "find (\<lambda>r. pr_id r = p) ?rs = Some t"
    and m: "min_by_score (candidates layout t dir) = Some (q, s)"
    by (auto simp: neighbor_pane_id_candidates)
  from t have "t \<in> set ?rs" and id: "pr_id t = p" by (auto simp: find_Some_iff)
  then have "p \<in> pr_id ` set ?rs" by blast
  then show "p \<in> set (leaves layout)" by (metis collect_pane_rects_ids list.set_map)
  from candidates_in [OF min_by_score_in [OF m]] id
  show "q \<in> set (leaves layout)" and "q \<noteq> p" by auto
qed

end
