(* ===== verification/Agent_Model.thy ===== *)
theory Agent_Model
  imports Condr_Prelude
begin

text \<open>
  The supported agent CLIs (\<open>agent/mod.rs\<close> and one \<open>SPEC\<close> per agent), the states an agent
  reports, what a Client shows and notifies of them, and the conversation a Pane can resume.
  Of \<open>AgentSpec\<close> and \<open>HookSpec\<close> the fields that only the installer or the GUI read (marks,
  colours, configuration files, notes) are left out. \<open>str::to_lowercase\<close>, a Unicode table,
  is a parameter of the name lookup.
\<close>

datatype agent_kind =
    Claude | Codex | OpenCode | Pi | Omp | Antigravity | Grok | Cursor | Copilot | Kimi | Other

datatype agent_event_kind =
    SessionStart | PromptSubmit | PermissionRequest | QuestionAsked | ToolStart
  | ToolComplete | Stop | Interrupt | StopFailure

text \<open>What one hook invocation's JSON says (\<open>agent/hook.rs\<close>).\<close>

record hook_input =
  hi_source :: "rstr option"
  hi_session_id :: "rstr option"
  hi_tool_name :: "rstr option"
  hi_subagent :: bool
  hi_initial_prompt :: bool
  hi_prompt_id :: "rstr option"
  hi_fully_idle :: "bool option"
  hi_detail :: "rstr option"
  hi_question :: "rstr option"
  hi_command :: "rstr option"
  hi_message :: "rstr option"

record hook_spec =
  hs_question_tool :: "rstr option"
  hs_adjust :: "(hook_input \<Rightarrow> agent_event_kind \<Rightarrow> agent_event_kind option) option"
  hs_prompt_ids :: bool
  hs_reply :: "rstr option"

datatype agent_support = Full hook_spec | RecognitionOnly

record agent_spec =
  as_id :: rstr
  as_label :: rstr
  as_executable :: rstr
  as_aliases :: "rstr list"
  as_packages :: "rstr list"
  as_resume :: "rstr list"
  as_reports_at_startup :: bool
  as_reads_kitty_keys :: bool
  as_support :: agent_support

definition spec_hooks :: "agent_spec \<Rightarrow> hook_spec option" where
  "spec_hooks spec = (case as_support spec of Full hooks \<Rightarrow> Some hooks | RecognitionOnly \<Rightarrow> None)"

definition plain_hooks :: hook_spec where
  "plain_hooks = \<lparr>hs_question_tool = None, hs_adjust = None, hs_prompt_ids = False, hs_reply = None\<rparr>"

definition antigravity_adjust :: "hook_input \<Rightarrow> agent_event_kind \<Rightarrow> agent_event_kind option" where
  "antigravity_adjust input event =
     (if event \<noteq> Stop \<or> hi_fully_idle input = Some True then Some event else None)"

definition copilot_adjust :: "hook_input \<Rightarrow> agent_event_kind \<Rightarrow> agent_event_kind option" where
  "copilot_adjust input event =
     Some (if event = SessionStart \<and> hi_initial_prompt input then PromptSubmit else event)"

section \<open>The spec of each agent\<close>

definition claude_spec :: agent_spec where
  "claude_spec = \<lparr>as_id = str_lit ''claude'', as_label = str_lit ''Claude'',
     as_executable = str_lit ''claude'', as_aliases = [str_lit ''claude-code''],
     as_packages = [str_lit ''@anthropic-ai/claude-code''],
     as_resume = [str_lit ''--resume'', str_lit ''{id}''],
     as_reports_at_startup = True, as_reads_kitty_keys = True,
     as_support = Full (plain_hooks\<lparr>hs_question_tool := Some (str_lit ''AskUserQuestion'')\<rparr>)\<rparr>"

definition codex_spec :: agent_spec where
  "codex_spec = \<lparr>as_id = str_lit ''codex'', as_label = str_lit ''Codex'',
     as_executable = str_lit ''codex'', as_aliases = [],
     as_packages = [str_lit ''@openai/codex''],
     as_resume = [str_lit ''resume'', str_lit ''{id}''],
     as_reports_at_startup = False, as_reads_kitty_keys = False, as_support = Full plain_hooks\<rparr>"

definition opencode_spec :: agent_spec where
  "opencode_spec = \<lparr>as_id = str_lit ''opencode'', as_label = str_lit ''OpenCode'',
     as_executable = str_lit ''opencode'', as_aliases = [],
     as_packages = [str_lit ''opencode-ai''],
     as_resume = [str_lit ''--session'', str_lit ''{id}''],
     as_reports_at_startup = True, as_reads_kitty_keys = False, as_support = Full plain_hooks\<rparr>"

definition pi_spec :: agent_spec where
  "pi_spec = \<lparr>as_id = str_lit ''pi'', as_label = str_lit ''Pi'',
     as_executable = str_lit ''pi'', as_aliases = [],
     as_packages = [str_lit ''@earendil-works/pi-coding-agent'', str_lit ''@mariozechner/pi-coding-agent''],
     as_resume = [str_lit ''--session'', str_lit ''{id}''],
     as_reports_at_startup = True, as_reads_kitty_keys = False, as_support = Full plain_hooks\<rparr>"

definition omp_spec :: agent_spec where
  "omp_spec = \<lparr>as_id = str_lit ''omp'', as_label = str_lit ''Oh My Pi'',
     as_executable = str_lit ''omp'', as_aliases = [str_lit ''oh-my-pi''],
     as_packages = [str_lit ''@oh-my-pi/pi-coding-agent''],
     as_resume = [str_lit ''--session'', str_lit ''{id}''],
     as_reports_at_startup = True, as_reads_kitty_keys = False, as_support = Full plain_hooks\<rparr>"

definition antigravity_spec :: agent_spec where
  "antigravity_spec = \<lparr>as_id = str_lit ''antigravity'', as_label = str_lit ''Antigravity CLI'',
     as_executable = str_lit ''agy'', as_aliases = [], as_packages = [],
     as_resume = [str_lit ''--conversation'', str_lit ''{id}''],
     as_reports_at_startup = False, as_reads_kitty_keys = False,
     as_support = Full (plain_hooks\<lparr>hs_question_tool := Some (str_lit ''ask_question''),
        hs_adjust := Some antigravity_adjust, hs_reply := Some (str_lit ''{}'')\<rparr>)\<rparr>"

definition grok_spec :: agent_spec where
  "grok_spec = \<lparr>as_id = str_lit ''grok'', as_label = str_lit ''Grok Build'',
     as_executable = str_lit ''grok'', as_aliases = [str_lit ''grok-build''], as_packages = [],
     as_resume = [str_lit ''--resume'', str_lit ''{id}''],
     as_reports_at_startup = True, as_reads_kitty_keys = False,
     as_support = Full (plain_hooks\<lparr>hs_prompt_ids := True\<rparr>)\<rparr>"

definition cursor_spec :: agent_spec where
  "cursor_spec = \<lparr>as_id = str_lit ''cursor'', as_label = str_lit ''Cursor CLI'',
     as_executable = str_lit ''cursor-agent'', as_aliases = [], as_packages = [],
     as_resume = [str_lit ''--resume'', str_lit ''{id}''],
     as_reports_at_startup = False, as_reads_kitty_keys = False, as_support = Full plain_hooks\<rparr>"

definition copilot_spec :: agent_spec where
  "copilot_spec = \<lparr>as_id = str_lit ''copilot'', as_label = str_lit ''GitHub Copilot'',
     as_executable = str_lit ''copilot'', as_aliases = [str_lit ''github-copilot''],
     as_packages = [str_lit ''@github/copilot''], as_resume = [str_lit ''--resume={id}''],
     as_reports_at_startup = False, as_reads_kitty_keys = False,
     as_support = Full (plain_hooks\<lparr>hs_adjust := Some copilot_adjust\<rparr>)\<rparr>"

definition kimi_spec :: agent_spec where
  "kimi_spec = \<lparr>as_id = str_lit ''kimi'', as_label = str_lit ''Kimi Code'',
     as_executable = str_lit ''kimi'', as_aliases = [str_lit ''kimi-code''], as_packages = [],
     as_resume = [str_lit ''--session'', str_lit ''{id}''],
     as_reports_at_startup = False, as_reads_kitty_keys = False, as_support = RecognitionOnly\<rparr>"

definition other_spec :: agent_spec where
  "other_spec = \<lparr>as_id = str_lit ''other'', as_label = str_lit ''Agent'',
     as_executable = [], as_aliases = [], as_packages = [], as_resume = [],
     as_reports_at_startup = False, as_reads_kitty_keys = False, as_support = RecognitionOnly\<rparr>"

lemmas spec_defs = claude_spec_def codex_spec_def opencode_spec_def pi_spec_def omp_spec_def
  antigravity_spec_def grok_spec_def cursor_spec_def copilot_spec_def kimi_spec_def other_spec_def

fun agent_kind_spec :: "agent_kind \<Rightarrow> agent_spec" where
  "agent_kind_spec Claude = claude_spec"
| "agent_kind_spec Codex = codex_spec"
| "agent_kind_spec OpenCode = opencode_spec"
| "agent_kind_spec Pi = pi_spec"
| "agent_kind_spec Omp = omp_spec"
| "agent_kind_spec Antigravity = antigravity_spec"
| "agent_kind_spec Grok = grok_spec"
| "agent_kind_spec Cursor = cursor_spec"
| "agent_kind_spec Copilot = copilot_spec"
| "agent_kind_spec Kimi = kimi_spec"
| "agent_kind_spec Other = other_spec"

definition agent_hooks :: "agent_kind \<Rightarrow> hook_spec option" where
  "agent_hooks kind = spec_hooks (agent_kind_spec kind)"

definition all_agents :: "agent_kind list" where
  "all_agents = [Claude, Codex, OpenCode, Pi, Omp, Antigravity, Grok, Cursor, Copilot, Kimi]"

section \<open>Looking a name up\<close>

text \<open>\<open>rsplit\<close> on either separator, then the first component that is not empty.\<close>

definition is_path_separator :: "nat \<Rightarrow> bool" where
  "is_path_separator c \<longleftrightarrow> c = 47 \<or> c = 92"

definition path_basename :: "rstr \<Rightarrow> rstr" where
  "path_basename path =
     (let t = dropWhile is_path_separator (rev path) in
      if t = [] then path else rev (takeWhile (\<lambda>c. \<not> is_path_separator c) t))"

definition ends_with :: "rstr \<Rightarrow> rstr \<Rightarrow> bool" where
  "ends_with s suffix \<longleftrightarrow>
     length suffix \<le> length s \<and> drop (length s - length suffix) s = suffix"

definition lookup_suffixes :: "rstr list" where
  "lookup_suffixes = map str_lit [''.exe'', ''.cmd'', ''.bat'', ''.ps1'', ''.js'']"

definition normalized_lookup_name :: "(rstr \<Rightarrow> rstr) \<Rightarrow> rstr \<Rightarrow> rstr" where
  "normalized_lookup_name to_lowercase name =
     (let name = to_lowercase (trim name) in
      case find (ends_with name) lookup_suffixes of
        None \<Rightarrow> name
      | Some suffix \<Rightarrow> take (length name - length suffix) name)"

definition spec_named :: "agent_spec \<Rightarrow> rstr \<Rightarrow> bool" where
  "spec_named spec name \<longleftrightarrow>
     name = as_id spec \<or> name = as_executable spec \<or> name \<in> set (as_aliases spec)"

definition parse_label :: "(rstr \<Rightarrow> rstr) \<Rightarrow> rstr \<Rightarrow> agent_kind option" where
  "parse_label to_lowercase value =
     (let name = normalized_lookup_name to_lowercase (path_basename value) in
      find (\<lambda>kind. spec_named (agent_kind_spec kind) name) all_agents)"

section \<open>States, snapshots, alerts\<close>

datatype agent_state = Unknown | Idle | Working | Blocked | Done | Error

fun at_prompt :: "agent_state \<Rightarrow> bool" where
  "at_prompt state = (state \<in> {Idle, Done, Error})"

record agent_snapshot =
  sn_session_id :: "rstr option"
  sn_kind :: agent_kind
  sn_state :: agent_state
  sn_detail :: "rstr option"

datatype agent_display_state =
  ShowUnknown | ShowIdle | ShowWorking | ShowBlocked | ShowDone | ShowError

fun display_state :: "agent_state \<Rightarrow> bool \<Rightarrow> agent_display_state" where
  "display_state Done False = ShowIdle"
| "display_state Idle _ = ShowIdle"
| "display_state Done True = ShowDone"
| "display_state Unknown _ = ShowUnknown"
| "display_state Working _ = ShowWorking"
| "display_state Blocked _ = ShowBlocked"
| "display_state Error _ = ShowError"

datatype agent_alert = Finished | Failed | NeedsInput bool

definition alert_between :: "agent_snapshot option \<Rightarrow> agent_snapshot \<Rightarrow> agent_alert option" where
  "alert_between previous nxt =
     (case previous of
        None \<Rightarrow> None
      | Some previous \<Rightarrow>
          let p = sn_state previous; n = sn_state nxt in
          if p \<in> {Working, Blocked} \<and> n \<in> {Done, Idle} then Some Finished
          else if p \<in> {Working, Blocked} \<and> n = Error then Some Failed
          else if p = Blocked \<and> n = Blocked then
            (if sn_detail nxt \<noteq> None \<and> sn_detail nxt \<noteq> sn_detail previous
             then Some (NeedsInput True) else None)
          else if n = Blocked then Some (NeedsInput False)
          else None)"

section \<open>Resuming a conversation\<close>

record agent_resume =
  ar_kind :: agent_kind
  ar_session_id :: rstr

definition valid_session_id :: "rstr \<Rightarrow> bool" where
  "valid_session_id i \<longleftrightarrow>
     i \<noteq> [] \<and> str_len i \<le> 256 \<and> is_ascii_alphanumeric (hd (str_bytes i))
     \<and> (\<forall>b \<in> set (str_bytes i). is_ascii_alphanumeric b \<or> b = 45 \<or> b = 95)"

text \<open>\<open>str::replace\<close> of the placeholder, left to right and without overlap.\<close>

fun replace_str :: "rstr \<Rightarrow> rstr \<Rightarrow> rstr \<Rightarrow> rstr" where
  "replace_str pat by [] = []"
| "replace_str pat by (c # s) =
     (if pat \<noteq> [] \<and> take (length pat) (c # s) = pat
      then by @ replace_str pat by (drop (length pat) (c # s))
      else c # replace_str pat by s)"

definition resume_args :: "agent_resume \<Rightarrow> rstr list" where
  "resume_args resume =
     map (replace_str (str_lit ''{id}'') (ar_session_id resume))
       (as_resume (agent_kind_spec (ar_kind resume)))"

section \<open>Facts\<close>

lemma agent_hooks_cases:
  "agent_hooks kind = None \<longleftrightarrow> kind \<in> {Kimi, Other}"
  by (cases kind) (simp_all add: agent_hooks_def spec_hooks_def spec_defs)

lemma agent_hooks_prompt_ids:
  "(\<exists>h. agent_hooks kind = Some h \<and> hs_prompt_ids h) \<longleftrightarrow> kind = Grok"
  by (cases kind) (simp_all add: agent_hooks_def spec_hooks_def spec_defs plain_hooks_def)

lemma str_bytes_ascii_char:
  "(\<forall>b \<in> set (utf8_bytes c). is_ascii_alphanumeric b \<or> b = 45 \<or> b = 95) \<longleftrightarrow>
   is_ascii_alphanumeric c \<or> c = 45 \<or> c = 95"
  by (auto simp: utf8_bytes_def is_ascii_alphanumeric_def)

text \<open>A session id is made of ASCII letters, digits, dashes and underscores, never a control
  character, a space, a slash or a leading dash: safe as a command-line argument.\<close>

lemma valid_session_id_chars:
  assumes "valid_session_id i"
  shows "\<forall>c \<in> set i. is_ascii_alphanumeric c \<or> c = 45 \<or> c = 95"
  using assms str_bytes_ascii_char by (auto simp: valid_session_id_def str_bytes_def)

lemma valid_session_id_head: "valid_session_id i \<Longrightarrow> is_ascii_alphanumeric (hd i)"
  by (cases i)
    (auto simp: valid_session_id_def str_bytes_def utf8_bytes_def is_ascii_alphanumeric_def
       split: if_splits)

end
