(* ===== verification/Session_Model.thy ===== *)
theory Session_Model
  imports Pane_Layout Agent_Model
begin

text \<open>
  The Session data model (\<open>session.rs\<close>): Workspaces own Tabs, a terminal Tab owns Panes and
  their split tree, a viewer Tab names one file. With it come the look-ups the operations
  share, and the well-formedness every operation keeps, layer by layer: terminal layout, Tab,
  Workspace, Session. \<open>relative_path\<close> is a third-party crate: its three functions the code
  calls are the record \<open>relpath_api\<close>, an argument of what uses them.
\<close>

section \<open>Paths\<close>

text \<open>A \<open>PathBuf\<close> on Unix, as its text; \<open>Path::components\<close>, \<open>Path::file_name\<close> and \<open>Path::eq\<close>.\<close>

type_synonym path = rstr

datatype path_component = RootDir | CurDir | ParentDir | Normal rstr

fun split_slash :: "rstr \<Rightarrow> rstr list" where
  "split_slash [] = [[]]"
| "split_slash (c # s) =
     (if c = 47 then [] # split_slash s
      else case split_slash s of [] \<Rightarrow> [[c]] | seg # segs \<Rightarrow> (c # seg) # segs)"

definition component_of :: "rstr \<Rightarrow> path_component" where
  "component_of seg = (if seg = str_lit ''..'' then ParentDir else Normal seg)"

definition path_components :: "path \<Rightarrow> path_component list" where
  "path_components p =
     (let segs = split_slash p;
          kept = (\<lambda>segs. map component_of (filter (\<lambda>seg. seg \<noteq> [] \<and> seg \<noteq> str_lit ''.'') segs)) in
      if p \<noteq> [] \<and> hd p = 47 then RootDir # kept segs
      else if hd segs = str_lit ''.'' then CurDir # kept (tl segs)
      else kept segs)"

definition path_file_name :: "path \<Rightarrow> rstr option" where
  "path_file_name p =
     (case rev (path_components p) of Normal name # _ \<Rightarrow> Some name | _ \<Rightarrow> None)"

definition path_eq :: "path \<Rightarrow> path \<Rightarrow> bool" where
  "path_eq p q \<longleftrightarrow> path_components p = path_components q"

text \<open>\<open>relative_path::Component\<close> and the functions of that crate the Session calls.\<close>

datatype rp_component = RpCurDir | RpParentDir | RpNormal rstr

record relpath_api =
  rp_components :: "rstr \<Rightarrow> rp_component list"
  rp_strip_prefix :: "rstr \<Rightarrow> rstr \<Rightarrow> rstr option"
  rp_join :: "rstr \<Rightarrow> rstr \<Rightarrow> rstr"

fun rp_is_normal :: "rp_component \<Rightarrow> bool" where
  "rp_is_normal (RpNormal _) = True"
| "rp_is_normal _ = False"

definition valid_diff_path :: "relpath_api \<Rightarrow> rstr \<Rightarrow> bool" where
  "valid_diff_path rp p \<longleftrightarrow> p \<noteq> [] \<and> list_all rp_is_normal (rp_components rp p)"

section \<open>The structure\<close>

record pane =
  p_id :: pane_id
  p_cwd :: "path option"
  p_resume :: "agent_resume option"

record terminal_layout =
  tl_panes :: "pane list"
  tl_focused :: pane_id
  tl_history :: "pane_id list"
  tl_layout :: pane_layout
  tl_zoomed :: "pane_id option"

datatype tab_content = Terminals terminal_layout | Diff rstr | File rstr

record tab =
  t_id :: tab_id
  t_name :: rstr
  t_content :: tab_content

record worktree_association =
  wt_parent_id :: workspace_id
  wt_parent_root :: path
  wt_managed :: bool
  wt_base_branch :: "rstr option"

record workspace =
  w_id :: workspace_id
  w_name :: rstr
  w_root :: path
  w_worktree :: "worktree_association option"
  w_tabs :: "tab list"

record session =
  workspaces :: "workspace list"

record close_outcome =
  co_panes :: "pane_id list"
  co_tabs :: "tab_id list"
  co_workspaces :: "workspace_id list"

definition MAX_SNAPSHOT_WORKSPACES :: nat where "MAX_SNAPSHOT_WORKSPACES = 64"
definition MAX_SNAPSHOT_TABS :: nat where "MAX_SNAPSHOT_TABS = 256"
definition MAX_SNAPSHOT_PANES :: nat where "MAX_SNAPSHOT_PANES = 1024"
definition MAX_SNAPSHOT_LAYOUT_DEPTH :: nat where "MAX_SNAPSHOT_LAYOUT_DEPTH = 64"
definition MAX_SNAPSHOT_LAYOUT_NODES :: nat where
  "MAX_SNAPSHOT_LAYOUT_NODES = MAX_SNAPSHOT_PANES * 2 - 1"

lemmas snapshot_limits = MAX_SNAPSHOT_WORKSPACES_def MAX_SNAPSHOT_TABS_def
  MAX_SNAPSHOT_PANES_def MAX_SNAPSHOT_LAYOUT_DEPTH_def MAX_SNAPSHOT_LAYOUT_NODES_def

definition session_new :: session where
  "session_new = \<lparr>workspaces = []\<rparr>"

definition session_is_empty :: "session \<Rightarrow> bool" where
  "session_is_empty s \<longleftrightarrow> workspaces s = []"

section \<open>Tabs and look-ups\<close>

fun same_viewer_kind :: "tab_content \<Rightarrow> tab_content \<Rightarrow> bool" where
  "same_viewer_kind (Diff _) (Diff _) = True"
| "same_viewer_kind (File _) (File _) = True"
| "same_viewer_kind _ _ = False"

fun content_terminals :: "tab_content \<Rightarrow> terminal_layout option" where
  "content_terminals (Terminals tm) = Some tm"
| "content_terminals _ = None"

definition tab_terminals :: "tab \<Rightarrow> terminal_layout option" where
  "tab_terminals t = content_terminals (t_content t)"

definition tab_diff :: "tab \<Rightarrow> rstr option" where
  "tab_diff t = (case t_content t of Diff p \<Rightarrow> Some p | _ \<Rightarrow> None)"

definition tab_file :: "tab \<Rightarrow> rstr option" where
  "tab_file t = (case t_content t of File p \<Rightarrow> Some p | _ \<Rightarrow> None)"

definition tab_panes :: "tab \<Rightarrow> pane list" where
  "tab_panes t = (case tab_terminals t of Some tm \<Rightarrow> tl_panes tm | None \<Rightarrow> [])"

text \<open>The outer \<open>option\<close> of \<open>focused_pane\<close> is the viewer case, the inner one its \<open>expect\<close>.\<close>

definition tab_focused_pane :: "tab \<Rightarrow> pane option option" where
  "tab_focused_pane t =
     map_option (\<lambda>tm. find (\<lambda>p. p_id p = tl_focused tm) (tl_panes tm)) (tab_terminals t)"

definition tab_focus_history :: "tab \<Rightarrow> pane_id list" where
  "tab_focus_history t = (case tab_terminals t of Some tm \<Rightarrow> tl_history tm | None \<Rightarrow> [])"

definition tab_pane_rects :: "tab \<Rightarrow> pane_rect list" where
  "tab_pane_rects t =
     (case tab_terminals t of
        Some tm \<Rightarrow> collect_pane_rects (tl_layout tm) f32_zero f32_zero f32_one f32_one
      | None \<Rightarrow> [])"

definition tab_neighbor :: "tab \<Rightarrow> pane_id \<Rightarrow> pane_direction \<Rightarrow> pane_id option" where
  "tab_neighbor t p dir =
     (case tab_terminals t of Some tm \<Rightarrow> neighbor_pane_id (tl_layout tm) p dir | None \<Rightarrow> None)"

definition tab_zoomed_pane_id :: "tab \<Rightarrow> pane_id option" where
  "tab_zoomed_pane_id t = (case tab_terminals t of Some tm \<Rightarrow> tl_zoomed tm | None \<Rightarrow> None)"

definition single_terminal :: "pane \<Rightarrow> terminal_layout" where
  "single_terminal p = \<lparr>tl_panes = [p], tl_focused = p_id p, tl_history = [],
     tl_layout = Pane (p_id p), tl_zoomed = None\<rparr>"

definition workspace_panes :: "workspace \<Rightarrow> pane list" where
  "workspace_panes w = concat (map tab_panes (w_tabs w))"

definition session_tabs :: "session \<Rightarrow> tab list" where
  "session_tabs s = concat (map w_tabs (workspaces s))"

definition session_panes :: "session \<Rightarrow> pane list" where
  "session_panes s = concat (map workspace_panes (workspaces s))"

definition find_workspace :: "session \<Rightarrow> workspace_id \<Rightarrow> workspace option" where
  "find_workspace s w = find (\<lambda>x. w_id x = w) (workspaces s)"

definition find_tab :: "session \<Rightarrow> tab_id \<Rightarrow> tab option" where
  "find_tab s t = find (\<lambda>x. t_id x = t) (session_tabs s)"

definition get_pane :: "session \<Rightarrow> pane_id \<Rightarrow> pane option" where
  "get_pane s p = find (\<lambda>x. p_id x = p) (session_panes s)"

definition workspace_for_pane :: "session \<Rightarrow> pane_id \<Rightarrow> workspace option" where
  "workspace_for_pane s p =
     find (\<lambda>w. list_ex (\<lambda>x. p_id x = p) (workspace_panes w)) (workspaces s)"

definition session_diff_tab :: "session \<Rightarrow> workspace_id \<Rightarrow> tab option" where
  "session_diff_tab s w =
     (case find_workspace s w of
        None \<Rightarrow> None | Some ws \<Rightarrow> find (\<lambda>t. tab_diff t \<noteq> None) (w_tabs ws))"

definition session_file_tab :: "session \<Rightarrow> workspace_id \<Rightarrow> tab option" where
  "session_file_tab s w =
     (case find_workspace s w of
        None \<Rightarrow> None | Some ws \<Rightarrow> find (\<lambda>t. tab_file t \<noteq> None) (w_tabs ws))"

definition workspace_by_root :: "session \<Rightarrow> path \<Rightarrow> workspace option" where
  "workspace_by_root s root = find (\<lambda>w. path_eq (w_root w) root) (workspaces s)"

definition workspace_position :: "session \<Rightarrow> workspace_id \<Rightarrow> nat option" where
  "workspace_position s w = position (\<lambda>x. w_id x = w) (workspaces s)"

definition tab_count :: "session \<Rightarrow> nat" where
  "tab_count s = sum_list (map (\<lambda>w. length (w_tabs w)) (workspaces s))"

definition pane_count :: "session \<Rightarrow> nat" where
  "pane_count s = sum_list (map (\<lambda>t. length (tab_panes t)) (session_tabs s))"

text \<open>\<open>find_pane\<close>: the three nested loops, as the indices they return.\<close>

fun find_pane_tabs :: "tab list \<Rightarrow> pane_id \<Rightarrow> (nat \<times> nat) option" where
  "find_pane_tabs [] p = None"
| "find_pane_tabs (t # ts) p =
     (case position (\<lambda>x. p_id x = p) (tab_panes t) of
        Some pane_ix \<Rightarrow> Some (0, pane_ix)
      | None \<Rightarrow> map_option (\<lambda>(tab_ix, pane_ix). (Suc tab_ix, pane_ix)) (find_pane_tabs ts p))"

fun find_pane_workspaces :: "workspace list \<Rightarrow> pane_id \<Rightarrow> (nat \<times> nat \<times> nat) option" where
  "find_pane_workspaces [] p = None"
| "find_pane_workspaces (w # ws) p =
     (case find_pane_tabs (w_tabs w) p of
        Some (tab_ix, pane_ix) \<Rightarrow> Some (0, tab_ix, pane_ix)
      | None \<Rightarrow> map_option (\<lambda>(w_ix, rest). (Suc w_ix, rest)) (find_pane_workspaces ws p))"

definition find_pane :: "session \<Rightarrow> pane_id \<Rightarrow> (nat \<times> nat \<times> nat) option" where
  "find_pane s p = find_pane_workspaces (workspaces s) p"

text \<open>Writing through the \<open>&mut\<close> the source takes: one Workspace, one Tab, one terminal layout.\<close>

definition set_workspace :: "nat \<Rightarrow> workspace \<Rightarrow> session \<Rightarrow> session" where
  "set_workspace i w s = s\<lparr>workspaces := (workspaces s)[i := w]\<rparr>"

definition set_tab :: "nat \<Rightarrow> nat \<Rightarrow> tab \<Rightarrow> session \<Rightarrow> session" where
  "set_tab i j t s =
     (let w = workspaces s ! i in set_workspace i (w\<lparr>w_tabs := (w_tabs w)[j := t]\<rparr>) s)"

definition tab_at :: "session \<Rightarrow> nat \<Rightarrow> nat \<Rightarrow> tab" where
  "tab_at s i j = w_tabs (workspaces s ! i) ! j"

definition set_terminals :: "nat \<Rightarrow> nat \<Rightarrow> terminal_layout \<Rightarrow> session \<Rightarrow> session" where
  "set_terminals i j tm s = set_tab i j ((tab_at s i j)\<lparr>t_content := Terminals tm\<rparr>) s"

text \<open>\<open>terminal_layout_mut\<close>: the layout of the Tab \<open>find_pane\<close> located. \<open>None\<close> is the panic
  of its \<open>expect\<close>.\<close>

definition terminal_layout_at :: "session \<Rightarrow> nat \<Rightarrow> nat \<Rightarrow> terminal_layout option" where
  "terminal_layout_at s i j = tab_terminals (tab_at s i j)"

section \<open>Well-formedness\<close>

abbreviation pane_ids_of :: "terminal_layout \<Rightarrow> pane_id list" where
  "pane_ids_of tm \<equiv> map p_id (tl_panes tm)"

definition wf_pane :: "pane \<Rightarrow> bool" where
  [wf_simps]: "wf_pane p \<longleftrightarrow> valid_id (pane_u64 (p_id p))
     \<and> (\<forall>r. p_resume p = Some r \<longrightarrow> valid_session_id (ar_session_id r))"

text \<open>Focus is on a Pane of the Tab; the history names other Panes of it, each once; the
  split tree holds exactly the Panes, each once, with ratios in range.\<close>

definition wf_terminals :: "terminal_layout \<Rightarrow> bool" where
  [wf_simps]: "wf_terminals tm \<longleftrightarrow>
     (\<forall>p \<in> set (tl_panes tm). wf_pane p)
     \<and> distinct (pane_ids_of tm)
     \<and> tl_focused tm \<in> set (pane_ids_of tm)
     \<and> distinct (tl_history tm)
     \<and> set (tl_history tm) \<subseteq> set (pane_ids_of tm) - {tl_focused tm}
     \<and> distinct (leaves (tl_layout tm))
     \<and> set (leaves (tl_layout tm)) = set (pane_ids_of tm)
     \<and> ratios_ok (tl_layout tm)"

text \<open>What the running Session keeps beyond what a snapshot records.\<close>

definition live_terminals :: "terminal_layout \<Rightarrow> bool" where
  [wf_simps]: "live_terminals tm \<longleftrightarrow> wf_terminals tm
     \<and> layout_height (tl_layout tm) \<le> MAX_SNAPSHOT_LAYOUT_DEPTH
     \<and> (\<forall>p. tl_zoomed tm = Some p \<longrightarrow> p \<in> set (pane_ids_of tm))"

definition wf_tab :: "relpath_api \<Rightarrow> tab \<Rightarrow> bool" where
  [wf_simps]: "wf_tab rp t \<longleftrightarrow> valid_id (tab_u64 (t_id t))
     \<and> (case t_content t of
          Terminals tm \<Rightarrow> live_terminals tm
        | Diff p \<Rightarrow> valid_diff_path rp p
        | File p \<Rightarrow> valid_diff_path rp p)"

definition wf_worktree :: "workspace_id \<Rightarrow> worktree_association \<Rightarrow> bool" where
  [wf_simps]: "wf_worktree w a \<longleftrightarrow> valid_id (workspace_u64 (wt_parent_id a))
     \<and> wt_parent_id a \<noteq> w \<and> wt_parent_root a \<noteq> []"

definition diff_tabs :: "tab list \<Rightarrow> tab list" where
  "diff_tabs ts = filter (\<lambda>t. tab_diff t \<noteq> None) ts"

definition file_tabs :: "tab list \<Rightarrow> tab list" where
  "file_tabs ts = filter (\<lambda>t. tab_file t \<noteq> None) ts"

definition wf_workspace :: "relpath_api \<Rightarrow> workspace \<Rightarrow> bool" where
  [wf_simps]: "wf_workspace rp w \<longleftrightarrow> valid_id (workspace_u64 (w_id w))
     \<and> w_name w \<noteq> [] \<and> w_tabs w \<noteq> []
     \<and> (\<forall>a. w_worktree w = Some a \<longrightarrow> wf_worktree (w_id w) a)
     \<and> length (diff_tabs (w_tabs w)) \<le> 1 \<and> length (file_tabs (w_tabs w)) \<le> 1
     \<and> (\<forall>t \<in> set (w_tabs w). wf_tab rp t)"

definition session_pane_ids :: "session \<Rightarrow> pane_id list" where
  "session_pane_ids s = map p_id (session_panes s)"

definition session_tab_ids :: "session \<Rightarrow> tab_id list" where
  "session_tab_ids s = map t_id (session_tabs s)"

definition session_workspace_ids :: "session \<Rightarrow> workspace_id list" where
  "session_workspace_ids s = map w_id (workspaces s)"

definition session_ids_below :: "session \<Rightarrow> u64 \<Rightarrow> bool" where
  "session_ids_below s nxt \<longleftrightarrow>
     (\<forall>w \<in> set (session_workspace_ids s). unat (workspace_u64 w) < unat nxt)
     \<and> (\<forall>t \<in> set (session_tab_ids s). unat (tab_u64 t) < unat nxt)
     \<and> (\<forall>p \<in> set (session_pane_ids s). unat (pane_u64 p) < unat nxt)"

definition within_limits :: "session \<Rightarrow> bool" where
  "within_limits s \<longleftrightarrow> length (workspaces s) \<le> MAX_SNAPSHOT_WORKSPACES
     \<and> tab_count s \<le> MAX_SNAPSHOT_TABS \<and> pane_count s \<le> MAX_SNAPSHOT_PANES"

definition wf_session :: "relpath_api \<Rightarrow> session \<Rightarrow> bool" where
  "wf_session rp s \<longleftrightarrow>
     distinct (session_workspace_ids s) \<and> distinct (session_tab_ids s)
     \<and> distinct (session_pane_ids s)
     \<and> (\<forall>w \<in> set (workspaces s). wf_workspace rp w)"

text \<open>The invariant of a running Server's Session: well-formed, inside the limits a snapshot
  may have, and every id handed out lies below the counter, so the next one is new.\<close>

definition session_inv :: "relpath_api \<Rightarrow> u64 \<Rightarrow> session \<Rightarrow> bool" where
  "session_inv rp nxt s \<longleftrightarrow>
     wf_session rp s \<and> within_limits s \<and> session_ids_below s nxt \<and> 0 < unat nxt"

end
