(* ===== verification/Session_Invariant.thy ===== *)
theory Session_Invariant
  imports Session_Model "HOL-Library.Multiset"
begin

text \<open>
  What the Session operations share: where \<open>find_pane\<close> points, and that replacing one
  Workspace, one Tab or one terminal layout keeps \<open>session_inv\<close>. Each lemma allows for ids
  that are new, namely at or above the counter, so it serves edits and creations alike.
\<close>

section \<open>Ids and counts\<close>

definition workspace_tab_ids :: "workspace \<Rightarrow> tab_id list" where
  "workspace_tab_ids w = map t_id (w_tabs w)"

definition tab_pane_ids :: "tab \<Rightarrow> pane_id list" where
  "tab_pane_ids t = map p_id (tab_panes t)"

definition workspace_pane_ids :: "workspace \<Rightarrow> pane_id list" where
  "workspace_pane_ids w = concat (map tab_pane_ids (w_tabs w))"

lemma session_tab_ids_concat: "session_tab_ids s = concat (map workspace_tab_ids (workspaces s))"
  by (simp add: session_tab_ids_def session_tabs_def workspace_tab_ids_def [abs_def] map_concat comp_def)

lemma workspace_pane_ids_panes: "workspace_pane_ids w = map p_id (workspace_panes w)"
  by (simp add: workspace_pane_ids_def workspace_panes_def tab_pane_ids_def [abs_def] map_concat comp_def)

lemma session_pane_ids_concat: "session_pane_ids s = concat (map workspace_pane_ids (workspaces s))"
  by (simp add: session_pane_ids_def session_panes_def workspace_pane_ids_panes [abs_def] map_concat comp_def)

lemma tab_count_ids: "tab_count s = length (session_tab_ids s)"
  by (simp add: tab_count_def session_tab_ids_concat length_concat workspace_tab_ids_def comp_def)

lemma sum_list_concat_map: "sum_list (map f (concat xss)) = sum_list (map (\<lambda>xs. sum_list (map f xs)) xss)"
  by (induction xss) simp_all

lemma pane_count_ids: "pane_count s = length (session_pane_ids s)"
  by (simp add: pane_count_def session_pane_ids_def session_panes_def session_tabs_def
      workspace_panes_def length_concat comp_def sum_list_concat_map)

lemma tab_pane_ids_terminals: "tab_terminals t = Some tm \<Longrightarrow> tab_pane_ids t = pane_ids_of tm"
  by (simp add: tab_pane_ids_def tab_panes_def)

lemma tab_terminals_Some: "tab_terminals t = Some tm \<longleftrightarrow> t_content t = Terminals tm"
  by (cases "t_content t") (simp_all add: tab_terminals_def)

lemma tab_terminals_panes: "tab_panes t \<noteq> [] \<Longrightarrow> \<exists>tm. tab_terminals t = Some tm"
  by (auto simp: tab_panes_def split: option.splits)

section \<open>Looking a Pane up\<close>

lemma find_pane_tabs_Some:
  "find_pane_tabs ts p = Some (j, k) \<Longrightarrow>
     j < length ts \<and> k < length (tab_panes (ts ! j)) \<and> p_id (tab_panes (ts ! j) ! k) = p"
proof (induction ts arbitrary: j)
  case (Cons t ts)
  then show ?case
    by (auto split: option.splits dest: position_Some)
qed simp

lemma find_pane_workspaces_Some:
  "find_pane_workspaces ws p = Some (i, j, k) \<Longrightarrow>
     i < length ws \<and> j < length (w_tabs (ws ! i))
     \<and> k < length (tab_panes (w_tabs (ws ! i) ! j)) \<and> p_id (tab_panes (w_tabs (ws ! i) ! j) ! k) = p"
proof (induction ws arbitrary: i)
  case (Cons w ws)
  then show ?case
    by (auto split: option.splits dest: find_pane_tabs_Some)
qed simp

lemma find_pane_Some:
  assumes "find_pane s p = Some (i, j, k)"
  shows "i < length (workspaces s)" and "j < length (w_tabs (workspaces s ! i))"
    and "k < length (tab_panes (tab_at s i j))" and "p_id (tab_panes (tab_at s i j) ! k) = p"
  using find_pane_workspaces_Some assms by (auto simp: find_pane_def tab_at_def)

lemma find_pane_tabs_None: "find_pane_tabs ts p = None \<longleftrightarrow> p \<notin> set (concat (map tab_pane_ids ts))"
proof (induction ts)
  case (Cons t ts)
  have "position (\<lambda>x. p_id x = p) (tab_panes t) = None \<longleftrightarrow> p \<notin> set (tab_pane_ids t)"
    by (auto simp: position_None tab_pane_ids_def)
  with Cons show ?case by (auto split: option.splits)
qed simp

lemma find_pane_workspaces_None:
  "find_pane_workspaces ws p = None \<longleftrightarrow> p \<notin> set (concat (map workspace_pane_ids ws))"
proof (induction ws)
  case (Cons w ws)
  have "find_pane_tabs (w_tabs w) p = None \<longleftrightarrow> p \<notin> set (workspace_pane_ids w)"
    by (simp add: find_pane_tabs_None workspace_pane_ids_def)
  with Cons show ?case by (auto split: option.splits)
qed simp

lemma find_pane_None: "find_pane s p = None \<longleftrightarrow> p \<notin> set (session_pane_ids s)"
  by (simp only: find_pane_def session_pane_ids_concat find_pane_workspaces_None)

lemma find_pane_terminals:
  assumes "find_pane s p = Some (i, j, k)"
  obtains tm where "terminal_layout_at s i j = Some tm" and "k < length (tl_panes tm)"
    and "p_id (tl_panes tm ! k) = p" and "p \<in> set (pane_ids_of tm)"
proof -
  note at = find_pane_Some [OF assms]
  then have "tab_panes (tab_at s i j) \<noteq> []" by auto
  then obtain tm where tm: "tab_terminals (tab_at s i j) = Some tm"
    using tab_terminals_panes by blast
  with at have "tab_panes (tab_at s i j) = tl_panes tm" by (simp add: tab_panes_def)
  with at tm show ?thesis
    by (intro that [of tm]) (auto simp: terminal_layout_at_def)
qed

lemma find_position: "find P xs = map_option ((!) xs) (position P xs)"
  by (induction xs) (auto simp: option.map_comp comp_def)

lemma find_append: "find P (xs @ ys) = (case find P xs of None \<Rightarrow> find P ys | Some x \<Rightarrow> Some x)"
  by (induction xs) auto

lemma find_pane_tabs_find:
  "find (\<lambda>x. p_id x = p) (concat (map tab_panes ts))
     = map_option (\<lambda>(j, k). tab_panes (ts ! j) ! k) (find_pane_tabs ts p)"
proof (induction ts)
  case (Cons t ts)
  then show ?case
    using find_position [of "\<lambda>x. p_id x = p" "tab_panes t"]
    by (auto simp: find_append option.map_comp comp_def case_prod_beta split: option.splits)
qed simp

lemma find_pane_workspaces_find:
  "find (\<lambda>x. p_id x = p) (concat (map workspace_panes ws))
     = map_option (\<lambda>(i, j, k). tab_panes (w_tabs (ws ! i) ! j) ! k) (find_pane_workspaces ws p)"
proof (induction ws)
  case (Cons w ws)
  then show ?case
    using find_pane_tabs_find [of p "w_tabs w"]
    by (auto simp: find_append workspace_panes_def option.map_comp comp_def case_prod_beta
        split: option.splits)
qed simp

text \<open>Every index triple is the first Pane with that id: \<open>find_pane\<close> and \<open>pane\<close> agree.\<close>

lemma find_pane_get_pane:
  "get_pane s p = map_option (\<lambda>(i, j, k). tab_panes (tab_at s i j) ! k) (find_pane s p)"
  by (simp add: get_pane_def session_panes_def find_pane_workspaces_find find_pane_def tab_at_def)

section \<open>Replacing a part keeps the invariant\<close>

text \<open>The ids of a block the counter handed out: none was in use before.\<close>

definition fresh_block :: "('i \<Rightarrow> u64) \<Rightarrow> 'i list \<Rightarrow> u64 \<Rightarrow> u64 \<Rightarrow> bool" where
  "fresh_block u is nxt nxt' \<longleftrightarrow>
     distinct is \<and> (\<forall>i \<in> set is. unat nxt \<le> unat (u i) \<and> unat (u i) < unat nxt')"

lemma fresh_block_Nil [simp]: "fresh_block u [] nxt nxt'"
  by (simp add: fresh_block_def)

lemma fresh_block_single [simp]:
  "fresh_block u [i] nxt nxt' \<longleftrightarrow> unat nxt \<le> unat (u i) \<and> unat (u i) < unat nxt'"
  by (simp add: fresh_block_def)

lemma distinct_fresh_append:
  assumes "distinct olds" and "\<forall>i \<in> set olds. unat (u i) < unat nxt" and "fresh_block u is nxt nxt'"
  shows "distinct (olds @ is)"
  using assms by (force simp: fresh_block_def)

text \<open>Members gained by one group come out of the fresh block, so distinctness survives.\<close>

lemma replace_group:
  assumes "i < length xs" and "mset (f y) \<subseteq># mset (f (xs ! i)) + mset is"
    and "distinct (concat (map f xs))"
    and "\<forall>z \<in> set (concat (map f xs)). unat (u z) < unat nxt"
    and "fresh_block u is nxt nxt'" and "unat nxt \<le> unat nxt'"
  shows "distinct (concat (map f (xs[i := y])))"
    and "\<forall>z \<in> set (concat (map f (xs[i := y]))). unat (u z) < unat nxt'"
    and "length (concat (map f (xs[i := y]))) \<le> length (concat (map f xs)) + length is"
proof -
  have le: "mset (concat (map f (xs[i := y]))) \<subseteq># mset (concat (map f xs) @ is)"
  proof (rule mset_subset_eqI)
    fix a
    have "count (mset (concat (map f (xs[i := y])))) a + count (mset (f (xs ! i))) a
        = count (mset (concat (map f xs))) a + count (mset (f y)) a"
      using arg_cong [OF mset_concat_map_update [OF assms(1), of f y], of "\<lambda>M. count M a"]
      by (simp only: count_union)
    moreover have "count (mset (f y)) a \<le> count (mset (f (xs ! i))) a + count (mset is) a"
      using mset_subset_eq_count [OF assms(2), of a] by (simp only: count_union)
    ultimately show "count (mset (concat (map f (xs[i := y])))) a
        \<le> count (mset (concat (map f xs) @ is)) a"
      by (simp only: mset_append count_union)
  qed
  from distinct_fresh_append [OF assms(3,4,5)] le
  show "distinct (concat (map f (xs[i := y])))" by (rule distinct_subset_mset [rotated])
  show "\<forall>z \<in> set (concat (map f (xs[i := y]))). unat (u z) < unat nxt'"
  proof
    fix z assume "z \<in> set (concat (map f (xs[i := y])))"
    then have "z \<in> set (concat (map f xs)) \<union> set is"
      using mset_subset_eqD [OF le] by (metis set_append set_mset_mset)
    then show "unat (u z) < unat nxt'"
      using assms(4,5,6) by (fastforce simp: fresh_block_def)
  qed
  show "length (concat (map f (xs[i := y]))) \<le> length (concat (map f xs)) + length is"
    using size_mset_mono [OF le] by simp
qed

lemma session_inv_ids:
  assumes "session_inv rp nxt s"
  shows "distinct (session_workspace_ids s)" and "distinct (session_tab_ids s)"
    and "distinct (session_pane_ids s)"
    and "\<forall>w \<in> set (session_workspace_ids s). unat (workspace_u64 w) < unat nxt"
    and "\<forall>t \<in> set (session_tab_ids s). unat (tab_u64 t) < unat nxt"
    and "\<forall>p \<in> set (session_pane_ids s). unat (pane_u64 p) < unat nxt"
    and "0 < unat nxt"
  using assms by (simp_all add: session_inv_def wf_session_def session_ids_below_def)

lemma session_inv_workspace:
  "session_inv rp nxt s \<Longrightarrow> i < length (workspaces s) \<Longrightarrow> wf_workspace rp (workspaces s ! i)"
  by (simp add: session_inv_def wf_session_def)

lemma session_inv_replace:
  assumes inv: "session_inv rp nxt s" and i: "i < length (workspaces s)"
    and w: "wf_workspace rp w'" "w_id w' = w_id (workspaces s ! i)"
    and ts: "mset (workspace_tab_ids w') \<subseteq># mset (workspace_tab_ids (workspaces s ! i)) + mset ts"
    and ps: "mset (workspace_pane_ids w') \<subseteq># mset (workspace_pane_ids (workspaces s ! i)) + mset ps"
    and fresh: "fresh_block tab_u64 ts nxt nxt'" "fresh_block pane_u64 ps nxt nxt'"
      "unat nxt \<le> unat nxt'"
    and room: "tab_count s + length ts \<le> MAX_SNAPSHOT_TABS"
      "pane_count s + length ps \<le> MAX_SNAPSHOT_PANES"
  shows "session_inv rp nxt' (set_workspace i w' s)"
proof -
  note ids = session_inv_ids [OF inv, unfolded session_tab_ids_concat session_pane_ids_concat]
  note t = replace_group [OF i ts ids(2,5) fresh(1,3)]
  note p = replace_group [OF i ps ids(3,6) fresh(2,3)]
  have ws: "session_workspace_ids (set_workspace i w' s) = session_workspace_ids s"
    using i w(2) by (simp add: session_workspace_ids_def set_workspace_def map_update_same)
  have "wf_session rp (set_workspace i w' s)"
    using inv ws t(1) p(1) w(1) unfolding session_inv_def wf_session_def
    by (auto simp: session_tab_ids_concat session_pane_ids_concat set_workspace_def
        elim: set_update_cases)
  moreover have "within_limits (set_workspace i w' s)"
    using inv t(3) p(3) room unfolding session_inv_def within_limits_def
    by (simp add: tab_count_ids pane_count_ids session_tab_ids_concat session_pane_ids_concat
        set_workspace_def)
  moreover have "session_ids_below (set_workspace i w' s) nxt'"
    using ids(4) ws t(2) p(2) fresh(3) unfolding session_ids_below_def
    by (auto simp: session_tab_ids_concat session_pane_ids_concat set_workspace_def
        simp del: set_concat dest: order_less_le_trans)
  ultimately show ?thesis
    using ids(7) fresh(3) by (simp add: session_inv_def)
qed

text \<open>The same without new ids.\<close>

lemma session_inv_edit:
  assumes inv: "session_inv rp nxt s" and i: "i < length (workspaces s)"
    and w: "wf_workspace rp w'" "w_id w' = w_id (workspaces s ! i)"
    and ts: "mset (workspace_tab_ids w') \<subseteq># mset (workspace_tab_ids (workspaces s ! i))"
    and ps: "mset (workspace_pane_ids w') \<subseteq># mset (workspace_pane_ids (workspaces s ! i))"
  shows "session_inv rp nxt (set_workspace i w' s)"
  using inv i w ts ps
  by (intro session_inv_replace [where ts = "[]" and ps = "[]"])
     (auto simp: session_inv_def within_limits_def)

section \<open>Tabs and terminal layouts\<close>

lemma length_filter_update:
  assumes "j < length xs" and "P y = P (xs ! j)"
  shows "length (filter P (xs[j := y])) = length (filter P xs)"
proof -
  have len: "length (filter P zs) = length (filter id (map P zs))" for zs
    by (induction zs) simp_all
  have "map P (xs[j := y]) = map P xs"
    using assms by (rule map_update_same)
  then show ?thesis by (simp only: len [of "xs[j := y]"] len [of xs])
qed

lemma wf_workspace_set_tab:
  assumes "wf_workspace rp w" and "j < length (w_tabs w)" and "wf_tab rp t"
    and "(tab_diff t = None) = (tab_diff (w_tabs w ! j) = None)"
    and "(tab_file t = None) = (tab_file (w_tabs w ! j) = None)"
  shows "wf_workspace rp (w\<lparr>w_tabs := (w_tabs w)[j := t]\<rparr>)"
proof -
  have "\<forall>x \<in> set ((w_tabs w)[j := t]). wf_tab rp x"
    using assms(1,3) unfolding wf_workspace_def by (metis set_update_cases)
  moreover have "length (diff_tabs ((w_tabs w)[j := t])) = length (diff_tabs (w_tabs w))"
    "length (file_tabs ((w_tabs w)[j := t])) = length (file_tabs (w_tabs w))"
    unfolding diff_tabs_def file_tabs_def using assms(2,4,5)
    by (auto intro!: length_filter_update)
  ultimately show ?thesis using assms(1) by (simp add: wf_workspace_def)
qed

lemma session_inv_set_tab:
  assumes inv: "session_inv rp nxt s" and i: "i < length (workspaces s)"
    and j: "j < length (w_tabs (workspaces s ! i))"
    and t: "wf_tab rp t" "t_id t = t_id (tab_at s i j)"
    and kind: "(tab_diff t = None) = (tab_diff (tab_at s i j) = None)"
      "(tab_file t = None) = (tab_file (tab_at s i j) = None)"
    and ps: "mset (tab_pane_ids t) \<subseteq># mset (tab_pane_ids (tab_at s i j)) + mset ps"
    and fresh: "fresh_block pane_u64 ps nxt nxt'" "unat nxt \<le> unat nxt'"
    and room: "pane_count s + length ps \<le> MAX_SNAPSHOT_PANES"
  shows "session_inv rp nxt' (set_tab i j t s)"
proof -
  let ?w = "workspaces s ! i"
  let ?w' = "?w\<lparr>w_tabs := (w_tabs ?w)[j := t]\<rparr>"
  have "wf_workspace rp ?w'"
    using session_inv_workspace [OF inv i] j t(1) kind
    by (intro wf_workspace_set_tab) (simp_all add: tab_at_def)
  moreover have "workspace_tab_ids ?w' = workspace_tab_ids ?w"
    using j t(2) by (simp add: workspace_tab_ids_def tab_at_def map_update_same)
  moreover have "mset (workspace_pane_ids ?w') \<subseteq># mset (workspace_pane_ids ?w) + mset ps"
  proof (rule mset_subset_eqI)
    fix a
    have "count (mset (workspace_pane_ids ?w')) a + count (mset (tab_pane_ids (tab_at s i j))) a
        = count (mset (workspace_pane_ids ?w)) a + count (mset (tab_pane_ids t)) a"
      using arg_cong [OF mset_concat_map_update [OF j, of tab_pane_ids t], of "\<lambda>M. count M a"]
      by (simp add: workspace_pane_ids_def tab_at_def)
    with mset_subset_eq_count [OF ps, of a]
    show "count (mset (workspace_pane_ids ?w')) a
        \<le> count (mset (workspace_pane_ids ?w) + mset ps) a" by simp
  qed
  moreover have "tab_count s \<le> MAX_SNAPSHOT_TABS"
    using inv by (simp add: session_inv_def within_limits_def)
  ultimately show ?thesis
    unfolding set_tab_def Let_def using inv i fresh room
    by (intro session_inv_replace [where ts = "[]" and ps = ps]) simp_all
qed

lemma session_inv_live:
  assumes "session_inv rp nxt s" and "i < length (workspaces s)"
    and "j < length (w_tabs (workspaces s ! i))"
  shows "wf_tab rp (tab_at s i j)"
  using session_inv_workspace [OF assms(1,2)] assms(3) by (simp add: wf_workspace_def tab_at_def)

lemma session_inv_live_terminals:
  assumes "session_inv rp nxt s" and "find_pane s p = Some (i, j, k)"
    and "terminal_layout_at s i j = Some tm"
  shows "live_terminals tm"
  using session_inv_live [OF assms(1) find_pane_Some(1,2) [OF assms(2)]] assms(3)
  by (simp add: wf_tab_def terminal_layout_at_def tab_terminals_Some)

lemma session_inv_set_terminals:
  assumes inv: "session_inv rp nxt s" and i: "i < length (workspaces s)"
    and j: "j < length (w_tabs (workspaces s ! i))"
    and tm: "terminal_layout_at s i j = Some tm" and live: "live_terminals tm'"
    and ps: "mset (pane_ids_of tm') \<subseteq># mset (pane_ids_of tm) + mset ps"
    and fresh: "fresh_block pane_u64 ps nxt nxt'" "unat nxt \<le> unat nxt'"
    and room: "pane_count s + length ps \<le> MAX_SNAPSHOT_PANES"
  shows "session_inv rp nxt' (set_terminals i j tm' s)"
proof -
  let ?t = "(tab_at s i j)\<lparr>t_content := Terminals tm'\<rparr>"
  from tm have content: "t_content (tab_at s i j) = Terminals tm"
    by (simp add: terminal_layout_at_def tab_terminals_Some)
  have "wf_tab rp ?t"
    using session_inv_live [OF inv i j] live by (simp add: wf_tab_def)
  moreover have "tab_pane_ids ?t = pane_ids_of tm'" "tab_pane_ids (tab_at s i j) = pane_ids_of tm"
    using content by (simp_all add: tab_pane_ids_def tab_panes_def tab_terminals_def)
  ultimately show ?thesis
    unfolding set_terminals_def using inv i j content ps fresh room
    by (intro session_inv_set_tab) (simp_all add: tab_diff_def tab_file_def)
qed

lemma session_inv_edit_terminals:
  assumes "session_inv rp nxt s" and "find_pane s p = Some (i, j, k)"
    and "terminal_layout_at s i j = Some tm" and "live_terminals tm'"
    and "mset (pane_ids_of tm') \<subseteq># mset (pane_ids_of tm)"
  shows "session_inv rp nxt (set_terminals i j tm' s)"
  using assms find_pane_Some(1,2) [OF assms(2)]
  by (intro session_inv_set_terminals [where ps = "[]" and tm = tm and nxt = nxt])
     (simp_all add: session_inv_def within_limits_def)

section \<open>Removing and reordering\<close>

lemma mset_concat_map_cong:
  assumes "mset xs = mset ys" shows "mset (concat (map f xs)) = mset (concat (map f ys))"
proof -
  have "mset (concat (map f zs)) = \<Sum>\<^sub># (image_mset (mset \<circ> f) (mset zs))" for zs
    by (simp add: mset_concat sum_mset_sum_list [symmetric] comp_def multiset.map_comp)
  with assms show ?thesis by simp
qed

lemma mset_concat_map_mono:
  assumes "mset xs \<subseteq># mset ys"
  shows "mset (concat (map f xs)) \<subseteq># mset (concat (map f ys))"
proof -
  obtain zs where "mset ys = mset xs + mset zs"
    using assms by (metis ex_mset mset_subset_eq_exists_conv)
  then have "mset ys = mset (xs @ zs)" by simp
  then show ?thesis using mset_concat_map_cong [of ys "xs @ zs" f] by simp
qed

lemma mset_map_mono: "mset xs \<subseteq># mset ys \<Longrightarrow> mset (map f xs) \<subseteq># mset (map f ys)"
  by (simp add: image_mset_subseteq_mono)

lemma subset_mset_set: "mset xs \<subseteq># mset ys \<Longrightarrow> set xs \<subseteq> set ys"
  by (metis set_mset_mono set_mset_mset)

lemma subset_mset_length: "mset xs \<subseteq># mset ys \<Longrightarrow> length xs \<le> length ys"
  using size_mset_mono by fastforce

lemma session_inv_fewer:
  assumes inv: "session_inv rp nxt s" and sub: "mset (workspaces s') \<subseteq># mset (workspaces s)"
  shows "session_inv rp nxt s'"
proof -
  have w: "mset (session_workspace_ids s') \<subseteq># mset (session_workspace_ids s)"
    using sub by (simp only: session_workspace_ids_def mset_map_mono)
  have t: "mset (session_tab_ids s') \<subseteq># mset (session_tab_ids s)"
    using sub by (simp only: session_tab_ids_concat mset_concat_map_mono)
  have p: "mset (session_pane_ids s') \<subseteq># mset (session_pane_ids s)"
    using sub by (simp only: session_pane_ids_concat mset_concat_map_mono)
  note sets = subset_mset_set [OF w] subset_mset_set [OF t] subset_mset_set [OF p]
  note lens = subset_mset_length [OF sub] subset_mset_length [OF t] subset_mset_length [OF p]
  note dist = distinct_subset_mset [OF w] distinct_subset_mset [OF t] distinct_subset_mset [OF p]
  have "wf_session rp s'"
    using inv dist subset_mset_set [OF sub] unfolding session_inv_def wf_session_def by auto
  moreover have "within_limits s'"
    using inv lens unfolding session_inv_def within_limits_def
    by (simp add: tab_count_ids pane_count_ids)
  moreover have "session_ids_below s' nxt"
    using inv sets unfolding session_inv_def session_ids_below_def by blast
  ultimately show ?thesis using inv by (simp add: session_inv_def)
qed

lemma session_inv_fewer_tabs:
  assumes inv: "session_inv rp nxt s" and i: "i < length (workspaces s)"
    and sub: "mset ts \<subseteq># mset (w_tabs (workspaces s ! i))" and "ts \<noteq> []"
  shows "session_inv rp nxt (set_workspace i ((workspaces s ! i)\<lparr>w_tabs := ts\<rparr>) s)"
proof (rule session_inv_edit [OF inv i])
  let ?old = "w_tabs (workspaces s ! i)"
  have flt: "length (filter P ts) \<le> length (filter P ?old)" for P
    using size_mset_mono [OF multiset_filter_mono [OF sub, of P]]
    by (metis mset_filter size_mset)
  note w = session_inv_workspace [OF inv i, unfolded wf_workspace_def]
  have "\<forall>t \<in> set ts. wf_tab rp t" using w subset_mset_set [OF sub] by blast
  moreover have "length (diff_tabs ts) \<le> 1" "length (file_tabs ts) \<le> 1"
    using w flt le_trans unfolding diff_tabs_def file_tabs_def by blast+
  ultimately show "wf_workspace rp ((workspaces s ! i)\<lparr>w_tabs := ts\<rparr>)"
    using w assms(4) by (simp add: wf_workspace_def)
  show "mset (workspace_tab_ids ((workspaces s ! i)\<lparr>w_tabs := ts\<rparr>))
      \<subseteq># mset (workspace_tab_ids (workspaces s ! i))"
    using mset_map_mono [OF sub, of t_id] by (simp add: workspace_tab_ids_def)
  show "mset (workspace_pane_ids ((workspaces s ! i)\<lparr>w_tabs := ts\<rparr>))
      \<subseteq># mset (workspace_pane_ids (workspaces s ! i))"
    using mset_concat_map_mono [OF sub, of tab_pane_ids]
    by (simp add: workspace_pane_ids_def del: mset_concat)
qed simp

lemma mset_remove_at_sub: "i < length xs \<Longrightarrow> mset (remove_at i xs) \<subseteq># mset xs"
  by (metis add_mset_add_single mset_remove_at mset_subset_eq_add_left)

end
