(* ===== verification/Session_Workspaces.thy ===== *)
theory Session_Workspaces
  imports Session_Invariant
begin

text \<open>
  The Workspace and Tab operations (\<open>session/workspace.rs\<close>), each with the proof that it keeps
  \<open>session_inv\<close>. An operation returns its result, the Session after it and, where it numbers
  something, the id counter after it.
\<close>

section \<open>Operations\<close>

definition DIFF_TAB_NAME :: rstr where "DIFF_TAB_NAME = str_lit ''Diff''"
definition FILE_TAB_NAME :: rstr where "FILE_TAB_NAME = str_lit ''Preview''"

definition workspace_name :: "path \<Rightarrow> rstr" where
  "workspace_name root =
     (case path_file_name root of
        Some name \<Rightarrow> if name \<noteq> [] then name
                     else if root = [] then str_lit ''Workspace'' else root
      | None \<Rightarrow> if root = [] then str_lit ''Workspace'' else root)"

definition preserve_tab_focus :: "tab list \<Rightarrow> tab \<Rightarrow> tab" where
  "preserve_tab_focus olds t =
     (case (tab_terminals t, Option.bind (find (\<lambda>old. t_id old = t_id t) olds) tab_terminals) of
        (Some tm, Some old) \<Rightarrow>
          t\<lparr>t_content := Terminals (tm\<lparr>tl_focused := tl_focused old,
                                          tl_history := tl_history old,
                                          tl_zoomed := tl_zoomed old\<rparr>)\<rparr>
      | _ \<Rightarrow> t)"

definition preserve_focus_from :: "session \<Rightarrow> session \<Rightarrow> session" where
  "preserve_focus_from s previous =
     s\<lparr>workspaces := map (\<lambda>w. case find_workspace previous (w_id w) of
                               Some old \<Rightarrow> w\<lparr>w_tabs := map (preserve_tab_focus (w_tabs old)) (w_tabs w)\<rparr>
                             | None \<Rightarrow> w) (workspaces s)\<rparr>"

definition create_workspace ::
  "session \<Rightarrow> u64 \<Rightarrow> path \<Rightarrow> workspace_id option \<times> session \<times> u64" where
  "create_workspace s nxt root =
     (if MAX_SNAPSHOT_WORKSPACES \<le> length (workspaces s)
         \<or> MAX_SNAPSHOT_TABS \<le> tab_count s \<or> MAX_SNAPSHOT_PANES \<le> pane_count s
      then (None, s, nxt)
      else case reserve_ids 3 nxt of
        None \<Rightarrow> (None, s, nxt)
      | Some (first_id, nxt') \<Rightarrow>
          let w = \<lparr>w_id = WorkspaceId first_id, w_name = workspace_name root, w_root = root,
                   w_worktree = None,
                   w_tabs = [\<lparr>t_id = TabId (first_id + 1), t_name = [],
                             t_content = Terminals (single_terminal
                               \<lparr>p_id = PaneId (first_id + 2), p_cwd = Some root, p_resume = None\<rparr>)\<rparr>]\<rparr>
          in (Some (WorkspaceId first_id), s\<lparr>workspaces := workspaces s @ [w]\<rparr>, nxt'))"

definition create_tab ::
  "session \<Rightarrow> u64 \<Rightarrow> workspace_id \<Rightarrow> pane_id option \<Rightarrow> tab_id option \<times> session \<times> u64" where
  "create_tab s nxt wid cwd_from =
     (if MAX_SNAPSHOT_TABS \<le> tab_count s \<or> MAX_SNAPSHOT_PANES \<le> pane_count s
      then (None, s, nxt)
      else case position (\<lambda>w. w_id w = wid) (workspaces s) of
        None \<Rightarrow> (None, s, nxt)
      | Some i \<Rightarrow>
          let w = workspaces s ! i;
              from_pane = Option.bind cwd_from (\<lambda>p. find (\<lambda>x. p_id x = p) (workspace_panes w));
              cwd = (case Option.bind from_pane p_cwd of Some c \<Rightarrow> c | None \<Rightarrow> w_root w)
          in case reserve_ids 2 nxt of
               None \<Rightarrow> (None, s, nxt)
             | Some (first_id, nxt') \<Rightarrow>
                 let t = \<lparr>t_id = TabId first_id, t_name = [],
                          t_content = Terminals (single_terminal
                            \<lparr>p_id = PaneId (first_id + 1), p_cwd = Some cwd, p_resume = None\<rparr>)\<rparr>
                 in (Some (TabId first_id), set_workspace i (w\<lparr>w_tabs := w_tabs w @ [t]\<rparr>) s, nxt'))"

fun viewer_path :: "tab_content \<Rightarrow> rstr option" where
  "viewer_path (Diff p) = Some p"
| "viewer_path (File p) = Some p"
| "viewer_path (Terminals _) = None"

definition show_viewer ::
  "relpath_api \<Rightarrow> session \<Rightarrow> u64 \<Rightarrow> workspace_id \<Rightarrow> tab_content \<Rightarrow> rstr
     \<Rightarrow> tab_id option \<times> session \<times> u64" where
  "show_viewer rp s nxt wid content name =
     (case viewer_path content of
        None \<Rightarrow> (None, s, nxt)
      | Some p \<Rightarrow>
          if \<not> valid_diff_path rp p then (None, s, nxt)
          else case position (\<lambda>w. w_id w = wid) (workspaces s) of
            None \<Rightarrow> (None, s, nxt)
          | Some i \<Rightarrow>
              let w = workspaces s ! i in
              case position (\<lambda>t. same_viewer_kind (t_content t) content) (w_tabs w) of
                Some j \<Rightarrow> (Some (t_id (w_tabs w ! j)),
                           set_tab i j ((w_tabs w ! j)\<lparr>t_content := content\<rparr>) s, nxt)
              | None \<Rightarrow>
                  if MAX_SNAPSHOT_TABS \<le> tab_count s then (None, s, nxt)
                  else case reserve_ids 1 nxt of
                    None \<Rightarrow> (None, s, nxt)
                  | Some (first_id, nxt') \<Rightarrow>
                      let t = \<lparr>t_id = TabId first_id, t_name = name, t_content = content\<rparr>
                      in (Some (TabId first_id),
                          set_workspace i (w\<lparr>w_tabs := w_tabs w @ [t]\<rparr>) s, nxt'))"

definition show_diff ::
  "relpath_api \<Rightarrow> session \<Rightarrow> u64 \<Rightarrow> workspace_id \<Rightarrow> rstr \<Rightarrow> tab_id option \<times> session \<times> u64" where
  "show_diff rp s nxt wid p = show_viewer rp s nxt wid (Diff p) DIFF_TAB_NAME"

definition show_file ::
  "relpath_api \<Rightarrow> session \<Rightarrow> u64 \<Rightarrow> workspace_id \<Rightarrow> rstr \<Rightarrow> tab_id option \<times> session \<times> u64" where
  "show_file rp s nxt wid p = show_viewer rp s nxt wid (File p) FILE_TAB_NAME"

definition rename_tab_path :: "relpath_api \<Rightarrow> rstr \<Rightarrow> rstr \<Rightarrow> tab \<Rightarrow> bool \<times> tab" where
  "rename_tab_path rp from dest t =
     (case t_content t of
        File p \<Rightarrow>
          (case rp_strip_prefix rp p from of
             Some rest \<Rightarrow> (True, t\<lparr>t_content := File (if rest = [] then dest else rp_join rp dest rest)\<rparr>)
           | None \<Rightarrow> (False, t))
      | _ \<Rightarrow> (False, t))"

definition follow_rename ::
  "relpath_api \<Rightarrow> session \<Rightarrow> workspace_id \<Rightarrow> rstr \<Rightarrow> rstr \<Rightarrow> bool \<times> session" where
  "follow_rename rp s wid from dest =
     (case position (\<lambda>w. w_id w = wid) (workspaces s) of
        None \<Rightarrow> (False, s)
      | Some i \<Rightarrow>
          let w = workspaces s ! i; rs = map (rename_tab_path rp from dest) (w_tabs w)
          in (list_ex fst rs, set_workspace i (w\<lparr>w_tabs := map snd rs\<rparr>) s))"

definition associate_worktree ::
  "session \<Rightarrow> workspace_id \<Rightarrow> workspace_id \<Rightarrow> path \<Rightarrow> bool \<Rightarrow> rstr option \<Rightarrow> bool \<times> session" where
  "associate_worktree s wid parent parent_root managed base =
     (if wid = parent \<or> parent_root = [] then (False, s)
      else case position (\<lambda>w. w_id w = wid) (workspaces s) of
        None \<Rightarrow> (False, s)
      | Some i \<Rightarrow>
          (True, set_workspace i ((workspaces s ! i)\<lparr>w_worktree := Some
             \<lparr>wt_parent_id = parent, wt_parent_root = parent_root, wt_managed = managed,
              wt_base_branch = base\<rparr>\<rparr>) s))"

definition clear_worktree_association :: "session \<Rightarrow> workspace_id \<Rightarrow> bool \<times> session" where
  "clear_worktree_association s wid =
     (case position (\<lambda>w. w_id w = wid) (workspaces s) of
        None \<Rightarrow> (False, s)
      | Some i \<Rightarrow> (w_worktree (workspaces s ! i) \<noteq> None,
                   set_workspace i ((workspaces s ! i)\<lparr>w_worktree := None\<rparr>) s))"

definition close_workspace :: "session \<Rightarrow> workspace_id \<Rightarrow> close_outcome option \<times> session" where
  "close_workspace s wid =
     (case position (\<lambda>w. w_id w = wid) (workspaces s) of
        None \<Rightarrow> (None, s)
      | Some i \<Rightarrow>
          let w = workspaces s ! i in
          (Some \<lparr>co_panes = concat (map (\<lambda>t. map p_id (tab_panes t)) (w_tabs w)),
                 co_tabs = map t_id (w_tabs w), co_workspaces = [wid]\<rparr>,
           s\<lparr>workspaces := remove_at i (workspaces s)\<rparr>))"

text \<open>The loop over Workspace indices: the first one holding the Tab decides.\<close>

definition tab_location :: "session \<Rightarrow> tab_id \<Rightarrow> (nat \<times> nat) option" where
  "tab_location s tid =
     (case position (\<lambda>w. position (\<lambda>t. t_id t = tid) (w_tabs w) \<noteq> None) (workspaces s) of
        None \<Rightarrow> None
      | Some i \<Rightarrow> map_option (\<lambda>j. (i, j)) (position (\<lambda>t. t_id t = tid) (w_tabs (workspaces s ! i))))"

definition close_tab :: "session \<Rightarrow> tab_id \<Rightarrow> close_outcome option \<times> session" where
  "close_tab s tid =
     (case tab_location s tid of
        None \<Rightarrow> (None, s)
      | Some (i, j) \<Rightarrow>
          let w = workspaces s ! i in
          if length (w_tabs w) = 1 then close_workspace s (w_id w)
          else (Some \<lparr>co_panes = map p_id (tab_panes (w_tabs w ! j)), co_tabs = [tid],
                      co_workspaces = []\<rparr>,
                set_workspace i (w\<lparr>w_tabs := remove_at j (w_tabs w)\<rparr>) s))"

definition move_workspace :: "session \<Rightarrow> workspace_id \<Rightarrow> nat \<Rightarrow> bool \<times> session" where
  "move_workspace s wid target =
     (case position (\<lambda>w. w_id w = wid) (workspaces s) of
        None \<Rightarrow> (False, s)
      | Some i \<Rightarrow>
          if length (workspaces s) \<le> target \<or> i = target then (False, s)
          else (True, s\<lparr>workspaces :=
                  insert_at target (workspaces s ! i) (remove_at i (workspaces s))\<rparr>))"

definition move_tab :: "session \<Rightarrow> tab_id \<Rightarrow> nat \<Rightarrow> bool \<times> session" where
  "move_tab s tid target =
     (case tab_location s tid of
        None \<Rightarrow> (False, s)
      | Some (i, j) \<Rightarrow>
          let w = workspaces s ! i in
          if length (w_tabs w) \<le> target \<or> j = target then (False, s)
          else (True, set_workspace i
                  (w\<lparr>w_tabs := insert_at target (w_tabs w ! j) (remove_at j (w_tabs w))\<rparr>) s))"

definition rename_workspace :: "session \<Rightarrow> workspace_id \<Rightarrow> rstr \<Rightarrow> bool \<times> session" where
  "rename_workspace s wid name =
     (if trim name = [] then (False, s)
      else case position (\<lambda>w. w_id w = wid) (workspaces s) of
        None \<Rightarrow> (False, s)
      | Some i \<Rightarrow> (True, set_workspace i ((workspaces s ! i)\<lparr>w_name := trim name\<rparr>) s))"

definition rename_tab :: "session \<Rightarrow> tab_id \<Rightarrow> rstr \<Rightarrow> bool \<times> session" where
  "rename_tab s tid name =
     (if trim name = [] then (False, s)
      else case tab_location s tid of
        None \<Rightarrow> (False, s)
      | Some (i, j) \<Rightarrow> (True, set_tab i j ((tab_at s i j)\<lparr>t_name := trim name\<rparr>) s))"

section \<open>Every operation keeps the invariant\<close>

lemma workspace_name_not_Nil [simp]: "workspace_name root \<noteq> []"
  by (simp add: workspace_name_def str_lit_def split: option.splits)

lemma live_single: "valid_id (pane_u64 (p_id p)) \<Longrightarrow> p_resume p = None \<Longrightarrow> live_terminals (single_terminal p)"
  by (simp add: live_terminals_def wf_terminals_def wf_pane_def single_terminal_def snapshot_limits)

lemma single_terminal_ids [simp]: "pane_ids_of (single_terminal p) = [p_id p]"
  by (simp add: single_terminal_def)

text \<open>The three ids of a block, as \<open>first\<close>, \<open>first + 1\<close> and \<open>first + 2\<close>.\<close>

lemma reserved_first:
  assumes "reserve_ids n nxt = Some (first, nxt')" and "0 < unat nxt" and "0 < unat n"
  shows "valid_id first" and "unat nxt \<le> unat first" and "unat first < unat nxt'"
  using ids.block_valid [OF assms(1,3,2)] by simp_all

lemma reserved_second:
  assumes "reserve_ids n nxt = Some (first, nxt')" and "0 < unat nxt" and "1 < unat n"
  shows "valid_id (first + 1)" and "unat nxt \<le> unat (first + 1)" and "unat (first + 1) < unat nxt'"
  using ids.block_valid [OF assms(1,3,2)] by simp_all

lemma reserved_third:
  assumes "reserve_ids n nxt = Some (first, nxt')" and "0 < unat nxt" and "2 < unat n"
  shows "valid_id (first + 2)" and "unat nxt \<le> unat (first + 2)" and "unat (first + 2) < unat nxt'"
  using ids.block_valid [OF assms(1,3,2)] by simp_all

lemma session_inv_add_workspace:
  assumes inv: "session_inv rp nxt s" and w: "wf_workspace rp w"
    and fresh: "fresh_block workspace_u64 [w_id w] nxt nxt'"
      "fresh_block tab_u64 (workspace_tab_ids w) nxt nxt'"
      "fresh_block pane_u64 (workspace_pane_ids w) nxt nxt'" "unat nxt \<le> unat nxt'"
    and room: "length (workspaces s) < MAX_SNAPSHOT_WORKSPACES"
      "tab_count s + length (workspace_tab_ids w) \<le> MAX_SNAPSHOT_TABS"
      "pane_count s + length (workspace_pane_ids w) \<le> MAX_SNAPSHOT_PANES"
  shows "session_inv rp nxt' (s\<lparr>workspaces := workspaces s @ [w]\<rparr>)" (is "session_inv _ _ ?s")
proof -
  have eqs: "session_workspace_ids ?s = session_workspace_ids s @ [w_id w]"
    "session_tab_ids ?s = session_tab_ids s @ workspace_tab_ids w"
    "session_pane_ids ?s = session_pane_ids s @ workspace_pane_ids w"
    by (simp_all add: session_workspace_ids_def session_tab_ids_concat session_pane_ids_concat)
  note ids = session_inv_ids [OF inv]
  have "wf_session rp ?s"
    using inv w distinct_fresh_append [OF ids(1,4) fresh(1)]
      distinct_fresh_append [OF ids(2,5) fresh(2)] distinct_fresh_append [OF ids(3,6) fresh(3)]
    unfolding session_inv_def wf_session_def eqs by auto
  moreover have "within_limits ?s"
    using room by (simp add: within_limits_def tab_count_ids pane_count_ids eqs)
  moreover have "session_ids_below ?s nxt'"
    unfolding session_ids_below_def eqs
    using ids(4-6) fresh by (auto simp: fresh_block_def dest: order_less_le_trans)
  ultimately show ?thesis using ids(7) fresh(4) by (simp add: session_inv_def)
qed

lemma session_inv_add_tab:
  assumes inv: "session_inv rp nxt s" and i: "i < length (workspaces s)"
    and t: "wf_tab rp t"
    and kinds: "tab_diff t \<noteq> None \<Longrightarrow> diff_tabs (w_tabs (workspaces s ! i)) = []"
      "tab_file t \<noteq> None \<Longrightarrow> file_tabs (w_tabs (workspaces s ! i)) = []"
    and fresh: "fresh_block tab_u64 [t_id t] nxt nxt'" "fresh_block pane_u64 (tab_pane_ids t) nxt nxt'"
      "unat nxt \<le> unat nxt'"
    and room: "tab_count s < MAX_SNAPSHOT_TABS"
      "pane_count s + length (tab_pane_ids t) \<le> MAX_SNAPSHOT_PANES"
  shows "session_inv rp nxt' (set_workspace i ((workspaces s ! i)
           \<lparr>w_tabs := w_tabs (workspaces s ! i) @ [t]\<rparr>) s)"
proof (rule session_inv_replace [OF inv i, where ts = "[t_id t]" and ps = "tab_pane_ids t"])
  show "wf_workspace rp ((workspaces s ! i)\<lparr>w_tabs := w_tabs (workspaces s ! i) @ [t]\<rparr>)"
    using session_inv_workspace [OF inv i] t kinds
    by (cases "t_content t")
       (auto simp: wf_workspace_def diff_tabs_def file_tabs_def tab_diff_def tab_file_def)
qed (use fresh room in \<open>simp_all add: workspace_tab_ids_def workspace_pane_ids_def\<close>)

lemma create_workspace_inv:
  assumes inv: "session_inv rp nxt s" and step: "create_workspace s nxt root = (r, s', nxt')"
  shows "session_inv rp nxt' s'"
proof (cases "r")
  case None
  with step inv show ?thesis
    by (auto simp: create_workspace_def Let_def split: if_splits option.splits prod.splits)
next
  case (Some wid)
  have pos: "0 < unat nxt" using inv by (simp add: session_inv_def)
  from step Some obtain first where r: "reserve_ids 3 nxt = Some (first, nxt')"
    and room: "length (workspaces s) < MAX_SNAPSHOT_WORKSPACES" "tab_count s < MAX_SNAPSHOT_TABS"
      "pane_count s < MAX_SNAPSHOT_PANES"
    and s': "s' = s\<lparr>workspaces := workspaces s @ [\<lparr>w_id = WorkspaceId first,
        w_name = workspace_name root, w_root = root, w_worktree = None,
        w_tabs = [\<lparr>t_id = TabId (first + 1), t_name = [],
          t_content = Terminals (single_terminal
            \<lparr>p_id = PaneId (first + 2), p_cwd = Some root, p_resume = None\<rparr>)\<rparr>]\<rparr>]\<rparr>"
    by (auto simp: create_workspace_def Let_def split: if_splits option.splits)
  note ids = reserved_first [OF r pos] reserved_second [OF r pos] reserved_third [OF r pos]
  note live = live_single [of "\<lparr>p_id = PaneId (first + 2), p_cwd = Some root, p_resume = None\<rparr>"]
  show ?thesis unfolding s'
    by (rule session_inv_add_workspace [OF inv])
       (use ids live room in \<open>auto simp: wf_workspace_def wf_tab_def diff_tabs_def file_tabs_def
          tab_diff_def tab_file_def workspace_tab_ids_def workspace_pane_ids_def tab_pane_ids_def
          tab_panes_def tab_terminals_def\<close>)
qed

lemma create_tab_inv:
  assumes inv: "session_inv rp nxt s" and step: "create_tab s nxt wid from = (r, s', nxt')"
  shows "session_inv rp nxt' s'"
proof (cases "r")
  case None
  with step inv show ?thesis
    by (auto simp: create_tab_def Let_def split: if_splits option.splits prod.splits)
next
  case (Some tid)
  have pos: "0 < unat nxt" using inv by (simp add: session_inv_def)
  from step Some obtain i first cwd where r: "reserve_ids 2 nxt = Some (first, nxt')"
    and room: "tab_count s < MAX_SNAPSHOT_TABS" "pane_count s < MAX_SNAPSHOT_PANES"
    and i: "position (\<lambda>w. w_id w = wid) (workspaces s) = Some i"
    and s': "s' = set_workspace i ((workspaces s ! i)\<lparr>w_tabs := w_tabs (workspaces s ! i) @
        [\<lparr>t_id = TabId first, t_name = [], t_content = Terminals (single_terminal
            \<lparr>p_id = PaneId (first + 1), p_cwd = Some cwd, p_resume = None\<rparr>)\<rparr>]\<rparr>) s"
    by (auto simp: create_tab_def Let_def split: if_splits option.splits prod.splits)
  note ids = reserved_first [OF r pos] reserved_second [OF r pos]
  note live = live_single [of "\<lparr>p_id = PaneId (first + 1), p_cwd = Some cwd, p_resume = None\<rparr>"]
  show ?thesis unfolding s'
    by (rule session_inv_add_tab [OF inv position_lessD [OF i]])
       (use ids live room in \<open>auto simp: wf_tab_def tab_diff_def tab_file_def tab_pane_ids_def
          tab_panes_def tab_terminals_def\<close>)
qed

lemma viewer_panes [simp]: "viewer_path (t_content t) = Some p \<Longrightarrow> tab_pane_ids t = []"
  by (cases "t_content t") (simp_all add: tab_pane_ids_def tab_panes_def tab_terminals_def)

lemma wf_viewer_tab:
  "viewer_path (t_content t) = Some p \<Longrightarrow> valid_diff_path rp p \<Longrightarrow> valid_id (tab_u64 (t_id t))
     \<Longrightarrow> wf_tab rp t"
  by (cases "t_content t") (simp_all add: wf_tab_def)

lemma same_viewer_kind_iff:
  "viewer_path c = Some p \<Longrightarrow> same_viewer_kind (t_content t) c \<longleftrightarrow>
     tab_diff t \<noteq> None \<and> (\<exists>q. c = Diff q) \<or> tab_file t \<noteq> None \<and> (\<exists>q. c = File q)"
  by (cases c; cases "t_content t") (simp_all add: tab_diff_def tab_file_def)

lemma show_viewer_inv:
  assumes inv: "session_inv rp nxt s" and step: "show_viewer rp s nxt wid content name = (r, s', nxt')"
  shows "session_inv rp nxt' s'"
proof (cases "r")
  case None
  with step inv show ?thesis
    by (auto simp: show_viewer_def Let_def split: if_splits option.splits prod.splits)
next
  case (Some tid)
  with step obtain p i where p: "viewer_path content = Some p" "valid_diff_path rp p"
    and i: "position (\<lambda>w. w_id w = wid) (workspaces s) = Some i"
    by (auto simp: show_viewer_def split: if_splits option.splits)
  let ?w = "workspaces s ! i"
  note wf = session_inv_workspace [OF inv position_lessD [OF i]]
  show ?thesis
  proof (cases "position (\<lambda>t. same_viewer_kind (t_content t) content) (w_tabs ?w)")
    case None
    with step Some p i obtain first where r: "reserve_ids 1 nxt = Some (first, nxt')"
      and room: "tab_count s < MAX_SNAPSHOT_TABS"
      and s': "s' = set_workspace i (?w\<lparr>w_tabs := w_tabs ?w @
          [\<lparr>t_id = TabId first, t_name = name, t_content = content\<rparr>]\<rparr>) s"
      by (auto simp: show_viewer_def Let_def split: if_splits option.splits prod.splits)
    have pos: "0 < unat nxt" and panes: "pane_count s \<le> MAX_SNAPSHOT_PANES"
      using inv by (simp_all add: session_inv_def within_limits_def)
    have "\<forall>t \<in> set (w_tabs ?w). \<not> same_viewer_kind (t_content t) content"
      using None by (simp add: position_None)
    then have "\<forall>t \<in> set (w_tabs ?w). (\<exists>q. content = Diff q) \<longrightarrow> tab_diff t = None"
      "\<forall>t \<in> set (w_tabs ?w). (\<exists>q. content = File q) \<longrightarrow> tab_file t = None"
      using p(1) by (auto simp: same_viewer_kind_iff)
    then show ?thesis unfolding s'
      using reserved_first [OF r pos] room panes p wf_viewer_tab
      by (intro session_inv_add_tab [OF inv position_lessD [OF i]])
         (auto simp: diff_tabs_def file_tabs_def tab_diff_def tab_file_def filter_empty_conv
           split: tab_content.splits)
  next
    case (Some j)
    with step \<open>r = Some tid\<close> p i
    have s': "s' = set_tab i j ((w_tabs ?w ! j)\<lparr>t_content := content\<rparr>) s" and "nxt' = nxt"
      by (auto simp: show_viewer_def Let_def)
    have kind: "same_viewer_kind (t_content (w_tabs ?w ! j)) content"
      using position_satD [OF Some] by simp
    have "valid_id (tab_u64 (t_id (w_tabs ?w ! j)))"
      using wf position_lessD [OF Some] by (simp add: wf_workspace_def wf_tab_def)
    then show ?thesis unfolding s' \<open>nxt' = nxt\<close>
      using p kind inv
      by (intro session_inv_set_tab [OF inv position_lessD [OF i] position_lessD [OF Some],
            where ps = "[]"])
         (cases content; cases "t_content (w_tabs ?w ! j)";
          auto simp: wf_tab_def tab_at_def tab_diff_def tab_file_def tab_pane_ids_def tab_panes_def
            tab_terminals_def session_inv_def within_limits_def)+
  qed
qed

lemma workspace_step_inv:
  assumes inv: "session_inv rp nxt s" and i: "position (\<lambda>w. w_id w = wid) (workspaces s) = Some i"
    and w: "wf_workspace rp w'" "w_id w' = w_id (workspaces s ! i)"
      "w_tabs w' = w_tabs (workspaces s ! i)"
  shows "session_inv rp nxt (set_workspace i w' s)"
  by (rule session_inv_edit [OF inv position_lessD [OF i] w(1,2)])
     (simp_all add: workspace_tab_ids_def workspace_pane_ids_def w(3))

lemma associate_worktree_inv:
  assumes inv: "session_inv rp nxt s" and parent: "valid_id (workspace_u64 parent)"
    and step: "associate_worktree s wid parent parent_root managed base = (r, s')"
  shows "session_inv rp nxt s'"
proof (cases r)
  case True
  with step obtain i where i: "position (\<lambda>w. w_id w = wid) (workspaces s) = Some i"
    and ok: "wid \<noteq> parent" "parent_root \<noteq> []"
    and s': "s' = set_workspace i ((workspaces s ! i)\<lparr>w_worktree := Some
             \<lparr>wt_parent_id = parent, wt_parent_root = parent_root, wt_managed = managed,
              wt_base_branch = base\<rparr>\<rparr>) s"
    by (auto simp: associate_worktree_def split: if_splits option.splits)
  show ?thesis unfolding s'
    using session_inv_workspace [OF inv position_lessD [OF i]] position_satD [OF i] ok parent
    by (intro workspace_step_inv [OF inv i]) (auto simp: wf_workspace_def wf_worktree_def)
next
  case False
  with step inv show ?thesis
    by (auto simp: associate_worktree_def split: if_splits option.splits)
qed

lemma clear_worktree_association_inv:
  assumes inv: "session_inv rp nxt s" and step: "clear_worktree_association s wid = (r, s')"
  shows "session_inv rp nxt s'"
proof (cases "position (\<lambda>w. w_id w = wid) (workspaces s)")
  case (Some i)
  with step have s': "s' = set_workspace i ((workspaces s ! i)\<lparr>w_worktree := None\<rparr>) s"
    by (simp add: clear_worktree_association_def)
  show ?thesis unfolding s'
    using session_inv_workspace [OF inv position_lessD [OF Some]]
    by (intro workspace_step_inv [OF inv Some]) (simp_all add: wf_workspace_def)
qed (use step inv in \<open>simp add: clear_worktree_association_def\<close>)

lemma rename_workspace_inv:
  assumes inv: "session_inv rp nxt s" and step: "rename_workspace s wid name = (r, s')"
  shows "session_inv rp nxt s'"
proof (cases r)
  case True
  with step obtain i where i: "position (\<lambda>w. w_id w = wid) (workspaces s) = Some i"
    and "trim name \<noteq> []" and s': "s' = set_workspace i ((workspaces s ! i)\<lparr>w_name := trim name\<rparr>) s"
    by (auto simp: rename_workspace_def split: if_splits option.splits)
  show ?thesis unfolding s'
    using session_inv_workspace [OF inv position_lessD [OF i]] \<open>trim name \<noteq> []\<close>
    by (intro workspace_step_inv [OF inv i]) (simp_all add: wf_workspace_def)
qed (use step inv in \<open>auto simp: rename_workspace_def split: if_splits option.splits\<close>)

lemma close_workspace_inv:
  assumes inv: "session_inv rp nxt s" and step: "close_workspace s wid = (r, s')"
  shows "session_inv rp nxt s'"
  using step inv
  by (auto simp: close_workspace_def Let_def mset_remove_at_sub dest!: position_lessD
      split: option.splits intro!: session_inv_fewer [OF inv])

lemma move_workspace_inv:
  assumes inv: "session_inv rp nxt s" and step: "move_workspace s wid target = (r, s')"
  shows "session_inv rp nxt s'"
  using step inv
  by (auto simp: move_workspace_def mset_move dest!: position_lessD
      split: option.splits if_splits intro!: session_inv_fewer [OF inv])

lemma tab_location_Some:
  assumes "tab_location s tid = Some (i, j)"
  shows "i < length (workspaces s)" and "j < length (w_tabs (workspaces s ! i))"
    and "t_id (tab_at s i j) = tid"
  using assms
  by (auto simp: tab_location_def tab_at_def dest!: position_Some split: option.splits)

lemma close_tab_inv:
  assumes inv: "session_inv rp nxt s" and step: "close_tab s tid = (r, s')"
  shows "session_inv rp nxt s'"
proof (cases "tab_location s tid")
  case (Some ij)
  then obtain i j where loc: "tab_location s tid = Some (i, j)" by (cases ij) simp
  note at = tab_location_Some [OF loc]
  let ?w = "workspaces s ! i"
  show ?thesis
  proof (cases "length (w_tabs ?w) = 1")
    case True
    with step loc show ?thesis
      by (auto simp: close_tab_def intro: close_workspace_inv [OF inv])
  next
    case False
    with step loc have s': "s' = set_workspace i (?w\<lparr>w_tabs := remove_at j (w_tabs ?w)\<rparr>) s"
      by (simp add: close_tab_def Let_def)
    have "length (remove_at j (w_tabs ?w)) \<noteq> 0"
      using False at(2) by (simp add: length_remove_at)
    then show ?thesis unfolding s'
      by (intro session_inv_fewer_tabs [OF inv at(1)] mset_remove_at_sub [OF at(2)]) auto
  qed
qed (use step inv in \<open>simp add: close_tab_def\<close>)

lemma move_tab_inv:
  assumes inv: "session_inv rp nxt s" and step: "move_tab s tid target = (r, s')"
  shows "session_inv rp nxt s'"
proof (cases r)
  case True
  with step obtain i j where loc: "tab_location s tid = Some (i, j)"
    and s': "s' = set_workspace i ((workspaces s ! i)\<lparr>w_tabs := insert_at target
        (w_tabs (workspaces s ! i) ! j) (remove_at j (w_tabs (workspaces s ! i)))\<rparr>) s"
    by (auto simp: move_tab_def Let_def split: if_splits option.splits)
  note at = tab_location_Some [OF loc]
  show ?thesis unfolding s'
    by (intro session_inv_fewer_tabs [OF inv at(1)])
       (simp add: mset_move [OF at(2)], simp add: insert_at_def)
qed (use step inv in \<open>auto simp: move_tab_def Let_def split: if_splits option.splits\<close>)

lemma rename_tab_inv:
  assumes inv: "session_inv rp nxt s" and step: "rename_tab s tid name = (r, s')"
  shows "session_inv rp nxt s'"
proof (cases r)
  case True
  with step obtain i j where loc: "tab_location s tid = Some (i, j)"
    and s': "s' = set_tab i j ((tab_at s i j)\<lparr>t_name := trim name\<rparr>) s"
    by (auto simp: rename_tab_def split: if_splits option.splits)
  note at = tab_location_Some [OF loc]
  show ?thesis unfolding s'
    using session_inv_live [OF inv at(1,2)] inv
    by (intro session_inv_set_tab [OF inv at(1,2), where ps = "[]"])
       (auto simp: wf_tab_def tab_diff_def tab_file_def tab_pane_ids_def tab_panes_def
          tab_terminals_def session_inv_def within_limits_def)
qed (use step inv in \<open>auto simp: rename_tab_def split: if_splits option.splits\<close>)

section \<open>Following a rename\<close>

text \<open>What the code relies on of \<open>relative_path\<close>: stripping a prefix splits the components,
  joining appends them, and joining something leaves something.\<close>

definition relpath_ok :: "relpath_api \<Rightarrow> bool" where
  "relpath_ok rp \<longleftrightarrow>
     (\<forall>p from rest. rp_strip_prefix rp p from = Some rest \<longrightarrow>
        rp_components rp p = rp_components rp from @ rp_components rp rest)
     \<and> (\<forall>a b. rp_components rp (rp_join rp a b) = rp_components rp a @ rp_components rp b)
     \<and> (\<forall>a b. rp_join rp a b = [] \<longrightarrow> b = [])"

lemma valid_diff_path_rename:
  assumes "relpath_ok rp" and "valid_diff_path rp p" and "valid_diff_path rp dest"
    and "rp_strip_prefix rp p from = Some rest" and "rest \<noteq> []"
  shows "valid_diff_path rp (rp_join rp dest rest)"
  using assms unfolding relpath_ok_def valid_diff_path_def by (metis list_all_append)

lemma rename_tab_path_same:
  "t_id (snd (rename_tab_path rp from dest t)) = t_id t"
  "tab_pane_ids (snd (rename_tab_path rp from dest t)) = tab_pane_ids t"
  "(tab_diff (snd (rename_tab_path rp from dest t)) = None) = (tab_diff t = None)"
  "(tab_file (snd (rename_tab_path rp from dest t)) = None) = (tab_file t = None)"
  by (auto simp: rename_tab_path_def tab_pane_ids_def tab_panes_def tab_terminals_def tab_diff_def
      tab_file_def split: tab_content.splits option.splits)

lemma wf_rename_tab_path:
  assumes "relpath_ok rp" and "valid_diff_path rp dest" and "wf_tab rp t"
  shows "wf_tab rp (snd (rename_tab_path rp from dest t))"
  using assms valid_diff_path_rename [OF assms(1) _ assms(2)]
  by (auto simp: rename_tab_path_def wf_tab_def split: tab_content.splits option.splits)

lemma length_filter_map_same:
  "(\<And>x. P (f x) = P x) \<Longrightarrow> length (filter P (map f xs)) = length (filter P xs)"
  by (induction xs) simp_all

text \<open>Tabs changed one by one, none renumbered, no Pane moved, no kind changed.\<close>

lemma wf_workspace_map_tabs:
  assumes "wf_workspace rp w" and "\<And>t. t \<in> set (w_tabs w) \<Longrightarrow> wf_tab rp (f t)"
    and "\<And>t. (tab_diff (f t) = None) = (tab_diff t = None)"
    and "\<And>t. (tab_file (f t) = None) = (tab_file t = None)"
  shows "wf_workspace rp (w\<lparr>w_tabs := map f (w_tabs w)\<rparr>)"
proof -
  have "length (diff_tabs (map f (w_tabs w))) = length (diff_tabs (w_tabs w))"
    "length (file_tabs (map f (w_tabs w))) = length (file_tabs (w_tabs w))"
    unfolding diff_tabs_def file_tabs_def
    by (rule length_filter_map_same, simp only: assms(3,4))+
  then show ?thesis using assms(1,2) by (auto simp: wf_workspace_def)
qed

lemma follow_rename_inv:
  assumes inv: "session_inv rp nxt s" and rp: "relpath_ok rp" and dest: "valid_diff_path rp dest"
    and step: "follow_rename rp s wid from dest = (r, s')"
  shows "session_inv rp nxt s'"
proof (cases "position (\<lambda>w. w_id w = wid) (workspaces s)")
  case (Some i)
  let ?w = "workspaces s ! i" and ?f = "\<lambda>t. snd (rename_tab_path rp from dest t)"
  from step Some have s': "s' = set_workspace i (?w\<lparr>w_tabs := map ?f (w_tabs ?w)\<rparr>) s"
    by (auto simp: follow_rename_def Let_def comp_def)
  note wf = session_inv_workspace [OF inv position_lessD [OF Some]]
  have "wf_workspace rp (?w\<lparr>w_tabs := map ?f (w_tabs ?w)\<rparr>)"
    using wf by (intro wf_workspace_map_tabs wf_rename_tab_path [OF rp dest])
      (auto simp: wf_workspace_def rename_tab_path_same)
  then show ?thesis unfolding s'
    by (intro session_inv_edit [OF inv position_lessD [OF Some]])
       (simp_all add: workspace_tab_ids_def workspace_pane_ids_def comp_def rename_tab_path_same)
qed (use step inv in \<open>simp add: follow_rename_def\<close>)

section \<open>Keeping the focus where it was\<close>

text \<open>Every Tab of the previous Session still has the Panes it had.\<close>

definition keeps_panes :: "session \<Rightarrow> session \<Rightarrow> bool" where
  "keeps_panes previous s \<longleftrightarrow>
     (\<forall>w \<in> set (workspaces s). \<forall>old. find_workspace previous (w_id w) = Some old \<longrightarrow>
        (\<forall>t \<in> set (w_tabs w). \<forall>t0. find (\<lambda>old. t_id old = t_id t) (w_tabs old) = Some t0 \<longrightarrow>
           set (tab_pane_ids t0) \<subseteq> set (tab_pane_ids t)))"

lemma preserve_tab_focus_same:
  "t_id (preserve_tab_focus olds t) = t_id t"
  "tab_pane_ids (preserve_tab_focus olds t) = tab_pane_ids t"
  "(tab_diff (preserve_tab_focus olds t) = None) = (tab_diff t = None)"
  "(tab_file (preserve_tab_focus olds t) = None) = (tab_file t = None)"
  by (cases "t_content t"; cases "Option.bind (find (\<lambda>old. t_id old = t_id t) olds) tab_terminals";
      simp add: preserve_tab_focus_def tab_pane_ids_def tab_panes_def tab_diff_def tab_file_def
        tab_terminals_def)+

lemma wf_preserve_tab_focus:
  assumes t: "wf_tab rp t" and olds: "\<forall>t0 \<in> set olds. wf_tab rp t0"
    and keeps: "\<And>t0. find (\<lambda>old. t_id old = t_id t) olds = Some t0
                   \<Longrightarrow> set (tab_pane_ids t0) \<subseteq> set (tab_pane_ids t)"
  shows "wf_tab rp (preserve_tab_focus olds t)"
proof -
  {
    fix t0 old tm
    assume t0: "find (\<lambda>old. t_id old = t_id t) olds = Some t0" "tab_terminals t0 = Some old"
      and tm: "tab_terminals t = Some tm"
    from t0(1) have "t0 \<in> set olds" by (auto simp: find_Some_iff)
    with olds t0(2) have "live_terminals old" by (auto simp: wf_tab_def tab_terminals_Some)
    moreover from t tm have "live_terminals tm" by (simp add: wf_tab_def tab_terminals_Some)
    moreover from keeps [OF t0(1)] have "set (pane_ids_of old) \<subseteq> set (pane_ids_of tm)"
      by (simp only: tab_pane_ids_terminals [OF tm] tab_pane_ids_terminals [OF t0(2)])
    ultimately have "live_terminals (tm\<lparr>tl_focused := tl_focused old,
        tl_history := tl_history old, tl_zoomed := tl_zoomed old\<rparr>)"
      unfolding live_terminals_def wf_terminals_def by auto
  }
  with t show ?thesis
    by (auto simp: preserve_tab_focus_def wf_tab_def split: option.splits Option.bind_splits)
qed

lemma session_inv_same_ids:
  assumes inv: "session_inv rp nxt s" and wf: "\<forall>w \<in> set (workspaces s'). wf_workspace rp w"
    and ids: "session_workspace_ids s' = session_workspace_ids s" "session_tab_ids s' = session_tab_ids s"
      "session_pane_ids s' = session_pane_ids s"
  shows "session_inv rp nxt s'"
proof -
  have "length (workspaces s') = length (workspaces s)"
    using ids(1) by (metis length_map session_workspace_ids_def)
  then show ?thesis
    using inv wf ids
    by (simp add: session_inv_def wf_session_def within_limits_def session_ids_below_def
        tab_count_ids pane_count_ids)
qed

lemma preserve_focus_from_inv:
  assumes inv: "session_inv rp nxt s" and prev: "wf_session rp previous" and keeps: "keeps_panes previous s"
  shows "session_inv rp nxt (preserve_focus_from s previous)"
proof (rule session_inv_same_ids [OF inv])
  let ?f = "\<lambda>w. case find_workspace previous (w_id w) of
      Some old \<Rightarrow> w\<lparr>w_tabs := map (preserve_tab_focus (w_tabs old)) (w_tabs w)\<rparr> | None \<Rightarrow> w"
  have ws: "workspaces (preserve_focus_from s previous) = map ?f (workspaces s)"
    by (simp add: preserve_focus_from_def)
  have "w_id (?f w) = w_id w" "workspace_tab_ids (?f w) = workspace_tab_ids w"
    "workspace_pane_ids (?f w) = workspace_pane_ids w" for w
    by (auto simp: workspace_tab_ids_def workspace_pane_ids_def preserve_tab_focus_same comp_def
        split: option.splits)
  then show "session_workspace_ids (preserve_focus_from s previous) = session_workspace_ids s"
    "session_tab_ids (preserve_focus_from s previous) = session_tab_ids s"
    "session_pane_ids (preserve_focus_from s previous) = session_pane_ids s"
    by (simp_all add: session_workspace_ids_def session_tab_ids_concat session_pane_ids_concat ws
        comp_def)
  show "\<forall>w \<in> set (workspaces (preserve_focus_from s previous)). wf_workspace rp w"
  proof
    fix w' assume "w' \<in> set (workspaces (preserve_focus_from s previous))"
    then obtain w where w: "w \<in> set (workspaces s)" and w': "w' = ?f w" by (auto simp: ws)
    from w inv have wf: "wf_workspace rp w" by (simp add: session_inv_def wf_session_def)
    show "wf_workspace rp w'"
    proof (cases "find_workspace previous (w_id w)")
      case (Some old)
      then have "old \<in> set (workspaces previous)" by (auto simp: find_workspace_def find_Some_iff)
      with prev have "\<forall>t \<in> set (w_tabs old). wf_tab rp t"
        by (simp add: wf_session_def wf_workspace_def)
      then have "wf_workspace rp (w\<lparr>w_tabs := map (preserve_tab_focus (w_tabs old)) (w_tabs w)\<rparr>)"
        using wf keeps w Some unfolding keeps_panes_def
        by (intro wf_workspace_map_tabs wf_preserve_tab_focus)
           (auto simp: wf_workspace_def preserve_tab_focus_same)
      then show ?thesis by (simp add: w' Some)
    qed (simp add: w' wf)
  qed
qed

end
