(* ===== verification/Session_Panes.thy ===== *)
theory Session_Panes
  imports Session_Workspaces
begin

text \<open>
  The Pane operations (\<open>session/pane.rs\<close>). Most of them find a Pane and edit the terminal
  layout it lives in; the contract of such an edit is the locale \<open>terminal_edit\<close>, proved of each
  edit by interpretation, and what it gives to the Session is proved once. \<open>None\<close> as the whole
  result of an operation is a panic of the source (\<open>expect\<close>); the lemmas show there is none.
\<close>

section \<open>Operations\<close>

text \<open>\<open>find_pane\<close> followed by \<open>terminal_layout_mut\<close>, and the edit through it. An edit gets the
  index of the Pane in the Tab and answers whether something changed.\<close>

type_synonym terminal_edit = "nat \<Rightarrow> terminal_layout \<Rightarrow> bool \<times> terminal_layout"

definition on_pane_tab :: "session \<Rightarrow> pane_id \<Rightarrow> terminal_edit \<Rightarrow> (bool \<times> session) option" where
  "on_pane_tab s p edit =
     (case find_pane s p of
        None \<Rightarrow> Some (False, s)
      | Some (i, j, k) \<Rightarrow>
          (case terminal_layout_at s i j of
             None \<Rightarrow> None
           | Some tm \<Rightarrow> let (changed, tm') = edit k tm in Some (changed, set_terminals i j tm' s)))"

definition set_resume :: "agent_resume option \<Rightarrow> terminal_edit" where
  "set_resume resume k tm =
     (if p_resume (tl_panes tm ! k) = resume then (False, tm)
      else (True, tm\<lparr>tl_panes := (tl_panes tm)[k := (tl_panes tm ! k)\<lparr>p_resume := resume\<rparr>]\<rparr>))"

definition set_pane_agent_resume ::
  "session \<Rightarrow> pane_id \<Rightarrow> agent_resume option \<Rightarrow> (bool \<times> session) option" where
  "set_pane_agent_resume s p resume =
     (if (case resume of Some r \<Rightarrow> \<not> valid_session_id (ar_session_id r) | None \<Rightarrow> False)
      then Some (False, s)
      else on_pane_tab s p (set_resume resume))"

definition split_pane ::
  "session \<Rightarrow> u64 \<Rightarrow> pane_id \<Rightarrow> split_direction \<Rightarrow> f32 \<Rightarrow> (pane_id option \<times> session \<times> u64) option" where
  "split_pane s nxt p direction ratio =
     (if MAX_SNAPSHOT_PANES \<le> pane_count s then Some (None, s, nxt)
      else case find_pane s p of
        None \<Rightarrow> Some (None, s, nxt)
      | Some (i, j, k) \<Rightarrow>
          (case terminal_layout_at s i j of
             None \<Rightarrow> None
           | Some tm \<Rightarrow>
               let root = w_root (workspaces s ! i);
                   cwd = (case p_cwd (tl_panes tm ! k) of Some c \<Rightarrow> c | None \<Rightarrow> root) in
               (case pane_layout_depth (tl_layout tm) p 1 of
                  None \<Rightarrow> Some (None, s, nxt)
                | Some depth \<Rightarrow>
                    if MAX_SNAPSHOT_LAYOUT_DEPTH \<le> depth then Some (None, s, nxt)
                    else case reserve_ids 1 nxt of
                      None \<Rightarrow> Some (None, s, nxt)
                    | Some (first_id, nxt') \<Rightarrow>
                        let new_pane = PaneId first_id;
                            side = (case direction of Horizontal \<Rightarrow> Right | Vertical \<Rightarrow> Down);
                            (found, layout') =
                              split_layout (tl_layout tm) p new_pane side (valid_split_ratio ratio) in
                        if \<not> found then Some (None, s, nxt')
                        else
                          let previous = tl_focused tm;
                              tm' = tm\<lparr>tl_layout := layout',
                                tl_history := filter (\<lambda>i. i \<noteq> previous) (tl_history tm) @ [previous],
                                tl_focused := new_pane, tl_zoomed := None,
                                tl_panes := tl_panes tm @
                                  [\<lparr>p_id = new_pane, p_cwd = Some cwd, p_resume = None\<rparr>]\<rparr>
                          in Some (Some new_pane, set_terminals i j tm' s, nxt'))))"

text \<open>The loop over terminal Tabs meets the Panes in the order of \<open>find_pane\<close>.\<close>

definition set_cwd :: "path option \<Rightarrow> terminal_edit" where
  "set_cwd cwd k tm =
     (True, tm\<lparr>tl_panes := (tl_panes tm)[k := (tl_panes tm ! k)\<lparr>p_cwd := cwd\<rparr>]\<rparr>)"

definition set_pane_cwd :: "session \<Rightarrow> pane_id \<Rightarrow> path option \<Rightarrow> (bool \<times> session) option" where
  "set_pane_cwd s p cwd = on_pane_tab s p (set_cwd cwd)"

definition focus_terminals :: "pane_id \<Rightarrow> terminal_edit" where
  "focus_terminals p k tm =
     (let previous = tl_focused tm in
      (True, if previous \<noteq> p
             then tm\<lparr>tl_history := filter (\<lambda>i. i \<noteq> p \<and> i \<noteq> previous) (tl_history tm) @ [previous],
                       tl_focused := p\<rparr>
             else tm))"

definition focus_pane :: "session \<Rightarrow> pane_id \<Rightarrow> (bool \<times> session) option" where
  "focus_pane s p = on_pane_tab s p (focus_terminals p)"

text \<open>A closed Pane in a Tab of several. \<open>None\<close> is the \<open>expect\<close> on the layout that remains.\<close>

definition close_in_tab :: "pane_id \<Rightarrow> nat \<Rightarrow> terminal_layout \<Rightarrow> terminal_layout option" where
  "close_in_tab p k tm =
     (case remove_from_layout (tl_layout tm) p of
        None \<Rightarrow> None
      | Some layout' \<Rightarrow>
          let panes = remove_at k (tl_panes tm);
              history = filter (\<lambda>i. i \<noteq> p) (tl_history tm);
              zoomed = (if tl_zoomed tm = Some p then None else tl_zoomed tm);
              (focused, history') =
                (if tl_focused tm = p
                 then (case rev history of
                         [] \<Rightarrow> (first_pane_id layout', [])
                       | latest # older \<Rightarrow>
                           (if list_ex (\<lambda>x. p_id x = latest) panes then latest
                            else first_pane_id layout', rev older))
                 else (tl_focused tm, history))
          in Some (tm\<lparr>tl_layout := layout', tl_panes := panes, tl_history := history',
                       tl_zoomed := zoomed, tl_focused := focused\<rparr>))"

definition close_pane :: "session \<Rightarrow> pane_id \<Rightarrow> (close_outcome option \<times> session) option" where
  "close_pane s p =
     (case find_pane s p of
        None \<Rightarrow> Some (None, s)
      | Some (i, j, k) \<Rightarrow>
          let w = workspaces s ! i; t = w_tabs w ! j in
          if 1 < length (tab_panes t)
          then case terminal_layout_at s i j of
                 None \<Rightarrow> None
               | Some tm \<Rightarrow>
                   map_option (\<lambda>tm'. (Some \<lparr>co_panes = [p], co_tabs = [], co_workspaces = []\<rparr>,
                                      set_terminals i j tm' s)) (close_in_tab p k tm)
          else let tabs = remove_at j (w_tabs w) in
               if tabs \<noteq> []
               then Some (Some \<lparr>co_panes = [p], co_tabs = [t_id t], co_workspaces = []\<rparr>,
                          set_workspace i (w\<lparr>w_tabs := tabs\<rparr>) s)
               else Some (Some \<lparr>co_panes = [p], co_tabs = [t_id t], co_workspaces = [w_id w]\<rparr>,
                          s\<lparr>workspaces := remove_at i (workspaces s)\<rparr>))"

definition focus_pane_in_direction ::
  "session \<Rightarrow> pane_id \<Rightarrow> pane_direction \<Rightarrow> (bool \<times> session) option" where
  "focus_pane_in_direction s p direction =
     (case find_pane s p of
        None \<Rightarrow> Some (False, s)
      | Some (i, j, _) \<Rightarrow>
          (case terminal_layout_at s i j of
             None \<Rightarrow> None
           | Some tm \<Rightarrow>
               (case neighbor_pane_id (tl_layout tm) p direction of
                  None \<Rightarrow> Some (False, s)
                | Some neighbor \<Rightarrow> focus_pane s neighbor)))"

fun trailing_leading :: "pane_direction \<Rightarrow> pane_direction \<times> pane_direction" where
  "trailing_leading Left = (Right, Left)"
| "trailing_leading Right = (Right, Left)"
| "trailing_leading Up = (Down, Up)"
| "trailing_leading Down = (Down, Up)"

definition RESIZE_LIMIT :: f32 where "RESIZE_LIMIT = f32_lit 4 10"

definition resize_terminals :: "pane_id \<Rightarrow> pane_direction \<Rightarrow> f32 \<Rightarrow> terminal_edit" where
  "resize_terminals p direction amount k tm =
     (let (trailing, leading) = trailing_leading direction;
          choice = (case neighbor_pane_id (tl_layout tm) p trailing of
                      Some n \<Rightarrow> Some (n, direction = trailing)
                    | None \<Rightarrow> map_option (\<lambda>n. (n, direction = leading))
                                (neighbor_pane_id (tl_layout tm) p leading)) in
      case choice of
        None \<Rightarrow> (False, tm)
      | Some (neighbor, pane_grows) \<Rightarrow>
          let by = f32_min (f32_abs amount) RESIZE_LIMIT;
              (changed, layout') =
                (if pane_grows then resize_between (tl_layout tm) p neighbor by
                 else resize_between (tl_layout tm) neighbor p by)
          in (changed, tm\<lparr>tl_layout := layout'\<rparr>))"

definition resize_pane ::
  "session \<Rightarrow> pane_id \<Rightarrow> pane_direction \<Rightarrow> f32 \<Rightarrow> (bool \<times> session) option" where
  "resize_pane s p direction amount =
     (if \<not> f32_is_finite amount \<or> f32_eq amount f32_zero then Some (False, s)
      else on_pane_tab s p (resize_terminals p direction amount))"

definition swap_towards :: "pane_id \<Rightarrow> pane_direction \<Rightarrow> terminal_edit" where
  "swap_towards p direction k tm =
     (case neighbor_pane_id (tl_layout tm) p direction of
        None \<Rightarrow> (False, tm)
      | Some neighbor \<Rightarrow> (True, tm\<lparr>tl_layout := swap_layout_panes (tl_layout tm) p neighbor\<rparr>))"

definition swap_pane :: "session \<Rightarrow> pane_id \<Rightarrow> pane_direction \<Rightarrow> (bool \<times> session) option" where
  "swap_pane s p direction = on_pane_tab s p (swap_towards p direction)"

definition swap_with :: "pane_id \<Rightarrow> pane_id \<Rightarrow> terminal_edit" where
  "swap_with p other k tm =
     (if \<not> list_ex (\<lambda>x. p_id x = other) (tl_panes tm) then (False, tm)
      else (True, tm\<lparr>tl_layout := swap_layout_panes (tl_layout tm) p other\<rparr>))"

definition swap_panes :: "session \<Rightarrow> pane_id \<Rightarrow> pane_id \<Rightarrow> (bool \<times> session) option" where
  "swap_panes s p other =
     (if p = other then Some (False, s) else on_pane_tab s p (swap_with p other))"

definition move_beside :: "pane_id \<Rightarrow> pane_id \<Rightarrow> pane_direction \<Rightarrow> terminal_edit" where
  "move_beside p target side k tm =
     (if \<not> list_ex (\<lambda>x. p_id x = target) (tl_panes tm) then (False, tm)
      else case remove_from_layout (tl_layout tm) p of
        None \<Rightarrow> (False, tm)
      | Some layout \<Rightarrow>
          if (case pane_layout_depth layout target 1 of
                None \<Rightarrow> True | Some d \<Rightarrow> MAX_SNAPSHOT_LAYOUT_DEPTH \<le> d)
          then (False, tm)
          else let (found, layout') = split_layout layout target p side ratio_half in
               if \<not> found then (False, tm) else (True, tm\<lparr>tl_layout := layout'\<rparr>))"

definition move_pane ::
  "session \<Rightarrow> pane_id \<Rightarrow> pane_id \<Rightarrow> pane_direction \<Rightarrow> (bool \<times> session) option" where
  "move_pane s p target side =
     (if p = target then Some (False, s) else on_pane_tab s p (move_beside p target side))"

definition set_tab_split_ratios :: "session \<Rightarrow> tab_id \<Rightarrow> f32 list \<Rightarrow> (bool \<times> session) option" where
  "set_tab_split_ratios s tid ratios =
     (if list_ex (\<lambda>r. \<not> f32_is_finite r) ratios then Some (False, s)
      else case tab_location s tid of
        None \<Rightarrow> Some (False, s)
      | Some (i, j) \<Rightarrow>
          (case tab_terminals (tab_at s i j) of
             None \<Rightarrow> Some (False, s)
           | Some tm \<Rightarrow>
               if split_count (tl_layout tm) \<noteq> length ratios then Some (False, s)
               else case apply_split_ratios (tl_layout tm) ratios of
                 None \<Rightarrow> None
               | Some (layout', _) \<Rightarrow>
                   Some (\<not> layout_eq layout' (tl_layout tm),
                         set_terminals i j (tm\<lparr>tl_layout := layout'\<rparr>) s)))"

definition zoom_terminals :: "pane_id \<Rightarrow> terminal_edit" where
  "zoom_terminals p k tm =
     (if length (tl_panes tm) = 1 then (False, tm)
      else (True, tm\<lparr>tl_zoomed := (if tl_zoomed tm \<noteq> Some p then Some p else None)\<rparr>))"

text \<open>The second \<open>find_pane\<close> is expected to succeed; its \<open>expect\<close> is the inner \<open>None\<close>.\<close>

definition toggle_pane_zoom :: "session \<Rightarrow> pane_id \<Rightarrow> (bool \<times> session) option" where
  "toggle_pane_zoom s p =
     (case focus_pane s p of
        None \<Rightarrow> None
      | Some (focused, s') \<Rightarrow>
          if \<not> focused then Some (False, s')
          else if find_pane s' p = None then None
          else on_pane_tab s' p (zoom_terminals p))"

section \<open>The contract of an edit\<close>

text \<open>
  An edit of the layout around Pane \<open>p\<close> keeps it well-formed and keeps the Panes it holds.
\<close>

locale terminal_edit =
  fixes p :: pane_id and edit :: terminal_edit
  assumes edit_live: "live_terminals tm \<Longrightarrow> k < length (tl_panes tm) \<Longrightarrow> p_id (tl_panes tm ! k) = p
                        \<Longrightarrow> edit k tm = (changed, tm') \<Longrightarrow> live_terminals tm'"
    and edit_panes: "live_terminals tm \<Longrightarrow> k < length (tl_panes tm) \<Longrightarrow> p_id (tl_panes tm ! k) = p
                        \<Longrightarrow> edit k tm = (changed, tm') \<Longrightarrow> pane_ids_of tm' = pane_ids_of tm"
begin

lemma no_panic: "on_pane_tab s p edit \<noteq> None"
proof (cases "find_pane s p")
  case (Some ijk)
  then obtain i j k where at: "find_pane s p = Some (i, j, k)" by (cases ijk) auto
  then obtain tm where "terminal_layout_at s i j = Some tm" by (rule find_pane_terminals)
  with at show ?thesis by (simp add: on_pane_tab_def split: prod.splits)
qed (simp add: on_pane_tab_def)

lemma on_pane_tab_cases:
  assumes "on_pane_tab s p edit = Some (r, s')"
  obtains (missing) "p \<notin> set (session_pane_ids s)" and "r = False" and "s' = s"
    | (edited) i j k tm tm' where "find_pane s p = Some (i, j, k)"
        and "terminal_layout_at s i j = Some tm" and "k < length (tl_panes tm)"
        and "p_id (tl_panes tm ! k) = p" and "edit k tm = (r, tm')" and "s' = set_terminals i j tm' s"
proof (cases "find_pane s p")
  case None
  with assms show ?thesis by (intro missing) (auto simp: on_pane_tab_def find_pane_None)
next
  case (Some ijk)
  then obtain i j k where at: "find_pane s p = Some (i, j, k)" by (cases ijk) auto
  show ?thesis
  proof (rule find_pane_terminals [OF at])
    fix tm assume "terminal_layout_at s i j = Some tm" "k < length (tl_panes tm)"
      "p_id (tl_panes tm ! k) = p"
    with at assms show ?thesis
      by (intro edited [of i j k tm "snd (edit k tm)"]) (auto simp: on_pane_tab_def split: prod.splits)
  qed
qed

lemma keeps_inv:
  assumes inv: "session_inv rp nxt s" and step: "on_pane_tab s p edit = Some (r, s')"
  shows "session_inv rp nxt s'"
  using step
proof (cases rule: on_pane_tab_cases)
  case (edited i j k tm tm')
  note live = session_inv_live_terminals [OF inv edited(1,2)]
  show ?thesis unfolding edited(6)
    using edit_live [OF live edited(3,4,5)] edit_panes [OF live edited(3,4,5)]
    by (intro session_inv_edit_terminals [OF inv edited(1,2)]) (simp_all flip: mset_map)
qed (use inv in simp)

end

section \<open>The edits keep it\<close>

lemma map_id_update:
  assumes "p_id x = p_id (xs ! k)" and "k < length xs"
  shows "map p_id (xs[k := x]) = map p_id xs"
  using assms by (simp add: map_update_same)

text \<open>A Pane record replaced by one with the same id.\<close>

lemma live_update_pane:
  assumes live: "live_terminals tm" and k: "k < length (tl_panes tm)"
    and x: "p_id x = p_id (tl_panes tm ! k)" "wf_pane x"
  shows "live_terminals (tm\<lparr>tl_panes := (tl_panes tm)[k := x]\<rparr>)"
proof -
  have "map p_id ((tl_panes tm)[k := x]) = pane_ids_of tm"
    using map_id_update [OF x(1) k] .
  moreover from this have "p_id ` set ((tl_panes tm)[k := x]) = p_id ` set (tl_panes tm)"
    by (metis set_map)
  moreover have "\<forall>y \<in> set ((tl_panes tm)[k := x]). wf_pane y"
    using live x(2) by (auto simp: live_terminals_def wf_terminals_def elim: set_update_cases)
  ultimately show ?thesis using live
    by (simp add: live_terminals_def wf_terminals_def)
qed

lemma live_wf_pane: "live_terminals tm \<Longrightarrow> k < length (tl_panes tm) \<Longrightarrow> wf_pane (tl_panes tm ! k)"
  by (simp add: live_terminals_def wf_terminals_def)

text \<open>A split tree replaced by one with the same Panes.\<close>

lemma live_update_layout:
  assumes live: "live_terminals tm" and layout: "distinct (leaves t)"
    "set (leaves t) = set (leaves (tl_layout tm))" "ratios_ok t"
    "layout_height t \<le> MAX_SNAPSHOT_LAYOUT_DEPTH"
  shows "live_terminals (tm\<lparr>tl_layout := t\<rparr>)"
  using assms by (simp add: live_terminals_def wf_terminals_def)

lemma live_layout:
  assumes "live_terminals tm"
  shows "distinct (leaves (tl_layout tm))" and "set (leaves (tl_layout tm)) = set (pane_ids_of tm)"
    and "ratios_ok (tl_layout tm)" and "layout_height (tl_layout tm) \<le> MAX_SNAPSHOT_LAYOUT_DEPTH"
  using assms by (simp_all add: live_terminals_def wf_terminals_def)

text \<open>The resumption the operation lets through, for the interpretation.\<close>

definition accepted_resume :: "agent_resume option \<Rightarrow> agent_resume option" where
  "accepted_resume resume =
     (case resume of Some r \<Rightarrow> if valid_session_id (ar_session_id r) then resume else None
                   | None \<Rightarrow> None)"

interpretation resume_edit: terminal_edit p "set_resume (accepted_resume resume)" for p resume
proof
  fix tm k changed tm'
  assume *: "live_terminals tm" "k < length (tl_panes tm)" "p_id (tl_panes tm ! k) = p"
    "set_resume (accepted_resume resume) k tm = (changed, tm')"
  have "wf_pane ((tl_panes tm ! k)\<lparr>p_resume := accepted_resume resume\<rparr>)"
    using live_wf_pane [OF *(1,2)]
    by (auto simp: wf_pane_def accepted_resume_def split: option.splits if_splits)
  with * show "live_terminals tm'"
    by (auto simp: set_resume_def split: if_splits intro: live_update_pane)
  from * show "pane_ids_of tm' = pane_ids_of tm"
    by (auto simp: set_resume_def map_id_update split: if_splits)
qed

interpretation cwd_edit: terminal_edit p "set_cwd cwd" for p cwd
proof
  fix tm k changed tm'
  assume *: "live_terminals tm" "k < length (tl_panes tm)" "p_id (tl_panes tm ! k) = p"
    "set_cwd cwd k tm = (changed, tm')"
  have "wf_pane ((tl_panes tm ! k)\<lparr>p_cwd := cwd\<rparr>)"
    using live_wf_pane [OF *(1,2)] by (simp add: wf_pane_def)
  with * show "live_terminals tm'"
    by (auto simp: set_cwd_def intro: live_update_pane)
  from * show "pane_ids_of tm' = pane_ids_of tm"
    by (auto simp: set_cwd_def map_id_update)
qed

lemma focus_terminals_panes: "tl_panes (snd (focus_terminals p k tm)) = tl_panes tm"
  by (simp add: focus_terminals_def Let_def)

interpretation focus_edit: terminal_edit p "focus_terminals p" for p
proof
  fix tm k changed tm'
  assume *: "live_terminals tm" "k < length (tl_panes tm)" "p_id (tl_panes tm ! k) = p"
    "focus_terminals p k tm = (changed, tm')"
  then have "p \<in> p_id ` set (tl_panes tm)" by auto
  with * show "live_terminals tm'"
    by (auto simp: focus_terminals_def Let_def live_terminals_def wf_terminals_def split: if_splits)
  from * show "pane_ids_of tm' = pane_ids_of tm"
    by (auto simp: focus_terminals_def Let_def split: if_splits)
qed

interpretation resize_edit: terminal_edit p "resize_terminals p direction amount"
  for p direction amount
proof
  fix tm k changed tm'
  assume *: "live_terminals tm" "resize_terminals p direction amount k tm = (changed, tm')"
  then obtain a b t where t: "tm' = tm \<or> tm' = tm\<lparr>tl_layout := snd (resize_between (tl_layout tm) a b t)\<rparr>"
    by (auto simp: resize_terminals_def Let_def split: option.splits prod.splits if_splits)
       (metis snd_conv)+
  with * show "live_terminals tm'"
    by (auto intro!: live_update_layout resize_between_ratios simp: live_layout resize_between_leaves
        resize_between_height)
  from t show "pane_ids_of tm' = pane_ids_of tm" by auto
qed

lemma live_swap:
  assumes live: "live_terminals tm" and "p \<in> set (leaves (tl_layout tm))" and "q \<in> set (leaves (tl_layout tm))"
  shows "live_terminals (tm\<lparr>tl_layout := swap_layout_panes (tl_layout tm) p q\<rparr>)"
proof (rule live_update_layout [OF live])
  show "distinct (leaves (swap_layout_panes (tl_layout tm) p q))"
    using live_layout(1) [OF live] inj_on_subset [OF inj_swap_id subset_UNIV]
    by (simp add: swap_layout_leaves distinct_map)
  show "ratios_ok (swap_layout_panes (tl_layout tm) p q)"
    using live_layout(3) [OF live] by (simp add: ratios_ok_def swap_layout_ratios)
qed (use assms live_layout in \<open>simp_all add: swap_layout_perm swap_layout_height\<close>)

interpretation swap_edit: terminal_edit p "swap_towards p direction" for p direction
proof
  fix tm k changed tm'
  assume *: "live_terminals tm" "swap_towards p direction k tm = (changed, tm')"
  then show "live_terminals tm'"
    by (auto simp: swap_towards_def split: option.splits intro: live_swap neighbor_pane_id_in)
  from * show "pane_ids_of tm' = pane_ids_of tm"
    by (auto simp: swap_towards_def split: option.splits)
qed

interpretation swap_with_edit: terminal_edit p "swap_with p other" for p other
proof
  fix tm k changed tm'
  assume *: "live_terminals tm" "k < length (tl_panes tm)" "p_id (tl_panes tm ! k) = p"
    "swap_with p other k tm = (changed, tm')"
  then have "p \<in> set (leaves (tl_layout tm))" by (auto simp: live_layout(2))
  with * show "live_terminals tm'"
    by (auto simp: swap_with_def list_ex_iff live_layout(2) split: if_splits intro!: live_swap)
  from * show "pane_ids_of tm' = pane_ids_of tm"
    by (auto simp: swap_with_def split: if_splits)
qed

lemma live_move:
  assumes live: "live_terminals tm" and p: "p \<in> set (leaves (tl_layout tm))"
    and removed: "remove_from_layout (tl_layout tm) p = Some t"
    and depth: "pane_layout_depth t target 1 = Some d" "d < MAX_SNAPSHOT_LAYOUT_DEPTH"
  shows "live_terminals (tm\<lparr>tl_layout := snd (split_layout t target p side ratio_half)\<rparr>)"
proof (rule live_update_layout [OF live])
  note t = remove_from_layout_leaves [OF removed] live_layout [OF live]
  have target: "target \<in> set (leaves t)" using depth(1) pane_layout_depth_None [of t target 1] by auto
  have leaves: "mset (leaves (snd (split_layout t target p side ratio_half))) = add_mset p (mset (leaves t))"
    using split_layout_leaves [OF target] by simp
  then show "distinct (leaves (snd (split_layout t target p side ratio_half)))"
    using t(1,2) distinct_mset_eq [of "leaves (snd (split_layout t target p side ratio_half))"
        "p # leaves t"] by simp
  show "set (leaves (snd (split_layout t target p side ratio_half))) = set (leaves (tl_layout tm))"
    using arg_cong [OF leaves, of set_mset] t(1) p by auto
  show "ratios_ok (snd (split_layout t target p side ratio_half))"
    using remove_from_layout_ratios [OF removed t(4)] ratio_ok_half
    by (simp add: split_layout_ratios)
  show "layout_height (snd (split_layout t target p side ratio_half)) \<le> MAX_SNAPSHOT_LAYOUT_DEPTH"
    using split_layout_height [OF depth(1), of p side ratio_half] remove_from_layout_height [OF removed]
      t(5) depth(2)
    by simp
qed

interpretation move_edit: terminal_edit p "move_beside p target side" for p target side
proof
  fix tm k changed tm'
  assume *: "live_terminals tm" "k < length (tl_panes tm)" "p_id (tl_panes tm ! k) = p"
    "move_beside p target side k tm = (changed, tm')"
  then have "p \<in> set (leaves (tl_layout tm))" by (auto simp: live_layout(2))
  with * show "live_terminals tm'"
    by (auto simp: move_beside_def Let_def split: option.splits if_splits prod.splits
        dest: live_move [where side = side and p = p])
  from * show "pane_ids_of tm' = pane_ids_of tm"
    by (auto simp: move_beside_def Let_def split: if_splits option.splits prod.splits)
qed

interpretation zoom_edit: terminal_edit p "zoom_terminals p" for p
proof
  fix tm k changed tm'
  assume *: "live_terminals tm" "k < length (tl_panes tm)" "p_id (tl_panes tm ! k) = p"
    "zoom_terminals p k tm = (changed, tm')"
  then have "p \<in> p_id ` set (tl_panes tm)" by auto
  with * show "live_terminals tm'"
    by (auto simp: zoom_terminals_def live_terminals_def wf_terminals_def split: if_splits)
  from * show "pane_ids_of tm' = pane_ids_of tm"
    by (auto simp: zoom_terminals_def split: if_splits)
qed

section \<open>Every operation keeps the invariant and none panics\<close>

lemma set_pane_agent_resume_edit:
  "set_pane_agent_resume s p resume = Some (r, s') \<Longrightarrow>
     s' = s \<or> on_pane_tab s p (set_resume (accepted_resume resume)) = Some (r, s')"
  by (auto simp: set_pane_agent_resume_def accepted_resume_def split: option.splits if_splits)

lemma set_pane_agent_resume_total: "set_pane_agent_resume s p resume \<noteq> None"
  using resume_edit.no_panic [of s p resume]
  by (auto simp: set_pane_agent_resume_def accepted_resume_def split: option.splits if_splits)

lemma set_pane_agent_resume_inv:
  assumes "session_inv rp nxt s" and "set_pane_agent_resume s p resume = Some (r, s')"
  shows "session_inv rp nxt s'"
  using assms set_pane_agent_resume_edit [OF assms(2)] resume_edit.keeps_inv by blast

lemma set_pane_cwd_inv:
  "session_inv rp nxt s \<Longrightarrow> set_pane_cwd s p cwd = Some (r, s') \<Longrightarrow> session_inv rp nxt s'"
  unfolding set_pane_cwd_def by (rule cwd_edit.keeps_inv)

lemma focus_pane_inv:
  "session_inv rp nxt s \<Longrightarrow> focus_pane s p = Some (r, s') \<Longrightarrow> session_inv rp nxt s'"
  unfolding focus_pane_def by (rule focus_edit.keeps_inv)

lemma focus_pane_total: "focus_pane s p \<noteq> None"
  unfolding focus_pane_def by (rule focus_edit.no_panic)

lemma focus_pane_in_direction_inv:
  assumes "session_inv rp nxt s" and "focus_pane_in_direction s p direction = Some (r, s')"
  shows "session_inv rp nxt s'"
  using assms focus_pane_inv [OF assms(1)]
  by (auto simp: focus_pane_in_direction_def split: option.splits prod.splits)

lemma resize_pane_inv:
  assumes "session_inv rp nxt s" and "resize_pane s p direction amount = Some (r, s')"
  shows "session_inv rp nxt s'"
  using assms resize_edit.keeps_inv by (auto simp: resize_pane_def split: if_splits)

lemma swap_pane_inv:
  "session_inv rp nxt s \<Longrightarrow> swap_pane s p direction = Some (r, s') \<Longrightarrow> session_inv rp nxt s'"
  unfolding swap_pane_def by (rule swap_edit.keeps_inv)

lemma swap_panes_inv:
  assumes "session_inv rp nxt s" and "swap_panes s p other = Some (r, s')"
  shows "session_inv rp nxt s'"
  using assms swap_with_edit.keeps_inv by (auto simp: swap_panes_def split: if_splits)

lemma move_pane_inv:
  assumes "session_inv rp nxt s" and "move_pane s p target side = Some (r, s')"
  shows "session_inv rp nxt s'"
  using assms move_edit.keeps_inv by (auto simp: move_pane_def split: if_splits)

lemma toggle_pane_zoom_inv:
  assumes "session_inv rp nxt s" and "toggle_pane_zoom s p = Some (r, s')"
  shows "session_inv rp nxt s'"
  using assms focus_pane_inv [OF assms(1)] zoom_edit.keeps_inv
  by (fastforce simp: toggle_pane_zoom_def split: option.splits prod.splits if_splits)

lemma split_pane_Some:
  assumes "split_pane s nxt p direction ratio = Some (Some new_pane, s', nxt')"
  obtains i j k tm depth first_id cwd side where "find_pane s p = Some (i, j, k)"
    and "terminal_layout_at s i j = Some tm" and "pane_count s < MAX_SNAPSHOT_PANES"
    and "pane_layout_depth (tl_layout tm) p 1 = Some depth" and "depth < MAX_SNAPSHOT_LAYOUT_DEPTH"
    and "reserve_ids 1 nxt = Some (first_id, nxt')" and "new_pane = PaneId first_id"
    and "side = (case direction of Horizontal \<Rightarrow> Right | Vertical \<Rightarrow> Down)"
    and "s' = set_terminals i j (tm\<lparr>tl_layout := snd (split_layout (tl_layout tm) p new_pane side
           (valid_split_ratio ratio)),
         tl_history := filter (\<lambda>i. i \<noteq> tl_focused tm) (tl_history tm) @ [tl_focused tm],
         tl_focused := new_pane, tl_zoomed := None,
         tl_panes := tl_panes tm @ [\<lparr>p_id = new_pane, p_cwd = Some cwd, p_resume = None\<rparr>]\<rparr>) s"
  using assms
  by (auto simp: split_pane_def Let_def split: if_splits option.splits prod.splits)

lemma split_pane_refused:
  assumes "split_pane s nxt p direction ratio = Some (None, s', nxt')"
  shows "s' = s" and "nxt' = nxt"
proof -
  have found: "split_layout t p n side q \<noteq> (False, l)"
    if "pane_layout_depth t p (Suc 0) = Some d" for t n side q d l
    using that by (metis fst_conv not_Some_eq pane_layout_depth_None split_layout_found)
  with assms have "s' = s \<and> nxt' = nxt"
    by (auto simp: split_pane_def Let_def split: if_splits option.splits prod.splits)
  then show "s' = s" and "nxt' = nxt" by simp_all
qed

lemma live_split:
  assumes live: "live_terminals tm" and depth: "pane_layout_depth (tl_layout tm) p 1 = Some d"
    "d < MAX_SNAPSHOT_LAYOUT_DEPTH" and q: "ratio_ok q"
    and x: "wf_pane x" "p_id x \<notin> set (pane_ids_of tm)"
  shows "live_terminals (tm\<lparr>tl_layout := snd (split_layout (tl_layout tm) p (p_id x) side q),
      tl_history := filter (\<lambda>i. i \<noteq> tl_focused tm) (tl_history tm) @ [tl_focused tm],
      tl_focused := p_id x, tl_zoomed := None, tl_panes := tl_panes tm @ [x]\<rparr>)"
proof -
  let ?t = "snd (split_layout (tl_layout tm) p (p_id x) side q)"
  have p: "p \<in> set (leaves (tl_layout tm))"
    using depth(1) pane_layout_depth_None [of "tl_layout tm" p 1] by auto
  note tm = live_layout [OF live]
  have leaves: "mset (leaves ?t) = mset (p_id x # leaves (tl_layout tm))"
    using split_layout_leaves [OF p] by simp
  have "distinct (leaves ?t)" "set (leaves ?t) = insert (p_id x) (set (pane_ids_of tm))"
    using distinct_mset_eq [OF leaves] arg_cong [OF leaves, of set_mset] tm(1,2) x(2) by auto
  moreover have "layout_height ?t \<le> MAX_SNAPSHOT_LAYOUT_DEPTH"
    using split_layout_height [OF depth(1), of "p_id x" side q] tm(4) depth(2) by simp
  moreover have "ratios_ok ?t" using tm(3) q by (simp add: split_layout_ratios)
  ultimately show ?thesis
    using live x unfolding live_terminals_def wf_terminals_def by auto
qed

lemma split_pane_inv:
  assumes inv: "session_inv rp nxt s" and step: "split_pane s nxt p direction ratio = Some (r, s', nxt')"
  shows "session_inv rp nxt' s'"
proof (cases r)
  case None
  with split_pane_refused step inv show ?thesis by blast
next
  case (Some new_pane)
  with step have "split_pane s nxt p direction ratio = Some (Some new_pane, s', nxt')" by simp
  then show ?thesis
  proof (rule split_pane_Some)
    fix i j k tm depth first_id cwd side
    assume at: "find_pane s p = Some (i, j, k)" and tm: "terminal_layout_at s i j = Some tm"
      and room: "pane_count s < MAX_SNAPSHOT_PANES"
      and depth: "pane_layout_depth (tl_layout tm) p 1 = Some depth" "depth < MAX_SNAPSHOT_LAYOUT_DEPTH"
      and r: "reserve_ids 1 nxt = Some (first_id, nxt')" and new: "new_pane = PaneId first_id"
      and s': "s' = set_terminals i j (tm\<lparr>tl_layout := snd (split_layout (tl_layout tm) p new_pane side
           (valid_split_ratio ratio)),
         tl_history := filter (\<lambda>i. i \<noteq> tl_focused tm) (tl_history tm) @ [tl_focused tm],
         tl_focused := new_pane, tl_zoomed := None,
         tl_panes := tl_panes tm @ [\<lparr>p_id = new_pane, p_cwd = Some cwd, p_resume = None\<rparr>]\<rparr>) s"
    let ?x = "\<lparr>p_id = PaneId first_id, p_cwd = Some cwd, p_resume = None\<rparr>"
    have pos: "0 < unat nxt" using inv by (simp add: session_inv_def)
    note ids = reserved_first [OF r pos]
    note live = session_inv_live_terminals [OF inv at tm]
    have "set (pane_ids_of tm) \<subseteq> set (session_pane_ids s)"
    proof -
      have "tl_panes tm = tab_panes (tab_at s i j)"
        using tm by (simp add: terminal_layout_at_def tab_panes_def)
      then show ?thesis
        using find_pane_Some [OF at]
        by (auto simp: session_pane_ids_concat workspace_pane_ids_def tab_pane_ids_def tab_at_def
            intro!: bexI [OF _ nth_mem])
    qed
    then have new_id: "p_id ?x \<notin> set (pane_ids_of tm)"
      using session_inv_ids(6) [OF inv] ids(2) by fastforce
    have "wf_pane ?x" using ids(1) by (simp add: wf_pane_def)
    from live_split [OF live depth valid_split_ratio_ok this new_id, of side]
    show ?thesis unfolding s' new
      using ids(2,3) room find_pane_Some [OF at] tm inv
      by (intro session_inv_set_terminals [where ps = "[PaneId first_id]" and tm = tm and nxt = nxt])
         simp_all
  qed
qed

lemma live_close:
  assumes live: "live_terminals tm" and k: "k < length (tl_panes tm)" "p_id (tl_panes tm ! k) = p"
    and closed: "close_in_tab p k tm = Some tm'"
  shows "live_terminals tm'" and "mset (pane_ids_of tm') \<subseteq># mset (pane_ids_of tm)"
    and "set (pane_ids_of tm') = set (pane_ids_of tm) - {p}"
proof -
  let ?panes = "remove_at k (tl_panes tm)" and ?history = "filter (\<lambda>i. i \<noteq> p) (tl_history tm)"
  from closed obtain layout' where removed: "remove_from_layout (tl_layout tm) p = Some layout'"
    by (auto simp: close_in_tab_def split: option.splits)
  have panes: "tl_panes tm' = ?panes" "tl_layout tm' = layout'"
    "tl_zoomed tm' = (if tl_zoomed tm = Some p then None else tl_zoomed tm)"
    using closed removed by (auto simp: close_in_tab_def Let_def split: prod.splits)
  have ids: "map p_id ?panes = remove_at k (pane_ids_of tm)" by (rule map_remove_at)
  have dist: "distinct (pane_ids_of tm)" using live by (simp add: live_terminals_def wf_terminals_def)
  have sub: "mset (map p_id ?panes) \<subseteq># mset (pane_ids_of tm)"
    unfolding ids using k(1) by (intro mset_remove_at_sub) simp
  then show "mset (pane_ids_of tm') \<subseteq># mset (pane_ids_of tm)" by (simp only: panes)
  have set_ids: "set (map p_id ?panes) = set (pane_ids_of tm) - {p}"
    unfolding ids using set_remove_at_distinct [of k "pane_ids_of tm"] k dist by simp
  then show left: "set (pane_ids_of tm') = set (pane_ids_of tm) - {p}" by (simp only: panes)
  note layout = live_layout [OF live] remove_from_layout_leaves [OF removed]
  have first: "first_pane_id layout' \<in> set (pane_ids_of tm) - {p}"
    using first_pane_id_in [of layout'] layout(2,5) by auto
  have history: "distinct ?history" "set ?history \<subseteq> set (pane_ids_of tm) - {tl_focused tm} - {p}"
    using live by (auto simp: live_terminals_def wf_terminals_def)
  have focus: "tl_focused tm' \<in> set (pane_ids_of tm) - {p} \<and> distinct (tl_history tm')
      \<and> set (tl_history tm') \<subseteq> set (pane_ids_of tm) - {p} - {tl_focused tm'}"
  proof (cases "tl_focused tm = p")
    case False
    with closed removed have "tl_focused tm' = tl_focused tm" "tl_history tm' = ?history"
      by (auto simp: close_in_tab_def Let_def)
    then show ?thesis
      using live False history by (auto simp: live_terminals_def wf_terminals_def)
  next
    case True
    show ?thesis
    proof (cases "rev ?history")
      case Nil
      with True closed removed have "tl_focused tm' = first_pane_id layout'" "tl_history tm' = []"
        by (auto simp: close_in_tab_def Let_def)
      with first show ?thesis by simp
    next
      case (Cons latest older)
      then have "?history = rev older @ [latest]" by (metis rev.simps(2) rev_rev_ident)
      then have h: "latest \<in> set (pane_ids_of tm) - {p}" "distinct older" "latest \<notin> set older"
        "set older \<subseteq> set (pane_ids_of tm) - {p}"
        using history by auto
      then have "latest \<in> set (map p_id ?panes)" by (simp only: set_ids)
      then have "list_ex (\<lambda>x. p_id x = latest) ?panes" by (auto simp: list_ex_iff)
      with True closed removed Cons have "tl_focused tm' = latest" "tl_history tm' = rev older"
        by (auto simp: close_in_tab_def Let_def)
      with h show ?thesis by auto
    qed
  qed
  have zoom: "\<And>q. tl_zoomed tm' = Some q \<Longrightarrow> q \<in> set (pane_ids_of tm) - {p}"
    using live panes(3) by (auto simp: live_terminals_def wf_terminals_def split: if_splits)
  have "distinct (leaves layout')" "set (leaves layout') = set (pane_ids_of tm) - {p}"
    using layout(1,2,5) by auto
  moreover have "ratios_ok layout'" "layout_height layout' \<le> MAX_SNAPSHOT_LAYOUT_DEPTH"
    using remove_from_layout_ratios [OF removed] remove_from_layout_height [OF removed] layout(3,4)
    by auto
  moreover have "\<forall>x \<in> set ?panes. wf_pane x"
    using live set_remove_at_subset [of k "tl_panes tm"]
    by (auto simp: live_terminals_def wf_terminals_def)
  moreover have "distinct (map p_id ?panes)" using distinct_subset_mset [OF sub dist] .
  ultimately show "live_terminals tm'"
    using focus zoom unfolding live_terminals_def wf_terminals_def left
    by (simp only: panes) blast
qed

lemma close_in_tab_Some:
  assumes live: "live_terminals tm" and k: "k < length (tl_panes tm)" "p_id (tl_panes tm ! k) = p"
    and several: "1 < length (tl_panes tm)"
  shows "\<exists>tm'. close_in_tab p k tm = Some tm'"
proof -
  have "\<not> set (leaves (tl_layout tm)) \<subseteq> {p}"
  proof
    assume "set (leaves (tl_layout tm)) \<subseteq> {p}"
    then have "set (pane_ids_of tm) \<subseteq> {p}" by (simp only: live_layout(2) [OF live])
    moreover have "distinct (pane_ids_of tm)" using live by (simp add: live_terminals_def wf_terminals_def)
    ultimately have "length (pane_ids_of tm) \<le> 1"
      by (metis card_mono distinct_card finite.emptyI finite.insertI is_singletonI
          is_singleton_altdef)
    with several show False by simp
  qed
  then show ?thesis
    using remove_from_layout_None [of "tl_layout tm" p]
    by (auto simp: close_in_tab_def Let_def split: option.splits prod.splits)
qed

lemma close_pane_inv:
  assumes inv: "session_inv rp nxt s" and step: "close_pane s p = Some (r, s')"
  shows "session_inv rp nxt s'"
proof (cases "find_pane s p")
  case (Some ijk)
  then obtain i j k where at: "find_pane s p = Some (i, j, k)" by (cases ijk) auto
  then obtain tm where tm: "terminal_layout_at s i j = Some tm" "k < length (tl_panes tm)"
    "p_id (tl_panes tm ! k) = p" by (rule find_pane_terminals)
  note idx = find_pane_Some [OF at]
  let ?w = "workspaces s ! i"
  show ?thesis
  proof (cases "1 < length (tab_panes (w_tabs ?w ! j))")
    case True
    with step at tm obtain tm' where "close_in_tab p k tm = Some tm'"
      and s': "s' = set_terminals i j tm' s"
      by (auto simp: close_pane_def Let_def)
    from live_close [OF session_inv_live_terminals [OF inv at tm(1)] tm(2,3) this(1)]
    show ?thesis unfolding s' by (intro session_inv_edit_terminals [OF inv at tm(1)])
  next
    case False
    show ?thesis
    proof (cases "remove_at j (w_tabs ?w) = []")
      case True
      with False step at have "s' = s\<lparr>workspaces := remove_at i (workspaces s)\<rparr>"
        by (simp add: close_pane_def Let_def)
      then show ?thesis
        using mset_remove_at_sub [OF idx(1)] by (auto intro: session_inv_fewer [OF inv])
    next
      case nonempty: False
      with False step at
      have s': "s' = set_workspace i (?w\<lparr>w_tabs := remove_at j (w_tabs ?w)\<rparr>) s"
        by (simp add: close_pane_def Let_def)
      show ?thesis unfolding s'
        by (intro session_inv_fewer_tabs [OF inv idx(1)] mset_remove_at_sub [OF idx(2)] nonempty)
    qed
  qed
qed (use step inv in \<open>simp add: close_pane_def\<close>)

lemma close_pane_total:
  assumes inv: "session_inv rp nxt s"
  shows "close_pane s p \<noteq> None"
proof (cases "find_pane s p")
  case (Some ijk)
  then obtain i j k where at: "find_pane s p = Some (i, j, k)" by (cases ijk) auto
  then obtain tm where tm: "terminal_layout_at s i j = Some tm" "k < length (tl_panes tm)"
    "p_id (tl_panes tm ! k) = p" by (rule find_pane_terminals)
  have "tab_panes (w_tabs (workspaces s ! i) ! j) = tl_panes tm"
    using tm(1) by (simp add: terminal_layout_at_def tab_panes_def tab_at_def)
  then show ?thesis
    using at tm close_in_tab_Some [OF session_inv_live_terminals [OF inv at tm(1)] tm(2,3)]
    by (auto simp: close_pane_def Let_def)
qed (simp add: close_pane_def)

lemma set_tab_split_ratios_inv:
  assumes inv: "session_inv rp nxt s" and step: "set_tab_split_ratios s tid ratios = Some (r, s')"
  shows "session_inv rp nxt s'"
proof (cases "s' = s")
  case False
  with step obtain i j tm t rest where loc: "tab_location s tid = Some (i, j)"
    and tm: "tab_terminals (tab_at s i j) = Some tm"
    and "split_count (tl_layout tm) = length ratios"
    and t: "apply_split_ratios (tl_layout tm) ratios = Some (t, rest)"
    and s': "s' = set_terminals i j (tm\<lparr>tl_layout := t\<rparr>) s"
    by (auto simp: set_tab_split_ratios_def split: if_splits option.splits prod.splits)
  note at = tab_location_Some [OF loc]
  from session_inv_live [OF inv at(1,2)] tm have live: "live_terminals tm"
    by (simp add: wf_tab_def tab_terminals_Some)
  have "live_terminals (tm\<lparr>tl_layout := t\<rparr>)"
    using live_layout [OF live] apply_split_ratios_Some [of "tl_layout tm" ratios] t
      \<open>split_count (tl_layout tm) = length ratios\<close> valid_split_ratio_ok
    by (intro live_update_layout [OF live]) (auto simp: ratios_ok_def)
  then show ?thesis unfolding s' using tm inv
    by (intro session_inv_set_terminals [OF inv at(1,2), where ps = "[]" and tm = tm])
       (auto simp: terminal_layout_at_def session_inv_def within_limits_def)
qed (use inv in simp)

lemma set_tab_split_ratios_total: "set_tab_split_ratios s tid ratios \<noteq> None"
proof -
  have "split_count t \<noteq> length ratios" if "apply_split_ratios t ratios = None" for t
    using apply_split_ratios_Some [of t ratios] that by auto
  then show ?thesis
    by (auto simp: set_tab_split_ratios_def split: option.splits)
qed

lemma toggle_pane_zoom_total: "toggle_pane_zoom s p \<noteq> None"
proof (cases "focus_pane s p")
  case (Some rs)
  then obtain r s' where step: "on_pane_tab s p (focus_terminals p) = Some (r, s')"
    by (cases rs) (simp add: focus_pane_def)
  then have "r \<Longrightarrow> find_pane s' p \<noteq> None"
  proof (cases rule: focus_edit.on_pane_tab_cases)
    case (edited i j k tm tm')
    note idx = find_pane_Some [OF edited(1)]
    have "tl_panes tm' = tl_panes tm"
      using edited(5) focus_terminals_panes [of p k tm] by simp
    then have "p \<in> set (tab_pane_ids (tab_at s' i j))"
      using edited idx(1,2)
      by (auto simp: set_terminals_def set_tab_def set_workspace_def tab_at_def tab_pane_ids_def
          tab_panes_def tab_terminals_def Let_def)
    then have "p \<in> set (session_pane_ids s')"
      using edited(6) idx(1,2)
      by (auto simp: session_pane_ids_concat workspace_pane_ids_def tab_at_def set_terminals_def
          set_tab_def set_workspace_def Let_def intro!: bexI [OF _ nth_mem])
    then show ?thesis by (simp add: find_pane_None)
  qed simp
  moreover have "rs = (r, s')" using Some step by (simp add: focus_pane_def)
  ultimately show ?thesis
    using Some zoom_edit.no_panic by (auto simp: toggle_pane_zoom_def)
qed (use focus_pane_total in blast)

end
