(* ===== verification/Session_Steps.thy ===== *)
theory Session_Steps
  imports Session_Panes
begin

text \<open>
  The Session as a state machine: a state is the Session and the id counter, a step is one
  operation of \<open>session/workspace.rs\<close> or \<open>session/pane.rs\<close> with any arguments its callers may
  pass. What every reachable state satisfies, and what each operation does.
\<close>

section \<open>Steps and reachable states\<close>

type_synonym session_state = "session \<times> u64"

inductive session_step :: "relpath_api \<Rightarrow> session_state \<Rightarrow> session_state \<Rightarrow> bool" for rp where
  create_workspace: "create_workspace s nxt root = (r, s', nxt') \<Longrightarrow> session_step rp (s, nxt) (s', nxt')"
| create_tab: "create_tab s nxt wid from = (r, s', nxt') \<Longrightarrow> session_step rp (s, nxt) (s', nxt')"
| show_diff: "show_diff rp s nxt wid p = (r, s', nxt') \<Longrightarrow> session_step rp (s, nxt) (s', nxt')"
| show_file: "show_file rp s nxt wid p = (r, s', nxt') \<Longrightarrow> session_step rp (s, nxt) (s', nxt')"
| follow_rename: "follow_rename rp s wid from dest = (r, s') \<Longrightarrow> valid_diff_path rp dest
    \<Longrightarrow> session_step rp (s, nxt) (s', nxt)"
| associate_worktree: "associate_worktree s wid parent root managed base = (r, s')
    \<Longrightarrow> valid_id (workspace_u64 parent) \<Longrightarrow> session_step rp (s, nxt) (s', nxt)"
| clear_worktree: "clear_worktree_association s wid = (r, s') \<Longrightarrow> session_step rp (s, nxt) (s', nxt)"
| close_tab: "close_tab s tid = (c, s') \<Longrightarrow> session_step rp (s, nxt) (s', nxt)"
| close_workspace: "close_workspace s wid = (c, s') \<Longrightarrow> session_step rp (s, nxt) (s', nxt)"
| move_workspace: "move_workspace s wid ix = (r, s') \<Longrightarrow> session_step rp (s, nxt) (s', nxt)"
| move_tab: "move_tab s tid ix = (r, s') \<Longrightarrow> session_step rp (s, nxt) (s', nxt)"
| rename_workspace: "rename_workspace s wid name = (r, s') \<Longrightarrow> session_step rp (s, nxt) (s', nxt)"
| rename_tab: "rename_tab s tid name = (r, s') \<Longrightarrow> session_step rp (s, nxt) (s', nxt)"
| agent_resume: "set_pane_agent_resume s p resume = Some (r, s') \<Longrightarrow> session_step rp (s, nxt) (s', nxt)"
| split_pane: "split_pane s nxt p direction ratio = Some (q, s', nxt') \<Longrightarrow> session_step rp (s, nxt) (s', nxt')"
| split_without_focus: "split_pane s nxt p direction ratio = Some (Some q, s', nxt')
    \<Longrightarrow> session_step rp (s, nxt) (preserve_focus_from s' s, nxt')"
| set_cwd: "set_pane_cwd s p cwd = Some (r, s') \<Longrightarrow> session_step rp (s, nxt) (s', nxt)"
| focus_pane: "focus_pane s p = Some (r, s') \<Longrightarrow> session_step rp (s, nxt) (s', nxt)"
| focus_direction: "focus_pane_in_direction s p direction = Some (r, s') \<Longrightarrow> session_step rp (s, nxt) (s', nxt)"
| close_pane: "close_pane s p = Some (c, s') \<Longrightarrow> session_step rp (s, nxt) (s', nxt)"
| resize_pane: "resize_pane s p direction amount = Some (r, s') \<Longrightarrow> session_step rp (s, nxt) (s', nxt)"
| swap_pane: "swap_pane s p direction = Some (r, s') \<Longrightarrow> session_step rp (s, nxt) (s', nxt)"
| swap_panes: "swap_panes s p q = Some (r, s') \<Longrightarrow> session_step rp (s, nxt) (s', nxt)"
| move_pane: "move_pane s p q side = Some (r, s') \<Longrightarrow> session_step rp (s, nxt) (s', nxt)"
| split_ratios: "set_tab_split_ratios s tid ratios = Some (r, s') \<Longrightarrow> session_step rp (s, nxt) (s', nxt)"
| zoom_pane: "toggle_pane_zoom s p = Some (r, s') \<Longrightarrow> session_step rp (s, nxt) (s', nxt)"

inductive session_reachable :: "relpath_api \<Rightarrow> session_state \<Rightarrow> bool" for rp where
  start: "session_reachable rp (session_new, 1)"
| step: "session_reachable rp st \<Longrightarrow> session_step rp st st' \<Longrightarrow> session_reachable rp st'"

lemma session_new_inv: "session_inv rp 1 session_new"
  by (simp add: session_inv_def wf_session_def within_limits_def session_ids_below_def
      session_new_def session_workspace_ids_def session_tab_ids_def session_pane_ids_def
      session_tabs_def session_panes_def tab_count_def pane_count_def)

text \<open>A split only adds a Pane, so every Tab of the Session before it keeps its Panes.\<close>

lemma find_unique:
  assumes "distinct (map f xs)" and "j < length xs"
  shows "find (\<lambda>y. f y = f (xs ! j)) xs = Some (xs ! j)"
  using assms by (auto simp: find_Some_iff nth_eq_iff_index_eq distinct_conv_nth)

lemma workspace_tab_ids_distinct:
  assumes "session_inv rp nxt s" and "w \<in> set (workspaces s)"
  shows "distinct (map t_id (w_tabs w))"
  using session_inv_ids(2) [OF assms(1)] assms(2)
  by (auto simp: session_tab_ids_concat workspace_tab_ids_def distinct_concat_iff)

lemma set_tab_keeps_panes:
  assumes inv: "session_inv rp nxt s" and i: "i < length (workspaces s)"
    and j: "j < length (w_tabs (workspaces s ! i))" and t: "t_id t = t_id (tab_at s i j)"
    and panes: "set (tab_pane_ids (tab_at s i j)) \<subseteq> set (tab_pane_ids t)"
  shows "keeps_panes s (set_tab i j t s)"
  unfolding keeps_panes_def
proof (intro ballI allI impI)
  fix w old u u0
  assume w: "w \<in> set (workspaces (set_tab i j t s))" and old: "find_workspace s (w_id w) = Some old"
    and u: "u \<in> set (w_tabs w)" and u0: "find (\<lambda>old. t_id old = t_id u) (w_tabs old) = Some u0"
  let ?old = "workspaces s ! i"
  have ws: "distinct (map w_id (workspaces s))"
    using session_inv_ids(1) [OF inv] by (simp add: session_workspace_ids_def)
  have found: "find (\<lambda>y. t_id y = t_id (w_tabs v ! m)) (w_tabs v) = Some (w_tabs v ! m)"
    if "v \<in> set (workspaces s)" "m < length (w_tabs v)" for v m
    using find_unique [OF workspace_tab_ids_distinct [OF inv that(1)] that(2)] .
  have self: "find_workspace s (w_id v) = Some v" if "v \<in> set (workspaces s)" for v
    using that find_unique [OF ws] unfolding find_workspace_def by (metis in_set_conv_nth)
  from w consider (same) "w \<in> set (workspaces s)"
    | (new) "w = ?old\<lparr>w_tabs := (w_tabs ?old)[j := t]\<rparr>"
    by (auto simp: set_tab_def set_workspace_def Let_def elim: set_update_cases)
  then show "set (tab_pane_ids u0) \<subseteq> set (tab_pane_ids u)"
  proof cases
    case same
    with old self have "old = w" by simp
    with u u0 found [OF same] show ?thesis by (metis in_set_conv_nth option.inject order_refl)
  next
    case new
    with old self [of ?old] i have old_eq: "old = ?old" by simp
    from u new obtain m where m: "m < length (w_tabs ?old)" "u = (w_tabs ?old)[j := t] ! m"
      by (metis in_set_conv_nth length_list_update workspace.select_convs(5) workspace.surjective
          workspace.update_convs(5))
    with t have "t_id u = t_id (w_tabs ?old ! m)" by (cases "m = j") (simp_all add: tab_at_def)
    with u0 old_eq found [of ?old m] i m have "u0 = w_tabs ?old ! m" by simp
    with m panes show ?thesis by (cases "m = j") (simp_all add: tab_at_def)
  qed
qed

lemma split_pane_keeps_panes:
  assumes inv: "session_inv rp nxt s" and split: "split_pane s nxt p d r = Some (Some q, s', nxt')"
  shows "keeps_panes s s'"
  using split
proof (rule split_pane_Some)
  fix i j k tm depth first_id cwd side
  assume at: "find_pane s p = Some (i, j, k)" and tm: "terminal_layout_at s i j = Some tm"
    and s': "s' = set_terminals i j (tm\<lparr>tl_layout := snd (split_layout (tl_layout tm) p q side
           (valid_split_ratio r)),
         tl_history := filter (\<lambda>i. i \<noteq> tl_focused tm) (tl_history tm) @ [tl_focused tm],
         tl_focused := q, tl_zoomed := None,
         tl_panes := tl_panes tm @ [\<lparr>p_id = q, p_cwd = Some cwd, p_resume = None\<rparr>]\<rparr>) s"
  note idx = find_pane_Some [OF at]
  from tm have "tab_terminals (tab_at s i j) = Some tm" by (simp add: terminal_layout_at_def)
  from tab_pane_ids_terminals [OF this] show "keeps_panes s s'"
    unfolding s' set_terminals_def
    by (intro set_tab_keeps_panes [OF inv idx(1,2)])
       (auto simp: tab_pane_ids_def tab_panes_def tab_terminals_def)
qed

lemma session_step_inv:
  assumes "session_step rp (s, nxt) (s', nxt')" and "session_inv rp nxt s" and "relpath_ok rp"
  shows "session_inv rp nxt' s'"
  using assms
proof (cases rule: session_step.cases)
  case (split_without_focus p d r q s1)
  note keeps = split_pane_keeps_panes [OF assms(2) split_without_focus(2)]
    split_pane_inv [OF assms(2) split_without_focus(2)]
  with assms(2) split_without_focus(1) show ?thesis
    by (auto simp: session_inv_def [of rp nxt s] intro: preserve_focus_from_inv)
qed (auto simp: show_diff_def show_file_def
    intro: create_workspace_inv create_tab_inv show_viewer_inv follow_rename_inv
      associate_worktree_inv clear_worktree_association_inv close_tab_inv close_workspace_inv
      move_workspace_inv move_tab_inv rename_workspace_inv rename_tab_inv
      set_pane_agent_resume_inv split_pane_inv set_pane_cwd_inv focus_pane_inv
      focus_pane_in_direction_inv close_pane_inv resize_pane_inv swap_pane_inv swap_panes_inv
      move_pane_inv set_tab_split_ratios_inv toggle_pane_zoom_inv)

lemma session_reachable_keeps:
  assumes "session_reachable rp st" and "relpath_ok rp"
  shows "session_inv rp (snd st) (fst st)"
  using assms(1)
proof (induction rule: session_reachable.induct)
  case (step st st')
  then show ?case using session_step_inv [OF _ _ assms(2)] by (cases st; cases st') auto
qed (simp add: session_new_inv)

end
