(* ===== verification/Session_Properties.thy ===== *)
theory Session_Properties
  imports Session_Steps
begin

text \<open>
  What the Session promises its callers, and a small Session on which each promise is
  evaluated.
\<close>

section \<open>A concrete Session\<close>

text \<open>One Workspace \<open>/w\<close> with one Tab, whose Pane 3 was split into 3 and 4.\<close>

text \<open>An instance of the third-party path functions: components are the text between slashes.\<close>

definition demo_component :: "rstr \<Rightarrow> rp_component" where
  "demo_component seg = (if seg = [46] then RpCurDir else if seg = [46, 46] then RpParentDir
                         else RpNormal seg)"

definition demo_components :: "rstr \<Rightarrow> rp_component list" where
  "demo_components p = map demo_component (filter (\<lambda>seg. seg \<noteq> []) (split_slash p))"

definition demo_strip_prefix :: "rstr \<Rightarrow> rstr \<Rightarrow> rstr option" where
  "demo_strip_prefix p from =
     (if p = from then Some []
      else if take (length from + 1) p = from @ [47] then Some (drop (length from + 1) p) else None)"

definition demo_rp :: relpath_api where
  "demo_rp = \<lparr>rp_components = demo_components, rp_strip_prefix = demo_strip_prefix,
              rp_join = (\<lambda>a b. a @ [47] @ b)\<rparr>"

lemma split_slash_not_Nil [simp]: "split_slash p \<noteq> []"
  by (induction p) (auto split: list.splits)

lemma split_slash_append: "split_slash (a @ 47 # b) = split_slash a @ split_slash b"
proof (induction a)
  case (Cons c a)
  then show ?case by (cases "split_slash a") auto
qed simp

lemma demo_components_append: "demo_components (a @ 47 # b) = demo_components a @ demo_components b"
  by (simp add: demo_components_def split_slash_append)

lemma relpath_ok_demo: "relpath_ok demo_rp"
proof -
  have "demo_components p = demo_components pre @ demo_components rest"
    if "demo_strip_prefix p pre = Some rest" for p pre rest
  proof (cases "p = pre")
    case False
    with that have "p = pre @ 47 # rest"
      by (auto simp: demo_strip_prefix_def split: if_splits)
         (metis append.assoc append_Cons append_Nil append_take_drop_id)
    then show ?thesis by (simp add: demo_components_append)
  qed (use that in \<open>simp add: demo_strip_prefix_def demo_components_def\<close>)
  then show ?thesis
    by (simp add: relpath_ok_def demo_rp_def demo_components_append)
qed

abbreviation demo_root :: path where
  "demo_root \<equiv> [47, 119]"

definition demo_pane :: "u64 \<Rightarrow> pane" where
  "demo_pane i = \<lparr>p_id = PaneId i, p_cwd = Some demo_root, p_resume = None\<rparr>"

definition demo_with :: "terminal_layout \<Rightarrow> session" where
  "demo_with tm = \<lparr>workspaces = [\<lparr>w_id = WorkspaceId 1, w_name = [119], w_root = demo_root,
     w_worktree = None, w_tabs = [\<lparr>t_id = TabId 2, t_name = [], t_content = Terminals tm\<rparr>]\<rparr>]\<rparr>"

definition demo_single :: session where
  "demo_single = demo_with (single_terminal (demo_pane 3))"

definition demo_split :: session where
  "demo_split = demo_with \<lparr>tl_panes = [demo_pane 3, demo_pane 4], tl_focused = PaneId 4,
     tl_history = [PaneId 3],
     tl_layout = Split Horizontal ratio_half (Pane (PaneId 3)) (Pane (PaneId 4)),
     tl_zoomed = None\<rparr>"

lemmas demo_simps = demo_split_def demo_single_def demo_with_def demo_pane_def single_terminal_def

lemmas demo_lookup = session_pane_ids_def session_panes_def workspace_panes_def tab_panes_def
  tab_terminals_def tab_count_def pane_count_def session_tabs_def find_pane_def
  terminal_layout_at_def tab_at_def set_terminals_def set_tab_def set_workspace_def

lemma demo_create: "create_workspace session_new 1 demo_root = (Some (WorkspaceId 1), demo_single, 4)"
  by (simp add: create_workspace_def session_new_def demo_simps demo_lookup snapshot_limits
      reserve_ids_def checked_add_u64_def MAX_NEXT_value workspace_name_def path_file_name_def
      path_components_def component_of_def str_lit_def)

lemma demo_split_pane:
  "split_pane demo_single 4 (PaneId 3) Horizontal ratio_half = Some (Some (PaneId 4), demo_split, 5)"
  by (simp add: split_pane_def demo_simps demo_lookup snapshot_limits reserve_ids_def
      checked_add_u64_def MAX_NEXT_value valid_split_ratio_id ratio_ok_half Let_def)

lemma demo_single_reachable: "session_reachable demo_rp (demo_single, 4)"
  using session_reachable.step [OF session_reachable.start
      session_step.create_workspace [OF demo_create]] .

lemma demo_split_reachable: "session_reachable demo_rp (demo_split, 5)"
  using session_reachable.step [OF demo_single_reachable session_step.split_pane [OF demo_split_pane]] .

lemma demo_single_inv: "session_inv demo_rp 4 demo_single"
  using session_reachable_keeps [OF demo_single_reachable relpath_ok_demo] by simp

lemma demo_split_inv: "session_inv demo_rp 5 demo_split"
  using session_reachable_keeps [OF demo_split_reachable relpath_ok_demo] by simp

section \<open>Shared facts\<close>

lemma terminals_at_set:
  assumes "i < length (workspaces s)" and "j < length (w_tabs (workspaces s ! i))"
  shows "terminal_layout_at (set_terminals i j tm s) i j = Some tm"
  using assms
  by (simp add: terminal_layout_at_def tab_at_def set_terminals_def set_tab_def set_workspace_def
      tab_terminals_def Let_def)

lemma set_terminals_twice:
  assumes "i < length (workspaces s)" and "j < length (w_tabs (workspaces s ! i))"
  shows "set_terminals i j tm' (set_terminals i j tm s) = set_terminals i j tm' s"
  using assms
  by (simp add: tab_at_def set_terminals_def set_tab_def set_workspace_def Let_def)

lemma set_terminals_same:
  assumes "i < length (workspaces s)" and "j < length (w_tabs (workspaces s ! i))"
    and "terminal_layout_at s i j = Some tm"
  shows "set_terminals i j tm s = s"
proof -
  have "(tab_at s i j)\<lparr>t_content := Terminals tm\<rparr> = tab_at s i j"
    using assms(3) by (simp add: terminal_layout_at_def tab_terminals_Some)
  then show ?thesis
    using assms(1,2)
    by (simp add: tab_at_def set_terminals_def set_tab_def set_workspace_def Let_def)
qed

lemma terminals_panes_sub:
  assumes "i < length (workspaces s)" and "j < length (w_tabs (workspaces s ! i))"
    and "terminal_layout_at s i j = Some tm"
  shows "set (pane_ids_of tm) \<subseteq> set (session_pane_ids s)"
proof -
  have "tl_panes tm = tab_panes (tab_at s i j)"
    using assms(3) by (simp add: terminal_layout_at_def tab_panes_def)
  then show ?thesis
    using assms(1,2)
    by (auto simp: session_pane_ids_concat workspace_pane_ids_def tab_pane_ids_def tab_at_def
        intro!: bexI [OF _ nth_mem])
qed

text \<open>Where a Pane is, is decided by its Tab alone: ids are not shared between Tabs.\<close>

lemma concat_map_disjoint:
  assumes "distinct (concat (map f xs))" and "a < length xs" and "b < length xs"
    and "z \<in> set (f (xs ! a))" and "z \<in> set (f (xs ! b))"
  shows "a = b"
  using assms
proof (induction xs arbitrary: a b)
  case (Cons x xs)
  have apart: False if "z \<in> set (f x)" "c < length xs" "z \<in> set (f (xs ! c))" for c
    using Cons.prems(1) that by (auto dest: nth_mem)
  from Cons show ?case
    by (cases a; cases b) (auto dest: apart)
qed simp

lemma find_pane_tab_unique:
  assumes inv: "session_inv rp nxt s" and i: "i < length (workspaces s)"
    and j: "j < length (w_tabs (workspaces s ! i))"
    and p: "p \<in> set (tab_pane_ids (tab_at s i j))"
  shows "\<exists>k. find_pane s p = Some (i, j, k)"
proof -
  note dist = session_inv_ids(3) [OF inv, unfolded session_pane_ids_concat]
  have pw: "p \<in> set (workspace_pane_ids (workspaces s ! i))"
    using p j by (auto simp: workspace_pane_ids_def tab_at_def intro!: bexI [OF _ nth_mem])
  then have "p \<in> set (session_pane_ids s)"
    using i by (auto simp: session_pane_ids_concat intro!: bexI [OF _ nth_mem])
  then obtain a b k where at: "find_pane s p = Some (a, b, k)"
    using find_pane_None [of s p] by (cases "find_pane s p") auto
  note idx = find_pane_Some [OF at]
  then have pb: "p \<in> set (tab_pane_ids (w_tabs (workspaces s ! a) ! b))"
    by (auto simp: tab_pane_ids_def tab_at_def)
  then have "p \<in> set (workspace_pane_ids (workspaces s ! a))"
    using idx(2) by (auto simp: workspace_pane_ids_def intro!: bexI [OF _ nth_mem])
  then have "a = i" by (rule concat_map_disjoint [OF dist idx(1) i _ pw])
  moreover have "distinct (workspace_pane_ids (workspaces s ! i))"
    using dist i by (simp add: distinct_concat_iff)
  then have "b = j"
    using concat_map_disjoint [of tab_pane_ids "w_tabs (workspaces s ! i)" b j p] idx(2) j pb p
      \<open>a = i\<close>
    by (simp add: workspace_pane_ids_def tab_at_def)
  ultimately show ?thesis using at by blast
qed

lemma pane_index_unique:
  assumes "live_terminals tm" and "k < length (tl_panes tm)" and "m < length (tl_panes tm)"
    and "p_id (tl_panes tm ! k) = p_id (tl_panes tm ! m)"
  shows "k = m"
proof -
  have "distinct (pane_ids_of tm)" using assms(1) by (simp add: live_terminals_def wf_terminals_def)
  then have "map p_id (tl_panes tm) ! k = map p_id (tl_panes tm) ! m \<Longrightarrow> k = m"
    using assms(2,3) by (simp add: nth_eq_iff_index_eq del: nth_map)
  with assms show ?thesis by simp
qed

section \<open>Safety\<close>



lemma pane_operations_total:
  assumes "session_inv rp nxt s"
  shows "close_pane s p \<noteq> None \<and> focus_pane s p \<noteq> None
    \<and> focus_pane_in_direction s p direction \<noteq> None \<and> split_pane s nxt p dir ratio \<noteq> None
    \<and> resize_pane s p direction amount \<noteq> None \<and> swap_pane s p direction \<noteq> None
    \<and> swap_panes s p q \<noteq> None \<and> move_pane s p q direction \<noteq> None
    \<and> set_tab_split_ratios s tid ratios \<noteq> None \<and> toggle_pane_zoom s p \<noteq> None
    \<and> set_pane_cwd s p cwd \<noteq> None \<and> set_pane_agent_resume s p resume \<noteq> None"
proof (intro conjI)
  show "close_pane s p \<noteq> None" by (rule close_pane_total [OF assms])
  show "focus_pane s p \<noteq> None" by (rule focus_pane_total)
  show "focus_pane_in_direction s p direction \<noteq> None"
    using focus_pane_total
    by (auto simp: focus_pane_in_direction_def split: option.splits elim!: find_pane_terminals)
  show "split_pane s nxt p dir ratio \<noteq> None"
    by (auto simp: split_pane_def Let_def split: option.splits prod.splits elim!: find_pane_terminals)
  show "resize_pane s p direction amount \<noteq> None"
    using resize_edit.no_panic by (auto simp: resize_pane_def)
  show "swap_pane s p direction \<noteq> None" using swap_edit.no_panic by (auto simp: swap_pane_def)
  show "swap_panes s p q \<noteq> None" using swap_with_edit.no_panic by (auto simp: swap_panes_def)
  show "move_pane s p q direction \<noteq> None" using move_edit.no_panic by (auto simp: move_pane_def)
  show "set_tab_split_ratios s tid ratios \<noteq> None" by (rule set_tab_split_ratios_total)
  show "toggle_pane_zoom s p \<noteq> None" by (rule toggle_pane_zoom_total)
  show "set_pane_cwd s p cwd \<noteq> None" using cwd_edit.no_panic by (auto simp: set_pane_cwd_def)
  show "set_pane_agent_resume s p resume \<noteq> None" by (rule set_pane_agent_resume_total)
qed

text \<open>C12: no Pane operation panics in a well-formed Session: every \<open>expect\<close> and every index of
  the source is met.\<close>

theorem session_no_panic:
  assumes "session_inv rp nxt s"
  shows "close_pane s p \<noteq> None \<and> focus_pane s p \<noteq> None
    \<and> focus_pane_in_direction s p direction \<noteq> None \<and> split_pane s nxt p dir ratio \<noteq> None
    \<and> resize_pane s p direction amount \<noteq> None \<and> swap_pane s p direction \<noteq> None
    \<and> swap_panes s p q \<noteq> None \<and> move_pane s p q direction \<noteq> None
    \<and> set_tab_split_ratios s tid ratios \<noteq> None \<and> toggle_pane_zoom s p \<noteq> None
    \<and> set_pane_cwd s p cwd \<noteq> None \<and> set_pane_agent_resume s p resume \<noteq> None"
  by (rule pane_operations_total [OF assms])

theorem session_no_panic_witness: "close_pane demo_split (PaneId 4) \<noteq> None"
  using session_no_panic [OF demo_split_inv] by blast

section \<open>Splitting and closing\<close>

lemma split_pane_detail:
  assumes inv: "session_inv rp nxt s" and step: "split_pane s nxt p d r = Some (Some q, s', nxt')"
  obtains i j tm t cwd where "i < length (workspaces s)" and "j < length (w_tabs (workspaces s ! i))"
    and "terminal_layout_at s i j = Some tm" and "live_terminals tm" and "p \<in> set (pane_ids_of tm)"
    and "q \<notin> set (session_pane_ids s)" and "q \<notin> set (pane_ids_of tm)"
    and "remove_from_layout t q = Some (tl_layout tm)"
    and "s' = set_terminals i j (tm\<lparr>tl_layout := t,
         tl_history := tl_history tm @ [tl_focused tm], tl_focused := q, tl_zoomed := None,
         tl_panes := tl_panes tm @ [\<lparr>p_id = q, p_cwd = Some cwd, p_resume = None\<rparr>]\<rparr>) s"
  using step
proof (rule split_pane_Some)
  fix i j k tm depth first_id cwd side
  assume at: "find_pane s p = Some (i, j, k)" and tm: "terminal_layout_at s i j = Some tm"
    and r: "reserve_ids 1 nxt = Some (first_id, nxt')" and new: "q = PaneId first_id"
    and s': "s' = set_terminals i j (tm\<lparr>tl_layout := snd (split_layout (tl_layout tm) p q side
           (valid_split_ratio r)),
         tl_history := filter (\<lambda>i. i \<noteq> tl_focused tm) (tl_history tm) @ [tl_focused tm],
         tl_focused := q, tl_zoomed := None,
         tl_panes := tl_panes tm @ [\<lparr>p_id = q, p_cwd = Some cwd, p_resume = None\<rparr>]\<rparr>) s"
  note idx = find_pane_Some [OF at]
  note live = session_inv_live_terminals [OF inv at tm]
  have p: "p \<in> set (pane_ids_of tm)"
    using at by (rule find_pane_terminals) (use tm in auto)
  have "0 < unat nxt" using inv by (simp add: session_inv_def)
  from reserved_first(2) [OF r this] have "unat nxt \<le> unat (pane_u64 q)" by (simp add: new)
  then have fresh: "q \<notin> set (session_pane_ids s)" using session_inv_ids(6) [OF inv] by fastforce
  then have q: "q \<notin> set (pane_ids_of tm)" using terminals_panes_sub [OF idx(1,2) tm] by blast
  have history: "filter (\<lambda>i. i \<noteq> tl_focused tm) (tl_history tm) = tl_history tm"
    using live by (intro filter_True) (auto simp: live_terminals_def wf_terminals_def)
  have "remove_from_layout (snd (split_layout (tl_layout tm) p q side (valid_split_ratio r))) q
      = Some (tl_layout tm)"
    using p q by (intro split_then_remove) (simp_all add: live_layout(2) [OF live])
  from that [OF idx(1,2) tm live p fresh q this s' [unfolded history]] show thesis .
qed

lemma mset_concat_map_remove:
  "i < length xs \<Longrightarrow>
     mset (concat (map f xs)) = mset (concat (map f (remove_at i xs))) + mset (f (xs ! i))"
  using mset_concat_map_cong [of "xs ! i # remove_at i xs" xs f] mset_remove_at [of i xs]
  by (simp add: add.commute)

lemma mset_session_panes_set_tab:
  assumes "i < length (workspaces s)" and "j < length (w_tabs (workspaces s ! i))"
  shows "mset (session_pane_ids (set_tab i j t s)) + mset (tab_pane_ids (tab_at s i j))
       = mset (session_pane_ids s) + mset (tab_pane_ids t)"
proof -
  let ?w = "workspaces s ! i"
  let ?w' = "?w\<lparr>w_tabs := (w_tabs ?w)[j := t]\<rparr>"
  have a: "mset (session_pane_ids (set_tab i j t s)) + mset (workspace_pane_ids ?w)
      = mset (session_pane_ids s) + mset (workspace_pane_ids ?w')"
    using mset_concat_map_update [OF assms(1), of workspace_pane_ids ?w']
    by (simp add: session_pane_ids_concat set_tab_def set_workspace_def Let_def del: mset_concat)
  have b: "mset (workspace_pane_ids ?w') + mset (tab_pane_ids (tab_at s i j))
      = mset (workspace_pane_ids ?w) + mset (tab_pane_ids t)"
    using mset_concat_map_update [OF assms(2), of tab_pane_ids t]
    by (simp add: workspace_pane_ids_def tab_at_def del: mset_concat)
  show ?thesis
  proof (rule multiset_eqI)
    fix z
    show "count (mset (session_pane_ids (set_tab i j t s)) + mset (tab_pane_ids (tab_at s i j))) z
        = count (mset (session_pane_ids s) + mset (tab_pane_ids t)) z"
      using arg_cong [OF a, of "\<lambda>M. count M z"] arg_cong [OF b, of "\<lambda>M. count M z"]
      by (simp only: count_union)
  qed
qed

lemma mset_session_panes_set_terminals:
  assumes "i < length (workspaces s)" and "j < length (w_tabs (workspaces s ! i))"
    and "terminal_layout_at s i j = Some tm"
  shows "mset (session_pane_ids (set_terminals i j tm' s)) + mset (pane_ids_of tm)
       = mset (session_pane_ids s) + mset (pane_ids_of tm')"
proof -
  have "tab_pane_ids (tab_at s i j) = pane_ids_of tm"
    using assms(3) by (simp add: terminal_layout_at_def tab_pane_ids_terminals)
  moreover have "tab_pane_ids ((tab_at s i j)\<lparr>t_content := Terminals tm'\<rparr>) = pane_ids_of tm'"
    by (simp add: tab_pane_ids_def tab_panes_def tab_terminals_def)
  ultimately show ?thesis
    using mset_session_panes_set_tab [OF assms(1,2), of "(tab_at s i j)\<lparr>t_content := Terminals tm'\<rparr>"]
    by (simp only: set_terminals_def)
qed



text \<open>C14: closing the Pane a split made undoes the split: the Tab has its Panes, split tree,
  focus and focus history back, and only a zoom it had before stays gone.\<close>

theorem split_then_close:
  assumes "session_inv rp nxt s" and "split_pane s nxt p d r = Some (Some q, s', nxt')"
  shows "\<exists>i j tm. terminal_layout_at s i j = Some tm \<and> p \<in> set (pane_ids_of tm)
    \<and> close_pane s' q = Some (Some \<lparr>co_panes = [q], co_tabs = [], co_workspaces = []\<rparr>,
                              set_terminals i j (tm\<lparr>tl_zoomed := None\<rparr>) s)"
  using assms
proof (rule split_pane_detail)
  fix i j t cwd and tm :: terminal_layout
  let ?x = "\<lparr>p_id = q, p_cwd = Some cwd, p_resume = None\<rparr>"
  let ?tm' = "tm\<lparr>tl_layout := t, tl_history := tl_history tm @ [tl_focused tm], tl_focused := q,
      tl_zoomed := None, tl_panes := tl_panes tm @ [?x]\<rparr>"
  assume ij: "i < length (workspaces s)" "j < length (w_tabs (workspaces s ! i))"
    and tm: "terminal_layout_at s i j = Some tm" and live: "live_terminals tm"
    and p: "p \<in> set (pane_ids_of tm)" and q: "q \<notin> set (pane_ids_of tm)"
    and t: "remove_from_layout t q = Some (tl_layout tm)" and s': "s' = set_terminals i j ?tm' s"
  have inv': "session_inv rp nxt' s'" by (rule split_pane_inv [OF assms])
  have ij': "i < length (workspaces s')" "j < length (w_tabs (workspaces s' ! i))"
    using ij by (simp_all add: s' set_terminals_def set_tab_def set_workspace_def Let_def)
  have tm': "terminal_layout_at s' i j = Some ?tm'" by (simp only: s' terminals_at_set [OF ij])
  then have panes: "tab_panes (tab_at s' i j) = tl_panes tm @ [?x]"
    by (simp add: terminal_layout_at_def tab_panes_def)
  then have "q \<in> set (tab_pane_ids (tab_at s' i j))" by (simp add: tab_pane_ids_def)
  from find_pane_tab_unique [OF inv' ij' this] obtain k where at: "find_pane s' q = Some (i, j, k)"
    by blast
  note idx = find_pane_Some [OF at, unfolded panes]
  have live': "live_terminals ?tm'" by (rule session_inv_live_terminals [OF inv' at tm'])
  have k: "k = length (tl_panes tm)"
    using pane_index_unique [OF live', of k "length (tl_panes tm)"] idx(3,4) by simp
  have focused: "tl_focused tm \<in> set (pane_ids_of tm)"
    and hist: "filter (\<lambda>i. i \<noteq> q) (tl_history tm) = tl_history tm"
    using live q by (auto simp: live_terminals_def wf_terminals_def intro!: filter_True)
  with q have "tl_focused tm \<noteq> q" by blast
  moreover have "list_ex (\<lambda>x. p_id x = tl_focused tm) (tl_panes tm)"
    using focused by (auto simp: list_ex_iff)
  ultimately have closed: "close_in_tab q k ?tm' = Some (tm\<lparr>tl_zoomed := None\<rparr>)"
    using t hist by (simp add: close_in_tab_def remove_at_def k)
  have "tl_panes tm \<noteq> []" using p by auto
  then have "1 < length (tab_panes (w_tabs (workspaces s' ! i) ! j))"
    using panes by (simp add: tab_at_def)
  then have "close_pane s' q = Some (Some \<lparr>co_panes = [q], co_tabs = [], co_workspaces = []\<rparr>,
      set_terminals i j (tm\<lparr>tl_zoomed := None\<rparr>) s')"
    using at tm' closed by (simp add: close_pane_def Let_def)
  then show ?thesis
    using tm p by (intro exI [of _ i] exI [of _ j] exI [of _ tm]) (simp add: s' set_terminals_twice [OF ij])
qed

theorem split_then_close_witness:
  "\<exists>i j tm. terminal_layout_at demo_single i j = Some tm \<and> PaneId 3 \<in> set (pane_ids_of tm)
    \<and> close_pane demo_split (PaneId 4) = Some (Some \<lparr>co_panes = [PaneId 4], co_tabs = [],
        co_workspaces = []\<rparr>, set_terminals i j (tm\<lparr>tl_zoomed := None\<rparr>) demo_single)"
  by (rule split_then_close [OF demo_single_inv demo_split_pane])

text \<open>What a close reports: the ids it lists are exactly those the Session lost.\<close>

definition closes_exactly :: "session \<Rightarrow> close_outcome \<Rightarrow> session \<Rightarrow> bool" where
  "closes_exactly s c s' \<longleftrightarrow>
     mset (session_pane_ids s) = mset (session_pane_ids s') + mset (co_panes c)
     \<and> mset (session_tab_ids s) = mset (session_tab_ids s') + mset (co_tabs c)
     \<and> mset (session_workspace_ids s) = mset (session_workspace_ids s') + mset (co_workspaces c)"

lemma remove_workspace_exactly:
  assumes "i < length (workspaces s)"
  shows "closes_exactly s \<lparr>co_panes = workspace_pane_ids (workspaces s ! i),
      co_tabs = workspace_tab_ids (workspaces s ! i), co_workspaces = [w_id (workspaces s ! i)]\<rparr>
      (s\<lparr>workspaces := remove_at i (workspaces s)\<rparr>)"
  using mset_concat_map_remove [OF assms, of workspace_pane_ids]
    mset_concat_map_remove [OF assms, of workspace_tab_ids]
    mset_concat_map_remove [OF assms, of "\<lambda>w. [w_id w]"]
  by (simp add: closes_exactly_def session_pane_ids_concat session_tab_ids_concat
      session_workspace_ids_def concat_map_singleton del: mset_concat mset_map)

lemma remove_tab_exactly:
  assumes i: "i < length (workspaces s)" and j: "j < length (w_tabs (workspaces s ! i))"
  shows "closes_exactly s \<lparr>co_panes = tab_pane_ids (tab_at s i j), co_tabs = [t_id (tab_at s i j)],
      co_workspaces = []\<rparr>
      (set_workspace i ((workspaces s ! i)\<lparr>w_tabs := remove_at j (w_tabs (workspaces s ! i))\<rparr>) s)"
proof -
  let ?w = "workspaces s ! i"
  let ?w' = "?w\<lparr>w_tabs := remove_at j (w_tabs ?w)\<rparr>"
  have "mset (workspace_pane_ids ?w) = mset (workspace_pane_ids ?w') + mset (tab_pane_ids (tab_at s i j))"
    using mset_concat_map_remove [OF j, of tab_pane_ids]
    by (simp add: workspace_pane_ids_def tab_at_def del: mset_concat)
  moreover have "mset (workspace_tab_ids ?w) = mset (workspace_tab_ids ?w') + mset [t_id (tab_at s i j)]"
    using mset_concat_map_remove [OF j, of "\<lambda>t. [t_id t]"]
    by (simp add: workspace_tab_ids_def tab_at_def concat_map_singleton del: mset_concat mset_map)
  moreover have "session_workspace_ids (set_workspace i ?w' s) = session_workspace_ids s"
    using i by (simp add: session_workspace_ids_def set_workspace_def map_update_same)
  ultimately show ?thesis
    using mset_concat_map_update [OF i, of workspace_pane_ids ?w']
      mset_concat_map_update [OF i, of workspace_tab_ids ?w']
    by (simp add: closes_exactly_def session_pane_ids_concat session_tab_ids_concat
        set_workspace_def del: mset_concat)
qed

lemma close_workspace_exactly:
  assumes "close_workspace s wid = (Some c, s')"
  shows "closes_exactly s c s'"
proof -
  from assms obtain i where i: "position (\<lambda>w. w_id w = wid) (workspaces s) = Some i"
    and "c = \<lparr>co_panes = workspace_pane_ids (workspaces s ! i),
      co_tabs = workspace_tab_ids (workspaces s ! i), co_workspaces = [w_id (workspaces s ! i)]\<rparr>"
    and "s' = s\<lparr>workspaces := remove_at i (workspaces s)\<rparr>"
    using position_satD
    by (fastforce simp: close_workspace_def Let_def workspace_pane_ids_def workspace_tab_ids_def
        tab_pane_ids_def [abs_def] split: option.splits)
  with remove_workspace_exactly [OF position_lessD [OF i]] show ?thesis by simp
qed

lemma close_tab_exactly:
  assumes "close_tab s tid = (Some c, s')"
  shows "closes_exactly s c s'"
proof -
  from assms obtain i j where loc: "tab_location s tid = Some (i, j)"
    by (auto simp: close_tab_def split: option.splits)
  note at = tab_location_Some [OF loc]
  show ?thesis
  proof (cases "length (w_tabs (workspaces s ! i)) = 1")
    case True
    with assms loc show ?thesis by (auto simp: close_tab_def intro: close_workspace_exactly)
  next
    case False
    with assms loc remove_tab_exactly [OF at(1,2)] at(3) show ?thesis
      by (auto simp: close_tab_def Let_def tab_pane_ids_def tab_at_def)
  qed
qed

lemma close_pane_exactly:
  assumes inv: "session_inv rp nxt s" and step: "close_pane s p = Some (Some c, s')"
  shows "closes_exactly s c s'"
proof -
  from step obtain i j k where at: "find_pane s p = Some (i, j, k)"
    by (auto simp: close_pane_def split: option.splits)
  note idx = find_pane_Some [OF at]
  from at obtain tm where tm: "terminal_layout_at s i j = Some tm" "k < length (tl_panes tm)"
    "p_id (tl_panes tm ! k) = p" by (rule find_pane_terminals)
  let ?w = "workspaces s ! i"
  have tab: "w_tabs ?w ! j = tab_at s i j" by (simp add: tab_at_def)
  have panes: "tab_panes (tab_at s i j) = tl_panes tm"
    using tm(1) by (simp add: terminal_layout_at_def tab_panes_def)
  show ?thesis
  proof (cases "1 < length (tab_panes (tab_at s i j))")
    case True
    with step at tm obtain tm' where closed: "close_in_tab p k tm = Some tm'"
      and s': "s' = set_terminals i j tm' s" and c: "c = \<lparr>co_panes = [p], co_tabs = [], co_workspaces = []\<rparr>"
      by (auto simp: close_pane_def Let_def tab)
    from closed have "tl_panes tm' = remove_at k (tl_panes tm)"
      by (auto simp: close_in_tab_def Let_def split: option.splits prod.splits)
    then have "mset (pane_ids_of tm) = mset (pane_ids_of tm') + mset [p]"
      using mset_remove_at [of k "pane_ids_of tm"] tm(2,3)
      by (simp add: map_remove_at [symmetric])
    moreover have "session_tab_ids s' = session_tab_ids s" "session_workspace_ids s' = session_workspace_ids s"
      using idx(1,2)
      by (simp_all add: s' session_tab_ids_concat session_workspace_ids_def set_terminals_def
          set_tab_def set_workspace_def Let_def map_update_same workspace_tab_ids_def tab_at_def)
    ultimately show ?thesis
      using mset_session_panes_set_terminals [OF idx(1,2) tm(1), of tm']
      by (simp add: closes_exactly_def c s')
  next
    case False
    have "tl_panes tm = [tl_panes tm ! k]"
      using False tm(2) panes by (cases "tl_panes tm") auto
    then have one: "tab_pane_ids (tab_at s i j) = [p]"
      by (metis list.simps(8,9) panes tab_pane_ids_def tm(3))
    show ?thesis
    proof (cases "remove_at j (w_tabs ?w) = []")
      case True
      then have "w_tabs ?w = [tab_at s i j]"
        using idx(2) by (cases "w_tabs ?w") (auto simp: remove_at_def tab_at_def)
      then have "workspace_pane_ids ?w = [p]" "workspace_tab_ids ?w = [t_id (tab_at s i j)]"
        using one by (simp_all add: workspace_pane_ids_def workspace_tab_ids_def)
      with False True step at remove_workspace_exactly [OF idx(1)] show ?thesis
        by (auto simp: close_pane_def Let_def tab)
    next
      case nonempty: False
      with False step at remove_tab_exactly [OF idx(1,2)] one show ?thesis
        by (auto simp: close_pane_def Let_def tab)
    qed
  qed
qed

text \<open>C13: a close reports exactly what it removed, whether it closed a Pane, a Tab or a
  Workspace, and however far it cascaded: an emptied Tab goes, and an emptied Workspace.\<close>

theorem close_outcome_exact:
  assumes "session_inv rp nxt s"
    and "close_pane s p = Some (Some c, s') \<or> close_tab s tid = (Some c, s')
       \<or> close_workspace s wid = (Some c, s')"
  shows "closes_exactly s c s'"
  using assms close_pane_exactly close_tab_exactly close_workspace_exactly by blast

lemma demo_close_last:
  "close_pane demo_single (PaneId 3) = Some (Some \<lparr>co_panes = [PaneId 3], co_tabs = [TabId 2],
     co_workspaces = [WorkspaceId 1]\<rparr>, session_new)"
  by (simp add: close_pane_def demo_simps demo_lookup remove_at_def session_new_def Let_def)

theorem close_outcome_exact_witness:
  "closes_exactly demo_single \<lparr>co_panes = [PaneId 3], co_tabs = [TabId 2],
     co_workspaces = [WorkspaceId 1]\<rparr> session_new"
  by (rule close_outcome_exact [OF demo_single_inv disjI1 [OF demo_close_last]])

end
