(* ===== verification/Session_Behaviour.thy ===== *)
theory Session_Behaviour
  imports Session_Properties
begin

text \<open>
  More of what single operations do: focus, swapping, moving, ratios, viewers and the split that
  keeps the focus.
\<close>

lemma on_pane_tab_at:
  assumes "find_pane s p = Some (i, j, k)" and "terminal_layout_at s i j = Some tm"
  shows "on_pane_tab s p edit = Some (fst (edit k tm), set_terminals i j (snd (edit k tm)) s)"
  using assms by (simp add: on_pane_tab_def split: prod.splits)

text \<open>The same Pane is found at the same place after an edit that keeps the Panes.\<close>

lemma find_pane_after:
  assumes inv: "session_inv rp nxt s" and at: "find_pane s p = Some (i, j, k)"
    and tm: "terminal_layout_at s i j = Some tm" and live: "live_terminals tm'"
    and ids: "pane_ids_of tm' = pane_ids_of tm"
  shows "find_pane (set_terminals i j tm' s) p = Some (i, j, k)"
proof -
  note idx = find_pane_Some [OF at]
  let ?s = "set_terminals i j tm' s"
  have inv': "session_inv rp nxt ?s"
    by (intro session_inv_edit_terminals [OF inv at tm live]) (simp add: ids flip: mset_map)
  have ij: "i < length (workspaces ?s)" "j < length (w_tabs (workspaces ?s ! i))"
    using idx(1,2) by (simp_all add: set_terminals_def set_tab_def set_workspace_def Let_def)
  have panes: "tab_panes (tab_at s i j) = tl_panes tm"
    using tm by (simp add: terminal_layout_at_def tab_panes_def)
  have panes': "tab_panes (tab_at ?s i j) = tl_panes tm'"
    using terminals_at_set [OF idx(1,2)] by (simp add: terminal_layout_at_def tab_panes_def)
  have len: "length (tl_panes tm') = length (tl_panes tm)" using ids by (metis length_map)
  have k: "k < length (tl_panes tm')" "p_id (tl_panes tm' ! k) = p"
    using idx(3,4) ids len by (simp_all add: panes) (metis nth_map)
  then have "p \<in> set (tab_pane_ids (tab_at ?s i j))"
    by (auto simp: tab_pane_ids_def panes')
  from find_pane_tab_unique [OF inv' ij this] obtain m where m: "find_pane ?s p = Some (i, j, m)" by blast
  with find_pane_Some [OF m] k pane_index_unique [OF live, of m k] show ?thesis
    by (simp add: panes')
qed

text \<open>exchanging two Panes is its own inverse: doing it twice restores the Session.\<close>

theorem swap_panes_involution:
  assumes inv: "session_inv rp nxt s" and step: "swap_panes s p q = Some (True, s')"
  shows "swap_panes s' p q = Some (True, s)"
proof -
  from step have "p \<noteq> q" and on: "on_pane_tab s p (swap_with p q) = Some (True, s')"
    by (auto simp: swap_panes_def split: if_splits)
  from on show ?thesis
  proof (cases rule: swap_with_edit.on_pane_tab_cases)
    case (edited i j k tm tm')
    note idx = find_pane_Some [OF edited(1)]
    note live = session_inv_live_terminals [OF inv edited(1,2)]
    have ids: "pane_ids_of tm' = pane_ids_of tm"
      by (rule swap_with_edit.edit_panes [OF live edited(3,4,5)])
    have live': "live_terminals tm'" by (rule swap_with_edit.edit_live [OF live edited(3,4,5)])
    from edited(5) have member: "list_ex (\<lambda>x. p_id x = q) (tl_panes tm)"
      and tm': "tm' = tm\<lparr>tl_layout := swap_layout_panes (tl_layout tm) p q\<rparr>"
      by (auto simp: swap_with_def split: if_splits)
    have at: "find_pane s' p = Some (i, j, k)"
      unfolding edited(6) by (rule find_pane_after [OF inv edited(1,2) live' ids])
    have "terminal_layout_at s' i j = Some tm'"
      unfolding edited(6) by (rule terminals_at_set [OF idx(1,2)])
    from on_pane_tab_at [OF at this, of "swap_with p q"] member
    have "on_pane_tab s' p (swap_with p q) = Some (True, set_terminals i j tm s')"
      by (simp add: swap_with_def tm' swap_layout_involution)
    moreover have "set_terminals i j tm s' = s"
      by (simp add: edited(6) set_terminals_twice [OF idx(1,2)] set_terminals_same [OF idx(1,2) edited(2)])
    ultimately show ?thesis using \<open>p \<noteq> q\<close> by (simp add: swap_panes_def)
  qed simp
qed

lemma demo_swap:
  "swap_panes demo_split (PaneId 3) (PaneId 4) = Some (True, demo_with \<lparr>tl_panes = [demo_pane 3, demo_pane 4],
     tl_focused = PaneId 4, tl_history = [PaneId 3],
     tl_layout = Split Horizontal ratio_half (Pane (PaneId 4)) (Pane (PaneId 3)), tl_zoomed = None\<rparr>)"
  by (simp add: swap_panes_def on_pane_tab_def swap_with_def demo_simps demo_lookup Let_def)

theorem swap_panes_involution_witness:
  "swap_panes (demo_with \<lparr>tl_panes = [demo_pane 3, demo_pane 4],
     tl_focused = PaneId 4, tl_history = [PaneId 3],
     tl_layout = Split Horizontal ratio_half (Pane (PaneId 4)) (Pane (PaneId 3)), tl_zoomed = None\<rparr>)
     (PaneId 3) (PaneId 4) = Some (True, demo_split)"
  by (rule swap_panes_involution [OF demo_split_inv demo_swap])


lemma demo_move:
  "move_pane demo_split (PaneId 3) (PaneId 4) Down = Some (True, demo_with \<lparr>tl_panes = [demo_pane 3, demo_pane 4],
     tl_focused = PaneId 4, tl_history = [PaneId 3],
     tl_layout = Split Vertical ratio_half (Pane (PaneId 4)) (Pane (PaneId 3)), tl_zoomed = None\<rparr>)"
  by (simp add: move_pane_def on_pane_tab_def move_beside_def demo_simps demo_lookup Let_def snapshot_limits)


section \<open>Focus\<close>

text \<open>Where the focus goes when a Pane of a Tab closes: back through the history if it was
  focused, nowhere otherwise.\<close>

definition focus_after_close :: "pane_id \<Rightarrow> terminal_layout \<Rightarrow> terminal_layout \<Rightarrow> pane_id" where
  "focus_after_close p tm tm' =
     (if tl_focused tm \<noteq> p then tl_focused tm
      else if tl_history tm = [] then first_pane_id (tl_layout tm')
      else last (tl_history tm))"

lemma close_in_tab_focus:
  assumes live: "live_terminals tm" and closed: "close_in_tab p k tm = Some tm'"
    and k: "k < length (tl_panes tm)" "p_id (tl_panes tm ! k) = p"
  shows "tl_focused tm' = focus_after_close p tm tm'"
proof (cases "tl_focused tm = p")
  case True
  then have hist: "filter (\<lambda>i. i \<noteq> p) (tl_history tm) = tl_history tm"
    using live by (intro filter_True) (auto simp: live_terminals_def wf_terminals_def)
  show ?thesis
  proof (cases "rev (tl_history tm)")
    case Nil
    with True closed show ?thesis
      by (auto simp: close_in_tab_def Let_def focus_after_close_def hist split: option.splits)
  next
    case (Cons latest older)
    then have last: "tl_history tm = rev older @ [latest]" by (metis rev.simps(2) rev_rev_ident)
    then have "latest \<in> set (pane_ids_of tm) - {p}"
      using live True by (auto simp: live_terminals_def wf_terminals_def)
    moreover have "set (pane_ids_of tm') = set (pane_ids_of tm) - {p}"
      and "tl_panes tm' = remove_at k (tl_panes tm)"
      using live_close(3) [OF live k closed] closed
      by (auto simp: close_in_tab_def Let_def split: option.splits prod.splits)
    ultimately have "latest \<in> p_id ` set (remove_at k (tl_panes tm))" by simp
    then have "list_ex (\<lambda>x. p_id x = latest) (remove_at k (tl_panes tm))"
      by (auto simp: list_ex_iff)
    moreover have "latest \<noteq> p" "filter (\<lambda>i. i \<noteq> p) (rev older) = rev older"
      using True live unfolding live_terminals_def wf_terminals_def last by (auto intro!: filter_True)
    ultimately show ?thesis using True closed last
      by (auto simp: close_in_tab_def Let_def focus_after_close_def hist split: option.splits)
  qed
next
  case False
  with closed show ?thesis
    by (auto simp: close_in_tab_def Let_def focus_after_close_def split: option.splits)
qed

text \<open>C16: closing one of several Panes keeps the Tab, loses exactly that Pane from its list and
  its split tree, and moves the focus to the most recently focused Pane still there, to the first
  one of the layout if there is no history, and nowhere if the closed Pane was not focused.\<close>

theorem close_pane_focus:
  assumes inv: "session_inv rp nxt s" and at: "find_pane s p = Some (i, j, k)"
    and tm: "terminal_layout_at s i j = Some tm" and several: "1 < length (tl_panes tm)"
  shows "\<exists>tm'. close_pane s p = Some (Some \<lparr>co_panes = [p], co_tabs = [], co_workspaces = []\<rparr>,
                                    set_terminals i j tm' s)
    \<and> tl_focused tm' = focus_after_close p tm tm'
    \<and> tl_panes tm' = remove_at k (tl_panes tm)
    \<and> leaves (tl_layout tm') = filter (\<lambda>q. q \<noteq> p) (leaves (tl_layout tm))"
proof -
  from at have k: "k < length (tl_panes tm)" "p_id (tl_panes tm ! k) = p"
    using tm by (auto elim: find_pane_terminals)
  note live = session_inv_live_terminals [OF inv at tm]
  obtain tm' where closed: "close_in_tab p k tm = Some tm'"
    using close_in_tab_Some [OF live k several] by blast
  have "tab_panes (w_tabs (workspaces s ! i) ! j) = tl_panes tm"
    using tm by (simp add: terminal_layout_at_def tab_panes_def tab_at_def)
  then have "close_pane s p = Some (Some \<lparr>co_panes = [p], co_tabs = [], co_workspaces = []\<rparr>,
      set_terminals i j tm' s)"
    using at tm closed several by (simp add: close_pane_def Let_def)
  moreover have "tl_panes tm' = remove_at k (tl_panes tm)"
    "leaves (tl_layout tm') = filter (\<lambda>q. q \<noteq> p) (leaves (tl_layout tm))"
    using closed remove_from_layout_leaves
    by (auto simp: close_in_tab_def Let_def split: option.splits prod.splits)
  ultimately show ?thesis using close_in_tab_focus [OF live closed k] by blast
qed

theorem close_pane_focus_witness:
  "\<exists>tm'. close_pane demo_split (PaneId 4) = Some (Some \<lparr>co_panes = [PaneId 4], co_tabs = [],
       co_workspaces = []\<rparr>, set_terminals 0 0 tm' demo_split) \<and> tl_focused tm' = PaneId 3"
proof -
  obtain tm where tm: "terminal_layout_at demo_split 0 0 = Some tm" "1 < length (tl_panes tm)"
    "tl_focused tm = PaneId 4" "tl_history tm = [PaneId 3]"
    by (simp add: demo_simps demo_lookup)
  have "find_pane demo_split (PaneId 4) = Some (0, 0, 1)"
    by (simp add: demo_simps demo_lookup)
  from close_pane_focus [OF demo_split_inv this tm(1,2)] tm(3,4) show ?thesis
    by (auto simp: focus_after_close_def)
qed

text \<open>focusing a Pane moves the focus there, puts the Pane that had it at the end of the
  history exactly once, drops the focused Pane from the history, and changes nothing else; on a
  Pane that has the focus it changes nothing at all.\<close>

theorem focus_pane_effect:
  assumes inv: "session_inv rp nxt s" and at: "find_pane s p = Some (i, j, k)"
    and tm: "terminal_layout_at s i j = Some tm"
  shows "focus_pane s p = Some (True,
    if tl_focused tm = p then s
    else set_terminals i j (tm\<lparr>tl_history := filter (\<lambda>q. q \<noteq> p) (tl_history tm) @ [tl_focused tm],
           tl_focused := p\<rparr>) s)"
proof -
  note idx = find_pane_Some [OF at]
  have "filter (\<lambda>q. q \<noteq> p \<and> q \<noteq> tl_focused tm) (tl_history tm) = filter (\<lambda>q. q \<noteq> p) (tl_history tm)"
    using session_inv_live_terminals [OF inv at tm]
    by (intro filter_cong) (auto simp: live_terminals_def wf_terminals_def)
  then show ?thesis
    using set_terminals_same [OF idx(1,2) tm]
    by (simp add: focus_pane_def on_pane_tab_at [OF at tm] focus_terminals_def Let_def)
qed

theorem focus_pane_effect_witness:
  "focus_pane demo_split (PaneId 4) = Some (True, demo_split)"
  using focus_pane_effect [OF demo_split_inv, of "PaneId 4" 0 0 1]
  by (simp add: demo_simps demo_lookup)

section \<open>Ratios\<close>

text \<open>setting a Tab's split ratios, when their number fits, gives every split of the tree, in
  pre-order, its ratio clamped into range, and keeps the Panes and everything else of the Tab.\<close>

theorem set_tab_split_ratios_effect:
  assumes "set_tab_split_ratios s tid ratios = Some (True, s')"
  shows "\<exists>i j tm t. tab_location s tid = Some (i, j) \<and> tab_terminals (tab_at s i j) = Some tm
    \<and> s' = set_terminals i j (tm\<lparr>tl_layout := t\<rparr>) s
    \<and> split_ratios t = map valid_split_ratio ratios \<and> leaves t = leaves (tl_layout tm)"
proof -
  from assms obtain i j tm t rest where loc: "tab_location s tid = Some (i, j)"
    and tm: "tab_terminals (tab_at s i j) = Some tm" and n: "split_count (tl_layout tm) = length ratios"
    and t: "apply_split_ratios (tl_layout tm) ratios = Some (t, rest)"
    and s': "s' = set_terminals i j (tm\<lparr>tl_layout := t\<rparr>) s"
    by (auto simp: set_tab_split_ratios_def split: if_splits option.splits prod.splits)
  from apply_split_ratios_Some [of "tl_layout tm" ratios] n t
  have "split_ratios t = map valid_split_ratio ratios" "leaves t = leaves (tl_layout tm)" by auto
  with loc tm s' show ?thesis by blast
qed

lemma ratio_ok_max: "ratio_ok ratio_max" "\<not> f32_eq ratio_max ratio_half"
  by (simp_all add: ratio_ok_def f32_le_def f32_literals)

lemma demo_ratios:
  "set_tab_split_ratios demo_split (TabId 2) [ratio_max] = Some (True, demo_with \<lparr>tl_panes =
     [demo_pane 3, demo_pane 4], tl_focused = PaneId 4, tl_history = [PaneId 3],
     tl_layout = Split Horizontal ratio_max (Pane (PaneId 3)) (Pane (PaneId 4)), tl_zoomed = None\<rparr>)"
  by (simp add: set_tab_split_ratios_def tab_location_def demo_simps demo_lookup Let_def
      valid_split_ratio_id ratio_ok_max)

theorem set_tab_split_ratios_effect_witness:
  "\<exists>i j tm t. tab_location demo_split (TabId 2) = Some (i, j)
    \<and> tab_terminals (tab_at demo_split i j) = Some tm \<and> split_ratios t = map valid_split_ratio [ratio_max]"
  using set_tab_split_ratios_effect [OF demo_ratios] by blast

section \<open>Viewers\<close>

lemma find_tabs_append:
  "\<forall>t \<in> set ts. \<not> P t \<Longrightarrow> P u \<Longrightarrow> find P (ts @ [u]) = Some u"
  by (induction ts) auto

lemma position_find: "position P xs = Some i \<Longrightarrow> find P xs = Some (xs ! i)"
  by (simp add: find_position)

lemma position_update:
  "position P xs = Some i \<Longrightarrow> P y \<Longrightarrow> position P (xs[i := y]) = Some i"
  by (induction xs arbitrary: i) (auto split: if_splits nat.splits)

lemma position_same_key:
  "f y = f (xs ! i) \<Longrightarrow> i < length xs \<Longrightarrow>
     position (\<lambda>x. f x = v) (xs[i := y]) = position (\<lambda>x. f x = v) xs"
proof (induction xs arbitrary: i)
  case (Cons x xs)
  then show ?case by (cases i) auto
qed simp

text \<open>A Workspace replaced by one with the same id is still the one found by that id.\<close>

lemma find_workspace_set:
  assumes "position (\<lambda>w. w_id w = wid) (workspaces s) = Some i" and "w_id w' = w_id (workspaces s ! i)"
  shows "find_workspace (set_workspace i w' s) wid = Some w'"
    and "position (\<lambda>w. w_id w = wid) (workspaces (set_workspace i w' s)) = Some i"
proof -
  have "position (\<lambda>w. w_id w = wid) ((workspaces s)[i := w']) = Some i"
    using position_same_key [of w_id w' "workspaces s" i wid] assms position_lessD [OF assms(1)] by simp
  then show "find_workspace (set_workspace i w' s) wid = Some w'"
    and "position (\<lambda>w. w_id w = wid) (workspaces (set_workspace i w' s)) = Some i"
    using position_lessD [OF assms(1)]
    by (simp_all add: find_workspace_def set_workspace_def find_position)
qed

lemma show_diff_cases:
  assumes "show_diff rp s nxt wid p = (Some tid, s', nxt')"
  obtains (retargeted) i j where "valid_diff_path rp p"
      and "position (\<lambda>w. w_id w = wid) (workspaces s) = Some i"
      and "position (\<lambda>t. tab_diff t \<noteq> None) (w_tabs (workspaces s ! i)) = Some j"
      and "tid = t_id (w_tabs (workspaces s ! i) ! j)" and "nxt' = nxt"
      and "s' = set_workspace i ((workspaces s ! i)\<lparr>w_tabs := (w_tabs (workspaces s ! i))
             [j := (w_tabs (workspaces s ! i) ! j)\<lparr>t_content := Diff p\<rparr>]\<rparr>) s"
    | (created) i where "valid_diff_path rp p"
      and "position (\<lambda>w. w_id w = wid) (workspaces s) = Some i"
      and "\<forall>t \<in> set (w_tabs (workspaces s ! i)). tab_diff t = None"
      and "s' = set_workspace i ((workspaces s ! i)\<lparr>w_tabs := w_tabs (workspaces s ! i)
             @ [\<lparr>t_id = tid, t_name = DIFF_TAB_NAME, t_content = Diff p\<rparr>]\<rparr>) s"
proof -
  have kind: "(\<lambda>t. same_viewer_kind (t_content t) (Diff p)) = (\<lambda>t. tab_diff t \<noteq> None)"
    by (rule ext) (use same_viewer_kind_iff [of "Diff p" p] in simp)
  from assms show thesis
    by (auto simp: show_diff_def show_viewer_def kind position_None set_tab_def Let_def
        split: if_splits option.splits prod.splits intro: retargeted created)
qed

text \<open>after a diff was shown the Workspace's Diff Tab, the one the answer names, shows that
  path, and showing another path answers the same Tab, retargeted, without taking a new id.\<close>

theorem show_diff_effect:
  assumes "show_diff rp s nxt wid p = (Some tid, s', nxt')"
  shows "(\<exists>t. session_diff_tab s' wid = Some t \<and> t_id t = tid \<and> tab_diff t = Some p)
    \<and> (valid_diff_path rp q \<longrightarrow>
         (\<exists>s''. show_diff rp s' nxt' wid q = (Some tid, s'', nxt')
            \<and> (\<exists>t. session_diff_tab s'' wid = Some t \<and> t_id t = tid \<and> tab_diff t = Some q)))"
proof -
  have kind: "(\<lambda>t. same_viewer_kind (t_content t) (Diff q)) = (\<lambda>t. tab_diff t \<noteq> None)" for q
    by (rule ext) (use same_viewer_kind_iff [of "Diff q" q] in simp)
  \<comment> \<open>Either way the Diff Tab is at some index of the Workspace found, with this id and path.\<close>
  have "\<exists>i j w. position (\<lambda>w. w_id w = wid) (workspaces s') = Some i \<and> workspaces s' ! i = w
      \<and> position (\<lambda>t. tab_diff t \<noteq> None) (w_tabs w) = Some j \<and> t_id (w_tabs w ! j) = tid
      \<and> tab_diff (w_tabs w ! j) = Some p"
    using assms
  proof (cases rule: show_diff_cases)
    case (retargeted i j)
    let ?t = "(w_tabs (workspaces s ! i) ! j)\<lparr>t_content := Diff p\<rparr>"
    have "position (\<lambda>t. tab_diff t \<noteq> None) ((w_tabs (workspaces s ! i))[j := ?t]) = Some j"
      by (rule position_update [OF retargeted(3)]) (simp add: tab_diff_def)
    then show ?thesis
      using retargeted position_lessD [OF retargeted(2)] position_lessD [OF retargeted(3)]
        find_workspace_set(2) [OF retargeted(2)]
      by (intro exI [of _ i] exI [of _ j]) (simp add: set_workspace_def tab_diff_def)
  next
    case (created i)
    let ?ts = "w_tabs (workspaces s ! i)"
    let ?t = "\<lparr>t_id = tid, t_name = DIFF_TAB_NAME, t_content = Diff p\<rparr>"
    have "position (\<lambda>t. tab_diff t \<noteq> None) (ts @ [?t]) = Some (length ts)"
      if "\<forall>t \<in> set ts. tab_diff t = None" for ts
      using that by (induction ts) (auto simp: tab_diff_def)
    from this [OF created(3)] show ?thesis
      using created position_lessD [OF created(2)] find_workspace_set(2) [OF created(2)]
      by (intro exI [of _ i] exI [of _ "length ?ts"]) (simp add: set_workspace_def tab_diff_def)
  qed
  then obtain i j where i: "position (\<lambda>w. w_id w = wid) (workspaces s') = Some i"
    and j: "position (\<lambda>t. tab_diff t \<noteq> None) (w_tabs (workspaces s' ! i)) = Some j"
    and t: "t_id (w_tabs (workspaces s' ! i) ! j) = tid"
      "tab_diff (w_tabs (workspaces s' ! i) ! j) = Some p"
    by blast
  have "session_diff_tab s' wid = Some (w_tabs (workspaces s' ! i) ! j)"
    using i j by (simp add: session_diff_tab_def find_workspace_def find_position)
  moreover
  let ?u = "(w_tabs (workspaces s' ! i) ! j)\<lparr>t_content := Diff q\<rparr>"
  let ?s = "set_tab i j ?u s'"
  have "show_diff rp s' nxt' wid q = (Some tid, ?s, nxt')" if "valid_diff_path rp q"
    using i j t(1) that by (simp add: show_diff_def show_viewer_def kind Let_def)
  moreover have "find_workspace ?s wid = Some ((workspaces s' ! i)\<lparr>w_tabs := (w_tabs (workspaces s' ! i))[j := ?u]\<rparr>)"
    unfolding set_tab_def Let_def by (rule find_workspace_set(1) [OF i]) simp
  then have "session_diff_tab ?s wid = Some ?u"
    using position_update [OF j, of ?u] position_lessD [OF j]
    by (simp add: session_diff_tab_def find_position tab_diff_def)
  moreover have "t_id ?u = tid" "tab_diff ?u = Some q" by (simp_all add: t(1) tab_diff_def)
  ultimately show ?thesis using t by blast
qed

lemma demo_show_diff:
  "show_diff demo_rp demo_single 4 (WorkspaceId 1) [97] =
     (Some (TabId 4), set_workspace 0 ((workspaces demo_single ! 0)\<lparr>w_tabs := w_tabs (workspaces demo_single ! 0)
        @ [\<lparr>t_id = TabId 4, t_name = DIFF_TAB_NAME, t_content = Diff [97]\<rparr>]\<rparr>) demo_single, 5)"
  by (simp add: show_diff_def show_viewer_def demo_simps demo_lookup snapshot_limits Let_def
      valid_diff_path_def demo_rp_def demo_components_def demo_component_def reserve_ids_def
      checked_add_u64_def MAX_NEXT_value)

lemma demo_valid_path: "valid_diff_path demo_rp [98]"
  by (simp add: valid_diff_path_def demo_rp_def demo_components_def demo_component_def)

theorem show_diff_effect_witness:
  "\<exists>s'. show_diff demo_rp demo_single 4 (WorkspaceId 1) [97] = (Some (TabId 4), s', 5)
    \<and> (\<exists>s''. show_diff demo_rp s' 5 (WorkspaceId 1) [98] = (Some (TabId 4), s'', 5))"
  using show_diff_effect [OF demo_show_diff, of "[98]"] demo_valid_path demo_show_diff by blast

section \<open>A split that leaves the focus\<close>

lemma preserve_tab_focus_self:
  assumes "find (\<lambda>old. t_id old = t_id t) olds = Some t"
  shows "preserve_tab_focus olds t = t"
proof (cases "t_content t")
  case (Terminals tm)
  with assms show ?thesis
    by (simp add: preserve_tab_focus_def tab_terminals_def)
qed (use assms in \<open>simp_all add: preserve_tab_focus_def tab_terminals_def\<close>)

lemma preserve_tab_focus_edited:
  assumes "find (\<lambda>old. t_id old = t_id t) olds = Some t" and "tab_terminals t = Some tm"
  shows "preserve_tab_focus olds (t\<lparr>t_content := Terminals tm'\<rparr>) = t\<lparr>t_content :=
    Terminals (tm'\<lparr>tl_focused := tl_focused tm, tl_history := tl_history tm, tl_zoomed := tl_zoomed tm\<rparr>)\<rparr>"
  using assms by (simp add: preserve_tab_focus_def) (simp add: tab_terminals_def)

lemma preserve_focus_from_edit:
  assumes inv: "session_inv rp nxt s" and ij: "i < length (workspaces s)" "j < length (w_tabs (workspaces s ! i))"
    and tm: "terminal_layout_at s i j = Some tm"
  shows "preserve_focus_from (set_terminals i j tm' s) s = set_terminals i j
    (tm'\<lparr>tl_focused := tl_focused tm, tl_history := tl_history tm, tl_zoomed := tl_zoomed tm\<rparr>) s"
    (is "_ = set_terminals i j ?tm s")
proof -
  let ?F = "\<lambda>w. case find_workspace s (w_id w) of
      Some old \<Rightarrow> w\<lparr>w_tabs := map (preserve_tab_focus (w_tabs old)) (w_tabs w)\<rparr> | None \<Rightarrow> w"
  let ?w = "workspaces s ! i"
  let ?put = "\<lambda>c. ?w\<lparr>w_tabs := (w_tabs ?w)[j := (w_tabs ?w ! j)\<lparr>t_content := Terminals c\<rparr>]\<rparr>"
  have ws: "distinct (map w_id (workspaces s))"
    using session_inv_ids(1) [OF inv] by (simp add: session_workspace_ids_def)
  have self: "find_workspace s (w_id (workspaces s ! m)) = Some (workspaces s ! m)"
    if "m < length (workspaces s)" for m
    using find_unique [OF ws that] by (simp add: find_workspace_def)
  have tab_self: "find (\<lambda>y. t_id y = t_id (w_tabs (workspaces s ! m) ! n)) (w_tabs (workspaces s ! m))
      = Some (w_tabs (workspaces s ! m) ! n)"
    if "m < length (workspaces s)" "n < length (w_tabs (workspaces s ! m))" for m n
    using that by (intro find_unique workspace_tab_ids_distinct [OF inv]) simp_all
  have other: "?F (workspaces s ! m) = workspaces s ! m" if "m < length (workspaces s)" for m
  proof -
    have "map (preserve_tab_focus (w_tabs (workspaces s ! m))) (w_tabs (workspaces s ! m))
        = w_tabs (workspaces s ! m)"
      by (rule nth_equalityI) (simp_all add: preserve_tab_focus_self tab_self that)
    then show ?thesis by (simp add: self [OF that])
  qed
  have edited: "?F (?put tm') = ?put ?tm"
  proof -
    have "map (preserve_tab_focus (w_tabs ?w)) ((w_tabs ?w)[j := (w_tabs ?w ! j)\<lparr>t_content := Terminals tm'\<rparr>])
        = (w_tabs ?w)[j := (w_tabs ?w ! j)\<lparr>t_content := Terminals ?tm\<rparr>]"
    proof (rule nth_equalityI)
      fix n assume "n < length (map (preserve_tab_focus (w_tabs ?w))
          ((w_tabs ?w)[j := (w_tabs ?w ! j)\<lparr>t_content := Terminals tm'\<rparr>]))"
      then have n: "n < length (w_tabs ?w)" by simp
      from tm have "tab_terminals (w_tabs ?w ! j) = Some tm" by (simp add: terminal_layout_at_def tab_at_def)
      with n show "map (preserve_tab_focus (w_tabs ?w))
          ((w_tabs ?w)[j := (w_tabs ?w ! j)\<lparr>t_content := Terminals tm'\<rparr>]) ! n
          = (w_tabs ?w)[j := (w_tabs ?w ! j)\<lparr>t_content := Terminals ?tm\<rparr>] ! n"
        by (cases "n = j")
           (simp_all add: preserve_tab_focus_edited [OF tab_self [OF ij]] preserve_tab_focus_self tab_self ij)
    qed simp
    then show ?thesis by (simp add: self [OF ij(1)])
  qed
  have "map ?F ((workspaces s)[i := ?put tm']) = (workspaces s)[i := ?put ?tm]"
  proof -
    have "map ?F (workspaces s) = workspaces s"
      using other by (intro nth_equalityI) simp_all
    then show ?thesis by (simp only: map_update edited)
  qed
  then show ?thesis
    by (simp add: preserve_focus_from_def set_terminals_def set_tab_def set_workspace_def tab_at_def Let_def)
qed

text \<open>a split whose caller does not ask for the focus only adds the Pane: the Tab keeps its
  focus, its history and its zoom, and every other Tab is untouched.\<close>

theorem split_without_focus_effect:
  assumes "session_inv rp nxt s" and "split_pane s nxt p d r = Some (Some q, s', nxt')"
  shows "\<exists>i j tm t x. terminal_layout_at s i j = Some tm \<and> p \<in> set (pane_ids_of tm) \<and> p_id x = q
    \<and> remove_from_layout t q = Some (tl_layout tm)
    \<and> preserve_focus_from s' s =
        set_terminals i j (tm\<lparr>tl_layout := t, tl_panes := tl_panes tm @ [x]\<rparr>) s"
  using assms
proof (rule split_pane_detail)
  fix i j t cwd and tm :: terminal_layout
  let ?x = "\<lparr>p_id = q, p_cwd = Some cwd, p_resume = None\<rparr>"
  assume ij: "i < length (workspaces s)" "j < length (w_tabs (workspaces s ! i))"
    and tm: "terminal_layout_at s i j = Some tm" and p: "p \<in> set (pane_ids_of tm)"
    and t: "remove_from_layout t q = Some (tl_layout tm)"
    and s': "s' = set_terminals i j (tm\<lparr>tl_layout := t, tl_history := tl_history tm @ [tl_focused tm],
        tl_focused := q, tl_zoomed := None, tl_panes := tl_panes tm @ [?x]\<rparr>) s"
  have "preserve_focus_from s' s =
      set_terminals i j (tm\<lparr>tl_layout := t, tl_panes := tl_panes tm @ [?x]\<rparr>) s"
    unfolding s' preserve_focus_from_edit [OF assms(1) ij tm] by simp
  with tm p t show ?thesis
    by (intro exI [of _ i] exI [of _ j] exI [of _ tm] exI [of _ t] exI [of _ ?x]) simp
qed

theorem split_without_focus_effect_witness:
  "\<exists>i j tm t x. terminal_layout_at demo_single i j = Some tm \<and> p_id x = PaneId 4
    \<and> preserve_focus_from demo_split demo_single =
        set_terminals i j (tm\<lparr>tl_layout := t, tl_panes := tl_panes tm @ [x]\<rparr>) demo_single"
  using split_without_focus_effect [OF demo_single_inv demo_split_pane] by blast

text \<open>looking a Pane up by id and locating it by index agree, for every Session and every id:
  both name the first Pane with that id, or both fail.\<close>

theorem get_pane_find_pane:
  "get_pane s p = map_option (\<lambda>(i, j, k). tab_panes (tab_at s i j) ! k) (find_pane s p)
   \<and> (find_pane s p = None \<longleftrightarrow> p \<notin> set (session_pane_ids s))"
  using find_pane_get_pane find_pane_None by blast

end
