(* ===== verification/Session_Snapshot.thy ===== *)
theory Session_Snapshot
  imports Session_Steps
begin

text \<open>
  Saving and restoring the Session (\<open>snapshot.rs\<close>, \<open>session/snapshot.rs\<close>): the split tree as a
  list of indexed nodes written breadth-first, the checks a Snapshot read from disk has to pass,
  and the Session rebuilt from it. \<open>None\<close> is a panic (or, for \<open>restore_node\<close>, a recursion that
  never ends); \<open>Inl\<close> is the \<open>SnapshotError\<close>.
\<close>

section \<open>The snapshot\<close>

datatype snapshot_error = Invalid string

datatype layout_node_snapshot =
    PaneNode pane_id
  | SplitNode split_direction f32 u32 u32

record layout_snapshot =
  ls_root :: u32
  ls_nodes :: "layout_node_snapshot list"

record pane_snapshot =
  ps_id :: pane_id
  ps_cwd :: "path option"
  ps_resume :: "agent_resume option"

datatype tab_content_snapshot =
    TerminalsSnapshot "pane_snapshot list" pane_id "pane_id list" layout_snapshot
  | DiffSnapshot rstr
  | FileSnapshot rstr

record tab_snapshot =
  ts_id :: tab_id
  ts_name :: rstr
  ts_content :: tab_content_snapshot

record workspace_snapshot =
  ws_id :: workspace_id
  ws_name :: rstr
  ws_root :: path
  ws_worktree :: "worktree_association option"
  ws_tabs :: "tab_snapshot list"

record session_snapshot =
  ss_workspaces :: "workspace_snapshot list"

section \<open>Writing\<close>

fun node_count :: "pane_layout \<Rightarrow> nat" where
  "node_count (Pane _) = 1"
| "node_count (Split _ _ a b) = 1 + node_count a + node_count b"

text \<open>\<open>u32::try_from\<close> of a length.\<close>

definition u32_index :: "nat \<Rightarrow> u32 option" where
  "u32_index n = (if n < 2 ^ 32 then Some (of_nat n) else None)"

text \<open>The \<open>while let\<close> of \<open>from_layout\<close>: the pending trees, the cursor into them, the nodes so far.\<close>

function from_layout_loop ::
  "pane_layout list \<Rightarrow> nat \<Rightarrow> layout_node_snapshot list \<Rightarrow> layout_node_snapshot list option" where
  "from_layout_loop pending cursor nodes =
     (if length pending \<le> cursor then Some nodes
      else case pending ! cursor of
        Pane p \<Rightarrow> from_layout_loop pending (cursor + 1) (nodes @ [PaneNode p])
      | Split d r first second \<Rightarrow>
          (case u32_index (length pending) of
             None \<Rightarrow> None
           | Some f \<Rightarrow>
               (case u32_index (length pending + 1) of
                  None \<Rightarrow> None
                | Some s \<Rightarrow> from_layout_loop (pending @ [first, second]) (cursor + 1)
                              (nodes @ [SplitNode d r f s]))))"
  by pat_completeness auto

lemma pending_split:
  assumes "\<not> length pending \<le> cursor"
  shows "drop cursor pending = pending ! cursor # drop (Suc cursor) pending"
  using assms by (simp add: Cons_nth_drop_Suc)

termination from_layout_loop
  by (relation "measure (\<lambda>(pending, cursor, _). sum_list (map node_count (drop cursor pending)))")
     (auto simp: pending_split)

declare from_layout_loop.simps [simp del]

definition from_layout :: "pane_layout \<Rightarrow> layout_snapshot option" where
  "from_layout layout =
     map_option (\<lambda>nodes. \<lparr>ls_root = 0, ls_nodes = nodes\<rparr>) (from_layout_loop [layout] 0 [])"

definition pane_to_snapshot :: "pane \<Rightarrow> pane_snapshot" where
  "pane_to_snapshot p = \<lparr>ps_id = p_id p, ps_cwd = p_cwd p, ps_resume = p_resume p\<rparr>"

definition tab_to_snapshot :: "tab \<Rightarrow> tab_snapshot option" where
  "tab_to_snapshot t =
     map_option (\<lambda>c. \<lparr>ts_id = t_id t, ts_name = t_name t, ts_content = c\<rparr>)
       (case t_content t of
          Terminals tm \<Rightarrow>
            map_option (TerminalsSnapshot (map pane_to_snapshot (tl_panes tm)) (tl_focused tm)
              (tl_history tm)) (from_layout (tl_layout tm))
        | Diff p \<Rightarrow> Some (DiffSnapshot p)
        | File p \<Rightarrow> Some (FileSnapshot p))"

definition workspace_to_snapshot :: "workspace \<Rightarrow> workspace_snapshot option" where
  "workspace_to_snapshot w =
     map_option (\<lambda>tabs. \<lparr>ws_id = w_id w, ws_name = w_name w, ws_root = w_root w,
         ws_worktree = w_worktree w, ws_tabs = tabs\<rparr>)
       (those (map tab_to_snapshot (w_tabs w)))"

definition session_to_snapshot :: "session \<Rightarrow> session_snapshot option" where
  "session_to_snapshot s =
     map_option (\<lambda>ws. \<lparr>ss_workspaces = ws\<rparr>) (those (map workspace_to_snapshot (workspaces s)))"

section \<open>Checking\<close>

text \<open>One turn of the depth-first walk pops \<open>(index, depth, exiting)\<close>. The node states are 0
  before, 1 during and 2 after a visit. The answer is the final states and the Panes met.\<close>

function walk_layout ::
  "layout_node_snapshot list \<Rightarrow> (nat \<times> nat \<times> bool) list \<Rightarrow> (nat \<Rightarrow> nat) \<Rightarrow> pane_id set
     \<Rightarrow> snapshot_error + ((nat \<Rightarrow> nat) \<times> pane_id set)" where
  "walk_layout nodes [] states panes = Inr (states, panes)"
| "walk_layout nodes ((index, depth, exiting) # stack) states panes =
     (if length nodes \<le> index then Inl (Invalid ''layout node is out of bounds'')
      else if exiting then walk_layout nodes stack (states(index := 2)) panes
      else if states index = 1 then Inl (Invalid ''cycle in layout'')
      else if states index = 2 then Inl (Invalid ''duplicate layout node reference'')
      else if MAX_SNAPSHOT_LAYOUT_DEPTH < depth then Inl (Invalid ''layout exceeds maximum depth'')
      else case nodes ! index of
        PaneNode p \<Rightarrow>
          if p \<in> panes then Inl (Invalid ''duplicate Pane in layout'')
          else walk_layout nodes stack (states(index := 2)) (insert p panes)
      | SplitNode _ ratio first second \<Rightarrow>
          if \<not> ratio_ok ratio then Inl (Invalid ''invalid split ratio'')
          else walk_layout nodes
                 ((unat first, depth + 1, False) # (unat second, depth + 1, False)
                    # (index, depth, True) # stack) (states(index := 1)) panes)"
  by pat_completeness auto

text \<open>Nodes not yet entered; a visit to one pays for the three entries it may push.\<close>

definition unvisited :: "layout_node_snapshot list \<Rightarrow> (nat \<Rightarrow> nat) \<Rightarrow> nat set" where
  "unvisited nodes states = {i. i < length nodes \<and> states i \<noteq> 1 \<and> states i \<noteq> 2}"

lemma finite_unvisited [simp]: "finite (unvisited nodes states)"
  by (simp add: unvisited_def)

lemma card_unvisited_enter:
  assumes "i < length nodes" and "states i \<noteq> 1" and "states i \<noteq> 2" and "v = 1 \<or> v = 2"
  shows "Suc (card (unvisited nodes (states(i := v)))) = card (unvisited nodes states)"
proof -
  have "unvisited nodes states = insert i (unvisited nodes (states(i := v)))"
    and "i \<notin> unvisited nodes (states(i := v))"
    using assms by (auto simp: unvisited_def)
  then show ?thesis by simp
qed

lemma card_unvisited_exit:
  "card (unvisited nodes (states(i := 2))) \<le> card (unvisited nodes states)"
  by (rule card_mono) (auto simp: unvisited_def)

termination walk_layout
proof (relation "measure (\<lambda>(nodes, stack, states, _). 4 * card (unvisited nodes states) + length stack)",
    goal_cases)
  case (2 nodes index depth exiting stack states panes)
  then show ?case using card_unvisited_exit [of nodes states index] by simp
next
  case (3 nodes index depth exiting stack states panes p)
  then show ?case using card_unvisited_enter [of index nodes states 2] by simp
next
  case (4 nodes index depth exiting stack states panes d r f s)
  then show ?case using card_unvisited_enter [of index nodes states 1] by simp
qed simp

declare walk_layout.simps(2) [simp del]

definition validate_layout_snapshot :: "layout_snapshot \<Rightarrow> pane_id set \<Rightarrow> snapshot_error + unit" where
  "validate_layout_snapshot layout expected =
     (if usize_max < card expected * 2 \<or> card expected * 2 = 0
      then Inl (Invalid ''invalid empty layout'')
      else if length (ls_nodes layout) \<noteq> card expected * 2 - 1
      then Inl (Invalid ''layout node count does not match Tab'')
      else let root = unat (ls_root layout) in
           if length (ls_nodes layout) \<le> root then Inl (Invalid ''layout root is out of bounds'')
           else bind_ok (walk_layout (ls_nodes layout) [(root, 1, False)] (\<lambda>_. 0) {})
             (\<lambda>(states, panes).
                if list_ex (\<lambda>i. states i = 0) [0..<length (ls_nodes layout)]
                then Inl (Invalid ''unreachable layout node'')
                else if panes \<noteq> expected
                then Inl (Invalid ''layout Pane set does not match Tab'')
                else Inr ()))"

text \<open>The running totals of Tabs, Panes and layout nodes.\<close>

definition count_tab :: "tab_snapshot \<Rightarrow> nat \<times> nat \<Rightarrow> snapshot_error + nat \<times> nat" where
  "count_tab t totals =
     (case ts_content t of
        TerminalsSnapshot panes _ _ layout \<Rightarrow>
          (case checked_add_usize (fst totals) (length panes) of
             None \<Rightarrow> Inl (Invalid ''too many Panes'')
           | Some panes_total \<Rightarrow>
               if MAX_SNAPSHOT_PANES < panes_total then Inl (Invalid ''too many Panes'')
               else case checked_add_usize (snd totals) (length (ls_nodes layout)) of
                 None \<Rightarrow> Inl (Invalid ''too many layout nodes'')
               | Some nodes_total \<Rightarrow>
                   if MAX_SNAPSHOT_LAYOUT_NODES < nodes_total
                   then Inl (Invalid ''too many layout nodes'')
                   else Inr (panes_total, nodes_total))
      | _ \<Rightarrow> Inr totals)"

definition count_workspace ::
  "workspace_snapshot \<Rightarrow> nat \<times> nat \<times> nat \<Rightarrow> snapshot_error + nat \<times> nat \<times> nat" where
  "count_workspace w totals =
     (case checked_add_usize (fst totals) (length (ws_tabs w)) of
        None \<Rightarrow> Inl (Invalid ''too many Tabs'')
      | Some tabs_total \<Rightarrow>
          if MAX_SNAPSHOT_TABS < tabs_total then Inl (Invalid ''too many Tabs'')
          else bind_ok (fold_ok count_tab (ws_tabs w) (snd totals)) (\<lambda>rest. Inr (tabs_total, rest)))"

definition check_tab_layout :: "tab_snapshot \<Rightarrow> unit \<Rightarrow> snapshot_error + unit" where
  "check_tab_layout t u =
     (case ts_content t of
        TerminalsSnapshot panes _ _ layout \<Rightarrow>
          if card (set (map ps_id panes)) \<noteq> length panes then Inl (Invalid ''duplicate Pane ID'')
          else validate_layout_snapshot layout (set (map ps_id panes))
      | _ \<Rightarrow> Inr ())"

definition validate_snapshot_resources :: "session_snapshot \<Rightarrow> snapshot_error + unit" where
  "validate_snapshot_resources snap =
     (if MAX_SNAPSHOT_WORKSPACES < length (ss_workspaces snap) then Inl (Invalid ''too many Workspaces'')
      else bind_ok (fold_ok count_workspace (ss_workspaces snap) (0, 0, 0))
        (\<lambda>_. fold_ok (\<lambda>w. fold_ok check_tab_layout (ws_tabs w)) (ss_workspaces snap) ()))"

section \<open>Reading\<close>

partial_function (option) restore_node ::
  "layout_node_snapshot list \<Rightarrow> nat \<Rightarrow> pane_layout option" where
  "restore_node nodes index =
     (if length nodes \<le> index then None
      else case nodes ! index of
        PaneNode p \<Rightarrow> Some (Pane p)
      | SplitNode d ratio first second \<Rightarrow>
          Option.bind (restore_node nodes (unat first)) (\<lambda>a.
            Option.bind (restore_node nodes (unat second)) (\<lambda>b.
              Some (Split d ratio a b))))"

definition restore_layout :: "layout_snapshot \<Rightarrow> pane_layout option" where
  "restore_layout layout = restore_node (ls_nodes layout) (unat (ls_root layout))"

definition restore_pane :: "pane_snapshot \<Rightarrow> pane" where
  "restore_pane p = \<lparr>p_id = ps_id p, p_cwd = ps_cwd p, p_resume = ps_resume p\<rparr>"

definition restore_tab :: "tab_snapshot \<Rightarrow> tab option" where
  "restore_tab t =
     map_option (\<lambda>c. \<lparr>t_id = ts_id t, t_name = ts_name t, t_content = c\<rparr>)
       (case ts_content t of
          TerminalsSnapshot panes focused history layout \<Rightarrow>
            map_option (\<lambda>l. Terminals \<lparr>tl_panes = map restore_pane panes, tl_focused = focused,
                tl_history = history, tl_layout = l, tl_zoomed = None\<rparr>) (restore_layout layout)
        | DiffSnapshot p \<Rightarrow> Some (Diff p)
        | FileSnapshot p \<Rightarrow> Some (File p))"

definition restore_workspace :: "workspace_snapshot \<Rightarrow> workspace option" where
  "restore_workspace w =
     map_option (\<lambda>tabs. \<lparr>w_id = ws_id w, w_name = ws_name w, w_root = ws_root w,
         w_worktree = ws_worktree w, w_tabs = tabs\<rparr>)
       (those (map restore_tab (ws_tabs w)))"

definition validate_id :: "u64 \<Rightarrow> u64 \<Rightarrow> snapshot_error + u64" where
  "validate_id i max_id =
     (if i = 0 \<or> MAX_STABLE_ID < i then Inl (Invalid ''invalid stable ID'') else Inr (max max_id i))"

fun validate_layout :: "pane_layout \<Rightarrow> pane_id set \<Rightarrow> snapshot_error + pane_id set" where
  "validate_layout (Pane p) panes =
     (if p \<in> panes then Inl (Invalid ''duplicate Pane in layout'') else Inr (insert p panes))"
| "validate_layout (Split _ ratio first second) panes =
     (if \<not> ratio_ok ratio then Inl (Invalid ''invalid split ratio'')
      else bind_ok (validate_layout first panes) (validate_layout second))"

text \<open>A Pane of a Tab: the Panes of the Session, those of the Tab, and the largest id so far.\<close>

definition validate_pane ::
  "pane \<Rightarrow> pane_id set \<times> pane_id set \<times> u64 \<Rightarrow> snapshot_error + pane_id set \<times> pane_id set \<times> u64" where
  "validate_pane p = (\<lambda>(pane_ids, tab_pane_ids, max_id).
     bind_ok (validate_id (pane_u64 (p_id p)) max_id) (\<lambda>max_id.
       if (case p_resume p of Some r \<Rightarrow> \<not> valid_session_id (ar_session_id r) | None \<Rightarrow> False)
       then Inl (Invalid ''invalid Agent resume ID'')
       else if p_id p \<in> pane_ids \<or> p_id p \<in> tab_pane_ids then Inl (Invalid ''duplicate Pane ID'')
       else Inr (insert (p_id p) pane_ids, insert (p_id p) tab_pane_ids, max_id)))"

text \<open>The \<open>any\<close> over the history, whose closure also collects what it has seen.\<close>

fun bad_history :: "pane_id \<Rightarrow> pane_id set \<Rightarrow> pane_id list \<Rightarrow> pane_id set \<Rightarrow> bool" where
  "bad_history focused panes [] seen = False"
| "bad_history focused panes (i # is) seen =
     (i = focused \<or> i \<notin> panes \<or> i \<in> seen \<or> bad_history focused panes is (insert i seen))"

definition validate_terminals ::
  "terminal_layout \<Rightarrow> pane_id set \<Rightarrow> u64 \<Rightarrow> snapshot_error + pane_id set \<times> u64" where
  "validate_terminals tm pane_ids max_id =
     (if tl_panes tm = [] then Inl (Invalid ''invalid Tab'')
      else bind_ok (fold_ok validate_pane (tl_panes tm) (pane_ids, {}, max_id))
        (\<lambda>(pane_ids, tab_pane_ids, max_id).
           if tl_focused tm \<notin> tab_pane_ids then Inl (Invalid ''focused Pane is missing'')
           else if bad_history (tl_focused tm) tab_pane_ids (tl_history tm) {}
           then Inl (Invalid ''invalid Pane focus history'')
           else bind_ok (validate_layout (tl_layout tm) {})
             (\<lambda>layout_panes.
                if layout_panes \<noteq> tab_pane_ids
                then Inl (Invalid ''layout Pane set does not match Tab'')
                else Inr (pane_ids, max_id))))"

text \<open>The sets and the running maximum of \<open>validate\<close>; the counts are the Workspace's viewers.\<close>

record validation =
  v_tabs :: "tab_id set"
  v_panes :: "pane_id set"
  v_max :: u64
  v_diffs :: nat
  v_files :: nat

definition validate_tab :: "relpath_api \<Rightarrow> tab \<Rightarrow> validation \<Rightarrow> snapshot_error + validation" where
  "validate_tab rp t v =
     bind_ok (validate_id (tab_u64 (t_id t)) (v_max v)) (\<lambda>max_id.
       if t_id t \<in> v_tabs v then Inl (Invalid ''duplicate Tab ID'')
       else let v = v\<lparr>v_tabs := insert (t_id t) (v_tabs v), v_max := max_id\<rparr> in
         case t_content t of
           Terminals tm \<Rightarrow>
             bind_ok (validate_terminals tm (v_panes v) (v_max v))
               (\<lambda>(pane_ids, max_id). Inr (v\<lparr>v_panes := pane_ids, v_max := max_id\<rparr>))
         | Diff p \<Rightarrow>
             if \<not> valid_diff_path rp p then Inl (Invalid ''invalid Diff Tab path'')
             else if 1 < v_diffs v + 1 then Inl (Invalid ''a Workspace has at most one Diff Tab'')
             else Inr (v\<lparr>v_diffs := v_diffs v + 1\<rparr>)
         | File p \<Rightarrow>
             if \<not> valid_diff_path rp p then Inl (Invalid ''invalid Preview Tab path'')
             else if 1 < v_files v + 1 then Inl (Invalid ''a Workspace has at most one Preview Tab'')
             else Inr (v\<lparr>v_files := v_files v + 1\<rparr>))"

definition validate_workspace ::
  "relpath_api \<Rightarrow> workspace \<Rightarrow> workspace_id set \<times> validation
     \<Rightarrow> snapshot_error + workspace_id set \<times> validation" where
  "validate_workspace rp w = (\<lambda>(workspace_ids, v).
     bind_ok (validate_id (workspace_u64 (w_id w)) (v_max v)) (\<lambda>max_id.
       if w_id w \<in> workspace_ids then Inl (Invalid ''duplicate Workspace ID'')
       else if w_name w = [] \<or> w_tabs w = [] then Inl (Invalid ''invalid Workspace'')
       else bind_ok
         (case w_worktree w of
            None \<Rightarrow> Inr max_id
          | Some a \<Rightarrow>
              bind_ok (validate_id (workspace_u64 (wt_parent_id a)) max_id) (\<lambda>max_id.
                if wt_parent_id a = w_id w \<or> wt_parent_root a = []
                then Inl (Invalid ''invalid Worktree association'') else Inr max_id))
         (\<lambda>max_id. bind_ok
            (fold_ok (validate_tab rp) (w_tabs w) (v\<lparr>v_max := max_id, v_diffs := 0, v_files := 0\<rparr>))
            (\<lambda>v. Inr (insert (w_id w) workspace_ids, v)))))"

definition session_validate :: "relpath_api \<Rightarrow> session \<Rightarrow> snapshot_error + u64" where
  "session_validate rp s =
     bind_ok (fold_ok (validate_workspace rp) (workspaces s)
         ({}, \<lparr>v_tabs = {}, v_panes = {}, v_max = 0, v_diffs = 0, v_files = 0\<rparr>))
       (\<lambda>(_, v). Inr (v_max v))"

text \<open>\<open>NEXT_ID.fetch_max\<close> is the counter after it.\<close>

definition session_restore ::
  "relpath_api \<Rightarrow> session_snapshot \<Rightarrow> u64 \<Rightarrow> (snapshot_error + session \<times> u64) option" where
  "session_restore rp snap nxt =
     (case validate_snapshot_resources snap of
        Inl e \<Rightarrow> Some (Inl e)
      | Inr _ \<Rightarrow>
          (case those (map restore_workspace (ss_workspaces snap)) of
             None \<Rightarrow> None
           | Some ws \<Rightarrow>
               let s = \<lparr>workspaces = ws\<rparr> in
               Some (bind_ok (session_validate rp s) (\<lambda>max_id.
                 case checked_add_u64 max_id 1 of
                   None \<Rightarrow> Inl (Invalid ''stable ID space is exhausted'')
                 | Some next_id \<Rightarrow> Inr (s, max nxt next_id)))))"

section \<open>A tree inside the node list\<close>

fun tree_at :: "layout_node_snapshot list \<Rightarrow> nat \<Rightarrow> pane_layout \<Rightarrow> bool" where
  "tree_at nodes i (Pane p) \<longleftrightarrow> i < length nodes \<and> nodes ! i = PaneNode p"
| "tree_at nodes i (Split d r a b) \<longleftrightarrow> i < length nodes \<and>
     (case nodes ! i of
        PaneNode _ \<Rightarrow> False
      | SplitNode d' r' f s \<Rightarrow> d' = d \<and> r' = r \<and> tree_at nodes (unat f) a \<and> tree_at nodes (unat s) b)"

lemma tree_at_restore: "tree_at nodes i t \<Longrightarrow> restore_node nodes i = Some t"
proof (induction t arbitrary: i)
  case (Pane p)
  then show ?case by (subst restore_node.simps) simp
next
  case (Split d r a b)
  then show ?case
    by (subst restore_node.simps) (auto split: layout_node_snapshot.splits)
qed

text \<open>A walk that ends well has met a whole tree, within the depth limit, at every entry it was
  given.\<close>

lemma walk_layout_entered:
  assumes "walk_layout nodes ((index, depth, exiting) # stack) states panes = Inr result"
  shows "index < length nodes" and "exiting \<or> states index \<noteq> 1 \<and> states index \<noteq> 2
    \<and> depth \<le> MAX_SNAPSHOT_LAYOUT_DEPTH"
  using assms by (simp_all add: walk_layout.simps(2) split: if_split_asm)

lemma walk_layout_exit:
  assumes "walk_layout nodes ((index, depth, True) # stack) states panes = Inr result"
  shows "walk_layout nodes stack (states(index := 2)) panes = Inr result"
  using assms by (simp add: walk_layout.simps(2) split: if_split_asm)

lemma walk_layout_pane:
  assumes "walk_layout nodes ((index, depth, False) # stack) states panes = Inr result"
    and "nodes ! index = PaneNode p"
  shows "p \<notin> panes" and "walk_layout nodes stack (states(index := 2)) (insert p panes) = Inr result"
  using assms by (simp_all add: walk_layout.simps(2) split: if_split_asm)

lemma walk_layout_split:
  assumes "walk_layout nodes ((index, depth, False) # stack) states panes = Inr result"
    and "nodes ! index = SplitNode d r f s"
  shows "ratio_ok r" and "walk_layout nodes ((unat f, depth + 1, False) # (unat s, depth + 1, False)
          # (index, depth, True) # stack) (states(index := 1)) panes = Inr result"
  using assms by (simp_all add: walk_layout.simps(2) split: if_split_asm)

text \<open>Every entry the walk was given and will enter stands for a whole tree within the depth
  limit.\<close>

definition entry_tree :: "layout_node_snapshot list \<Rightarrow> nat \<times> nat \<times> bool \<Rightarrow> bool" where
  "entry_tree nodes e \<longleftrightarrow> snd (snd e) \<or>
     (\<exists>t. tree_at nodes (fst e) t \<and> fst (snd e) + layout_height t \<le> MAX_SNAPSHOT_LAYOUT_DEPTH + 1)"

lemma walk_layout_trees:
  "walk_layout nodes stack states panes = Inr result \<Longrightarrow> \<forall>e \<in> set stack. entry_tree nodes e"
proof (induction nodes stack states panes rule: walk_layout.induct)
  case (2 nodes index depth exiting stack states panes)
  note run = "2.prems"
  note at = walk_layout_entered [OF run]
  show ?case
  proof (cases exiting)
    case True
    then have run': "walk_layout nodes ((index, depth, True) # stack) states panes = Inr result"
      using run by simp
    from at(1) have "\<not> length nodes \<le> index" by simp
    from "2.IH"(1) [OF this True walk_layout_exit [OF run']] True show ?thesis
      by (simp add: entry_tree_def)
  next
    case False
    with at have ok: "\<not> length nodes \<le> index" "states index \<noteq> 1" "states index \<noteq> 2"
      "\<not> MAX_SNAPSHOT_LAYOUT_DEPTH < depth" by simp_all
    from run False have run': "walk_layout nodes ((index, depth, False) # stack) states panes = Inr result"
      by simp
    show ?thesis
    proof (cases "nodes ! index")
      case (PaneNode p)
      note next_run = walk_layout_pane [OF run' PaneNode]
      from "2.IH"(2) [OF ok(1) False ok(2,3,4) PaneNode next_run] at(1) PaneNode ok(4) show ?thesis
        by (auto simp: entry_tree_def intro: exI [of _ "Pane p"])
    next
      case (SplitNode d r f s)
      note next_run = walk_layout_split [OF run' SplitNode]
      have IH: "\<forall>e \<in> set ((unat f, depth + 1, False) # (unat s, depth + 1, False)
          # (index, depth, True) # stack). entry_tree nodes e"
        by (rule "2.IH"(3) [OF ok(1) False ok(2,3,4) SplitNode _ next_run(2)]) (simp add: next_run(1))
      then obtain a b where "tree_at nodes (unat f) a" "tree_at nodes (unat s) b"
        "depth + 1 + layout_height a \<le> MAX_SNAPSHOT_LAYOUT_DEPTH + 1"
        "depth + 1 + layout_height b \<le> MAX_SNAPSHOT_LAYOUT_DEPTH + 1"
        by (auto simp: entry_tree_def)
      then have "entry_tree nodes (index, depth, exiting)"
        using at(1) SplitNode unfolding entry_tree_def
        by (intro disjI2 exI [of _ "Split d r a b"]) simp
      with IH show ?thesis by simp
    qed
  qed
qed simp

section \<open>What the breadth-first writer leaves\<close>

lemma u32_index_Some: "n < 2 ^ 32 \<Longrightarrow> \<exists>f. u32_index n = Some f \<and> unat f = n"
  by (simp add: u32_index_def unsigned_of_nat take_bit_nat_eq_self)

definition node_matches :: "pane_layout list \<Rightarrow> pane_layout \<Rightarrow> layout_node_snapshot \<Rightarrow> bool" where
  "node_matches pending t node \<longleftrightarrow>
     (case t of
        Pane p \<Rightarrow> node = PaneNode p
      | Split d r a b \<Rightarrow> (\<exists>f s. node = SplitNode d r f s
          \<and> unat f < length pending \<and> pending ! unat f = a
          \<and> unat s < length pending \<and> pending ! unat s = b))"

definition child_of :: "layout_node_snapshot \<Rightarrow> nat \<Rightarrow> bool" where
  "child_of node k \<longleftrightarrow>
     (case node of PaneNode _ \<Rightarrow> False | SplitNode _ _ f s \<Rightarrow> k = unat f \<or> k = unat s)"

text \<open>The loop invariant: the nodes written so far describe the trees they came from, and every
  pending tree but the root was pushed by a node before it.\<close>

definition bfs :: "pane_layout \<Rightarrow> pane_layout list \<Rightarrow> layout_node_snapshot list \<Rightarrow> bool" where
  "bfs t pending nodes \<longleftrightarrow>
     pending \<noteq> [] \<and> pending ! 0 = t \<and> length nodes \<le> length pending
     \<and> (\<forall>i < length nodes. node_matches pending (pending ! i) (nodes ! i))
     \<and> (\<forall>k. 0 < k \<and> k < length pending \<longrightarrow> (\<exists>j < length nodes. j < k \<and> child_of (nodes ! j) k))
     \<and> length nodes + sum_list (map node_count (drop (length nodes) pending)) = node_count t"

lemma node_count_pos [simp]: "1 \<le> node_count t"
  by (cases t) simp_all

lemma length_le_node_counts: "length ts \<le> sum_list (map node_count ts)"
proof (induction ts)
  case (Cons t ts)
  then show ?case using node_count_pos [of t] by simp
qed simp

lemma node_matches_append:
  "node_matches pending t node \<Longrightarrow> node_matches (pending @ rest) t node"
  by (auto simp: node_matches_def nth_append split: pane_layout.splits)

lemma bfs_pane:
  assumes "bfs t pending nodes" and "\<not> length pending \<le> length nodes"
    and "pending ! length nodes = Pane p"
  shows "bfs t pending (nodes @ [PaneNode p])"
proof -
  have "\<exists>j < length (nodes @ [PaneNode p]). j < k \<and> child_of ((nodes @ [PaneNode p]) ! j) k"
    if k: "0 < k" "k < length pending" for k
  proof -
    from assms(1) k obtain j where "j < length nodes" "j < k" "child_of (nodes ! j) k"
      unfolding bfs_def by blast
    then show ?thesis by (intro exI [of _ j]) (simp add: nth_append)
  qed
  with assms show ?thesis
    by (auto simp: bfs_def pending_split nth_append node_matches_def less_Suc_eq)
qed

lemma bfs_split:
  assumes bfs: "bfs t pending nodes" and more: "\<not> length pending \<le> length nodes"
    and node: "pending ! length nodes = Split d r a b"
    and f: "unat f = length pending" and s: "unat s = length pending + 1"
  shows "bfs t (pending @ [a, b]) (nodes @ [SplitNode d r f s])"
proof -
  have "\<exists>j < length (nodes @ [SplitNode d r f s]). j < k \<and> child_of ((nodes @ [SplitNode d r f s]) ! j) k"
    if k: "0 < k" "k < length (pending @ [a, b])" for k
  proof (cases "k < length pending")
    case True
    with bfs k obtain j where "j < length nodes" "j < k" "child_of (nodes ! j) k"
      unfolding bfs_def by blast
    then show ?thesis by (intro exI [of _ j]) (simp add: nth_append)
  next
    case False
    with k f s more show ?thesis
      by (intro exI [of _ "length nodes"]) (auto simp: nth_append child_of_def)
  qed
  moreover have "node_matches (pending @ [a, b]) ((pending @ [a, b]) ! i) ((nodes @ [SplitNode d r f s]) ! i)"
    if "i < length (nodes @ [SplitNode d r f s])" for i
  proof (cases "i < length nodes")
    case True
    with bfs show ?thesis
      by (auto simp: bfs_def nth_append node_matches_append)
  next
    case False
    with that have "i = length nodes" by simp
    then show ?thesis using node more f s by (simp add: nth_append node_matches_def)
  qed
  moreover have "length (nodes @ [SplitNode d r f s])
      + sum_list (map node_count (drop (length (nodes @ [SplitNode d r f s])) (pending @ [a, b]))) = node_count t"
    using bfs more node by (simp add: bfs_def pending_split)
  ultimately show ?thesis using bfs more by (auto simp: bfs_def nth_append)
qed

lemma bfs_room:
  assumes "bfs t pending nodes" and "\<not> length pending \<le> length nodes"
    and "pending ! length nodes = Split d r a b"
  shows "length pending + 2 \<le> node_count t"
proof -
  have "length nodes + (1 + node_count a + node_count b
      + sum_list (map node_count (drop (Suc (length nodes)) pending))) = node_count t"
    using assms by (simp add: bfs_def pending_split)
  then show ?thesis
    using assms(2) length_le_node_counts [of "drop (Suc (length nodes)) pending"]
      node_count_pos [of a] node_count_pos [of b] by (simp only: length_drop)
qed

lemma from_layout_loop_bfs:
  "bfs t pending nodes \<Longrightarrow> length nodes = cursor \<Longrightarrow> node_count t \<le> 2 ^ 32 \<Longrightarrow>
     \<exists>pending' nodes'. from_layout_loop pending cursor nodes = Some nodes' \<and> bfs t pending' nodes'
       \<and> length nodes' = length pending'"
proof (induction pending cursor nodes rule: from_layout_loop.induct)
  case (1 pending cursor nodes)
  note cursor = "1.prems"(2)
  show ?case
  proof (cases "length pending \<le> cursor")
    case True
    with "1.prems" show ?thesis
      by (intro exI [of _ pending] exI [of _ nodes]) (auto simp: from_layout_loop.simps bfs_def)
  next
    case False
    then have more: "\<not> length pending \<le> length nodes" by (simp add: cursor)
    show ?thesis
    proof (cases "pending ! cursor")
      case (Pane p)
      with "1.IH"(1) [OF False Pane bfs_pane [OF "1.prems"(1) more]] "1.prems" False show ?thesis
        by (subst from_layout_loop.simps) simp
    next
      case (Split d r a b)
      then have node: "pending ! length nodes = Split d r a b" by (simp add: cursor)
      note room = bfs_room [OF "1.prems"(1) more node]
      have "length pending < 2 ^ 32" "length pending + 1 < 2 ^ 32"
        using room "1.prems"(3) by linarith+
      then obtain f s where f: "u32_index (length pending) = Some f" "unat f = length pending"
        and s: "u32_index (length pending + 1) = Some s" "unat s = length pending + 1"
        using u32_index_Some by blast
      note step = bfs_split [OF "1.prems"(1) more node f(2) s(2)]
      from "1.IH"(2) [OF False Split f(1) s(1) step] "1.prems"(2,3) False Split f(1) s(1) show ?thesis
        by (subst from_layout_loop.simps) simp
    qed
  qed
qed

lemma bfs_tree_at:
  assumes bfs: "bfs t pending nodes" and all: "length nodes = length pending"
  shows "i < length nodes \<Longrightarrow> pending ! i = u \<Longrightarrow> tree_at nodes i u"
proof (induction u arbitrary: i)
  case (Pane p)
  with bfs have "node_matches pending (Pane p) (nodes ! i)" unfolding bfs_def by metis
  with Pane show ?case by (simp add: node_matches_def)
next
  case (Split d r a b)
  with bfs have "node_matches pending (Split d r a b) (nodes ! i)" unfolding bfs_def by metis
  with Split all show ?case by (auto simp: node_matches_def)
qed

text \<open>The indices below a node, in pre-order.\<close>

fun indices :: "layout_node_snapshot list \<Rightarrow> nat \<Rightarrow> pane_layout \<Rightarrow> nat list" where
  "indices nodes i (Pane _) = [i]"
| "indices nodes i (Split _ _ a b) = i #
     (case nodes ! i of
        PaneNode _ \<Rightarrow> []
      | SplitNode _ _ f s \<Rightarrow> indices nodes (unat f) a @ indices nodes (unat s) b)"

lemma indices_self: "i \<in> set (indices nodes i t)"
  by (cases t) simp_all

lemma length_indices: "tree_at nodes i t \<Longrightarrow> length (indices nodes i t) = node_count t"
  by (induction t arbitrary: i) (auto split: layout_node_snapshot.splits)

lemma indices_bound: "tree_at nodes i t \<Longrightarrow> set (indices nodes i t) \<subseteq> {0..<length nodes}"
  by (induction t arbitrary: i) (fastforce split: layout_node_snapshot.splits)+

lemma indices_closed:
  "tree_at nodes i t \<Longrightarrow> j \<in> set (indices nodes i t) \<Longrightarrow> child_of (nodes ! j) k \<Longrightarrow>
     k \<in> set (indices nodes i t)"
proof (induction t arbitrary: i)
  case (Split d r a b)
  then show ?case
    using indices_self by (auto simp: child_of_def split: layout_node_snapshot.splits)
qed (simp add: child_of_def)

text \<open>Every index is below the root, and no index is met twice.\<close>

lemma bfs_indices:
  assumes bfs: "bfs t pending nodes" and all: "length nodes = length pending"
  shows "set (indices nodes 0 t) = {0..<length nodes}" and "distinct (indices nodes 0 t)"
proof -
  have "0 < length nodes" and t: "pending ! 0 = t" using bfs all by (auto simp: bfs_def)
  then have tree: "tree_at nodes 0 t" using bfs_tree_at [OF bfs all] by blast
  have reach: "k < length nodes \<Longrightarrow> k \<in> set (indices nodes 0 t)" for k
  proof (induction k rule: less_induct)
    case (less k)
    show ?case
    proof (cases "k = 0")
      case False
      with less.prems bfs all obtain j where "j < length nodes" "j < k" "child_of (nodes ! j) k"
        unfolding bfs_def by auto
      with less.IH [of j] show ?thesis using indices_closed [OF tree] by blast
    qed (simp add: indices_self)
  qed
  with indices_bound [OF tree] show s: "set (indices nodes 0 t) = {0..<length nodes}" by auto
  have "length nodes = node_count t" using bfs all by (simp add: bfs_def)
  then show "distinct (indices nodes 0 t)"
    using length_indices [OF tree] s by (intro card_distinct) simp
qed

lemma bfs_start: "bfs t [t] []"
  by (auto simp: bfs_def)

lemma from_layout_nodes:
  assumes "node_count t \<le> 2 ^ 32"
  obtains nodes where "from_layout t = Some \<lparr>ls_root = 0, ls_nodes = nodes\<rparr>"
    and "tree_at nodes 0 t" and "length nodes = node_count t"
    and "set (indices nodes 0 t) = {0..<length nodes}" and "distinct (indices nodes 0 t)"
proof -
  from from_layout_loop_bfs [OF bfs_start _ assms]
  obtain pending nodes where run: "from_layout_loop [t] 0 [] = Some nodes"
    and bfs: "bfs t pending nodes" and all: "length nodes = length pending" by auto
  have "0 < length nodes" "pending ! 0 = t" "length nodes = node_count t"
    using bfs all by (auto simp: bfs_def)
  with that [OF _ bfs_tree_at [OF bfs all] _ bfs_indices [OF bfs all]] run show thesis
    by (simp add: from_layout_def)
qed

section \<open>The walk accepts every tree\<close>

definition visited :: "nat list \<Rightarrow> (nat \<Rightarrow> nat) \<Rightarrow> nat \<Rightarrow> nat" where
  "visited is states x = (if x \<in> set is then 2 else states x)"

lemma visited_append: "visited (is @ js) states = visited js (visited is states)"
  by (auto simp: visited_def)

lemma walk_layout_accepts:
  "tree_at nodes i t \<Longrightarrow> \<forall>x \<in> set (indices nodes i t). states x = 0 \<Longrightarrow>
   distinct (indices nodes i t) \<Longrightarrow> d + layout_height t \<le> MAX_SNAPSHOT_LAYOUT_DEPTH + 1 \<Longrightarrow>
   distinct (leaves t) \<Longrightarrow> set (leaves t) \<inter> panes = {} \<Longrightarrow> ratios_ok t \<Longrightarrow>
     walk_layout nodes ((i, d, False) # rest) states panes
       = walk_layout nodes rest (visited (indices nodes i t) states) (panes \<union> set (leaves t))"
proof (induction t arbitrary: i d states panes rest)
  case (Pane p)
  have v: "visited [i] states = states(i := 2)" by (auto simp: visited_def)
  have u: "panes \<union> set (leaves (Pane p)) = insert p panes" by simp
  from Pane have "walk_layout nodes ((i, d, False) # rest) states panes
      = walk_layout nodes rest (states(i := 2)) (insert p panes)"
    by (simp add: walk_layout.simps(2))
  then show ?case unfolding indices.simps v u .
next
  case (Split dir r a b)
  then obtain f s where node: "nodes ! i = SplitNode dir r f s" and i: "i < length nodes"
    and a: "tree_at nodes (unat f) a" and b: "tree_at nodes (unat s) b"
    by (auto split: layout_node_snapshot.splits)
  let ?ia = "indices nodes (unat f) a" and ?ib = "indices nodes (unat s) b"
  have ix: "indices nodes i (Split dir r a b) = i # ?ia @ ?ib" by (simp add: node)
  note zero = Split.prems(2) [unfolded ix] and dist = Split.prems(3) [unfolded ix]
  have "d \<le> MAX_SNAPSHOT_LAYOUT_DEPTH"
    using Split.prems(4) layout_height_pos [of a] by simp
  then have enter: "walk_layout nodes ((i, d, False) # rest) states panes
      = walk_layout nodes ((unat f, d + 1, False) # (unat s, d + 1, False) # (i, d, True) # rest)
          (states(i := 1)) panes"
    using node i zero Split.prems(7) by (simp add: walk_layout.simps(2))
  also have "\<dots> = walk_layout nodes ((unat s, d + 1, False) # (i, d, True) # rest)
      (visited ?ia (states(i := 1))) (panes \<union> set (leaves a))"
    using zero dist Split.prems(4-7) by (intro Split.IH(1) a) auto
  also have "\<dots> = walk_layout nodes ((i, d, True) # rest)
      (visited ?ib (visited ?ia (states(i := 1)))) (panes \<union> set (leaves a) \<union> set (leaves b))"
    using zero dist Split.prems(4-7) by (intro Split.IH(2) b) (auto simp: visited_def)
  also have "\<dots> = walk_layout nodes rest ((visited ?ib (visited ?ia (states(i := 1))))(i := 2))
      (panes \<union> set (leaves a) \<union> set (leaves b))"
    using i by (simp add: walk_layout.simps(2))
  also have "(visited ?ib (visited ?ia (states(i := 1))))(i := 2)
      = visited (indices nodes i (Split dir r a b)) states"
    unfolding ix by (auto simp: visited_def)
  finally show ?case by (simp add: Un_assoc)
qed

lemma node_count_leaves: "node_count t = length (leaves t) * 2 - 1"
proof -
  have "node_count t + 1 = length (leaves t) * 2" by (induction t) simp_all
  then show ?thesis by simp
qed

text \<open>So what the writer makes of a well-formed layout passes the check.\<close>

lemma validate_written_layout:
  assumes live: "distinct (leaves t)" "ratios_ok t" "layout_height t \<le> MAX_SNAPSHOT_LAYOUT_DEPTH"
    and small: "length (leaves t) \<le> MAX_SNAPSHOT_PANES"
  obtains ls where "from_layout t = Some ls" and "restore_layout ls = Some t"
    and "validate_layout_snapshot ls (set (leaves t)) = Inr ()"
    and "length (ls_nodes ls) = length (leaves t) * 2 - 1"
proof -
  have "node_count t \<le> 2 ^ 32" using small by (simp add: node_count_leaves snapshot_limits)
  then obtain nodes where ls: "from_layout t = Some \<lparr>ls_root = 0, ls_nodes = nodes\<rparr>"
    and tree: "tree_at nodes 0 t" and len: "length nodes = node_count t"
    and ix: "set (indices nodes 0 t) = {0..<length nodes}" "distinct (indices nodes 0 t)"
    by (rule from_layout_nodes)
  obtain n where pos: "length (leaves t) = Suc n" by (cases "length (leaves t)") auto
  have card: "card (set (leaves t)) = length (leaves t)" by (rule distinct_card [OF live(1)])
  have "walk_layout nodes [(0, 1, False)] (\<lambda>_. 0) {}
      = walk_layout nodes [] (visited (indices nodes 0 t) (\<lambda>_. 0)) ({} \<union> set (leaves t))"
    by (rule walk_layout_accepts [OF tree]) (use live ix in auto)
  moreover have "\<not> list_ex (\<lambda>i. visited (indices nodes 0 t) (\<lambda>_. 0) i = 0) [0..<length nodes]"
    by (auto simp: list_ex_iff visited_def ix(1))
  ultimately have "validate_layout_snapshot \<lparr>ls_root = 0, ls_nodes = nodes\<rparr> (set (leaves t)) = Inr ()"
    using pos small len
    by (simp add: validate_layout_snapshot_def card node_count_leaves snapshot_limits usize_max_def)
  with that [OF ls] tree_at_restore [OF tree] len show thesis
    by (simp add: restore_layout_def node_count_leaves)
qed

text \<open>And what passes the check is a layout within the depth limit.\<close>

lemma validated_layout_restores:
  assumes "validate_layout_snapshot ls expected = Inr u"
  obtains t where "restore_layout ls = Some t" and "layout_height t \<le> MAX_SNAPSHOT_LAYOUT_DEPTH"
proof -
  from assms obtain states panes where
    "walk_layout (ls_nodes ls) [(unat (ls_root ls), 1, False)] (\<lambda>_. 0) {} = Inr (states, panes)"
    by (auto simp: validate_layout_snapshot_def Let_def split: if_splits)
  from walk_layout_trees [OF this] obtain t where "tree_at (ls_nodes ls) (unat (ls_root ls)) t"
    and "1 + layout_height t \<le> MAX_SNAPSHOT_LAYOUT_DEPTH + 1" by (auto simp: entry_tree_def)
  with that [of t] tree_at_restore show thesis by (simp add: restore_layout_def)
qed

end
