(* ===== verification/Session_Validate.thy ===== *)
theory Session_Validate
  imports Session_Snapshot
begin

text \<open>
  What the checks of a restored Session accept: \<open>session_validate\<close> succeeds exactly on the
  well-formed Sessions, answering the largest id. From it, restoring cannot panic, restores only
  Sessions that satisfy the invariant, and undoes saving.
\<close>

section \<open>What each check accepts\<close>

definition max_ids :: "u64 list \<Rightarrow> u64 \<Rightarrow> u64" where
  "max_ids is m = fold (\<lambda>i m. max m i) is m"

lemma max_ids_simps [simp]:
  "max_ids [] m = m" "max_ids (i # is) m = max_ids is (max m i)"
  "max_ids (is @ js) m = max_ids js (max_ids is m)"
  by (simp_all add: max_ids_def)

lemma max_ids_ge: "m \<le> max_ids is m" "i \<in> set is \<Longrightarrow> i \<le> max_ids is m"
proof (induction "is" arbitrary: m)
  case (Cons j js)
  {
    case 1
    show ?case using Cons.IH(1) [of "max m j"] by simp
  next
    case 2
    then show ?case using Cons.IH(1) [of "max m j"] Cons.IH(2) [of "max m j"] by auto
  }
qed simp_all

lemma max_ids_in: "max_ids is m \<in> insert m (set is)"
proof (induction "is" arbitrary: m)
  case (Cons j js)
  from Cons [of "max m j"] show ?case by (auto simp: max_def split: if_splits)
qed simp

lemma validate_id_Inr: "validate_id i m = Inr m' \<longleftrightarrow> valid_id i \<and> m' = max m i"
  by (auto simp: validate_id_def valid_id_def)

lemma validate_layout_Inr:
  "validate_layout t panes = Inr panes' \<longleftrightarrow> distinct (leaves t) \<and> set (leaves t) \<inter> panes = {}
     \<and> ratios_ok t \<and> panes' = panes \<union> set (leaves t)"
  by (induction t arbitrary: panes panes') auto

lemma bad_history_iff:
  "bad_history focused panes is seen \<longleftrightarrow>
     \<not> (distinct is \<and> set is \<subseteq> panes - {focused} \<and> set is \<inter> seen = {})"
  by (induction "is" arbitrary: seen) auto

definition after_pane :: "pane \<Rightarrow> pane_id set \<times> pane_id set \<times> u64 \<Rightarrow> pane_id set \<times> pane_id set \<times> u64" where
  "after_pane p = (\<lambda>(P, T, m). (insert (p_id p) P, insert (p_id p) T, max m (pane_u64 (p_id p))))"

definition pane_accepted :: "pane \<Rightarrow> pane_id set \<times> pane_id set \<times> u64 \<Rightarrow> bool" where
  "pane_accepted p = (\<lambda>(P, T, m). wf_pane p \<and> p_id p \<notin> P \<and> p_id p \<notin> T)"

lemma validate_pane_Inr: "validate_pane p st = Inr st' \<longleftrightarrow> pane_accepted p st \<and> st' = after_pane p st"
  by (cases st) (auto simp: validate_pane_def validate_id_Inr wf_pane_def pane_accepted_def
      after_pane_def split: option.splits)

lemma panes_accepted:
  "all_ok pane_accepted after_pane ps (P, T, m) \<longleftrightarrow>
     (\<forall>p \<in> set ps. wf_pane p) \<and> distinct (map p_id ps) \<and> set (map p_id ps) \<inter> (P \<union> T) = {}"
  by (induction ps arbitrary: P T m) (auto simp: pane_accepted_def after_pane_def)

lemma after_panes:
  "fold after_pane ps (P, T, m) = (P \<union> set (map p_id ps), T \<union> set (map p_id ps),
     max_ids (map (pane_u64 \<circ> p_id) ps) m)"
  by (induction ps arbitrary: P T m) (auto simp: after_pane_def)

lemmas validate_panes_Inr = fold_ok_Inr [of validate_pane, OF validate_pane_Inr]

lemma validate_terminals_Inr:
  "validate_terminals tm P m = Inr (P', m') \<longleftrightarrow>
     wf_terminals tm \<and> set (pane_ids_of tm) \<inter> P = {} \<and> P' = P \<union> set (pane_ids_of tm)
     \<and> m' = max_ids (map (pane_u64 \<circ> p_id) (tl_panes tm)) m"
  by (auto simp: validate_terminals_def validate_panes_Inr panes_accepted after_panes bad_history_iff validate_layout_Inr
      wf_terminals_def split: if_splits)

definition tab_u64s :: "tab \<Rightarrow> u64 list" where
  "tab_u64s t = tab_u64 (t_id t) # map pane_u64 (tab_pane_ids t)"

definition tab_accepted :: "relpath_api \<Rightarrow> tab \<Rightarrow> bool" where
  "tab_accepted rp t \<longleftrightarrow> valid_id (tab_u64 (t_id t))
     \<and> (case t_content t of
          Terminals tm \<Rightarrow> wf_terminals tm
        | Diff p \<Rightarrow> valid_diff_path rp p
        | File p \<Rightarrow> valid_diff_path rp p)"

definition after_tab :: "tab \<Rightarrow> validation \<Rightarrow> validation" where
  "after_tab t v = \<lparr>v_tabs = insert (t_id t) (v_tabs v),
     v_panes = v_panes v \<union> set (tab_pane_ids t), v_max = max_ids (tab_u64s t) (v_max v),
     v_diffs = v_diffs v + length (diff_tabs [t]), v_files = v_files v + length (file_tabs [t])\<rparr>"

definition tab_fits :: "relpath_api \<Rightarrow> tab \<Rightarrow> validation \<Rightarrow> bool" where
  "tab_fits rp t v \<longleftrightarrow> tab_accepted rp t \<and> t_id t \<notin> v_tabs v
     \<and> set (tab_pane_ids t) \<inter> v_panes v = {}
     \<and> (diff_tabs [t] \<noteq> [] \<longrightarrow> v_diffs v = 0) \<and> (file_tabs [t] \<noteq> [] \<longrightarrow> v_files v = 0)"

lemma validate_tab_Inr: "validate_tab rp t v = Inr v' \<longleftrightarrow> tab_fits rp t v \<and> v' = after_tab t v"
proof (cases "t_content t")
  case (Terminals tm)
  then have "tab_pane_ids t = pane_ids_of tm" "tab_diff t = None" "tab_file t = None"
    by (simp_all add: tab_pane_ids_def tab_panes_def tab_terminals_def tab_diff_def tab_file_def)
  with Terminals show ?thesis
    by (cases v) (auto simp: validate_tab_def validate_id_Inr validate_terminals_Inr tab_accepted_def
        tab_fits_def after_tab_def tab_u64s_def diff_tabs_def file_tabs_def Let_def)
next
  case (Diff p)
  then have "tab_pane_ids t = []" "tab_diff t = Some p" "tab_file t = None"
    by (simp_all add: tab_pane_ids_def tab_panes_def tab_terminals_def tab_diff_def tab_file_def)
  with Diff show ?thesis
    by (cases v) (auto simp: validate_tab_def validate_id_Inr tab_accepted_def
        tab_fits_def after_tab_def tab_u64s_def diff_tabs_def file_tabs_def Let_def split: if_splits)
next
  case (File p)
  then have "tab_pane_ids t = []" "tab_diff t = None" "tab_file t = Some p"
    by (simp_all add: tab_pane_ids_def tab_panes_def tab_terminals_def tab_diff_def tab_file_def)
  with File show ?thesis
    by (cases v) (auto simp: validate_tab_def validate_id_Inr tab_accepted_def
        tab_fits_def after_tab_def tab_u64s_def diff_tabs_def file_tabs_def Let_def split: if_splits)
qed

definition tabs_u64s :: "tab list \<Rightarrow> u64 list" where
  "tabs_u64s ts = concat (map tab_u64s ts)"

lemma diff_tabs_Cons: "diff_tabs (t # ts) = diff_tabs [t] @ diff_tabs ts"
  "file_tabs (t # ts) = file_tabs [t] @ file_tabs ts"
  by (simp_all add: diff_tabs_def file_tabs_def)

lemma tab_accepted_distinct: "tab_accepted rp t \<Longrightarrow> distinct (tab_pane_ids t)"
  by (cases "t_content t") (simp_all add: tab_accepted_def tab_pane_ids_def tab_panes_def
      tab_terminals_def wf_terminals_def)

lemma length_one_kind [simp]: "length (diff_tabs [t]) \<le> 1" "length (file_tabs [t]) \<le> 1"
  by (simp_all add: diff_tabs_def file_tabs_def)

definition tabs_fit :: "relpath_api \<Rightarrow> tab list \<Rightarrow> validation \<Rightarrow> bool" where
  "tabs_fit rp ts v \<longleftrightarrow> (\<forall>t \<in> set ts. tab_accepted rp t)
     \<and> (distinct (map t_id ts) \<and> set (map t_id ts) \<inter> v_tabs v = {})
     \<and> (distinct (concat (map tab_pane_ids ts)) \<and> set (concat (map tab_pane_ids ts)) \<inter> v_panes v = {})
     \<and> (diff_tabs ts \<noteq> [] \<longrightarrow> v_diffs v + length (diff_tabs ts) \<le> 1)
     \<and> (file_tabs ts \<noteq> [] \<longrightarrow> v_files v + length (file_tabs ts) \<le> 1)"

lemma kinds_Cons:
  fixes xs ys :: "'a list" and n :: nat
  assumes "length xs \<le> 1"
  shows "(xs \<noteq> [] \<longrightarrow> n = 0) \<and> (ys \<noteq> [] \<longrightarrow> n + length xs + length ys \<le> 1) \<longleftrightarrow>
    (xs @ ys \<noteq> [] \<longrightarrow> n + length (xs @ ys) \<le> 1)"
  using assms by (cases xs; cases ys) auto

lemma disjoint_Cons:
  "x \<notin> A \<and> distinct xs \<and> set xs \<inter> insert x A = {} \<longleftrightarrow> distinct (x # xs) \<and> set (x # xs) \<inter> A = {}"
  by auto

lemma disjoint_append:
  "distinct ys \<Longrightarrow> set ys \<inter> A = {} \<and> distinct xs \<and> set xs \<inter> (A \<union> set ys) = {} \<longleftrightarrow>
     distinct (ys @ xs) \<and> set (ys @ xs) \<inter> A = {}"
  by auto

lemma tabs_fit_Cons:
  "tabs_fit rp (t # ts) v \<longleftrightarrow> tab_fits rp t v \<and> tabs_fit rp ts (after_tab t v)"
proof (cases "tab_accepted rp t")
  case True
  have ids: "t_id t \<notin> v_tabs v \<and> distinct (map t_id ts) \<and> set (map t_id ts) \<inter> v_tabs (after_tab t v) = {}
      \<longleftrightarrow> distinct (map t_id (t # ts)) \<and> set (map t_id (t # ts)) \<inter> v_tabs v = {}"
    using disjoint_Cons [of "t_id t" "v_tabs v" "map t_id ts"] by (simp only: after_tab_def
        validation.simps list.map)
  have panes: "set (tab_pane_ids t) \<inter> v_panes v = {} \<and> distinct (concat (map tab_pane_ids ts))
        \<and> set (concat (map tab_pane_ids ts)) \<inter> v_panes (after_tab t v) = {}
      \<longleftrightarrow> distinct (concat (map tab_pane_ids (t # ts))) \<and> set (concat (map tab_pane_ids (t # ts))) \<inter> v_panes v = {}"
    using disjoint_append [OF tab_accepted_distinct [OF True], of "v_panes v" "concat (map tab_pane_ids ts)"]
    by (simp only: after_tab_def validation.simps list.map concat.simps)
  have diffs: "(diff_tabs [t] \<noteq> [] \<longrightarrow> v_diffs v = 0)
        \<and> (diff_tabs ts \<noteq> [] \<longrightarrow> v_diffs (after_tab t v) + length (diff_tabs ts) \<le> 1)
      \<longleftrightarrow> (diff_tabs (t # ts) \<noteq> [] \<longrightarrow> v_diffs v + length (diff_tabs (t # ts)) \<le> 1)"
    unfolding diff_tabs_Cons [of t ts]
    using kinds_Cons [OF length_one_kind(1) [of t], of "v_diffs v" "diff_tabs ts"]
    by (simp only: after_tab_def validation.simps)
  have files: "(file_tabs [t] \<noteq> [] \<longrightarrow> v_files v = 0)
        \<and> (file_tabs ts \<noteq> [] \<longrightarrow> v_files (after_tab t v) + length (file_tabs ts) \<le> 1)
      \<longleftrightarrow> (file_tabs (t # ts) \<noteq> [] \<longrightarrow> v_files v + length (file_tabs (t # ts)) \<le> 1)"
    unfolding diff_tabs_Cons [of t ts]
    using kinds_Cons [OF length_one_kind(2) [of t], of "v_files v" "file_tabs ts"]
    by (simp only: after_tab_def validation.simps)
  show ?thesis
    unfolding tabs_fit_def tab_fits_def ids [symmetric] panes [symmetric] diffs [symmetric]
      files [symmetric] using True by (simp only: list.set ball_simps) blast
qed (simp add: tabs_fit_def tab_fits_def)

lemma tabs_fit_all_ok: "all_ok (tab_fits rp) after_tab ts v \<longleftrightarrow> tabs_fit rp ts v"
proof (induction ts arbitrary: v)
  case Nil
  then show ?case by (simp add: tabs_fit_def diff_tabs_def file_tabs_def)
qed (simp only: all_ok.simps tabs_fit_Cons)

lemma after_tabs:
  "fold after_tab ts v = \<lparr>v_tabs = v_tabs v \<union> set (map t_id ts),
     v_panes = v_panes v \<union> set (concat (map tab_pane_ids ts)),
     v_max = max_ids (tabs_u64s ts) (v_max v),
     v_diffs = v_diffs v + length (diff_tabs ts), v_files = v_files v + length (file_tabs ts)\<rparr>"
proof (induction ts arbitrary: v)
  case (Cons t ts)
  show ?case unfolding fold.simps comp_def Cons diff_tabs_Cons [of t ts]
    by (auto simp: after_tab_def tabs_u64s_def)
qed (auto simp: tabs_u64s_def diff_tabs_def file_tabs_def)

lemmas validate_tabs_Inr = fold_ok_Inr [of "validate_tab rp" for rp, OF validate_tab_Inr]

definition parent_u64s :: "workspace \<Rightarrow> u64 list" where
  "parent_u64s w = (case w_worktree w of None \<Rightarrow> [] | Some a \<Rightarrow> [workspace_u64 (wt_parent_id a)])"

definition workspace_u64s :: "workspace \<Rightarrow> u64 list" where
  "workspace_u64s w = workspace_u64 (w_id w) # parent_u64s w @ tabs_u64s (w_tabs w)"

definition workspace_accepted :: "relpath_api \<Rightarrow> workspace \<Rightarrow> bool" where
  "workspace_accepted rp w \<longleftrightarrow> valid_id (workspace_u64 (w_id w)) \<and> w_name w \<noteq> [] \<and> w_tabs w \<noteq> []
     \<and> (\<forall>a. w_worktree w = Some a \<longrightarrow> wf_worktree (w_id w) a)
     \<and> length (diff_tabs (w_tabs w)) \<le> 1 \<and> length (file_tabs (w_tabs w)) \<le> 1
     \<and> (\<forall>t \<in> set (w_tabs w). tab_accepted rp t)"

definition workspace_fits :: "relpath_api \<Rightarrow> workspace \<Rightarrow> workspace_id set \<times> validation \<Rightarrow> bool" where
  "workspace_fits rp w = (\<lambda>(W, v). workspace_accepted rp w \<and> w_id w \<notin> W
     \<and> (distinct (workspace_tab_ids w) \<and> set (workspace_tab_ids w) \<inter> v_tabs v = {})
     \<and> (distinct (workspace_pane_ids w) \<and> set (workspace_pane_ids w) \<inter> v_panes v = {}))"

definition after_workspace :: "workspace \<Rightarrow> workspace_id set \<times> validation \<Rightarrow> workspace_id set \<times> validation" where
  "after_workspace w = (\<lambda>(W, v). (insert (w_id w) W,
     \<lparr>v_tabs = v_tabs v \<union> set (workspace_tab_ids w), v_panes = v_panes v \<union> set (workspace_pane_ids w),
      v_max = max_ids (workspace_u64s w) (v_max v),
      v_diffs = length (diff_tabs (w_tabs w)), v_files = length (file_tabs (w_tabs w))\<rparr>))"

lemma validate_workspace_Inr:
  "validate_workspace rp w st = Inr st' \<longleftrightarrow> workspace_fits rp w st \<and> st' = after_workspace w st"
proof -
  obtain W v where st: "st = (W, v)" by (cases st)
  let ?v = "v\<lparr>v_max := max_ids (workspace_u64 (w_id w) # parent_u64s w) (v_max v), v_diffs := 0, v_files := 0\<rparr>"
  have tree: "(case w_worktree w of None \<Rightarrow> Inr max_id
          | Some a \<Rightarrow> bind_ok (validate_id (workspace_u64 (wt_parent_id a)) max_id) (\<lambda>max_id.
                if wt_parent_id a = w_id w \<or> wt_parent_root a = []
                then Inl (Invalid ''invalid Worktree association'') else Inr max_id)) = Inr m \<longleftrightarrow>
      (\<forall>a. w_worktree w = Some a \<longrightarrow> wf_worktree (w_id w) a) \<and> m = max_ids (parent_u64s w) max_id"
    for max_id m
    by (auto simp: validate_id_Inr wf_worktree_def parent_u64s_def split: option.splits)
  have "validate_workspace rp w st = Inr st' \<longleftrightarrow> valid_id (workspace_u64 (w_id w)) \<and> w_id w \<notin> W
      \<and> w_name w \<noteq> [] \<and> w_tabs w \<noteq> [] \<and> (\<forall>a. w_worktree w = Some a \<longrightarrow> wf_worktree (w_id w) a)
      \<and> tabs_fit rp (w_tabs w) ?v \<and> st' = (insert (w_id w) W, fold after_tab (w_tabs w) ?v)"
    by (auto simp: validate_workspace_def st validate_id_Inr tree validate_tabs_Inr tabs_fit_all_ok
        split: if_splits)
  moreover have "tabs_fit rp (w_tabs w) ?v \<longleftrightarrow> (\<forall>t \<in> set (w_tabs w). tab_accepted rp t)
      \<and> (distinct (workspace_tab_ids w) \<and> set (workspace_tab_ids w) \<inter> v_tabs v = {})
      \<and> (distinct (workspace_pane_ids w) \<and> set (workspace_pane_ids w) \<inter> v_panes v = {})
      \<and> length (diff_tabs (w_tabs w)) \<le> 1 \<and> length (file_tabs (w_tabs w)) \<le> 1"
    by (auto simp: tabs_fit_def workspace_tab_ids_def workspace_pane_ids_def simp del: set_concat)
  moreover have "(insert (w_id w) W, fold after_tab (w_tabs w) ?v) = after_workspace w st"
    by (simp add: after_tabs after_workspace_def st workspace_tab_ids_def workspace_pane_ids_def
        workspace_u64s_def)
  ultimately show ?thesis
    by (simp add: workspace_fits_def st workspace_accepted_def) blast
qed

definition workspaces_fit :: "relpath_api \<Rightarrow> workspace list \<Rightarrow> workspace_id set \<times> validation \<Rightarrow> bool" where
  "workspaces_fit rp ws = (\<lambda>(W, v). (\<forall>w \<in> set ws. workspace_accepted rp w)
     \<and> (distinct (map w_id ws) \<and> set (map w_id ws) \<inter> W = {})
     \<and> (distinct (concat (map workspace_tab_ids ws))
        \<and> set (concat (map workspace_tab_ids ws)) \<inter> v_tabs v = {})
     \<and> (distinct (concat (map workspace_pane_ids ws))
        \<and> set (concat (map workspace_pane_ids ws)) \<inter> v_panes v = {}))"

lemma disjoint_append2:
  "(distinct ys \<and> set ys \<inter> A = {}) \<and> (distinct xs \<and> set xs \<inter> (A \<union> set ys) = {}) \<longleftrightarrow>
     distinct (ys @ xs) \<and> set (ys @ xs) \<inter> A = {}"
  by auto

lemma workspaces_fit_Cons:
  "workspaces_fit rp (w # ws) (W, v) \<longleftrightarrow>
     workspace_fits rp w (W, v) \<and> workspaces_fit rp ws (after_workspace w (W, v))"
  using disjoint_Cons [of "w_id w" W "map w_id ws"]
    disjoint_append2 [of "workspace_tab_ids w" "v_tabs v" "concat (map workspace_tab_ids ws)"]
    disjoint_append2 [of "workspace_pane_ids w" "v_panes v" "concat (map workspace_pane_ids ws)"]
  by (simp only: workspaces_fit_def workspace_fits_def after_workspace_def case_prod_conv
      validation.simps list.map concat.simps list.set ball_simps) blast

lemma workspaces_fit_all_ok: "all_ok (workspace_fits rp) after_workspace ws st \<longleftrightarrow> workspaces_fit rp ws st"
proof (induction ws arbitrary: st)
  case (Cons w ws)
  then show ?case by (cases st) (simp only: all_ok.simps workspaces_fit_Cons)
qed (simp add: workspaces_fit_def split: prod.splits)

lemma after_workspaces_max:
  "v_max (snd (fold after_workspace ws st)) = max_ids (concat (map workspace_u64s ws)) (v_max (snd st))"
  by (induction ws arbitrary: st) (auto simp: after_workspace_def)

lemmas validate_workspaces_Inr = fold_ok_Inr [of "validate_workspace rp" for rp, OF validate_workspace_Inr]

text \<open>A Session \<open>validate\<close> accepts: well-formed, whatever its zoom and the height of its trees.\<close>

definition session_accepted :: "relpath_api \<Rightarrow> session \<Rightarrow> bool" where
  "session_accepted rp s \<longleftrightarrow>
     distinct (session_workspace_ids s) \<and> distinct (session_tab_ids s) \<and> distinct (session_pane_ids s)
     \<and> (\<forall>w \<in> set (workspaces s). workspace_accepted rp w)"

definition session_u64s :: "session \<Rightarrow> u64 list" where
  "session_u64s s = concat (map workspace_u64s (workspaces s))"

lemma session_validate_Inr:
  "session_validate rp s = Inr m \<longleftrightarrow> session_accepted rp s \<and> m = max_ids (session_u64s s) 0"
proof -
  let ?v = "\<lparr>v_tabs = {}, v_panes = {}, v_max = 0, v_diffs = 0, v_files = 0\<rparr>"
  have "session_validate rp s = Inr m \<longleftrightarrow> workspaces_fit rp (workspaces s) ({}, ?v)
      \<and> m = v_max (snd (fold after_workspace (workspaces s) ({}, ?v)))"
    by (auto simp: session_validate_def validate_workspaces_Inr workspaces_fit_all_ok split: prod.splits)
  then show ?thesis
    by (auto simp: after_workspaces_max workspaces_fit_def session_accepted_def session_u64s_def
        session_workspace_ids_def session_tab_ids_concat session_pane_ids_concat simp del: set_concat)
qed

section \<open>The resource limits\<close>

definition snap_panes :: "tab_snapshot \<Rightarrow> nat" where
  "snap_panes t = (case ts_content t of TerminalsSnapshot ps _ _ _ \<Rightarrow> length ps | _ \<Rightarrow> 0)"

definition snap_nodes :: "tab_snapshot \<Rightarrow> nat" where
  "snap_nodes t = (case ts_content t of TerminalsSnapshot _ _ _ l \<Rightarrow> length (ls_nodes l) | _ \<Rightarrow> 0)"

definition tab_counts_fit :: "tab_snapshot \<Rightarrow> nat \<times> nat \<Rightarrow> bool" where
  "tab_counts_fit t totals \<longleftrightarrow> (case ts_content t of
     TerminalsSnapshot _ _ _ _ \<Rightarrow> fst totals + snap_panes t \<le> MAX_SNAPSHOT_PANES
       \<and> snd totals + snap_nodes t \<le> MAX_SNAPSHOT_LAYOUT_NODES
   | _ \<Rightarrow> True)"

definition after_tab_counts :: "tab_snapshot \<Rightarrow> nat \<times> nat \<Rightarrow> nat \<times> nat" where
  "after_tab_counts t totals = (fst totals + snap_panes t, snd totals + snap_nodes t)"

lemma limits_fit_usize: "MAX_SNAPSHOT_PANES \<le> usize_max"
  "MAX_SNAPSHOT_LAYOUT_NODES \<le> usize_max" "MAX_SNAPSHOT_TABS \<le> usize_max"
  by (simp_all add: snapshot_limits usize_max_def)

lemma count_tab_Inr:
  "count_tab t totals = Inr totals' \<longleftrightarrow> tab_counts_fit t totals \<and> totals' = after_tab_counts t totals"
proof (cases "ts_content t")
  case (TerminalsSnapshot ps f h l)
  have "checked_add_usize a b = (if a + b \<le> usize_max then Some (a + b) else None)" for a b
    by (simp add: checked_add_usize_def)
  with TerminalsSnapshot limits_fit_usize show ?thesis
    by (auto simp: count_tab_def tab_counts_fit_def after_tab_counts_def snap_panes_def
        snap_nodes_def)
qed (cases totals; auto simp: count_tab_def tab_counts_fit_def after_tab_counts_def snap_panes_def
    snap_nodes_def)+

definition tabs_panes :: "tab_snapshot list \<Rightarrow> nat" where
  "tabs_panes ts = sum_list (map snap_panes ts)"

definition tabs_nodes :: "tab_snapshot list \<Rightarrow> nat" where
  "tabs_nodes ts = sum_list (map snap_nodes ts)"

lemma after_tabs_counts: "fold after_tab_counts ts (p, n) = (p + tabs_panes ts, n + tabs_nodes ts)"
  by (induction ts arbitrary: p n) (simp_all add: after_tab_counts_def tabs_panes_def tabs_nodes_def)

text \<open>The totals only grow, so all the checks pass exactly when the last totals fit.\<close>

lemma tab_counts_all_ok:
  "p \<le> MAX_SNAPSHOT_PANES \<Longrightarrow> n \<le> MAX_SNAPSHOT_LAYOUT_NODES \<Longrightarrow>
     all_ok tab_counts_fit after_tab_counts ts (p, n) \<longleftrightarrow>
       p + tabs_panes ts \<le> MAX_SNAPSHOT_PANES \<and> n + tabs_nodes ts \<le> MAX_SNAPSHOT_LAYOUT_NODES"
proof (induction ts arbitrary: p n)
  case (Cons t ts)
  have fit: "tab_counts_fit t (p, n) \<longleftrightarrow>
      p + snap_panes t \<le> MAX_SNAPSHOT_PANES \<and> n + snap_nodes t \<le> MAX_SNAPSHOT_LAYOUT_NODES"
    using Cons.prems
    by (cases "ts_content t") (simp_all add: tab_counts_fit_def snap_panes_def snap_nodes_def)
  show ?case
  proof (cases "tab_counts_fit t (p, n)")
    case True
    with fit Cons.IH [of "p + snap_panes t" "n + snap_nodes t"] show ?thesis
      by (simp add: after_tab_counts_def tabs_panes_def tabs_nodes_def add.assoc)
  next
    case False
    with fit show ?thesis by (auto simp: tabs_panes_def tabs_nodes_def)
  qed
qed (simp add: tabs_panes_def tabs_nodes_def)

definition workspace_counts_fit :: "workspace_snapshot \<Rightarrow> nat \<times> nat \<times> nat \<Rightarrow> bool" where
  "workspace_counts_fit w totals \<longleftrightarrow> fst totals + length (ws_tabs w) \<le> MAX_SNAPSHOT_TABS
     \<and> all_ok tab_counts_fit after_tab_counts (ws_tabs w) (snd totals)"

definition after_workspace_counts :: "workspace_snapshot \<Rightarrow> nat \<times> nat \<times> nat \<Rightarrow> nat \<times> nat \<times> nat" where
  "after_workspace_counts w totals =
     (fst totals + length (ws_tabs w), fold after_tab_counts (ws_tabs w) (snd totals))"

lemma count_workspace_Inr:
  "count_workspace w totals = Inr totals' \<longleftrightarrow>
     workspace_counts_fit w totals \<and> totals' = after_workspace_counts w totals"
  using limits_fit_usize(3)
  by (auto simp: count_workspace_def workspace_counts_fit_def after_workspace_counts_def
      fold_ok_Inr [OF count_tab_Inr] split: option.splits)

definition snapshot_tabs :: "session_snapshot \<Rightarrow> tab_snapshot list" where
  "snapshot_tabs snap = concat (map ws_tabs (ss_workspaces snap))"

lemma tabs_counts_append [simp]:
  "tabs_panes (xs @ ys) = tabs_panes xs + tabs_panes ys" "tabs_nodes (xs @ ys) = tabs_nodes xs + tabs_nodes ys"
  "tabs_panes [] = 0" "tabs_nodes [] = 0"
  by (simp_all add: tabs_panes_def tabs_nodes_def)

lemma workspace_counts_all_ok:
  "t \<le> MAX_SNAPSHOT_TABS \<Longrightarrow> p \<le> MAX_SNAPSHOT_PANES \<Longrightarrow> n \<le> MAX_SNAPSHOT_LAYOUT_NODES \<Longrightarrow>
     all_ok workspace_counts_fit after_workspace_counts ws (t, p, n) \<longleftrightarrow>
       t + length (concat (map ws_tabs ws)) \<le> MAX_SNAPSHOT_TABS
       \<and> p + tabs_panes (concat (map ws_tabs ws)) \<le> MAX_SNAPSHOT_PANES
       \<and> n + tabs_nodes (concat (map ws_tabs ws)) \<le> MAX_SNAPSHOT_LAYOUT_NODES"
proof (induction ws arbitrary: t p n)
  case (Cons w ws)
  note fit = tab_counts_all_ok [OF Cons.prems(2,3), of "ws_tabs w"]
  show ?case
  proof (cases "workspace_counts_fit w (t, p, n)")
    case True
    with fit Cons.IH [of "t + length (ws_tabs w)" "p + tabs_panes (ws_tabs w)" "n + tabs_nodes (ws_tabs w)"]
    show ?thesis
      by (simp add: after_workspace_counts_def after_tabs_counts workspace_counts_fit_def add.assoc)
  next
    case False
    with fit show ?thesis by (auto simp: workspace_counts_fit_def)
  qed
qed simp

lemma fold_ok_unit: "fold_ok f xs () = Inr () \<longleftrightarrow> (\<forall>x \<in> set xs. f x () = Inr ())"
  by (induction xs) auto

lemma validate_resources_Inr:
  "validate_snapshot_resources snap = Inr () \<longleftrightarrow>
     length (ss_workspaces snap) \<le> MAX_SNAPSHOT_WORKSPACES
     \<and> length (snapshot_tabs snap) \<le> MAX_SNAPSHOT_TABS
     \<and> tabs_panes (snapshot_tabs snap) \<le> MAX_SNAPSHOT_PANES
     \<and> tabs_nodes (snapshot_tabs snap) \<le> MAX_SNAPSHOT_LAYOUT_NODES
     \<and> (\<forall>t \<in> set (snapshot_tabs snap). check_tab_layout t () = Inr ())"
  by (auto simp: validate_snapshot_resources_def fold_ok_Inr [OF count_workspace_Inr]
      workspace_counts_all_ok fold_ok_unit snapshot_tabs_def)

end
