(* ===== verification/Session_Restore.thy ===== *)
theory Session_Restore
  imports Session_Validate Session_Properties
begin

text \<open>
  The promises of saving and restoring: no Snapshot makes \<open>restore\<close> panic or loop, what it
  restores satisfies the Session invariant, and restoring a saved Session gives it back.
\<close>

section \<open>Restoring is safe\<close>

lemma checked_tab_restores:
  assumes "check_tab_layout t () = Inr ()"
  shows "restore_tab t \<noteq> None"
proof (cases "ts_content t")
  case (TerminalsSnapshot panes focused history layout)
  with assms have "validate_layout_snapshot layout (set (map ps_id panes)) = Inr ()"
    by (auto simp: check_tab_layout_def split: if_splits)
  then obtain l where "restore_layout layout = Some l" by (rule validated_layout_restores)
  with TerminalsSnapshot show ?thesis by (simp add: restore_tab_def)
qed (simp_all add: restore_tab_def)

lemma checked_workspaces_restore:
  assumes "validate_snapshot_resources snap = Inr ()"
  shows "those (map restore_workspace (ss_workspaces snap)) \<noteq> None"
proof (rule those_map_total)
  fix w assume "w \<in> set (ss_workspaces snap)"
  with assms have "\<forall>t \<in> set (ws_tabs w). check_tab_layout t () = Inr ()"
    by (auto simp: validate_resources_Inr snapshot_tabs_def)
  then have "those (map restore_tab (ws_tabs w)) \<noteq> None"
    by (intro those_map_total checked_tab_restores) auto
  then show "restore_workspace w \<noteq> None" by (simp add: restore_workspace_def)
qed

text \<open>C11: no Snapshot, however corrupt, makes \<open>restore\<close> panic or recurse for ever: it answers the
  Session or an error.\<close>

theorem session_restore_total: "session_restore rp snap nxt \<noteq> None"
proof (cases "validate_snapshot_resources snap")
  case (Inr u)
  then have "validate_snapshot_resources snap = Inr ()" by simp
  from checked_workspaces_restore [OF this] Inr show ?thesis
    by (auto simp: session_restore_def Let_def)
qed (simp add: session_restore_def)

text \<open>What a restored Tab inherits from the checks on its snapshot.\<close>

lemma restored_tab:
  assumes "check_tab_layout t () = Inr ()" and "restore_tab t = Some t'"
  shows "length (tab_panes t') = snap_panes t"
    and "t_content t' = Terminals tm \<Longrightarrow>
           layout_height (tl_layout tm) \<le> MAX_SNAPSHOT_LAYOUT_DEPTH \<and> tl_zoomed tm = None"
proof -
  show "length (tab_panes t') = snap_panes t"
    using assms(2)
    by (cases "ts_content t") (auto simp: restore_tab_def tab_panes_def tab_terminals_def snap_panes_def)
  assume tm: "t_content t' = Terminals tm"
  show "layout_height (tl_layout tm) \<le> MAX_SNAPSHOT_LAYOUT_DEPTH \<and> tl_zoomed tm = None"
  proof (cases "ts_content t")
    case (TerminalsSnapshot panes focused history layout)
    with assms(1) have "validate_layout_snapshot layout (set (map ps_id panes)) = Inr ()"
      by (auto simp: check_tab_layout_def split: if_splits)
    then obtain l where "restore_layout layout = Some l" "layout_height l \<le> MAX_SNAPSHOT_LAYOUT_DEPTH"
      by (rule validated_layout_restores)
    with TerminalsSnapshot assms(2) tm show ?thesis by (auto simp: restore_tab_def)
  qed (use assms(2) tm in \<open>auto simp: restore_tab_def\<close>)
qed

lemma accepted_live:
  assumes "tab_accepted rp t" and "\<And>tm. t_content t = Terminals tm \<Longrightarrow>
      layout_height (tl_layout tm) \<le> MAX_SNAPSHOT_LAYOUT_DEPTH
      \<and> (\<forall>p. tl_zoomed tm = Some p \<longrightarrow> p \<in> set (pane_ids_of tm))"
  shows "wf_tab rp t"
  using assms by (cases "t_content t") (simp_all add: tab_accepted_def wf_tab_def live_terminals_def)

lemma wf_tab_accepted: "wf_tab rp t \<Longrightarrow> tab_accepted rp t"
  by (cases "t_content t") (simp_all add: tab_accepted_def wf_tab_def live_terminals_def)

lemma wf_workspace_accepted:
  "wf_workspace rp w \<longleftrightarrow> workspace_accepted rp w \<and> (\<forall>t \<in> set (w_tabs w). wf_tab rp t)"
  using wf_tab_accepted by (auto simp: wf_workspace_def workspace_accepted_def)

lemma restored_tabs:
  assumes "those (map restore_workspace ws) = Some ws'"
  shows "length ws' = length ws"
    and "those (map restore_tab (concat (map ws_tabs ws))) = Some (concat (map w_tabs ws'))"
proof -
  have "list_all2 (\<lambda>w w'. restore_workspace w = Some w') ws ws'"
    using assms by (simp only: those_map_Some)
  then have "length ws' = length ws
      \<and> list_all2 (\<lambda>t t'. restore_tab t = Some t') (concat (map ws_tabs ws)) (concat (map w_tabs ws'))"
  proof (induction rule: list_all2_induct)
    case (Cons w ws w' ws')
    from Cons(1) have "list_all2 (\<lambda>t t'. restore_tab t = Some t') (ws_tabs w) (w_tabs w')"
      by (auto simp: restore_workspace_def those_map_Some)
    with Cons(3) show ?case by (simp add: list_all2_appendI)
  qed simp
  then show "length ws' = length ws"
    and "those (map restore_tab (concat (map ws_tabs ws))) = Some (concat (map w_tabs ws'))"
    by (simp_all only: those_map_Some)
qed

lemma session_restore_Inr:
  assumes "session_restore rp snap nxt = Some (Inr (s, nxt'))"
  obtains m n where "validate_snapshot_resources snap = Inr ()"
    and "those (map restore_workspace (ss_workspaces snap)) = Some (workspaces s)"
    and "session_accepted rp s" and "m = max_ids (session_u64s s) 0" and "checked_add_u64 m 1 = Some n"
    and "nxt' = max nxt n"
  using assms
  by (auto simp: session_restore_def Let_def session_validate_Inr split: sum.splits option.splits)

lemma session_ids_in_u64s:
  "w \<in> set (session_workspace_ids s) \<Longrightarrow> workspace_u64 w \<in> set (session_u64s s)"
  "t \<in> set (session_tab_ids s) \<Longrightarrow> tab_u64 t \<in> set (session_u64s s)"
  "p \<in> set (session_pane_ids s) \<Longrightarrow> pane_u64 p \<in> set (session_u64s s)"
  by (auto simp: session_workspace_ids_def session_tab_ids_concat session_pane_ids_concat
      session_u64s_def workspace_u64s_def tabs_u64s_def tab_u64s_def workspace_tab_ids_def
      workspace_pane_ids_def)

lemma restored_session_inv:
  assumes ok: "validate_snapshot_resources snap = Inr ()"
    and ws: "those (map restore_workspace (ss_workspaces snap)) = Some (workspaces s)"
    and acc: "session_accepted rp s" and m: "m = max_ids (session_u64s s) 0"
    and n: "checked_add_u64 m 1 = Some n" and nxt': "nxt' = max nxt n"
  shows "session_inv rp nxt' s" and "\<forall>t \<in> set (session_tabs s). tab_zoomed_pane_id t = None"
proof -
  note limits = ok [unfolded validate_resources_Inr]
  note restored = restored_tabs [OF ws]
  have tabs: "list_all2 (\<lambda>t t'. restore_tab t = Some t') (snapshot_tabs snap) (session_tabs s)"
    using restored(2) by (simp add: those_map_Some snapshot_tabs_def session_tabs_def)
  have live: "wf_tab rp t' \<and> tab_zoomed_pane_id t' = None" if t': "t' \<in> set (session_tabs s)" for t'
  proof -
    from list_all2_origin [OF tabs t'] obtain t where t: "t \<in> set (snapshot_tabs snap)"
      and r: "restore_tab t = Some t'" by blast
    have "check_tab_layout t () = Inr ()" using limits t by blast
    note facts = restored_tab(2) [OF this r]
    have "tab_accepted rp t'"
      using acc t' by (auto simp: session_accepted_def workspace_accepted_def session_tabs_def)
    then have "wf_tab rp t'" by (rule accepted_live) (use facts in simp)
    with facts show ?thesis
      by (cases "t_content t'") (simp_all add: tab_zoomed_pane_id_def tab_terminals_def)
  qed
  then show "\<forall>t \<in> set (session_tabs s). tab_zoomed_pane_id t = None" by blast
  have "map snap_panes (snapshot_tabs snap) = map (\<lambda>t. length (tab_panes t)) (session_tabs s)"
    by (rule list_all2_map_eq [OF tabs]) (use limits restored_tab(1) in force)
  then have "pane_count s = tabs_panes (snapshot_tabs snap)" by (simp add: pane_count_def tabs_panes_def)
  moreover have "tab_count s = length (snapshot_tabs snap)"
    using list_all2_lengthD [OF tabs]
    by (simp add: tab_count_def session_tabs_def length_concat comp_def)
  ultimately have "within_limits s" using limits restored(1) by (simp add: within_limits_def)
  moreover have "wf_session rp s"
    using acc live unfolding session_accepted_def wf_session_def wf_workspace_accepted
    by (auto simp: session_tabs_def)
  moreover have "unat i < unat nxt'" if "i \<in> set (session_u64s s)" for i
  proof -
    have "unat i \<le> unat m" using max_ids_ge(2) [OF that, of 0] by (simp add: m word_le_nat_alt)
    moreover have "unat n = unat m + 1" using unat_checked_add_u64 [OF n] by simp
    moreover have "unat n \<le> unat nxt'" using nxt' by (simp add: word_le_nat_alt [symmetric])
    ultimately show ?thesis by linarith
  qed
  then have "session_ids_below s nxt'"
    using session_ids_in_u64s by (simp add: session_ids_below_def)
  moreover have "0 < unat nxt'"
  proof -
    have "unat n = unat m + 1" using unat_checked_add_u64 [OF n] by simp
    moreover have "unat n \<le> unat nxt'" using nxt' by (simp add: word_le_nat_alt [symmetric])
    ultimately show ?thesis by linarith
  qed
  ultimately show "session_inv rp nxt' s" by (simp add: session_inv_def)
qed

text \<open>C10: every Session restored from a Snapshot satisfies the invariant, zoomed nowhere, and the id
  counter lies above every id it holds, so no id is ever handed out twice.\<close>

theorem session_restore_inv:
  assumes "session_restore rp snap nxt = Some (Inr (s, nxt'))"
  shows "session_inv rp nxt' s \<and> (\<forall>t \<in> set (session_tabs s). tab_zoomed_pane_id t = None) \<and> nxt \<le> nxt'"
  using session_restore_Inr [OF assms] restored_session_inv by (metis max.cobounded1)

section \<open>Restoring undoes saving\<close>

definition unzoom_tab :: "tab \<Rightarrow> tab" where
  "unzoom_tab t = (case t_content t of
     Terminals tm \<Rightarrow> t\<lparr>t_content := Terminals (tm\<lparr>tl_zoomed := None\<rparr>)\<rparr> | _ \<Rightarrow> t)"

definition unzoomed :: "session \<Rightarrow> session" where
  "unzoomed s =
     s\<lparr>workspaces := map (\<lambda>w. w\<lparr>w_tabs := map unzoom_tab (w_tabs w)\<rparr>) (workspaces s)\<rparr>"

lemma restore_pane_of_snapshot [simp]: "restore_pane (pane_to_snapshot p) = p"
  by (simp add: restore_pane_def pane_to_snapshot_def)

lemma map_restore_panes [simp]: "map (restore_pane \<circ> pane_to_snapshot) ps = ps"
  by (simp add: comp_def)

lemma pane_to_snapshot_id [simp]: "ps_id (pane_to_snapshot p) = p_id p"
  by (simp add: pane_to_snapshot_def)

lemma tab_roundtrip:
  assumes wf: "wf_tab rp t" and small: "length (tab_panes t) \<le> MAX_SNAPSHOT_PANES"
  obtains ts where "tab_to_snapshot t = Some ts" and "restore_tab ts = Some (unzoom_tab t)"
    and "check_tab_layout ts () = Inr ()" and "snap_panes ts = length (tab_panes t)"
    and "snap_nodes ts \<le> 2 * snap_panes ts - 1"
proof (cases "t_content t")
  case (Terminals tm)
  then have live: "live_terminals tm" using wf by (simp add: wf_tab_def)
  note l = live_layout [OF live]
  have ids: "distinct (pane_ids_of tm)" using live by (simp add: live_terminals_def wf_terminals_def)
  have panes: "tab_panes t = tl_panes tm"
    using Terminals by (simp add: tab_panes_def tab_terminals_def)
  have len: "length (leaves (tl_layout tm)) = length (tl_panes tm)"
    using distinct_card [OF l(1)] distinct_card [OF ids] l(2) by simp
  with small panes have "length (leaves (tl_layout tm)) \<le> MAX_SNAPSHOT_PANES" by simp
  then obtain ls where ls: "from_layout (tl_layout tm) = Some ls" "restore_layout ls = Some (tl_layout tm)"
    "validate_layout_snapshot ls (set (leaves (tl_layout tm))) = Inr ()"
    "length (ls_nodes ls) = length (leaves (tl_layout tm)) * 2 - 1"
    using validate_written_layout [OF l(1,3,4)] by blast
  let ?ts = "\<lparr>ts_id = t_id t, ts_name = t_name t, ts_content =
      TerminalsSnapshot (map pane_to_snapshot (tl_panes tm)) (tl_focused tm) (tl_history tm) ls\<rparr>"
  have "card (p_id ` set (tl_panes tm)) = length (tl_panes tm)" using distinct_card [OF ids] by simp
  then have "check_tab_layout ?ts () = Inr ()"
    using ls(3) l(2) by (simp add: check_tab_layout_def image_image)
  moreover have "restore_tab ?ts = Some (unzoom_tab t)"
    using ls(2) Terminals by (simp add: restore_tab_def unzoom_tab_def)
  moreover have "tab_to_snapshot t = Some ?ts" using ls(1) Terminals by (simp add: tab_to_snapshot_def)
  ultimately show thesis
    using ls(4) len panes by (intro that [of ?ts]) (simp_all add: snap_panes_def snap_nodes_def)
next
  case (Diff p)
  let ?ts = "\<lparr>ts_id = t_id t, ts_name = t_name t, ts_content = DiffSnapshot p\<rparr>"
  from Diff show thesis
    by (intro that [of ?ts]) (simp_all add: tab_to_snapshot_def restore_tab_def unzoom_tab_def
        check_tab_layout_def snap_panes_def snap_nodes_def tab_panes_def tab_terminals_def)
next
  case (File p)
  let ?ts = "\<lparr>ts_id = t_id t, ts_name = t_name t, ts_content = FileSnapshot p\<rparr>"
  from File show thesis
    by (intro that [of ?ts]) (simp_all add: tab_to_snapshot_def restore_tab_def unzoom_tab_def
        check_tab_layout_def snap_panes_def snap_nodes_def tab_panes_def tab_terminals_def)
qed

lemma unzoom_tab_same [simp]:
  "t_id (unzoom_tab t) = t_id t" "tab_pane_ids (unzoom_tab t) = tab_pane_ids t"
  "tab_accepted rp (unzoom_tab t) = tab_accepted rp t"
  "(tab_diff (unzoom_tab t) = None) = (tab_diff t = None)"
  "(tab_file (unzoom_tab t) = None) = (tab_file t = None)"
  by (cases "t_content t"; simp add: unzoom_tab_def tab_pane_ids_def tab_panes_def tab_terminals_def
      tab_accepted_def wf_terminals_def tab_diff_def tab_file_def)+

lemma workspace_accepted_unzoom:
  assumes "workspace_accepted rp w"
  shows "workspace_accepted rp (w\<lparr>w_tabs := map unzoom_tab (w_tabs w)\<rparr>)"
proof -
  have "length (diff_tabs (map unzoom_tab ts)) = length (diff_tabs ts)"
    "length (file_tabs (map unzoom_tab ts)) = length (file_tabs ts)" for ts
    unfolding diff_tabs_def file_tabs_def
    by (rule length_filter_map_same, simp only: unzoom_tab_same)+
  then show ?thesis using assms by (simp add: workspace_accepted_def)
qed

lemma session_accepted_unzoomed:
  assumes "wf_session rp s"
  shows "session_accepted rp (unzoomed s)"
proof -
  have "session_workspace_ids (unzoomed s) = session_workspace_ids s"
    "session_tab_ids (unzoomed s) = session_tab_ids s" "session_pane_ids (unzoomed s) = session_pane_ids s"
    by (simp_all add: unzoomed_def session_workspace_ids_def session_tab_ids_concat
        session_pane_ids_concat workspace_tab_ids_def [abs_def] workspace_pane_ids_def [abs_def] comp_def)
  moreover have "\<forall>w \<in> set (workspaces (unzoomed s)). workspace_accepted rp w"
    using assms workspace_accepted_unzoom by (auto simp: unzoomed_def wf_session_def wf_workspace_accepted)
  ultimately show ?thesis using assms by (simp add: session_accepted_def wf_session_def)
qed

lemma nodes_le_panes:
  "\<forall>t \<in> set ts. snap_nodes t \<le> 2 * snap_panes t - 1 \<Longrightarrow> tabs_nodes ts \<le> 2 * tabs_panes ts - 1"
proof (induction ts)
  case (Cons t ts)
  then have "snap_nodes t \<le> 2 * snap_panes t - 1" "tabs_nodes ts \<le> 2 * tabs_panes ts - 1" by simp_all
  then show ?case by (simp add: tabs_nodes_def tabs_panes_def)
qed simp

lemma pane_count_tab: "t \<in> set (session_tabs s) \<Longrightarrow> length (tab_panes t) \<le> pane_count s"
  using member_le_sum_list [of "length (tab_panes t)" "map (\<lambda>t. length (tab_panes t)) (session_tabs s)"]
  by (simp add: pane_count_def)

lemma accepted_max_valid:
  assumes "\<forall>i \<in> set (session_u64s s). valid_id i"
  shows "\<exists>n. checked_add_u64 (max_ids (session_u64s s) 0) 1 = Some n"
proof -
  have "max_ids (session_u64s s) 0 \<le> MAX_STABLE_ID"
    using max_ids_in [of "session_u64s s" 0] assms by (auto simp: valid_id_def)
  then have "unat (max_ids (session_u64s s) 0) \<le> 2 ^ 63 - 1"
    by (simp add: word_le_nat_alt unat_MAX_STABLE_ID)
  then show ?thesis by (simp add: checked_add_u64_def)
qed

lemma accepted_u64s_valid:
  assumes "session_accepted rp s" and "i \<in> set (session_u64s s)"
  shows "valid_id i"
proof -
  from assms(2) obtain w where w: "w \<in> set (workspaces s)" and i: "i \<in> set (workspace_u64s w)"
    by (auto simp: session_u64s_def)
  from assms(1) w have acc: "workspace_accepted rp w" by (simp add: session_accepted_def)
  have "valid_id j" if "t \<in> set (w_tabs w)" "j \<in> set (tab_u64s t)" for t j
  proof -
    from acc that(1) have t: "tab_accepted rp t" by (simp add: workspace_accepted_def)
    show ?thesis
    proof (cases "t_content t")
      case (Terminals tm)
      with t that(2) show ?thesis
        by (auto simp: tab_accepted_def tab_u64s_def tab_pane_ids_def tab_panes_def
            tab_terminals_def wf_terminals_def wf_pane_def)
    qed (use t that(2) in \<open>auto simp: tab_accepted_def tab_u64s_def tab_pane_ids_def tab_panes_def
            tab_terminals_def\<close>)
  qed
  with acc i show ?thesis
    by (auto simp: workspace_u64s_def workspace_accepted_def tabs_u64s_def parent_u64s_def
        wf_worktree_def split: option.splits)
qed

lemma saved_restores:
  assumes inv: "session_inv rp nxt s"
  shows "\<exists>snap nxt'. session_to_snapshot s = Some snap
    \<and> session_restore rp snap nxt = Some (Inr (unzoomed s, nxt')) \<and> nxt \<le> nxt'"
proof -
  note wf = inv [unfolded session_inv_def within_limits_def]
  have tab: "\<exists>ts. tab_to_snapshot t = Some ts \<and> restore_tab ts = Some (unzoom_tab t)
      \<and> check_tab_layout ts () = Inr () \<and> snap_panes ts = length (tab_panes t)
      \<and> snap_nodes ts \<le> 2 * snap_panes ts - 1" if t: "t \<in> set (session_tabs s)" for t
  proof -
    have "wf_tab rp t" using wf t by (auto simp: wf_session_def wf_workspace_def session_tabs_def)
    moreover have "length (tab_panes t) \<le> MAX_SNAPSHOT_PANES"
      using pane_count_tab [OF t] wf by linarith
    ultimately show ?thesis by (rule tab_roundtrip) blast
  qed
  let ?f = "\<lambda>t. the (tab_to_snapshot t)"
  let ?g = "\<lambda>w. \<lparr>ws_id = w_id w, ws_name = w_name w, ws_root = w_root w, ws_worktree = w_worktree w,
      ws_tabs = map ?f (w_tabs w)\<rparr>"
  let ?snap = "\<lparr>ss_workspaces = map ?g (workspaces s)\<rparr>"
  have in_tabs: "t \<in> set (session_tabs s)" if "w \<in> set (workspaces s)" "t \<in> set (w_tabs w)" for w t
    using that by (auto simp: session_tabs_def)
  have f: "tab_to_snapshot t = Some (?f t) \<and> restore_tab (?f t) = Some (unzoom_tab t)
      \<and> check_tab_layout (?f t) () = Inr () \<and> snap_panes (?f t) = length (tab_panes t)
      \<and> snap_nodes (?f t) \<le> 2 * snap_panes (?f t) - 1" if "t \<in> set (session_tabs s)" for t
    using tab [OF that] by auto
  have "workspace_to_snapshot w = Some (?g w)" if w: "w \<in> set (workspaces s)" for w
  proof -
    have "those (map tab_to_snapshot (w_tabs w)) = Some (map ?f (w_tabs w))"
      by (rule those_map_all) (use f in_tabs w in blast)
    then show ?thesis by (simp add: workspace_to_snapshot_def)
  qed
  then have saved: "session_to_snapshot s = Some ?snap"
    using those_map_all [of "workspaces s" workspace_to_snapshot ?g] by (simp add: session_to_snapshot_def)
  have tabs: "snapshot_tabs ?snap = map ?f (session_tabs s)"
    by (simp add: snapshot_tabs_def session_tabs_def map_concat comp_def)
  have panes: "tabs_panes (snapshot_tabs ?snap) = pane_count s"
    unfolding tabs tabs_panes_def pane_count_def map_map comp_def
    by (rule arg_cong [of _ _ sum_list], rule map_cong [OF refl]) (use f in blast)
  have "tabs_nodes (snapshot_tabs ?snap) \<le> 2 * tabs_panes (snapshot_tabs ?snap) - 1"
  proof -
    have "\<forall>t \<in> set (session_tabs s). snap_nodes (?f t) \<le> 2 * snap_panes (?f t) - 1" using f by blast
    then show ?thesis unfolding tabs by (intro nodes_le_panes) (simp only: set_map ball_simps)
  qed
  then have nodes: "tabs_nodes (snapshot_tabs ?snap) \<le> MAX_SNAPSHOT_LAYOUT_NODES"
  proof -
    have "pane_count s \<le> MAX_SNAPSHOT_PANES" using wf by blast
    then have "2 * pane_count s - 1 \<le> MAX_SNAPSHOT_LAYOUT_NODES"
      unfolding snapshot_limits by linarith
    then show ?thesis
      using \<open>tabs_nodes (snapshot_tabs ?snap) \<le> 2 * tabs_panes (snapshot_tabs ?snap) - 1\<close>
      unfolding panes by (rule order_trans [rotated])
  qed
  have count: "length (snapshot_tabs ?snap) = tab_count s"
    unfolding tabs by (simp add: tab_count_def session_tabs_def length_concat comp_def)
  have ok: "validate_snapshot_resources ?snap = Inr ()"
    unfolding validate_resources_Inr using wf panes nodes count
    by (simp only: tabs set_map) (use f in \<open>simp add: tabs\<close>)
  have "restore_workspace (?g w) = Some (w\<lparr>w_tabs := map unzoom_tab (w_tabs w)\<rparr>)"
    if w: "w \<in> set (workspaces s)" for w
  proof -
    have "those (map (\<lambda>t. restore_tab (?f t)) (w_tabs w)) = Some (map unzoom_tab (w_tabs w))"
      by (rule those_map_all) (use f in_tabs w in blast)
    then show ?thesis by (simp add: restore_workspace_def comp_def)
  qed
  then have restored: "those (map restore_workspace (ss_workspaces ?snap)) = Some (workspaces (unzoomed s))"
    using those_map_all [of "workspaces s" "\<lambda>w. restore_workspace (?g w)"
        "\<lambda>w. w\<lparr>w_tabs := map unzoom_tab (w_tabs w)\<rparr>"]
    by (simp add: unzoomed_def comp_def)
  have acc: "session_accepted rp (unzoomed s)" using session_accepted_unzoomed wf by blast
  obtain n where n: "checked_add_u64 (max_ids (session_u64s (unzoomed s)) 0) 1 = Some n"
    using accepted_max_valid accepted_u64s_valid [OF acc] by blast
  have eta: "\<lparr>workspaces = workspaces u\<rparr> = u" for u :: session by (cases u) simp
  have "session_validate rp (unzoomed s) = Inr (max_ids (session_u64s (unzoomed s)) 0)"
    using acc by (simp add: session_validate_Inr)
  then have "session_restore rp ?snap nxt = Some (Inr (unzoomed s, max nxt n))"
    using ok restored n by (simp add: session_restore_def Let_def eta)
  with saved show ?thesis by (intro exI [of _ ?snap] exI [of _ "max nxt n"]) simp
qed

text \<open>C9: a Session that satisfies the invariant can always be saved, and restoring what was saved
  gives back the same Session, Panes, split trees, ratios, focus and history included; only the
  zoom, which a Snapshot does not hold, is gone.\<close>

theorem snapshot_roundtrip:
  assumes "session_inv rp nxt s"
  shows "\<exists>snap nxt'. session_to_snapshot s = Some snap
    \<and> session_restore rp snap nxt = Some (Inr (unzoomed s, nxt')) \<and> nxt \<le> nxt'"
  using saved_restores [OF assms] .

theorem snapshot_roundtrip_witness:
  "\<exists>snap nxt'. session_to_snapshot demo_split = Some snap
    \<and> session_restore demo_rp snap 5 = Some (Inr (unzoomed demo_split, nxt')) \<and> 5 \<le> nxt'"
  by (rule snapshot_roundtrip [OF demo_split_inv])

theorem session_restore_inv_witness:
  "\<exists>nxt'. session_inv demo_rp nxt' (unzoomed demo_split) \<and> 5 \<le> nxt'"
proof -
  from saved_restores [OF demo_split_inv] obtain snap nxt' where
    "session_restore demo_rp snap 5 = Some (Inr (unzoomed demo_split, nxt'))" by blast
  from session_restore_inv [OF this] show ?thesis by blast
qed

text \<open>C18: the validation of a restored Session accepts exactly the well-formed ones, names unique,
  focus, history and split tree consistent with the Panes, one viewer of each kind, and answers the
  largest id in it, Worktree parents included.\<close>

theorem session_validate_exact:
  "session_validate rp s = Inr m \<longleftrightarrow> session_accepted rp s \<and> m = max_ids (session_u64s s) 0"
  by (rule session_validate_Inr)

end
