(* ===== verification/Replica.thy ===== *)
theory Replica
  imports Condr_Prelude
begin

text \<open>
  The contract between a part of the Server that reports its changes and whoever keeps up with
  it: one step changes the reporter's state and emits an output, the follower takes the output
  in, and the two still agree. The agent detector (its published snapshots) and the terminal view
  (its frames) both keep it; that a follower agrees after any run is proved here once.
\<close>

locale replica =
  fixes step :: "'i \<Rightarrow> 's \<Rightarrow> 'o \<times> 's" and recv :: "'o \<Rightarrow> 'c \<Rightarrow> 'c" and agrees :: "'s \<Rightarrow> 'c \<Rightarrow> bool"
  assumes step_agrees: "agrees s c \<Longrightarrow> step i s = (out, s') \<Longrightarrow> agrees s' (recv out c)"
begin

definition follow :: "'i \<Rightarrow> 's \<times> 'c \<Rightarrow> 's \<times> 'c" where
  "follow i sc = (let (out, s') = step i (fst sc) in (s', recv out (snd sc)))"

lemma follow_agrees: "agrees (fst sc) (snd sc) \<Longrightarrow> agrees (fst (follow i sc)) (snd (follow i sc))"
  using step_agrees by (simp add: follow_def split: prod.splits)

lemma run_agrees: "agrees (fst sc) (snd sc) \<Longrightarrow> agrees (fst (fold follow is sc)) (snd (fold follow is sc))"
  by (induction "is" arbitrary: sc) (simp_all add: follow_agrees)

end

end
