(* ===== verification/Agent_Detector.thy ===== *)
theory Agent_Detector
  imports Agent_Model Replica
begin

text \<open>
  What an agent reports and what Condr makes of it: hook events (\<open>agent/event.rs\<close>), Program
  Status reports (\<open>agent/program_status.rs\<close>), and the per-Pane detector that joins them with the
  process table (\<open>agent/detector.rs\<close>). JSON is serde's: encoding and decoding it are parameters.
  Instants are milliseconds; \<open>duration_since\<close> saturates at zero, as \<open>nat\<close> subtraction does.
\<close>

section \<open>Hook events\<close>

record agent_event =
  ev_version :: nat
  ev_agent :: agent_kind
  ev_event :: agent_event_kind
  ev_source :: "rstr option"
  ev_session_id :: "rstr option"
  ev_prompt_id :: "rstr option"
  ev_detail :: "rstr option"

definition AGENT_EVENT_WIRE_VERSION :: nat where "AGENT_EVENT_WIRE_VERSION = 1"
definition MAX_DETAIL_CHARS :: nat where "MAX_DETAIL_CHARS = 200"
definition MAX_AGENT_EVENT_BYTES :: nat where "MAX_AGENT_EVENT_BYTES = 2000"

definition AGENT_EVENT_OSC_PREFIX :: rstr where
  "AGENT_EVENT_OSC_PREFIX = str_lit ''777;notify;condr://agent;''"

definition agent_event_all :: "agent_event_kind list" where
  "agent_event_all = [SessionStart, PromptSubmit, PermissionRequest, QuestionAsked, ToolStart,
     ToolComplete, Stop, Interrupt, StopFailure]"

fun event_name :: "agent_event_kind \<Rightarrow> rstr" where
  "event_name SessionStart = str_lit ''session-start''"
| "event_name PromptSubmit = str_lit ''prompt-submit''"
| "event_name PermissionRequest = str_lit ''permission-request''"
| "event_name QuestionAsked = str_lit ''question-asked''"
| "event_name ToolStart = str_lit ''tool-start''"
| "event_name ToolComplete = str_lit ''tool-complete''"
| "event_name Stop = str_lit ''stop''"
| "event_name Interrupt = str_lit ''interrupt''"
| "event_name StopFailure = str_lit ''stop-failure''"

definition event_parse :: "rstr \<Rightarrow> agent_event_kind option" where
  "event_parse name = find (\<lambda>kind. event_name kind = name) agent_event_all"

definition event_new ::
  "agent_kind \<Rightarrow> agent_event_kind \<Rightarrow> rstr option \<Rightarrow> rstr option \<Rightarrow> agent_event" where
  "event_new agent event source session_id =
     \<lparr>ev_version = AGENT_EVENT_WIRE_VERSION, ev_agent = agent, ev_event = event,
      ev_source = source, ev_session_id = session_id, ev_prompt_id = None, ev_detail = None\<rparr>"

text \<open>The loop of \<open>encode\<close>: \<open>take\<close> empties the first of detail, source and prompt id that is there;
  with none left the sequence goes out as it is.\<close>

definition event_sequence :: "(agent_event \<Rightarrow> nat list) \<Rightarrow> agent_event \<Rightarrow> nat list" where
  "event_sequence json e = [27, 93] @ str_bytes AGENT_EVENT_OSC_PREFIX @ json e @ [7]"

definition drop_field :: "agent_event \<Rightarrow> agent_event option" where
  "drop_field e =
     (if ev_detail e \<noteq> None then Some (e\<lparr>ev_detail := None\<rparr>)
      else if ev_source e \<noteq> None then Some (e\<lparr>ev_source := None\<rparr>)
      else if ev_prompt_id e \<noteq> None then Some (e\<lparr>ev_prompt_id := None\<rparr>)
      else None)"

definition optional_fields :: "agent_event \<Rightarrow> nat" where
  "optional_fields e = length (filter (\<lambda>f. f \<noteq> None) [ev_detail e, ev_source e, ev_prompt_id e])"

lemma drop_field_fewer: "drop_field e = Some e' \<Longrightarrow> optional_fields e' < optional_fields e"
  by (auto simp: drop_field_def optional_fields_def split: if_splits)

function event_encode :: "(agent_event \<Rightarrow> nat list) \<Rightarrow> agent_event \<Rightarrow> nat list" where
  "event_encode json e =
     (if length (event_sequence json e) \<le> MAX_AGENT_EVENT_BYTES then event_sequence json e
      else case drop_field e of
        None \<Rightarrow> event_sequence json e
      | Some e' \<Rightarrow> event_encode json e')"
  by pat_completeness auto

termination event_encode
  by (relation "measure (\<lambda>(_, e). optional_fields e)") (simp_all add: drop_field_fewer)

declare event_encode.simps [simp del]

definition valid_prompt_id :: "rstr \<Rightarrow> bool" where
  "valid_prompt_id i \<longleftrightarrow> i \<noteq> [] \<and> str_len i \<le> 256 \<and> \<not> list_ex is_control i"

definition valid_detail :: "rstr \<Rightarrow> bool" where
  "valid_detail d \<longleftrightarrow> d \<noteq> [] \<and> length d \<le> MAX_DETAIL_CHARS \<and> \<not> list_ex is_control d"

definition strip_prefix :: "'a list \<Rightarrow> 'a list \<Rightarrow> 'a list option" where
  "strip_prefix pre xs = (if take (length pre) xs = pre then Some (drop (length pre) xs) else None)"

definition event_decode :: "(nat list \<Rightarrow> agent_event option) \<Rightarrow> nat list \<Rightarrow> agent_event option" where
  "event_decode from_json payload =
     (case strip_prefix (str_bytes AGENT_EVENT_OSC_PREFIX) payload of
        None \<Rightarrow> None
      | Some json \<Rightarrow>
          (case from_json json of
             None \<Rightarrow> None
           | Some e \<Rightarrow>
               if ev_version e = AGENT_EVENT_WIRE_VERSION
                  \<and> (\<forall>i \<in> set_option (ev_session_id e). valid_session_id i)
                  \<and> (\<forall>i \<in> set_option (ev_prompt_id e). valid_prompt_id i)
                  \<and> (\<forall>d \<in> set_option (ev_detail e). valid_detail d)
               then Some e else None))"

definition compact_source :: rstr where "compact_source = str_lit ''compact''"

definition event_apply :: "agent_event \<Rightarrow> agent_state \<Rightarrow> agent_state" where
  "event_apply e state =
     (case ev_event e of
        SessionStart \<Rightarrow> if ev_source e = Some compact_source then state else Idle
      | Interrupt \<Rightarrow> Idle
      | Stop \<Rightarrow> Done
      | StopFailure \<Rightarrow> Error
      | PromptSubmit \<Rightarrow> Working
      | ToolStart \<Rightarrow> Working
      | ToolComplete \<Rightarrow> Working
      | PermissionRequest \<Rightarrow> Blocked
      | QuestionAsked \<Rightarrow> Blocked)"

text \<open>The loop over the characters: the detail so far, and whether it ends in the one space a run
  of blanks becomes.\<close>

fun squeeze :: "rstr \<Rightarrow> rstr \<Rightarrow> bool \<Rightarrow> rstr" where
  "squeeze [] detail space = detail"
| "squeeze (ch # rest) detail space =
     (if is_control ch \<or> is_whitespace ch
      then if space then squeeze rest detail True else squeeze rest (detail @ [32]) True
      else squeeze rest (detail @ [ch]) False)"

definition bound_detail :: "rstr \<Rightarrow> rstr option" where
  "bound_detail raw =
     (let detail = trim_end (squeeze raw [] True) in
      if detail = [] then None
      else if length detail \<le> MAX_DETAIL_CHARS then Some detail
      else Some (take (MAX_DETAIL_CHARS - 1) detail @ [8230]))"

section \<open>Program Status reports\<close>

datatype program_state = PsIdle | PsWorking | PsDone | PsBlocked | PsError | PsClear
datatype blocked_kind = BkPermission | BkQuestion | BkAuth

record program_status =
  st_state :: program_state
  st_id :: "rstr option"
  st_kind :: "blocked_kind option"
  st_app :: "rstr option"
  st_msg :: "rstr option"

fun blocked_label :: "blocked_kind \<Rightarrow> rstr" where
  "blocked_label BkPermission = str_lit ''Permission''"
| "blocked_label BkQuestion = str_lit ''Question''"
| "blocked_label BkAuth = str_lit ''Login''"

section \<open>The detector\<close>

datatype process_probe = ProbeAgent agent_kind | ShellOnly | Unidentified

datatype agent_publish = PubNothing | PubSnapshot agent_snapshot | PubCleared

definition AGENT_POLL_INTERVAL :: nat where "AGENT_POLL_INTERVAL = 300"
definition AGENT_MISS_CONFIRMATION_ATTEMPTS :: nat where "AGENT_MISS_CONFIRMATION_ATTEMPTS = 6"
definition PROCESS_RECHECK_IDENTIFIED :: nat where "PROCESS_RECHECK_IDENTIFIED = 5000"
definition PROCESS_RECHECK_UNIDENTIFIED :: nat where "PROCESS_RECHECK_UNIDENTIFIED = 500"
definition PROCESS_ACQUISITION_WINDOW :: nat where "PROCESS_ACQUISITION_WINDOW = 8000"
definition PROCESS_RECHECK_QUIET :: nat where "PROCESS_RECHECK_QUIET = 30000"
definition PROCESS_ACQUISITION_IDLE_RESET :: nat where "PROCESS_ACQUISITION_IDLE_RESET = 2000"

record agent_detector =
  d_agent :: "agent_kind option"
  d_state :: "agent_state option"
  d_session_id :: "rstr option"
  d_prompt_id :: "rstr option"
  d_detail :: "rstr option"
  d_program_status :: bool
  d_resume :: "agent_resume option option"
  d_restoring :: "agent_resume option"
  d_seeded :: bool
  d_last_probe :: "process_probe option"
  d_misses :: nat
  d_last_process_probe :: "nat option"
  d_last_activity :: "nat option"
  d_acquisition_started :: "nat option"

definition detector_new :: agent_detector where
  "detector_new = \<lparr>d_agent = None, d_state = None, d_session_id = None, d_prompt_id = None,
     d_detail = None, d_program_status = False, d_resume = None, d_restoring = None,
     d_seeded = False, d_last_probe = None, d_misses = 0, d_last_process_probe = None,
     d_last_activity = None, d_acquisition_started = None\<rparr>"

definition detector_restore :: "agent_resume \<Rightarrow> agent_detector \<Rightarrow> agent_detector" where
  "detector_restore resume d = d\<lparr>d_resume := Some (Some resume), d_restoring := Some resume\<rparr>"

text \<open>\<open>Option::is_none_or\<close> and \<open>Option::is_some_and\<close>.\<close>

definition is_none_or :: "'a option \<Rightarrow> ('a \<Rightarrow> bool) \<Rightarrow> bool" where
  "is_none_or m P = (case m of None \<Rightarrow> True | Some x \<Rightarrow> P x)"

definition is_some_and :: "'a option \<Rightarrow> ('a \<Rightarrow> bool) \<Rightarrow> bool" where
  "is_some_and m P = (case m of None \<Rightarrow> False | Some x \<Rightarrow> P x)"

text \<open>The window bookkeeping of \<open>wants_process_probe\<close>, and its answer.\<close>

definition note_activity :: "nat \<Rightarrow> bool \<Rightarrow> bool \<Rightarrow> agent_detector \<Rightarrow> agent_detector" where
  "note_activity now force activity d =
     (if force \<or> activity \<or> d_last_activity d = None
      then let quiet = is_none_or (d_last_activity d) (\<lambda>at. PROCESS_ACQUISITION_IDLE_RESET \<le> now - at);
               d = (if quiet \<or> force then d\<lparr>d_acquisition_started := Some now\<rparr> else d)
           in d\<lparr>d_last_activity := Some now\<rparr>
      else d)"

definition wants_process_probe :: "nat \<Rightarrow> bool \<Rightarrow> bool \<Rightarrow> agent_detector \<Rightarrow> bool \<times> agent_detector" where
  "wants_process_probe now force activity d0 =
     (let d = note_activity now force activity d0 in
      if force then (True, d)
      else let interval = (if d_agent d \<noteq> None then PROCESS_RECHECK_IDENTIFIED
                           else if is_some_and (d_acquisition_started d)
                                     (\<lambda>at. now - at < PROCESS_ACQUISITION_WINDOW)
                           then PROCESS_RECHECK_UNIDENTIFIED
                           else PROCESS_RECHECK_QUIET)
           in (is_none_or (d_last_process_probe d) (\<lambda>checked. interval \<le> now - checked), d))"

definition resume_of :: "agent_kind \<Rightarrow> rstr option \<Rightarrow> agent_resume option" where
  "resume_of agent session_id =
     map_option (\<lambda>i. \<lparr>ar_kind = agent, ar_session_id = i\<rparr>) session_id"

text \<open>The two arms of \<open>observe_process\<close>: a named agent, and a table without one.\<close>

definition agent_found :: "agent_kind \<Rightarrow> agent_detector \<Rightarrow> agent_publish \<times> agent_detector" where
  "agent_found agent d0 =
     (let d = d0\<lparr>d_misses := 0\<rparr> in
      if d_agent d = Some agent then (PubNothing, d\<lparr>d_seeded := False\<rparr>)
      else let session_id = (case d_restoring d of
                 Some r \<Rightarrow> if ar_kind r = agent then Some (ar_session_id r) else None
               | None \<Rightarrow> None)
           in (PubSnapshot \<lparr>sn_session_id = session_id, sn_kind = agent, sn_state = Unknown,
                   sn_detail = None\<rparr>,
               d\<lparr>d_agent := Some agent, d_prompt_id := None, d_detail := None,
                 d_program_status := False, d_restoring := None, d_session_id := session_id,
                 d_resume := Some (resume_of agent session_id), d_seeded := False,
                 d_state := Some Unknown\<rparr>))"

definition agent_exited :: "nat \<Rightarrow> agent_detector \<Rightarrow> agent_detector" where
  "agent_exited now d =
     d\<lparr>d_agent := None, d_session_id := None, d_prompt_id := None, d_detail := None,
       d_program_status := False, d_resume := Some None, d_restoring := None, d_state := None,
       d_seeded := False, d_misses := 0, d_acquisition_started := Some now\<rparr>"

definition agent_missing :: "process_probe \<Rightarrow> nat \<Rightarrow> agent_detector \<Rightarrow> agent_publish \<times> agent_detector" where
  "agent_missing result now d =
     (if d_agent d = None then (PubNothing, d\<lparr>d_misses := 0\<rparr>)
      else if result = ShellOnly then (PubCleared, agent_exited now d)
      else if d_seeded d then (PubNothing, d)
      else let misses = min (d_misses d + 1) 255; d = d\<lparr>d_misses := misses\<rparr>
           in if AGENT_MISS_CONFIRMATION_ATTEMPTS \<le> misses then (PubCleared, agent_exited now d)
              else (PubNothing, d))"

definition observe_process :: "process_probe \<Rightarrow> nat \<Rightarrow> agent_detector \<Rightarrow> agent_publish \<times> agent_detector" where
  "observe_process result now d0 =
     (let d = d0\<lparr>d_last_process_probe := Some now, d_last_probe := Some result\<rparr> in
      case result of
        ProbeAgent agent \<Rightarrow> agent_found agent d
      | _ \<Rightarrow> agent_missing result now d)"

definition detector_seed :: "agent_kind \<Rightarrow> agent_detector \<Rightarrow> bool \<times> agent_detector" where
  "detector_seed reporter d0 =
     (let d = (if d_agent d0 = None \<and> d_last_probe d0 = Some Unidentified
               then d0\<lparr>d_agent := Some reporter, d_seeded := True, d_state := Some Unknown\<rparr>
               else d0)
      in (d_agent d \<noteq> None, d))"

definition detector_commit ::
  "agent_state \<Rightarrow> rstr option \<Rightarrow> rstr option \<Rightarrow> agent_detector \<Rightarrow> agent_publish \<times> agent_detector" where
  "detector_commit nxt session_id detail d =
     (case (d_agent d, d_state d) of
        (Some agent, Some state) \<Rightarrow>
          if nxt = state \<and> session_id = d_session_id d \<and> detail = d_detail d then (PubNothing, d)
          else (PubSnapshot \<lparr>sn_session_id = session_id, sn_kind = agent, sn_state = nxt,
                   sn_detail = detail\<rparr>,
                d\<lparr>d_state := Some nxt, d_session_id := session_id, d_detail := detail\<rparr>)
      | _ \<Rightarrow> (PubNothing, d))"

text \<open>Grok's completion hooks may arrive after the next prompt: an event of another turn, or of
  another conversation, is stale. \<open>None\<close> drops it.\<close>

definition track_prompt :: "agent_event \<Rightarrow> agent_detector \<Rightarrow> agent_detector option" where
  "track_prompt e d =
     (case ev_event e of
        SessionStart \<Rightarrow> Some (d\<lparr>d_prompt_id := None\<rparr>)
      | PromptSubmit \<Rightarrow> Some (d\<lparr>d_prompt_id := ev_prompt_id e\<rparr>)
      | _ \<Rightarrow>
          if ev_prompt_id e \<noteq> None \<and> d_prompt_id d \<noteq> None
             \<and> (ev_prompt_id e \<noteq> d_prompt_id d
                \<or> is_some_and (ev_session_id e) (\<lambda>i. Some i \<noteq> d_session_id d))
          then None else Some d)"

text \<open>What an event that belongs to the Pane's agent does.\<close>

definition fresh_conversation :: "agent_event \<Rightarrow> bool" where
  "fresh_conversation e \<longleftrightarrow> ev_event e = SessionStart \<and> ev_source e \<noteq> Some compact_source"

definition event_session :: "agent_event \<Rightarrow> agent_detector \<Rightarrow> rstr option" where
  "event_session e d =
     (case ev_session_id e of
        Some i \<Rightarrow> Some i
      | None \<Rightarrow> if \<not> fresh_conversation e then d_session_id d else None)"

definition event_resume :: "agent_event \<Rightarrow> agent_kind \<Rightarrow> rstr option \<Rightarrow> agent_detector \<Rightarrow> agent_detector" where
  "event_resume e agent session_id d =
     (if ev_session_id e \<noteq> None \<or> fresh_conversation e
      then d\<lparr>d_restoring := None, d_resume := Some (resume_of agent session_id)\<rparr> else d)"

definition event_effect :: "agent_event \<Rightarrow> agent_state \<Rightarrow> agent_detector \<Rightarrow> agent_state \<times> rstr option" where
  "event_effect e state d =
     (if d_program_status d then (state, d_detail d)
      else let nxt = event_apply e state in (nxt, if nxt = Blocked then ev_detail e else None))"

definition observe_event :: "agent_event \<Rightarrow> agent_detector \<Rightarrow> agent_publish \<times> agent_detector" where
  "observe_event e d0 =
     (case agent_hooks (ev_agent e) of
        None \<Rightarrow> (PubNothing, d0)
      | Some _ \<Rightarrow>
          let (named, d) = detector_seed (ev_agent e) d0 in
          if \<not> named then (PubNothing, d)
          else case (d_agent d, d_state d) of
            (Some agent, Some state) \<Rightarrow>
              if agent \<noteq> ev_agent e then (PubNothing, d)
              else (case (if is_some_and (agent_hooks agent) hs_prompt_ids
                          then track_prompt e d else Some d) of
                 None \<Rightarrow> (PubNothing, d)
               | Some d \<Rightarrow>
                   let session_id = event_session e d;
                       d = event_resume e agent session_id d;
                       (nxt, detail) = event_effect e state d
                   in detector_commit nxt session_id detail d)
          | _ \<Rightarrow> (PubNothing, d))"

definition program_state_of :: "program_state \<Rightarrow> agent_state" where
  "program_state_of ps =
     (case ps of PsIdle \<Rightarrow> Idle | PsWorking \<Rightarrow> Working | PsDone \<Rightarrow> Done | PsBlocked \<Rightarrow> Blocked
               | PsError \<Rightarrow> Error | PsClear \<Rightarrow> Unknown)"

definition observe_status ::
  "(rstr \<Rightarrow> rstr) \<Rightarrow> program_status \<Rightarrow> agent_detector \<Rightarrow> agent_publish \<times> agent_detector" where
  "observe_status to_lowercase status d0 =
     (if st_id status \<noteq> None then (PubNothing, d0)
      else
        let app = map_option (parse_label to_lowercase) (st_app status);
            (named, d) = (case app of
                Some (Some reporter) \<Rightarrow> detector_seed reporter d0
              | _ \<Rightarrow> (True, d0)) in
        if \<not> named then (PubNothing, d)
        else case d_agent d of
          None \<Rightarrow> (PubNothing, d)
        | Some agent \<Rightarrow>
            if is_some_and app (\<lambda>reporter. reporter \<noteq> Some agent) then (PubNothing, d)
            else let d = (if \<not> d_program_status d \<and> st_state status \<noteq> PsClear
                          then d\<lparr>d_program_status := True\<rparr> else d);
                     nxt = program_state_of (st_state status);
                     detail = (if nxt = Blocked
                               then (case st_msg status of
                                       Some m \<Rightarrow> Some m
                                     | None \<Rightarrow> map_option blocked_label (st_kind status))
                               else if nxt = Error then st_msg status
                               else None)
                 in detector_commit nxt (d_session_id d) detail d)"

definition observe_prompt_start :: "agent_detector \<Rightarrow> agent_publish \<times> agent_detector" where
  "observe_prompt_start d =
     (if \<not> d_program_status d \<or> d_state d \<notin> {Some Working, Some Blocked} then (PubNothing, d)
      else detector_commit Unknown (d_session_id d) None d)"

definition observe_reset :: "agent_detector \<Rightarrow> agent_publish \<times> agent_detector" where
  "observe_reset d =
     (if \<not> d_program_status d then (PubNothing, d)
      else let d = d\<lparr>d_program_status := False\<rparr>
           in detector_commit Unknown (d_session_id d) None d)"

section \<open>The invariant\<close>

text \<open>No agent, no state: nothing of one agent survives into the next. A detail is what a Blocked or
  failed agent says. The misses of a confirmed exit never add up unseen.\<close>

definition detector_inv :: "agent_detector \<Rightarrow> bool" where
  "detector_inv d \<longleftrightarrow>
     (d_agent d = None \<longleftrightarrow> d_state d = None)
     \<and> (d_agent d = None \<longrightarrow> d_session_id d = None \<and> d_prompt_id d = None \<and> d_detail d = None
          \<and> \<not> d_program_status d \<and> \<not> d_seeded d \<and> d_misses d = 0)
     \<and> (d_detail d \<noteq> None \<longrightarrow> d_state d = Some Blocked \<or> d_state d = Some Error \<and> d_program_status d)
     \<and> d_misses d < AGENT_MISS_CONFIRMATION_ATTEMPTS"

text \<open>The snapshot the detector stands for, and a follower that keeps the last one published.\<close>

definition detector_view :: "agent_detector \<Rightarrow> agent_snapshot option" where
  "detector_view d =
     (case (d_agent d, d_state d) of
        (Some agent, Some state) \<Rightarrow> Some \<lparr>sn_session_id = d_session_id d, sn_kind = agent,
          sn_state = state, sn_detail = d_detail d\<rparr>
      | _ \<Rightarrow> None)"

fun receive_publish :: "agent_publish \<Rightarrow> agent_snapshot option \<Rightarrow> agent_snapshot option" where
  "receive_publish PubNothing shown = shown"
| "receive_publish (PubSnapshot s) shown = Some s"
| "receive_publish PubCleared shown = None"

definition unknown_snapshot :: "agent_kind \<Rightarrow> agent_snapshot" where
  "unknown_snapshot kind =
     \<lparr>sn_session_id = None, sn_kind = kind, sn_state = Unknown, sn_detail = None\<rparr>"

text \<open>The follower shows what the detector stands for, or nothing yet of an agent that only named
  itself and has said nothing more.\<close>

definition detector_shown :: "agent_detector \<Rightarrow> agent_snapshot option \<Rightarrow> bool" where
  "detector_shown d shown \<longleftrightarrow> detector_inv d
     \<and> (shown = detector_view d
        \<or> shown = None \<and> (\<exists>kind. detector_view d = Some (unknown_snapshot kind)))"

datatype observation =
    ObsProcess process_probe nat
  | ObsProbeQuery nat bool bool
  | ObsEvent agent_event
  | ObsStatus program_status
  | ObsPromptStart
  | ObsReset
  | ObsRestore agent_resume

definition observe :: "(rstr \<Rightarrow> rstr) \<Rightarrow> observation \<Rightarrow> agent_detector \<Rightarrow> agent_publish \<times> agent_detector" where
  "observe to_lowercase obs d =
     (case obs of
        ObsProcess result now \<Rightarrow> observe_process result now d
      | ObsProbeQuery now force activity \<Rightarrow> (PubNothing, snd (wants_process_probe now force activity d))
      | ObsEvent e \<Rightarrow> observe_event e d
      | ObsStatus status \<Rightarrow> observe_status to_lowercase status d
      | ObsPromptStart \<Rightarrow> observe_prompt_start d
      | ObsReset \<Rightarrow> observe_reset d
      | ObsRestore resume \<Rightarrow> (PubNothing, detector_restore resume d))"

lemma detector_view_Some:
  "d_agent d = Some a \<Longrightarrow> d_state d = Some st \<Longrightarrow> detector_view d = Some \<lparr>sn_session_id =
     d_session_id d, sn_kind = a, sn_state = st, sn_detail = d_detail d\<rparr>"
  by (simp add: detector_view_def)

lemma detector_view_None: "d_agent d = None \<Longrightarrow> detector_view d = None"
  by (simp add: detector_view_def)

lemma detector_view_frame [simp]:
  "detector_view (d\<lparr>d_misses := n\<rparr>) = detector_view d"
  "detector_view (d\<lparr>d_seeded := b\<rparr>) = detector_view d"
  "detector_view (d\<lparr>d_last_process_probe := t\<rparr>) = detector_view d"
  "detector_view (d\<lparr>d_last_probe := r\<rparr>) = detector_view d"
  "detector_view (d\<lparr>d_program_status := b\<rparr>) = detector_view d"
  "detector_view (d\<lparr>d_prompt_id := p\<rparr>) = detector_view d"
  "detector_view (d\<lparr>d_restoring := rs\<rparr>) = detector_view d"
  "detector_view (d\<lparr>d_resume := rr\<rparr>) = detector_view d"
  "detector_view (d\<lparr>d_last_activity := u\<rparr>) = detector_view d"
  "detector_view (d\<lparr>d_acquisition_started := u\<rparr>) = detector_view d"
  by (simp_all add: detector_view_def split: option.splits)

lemma detector_inv_frame [simp]:
  "detector_inv (d\<lparr>d_last_process_probe := t\<rparr>) = detector_inv d"
  "detector_inv (d\<lparr>d_last_probe := r\<rparr>) = detector_inv d"
  "detector_inv (d\<lparr>d_restoring := rs\<rparr>) = detector_inv d"
  "detector_inv (d\<lparr>d_resume := rr\<rparr>) = detector_inv d"
  "detector_inv (d\<lparr>d_last_activity := u\<rparr>) = detector_inv d"
  "detector_inv (d\<lparr>d_acquisition_started := u\<rparr>) = detector_inv d"
  by (simp_all add: detector_inv_def)

lemma detector_shown_frame [simp]:
  "detector_shown (d\<lparr>d_last_process_probe := t\<rparr>) c = detector_shown d c"
  "detector_shown (d\<lparr>d_last_probe := r\<rparr>) c = detector_shown d c"
  "detector_shown (d\<lparr>d_restoring := rs\<rparr>) c = detector_shown d c"
  "detector_shown (d\<lparr>d_resume := rr\<rparr>) c = detector_shown d c"
  "detector_shown (d\<lparr>d_last_activity := u\<rparr>) c = detector_shown d c"
  "detector_shown (d\<lparr>d_acquisition_started := u\<rparr>) c = detector_shown d c"
  by (simp_all add: detector_shown_def)

text \<open>Committing what the invariant allows publishes exactly what changed.\<close>

lemma commit_shown:
  assumes shown: "detector_shown d c" and agent: "d_agent d = Some a" "d_state d = Some st"
    and d': "d' = d\<lparr>d_prompt_id := p, d_restoring := r, d_resume := rr, d_program_status := ps\<rparr>"
    and step: "detector_commit nxt sid det d' = (out, d'')"
    and ok: "det \<noteq> None \<Longrightarrow> nxt = Blocked \<or> nxt = Error \<and> ps"
  shows "detector_shown d'' (receive_publish out c)"
proof (cases "nxt = st \<and> sid = d_session_id d \<and> det = d_detail d")
  case True
  with step agent d' have "out = PubNothing" "d'' = d'" by (auto simp: detector_commit_def)
  moreover have "detector_inv d'"
    using shown agent d' ok True by (auto simp: detector_shown_def detector_inv_def)
  moreover have "detector_view d' = detector_view d"
    using agent d' by (simp add: detector_view_def)
  ultimately show ?thesis using shown by (simp add: detector_shown_def)
next
  case False
  with step agent d' have "out = PubSnapshot \<lparr>sn_session_id = sid, sn_kind = a, sn_state = nxt, sn_detail = det\<rparr>"
    and d'': "d'' = d'\<lparr>d_state := Some nxt, d_session_id := sid, d_detail := det\<rparr>"
    by (auto simp: detector_commit_def)
  moreover have "detector_inv d''"
    using shown agent d' ok d'' by (auto simp: detector_shown_def detector_inv_def)
  moreover have "detector_view d'' = Some \<lparr>sn_session_id = sid, sn_kind = a, sn_state = nxt, sn_detail = det\<rparr>"
    using agent d' d'' by (simp add: detector_view_def)
  ultimately show ?thesis by (simp add: detector_shown_def)
qed

lemma seed_shown:
  assumes "detector_shown d c" and "detector_seed reporter d = (named, d')"
  shows "detector_shown d' c" and "named \<longleftrightarrow> d_agent d' \<noteq> None"
    and "d_agent d \<noteq> None \<Longrightarrow> d' = d"
  using assms
  by (auto simp: detector_seed_def Let_def detector_shown_def detector_inv_def detector_view_def
      unknown_snapshot_def split: if_splits)

lemma agent_found_shown:
  assumes "detector_shown d c" and "agent_found agent d = (out, d')"
  shows "detector_shown d' (receive_publish out c)"
proof (cases "d_agent d = Some agent")
  case True
  with assms(2) have "out = PubNothing" "d' = d\<lparr>d_misses := 0, d_seeded := False\<rparr>"
    by (auto simp: agent_found_def)
  with assms(1) True show ?thesis
    by (simp add: detector_shown_def detector_inv_def AGENT_MISS_CONFIRMATION_ATTEMPTS_def)
next
  case False
  with assms(2) show ?thesis
    by (auto simp: agent_found_def Let_def detector_shown_def detector_inv_def detector_view_Some
        AGENT_MISS_CONFIRMATION_ATTEMPTS_def)
qed

lemma agent_exited_shown: "detector_shown (agent_exited now d) None"
  by (simp add: agent_exited_def detector_shown_def detector_inv_def detector_view_def
      AGENT_MISS_CONFIRMATION_ATTEMPTS_def)

lemma agent_missing_shown:
  assumes "detector_shown d c" and "agent_missing result now d = (out, d')"
  shows "detector_shown d' (receive_publish out c)"
proof -
  consider (none) "d_agent d = None" "out = PubNothing" "d' = d\<lparr>d_misses := 0\<rparr>"
    | (gone) d1 where "out = PubCleared" "d' = agent_exited now d1"
    | (stays) "out = PubNothing" "d' = d"
    | (miss) "d_agent d \<noteq> None" "out = PubNothing" "d' = d\<lparr>d_misses := min (d_misses d + 1) 255\<rparr>"
        "min (d_misses d + 1) 255 < AGENT_MISS_CONFIRMATION_ATTEMPTS"
    using assms(2) by (fastforce simp: agent_missing_def Let_def split: if_splits)
  then show ?thesis
  proof cases
    case none
    with assms(1) show ?thesis
      by (simp add: detector_shown_def detector_inv_def AGENT_MISS_CONFIRMATION_ATTEMPTS_def)
  next
    case miss
    with assms(1) show ?thesis by (auto simp: detector_shown_def detector_inv_def)
  qed (use assms(1) agent_exited_shown in simp_all)
qed

lemma observe_process_shown:
  assumes "detector_shown d c" and "observe_process result now d = (out, d')"
  shows "detector_shown d' (receive_publish out c)"
proof -
  let ?d = "d\<lparr>d_last_process_probe := Some now, d_last_probe := Some result\<rparr>"
  have shown: "detector_shown ?d c" using assms(1) by simp
  show ?thesis
    using assms(2) agent_found_shown [OF shown] agent_missing_shown [OF shown]
    by (cases result) (auto simp: observe_process_def Let_def)
qed

lemma track_prompt_Some:
  assumes "track_prompt e d = Some d'"
  obtains p where "d' = d\<lparr>d_prompt_id := p\<rparr>"
proof -
  have "d' = d\<lparr>d_prompt_id := None\<rparr> \<or> d' = d\<lparr>d_prompt_id := ev_prompt_id e\<rparr> \<or> d' = d"
    using assms by (cases "ev_event e") (auto simp: track_prompt_def split: if_splits)
  then show ?thesis using that [of "d_prompt_id d"] that by auto
qed

lemma prompt_tracked:
  assumes "(if b then track_prompt e d else Some d) = Some d'"
  obtains p where "d' = d\<lparr>d_prompt_id := p\<rparr>"
proof (cases b)
  case True
  with assms track_prompt_Some that show ?thesis by (metis (full_types))
next
  case False
  with assms that [of "d_prompt_id d"] show ?thesis by simp
qed

lemma event_resume_form:
  obtains rr r where "event_resume e a sid d = d\<lparr>d_restoring := r, d_resume := rr\<rparr>"
proof (cases "ev_session_id e \<noteq> None \<or> fresh_conversation e")
  case True
  then show ?thesis using that [of "Some (resume_of a sid)" None] by (simp add: event_resume_def)
next
  case False
  then show ?thesis using that [of "d_resume d" "d_restoring d"] by (simp add: event_resume_def)
qed

lemma event_effect_detail:
  assumes "detector_inv d" and "d_state d = Some st" and "event_effect e st d = (nxt, det)" and "det \<noteq> None"
  shows "nxt = Blocked \<or> nxt = Error \<and> d_program_status d"
  using assms by (auto simp: event_effect_def detector_inv_def Let_def split: if_splits)

lemma event_outcome:
  assumes "agent_hooks (ev_agent e) = Some hooks" and "detector_seed (ev_agent e) d = (named, d1)"
    and "observe_event e d = (out, d')"
  obtains (dropped) "out = PubNothing" "d' = d1"
    | (counted) d2 st where "d_agent d1 = Some (ev_agent e)"
        "(if is_some_and (agent_hooks (ev_agent e)) hs_prompt_ids then track_prompt e d1 else Some d1) = Some d2"
        "d_state d1 = Some st"
        "observe_event e d = (let session_id = event_session e d2;
           d = event_resume e (ev_agent e) session_id d2; (nxt, detail) = event_effect e st d
           in detector_commit nxt session_id detail d)"
proof (cases "named \<and> d_agent d1 = Some (ev_agent e) \<and> d_state d1 \<noteq> None
    \<and> (if is_some_and (agent_hooks (ev_agent e)) hs_prompt_ids then track_prompt e d1 else Some d1) \<noteq> None")
  case True
  then obtain d2 st where "d_agent d1 = Some (ev_agent e)" "d_state d1 = Some st"
      "(if is_some_and (agent_hooks (ev_agent e)) hs_prompt_ids then track_prompt e d1 else Some d1) = Some d2"
    by blast
  with True assms(1,2) show ?thesis
    by (intro counted) (simp_all add: observe_event_def)
next
  case False
  with assms have "(out, d') = (PubNothing, d1)"
    by (simp add: observe_event_def split: option.splits if_splits)
  then show ?thesis by (intro dropped) simp_all
qed

lemma observe_event_shown:
  assumes shown: "detector_shown d c" and step: "observe_event e d = (out, d')"
  shows "detector_shown d' (receive_publish out c)"
proof (cases "agent_hooks (ev_agent e)")
  case (Some hooks)
  obtain named d1 where seed: "detector_seed (ev_agent e) d = (named, d1)" by fastforce
  note s = seed_shown [OF shown seed]
  let ?track = "if is_some_and (agent_hooks (ev_agent e)) hs_prompt_ids then track_prompt e d1 else Some d1"
  consider (dropped) "out = PubNothing" "d' = d1"
    | (counted) d2 st where "d_agent d1 = Some (ev_agent e)" "?track = Some d2" "d_state d1 = Some st"
        "observe_event e d = (let session_id = event_session e d2;
           d = event_resume e (ev_agent e) session_id d2; (nxt, detail) = event_effect e st d
           in detector_commit nxt session_id detail d)"
    by (rule event_outcome [OF Some seed step])
  then show ?thesis
  proof cases
    case dropped
    with s(1) show ?thesis by simp
  next
    case counted
    note agent = counted(1) and st = counted(3)
    from counted(2) obtain p where p: "d2 = d1\<lparr>d_prompt_id := p\<rparr>"
      by (rule prompt_tracked)
    define sid where "sid = event_session e d2"
    obtain r rr where d3: "event_resume e (ev_agent e) sid d2 = d2\<lparr>d_restoring := r, d_resume := rr\<rparr>"
      using event_resume_form by blast
    obtain nxt det where nd: "event_effect e st (d2\<lparr>d_restoring := r, d_resume := rr\<rparr>) = (nxt, det)"
      by fastforce
    have commit: "detector_commit nxt sid det (d2\<lparr>d_restoring := r, d_resume := rr\<rparr>) = (out, d')"
      using step counted(4) nd d3 by (simp add: sid_def Let_def)
    have d4: "d2\<lparr>d_restoring := r, d_resume := rr\<rparr> = d1\<lparr>d_prompt_id := p, d_restoring := r,
        d_resume := rr, d_program_status := d_program_status d1\<rparr>" using p by simp
    have "event_effect e st d1 = (nxt, det)" using nd by (simp add: event_effect_def p Let_def split: if_splits)
    then have "det \<noteq> None \<Longrightarrow> nxt = Blocked \<or> nxt = Error \<and> d_program_status d1"
      using event_effect_detail s(1) st by (simp add: detector_shown_def)
    from commit_shown [OF s(1) agent st d4 commit this] show ?thesis .
  qed
qed (use step shown in \<open>simp add: observe_event_def\<close>)

lemma observe_status_shown:
  assumes shown: "detector_shown d c" and step: "observe_status to_lowercase status d = (out, d')"
  shows "detector_shown d' (receive_publish out c)"
proof (cases "st_id status")
  case None
  let ?app = "map_option (parse_label to_lowercase) (st_app status)"
  obtain named d1 where seed: "(case ?app of Some (Some reporter) \<Rightarrow> detector_seed reporter d
      | _ \<Rightarrow> (True, d)) = (named, d1)" by fastforce
  then have s: "detector_shown d1 c"
    using shown seed_shown(1) by (auto split: option.splits)
  show ?thesis
  proof (cases "named \<and> d_agent d1 \<noteq> None \<and> \<not> is_some_and ?app (\<lambda>reporter. reporter \<noteq> d_agent d1)")
    case False
    with step None seed have "out = PubNothing" "d' = d1"
      by (auto simp: observe_status_def Let_def split: option.splits if_splits)
    with s show ?thesis by simp
  next
    case True
    then obtain a where agent: "d_agent d1 = Some a" by auto
    with s obtain st where st: "d_state d1 = Some st" by (auto simp: detector_shown_def detector_inv_def)
    let ?d2 = "if \<not> d_program_status d1 \<and> st_state status \<noteq> PsClear
        then d1\<lparr>d_program_status := True\<rparr> else d1"
    let ?nxt = "program_state_of (st_state status)"
    let ?det = "if ?nxt = Blocked then (case st_msg status of Some m \<Rightarrow> Some m
          | None \<Rightarrow> map_option blocked_label (st_kind status))
        else if ?nxt = Error then st_msg status else None"
    have commit: "detector_commit ?nxt (d_session_id ?d2) ?det ?d2 = (out, d')"
      using step None seed True agent by (simp add: observe_status_def Let_def)
    have d2: "?d2 = d1\<lparr>d_prompt_id := d_prompt_id d1, d_restoring := d_restoring d1,
        d_resume := d_resume d1, d_program_status := d_program_status ?d2\<rparr>" by simp
    have "?det \<noteq> None \<Longrightarrow> ?nxt = Blocked \<or> ?nxt = Error \<and> d_program_status ?d2"
      by (cases "st_state status") (auto simp: program_state_of_def)
    from commit_shown [OF s agent st d2 commit this] show ?thesis .
  qed
qed (use step shown in \<open>simp add: observe_status_def\<close>)

lemma observe_prompt_start_shown:
  assumes shown: "detector_shown d c" and step: "observe_prompt_start d = (out, d')"
  shows "detector_shown d' (receive_publish out c)"
proof (cases "\<not> d_program_status d \<or> d_state d \<notin> {Some Working, Some Blocked}")
  case False
  with shown obtain a st where agent: "d_agent d = Some a" "d_state d = Some st"
    by (auto simp: detector_shown_def detector_inv_def)
  have commit: "detector_commit Unknown (d_session_id d) None d = (out, d')"
    using step False by (auto simp: observe_prompt_start_def)
  have same: "d = d\<lparr>d_prompt_id := d_prompt_id d, d_restoring := d_restoring d,
      d_resume := d_resume d, d_program_status := d_program_status d\<rparr>" by simp
  show ?thesis by (rule commit_shown [OF shown agent same commit]) simp
qed (use step shown in \<open>auto simp: observe_prompt_start_def\<close>)

lemma observe_reset_shown:
  assumes shown: "detector_shown d c" and step: "observe_reset d = (out, d')"
  shows "detector_shown d' (receive_publish out c)"
proof (cases "d_program_status d")
  case True
  with shown obtain a st where agent: "d_agent d = Some a" "d_state d = Some st"
    by (auto simp: detector_shown_def detector_inv_def)
  have commit: "detector_commit Unknown (d_session_id d) None (d\<lparr>d_program_status := False\<rparr>) = (out, d')"
    using step True by (simp add: observe_reset_def)
  have same: "d\<lparr>d_program_status := False\<rparr> = d\<lparr>d_prompt_id := d_prompt_id d, d_restoring := d_restoring d,
      d_resume := d_resume d, d_program_status := False\<rparr>" by simp
  show ?thesis by (rule commit_shown [OF shown agent same commit]) simp
qed (use step shown in \<open>auto simp: observe_reset_def\<close>)

lemma probe_query_state: "snd (wants_process_probe now force activity d) = note_activity now force activity d"
  by (simp add: wants_process_probe_def Let_def)

lemma note_activity_shown: "detector_shown (note_activity now force activity d) c = detector_shown d c"
  by (simp add: note_activity_def Let_def)

lemma observe_shown:
  assumes shown: "detector_shown d c" and step: "observe to_lowercase obs d = (out, d')"
  shows "detector_shown d' (receive_publish out c)"
proof (cases obs)
  case (ObsProbeQuery now force activity)
  with step shown show ?thesis by (auto simp: observe_def probe_query_state note_activity_shown)
next
  case (ObsRestore resume)
  with step shown show ?thesis by (auto simp: observe_def detector_restore_def)
qed (use step shown in \<open>auto simp: observe_def intro: observe_process_shown observe_event_shown
      observe_status_shown observe_prompt_start_shown observe_reset_shown\<close>)

interpretation detector: replica "observe to_lowercase" receive_publish detector_shown
  by unfold_locales (rule observe_shown)

lemma detector_new_shown: "detector_shown detector_new None"
  by (simp add: detector_shown_def detector_inv_def detector_view_def detector_new_def
      AGENT_MISS_CONFIRMATION_ATTEMPTS_def)

text \<open>The monitor of a Pane, and the snapshot it last published.\<close>

definition detector_watch ::
  "(rstr \<Rightarrow> rstr) \<Rightarrow> observation \<Rightarrow> agent_detector \<times> agent_snapshot option
    \<Rightarrow> agent_detector \<times> agent_snapshot option" where
  "detector_watch to_lowercase obs dc =
     (let (out, d) = observe to_lowercase obs (fst dc) in (d, receive_publish out (snd dc)))"

lemma detector_watch_follow: "detector_watch to_lowercase = detector.follow to_lowercase"
  by (simp add: fun_eq_iff detector_watch_def detector.follow_def)

lemma watch_shown:
  "fold (detector_watch to_lowercase) obs (detector_new, None) = (d, shown) \<Longrightarrow> detector_shown d shown"
  using detector.run_agrees [of "(detector_new, None)" to_lowercase obs] detector_new_shown
  by (simp add: detector_watch_follow)

end
