(* ===== verification/Agent_Process.thy ===== *)
theory Agent_Process
  imports Agent_Detector
begin

text \<open>
  Naming the agent of a terminal from its processes (\<open>agent/process.rs\<close>), and the hook's side of
  a report: which event an invocation stands for, its detail (\<open>agent/hook.rs\<close>), and whether the
  agent that ran the hook is the Pane's own (\<open>Ancestors\<close> of \<open>agent/hook/report.rs\<close>). The file
  system (\<open>canonicalize\<close>) is a parameter, as is the table of running processes.
\<close>

section \<open>String operations of the standard library\<close>

definition trim_start :: "rstr \<Rightarrow> rstr" where "trim_start s = dropWhile is_whitespace s"

definition trim_matches :: "(nat \<Rightarrow> bool) \<Rightarrow> rstr \<Rightarrow> rstr" where
  "trim_matches p s = rev (dropWhile p (rev (dropWhile p s)))"

definition to_ascii_lowercase :: "rstr \<Rightarrow> rstr" where
  "to_ascii_lowercase s = map (\<lambda>c. if 65 \<le> c \<and> c \<le> 90 then c + 32 else c) s"

definition starts_with :: "rstr \<Rightarrow> rstr \<Rightarrow> bool" where
  "starts_with s pre \<longleftrightarrow> take (length pre) s = pre"

fun str_contains :: "rstr \<Rightarrow> rstr \<Rightarrow> bool" where
  "str_contains [] pat = (pat = [])"
| "str_contains (c # s) pat = (starts_with (c # s) pat \<or> str_contains s pat)"

text \<open>The first item of \<open>split_whitespace\<close>.\<close>

definition first_word :: "rstr \<Rightarrow> rstr option" where
  "first_word s = (let w = takeWhile (\<lambda>c. \<not> is_whitespace c) (trim_start s) in if w = [] then None else Some w)"

section \<open>Identifying a process\<close>

record process_info =
  pi_name :: rstr
  pi_argv :: "rstr list option"

definition known_shells :: "rstr list" where
  "known_shells = map str_lit [''sh'', ''bash'', ''dash'', ''zsh'', ''fish'', ''ksh'', ''mksh'',
     ''csh'', ''tcsh'', ''elvish'', ''xonsh'', ''nu'', ''pwsh'', ''powershell'', ''cmd'']"

definition is_shell :: "(rstr \<Rightarrow> rstr) \<Rightarrow> rstr \<Rightarrow> bool" where
  "is_shell to_lowercase name \<longleftrightarrow>
     normalized_lookup_name to_lowercase (path_basename name) \<in> set known_shells"

definition is_runtime_or_shell :: "(rstr \<Rightarrow> rstr) \<Rightarrow> rstr \<Rightarrow> bool" where
  "is_runtime_or_shell to_lowercase name \<longleftrightarrow>
     (let normalized = normalized_lookup_name to_lowercase (path_basename name) in
      starts_with normalized (str_lit ''python'')
      \<or> normalized = str_lit ''node'' \<or> normalized = str_lit ''bun''
      \<or> is_shell to_lowercase name)"

definition command_flags :: "rstr list" where
  "command_flags = map str_lit [''-c'', ''/c'', ''/k'', ''-command'', ''/command'']"

definition inline_flags :: "rstr list" where
  "inline_flags = map str_lit [''-e'', ''--eval'', ''-p'', ''--print'', ''-m'', ''-encodedcommand'', ''-enc'']"

definition script_flags :: "rstr list" where
  "script_flags = map str_lit [''-file'', ''-f'', ''--'']"

definition is_switch :: "rstr \<Rightarrow> bool" where
  "is_switch flag \<longleftrightarrow> starts_with flag [45] \<or> (starts_with flag [47] \<and> 47 \<notin> set (tl flag))"

definition next_arg :: "rstr list \<Rightarrow> rstr option" where
  "next_arg args = (case args of [] \<Rightarrow> None | a # _ \<Rightarrow> Some a)"

fun wrapped_args :: "rstr list \<Rightarrow> rstr option" where
  "wrapped_args [] = None"
| "wrapped_args (arg # args) =
     (let flag = to_ascii_lowercase (trim_matches (\<lambda>c. c = 34) arg) in
      if flag \<in> set command_flags then
        (case next_arg args of
           None \<Rightarrow> None
         | Some command \<Rightarrow> first_word (dropWhile (\<lambda>c. c = 38 \<or> c = 46) (trim_start command)))
      else if flag \<in> set inline_flags then None
      else if flag \<in> set script_flags then next_arg args
      else if is_switch flag then wrapped_args args
      else Some arg)"

definition wrapped_command :: "rstr list \<Rightarrow> rstr option" where
  "wrapped_command argv = wrapped_args (drop 1 argv)"

definition package_path :: "rstr \<Rightarrow> rstr" where
  "package_path package = str_lit ''/node_modules/'' @ package @ [47]"

definition agent_from_path_token ::
  "(rstr \<Rightarrow> rstr) \<Rightarrow> (rstr \<Rightarrow> rstr option) \<Rightarrow> rstr \<Rightarrow> agent_kind option" where
  "agent_from_path_token to_lowercase resolved_name token =
     (let path = trim_matches (\<lambda>c. c = 34 \<or> c = 39) token in
      if path = [] then None
      else case parse_label to_lowercase path of
        Some agent \<Rightarrow> Some agent
      | None \<Rightarrow>
          let lower = to_ascii_lowercase (map (\<lambda>c. if c = 92 then 47 else c) path) in
          (case find (\<lambda>agent. list_ex (\<lambda>package. str_contains lower (package_path package))
                        (as_packages (agent_kind_spec agent))) all_agents of
             Some agent \<Rightarrow> Some agent
           | None \<Rightarrow>
               (case resolved_name path of
                  None \<Rightarrow> None
                | Some name \<Rightarrow> parse_label to_lowercase name)))"

definition identify_agent_process ::
  "(rstr \<Rightarrow> rstr) \<Rightarrow> (rstr \<Rightarrow> rstr option) \<Rightarrow> process_info \<Rightarrow> agent_kind option" where
  "identify_agent_process to_lowercase resolved_name process =
     (let argv0 = (case pi_argv process of Some (a # _) \<Rightarrow> Some a | _ \<Rightarrow> None);
          named = (case parse_label to_lowercase (pi_name process) of
              Some agent \<Rightarrow> Some agent
            | None \<Rightarrow> (case argv0 of Some a \<Rightarrow> parse_label to_lowercase a | None \<Rightarrow> None)) in
      case named of
        Some agent \<Rightarrow> Some agent
      | None \<Rightarrow>
          (case pi_argv process of
             None \<Rightarrow> None
           | Some argv \<Rightarrow>
               if \<not> is_runtime_or_shell to_lowercase
                      (case argv0 of Some a \<Rightarrow> a | None \<Rightarrow> pi_name process) then None
               else (case wrapped_command argv of
                       None \<Rightarrow> None
                     | Some token \<Rightarrow> agent_from_path_token to_lowercase resolved_name token)))"

text \<open>The loop of \<open>identify_agent_among\<close>, with the first agent found through a wrapper.\<close>

fun identify_among ::
  "(rstr \<Rightarrow> rstr) \<Rightarrow> (rstr \<Rightarrow> rstr option) \<Rightarrow> agent_kind option \<Rightarrow> process_info list \<Rightarrow> agent_kind option" where
  "identify_among to_lowercase resolved_name wrapped [] = wrapped"
| "identify_among to_lowercase resolved_name wrapped (process # processes) =
     (case identify_agent_process to_lowercase resolved_name process of
        None \<Rightarrow> identify_among to_lowercase resolved_name wrapped processes
      | Some agent \<Rightarrow>
          if parse_label to_lowercase (pi_name process) \<noteq> None then Some agent
          else identify_among to_lowercase resolved_name
                 (case wrapped of Some w \<Rightarrow> Some w | None \<Rightarrow> Some agent) processes)"

definition identify_agent_among ::
  "(rstr \<Rightarrow> rstr) \<Rightarrow> (rstr \<Rightarrow> rstr option) \<Rightarrow> process_info list \<Rightarrow> agent_kind option" where
  "identify_agent_among to_lowercase resolved_name processes =
     identify_among to_lowercase resolved_name None processes"

section \<open>What a hook invocation reports\<close>

definition or_else :: "'a option \<Rightarrow> 'a option \<Rightarrow> 'a option" where
  "or_else a b = (case a of Some x \<Rightarrow> Some x | None \<Rightarrow> b)"

definition hook_detail :: "hook_input \<Rightarrow> agent_event_kind \<Rightarrow> rstr option" where
  "hook_detail input event =
     (let raw = (case event of
          QuestionAsked \<Rightarrow> or_else (hi_detail input) (or_else (hi_question input) (hi_message input))
        | PermissionRequest \<Rightarrow>
            or_else (hi_detail input)
              (case (hi_tool_name input, hi_command input) of
                 (Some tool, Some command) \<Rightarrow> Some (tool @ str_lit '': '' @ command)
               | (Some tool, None) \<Rightarrow> Some tool
               | (None, Some command) \<Rightarrow> Some command
               | (None, None) \<Rightarrow> hi_message input)
        | _ \<Rightarrow> None)
      in case raw of None \<Rightarrow> None | Some raw \<Rightarrow> bound_detail raw)"

definition hook_event :: "hook_input \<Rightarrow> agent_kind \<Rightarrow> agent_event_kind \<Rightarrow> agent_event_kind option" where
  "hook_event input agent event =
     (if hi_subagent input then None
      else case agent_hooks agent of
        None \<Rightarrow> Some event
      | Some hooks \<Rightarrow>
          (case (case hs_adjust hooks of Some adjust \<Rightarrow> adjust input event | None \<Rightarrow> Some event) of
             None \<Rightarrow> None
           | Some event \<Rightarrow>
               Some (if event = ToolStart \<and> hs_question_tool hooks \<noteq> None
                        \<and> hi_tool_name input = hs_question_tool hooks
                     then QuestionAsked else event)))"

section \<open>Whose hook it is\<close>

text \<open>The processes above the hook, nearest first; \<open>an_cmd\<close> is the command line, empty where the
  table has none. The walk looks at 24 of them at most.\<close>

record ancestor =
  an_pid :: nat
  an_name :: rstr
  an_cmd :: "rstr list"

record ancestors =
  as_nested :: bool
  as_pane_process :: "nat option"

definition ancestor_front :: "ancestor \<Rightarrow> rstr" where
  "ancestor_front a = (case an_cmd a of c # _ \<Rightarrow> c | [] \<Rightarrow> an_name a)"

definition ancestor_info :: "ancestor \<Rightarrow> process_info" where
  "ancestor_info a = \<lparr>pi_name = an_name a, pi_argv = (if an_cmd a = [] then None else Some (an_cmd a))\<rparr>"

definition is_condr_server :: "(rstr \<Rightarrow> rstr) \<Rightarrow> ancestor \<Rightarrow> bool" where
  "is_condr_server to_lowercase a \<longleftrightarrow>
     normalized_lookup_name to_lowercase (path_basename (ancestor_front a)) = str_lit ''condr''
     \<and> (case an_cmd a of _ # arg # _ \<Rightarrow> arg = str_lit ''server'' | _ \<Rightarrow> False)"

fun ancestors_walk ::
  "(rstr \<Rightarrow> rstr) \<Rightarrow> (rstr \<Rightarrow> rstr option) \<Rightarrow> agent_kind \<Rightarrow> bool \<Rightarrow> bool \<Rightarrow> nat option
    \<Rightarrow> ancestor list \<Rightarrow> ancestors" where
  "ancestors_walk to_lowercase resolved_name agent separated agent_seen child [] =
     \<lparr>as_nested = False, as_pane_process = None\<rparr>"
| "ancestors_walk to_lowercase resolved_name agent separated agent_seen child (a # up) =
     (if is_shell to_lowercase (ancestor_front a)
      then ancestors_walk to_lowercase resolved_name agent True agent_seen (Some (an_pid a)) up
      else case identify_agent_process to_lowercase resolved_name (ancestor_info a) of
        Some actual \<Rightarrow>
          if actual \<noteq> agent \<or> (separated \<and> agent_seen)
          then \<lparr>as_nested = True, as_pane_process = None\<rparr>
          else ancestors_walk to_lowercase resolved_name agent False True (Some (an_pid a)) up
      | None \<Rightarrow>
          if is_condr_server to_lowercase a then \<lparr>as_nested = False, as_pane_process = child\<rparr>
          else ancestors_walk to_lowercase resolved_name agent separated agent_seen (Some (an_pid a)) up)"

definition ANCESTOR_LIMIT :: nat where "ANCESTOR_LIMIT = 24"

definition ancestors_of ::
  "(rstr \<Rightarrow> rstr) \<Rightarrow> (rstr \<Rightarrow> rstr option) \<Rightarrow> agent_kind \<Rightarrow> ancestor list \<Rightarrow> ancestors" where
  "ancestors_of to_lowercase resolved_name agent chain =
     ancestors_walk to_lowercase resolved_name agent True False None (take ANCESTOR_LIMIT chain)"

section \<open>Facts\<close>

text \<open>What one ancestor is to the walk.\<close>

datatype ancestor_class = AnShell | AnAgent agent_kind | AnServer | AnOther

definition classify_ancestor ::
  "(rstr \<Rightarrow> rstr) \<Rightarrow> (rstr \<Rightarrow> rstr option) \<Rightarrow> ancestor \<Rightarrow> ancestor_class" where
  "classify_ancestor to_lowercase resolved_name a =
     (if is_shell to_lowercase (ancestor_front a) then AnShell
      else case identify_agent_process to_lowercase resolved_name (ancestor_info a) of
        Some k \<Rightarrow> AnAgent k
      | None \<Rightarrow> if is_condr_server to_lowercase a then AnServer else AnOther)"

lemma identify_among_spec:
  "identify_among lower res w ps =
     (case find (\<lambda>p. parse_label lower (pi_name p) \<noteq> None) ps of
        Some p \<Rightarrow> parse_label lower (pi_name p)
      | None \<Rightarrow> or_else w (case find (\<lambda>p. identify_agent_process lower res p \<noteq> None) ps of
                    Some p \<Rightarrow> identify_agent_process lower res p | None \<Rightarrow> None))"
proof (induction ps arbitrary: w)
  case Nil
  then show ?case by (simp add: or_else_def split: option.splits)
next
  case (Cons p ps)
  show ?case
  proof (cases "parse_label lower (pi_name p)")
    case (Some k)
    then have "identify_agent_process lower res p = Some k" by (simp add: identify_agent_process_def Let_def)
    with Some show ?thesis by simp
  next
    case None
    with Cons show ?thesis
      by (cases "identify_agent_process lower res p"; cases w) (simp_all add: or_else_def split: option.splits)
  qed
qed

lemma space_printable: "\<not> is_control 32" and ellipsis_printable: "\<not> is_control 8230"
  by (simp_all add: is_control_def)

lemma squeeze_printable:
  "list_all (\<lambda>c. \<not> is_control c) d \<Longrightarrow> list_all (\<lambda>c. \<not> is_control c) (squeeze raw d sp)"
proof (induction raw d sp rule: squeeze.induct)
  case (2 ch rest detail space)
  then show ?case
    by (cases "is_control ch \<or> is_whitespace ch"; cases space) (simp_all add: space_printable)
qed simp

lemma list_all_take: "list_all P xs \<Longrightarrow> list_all P (take n xs)"
  by (auto simp: list_all_iff dest: in_set_takeD)

lemma bound_detail_valid_lemma:
  assumes "bound_detail raw = Some d"
  shows "valid_detail d"
proof -
  let ?s = "trim_end (squeeze raw [] True)"
  have ok: "list_all (\<lambda>c. \<not> is_control c) ?s"
    using squeeze_printable [of "[]" raw True] set_trim_end [of "squeeze raw [] True"]
    by (auto simp: list_all_iff)
  have "valid_detail d" if "d = ?s" "?s \<noteq> []" "length ?s \<le> MAX_DETAIL_CHARS"
    using that ok by (simp add: valid_detail_def list_ex_iff list_all_iff)
  moreover have "valid_detail d" if "d = take (MAX_DETAIL_CHARS - 1) ?s @ [8230]"
    using that list_all_take [OF ok, of "MAX_DETAIL_CHARS - 1"] ellipsis_printable
    by (simp add: valid_detail_def list_ex_iff list_all_iff MAX_DETAIL_CHARS_def)
  ultimately show ?thesis
    using assms by (simp add: bound_detail_def Let_def split: if_splits)
qed

end
