(* ===== verification/Agent_Properties.thy ===== *)
theory Agent_Properties
  imports Agent_Process
begin

text \<open>
  What holds of agents: the published snapshot keeps up with the detector over any run, exits are
  confirmed, foreign and stale reports change nothing, the process table is read often enough and
  no more, details and events survive their encoding, and processes are named and nested hooks
  recognized as their specifications say.
\<close>

section \<open>Helper lemmas\<close>

lemma missing_run:
  assumes "d_agent d = Some a" and "\<not> d_seeded d" and "d_misses d < AGENT_MISS_CONFIRMATION_ATTEMPTS"
  shows "d_agent (fold (\<lambda>now d. snd (observe_process Unidentified now d)) ts d)
       = (if d_misses d + length ts < AGENT_MISS_CONFIRMATION_ATTEMPTS then Some a else None)"
  using assms
proof (induction ts arbitrary: d)
  case (Cons t ts)
  let ?d = "snd (observe_process Unidentified t d)"
  have gone: "d_agent (fold (\<lambda>now d. snd (observe_process Unidentified now d)) ts d') = None"
    if "d_agent d' = None" for d'
    using that by (induction ts arbitrary: d') (simp_all add: observe_process_def agent_missing_def Let_def)
  show ?case
  proof (cases "d_misses d + 1 < AGENT_MISS_CONFIRMATION_ATTEMPTS")
    case True
    then have "d_agent ?d = Some a" "\<not> d_seeded ?d" "d_misses ?d = d_misses d + 1"
      using Cons.prems
      by (simp_all add: observe_process_def agent_missing_def Let_def AGENT_MISS_CONFIRMATION_ATTEMPTS_def)
    with Cons.IH [of ?d] True show ?thesis by simp
  next
    case False
    then have "d_agent ?d = None"
      using Cons.prems by (simp add: observe_process_def agent_missing_def agent_exited_def Let_def
          AGENT_MISS_CONFIRMATION_ATTEMPTS_def)
    with gone False show ?thesis by simp
  qed
qed simp

lemma seeded_run:
  assumes "d_agent d = Some a" and "d_seeded d"
  shows "d_agent (fold (\<lambda>now d. snd (observe_process Unidentified now d)) ts d) = Some a"
  using assms
  by (induction ts arbitrary: d) (simp_all add: observe_process_def agent_missing_def Let_def)

lemma event_counts:
  assumes "d_agent d = Some a" and "d_state d = Some st" and "ev_agent e = a"
    and "agent_hooks a = Some hooks" and "\<not> hs_prompt_ids hooks"
  shows "observe_event e d = (let session_id = event_session e d;
           d = event_resume e a session_id d; (nxt, detail) = event_effect e st d
           in detector_commit nxt session_id detail d)"
  using assms by (simp add: observe_event_def detector_seed_def is_some_and_def)

lemma commit_fields:
  assumes "d_agent d = Some a" and "d_state d = Some st"
  shows "d_agent (snd (detector_commit nxt sid det d)) = Some a
    \<and> d_state (snd (detector_commit nxt sid det d)) = Some nxt
    \<and> d_session_id (snd (detector_commit nxt sid det d)) = sid
    \<and> d_detail (snd (detector_commit nxt sid det d)) = det
    \<and> d_prompt_id (snd (detector_commit nxt sid det d)) = d_prompt_id d"
  using assms by (auto simp: detector_commit_def)

lemma event_resume_fields [simp]:
  "d_agent (event_resume e a sid d) = d_agent d" "d_state (event_resume e a sid d) = d_state d"
  "d_program_status (event_resume e a sid d) = d_program_status d"
  "d_detail (event_resume e a sid d) = d_detail d"
  "d_prompt_id (event_resume e a sid d) = d_prompt_id d"
  by (simp_all add: event_resume_def)

lemma squeeze_keeps_prefix: "\<exists>xs. squeeze raw d sp = d @ xs"
proof (induction raw d sp rule: squeeze.induct)
  case (2 ch rest detail space)
  then show ?case by (cases "is_control ch \<or> is_whitespace ch"; cases space) fastforce+
qed simp

lemma squeeze_keeps_printable:
  assumes "c \<in> set raw" and "\<not> is_control c" and "\<not> is_whitespace c"
  shows "c \<in> set (squeeze raw d sp)"
  using assms
proof (induction raw d sp rule: squeeze.induct)
  case (2 ch rest detail space)
  obtain xs where "squeeze rest (detail @ [ch]) False = (detail @ [ch]) @ xs"
    using squeeze_keeps_prefix by blast
  with 2 show ?case by (cases "is_control ch \<or> is_whitespace ch"; cases space; cases "c = ch") auto
qed simp

lemma squeeze_blank:
  "(\<forall>c \<in> set raw. is_control c \<or> is_whitespace c) \<Longrightarrow> squeeze raw d True = d"
  by (induction raw arbitrary: d) auto

lemma bound_detail_None:
  "bound_detail raw = None \<longleftrightarrow> (\<forall>c \<in> set raw. is_control c \<or> is_whitespace c)"
proof
  assume "bound_detail raw = None"
  then have "trim_end (squeeze raw [] True) = []" by (simp add: bound_detail_def Let_def split: if_splits)
  then have "\<forall>c \<in> set (squeeze raw [] True). is_whitespace c" by (simp add: trim_end_Nil_iff)
  with squeeze_keeps_printable show "\<forall>c \<in> set raw. is_control c \<or> is_whitespace c" by blast
next
  assume "\<forall>c \<in> set raw. is_control c \<or> is_whitespace c"
  then show "bound_detail raw = None" by (simp add: bound_detail_def squeeze_blank trim_end_def)
qed

lemma encode_sequence:
  obtains e' where "event_encode json e = event_sequence json e'"
    and "ev_version e' = ev_version e" "ev_agent e' = ev_agent e" "ev_event e' = ev_event e"
    and "ev_session_id e' = ev_session_id e"
    and "ev_detail e' \<in> {ev_detail e, None}" "ev_source e' \<in> {ev_source e, None}"
    and "ev_prompt_id e' \<in> {ev_prompt_id e, None}"
    and "length (event_sequence json e) \<le> MAX_AGENT_EVENT_BYTES \<Longrightarrow> e' = e"
    and "length (event_sequence json e') \<le> MAX_AGENT_EVENT_BYTES \<or> optional_fields e' = 0"
proof (induction json e arbitrary: thesis rule: event_encode.induct)
  case (1 json e)
  show ?case
  proof (cases "length (event_sequence json e) \<le> MAX_AGENT_EVENT_BYTES")
    case True
    then have "event_encode json e = event_sequence json e" by (simp add: event_encode.simps)
    with True "1.prems" [of e] show ?thesis by simp
  next
    case False
    show ?thesis
    proof (cases "drop_field e")
      case None
      with False have "event_encode json e = event_sequence json e" by (simp add: event_encode.simps)
      moreover from None have "optional_fields e = 0"
        by (simp add: drop_field_def optional_fields_def split: if_splits)
      ultimately show ?thesis using False "1.prems" [of e] by simp
    next
      case (Some e1)
      with False have enc: "event_encode json e = event_encode json e1"
        by (subst event_encode.simps) simp
      have "ev_version e1 = ev_version e" "ev_agent e1 = ev_agent e" "ev_event e1 = ev_event e"
        "ev_session_id e1 = ev_session_id e" "ev_detail e1 \<in> {ev_detail e, None}"
        "ev_source e1 \<in> {ev_source e, None}" "ev_prompt_id e1 \<in> {ev_prompt_id e, None}"
        using Some by (auto simp: drop_field_def split: if_splits)
      with "1.IH" [OF False Some] enc False "1.prems" show ?thesis by (metis insert_iff empty_iff)
    qed
  qed
qed

lemma event_sequence_payload:
  "drop 2 (butlast (event_sequence json e)) = str_bytes AGENT_EVENT_OSC_PREFIX @ json e"
  by (simp add: event_sequence_def butlast_append)

section \<open>Properties\<close>



definition claude_found :: agent_detector where
  "claude_found = snd (observe_process (ProbeAgent Claude) 0 detector_new)"

lemma claude_found_facts:
  "detector_inv claude_found" "d_agent claude_found = Some Claude" "d_state claude_found = Some Unknown"
  "d_last_process_probe claude_found = Some 0" "d_seeded claude_found = False" "d_misses claude_found = 0"
  "d_prompt_id claude_found = None" "d_program_status claude_found = False"
  by (simp_all add: claude_found_def observe_process_def agent_found_def detector_new_def
      detector_inv_def AGENT_MISS_CONFIRMATION_ATTEMPTS_def)


text \<open>A report that is not the Pane's agent's changes nothing at all: one naming another agent than
  the one found there, one from an agent Condr only recognizes, and one that arrives while no
  unnamed foreground job could be running an agent.\<close>

theorem foreign_event_dropped:
  assumes "agent_hooks (ev_agent e) = None \<or> (\<exists>a. d_agent d = Some a \<and> a \<noteq> ev_agent e)
    \<or> d_agent d = None \<and> d_last_probe d \<noteq> Some Unidentified"
  shows "observe_event e d = (PubNothing, d)"
  using assms by (auto simp: observe_event_def detector_seed_def split: option.splits)

theorem foreign_event_dropped_witness:
  "observe_event (event_new Codex Stop None None) claude_found = (PubNothing, claude_found)"
  using foreign_event_dropped [of "event_new Codex Stop None None" claude_found] claude_found_facts
  by (simp add: event_new_def)

text \<open>A hook event of the Pane's agent moves it as the event says: its state follows
  \<open>event_apply\<close>, its detail is what a blocking event asked for and nothing otherwise, and its
  conversation is the one the event names. Once the agent speaks the Program Status Protocol, the
  event names the conversation and leaves state and detail alone.\<close>

theorem hook_event_effect:
  assumes "d_agent d = Some a" and "d_state d = Some st" and "ev_agent e = a"
    and "agent_hooks a = Some hooks" and "\<not> hs_prompt_ids hooks"
  shows "d_agent (snd (observe_event e d)) = Some a
    \<and> d_session_id (snd (observe_event e d)) = event_session e d
    \<and> (if d_program_status d
       then d_state (snd (observe_event e d)) = Some st \<and> d_detail (snd (observe_event e d)) = d_detail d
       else d_state (snd (observe_event e d)) = Some (event_apply e st)
         \<and> d_detail (snd (observe_event e d)) = (if event_apply e st = Blocked then ev_detail e else None))"
  using assms(1,2) commit_fields [of "event_resume e a (event_session e d) d" a st]
  by (simp add: event_counts [OF assms] event_effect_def Let_def)

theorem hook_event_effect_witness:
  "d_state (snd (observe_event (event_new Claude PermissionRequest None None) claude_found)) = Some Blocked"
  using hook_event_effect [of claude_found Claude Unknown "event_new Claude PermissionRequest None None"]
    claude_found_facts
  by (simp add: event_new_def agent_hooks_def spec_hooks_def claude_spec_def plain_hooks_def event_apply_def)

text \<open>Grok's completion hooks may run after the next prompt was already submitted. Whatever such
  a late event says, it leaves the state the newer prompt set untouched, because it carries the id of
  another turn.\<close>

theorem stale_turn_ignored:
  assumes "d_agent d = Some Grok" and "d_state d = Some st"
    and "ev_agent submit = Grok" and "ev_event submit = PromptSubmit" and "ev_prompt_id submit = Some turn"
    and "ev_agent late = Grok" and "ev_event late \<notin> {SessionStart, PromptSubmit}"
    and "ev_prompt_id late = Some old" and "old \<noteq> turn"
  shows "observe_event late (snd (observe_event submit d)) = (PubNothing, snd (observe_event submit d))"
proof -
  obtain hooks where hooks: "agent_hooks Grok = Some hooks" "hs_prompt_ids hooks"
    using agent_hooks_prompt_ids by auto
  let ?d1 = "d\<lparr>d_prompt_id := Some turn\<rparr>"
  let ?d2 = "event_resume submit Grok (event_session submit ?d1) ?d1"
  obtain nxt det where "event_effect submit st ?d2 = (nxt, det)" by fastforce
  then have after: "observe_event submit d = detector_commit nxt (event_session submit ?d1) det ?d2"
    using assms(1-5) hooks
    by (simp add: observe_event_def detector_seed_def is_some_and_def track_prompt_def Let_def)
  let ?d3 = "snd (observe_event submit d)"
  have "d_agent ?d3 = Some Grok" "d_state ?d3 = Some nxt" "d_prompt_id ?d3 = Some turn"
    using commit_fields [of ?d2 Grok st nxt "event_session submit ?d1" det] assms(1,2)
    by (simp_all add: after)
  moreover have "track_prompt late ?d3 = None" if "d_prompt_id ?d3 = Some turn"
    using assms(7-9) that by (cases "ev_event late") (simp_all add: track_prompt_def)
  ultimately show ?thesis
    using assms(6) hooks by (simp add: observe_event_def detector_seed_def is_some_and_def)
qed

definition grok_found :: agent_detector where
  "grok_found = snd (observe_process (ProbeAgent Grok) 0 detector_new)"

definition grok_event :: "agent_event_kind \<Rightarrow> nat \<Rightarrow> agent_event" where
  "grok_event event turn = (event_new Grok event None None)\<lparr>ev_prompt_id := Some [turn]\<rparr>"

theorem stale_turn_ignored_witness:
  "fst (observe_event (grok_event Stop 49) (snd (observe_event (grok_event PromptSubmit 50) grok_found)))
   = PubNothing"
  using stale_turn_ignored [of grok_found Unknown "grok_event PromptSubmit 50" "[50]" "grok_event Stop 49" "[49]"]
  by (simp add: grok_found_def observe_process_def agent_found_def detector_new_def grok_event_def event_new_def)

text \<open>How often the process table is read, with \<open>t\<close> the last reading: a forced check always reads;
  without one it is not read again within half a second, a known agent is re-checked exactly every
  five seconds, and even a quiet terminal is read after thirty.\<close>

theorem probe_cadence:
  assumes "d_last_process_probe d = Some t"
  shows "fst (wants_process_probe now True activity d)
    \<and> (now - t < 500 \<longrightarrow> \<not> fst (wants_process_probe now False activity d))
    \<and> (30000 \<le> now - t \<longrightarrow> fst (wants_process_probe now False activity d))
    \<and> (d_agent d \<noteq> None \<longrightarrow> fst (wants_process_probe now False activity d) = (5000 \<le> now - t))"
proof -
  have "d_last_process_probe (note_activity now force activity d) = Some t"
    "d_agent (note_activity now force activity d) = d_agent d" for force
    using assms by (simp_all add: note_activity_def Let_def)
  then show ?thesis
    by (simp add: wants_process_probe_def Let_def is_none_or_def PROCESS_RECHECK_IDENTIFIED_def
        PROCESS_RECHECK_UNIDENTIFIED_def PROCESS_RECHECK_QUIET_def)
qed

theorem probe_cadence_witness: "fst (wants_process_probe 5000 False True claude_found)"
  using probe_cadence [of claude_found 0 5000 True] claude_found_facts by simp

text \<open>Native text becomes a detail the Server accepts, whatever it was: at most 200 characters, none
  of them a control character, never empty; and it is dropped only when it was blank.\<close>

theorem bound_detail_accepted:
  "case bound_detail raw of
     Some d \<Rightarrow> valid_detail d
   | None \<Rightarrow> list_all (\<lambda>c. is_control c \<or> is_whitespace c) raw"
  using bound_detail_valid_lemma bound_detail_None
  by (auto split: option.splits simp: list_all_iff)

text \<open>C21: An event survives the terminal. What \<open>encode\<close> writes, without the escape and the bell around
  it, decodes to the same agent, event and conversation; it is the very event where that fits the
  terminal's 2 KiB buffer, and otherwise only optional fields were given up. \<open>json\<close> and \<open>from_json\<close> are
  serde's, of which only that the second reads back the first is assumed.\<close>

theorem agent_event_roundtrip:
  assumes serde: "\<And>e. from_json (json e) = Some e"
    and "ev_version e = AGENT_EVENT_WIRE_VERSION"
    and "\<forall>i \<in> set_option (ev_session_id e). valid_session_id i"
    and "\<forall>i \<in> set_option (ev_prompt_id e). valid_prompt_id i"
    and "\<forall>t \<in> set_option (ev_detail e). valid_detail t"
  shows "\<exists>e'. event_decode from_json (drop 2 (butlast (event_encode json e))) = Some e'
    \<and> ev_agent e' = ev_agent e \<and> ev_event e' = ev_event e \<and> ev_session_id e' = ev_session_id e
    \<and> ev_detail e' \<in> {ev_detail e, None} \<and> ev_source e' \<in> {ev_source e, None}
    \<and> ev_prompt_id e' \<in> {ev_prompt_id e, None}
    \<and> (length (event_sequence json e) \<le> MAX_AGENT_EVENT_BYTES \<longrightarrow> e' = e)
    \<and> (length (event_encode json e) \<le> MAX_AGENT_EVENT_BYTES \<or> optional_fields e' = 0)"
proof (rule encode_sequence [of json e])
  fix e'
  assume enc: "event_encode json e = event_sequence json e'" and same: "ev_version e' = ev_version e"
      "ev_agent e' = ev_agent e" "ev_event e' = ev_event e" "ev_session_id e' = ev_session_id e"
    and dropped: "ev_detail e' \<in> {ev_detail e, None}" "ev_source e' \<in> {ev_source e, None}"
      "ev_prompt_id e' \<in> {ev_prompt_id e, None}"
    and rest: "length (event_sequence json e) \<le> MAX_AGENT_EVENT_BYTES \<Longrightarrow> e' = e"
      "length (event_sequence json e') \<le> MAX_AGENT_EVENT_BYTES \<or> optional_fields e' = 0"
  have "event_decode from_json (drop 2 (butlast (event_encode json e))) = Some e'"
    using assms same dropped
    by (auto simp: enc event_sequence_payload event_decode_def strip_prefix_def)
  with enc same dropped rest show ?thesis by auto
qed

text \<open>A serde that writes every field with its length, to show the hypotheses can hold.\<close>

fun write_field :: "rstr option \<Rightarrow> nat list" where
  "write_field None = [0]"
| "write_field (Some s) = (length s + 1) # s"

fun read_field :: "nat list \<Rightarrow> rstr option \<times> nat list" where
  "read_field [] = (None, [])"
| "read_field (n # xs) = (if n = 0 then (None, xs) else (Some (take (n - 1) xs), drop (n - 1) xs))"

definition demo_json :: "agent_event \<Rightarrow> nat list" where
  "demo_json e =
     [ev_version e, the (position (\<lambda>k. k = ev_agent e) (Other # all_agents)),
      the (position (\<lambda>k. k = ev_event e) agent_event_all)]
     @ write_field (ev_source e) @ write_field (ev_session_id e)
     @ write_field (ev_prompt_id e) @ write_field (ev_detail e)"

definition demo_from_json :: "nat list \<Rightarrow> agent_event option" where
  "demo_from_json bytes =
     (case bytes of
        version # agent # event # rest \<Rightarrow>
          let (source, rest) = read_field rest; (session_id, rest) = read_field rest;
              (prompt_id, rest) = read_field rest; (detail, rest) = read_field rest in
          Some \<lparr>ev_version = version, ev_agent = (Other # all_agents) ! agent,
            ev_event = agent_event_all ! event, ev_source = source, ev_session_id = session_id,
            ev_prompt_id = prompt_id, ev_detail = detail\<rparr>
      | _ \<Rightarrow> None)"

lemma read_write_field: "read_field (write_field f @ rest) = (f, rest)"
  by (cases f) simp_all

lemma demo_serde: "demo_from_json (demo_json e) = Some e"
proof -
  have "(Other # all_agents) ! the (position (\<lambda>k. k = ev_agent e) (Other # all_agents)) = ev_agent e"
    by (cases "ev_agent e") (simp_all add: all_agents_def)
  moreover have "agent_event_all ! the (position (\<lambda>k. k = ev_event e) agent_event_all) = ev_event e"
    by (cases "ev_event e") (simp_all add: agent_event_all_def)
  moreover have "read_field (write_field (ev_detail e)) = (ev_detail e, [])"
    using read_write_field [of "ev_detail e" "[]"] by simp
  ultimately show ?thesis by (simp add: demo_from_json_def demo_json_def read_write_field)
qed

definition demo_event :: agent_event where
  "demo_event = (event_new Claude QuestionAsked None (Some [97, 49]))\<lparr>ev_detail := Some [79, 75, 63]\<rparr>"

lemma demo_event_valid:
  "ev_version demo_event = AGENT_EVENT_WIRE_VERSION"
  "\<forall>i \<in> set_option (ev_session_id demo_event). valid_session_id i"
  "\<forall>i \<in> set_option (ev_prompt_id demo_event). valid_prompt_id i"
  "\<forall>t \<in> set_option (ev_detail demo_event). valid_detail t"
  by (simp_all add: demo_event_def event_new_def valid_session_id_def valid_detail_def str_len_def
      str_bytes_def utf8_bytes_def is_ascii_alphanumeric_def MAX_DETAIL_CHARS_def is_control_def)

theorem agent_event_roundtrip_witness:
  "\<exists>e'. event_decode demo_from_json (drop 2 (butlast (event_encode demo_json demo_event))) = Some e'
    \<and> ev_agent e' = Claude \<and> ev_event e' = QuestionAsked"
  using agent_event_roundtrip [of demo_from_json demo_json demo_event, OF demo_serde demo_event_valid]
  by (auto simp: demo_event_def event_new_def)

text \<open>Among the processes of a terminal's job, one that is itself named after an agent decides, the
  first such in order; only without one does the first agent found through a shell or runtime
  count.\<close>

theorem identify_agent_among_exact:
  "identify_agent_among to_lowercase resolved_name processes =
     (case find (\<lambda>p. parse_label to_lowercase (pi_name p) \<noteq> None) processes of
        Some p \<Rightarrow> parse_label to_lowercase (pi_name p)
      | None \<Rightarrow> (case find (\<lambda>p. identify_agent_process to_lowercase resolved_name p \<noteq> None) processes of
                   Some p \<Rightarrow> identify_agent_process to_lowercase resolved_name p
                 | None \<Rightarrow> None))"
  by (simp add: identify_agent_among_def identify_among_spec or_else_def split: option.splits)

text \<open>What a second instance of the agent looks like from the hook, as a specification: among the
  processes above it, up to the Server, an agent of another kind, or the hook's own agent on both
  sides of a shell.\<close>

fun beyond_shell :: "agent_kind \<Rightarrow> ancestor_class list \<Rightarrow> bool" where
  "beyond_shell agent [] = False"
| "beyond_shell agent (c # cs) = (c = AnShell \<and> AnAgent agent \<in> set cs \<or> beyond_shell agent cs)"

fun nested_instance :: "agent_kind \<Rightarrow> ancestor_class list \<Rightarrow> bool" where
  "nested_instance agent [] = False"
| "nested_instance agent (c # cs) =
     ((\<exists>k. c = AnAgent k \<and> k \<noteq> agent) \<or> c = AnAgent agent \<and> beyond_shell agent cs
      \<or> nested_instance agent cs)"

lemma beyond_shell_mem: "beyond_shell agent cs \<Longrightarrow> AnAgent agent \<in> set cs"
  by (induction cs) auto

lemma walk_nested:
  "as_nested (ancestors_walk lower res agent separated seen child chain) \<longleftrightarrow>
   (let cs = takeWhile (\<lambda>c. c \<noteq> AnServer) (map (classify_ancestor lower res) chain) in
    nested_instance agent cs
    \<or> seen \<and> (if separated then AnAgent agent \<in> set cs else beyond_shell agent cs))"
proof (induction chain arbitrary: separated seen child)
  case (Cons a up)
  show ?case
  proof (cases "classify_ancestor lower res a")
    case AnShell
    then have "is_shell lower (ancestor_front a)"
      by (auto simp: classify_ancestor_def split: if_splits option.splits)
    with AnShell Cons.IH show ?thesis by (auto simp: Let_def dest: beyond_shell_mem)
  next
    case (AnAgent k)
    then have "\<not> is_shell lower (ancestor_front a)"
      "identify_agent_process lower res (ancestor_info a) = Some k"
      by (auto simp: classify_ancestor_def split: if_splits option.splits)
    with AnAgent Cons.IH show ?thesis by (auto simp: Let_def)
  next
    case AnServer
    then have "\<not> is_shell lower (ancestor_front a)"
      "identify_agent_process lower res (ancestor_info a) = None" "is_condr_server lower a"
      by (auto simp: classify_ancestor_def split: if_splits option.splits)
    with AnServer show ?thesis by simp
  next
    case AnOther
    then have "\<not> is_shell lower (ancestor_front a)"
      "identify_agent_process lower res (ancestor_info a) = None" "\<not> is_condr_server lower a"
      by (auto simp: classify_ancestor_def split: if_splits option.splits)
    with AnOther Cons.IH show ?thesis by (simp add: Let_def)
  qed
qed simp

text \<open>A hook is taken for a nested agent's exactly when a second instance sits above it: among the
  24 nearest ancestors, stopping at the Pane's Server, there is an agent of another kind, or the same
  agent on both sides of a shell. Wrapper processes of one instance, with no shell between them, do
  not count as nested.\<close>

theorem nested_exact:
  "as_nested (ancestors_of to_lowercase resolved_name agent chain) =
     nested_instance agent (takeWhile (\<lambda>c. c \<noteq> AnServer)
       (map (classify_ancestor to_lowercase resolved_name) (take ANCESTOR_LIMIT chain)))"
  by (simp add: ancestors_of_def walk_nested Let_def)

section \<open>Names\<close>

text \<open>\<open>str::to_lowercase\<close> on ASCII text.\<close>

definition lowers_ascii :: "(rstr \<Rightarrow> rstr) \<Rightarrow> bool" where
  "lowers_ascii to_lowercase \<longleftrightarrow>
     (\<forall>s. (\<forall>c \<in> set s. c < 128) \<longrightarrow> to_lowercase s = to_ascii_lowercase s)"

definition agent_names :: "agent_kind \<Rightarrow> rstr list" where
  "agent_names kind = (let spec = agent_kind_spec kind in as_id spec # as_executable spec # as_aliases spec)"

definition plain_name :: "rstr \<Rightarrow> bool" where
  "plain_name nm \<longleftrightarrow> nm \<noteq> [] \<and> (\<forall>c \<in> set nm. c < 128 \<and> \<not> is_path_separator c)"

lemma path_basename_file:
  assumes "nm \<noteq> []" and "\<forall>c \<in> set nm. \<not> is_path_separator c" and "dir = [] \<or> is_path_separator (last dir)"
  shows "path_basename (dir @ nm) = nm"
proof -
  have "\<not> is_path_separator (hd (rev nm))" using assms(1,2) by (simp add: hd_rev)
  then have "dropWhile is_path_separator (rev nm @ rev dir) = rev nm @ rev dir"
    using assms(1) by (cases "rev nm") auto
  moreover have "takeWhile (\<lambda>c. \<not> is_path_separator c) (rev nm @ rev dir) = rev nm"
    using assms(2,3) by (cases "rev dir") (auto simp: takeWhile_append2 last_rev [symmetric] takeWhile_tail)
  ultimately show ?thesis using assms(1) by (simp add: path_basename_def)
qed

lemma trim_subset: "c \<in> set (trim s) \<Longrightarrow> c \<in> set s"
  using set_trim by auto

lemma parse_label_file:
  assumes "lowers_ascii lower" and "plain_name nm" and "dir = [] \<or> is_path_separator (last dir)"
  shows "parse_label lower (dir @ nm) = parse_label to_ascii_lowercase nm"
proof -
  have "path_basename (dir @ nm) = nm" "path_basename nm = nm"
    using path_basename_file [of nm dir] path_basename_file [of nm "[]"] assms
    by (auto simp: plain_name_def)
  moreover have "lower (trim nm) = to_ascii_lowercase (trim nm)"
    using assms(1,2) trim_subset by (auto simp: lowers_ascii_def plain_name_def)
  ultimately show ?thesis by (simp add: parse_label_def normalized_lookup_name_def)
qed

text \<open>A name as the table spells it: lower-case letters and dashes; a suffix: a dot, then letters
  and digits.\<close>

definition name_char :: "nat \<Rightarrow> bool" where "name_char c \<longleftrightarrow> 97 \<le> c \<and> c \<le> 122 \<or> c = 45"
definition suffix_char :: "nat \<Rightarrow> bool" where "suffix_char c \<longleftrightarrow> 97 \<le> c \<and> c \<le> 122 \<or> c = 49"

lemma plain_char:
  "name_char c \<or> suffix_char c \<or> c = 46 \<Longrightarrow>
   c < 128 \<and> \<not> is_path_separator c \<and> \<not> is_whitespace c \<and> \<not> (65 \<le> c \<and> c \<le> 90)"
  by (auto simp: name_char_def suffix_char_def is_path_separator_def is_whitespace_def)

lemma agent_name_chars: "nm \<in> set (agent_names kind) \<Longrightarrow> kind \<noteq> Other \<Longrightarrow> nm \<noteq> [] \<and> list_all name_char nm"
  by (cases kind) (auto simp: agent_names_def spec_defs str_lit_def name_char_def)

lemma lookup_suffix_chars: "suffix \<in> set lookup_suffixes \<Longrightarrow> \<exists>t. suffix = 46 # t \<and> list_all suffix_char t"
  by (auto simp: lookup_suffixes_def str_lit_def suffix_char_def)

lemma trim_id: "(\<forall>c \<in> set s. \<not> is_whitespace c) \<Longrightarrow> trim s = s"
proof -
  assume plain: "\<forall>c \<in> set s. \<not> is_whitespace c"
  then have drop: "dropWhile is_whitespace xs = xs" if "set xs = set s" for xs
    using that by (cases xs) (auto simp: dropWhile_eq_self_iff)
  show ?thesis by (simp add: trim_def trim_end_def drop)
qed

lemma to_ascii_lowercase_id: "(\<forall>c \<in> set s. \<not> (65 \<le> c \<and> c \<le> 90)) \<Longrightarrow> to_ascii_lowercase s = s"
  by (auto simp: to_ascii_lowercase_def intro: map_idI)

lemma ends_with_append: "ends_with x s \<longleftrightarrow> (\<exists>y. x = y @ s)"
proof
  assume "ends_with x s"
  then have "x = take (length x - length s) x @ s"
    by (metis append_take_drop_id ends_with_def)
  then show "\<exists>y. x = y @ s" ..
qed (auto simp: ends_with_def)

lemma same_suffix:
  assumes "nm @ 46 # t = y @ 46 # u" and "46 \<notin> set t" and "46 \<notin> set u"
  shows "t = (u :: nat list)"
proof -
  have "rev t @ 46 # rev nm = rev u @ 46 # rev y" using arg_cong [OF assms(1), of rev] by simp
  then have "takeWhile (\<lambda>c. c \<noteq> 46) (rev t @ 46 # rev nm) = takeWhile (\<lambda>c. c \<noteq> 46) (rev u @ 46 # rev y)"
    by simp
  moreover have "takeWhile (\<lambda>c. c \<noteq> 46) (rev t) = rev t" "takeWhile (\<lambda>c. c \<noteq> 46) (rev u) = rev u"
    using assms(2,3) by (auto simp: takeWhile_eq_all_conv)
  ultimately have "rev t = rev u" by (simp add: takeWhile_tail)
  then show ?thesis by simp
qed

lemma normalized_file:
  assumes nm: "list_all name_char nm" and suffix: "suffix \<in> set ([] # lookup_suffixes)"
  shows "normalized_lookup_name to_ascii_lowercase (nm @ suffix) = nm"
proof -
  have chars: "\<forall>c \<in> set (nm @ suffix). name_char c \<or> suffix_char c \<or> c = 46"
    using nm suffix lookup_suffix_chars by (fastforce simp: list_all_iff)
  then have same: "to_ascii_lowercase (trim (nm @ suffix)) = nm @ suffix"
    using plain_char trim_id to_ascii_lowercase_id by metis
  have no_dot: "46 \<notin> set nm" using nm by (auto simp: list_all_iff name_char_def)
  show ?thesis
  proof (cases "suffix = []")
    case True
    have "find (ends_with nm) lookup_suffixes = None"
      using no_dot lookup_suffix_chars by (fastforce simp: find_None_iff ends_with_append)
    with same True show ?thesis by (simp add: normalized_lookup_name_def)
  next
    case False
    then obtain t where t: "suffix = 46 # t" "list_all suffix_char t" "suffix \<in> set lookup_suffixes"
      using suffix lookup_suffix_chars by auto
    have only: "s = suffix" if s: "s \<in> set lookup_suffixes" "ends_with (nm @ suffix) s" for s
    proof -
      obtain u where u: "s = 46 # u" "list_all suffix_char u" using lookup_suffix_chars s(1) by blast
      obtain y where "nm @ 46 # t = y @ 46 # u" using s(2) u t by (auto simp: ends_with_append)
      moreover have "46 \<notin> set t" "46 \<notin> set u"
        using t(2) u(2) by (auto simp: list_all_iff suffix_char_def)
      ultimately show ?thesis using same_suffix [of nm t y u] t(1) u(1) by simp
    qed
    have "find (ends_with (nm @ suffix)) lookup_suffixes = Some suffix"
    proof (cases "find (ends_with (nm @ suffix)) lookup_suffixes")
      case None
      with t(3) show ?thesis by (auto simp: find_None_iff ends_with_append)
    next
      case (Some s)
      then have "s \<in> set lookup_suffixes" "ends_with (nm @ suffix) s"
        by (auto simp: find_Some_iff)
      with only Some show ?thesis by simp
    qed
    with same show ?thesis by (simp add: normalized_lookup_name_def)
  qed
qed

lemma str_lit_eq [simp]: "str_lit s = str_lit t \<longleftrightarrow> s = t"
  by (simp add: str_lit_def inj_map_eq_map inj_def)

lemma str_lit_Nil [simp]: "str_lit s = [] \<longleftrightarrow> s = []" "[] = str_lit s \<longleftrightarrow> s = []"
  by (auto simp: str_lit_def)

text \<open>No two agents share a name.\<close>

lemma agent_name_unique:
  assumes "kind \<in> set all_agents" and "nm \<in> set (agent_names kind)"
  shows "find (\<lambda>kind. spec_named (agent_kind_spec kind) nm) all_agents = Some kind"
  using assms
  by (cases kind) (auto simp: all_agents_def agent_names_def spec_named_def spec_defs)

text \<open>Every name of every agent finds that agent and no other: its id, its executable and each
  alias, alone or at the end of a path with either separator, with or without one of the extensions
  a launcher adds.\<close>

theorem agent_names_resolve:
  assumes "lowers_ascii to_lowercase" and "kind \<in> set all_agents" and "nm \<in> set (agent_names kind)"
    and "suffix \<in> set ([] # lookup_suffixes)" and "dir = [] \<or> is_path_separator (last dir)"
  shows "parse_label to_lowercase (dir @ nm @ suffix) = Some kind"
proof -
  have nm: "nm \<noteq> []" "list_all name_char nm" using agent_name_chars assms(2,3) by (auto simp: all_agents_def)
  have "\<forall>c \<in> set (nm @ suffix). name_char c \<or> suffix_char c \<or> c = 46"
    using nm assms(4) lookup_suffix_chars by (fastforce simp: list_all_iff)
  then have "plain_name (nm @ suffix)" using nm plain_char by (simp add: plain_name_def)
  with parse_label_file [OF assms(1) this assms(5)] path_basename_file [of "nm @ suffix" "[]"]
    normalized_file [OF nm(2) assms(4)] agent_name_unique [OF assms(2,3)]
  show ?thesis by (simp add: parse_label_def plain_name_def)
qed

theorem agent_names_resolve_witness:
  "parse_label to_ascii_lowercase (str_lit ''/usr/bin/'' @ str_lit ''agy'' @ []) = Some Antigravity"
  by (rule agent_names_resolve)
     (simp_all add: lowers_ascii_def all_agents_def agent_names_def antigravity_spec_def
       lookup_suffixes_def is_path_separator_def str_lit_def)

end
