(* ===== verification/Fifo.thy ===== *)
theory Fifo
  imports Condr_Prelude
begin

text \<open>
  The contract of an ordered hand-over: what a producer pushes, a consumer pops in the same order,
  nothing lost and nothing twice, as long as no push is refused. The reliable queue of a Client's
  writer keeps it; that any interleaving of pushes and pops delivers in order is proved here once.
\<close>

datatype 'a fifo_op = Push 'a | Pop

locale fifo =
  fixes push :: "'a \<Rightarrow> 's \<Rightarrow> 's option" and pop :: "'s \<Rightarrow> ('a \<times> 's) option"
    and pending :: "'s \<Rightarrow> 'a list" and inv :: "'s \<Rightarrow> bool"
  assumes push_pending: "inv s \<Longrightarrow> push x s = Some s' \<Longrightarrow> pending s' = pending s @ [x]"
    and push_inv: "inv s \<Longrightarrow> push x s = Some s' \<Longrightarrow> inv s'"
    and pop_pending: "inv s \<Longrightarrow> pop s = Some (x, s') \<Longrightarrow> pending s = x # pending s'"
    and pop_inv: "inv s \<Longrightarrow> pop s = Some (x, s') \<Longrightarrow> inv s'"
    and pop_None: "inv s \<Longrightarrow> pop s = None \<Longrightarrow> pending s = []"
begin

text \<open>A run: the state, what was accepted and what came out. A refused push or an empty pop ends it.\<close>

fun fifo_run :: "'a fifo_op list \<Rightarrow> 's \<Rightarrow> ('a list \<times> 'a list \<times> 's) option" where
  "fifo_run [] s = Some ([], [], s)"
| "fifo_run (Push x # ops) s =
     (case push x s of None \<Rightarrow> None
      | Some s' \<Rightarrow> map_option (\<lambda>(pushed, popped, t). (x # pushed, popped, t)) (fifo_run ops s'))"
| "fifo_run (Pop # ops) s =
     (case pop s of None \<Rightarrow> None
      | Some (x, s') \<Rightarrow> map_option (\<lambda>(pushed, popped, t). (pushed, x # popped, t)) (fifo_run ops s'))"

lemma run_in_order:
  "inv s \<Longrightarrow> fifo_run ops s = Some (pushed, popped, t) \<Longrightarrow>
   pending s @ pushed = popped @ pending t \<and> inv t"
proof (induction ops s arbitrary: pushed popped t rule: fifo_run.induct)
  case (2 x ops s)
  then obtain s' pushed' where s': "push x s = Some s'" "fifo_run ops s' = Some (pushed', popped, t)"
      "pushed = x # pushed'"
    by (auto split: option.splits)
  with 2 have "pending s' @ pushed' = popped @ pending t \<and> inv t" using push_inv by blast
  with s' 2 show ?case using push_pending by simp
next
  case (3 ops s)
  then obtain x s' popped' where s': "pop s = Some (x, s')" "fifo_run ops s' = Some (pushed, popped', t)"
      "popped = x # popped'"
    by (auto split: option.splits)
  with 3 have "pending s' @ pushed = popped' @ pending t \<and> inv t" using pop_inv by blast
  with s' 3 show ?case using pop_pending [of s x s'] by simp
qed simp

text \<open>Popping as often as something is pending hands out all of it.\<close>

fun drain :: "nat \<Rightarrow> 's \<Rightarrow> ('a list \<times> 's)" where
  "drain 0 s = ([], s)"
| "drain (Suc n) s =
     (case pop s of None \<Rightarrow> ([], s)
      | Some (x, s') \<Rightarrow> (let (xs, t) = drain n s' in (x # xs, t)))"

lemma drain_pending:
  "inv s \<Longrightarrow> length (pending s) \<le> n \<Longrightarrow> fst (drain n s) = pending s \<and> pending (snd (drain n s)) = []
     \<and> inv (snd (drain n s))"
proof (induction n arbitrary: s)
  case (Suc n)
  show ?case
  proof (cases "pop s")
    case None
    with Suc.prems show ?thesis using pop_None by simp
  next
    case (Some r)
    then obtain x s' where r: "pop s = Some (x, s')" by (cases r) auto
    then have "pending s = x # pending s'" "inv s'" using Suc.prems pop_pending pop_inv by auto
    with Suc.IH [of s'] Suc.prems r show ?thesis by (cases "drain n s'") simp
  qed
qed simp

end

end
