(* ===== verification/Client_Writer.thy ===== *)
theory Client_Writer
  imports Fifo
begin

text \<open>
  The queue between the Server and one Client connection's writer thread
  (\<open>condr-server/src/client_writer.rs\<close>): a bounded reliable queue that is replaced by a lag notice
  when it overflows, one clipboard slot and one render generation that may be dropped. Every
  operation holds the queue's lock throughout, so it is one step on the state; the condition
  variable is the answer \<open>RecvWait\<close>. A receipt's channel is its identity.
\<close>

type_synonym bytes = "u8 list"

section \<open>Protocol limits (\<open>protocol.rs\<close>, \<open>protocol/framing.rs\<close>)\<close>

definition MAX_FRAME_SIZE :: nat where "MAX_FRAME_SIZE = 2 * 1024 * 1024"
definition MAX_FRAME_PREFIX :: nat where "MAX_FRAME_PREFIX = 10"
definition MAX_BOOTSTRAP_BATCHES :: nat where "MAX_BOOTSTRAP_BATCHES = 65536"
definition MAX_BOOTSTRAP_TOTAL_SIZE :: nat where "MAX_BOOTSTRAP_TOTAL_SIZE = 64 * 1024 * 1024"
definition BOOTSTRAP_BATCH_FRAME_OVERHEAD :: nat where "BOOTSTRAP_BATCH_FRAME_OVERHEAD = 64"

definition MAX_FRAMED_BOOTSTRAP_BYTES :: nat where
  "MAX_FRAMED_BOOTSTRAP_BYTES = (MAX_FRAME_SIZE + MAX_FRAME_PREFIX) + MAX_BOOTSTRAP_TOTAL_SIZE
     + MAX_BOOTSTRAP_BATCHES * BOOTSTRAP_BATCH_FRAME_OVERHEAD"

definition MAX_RELIABLE_QUEUE_ITEMS :: nat where "MAX_RELIABLE_QUEUE_ITEMS = 512"

definition MAX_RELIABLE_QUEUE_BYTES :: nat where
  "MAX_RELIABLE_QUEUE_BYTES = MAX_FRAMED_BOOTSTRAP_BYTES + MAX_FRAME_SIZE + MAX_FRAME_PREFIX"

section \<open>State\<close>

datatype reliable_send_error = Lagged | Disconnected
datatype render_send_error = RenderDisconnected "bytes list" | RenderFull "bytes list"

datatype client_write_item =
    Reliable bytes
  | ReliableBatch "bytes list"
  | ClosingReliable bytes nat
  | Render bytes bool

record writer_queue =
  wq_reliable :: "client_write_item list"
  wq_reliable_bytes :: nat
  wq_lag_notice :: "bytes option"
  wq_lagged :: bool
  wq_clipboard :: "bytes option"
  wq_render :: "bytes list option"
  wq_senders :: nat
  wq_writer_alive :: bool

definition channel_inner :: "bytes option \<Rightarrow> writer_queue" where
  "channel_inner lag_notice = \<lparr>wq_reliable = [], wq_reliable_bytes = 0, wq_lag_notice = lag_notice,
     wq_lagged = False, wq_clipboard = None, wq_render = None, wq_senders = 1, wq_writer_alive = True\<rparr>"

section \<open>Operations\<close>

definition batch_bytes :: "bytes list \<Rightarrow> nat" where
  "batch_bytes frames = fold (\<lambda>frame total. saturating_add_usize total (length frame)) frames 0"

fun reliable_item_bytes :: "client_write_item \<Rightarrow> nat" where
  "reliable_item_bytes (Reliable data) = length data"
| "reliable_item_bytes (ClosingReliable data _) = length data"
| "reliable_item_bytes (ReliableBatch frames) = batch_bytes frames"
| "reliable_item_bytes (Render _ _) = 0"

definition refusal :: "writer_queue \<Rightarrow> reliable_send_error option" where
  "refusal q = (if \<not> wq_writer_alive q then Some Disconnected
                else if wq_lagged q then Some Lagged else None)"

definition reserve_reliable :: "nat \<Rightarrow> writer_queue \<Rightarrow> (reliable_send_error + unit) \<times> writer_queue" where
  "reserve_reliable bytes q =
     (let next_bytes = checked_add_usize (wq_reliable_bytes q) bytes in
      if MAX_RELIABLE_QUEUE_ITEMS \<le> length (wq_reliable q)
         \<or> (case next_bytes of None \<Rightarrow> True | Some n \<Rightarrow> MAX_RELIABLE_QUEUE_BYTES < n)
      then let q = q\<lparr>wq_reliable := [], wq_reliable_bytes := 0, wq_clipboard := None,
                     wq_render := None\<rparr>
           in (case wq_lag_notice q of
                 Some notice \<Rightarrow>
                   (Inl Lagged, q\<lparr>wq_reliable_bytes := length notice,
                      wq_reliable := [Reliable notice], wq_lagged := True\<rparr>)
               | None \<Rightarrow> (Inl Disconnected, q\<lparr>wq_writer_alive := False\<rparr>))
      else (Inr (), q\<lparr>wq_reliable_bytes := the next_bytes\<rparr>))"

text \<open>What the three reliable sends share: refusal, reservation, enqueueing.\<close>

definition enqueue_reliable :: "client_write_item \<Rightarrow> nat \<Rightarrow> writer_queue \<Rightarrow> (reliable_send_error + unit) \<times> writer_queue" where
  "enqueue_reliable item bytes q =
     (case refusal q of
        Some e \<Rightarrow> (Inl e, q)
      | None \<Rightarrow>
          (case reserve_reliable bytes q of
             (Inl e, q) \<Rightarrow> (Inl e, q)
           | (Inr _, q) \<Rightarrow> (Inr (), q\<lparr>wq_reliable := wq_reliable q @ [item]\<rparr>)))"

definition send_reliable :: "bytes \<Rightarrow> writer_queue \<Rightarrow> (reliable_send_error + unit) \<times> writer_queue" where
  "send_reliable data q = enqueue_reliable (Reliable data) (length data) q"

definition send_reliable_batch :: "bytes list \<Rightarrow> writer_queue \<Rightarrow> (reliable_send_error + unit) \<times> writer_queue" where
  "send_reliable_batch frames q = enqueue_reliable (ReliableBatch frames) (batch_bytes frames) q"

definition send_clipboard :: "bytes \<Rightarrow> writer_queue \<Rightarrow> (reliable_send_error + unit) \<times> writer_queue" where
  "send_clipboard data q =
     (case refusal q of
        Some e \<Rightarrow> (Inl e, q)
      | None \<Rightarrow> (Inr (), q\<lparr>wq_clipboard := Some data\<rparr>))"

definition send_closing_reliable ::
  "bytes \<Rightarrow> nat \<Rightarrow> writer_queue \<Rightarrow> (reliable_send_error + nat) \<times> writer_queue" where
  "send_closing_reliable data receipt q =
     (case enqueue_reliable (ClosingReliable data receipt) (length data) q of
        (Inl e, q) \<Rightarrow> (Inl e, q)
      | (Inr _, q) \<Rightarrow> (Inr receipt,
          q\<lparr>wq_clipboard := None, wq_render := None, wq_writer_alive := False\<rparr>))"

text \<open>\<open>None\<close> is the panic of the assertion, before the lock is taken.\<close>

definition try_send_render ::
  "bytes list \<Rightarrow> writer_queue \<Rightarrow> ((render_send_error + unit) \<times> writer_queue) option" where
  "try_send_render frames q =
     (if frames = [] then None
      else Some (if \<not> wq_writer_alive q \<or> wq_lagged q then (Inl (RenderDisconnected frames), q)
                 else if wq_render q \<noteq> None then (Inl (RenderFull frames), q)
                 else (Inr (), q\<lparr>wq_render := Some frames\<rparr>)))"

definition clear_render :: "writer_queue \<Rightarrow> writer_queue" where
  "clear_render q = q\<lparr>wq_render := None\<rparr>"

definition resume_after_lag :: "writer_queue \<Rightarrow> writer_queue" where
  "resume_after_lag q =
     (if \<not> wq_lagged q then q
      else q\<lparr>wq_clipboard := None, wq_render := None, wq_lagged := False\<rparr>)"

definition writer_clone :: "writer_queue \<Rightarrow> writer_queue" where
  "writer_clone q = q\<lparr>wq_senders := saturating_add_usize (wq_senders q) 1\<rparr>"

definition writer_drop :: "writer_queue \<Rightarrow> writer_queue" where
  "writer_drop q = q\<lparr>wq_senders := wq_senders q - 1\<rparr>"

datatype recv_outcome = RecvItem client_write_item | RecvEnded | RecvWait | RecvPanic

definition recv :: "writer_queue \<Rightarrow> recv_outcome \<times> writer_queue" where
  "recv q =
     (case wq_reliable q of
        item # rest \<Rightarrow>
          (RecvItem item, q\<lparr>wq_reliable := rest,
             wq_reliable_bytes := wq_reliable_bytes q - reliable_item_bytes item\<rparr>)
      | [] \<Rightarrow>
          (case wq_clipboard q of
             Some data \<Rightarrow> (RecvItem (Reliable data), q\<lparr>wq_clipboard := None\<rparr>)
           | None \<Rightarrow>
               (case wq_render q of
                  Some [] \<Rightarrow> (RecvPanic, q)
                | Some (data # frames) \<Rightarrow>
                    let slot_drained = (frames = []) in
                    (RecvItem (Render data slot_drained),
                     q\<lparr>wq_render := (if slot_drained then None else Some frames)\<rparr>)
                | None \<Rightarrow> if wq_senders q = 0 \<or> \<not> wq_writer_alive q then (RecvEnded, q)
                          else (RecvWait, q))))"

definition receiver_close :: "writer_queue \<Rightarrow> writer_queue" where
  "receiver_close q = q\<lparr>wq_writer_alive := False, wq_reliable := [], wq_reliable_bytes := 0,
     wq_lagged := False, wq_clipboard := None, wq_render := None\<rparr>"

text \<open>The operations as steps, in any order.\<close>

datatype writer_op =
    OpReliable bytes | OpBatch "bytes list" | OpClipboard bytes | OpClosing bytes nat
  | OpRender "bytes list" | OpClearRender | OpResume | OpClone | OpDrop | OpRecv | OpClose

definition writer_step :: "writer_op \<Rightarrow> writer_queue \<Rightarrow> writer_queue" where
  "writer_step op q =
     (case op of
        OpReliable data \<Rightarrow> snd (send_reliable data q)
      | OpBatch frames \<Rightarrow> snd (send_reliable_batch frames q)
      | OpClipboard data \<Rightarrow> snd (send_clipboard data q)
      | OpClosing data receipt \<Rightarrow> snd (send_closing_reliable data receipt q)
      | OpRender frames \<Rightarrow> (case try_send_render frames q of None \<Rightarrow> q | Some r \<Rightarrow> snd r)
      | OpClearRender \<Rightarrow> clear_render q
      | OpResume \<Rightarrow> resume_after_lag q
      | OpClone \<Rightarrow> writer_clone q
      | OpDrop \<Rightarrow> writer_drop q
      | OpRecv \<Rightarrow> snd (recv q)
      | OpClose \<Rightarrow> receiver_close q)"

section \<open>Invariant\<close>

definition queued_bytes :: "writer_queue \<Rightarrow> nat" where
  "queued_bytes q = sum_list (map reliable_item_bytes (wq_reliable q))"

text \<open>The byte counter is exact and both bounds hold (a lag notice is the one item allowed to pass
  the byte bound); a lagged queue holds at most its notice; a render slot is never empty.\<close>

definition writer_inv :: "writer_queue \<Rightarrow> bool" where
  "writer_inv q \<longleftrightarrow>
     wq_reliable_bytes q = queued_bytes q
     \<and> length (wq_reliable q) \<le> MAX_RELIABLE_QUEUE_ITEMS
     \<and> wq_reliable_bytes q
         \<le> max MAX_RELIABLE_QUEUE_BYTES (case wq_lag_notice q of Some n \<Rightarrow> length n | None \<Rightarrow> 0)
     \<and> (wq_lagged q \<longrightarrow> wq_writer_alive q \<and> wq_clipboard q = None \<and> wq_render q = None
          \<and> (\<exists>n. wq_lag_notice q = Some n \<and> wq_reliable q \<in> {[], [Reliable n]}))
     \<and> wq_render q \<noteq> Some []"

lemma batch_bytes_le: "batch_bytes frames \<le> usize_max"
proof -
  have "fold (\<lambda>frame total. saturating_add_usize total (length frame)) frames n \<le> usize_max"
    if "n \<le> usize_max" for n
    using that by (induction frames arbitrary: n) (simp_all add: saturating_add_usize_def)
  then show ?thesis by (simp add: batch_bytes_def)
qed

lemma reserve_Inr:
  "reserve_reliable bytes q = (Inr u, q') \<longleftrightarrow>
     length (wq_reliable q) < MAX_RELIABLE_QUEUE_ITEMS
     \<and> wq_reliable_bytes q + bytes \<le> MAX_RELIABLE_QUEUE_BYTES
     \<and> q' = q\<lparr>wq_reliable_bytes := wq_reliable_bytes q + bytes\<rparr>"
proof -
  have "MAX_RELIABLE_QUEUE_BYTES \<le> usize_max"
    by (simp add: MAX_RELIABLE_QUEUE_BYTES_def MAX_FRAMED_BOOTSTRAP_BYTES_def MAX_FRAME_SIZE_def
        MAX_FRAME_PREFIX_def MAX_BOOTSTRAP_TOTAL_SIZE_def MAX_BOOTSTRAP_BATCHES_def
        BOOTSTRAP_BATCH_FRAME_OVERHEAD_def usize_max_def)
  then show ?thesis
    by (auto simp: reserve_reliable_def Let_def checked_add_usize_def split: option.splits)
qed

lemma reserve_Inl:
  assumes "reserve_reliable bytes q = (Inl e, q')"
  shows "q' = (case wq_lag_notice q of
     Some notice \<Rightarrow> q\<lparr>wq_reliable_bytes := length notice, wq_clipboard := None, wq_render := None,
        wq_reliable := [Reliable notice], wq_lagged := True\<rparr>
   | None \<Rightarrow> q\<lparr>wq_reliable := [], wq_reliable_bytes := 0, wq_clipboard := None, wq_render := None,
        wq_writer_alive := False\<rparr>)"
    and "e = (case wq_lag_notice q of Some _ \<Rightarrow> Lagged | None \<Rightarrow> Disconnected)"
  using assms by (auto simp: reserve_reliable_def Let_def split: option.splits if_splits)

lemma refusal_None: "refusal q = None \<longleftrightarrow> wq_writer_alive q \<and> \<not> wq_lagged q"
  by (simp add: refusal_def)

lemma enqueue_Inr:
  "enqueue_reliable item bytes q = (Inr u, q') \<longleftrightarrow>
     refusal q = None \<and> length (wq_reliable q) < MAX_RELIABLE_QUEUE_ITEMS
     \<and> wq_reliable_bytes q + bytes \<le> MAX_RELIABLE_QUEUE_BYTES
     \<and> q' = q\<lparr>wq_reliable_bytes := wq_reliable_bytes q + bytes, wq_reliable := wq_reliable q @ [item]\<rparr>"
proof (cases "refusal q")
  case None
  show ?thesis
  proof (cases "length (wq_reliable q) < MAX_RELIABLE_QUEUE_ITEMS
      \<and> wq_reliable_bytes q + bytes \<le> MAX_RELIABLE_QUEUE_BYTES")
    case True
    then have "reserve_reliable bytes q = (Inr (), q\<lparr>wq_reliable_bytes := wq_reliable_bytes q + bytes\<rparr>)"
      by (simp add: reserve_Inr)
    with None True show ?thesis by (auto simp: enqueue_reliable_def)
  next
    case False
    obtain r q1 where r: "reserve_reliable bytes q = (r, q1)" by fastforce
    with False reserve_Inr [of bytes q "()" q1] obtain e where "r = Inl e" by (cases r) auto
    with None False r show ?thesis by (auto simp: enqueue_reliable_def)
  qed
qed (simp add: enqueue_reliable_def)

lemma enqueue_Inl:
  assumes "enqueue_reliable item bytes q = (Inl e, q')"
  obtains (refused) "refusal q = Some e" "q' = q"
    | (overflow) "refusal q = None" "reserve_reliable bytes q = (Inl e, q')"
  using assms by (auto simp: enqueue_reliable_def split: option.splits prod.splits sum.splits)

lemma overflow_inv:
  assumes "writer_inv q" and "refusal q = None" and "reserve_reliable bytes q = (Inl e, q')"
  shows "writer_inv q'"
  using assms(1,2) reserve_Inl(1) [OF assms(3)]
  by (cases "wq_lag_notice q")
     (simp_all add: writer_inv_def queued_bytes_def refusal_None MAX_RELIABLE_QUEUE_ITEMS_def)

lemma enqueue_inv:
  assumes inv: "writer_inv q" and bytes: "bytes = reliable_item_bytes item"
  shows "writer_inv (snd (enqueue_reliable item bytes q))"
proof -
  obtain r q' where q': "enqueue_reliable item bytes q = (r, q')" by fastforce
  show ?thesis
  proof (cases r)
    case (Inl e)
    with q' have "enqueue_reliable item bytes q = (Inl e, q')" by simp
    then show ?thesis
      by (cases rule: enqueue_Inl) (use inv overflow_inv q' in auto)
  next
    case (Inr u)
    with q' have "enqueue_reliable item bytes q = (Inr u, q')" by simp
    then have "writer_inv q'" using inv bytes
      unfolding enqueue_Inr by (auto simp: writer_inv_def queued_bytes_def refusal_None)
    with q' show ?thesis by simp
  qed
qed

lemma recv_inv: "writer_inv q \<Longrightarrow> writer_inv (snd (recv q))"
  by (auto simp: recv_def writer_inv_def queued_bytes_def Let_def split: list.splits option.splits)

lemma writer_step_inv:
  assumes inv: "writer_inv q"
  shows "writer_inv (writer_step op q)"
proof (cases op)
  case (OpReliable data)
  then show ?thesis using enqueue_inv [OF inv, of "length data" "Reliable data"] by (simp add: writer_step_def send_reliable_def)
next
  case (OpBatch frames)
  then show ?thesis using enqueue_inv [OF inv, of "batch_bytes frames" "ReliableBatch frames"]
    by (simp add: writer_step_def send_reliable_batch_def)
next
  case (OpClosing data receipt)
  obtain r q' where q': "enqueue_reliable (ClosingReliable data receipt) (length data) q = (r, q')" by fastforce
  then have "writer_inv q'" using enqueue_inv [OF inv, of "length data" "ClosingReliable data receipt"] by simp
  moreover have "\<not> wq_lagged q'" if "r = Inr u" for u
    using q' that by (auto simp: enqueue_Inr refusal_None)
  ultimately show ?thesis using OpClosing q'
    by (cases r) (auto simp: writer_step_def send_closing_reliable_def writer_inv_def queued_bytes_def)
next
  case OpRecv
  then show ?thesis using recv_inv [OF inv] by (simp add: writer_step_def)
next
  case (OpRender frames)
  then show ?thesis using inv
    by (auto simp: writer_step_def try_send_render_def writer_inv_def queued_bytes_def split: option.splits)
next
  case (OpClipboard data)
  then show ?thesis using inv
    by (auto simp: writer_step_def send_clipboard_def refusal_def writer_inv_def queued_bytes_def)
qed (use inv in \<open>auto simp: writer_step_def writer_inv_def queued_bytes_def clear_render_def
      resume_after_lag_def writer_clone_def writer_drop_def receiver_close_def\<close>)

lemma writer_run_inv: "writer_inv q \<Longrightarrow> writer_inv (fold writer_step ops q)"
  by (induction ops arbitrary: q) (simp_all add: writer_step_inv)

lemma channel_inner_inv: "writer_inv (channel_inner lag_notice)"
  by (simp add: channel_inner_def writer_inv_def queued_bytes_def)

lemma recv_no_panic: "writer_inv q \<Longrightarrow> fst (recv q) \<noteq> RecvPanic"
  by (auto simp: recv_def writer_inv_def Let_def split: list.splits option.splits)

section \<open>The reliable queue is a fifo\<close>

definition push_item :: "client_write_item \<Rightarrow> writer_queue \<Rightarrow> writer_queue option" where
  "push_item item q =
     (case enqueue_reliable item (reliable_item_bytes item) q of (Inl _, _) \<Rightarrow> None | (Inr _, q') \<Rightarrow> Some q')"

definition pop_item :: "writer_queue \<Rightarrow> (client_write_item \<times> writer_queue) option" where
  "pop_item q =
     (if wq_reliable q = [] then None
      else case recv q of (RecvItem item, q') \<Rightarrow> Some (item, q') | _ \<Rightarrow> None)"

interpretation reliable_queue: fifo push_item pop_item wq_reliable writer_inv
proof
  fix q q' item assume inv: "writer_inv q"
  show "push_item item q = Some q' \<Longrightarrow> wq_reliable q' = wq_reliable q @ [item]"
    by (auto simp: push_item_def enqueue_Inr split: prod.splits sum.splits)
  show "push_item item q = Some q' \<Longrightarrow> writer_inv q'"
    using enqueue_inv [OF inv refl, of item] by (auto simp: push_item_def split: prod.splits sum.splits)
  show "pop_item q = Some (item, q') \<Longrightarrow> wq_reliable q = item # wq_reliable q'"
    by (auto simp: pop_item_def recv_def split: list.splits if_splits)
  show "pop_item q = Some (item, q') \<Longrightarrow> writer_inv q'"
    using recv_inv [OF inv] by (auto simp: pop_item_def split: prod.splits recv_outcome.splits if_splits)
  show "pop_item q = None \<Longrightarrow> wq_reliable q = []"
    by (auto simp: pop_item_def recv_def split: list.splits if_splits)
qed

section \<open>Properties\<close>

text \<open>C22: Whatever operations a connection's threads perform on the queue, in whatever order, it never holds
  more than 512 reliable items or (a lag notice alone excepted) more bytes than its bound, its byte
  counter is exact, a lagged queue holds nothing but its notice, and the writer thread never panics
  on an empty render slot.\<close>

theorem writer_reachable:
  "writer_inv (fold writer_step ops (channel_inner lag_notice))
   \<and> fst (recv (fold writer_step ops (channel_inner lag_notice))) \<noteq> RecvPanic"
  using writer_run_inv [OF channel_inner_inv] recv_no_panic by blast

text \<open>A run with every kind of step: the reliable items accepted, the reliable items received and the
  queue at the end. A refused reliable send, or the receiver closing, ends it.\<close>

fun writer_trace ::
  "writer_op list \<Rightarrow> writer_queue \<Rightarrow> (client_write_item list \<times> client_write_item list \<times> writer_queue) option" where
  "writer_trace [] q = Some ([], [], q)"
| "writer_trace (op # ops) q =
     (let rest = writer_trace ops (writer_step op q);
          accept = (\<lambda>item. if refusal q = None \<and> fst (enqueue_reliable item (reliable_item_bytes item) q) = Inr ()
                     then map_option (\<lambda>(sent, got, t). (item # sent, got, t)) rest else None) in
      case op of
        OpReliable data \<Rightarrow> accept (Reliable data)
      | OpBatch frames \<Rightarrow> accept (ReliableBatch frames)
      | OpClosing data receipt \<Rightarrow> accept (ClosingReliable data receipt)
      | OpRecv \<Rightarrow> (case wq_reliable q of
            [] \<Rightarrow> rest
          | item # _ \<Rightarrow> map_option (\<lambda>(sent, got, t). (sent, item # got, t)) rest)
      | OpClose \<Rightarrow> None
      | _ \<Rightarrow> rest)"

lemma step_accepts:
  assumes "fst (enqueue_reliable item (reliable_item_bytes item) q) = Inr ()"
    and "(op, item) \<in> {(OpReliable data, Reliable data), (OpBatch frames, ReliableBatch frames),
           (OpClosing data receipt, ClosingReliable data receipt)}"
  shows "wq_reliable (writer_step op q) = wq_reliable q @ [item]"
proof -
  obtain q' where q': "enqueue_reliable item (reliable_item_bytes item) q = (Inr (), q')"
    using assms(1) by (metis prod.collapse)
  then have "wq_reliable q' = wq_reliable q @ [item]" by (auto simp: enqueue_Inr)
  then show ?thesis using assms(2) q'
    by (auto simp: writer_step_def send_reliable_def send_reliable_batch_def send_closing_reliable_def)
qed

lemma step_receives:
  "wq_reliable (writer_step OpRecv q) = tl (wq_reliable q)"
  by (auto simp: writer_step_def recv_def Let_def split: list.splits option.splits)

lemma step_keeps_reliable:
  "op \<in> {OpClipboard data, OpRender frames, OpClearRender, OpResume, OpClone, OpDrop} \<Longrightarrow>
   wq_reliable (writer_step op q) = wq_reliable q"
  by (auto simp: writer_step_def send_clipboard_def try_send_render_def clear_render_def
      resume_after_lag_def writer_clone_def writer_drop_def split: option.splits)

lemma accepted_in_order:
  assumes "map_option (\<lambda>(sent, got, t). (item # sent, got, t)) rest = Some (sent, got, t)"
    and "\<And>sent got t. rest = Some (sent, got, t) \<Longrightarrow> (pending @ [item]) @ sent = got @ wq_reliable t"
  shows "pending @ sent = got @ wq_reliable t"
  using assms by auto

lemma writer_trace_in_order:
  "writer_trace ops q = Some (sent, got, t) \<Longrightarrow> wq_reliable q @ sent = got @ wq_reliable t"
proof (induction ops arbitrary: q sent got)
  case (Cons op ops)
  note IH = Cons.IH [of "writer_step op q"]
  show ?case
  proof (cases op)
    case (OpReliable data)
    with Cons.prems have "fst (enqueue_reliable (Reliable data) (reliable_item_bytes (Reliable data)) q) = Inr ()"
      by (simp add: Let_def split: if_splits)
    from step_accepts [OF this, of op data] OpReliable Cons.prems IH show ?thesis
      by (auto simp: Let_def split: if_splits)
  next
    case (OpBatch frames)
    with Cons.prems have "fst (enqueue_reliable (ReliableBatch frames) (reliable_item_bytes (ReliableBatch frames)) q) = Inr ()"
      by (simp add: Let_def split: if_splits)
    from step_accepts [OF this, of op _ frames] OpBatch Cons.prems IH show ?thesis
      by (auto simp: Let_def split: if_splits)
  next
    case (OpClosing data receipt)
    with Cons.prems have "fst (enqueue_reliable (ClosingReliable data receipt)
        (reliable_item_bytes (ClosingReliable data receipt)) q) = Inr ()"
      by (simp add: Let_def split: if_splits)
    from step_accepts [OF this, of op data _ receipt] OpClosing Cons.prems IH show ?thesis
      by (auto simp: Let_def split: if_splits)
  next
    case OpRecv
    with Cons.prems IH step_receives [of q] show ?thesis
      by (cases "wq_reliable q") auto
  qed (use Cons.prems IH step_keeps_reliable in \<open>fastforce simp: Let_def\<close>)+
qed simp




definition full_queue :: writer_queue where
  "full_queue = (channel_inner (Some [7]))\<lparr>wq_reliable := replicate 512 (Reliable [])\<rparr>"


lemma drain_closed:
  assumes "wq_clipboard q = None" and "wq_render q = None" and "\<not> wq_writer_alive q"
  shows "wq_clipboard (snd (reliable_queue.drain n q)) = None
    \<and> wq_render (snd (reliable_queue.drain n q)) = None
    \<and> \<not> wq_writer_alive (snd (reliable_queue.drain n q))"
  using assms
proof (induction n arbitrary: q)
  case (Suc n)
  show ?case
  proof (cases "wq_reliable q")
    case Nil
    then have "pop_item q = None" by (simp add: pop_item_def)
    with Suc.prems show ?thesis by simp
  next
    case (Cons item rest)
    let ?q = "q\<lparr>wq_reliable := rest, wq_reliable_bytes := wq_reliable_bytes q - reliable_item_bytes item\<rparr>"
    have "pop_item q = Some (item, ?q)" using Cons by (simp add: pop_item_def recv_def)
    with Suc.IH [of ?q] Suc.prems show ?thesis by (cases "reliable_queue.drain n ?q") simp
  qed
qed simp

text \<open>A closing message is the last thing a Client hears: once accepted, the writer thread receives
  everything queued before it, then the message itself, then the end of the queue, and every later
  send is refused as disconnected.\<close>

theorem closing_delivered_last:
  assumes "writer_inv q" and "send_closing_reliable data receipt q = (Inr r, q')"
  shows "(case reliable_queue.drain (length (wq_reliable q) + 1) q' of
      (received, rest) \<Rightarrow> received = wq_reliable q @ [ClosingReliable data receipt]
        \<and> fst (recv rest) = RecvEnded)
    \<and> send_reliable late q' = (Inl Disconnected, q')"
proof -
  obtain q1 where q1: "enqueue_reliable (ClosingReliable data receipt) (length data) q = (Inr (), q1)"
    and q': "q' = q1\<lparr>wq_clipboard := None, wq_render := None, wq_writer_alive := False\<rparr>"
    using assms(2) by (auto simp: send_closing_reliable_def split: prod.splits sum.splits)
  from q1 have pending: "wq_reliable q1 = wq_reliable q @ [ClosingReliable data receipt]"
    by (auto simp: enqueue_Inr)
  have "q' = writer_step (OpClosing data receipt) q" using assms(2) by (simp add: writer_step_def)
  then have inv: "writer_inv q'" using writer_step_inv [OF assms(1)] by simp
  obtain received rest where drain: "reliable_queue.drain (length (wq_reliable q) + 1) q' = (received, rest)"
    by fastforce
  with reliable_queue.drain_pending [OF inv, of "length (wq_reliable q) + 1"]
  have "received = wq_reliable q @ [ClosingReliable data receipt]" "wq_reliable rest = []"
    by (simp_all add: q' pending)
  moreover have "wq_clipboard rest = None \<and> wq_render rest = None \<and> \<not> wq_writer_alive rest"
    using drain_closed [of q' "length (wq_reliable q) + 1"] drain by (simp add: q')
  ultimately show ?thesis
    using drain by (simp add: recv_def send_reliable_def enqueue_reliable_def refusal_def q')
qed

theorem closing_delivered_last_witness:
  "send_reliable [2] (snd (send_closing_reliable [1] 0 (channel_inner None)))
   = (Inl Disconnected, snd (send_closing_reliable [1] 0 (channel_inner None)))"
proof -
  have "send_closing_reliable [1] 0 (channel_inner None)
      = (Inr 0, snd (send_closing_reliable [1] 0 (channel_inner None)))"
    by (simp add: send_closing_reliable_def enqueue_reliable_def refusal_def reserve_reliable_def
        channel_inner_def Let_def checked_add_usize_def usize_max_def MAX_RELIABLE_QUEUE_ITEMS_def
        MAX_RELIABLE_QUEUE_BYTES_def MAX_FRAME_SIZE_def)
  from closing_delivered_last [OF channel_inner_inv this, of "[2]"] show ?thesis by simp
qed

end
