(* ===== verification/Input_Queue.thy ===== *)
theory Input_Queue
  imports Client_Writer
begin

text \<open>
  The queue of bytes on their way to a terminal's PTY (\<open>terminal/input_queue.rs\<close>): user input under
  an entry and a byte budget, control reports under a budget of their own, the VT's replies behind
  one wake token, and the writer thread's loop. A user or control write reserves its permit and
  sends in two steps, between which other threads may run (the inputs in flight); a reply is queued
  under its lock. A refused byte reservation gives its entry back in the same step. \<open>ti_output\<close> is
  what reached the PTY, one chunk per queued entry.
\<close>

definition INPUT_QUEUE_CAPACITY :: nat where "INPUT_QUEUE_CAPACITY = 64"
definition TERMINAL_REPLY_QUEUE_RESERVE :: nat where "TERMINAL_REPLY_QUEUE_RESERVE = 1"
definition TERMINAL_CONTROL_QUEUE_RESERVE :: nat where
  "TERMINAL_CONTROL_QUEUE_RESERVE = INPUT_QUEUE_CAPACITY + 1"
definition MAX_PENDING_INPUT_BYTES :: nat where "MAX_PENDING_INPUT_BYTES = 8 * 1024 * 1024"

definition CHANNEL_CAPACITY :: nat where
  "CHANNEL_CAPACITY = INPUT_QUEUE_CAPACITY + TERMINAL_REPLY_QUEUE_RESERVE + TERMINAL_CONTROL_QUEUE_RESERVE"

section \<open>State\<close>

record queued_input =
  qi_bytes :: bytes
  qi_submit_split :: "nat option"
  qi_user_permit :: "nat option"
  qi_control_permit :: bool
  qi_terminal_replies :: bool

record term_input =
  ti_channel :: "queued_input list"
  ti_connected :: bool
  ti_pending_bytes :: nat
  ti_pending_entries :: nat
  ti_pending_control :: nat
  ti_replies :: "bytes list"
  ti_token_queued :: bool
  ti_accepting :: bool
  ti_stopping :: bool
  ti_flight :: "queued_input list"
  ti_writing :: "queued_input option"
  ti_output :: "bytes list"

definition input_channel :: term_input where
  "input_channel = \<lparr>ti_channel = [], ti_connected = True, ti_pending_bytes = 0,
     ti_pending_entries = 0, ti_pending_control = 0, ti_replies = [], ti_token_queued = False,
     ti_accepting = True, ti_stopping = False, ti_flight = [], ti_writing = None, ti_output = []\<rparr>"

datatype input_error =
  WriterStopped | InputQueueFull | InputBytesFull | ControlQueueFull | ReplyQueueFull

section \<open>Producers\<close>

text \<open>Dropping an entry gives its permit back.\<close>

definition drop_input :: "queued_input \<Rightarrow> term_input \<Rightarrow> term_input" where
  "drop_input qi st =
     (let st = (case qi_user_permit qi of
            Some n \<Rightarrow> st\<lparr>ti_pending_bytes := ti_pending_bytes st - n,
                         ti_pending_entries := ti_pending_entries st - 1\<rparr>
          | None \<Rightarrow> st)
      in if qi_control_permit qi then st\<lparr>ti_pending_control := ti_pending_control st - 1\<rparr> else st)"

definition user_reserve ::
  "bytes \<Rightarrow> nat option \<Rightarrow> term_input \<Rightarrow> (input_error + queued_input option) \<times> term_input" where
  "user_reserve bytes submit_split st =
     (if bytes = [] then (Inr None, st)
      else if \<not> ti_accepting st then (Inl WriterStopped, st)
      else if \<not> ti_pending_entries st < INPUT_QUEUE_CAPACITY then (Inl InputQueueFull, st)
      else case checked_add_usize (ti_pending_bytes st) (length bytes) of
             None \<Rightarrow> (Inl InputBytesFull, st)
           | Some next_total \<Rightarrow>
               if \<not> next_total \<le> MAX_PENDING_INPUT_BYTES then (Inl InputBytesFull, st)
               else (Inr (Some \<lparr>qi_bytes = bytes, qi_submit_split = submit_split,
                       qi_user_permit = Some (length bytes), qi_control_permit = False,
                       qi_terminal_replies = False\<rparr>),
                     st\<lparr>ti_pending_entries := ti_pending_entries st + 1, ti_pending_bytes := next_total\<rparr>))"

definition control_reserve :: "bytes \<Rightarrow> term_input \<Rightarrow> (input_error + queued_input option) \<times> term_input" where
  "control_reserve bytes st =
     (if bytes = [] then (Inr None, st)
      else if \<not> ti_accepting st then (Inl WriterStopped, st)
      else if \<not> ti_pending_control st < TERMINAL_CONTROL_QUEUE_RESERVE then (Inl ControlQueueFull, st)
      else (Inr (Some \<lparr>qi_bytes = bytes, qi_submit_split = None, qi_user_permit = None,
              qi_control_permit = True, qi_terminal_replies = False\<rparr>),
            st\<lparr>ti_pending_control := ti_pending_control st + 1\<rparr>))"

text \<open>\<open>SyncSender::try_send\<close>.\<close>

datatype try_send_error = ChannelFull | ChannelDisconnected

definition channel_send :: "queued_input \<Rightarrow> term_input \<Rightarrow> (try_send_error + unit) \<times> term_input" where
  "channel_send qi st =
     (if \<not> ti_connected st then (Inl ChannelDisconnected, st)
      else if CHANNEL_CAPACITY \<le> length (ti_channel st) then (Inl ChannelFull, st)
      else (Inr (), st\<lparr>ti_channel := ti_channel st @ [qi]\<rparr>))"

text \<open>The tail of a user or a control write, with the error a full channel gives.\<close>

definition permit_send :: "input_error \<Rightarrow> queued_input \<Rightarrow> term_input \<Rightarrow> (input_error + unit) \<times> term_input" where
  "permit_send full qi st =
     (if \<not> ti_accepting st then (Inl WriterStopped, drop_input qi st)
      else case channel_send qi st of
             (Inr _, st) \<Rightarrow> (Inr (), st)
           | (Inl ChannelFull, st) \<Rightarrow> (Inl full, drop_input qi st)
           | (Inl ChannelDisconnected, st) \<Rightarrow> (Inl WriterStopped, drop_input qi st))"

definition reserve_then_send ::
  "input_error \<Rightarrow> (input_error + queued_input option) \<times> term_input \<Rightarrow> (input_error + unit) \<times> term_input" where
  "reserve_then_send full r =
     (case r of
        (Inl e, st) \<Rightarrow> (Inl e, st)
      | (Inr None, st) \<Rightarrow> (Inr (), st)
      | (Inr (Some qi), st) \<Rightarrow> permit_send full qi st)"

definition try_write_user :: "bytes \<Rightarrow> nat option \<Rightarrow> term_input \<Rightarrow> (input_error + unit) \<times> term_input" where
  "try_write_user bytes submit_split st = reserve_then_send InputQueueFull (user_reserve bytes submit_split st)"

definition try_write :: "bytes \<Rightarrow> term_input \<Rightarrow> (input_error + unit) \<times> term_input" where
  "try_write bytes st = try_write_user bytes None st"

definition try_submit :: "bytes \<Rightarrow> bytes \<Rightarrow> term_input \<Rightarrow> (input_error + unit) \<times> term_input" where
  "try_submit text_bytes enter st = try_write_user (text_bytes @ enter) (Some (length text_bytes)) st"

definition try_write_control :: "bytes \<Rightarrow> term_input \<Rightarrow> (input_error + unit) \<times> term_input" where
  "try_write_control bytes st = reserve_then_send ControlQueueFull (control_reserve bytes st)"

definition reply_token :: "bytes \<Rightarrow> queued_input" where
  "reply_token bytes = \<lparr>qi_bytes = bytes, qi_submit_split = None, qi_user_permit = None,
     qi_control_permit = False, qi_terminal_replies = True\<rparr>"

definition write_terminal_reply :: "bytes \<Rightarrow> term_input \<Rightarrow> (input_error + unit) \<times> term_input" where
  "write_terminal_reply bytes st =
     (if bytes = [] then (Inr (), st)
      else if \<not> ti_accepting st then (Inl WriterStopped, st)
      else if ti_token_queued st then (Inr (), st\<lparr>ti_replies := ti_replies st @ [bytes]\<rparr>)
      else let st' = st\<lparr>ti_token_queued := True\<rparr> in
           case channel_send (reply_token bytes) st' of
             (Inr _, st') \<Rightarrow> (Inr (), st')
           | (Inl ChannelFull, st') \<Rightarrow> (Inl ReplyQueueFull, st'\<lparr>ti_token_queued := False\<rparr>)
           | (Inl ChannelDisconnected, st') \<Rightarrow> (Inl WriterStopped, st'\<lparr>ti_token_queued := False\<rparr>))"

definition input_stop :: "term_input \<Rightarrow> term_input" where
  "input_stop st = st\<lparr>ti_accepting := False\<rparr>"

section \<open>The writer thread\<close>

text \<open>Dropping the receiver: the gate closes, waiting replies go, and so does whatever was queued.\<close>

definition receiver_drop :: "term_input \<Rightarrow> term_input" where
  "receiver_drop st =
     (let st = fold drop_input (ti_channel st) st in
      st\<lparr>ti_accepting := False, ti_replies := [], ti_token_queued := False, ti_channel := [],
        ti_connected := False\<rparr>)"

text \<open>What \<open>write_queued_input\<close> writes, given whether the terminal stops during the submit delay.\<close>

definition write_queued_input :: "bytes \<Rightarrow> nat option \<Rightarrow> bool \<Rightarrow> bytes" where
  "write_queued_input bytes submit_split stops =
     (let split = (case submit_split of Some n \<Rightarrow> n | None \<Rightarrow> length bytes);
          text_bytes = take split bytes; enter = drop split bytes
      in if enter \<noteq> [] \<and> stops then text_bytes else text_bytes @ enter)"

text \<open>One turn of \<open>io_loop\<close>: take the next entry; write it; on an error, or once stopping, leave and
  drop everything. After a reply the loop goes on with the replies that piled up, and only clears
  the token, under their lock, when there are none.\<close>

definition io_take :: "term_input \<Rightarrow> term_input" where
  "io_take st =
     (if ti_writing st \<noteq> None \<or> ti_stopping st \<or> \<not> ti_connected st then st
      else case ti_channel st of
             [] \<Rightarrow> st
           | qi # rest \<Rightarrow> st\<lparr>ti_channel := rest, ti_writing := Some qi\<rparr>)"

definition io_write :: "bool \<Rightarrow> term_input \<Rightarrow> term_input" where
  "io_write stops st =
     (case ti_writing st of
        None \<Rightarrow> st
      | Some qi \<Rightarrow>
          let st = st\<lparr>ti_output := ti_output st @ [write_queued_input (qi_bytes qi) (qi_submit_split qi) stops]\<rparr>
          in if \<not> qi_terminal_replies qi then drop_input qi (st\<lparr>ti_writing := None\<rparr>)
             else case ti_replies st of
                    [] \<Rightarrow> drop_input qi (st\<lparr>ti_token_queued := False, ti_writing := None\<rparr>)
                  | nxt # rest \<Rightarrow> st\<lparr>ti_replies := rest, ti_writing := Some (qi\<lparr>qi_bytes := nxt\<rparr>)\<rparr>)"

definition io_leave :: "term_input \<Rightarrow> term_input" where
  "io_leave st =
     receiver_drop (case ti_writing st of
        None \<Rightarrow> st
      | Some qi \<Rightarrow> drop_input qi (st\<lparr>ti_writing := None\<rparr>))"

section \<open>Steps\<close>

datatype input_op =
    ReserveUser bytes "nat option" | ReserveControl bytes | SendFlight nat | Reply bytes
  | StopInput | SetStopping | IoTake | IoWrite bool | IoFail | IoExit

definition to_flight :: "(input_error + queued_input option) \<times> term_input \<Rightarrow> term_input" where
  "to_flight r =
     (case r of
        (Inr (Some qi), st) \<Rightarrow> st\<lparr>ti_flight := ti_flight st @ [qi]\<rparr>
      | (_, st) \<Rightarrow> st)"

definition send_flight :: "nat \<Rightarrow> term_input \<Rightarrow> (input_error + unit) \<times> term_input" where
  "send_flight i st =
     (let qi = ti_flight st ! i; st = st\<lparr>ti_flight := remove_at i (ti_flight st)\<rparr> in
      permit_send (if qi_control_permit qi then ControlQueueFull else InputQueueFull) qi st)"

definition input_step :: "input_op \<Rightarrow> term_input \<Rightarrow> term_input" where
  "input_step op st =
     (case op of
        ReserveUser bytes submit_split \<Rightarrow> to_flight (user_reserve bytes submit_split st)
      | ReserveControl bytes \<Rightarrow> to_flight (control_reserve bytes st)
      | SendFlight i \<Rightarrow> if i < length (ti_flight st) then snd (send_flight i st) else st
      | Reply bytes \<Rightarrow> snd (write_terminal_reply bytes st)
      | StopInput \<Rightarrow> input_stop st
      | SetStopping \<Rightarrow> st\<lparr>ti_stopping := True\<rparr>
      | IoTake \<Rightarrow> io_take st
      | IoWrite stops \<Rightarrow> io_write stops st
      | IoFail \<Rightarrow> if ti_writing st \<noteq> None then io_leave st else st
      | IoExit \<Rightarrow> if ti_stopping st then io_leave st else st)"

section \<open>Invariant\<close>

definition user_weight :: "queued_input \<Rightarrow> nat" where
  "user_weight qi = (if qi_user_permit qi = None then 0 else 1)"
definition byte_weight :: "queued_input \<Rightarrow> nat" where
  "byte_weight qi = (case qi_user_permit qi of None \<Rightarrow> 0 | Some n \<Rightarrow> n)"
definition control_weight :: "queued_input \<Rightarrow> nat" where
  "control_weight qi = (if qi_control_permit qi then 1 else 0)"
definition token_weight :: "queued_input \<Rightarrow> nat" where
  "token_weight qi = (if qi_terminal_replies qi then 1 else 0)"

definition held_sum :: "(queued_input \<Rightarrow> nat) \<Rightarrow> term_input \<Rightarrow> nat" where
  "held_sum w st = sum_list (map w (ti_channel st)) + sum_list (map w (ti_flight st))
     + (case ti_writing st of None \<Rightarrow> 0 | Some qi \<Rightarrow> w qi)"

definition held :: "term_input \<Rightarrow> queued_input set" where
  "held st = set (ti_channel st) \<union> set (ti_flight st) \<union> set_option (ti_writing st)"

definition one_role :: "queued_input \<Rightarrow> bool" where
  "one_role qi \<longleftrightarrow> user_weight qi + control_weight qi + token_weight qi = 1
     \<and> (qi_terminal_replies qi \<longrightarrow> qi_submit_split qi = None)"

text \<open>The counters are exactly what is held, within their budgets; there is one reply token while
  the flag says so and none otherwise; waiting replies imply the token, so a reply never waits for
  a wake-up that does not come.\<close>

definition input_inv :: "term_input \<Rightarrow> bool" where
  "input_inv st \<longleftrightarrow>
     ti_pending_entries st = held_sum user_weight st \<and> ti_pending_bytes st = held_sum byte_weight st
     \<and> ti_pending_control st = held_sum control_weight st
     \<and> held_sum token_weight st = (if ti_token_queued st then 1 else 0)
     \<and> ti_pending_entries st \<le> INPUT_QUEUE_CAPACITY
     \<and> ti_pending_bytes st \<le> MAX_PENDING_INPUT_BYTES
     \<and> ti_pending_control st \<le> TERMINAL_CONTROL_QUEUE_RESERVE
     \<and> (ti_replies st \<noteq> [] \<longrightarrow> ti_token_queued st)
     \<and> (\<forall>qi \<in> held st. one_role qi) \<and> (\<forall>qi \<in> set (ti_flight st). \<not> qi_terminal_replies qi)
     \<and> (\<not> ti_connected st \<longrightarrow> ti_channel st = [] \<and> ti_writing st = None \<and> \<not> ti_accepting st)"

text \<open>The balance of the counters while some inputs \<open>xs\<close> are in nobody's hands but the caller's.\<close>

definition balanced :: "queued_input list \<Rightarrow> term_input \<Rightarrow> bool" where
  "balanced xs st \<longleftrightarrow>
     ti_pending_entries st = held_sum user_weight st + sum_list (map user_weight xs)
     \<and> ti_pending_bytes st = held_sum byte_weight st + sum_list (map byte_weight xs)
     \<and> ti_pending_control st = held_sum control_weight st + sum_list (map control_weight xs)"

lemma drop_input_fields [simp]:
  "ti_channel (drop_input qi st) = ti_channel st" "ti_connected (drop_input qi st) = ti_connected st"
  "ti_replies (drop_input qi st) = ti_replies st" "ti_token_queued (drop_input qi st) = ti_token_queued st"
  "ti_accepting (drop_input qi st) = ti_accepting st" "ti_stopping (drop_input qi st) = ti_stopping st"
  "ti_flight (drop_input qi st) = ti_flight st" "ti_writing (drop_input qi st) = ti_writing st"
  "ti_output (drop_input qi st) = ti_output st"
  by (simp_all add: drop_input_def Let_def split: option.splits)

lemma drop_input_held [simp]: "held_sum w (drop_input qi st) = held_sum w st" "held (drop_input qi st) = held st"
  by (simp_all add: held_sum_def held_def)

lemma drop_input_counters:
  "ti_pending_entries (drop_input qi st) = ti_pending_entries st - user_weight qi"
  "ti_pending_bytes (drop_input qi st) = ti_pending_bytes st - byte_weight qi"
  "ti_pending_control (drop_input qi st) = ti_pending_control st - control_weight qi"
  by (simp_all add: drop_input_def Let_def user_weight_def byte_weight_def control_weight_def
      split: option.splits)

lemma drop_input_balanced: "balanced (qi # xs) st \<Longrightarrow> balanced xs (drop_input qi st)"
  by (simp add: balanced_def drop_input_counters)

lemma fold_drop_fields [simp]:
  "ti_channel (fold drop_input xs st) = ti_channel st"
  "ti_connected (fold drop_input xs st) = ti_connected st"
  "ti_replies (fold drop_input xs st) = ti_replies st"
  "ti_token_queued (fold drop_input xs st) = ti_token_queued st"
  "ti_accepting (fold drop_input xs st) = ti_accepting st"
  "ti_stopping (fold drop_input xs st) = ti_stopping st"
  "ti_flight (fold drop_input xs st) = ti_flight st"
  "ti_writing (fold drop_input xs st) = ti_writing st"
  "ti_output (fold drop_input xs st) = ti_output st"
  by (induction xs arbitrary: st) simp_all

lemma fold_drop_counters:
  "ti_pending_entries (fold drop_input xs st) = ti_pending_entries st - sum_list (map user_weight xs)"
  "ti_pending_bytes (fold drop_input xs st) = ti_pending_bytes st - sum_list (map byte_weight xs)"
  "ti_pending_control (fold drop_input xs st) = ti_pending_control st - sum_list (map control_weight xs)"
  by (induction xs arbitrary: st) (simp_all add: drop_input_counters)

text \<open>The invariant in three parts: balance, budgets, shape.\<close>

definition input_budget :: "term_input \<Rightarrow> bool" where
  "input_budget st \<longleftrightarrow> ti_pending_entries st \<le> INPUT_QUEUE_CAPACITY
     \<and> ti_pending_bytes st \<le> MAX_PENDING_INPUT_BYTES
     \<and> ti_pending_control st \<le> TERMINAL_CONTROL_QUEUE_RESERVE"

definition input_shape :: "term_input \<Rightarrow> bool" where
  "input_shape st \<longleftrightarrow>
     held_sum token_weight st = (if ti_token_queued st then 1 else 0)
     \<and> (ti_replies st \<noteq> [] \<longrightarrow> ti_token_queued st)
     \<and> (\<forall>qi \<in> held st. one_role qi) \<and> (\<forall>qi \<in> set (ti_flight st). \<not> qi_terminal_replies qi)
     \<and> (\<not> ti_connected st \<longrightarrow> ti_channel st = [] \<and> ti_writing st = None \<and> \<not> ti_accepting st)"

lemma input_inv_parts: "input_inv st \<longleftrightarrow> balanced [] st \<and> input_budget st \<and> input_shape st"
  by (auto simp: input_inv_def balanced_def input_budget_def input_shape_def)

lemma drop_input_budget: "input_budget st \<Longrightarrow> input_budget (drop_input qi st)"
  by (auto simp: input_budget_def drop_input_counters)

lemma drop_input_shape [simp]: "input_shape (drop_input qi st) = input_shape st"
  by (simp add: input_shape_def)

lemma drop_input_inv:
  assumes "balanced [qi] st" and "input_budget st" and "input_shape st"
  shows "input_inv (drop_input qi st)"
  using assms drop_input_balanced [of qi "[]" st] drop_input_budget by (simp add: input_inv_parts)

lemmas weight_defs = user_weight_def byte_weight_def control_weight_def token_weight_def

definition user_input :: "bytes \<Rightarrow> nat option \<Rightarrow> queued_input" where
  "user_input bytes split = \<lparr>qi_bytes = bytes, qi_submit_split = split,
     qi_user_permit = Some (length bytes), qi_control_permit = False, qi_terminal_replies = False\<rparr>"

definition control_input :: "bytes \<Rightarrow> queued_input" where
  "control_input bytes = \<lparr>qi_bytes = bytes, qi_submit_split = None, qi_user_permit = None,
     qi_control_permit = True, qi_terminal_replies = False\<rparr>"

lemma user_input_weights [simp]:
  "user_weight (user_input bytes split) = 1" "byte_weight (user_input bytes split) = length bytes"
  "control_weight (user_input bytes split) = 0" "token_weight (user_input bytes split) = 0"
  "one_role (user_input bytes split)" "\<not> qi_terminal_replies (user_input bytes split)"
  by (simp_all add: weight_defs user_input_def one_role_def)

lemma control_input_weights [simp]:
  "user_weight (control_input bytes) = 0" "byte_weight (control_input bytes) = 0"
  "control_weight (control_input bytes) = 1" "token_weight (control_input bytes) = 0"
  "one_role (control_input bytes)" "\<not> qi_terminal_replies (control_input bytes)"
  by (simp_all add: weight_defs control_input_def one_role_def)

lemma to_flight_user:
  "to_flight (user_reserve bytes split st) = st
   \<or> to_flight (user_reserve bytes split st)
       = st\<lparr>ti_pending_entries := ti_pending_entries st + 1,
           ti_pending_bytes := ti_pending_bytes st + length bytes,
           ti_flight := ti_flight st @ [user_input bytes split]\<rparr>
     \<and> ti_pending_entries st < INPUT_QUEUE_CAPACITY
     \<and> ti_pending_bytes st + length bytes \<le> MAX_PENDING_INPUT_BYTES"
  by (auto simp: to_flight_def user_reserve_def user_input_def split: option.splits)

lemma to_flight_control:
  "to_flight (control_reserve bytes st) = st
   \<or> to_flight (control_reserve bytes st)
       = st\<lparr>ti_pending_control := ti_pending_control st + 1,
           ti_flight := ti_flight st @ [control_input bytes]\<rparr>
     \<and> ti_pending_control st < TERMINAL_CONTROL_QUEUE_RESERVE"
  by (auto simp: to_flight_def control_reserve_def control_input_def)

lemma held_flight [simp]:
  "held (st\<lparr>ti_flight := ti_flight st @ [qi]\<rparr>) = insert qi (held st)"
  "held_sum w (st\<lparr>ti_flight := ti_flight st @ [qi]\<rparr>) = held_sum w st + w qi"
  by (auto simp: held_def held_sum_def)

lemma held_counters [simp]:
  "held (st\<lparr>ti_pending_entries := n\<rparr>) = held st" "held (st\<lparr>ti_pending_bytes := n\<rparr>) = held st"
  "held (st\<lparr>ti_pending_control := n\<rparr>) = held st"
  "held_sum w (st\<lparr>ti_pending_entries := n\<rparr>) = held_sum w st"
  "held_sum w (st\<lparr>ti_pending_bytes := n\<rparr>) = held_sum w st"
  "held_sum w (st\<lparr>ti_pending_control := n\<rparr>) = held_sum w st"
  by (simp_all add: held_def held_sum_def)

lemma reserve_user_inv: "input_inv st \<Longrightarrow> input_inv (to_flight (user_reserve bytes split st))"
  using to_flight_user [of bytes split st]
  by (elim disjE) (auto simp: input_inv_def held_def held_sum_def)

lemma reserve_control_inv: "input_inv st \<Longrightarrow> input_inv (to_flight (control_reserve bytes st))"
  using to_flight_control [of bytes st]
  by (elim disjE) (auto simp: input_inv_def held_def held_sum_def)

text \<open>Every entry has one role, so the channel can never be longer than the three budgets.\<close>

lemma one_role_length:
  "(\<forall>qi \<in> set xs. one_role qi) \<Longrightarrow> length xs = sum_list (map user_weight xs)
     + sum_list (map control_weight xs) + sum_list (map token_weight xs)"
  by (induction xs) (simp_all add: one_role_def)

lemma channel_room:
  assumes "input_shape st" and "input_budget st" and bal: "balanced xs st"
    and less: "sum_list (map user_weight (xs @ ti_flight st)) + sum_list (map control_weight (xs @ ti_flight st))
        + (1 - held_sum token_weight st) \<ge> 1"
  shows "length (ti_channel st) < CHANNEL_CAPACITY"
proof -
  have "length (ti_channel st) = sum_list (map user_weight (ti_channel st))
      + sum_list (map control_weight (ti_channel st)) + sum_list (map token_weight (ti_channel st))"
    using assms(1) by (intro one_role_length) (auto simp: input_shape_def held_def)
  moreover have "sum_list (map token_weight (ti_channel st)) \<le> held_sum token_weight st"
    "held_sum token_weight st \<le> 1"
    using assms(1) by (auto simp: held_sum_def input_shape_def)
  ultimately show ?thesis
    using assms(2) bal less
    by (auto simp: CHANNEL_CAPACITY_def TERMINAL_REPLY_QUEUE_RESERVE_def balanced_def input_budget_def held_sum_def)
qed

lemma sum_list_remove_at:
  "i < length xs \<Longrightarrow> (w (xs ! i) :: nat) + sum_list (map w (remove_at i xs)) = sum_list (map w xs)"
proof -
  assume i: "i < length xs"
  have "sum_list (map w xs) = sum_list (map w (take i xs @ xs ! i # drop (Suc i) xs))"
    using i by (simp add: id_take_nth_drop [symmetric])
  then show ?thesis by (simp add: remove_at_def)
qed

lemma take_flight:
  assumes inv: "input_inv st" and i: "i < length (ti_flight st)"
  defines "st' \<equiv> st\<lparr>ti_flight := remove_at i (ti_flight st)\<rparr>" and "qi \<equiv> ti_flight st ! i"
  shows "balanced [qi] st'" and "input_budget st'" and "input_shape st'" and "one_role qi"
    and "\<not> qi_terminal_replies qi"
proof -
  have sums: "held_sum w st' + w qi = held_sum w st" for w
    using sum_list_remove_at [OF i, of w] by (simp add: st'_def qi_def held_sum_def)
  have sub: "held st' \<subseteq> held st" "set (ti_flight st') \<subseteq> set (ti_flight st)"
    using set_remove_at_subset [of i "ti_flight st"] by (auto simp: st'_def held_def)
  have qi: "qi \<in> set (ti_flight st)" using i by (simp add: qi_def)
  then show role: "one_role qi" "\<not> qi_terminal_replies qi"
    using inv by (auto simp: input_inv_def held_def)
  have other: "ti_pending_entries st' = ti_pending_entries st" "ti_pending_bytes st' = ti_pending_bytes st"
    "ti_pending_control st' = ti_pending_control st" "ti_token_queued st' = ti_token_queued st"
    "ti_replies st' = ti_replies st" "ti_connected st' = ti_connected st" "ti_channel st' = ti_channel st"
    "ti_writing st' = ti_writing st" "ti_accepting st' = ti_accepting st"
    by (simp_all add: st'_def)
  show "balanced [qi] st'" using inv sums by (simp add: balanced_def input_inv_def other)
  show "input_budget st'" using inv by (simp add: input_budget_def input_inv_def other)
  have "token_weight qi = 0" using role by (simp add: token_weight_def)
  then show "input_shape st'"
    using inv sums [of token_weight] sub by (auto simp: input_shape_def input_inv_def other)
qed

lemma send_room:
  assumes "input_inv st" and "i < length (ti_flight st)"
  shows "length (ti_channel st) < CHANNEL_CAPACITY"
proof -
  let ?qi = "ti_flight st ! i" and ?st = "st\<lparr>ti_flight := remove_at i (ti_flight st)\<rparr>"
  note t = take_flight [OF assms]
  have "user_weight ?qi + control_weight ?qi = 1"
    using t(4,5) by (simp add: one_role_def token_weight_def)
  then have "length (ti_channel ?st) < CHANNEL_CAPACITY"
    by (intro channel_room [OF t(3,2,1)]) simp
  then show ?thesis by simp
qed

lemma send_flight_result:
  assumes "input_inv st" and "i < length (ti_flight st)" and "ti_accepting st"
  shows "send_flight i st = (Inr (), st\<lparr>ti_flight := remove_at i (ti_flight st),
     ti_channel := ti_channel st @ [ti_flight st ! i]\<rparr>)"
proof -
  have "ti_connected st" using assms(1,3) by (auto simp: input_inv_def)
  with send_room [OF assms(1,2)] assms(3) show ?thesis
    by (simp add: send_flight_def permit_send_def channel_send_def Let_def)
qed

lemma send_flight_inv:
  assumes inv: "input_inv st" and i: "i < length (ti_flight st)"
  shows "input_inv (snd (send_flight i st))"
proof (cases "ti_accepting st")
  case True
  then have conn: "ti_connected st" using inv by (auto simp: input_inv_def)
  note t = take_flight [OF inv i]
  show ?thesis
    using t conn True unfolding send_flight_result [OF inv i True]
    by (auto simp: input_inv_def balanced_def input_budget_def input_shape_def held_sum_def held_def
        token_weight_def)
next
  case False
  with drop_input_inv [OF take_flight(1-3) [OF inv i]] show ?thesis
    by (simp add: send_flight_def permit_send_def Let_def)
qed

lemma reply_room:
  assumes "input_inv st" and "\<not> ti_token_queued st"
  shows "length (ti_channel st) < CHANNEL_CAPACITY"
proof -
  have "input_shape st" "input_budget st" "balanced [] st" using assms(1) by (simp_all add: input_inv_parts)
  moreover have "held_sum token_weight st = 0" using assms by (simp add: input_inv_def)
  ultimately show ?thesis by (intro channel_room [of st "[]"]) simp_all
qed

lemma reply_result:
  assumes "input_inv st" and "bytes \<noteq> []" and "ti_accepting st"
  shows "write_terminal_reply bytes st = (Inr (),
     if ti_token_queued st then st\<lparr>ti_replies := ti_replies st @ [bytes]\<rparr>
     else st\<lparr>ti_token_queued := True, ti_channel := ti_channel st @ [reply_token bytes]\<rparr>)"
proof -
  have "ti_connected st" using assms(1,3) by (auto simp: input_inv_def)
  then show ?thesis using assms reply_room [OF assms(1)]
    by (cases "ti_token_queued st") (simp_all add: write_terminal_reply_def channel_send_def Let_def)
qed

lemma reply_inv:
  assumes inv: "input_inv st"
  shows "input_inv (snd (write_terminal_reply bytes st))"
proof (cases "bytes = [] \<or> \<not> ti_accepting st")
  case True
  with inv show ?thesis by (auto simp: write_terminal_reply_def)
next
  case False
  then have conn: "ti_connected st" using inv by (auto simp: input_inv_def)
  from False reply_result [OF inv, of bytes] inv conn show ?thesis
    by (auto simp: input_inv_def held_sum_def held_def weight_defs reply_token_def one_role_def)
qed

lemma io_take_inv: "input_inv st \<Longrightarrow> input_inv (io_take st)"
  by (auto simp: io_take_def input_inv_def held_sum_def held_def split: list.splits)

lemma receiver_drop_inv:
  assumes "balanced [] st" and "input_budget st" and "ti_writing st = None"
    and flight: "\<forall>qi \<in> set (ti_flight st). one_role qi \<and> \<not> qi_terminal_replies qi"
  shows "input_inv (receiver_drop st)"
proof -
  have "sum_list (map token_weight (ti_flight st)) = 0" using flight by (simp add: token_weight_def)
  then show ?thesis
    using assms
    by (simp add: receiver_drop_def Let_def input_inv_def balanced_def input_budget_def held_sum_def
        held_def fold_drop_counters)
qed

lemma writing_dropped:
  assumes inv: "input_inv st" and qi: "ti_writing st = Some qi"
  defines "st' \<equiv> st\<lparr>ti_writing := None\<rparr>"
  shows "balanced [] (drop_input qi st')" and "input_budget (drop_input qi st')"
proof -
  have "balanced [qi] st'" using inv qi by (simp add: st'_def input_inv_def balanced_def held_sum_def)
  then show "balanced [] (drop_input qi st')" by (rule drop_input_balanced)
  show "input_budget (drop_input qi st')"
    using inv by (intro drop_input_budget) (simp add: st'_def input_inv_def input_budget_def)
qed

lemma io_leave_inv:
  assumes inv: "input_inv st"
  shows "input_inv (io_leave st)"
proof -
  have flight: "\<forall>qi \<in> set (ti_flight st). one_role qi \<and> \<not> qi_terminal_replies qi"
    using inv by (auto simp: input_inv_def held_def)
  show ?thesis
  proof (cases "ti_writing st")
    case None
    with inv flight receiver_drop_inv [of st] show ?thesis by (simp add: io_leave_def input_inv_parts)
  next
    case (Some qi)
    with writing_dropped [OF inv Some] flight show ?thesis
      by (simp add: io_leave_def) (intro receiver_drop_inv; simp)
  qed
qed

lemma held_sum_writing:
  "ti_writing st = Some qi \<Longrightarrow> held_sum w st = held_sum w (st\<lparr>ti_writing := None\<rparr>) + w qi"
  "held_sum w (st\<lparr>ti_writing := Some qi, ti_replies := rs\<rparr>) = held_sum w (st\<lparr>ti_writing := None\<rparr>) + w qi"
  by (simp_all add: held_sum_def)

lemma held_output [simp]:
  "held (st\<lparr>ti_output := out\<rparr>) = held st" "held_sum w (st\<lparr>ti_output := out\<rparr>) = held_sum w st"
  "held (st\<lparr>ti_token_queued := b\<rparr>) = held st" "held_sum w (st\<lparr>ti_token_queued := b\<rparr>) = held_sum w st"
  "held (st\<lparr>ti_replies := rs\<rparr>) = held st" "held_sum w (st\<lparr>ti_replies := rs\<rparr>) = held_sum w st"
  by (simp_all add: held_def held_sum_def)

lemma output_inv [simp]: "input_inv (st\<lparr>ti_output := out\<rparr>) = input_inv st"
  by (simp add: input_inv_def)

lemma held_not_writing: "held (st\<lparr>ti_writing := None\<rparr>) \<subseteq> held st"
  by (auto simp: held_def)

lemma reply_role:
  assumes "one_role qi" and "qi_terminal_replies qi"
  shows "user_weight qi = 0" "byte_weight qi = 0" "control_weight qi = 0" "token_weight qi = 1"
    "drop_input qi st = st"
proof -
  have none: "qi_user_permit qi = None" "\<not> qi_control_permit qi"
    using assms by (auto simp: one_role_def weight_defs split: if_splits)
  with assms(2) show "user_weight qi = 0" "byte_weight qi = 0" "control_weight qi = 0" "token_weight qi = 1"
    "drop_input qi st = st"
    by (simp_all add: weight_defs drop_input_def)
qed

lemma token_writing:
  assumes inv: "input_inv st" and qi: "ti_writing st = Some qi" and token: "qi_terminal_replies qi"
  shows "one_role qi" and "ti_token_queued st" and "held_sum token_weight (st\<lparr>ti_writing := None\<rparr>) = 0"
proof -
  show role: "one_role qi" using inv qi by (auto simp: input_inv_def held_def)
  have "held_sum token_weight st = held_sum token_weight (st\<lparr>ti_writing := None\<rparr>) + 1"
    using held_sum_writing(1) [OF qi, of token_weight] reply_role(4) [OF role token] by simp
  moreover have "held_sum token_weight st = (if ti_token_queued st then 1 else 0)"
    using inv by (simp add: input_inv_def)
  ultimately show "ti_token_queued st" "held_sum token_weight (st\<lparr>ti_writing := None\<rparr>) = 0"
    by (simp_all split: if_splits)
qed

lemma finish_reply_inv:
  assumes inv: "input_inv st" and qi: "ti_writing st = Some qi" and token: "qi_terminal_replies qi"
    and last: "ti_replies st = []"
  shows "input_inv (st\<lparr>ti_token_queued := False, ti_writing := None\<rparr>)"
proof -
  note t = token_writing [OF inv qi token]
  have sums: "held_sum w st = held_sum w (st\<lparr>ti_writing := None\<rparr>)" if "w qi = 0" for w
    using held_sum_writing(1) [OF qi, of w] that by simp
  have swap: "st\<lparr>ti_token_queued := False, ti_writing := None\<rparr> = (st\<lparr>ti_writing := None\<rparr>)\<lparr>ti_token_queued := False\<rparr>"
    by simp
  show ?thesis
    using inv last t(3) sums [of user_weight] sums [of byte_weight] sums [of control_weight]
      reply_role(1-3) [OF t(1) token] held_not_writing [of st]
    unfolding swap by (simp add: input_inv_def subset_iff)
qed

lemma next_reply_inv:
  assumes inv: "input_inv st" and qi: "ti_writing st = Some qi" and token: "qi_terminal_replies qi"
  shows "input_inv (st\<lparr>ti_replies := rest, ti_writing := Some (qi\<lparr>qi_bytes := nxt\<rparr>)\<rparr>)"
proof -
  let ?qi = "qi\<lparr>qi_bytes := nxt\<rparr>" and ?st = "st\<lparr>ti_replies := rest, ti_writing := Some (qi\<lparr>qi_bytes := nxt\<rparr>)\<rparr>"
  note t = token_writing [OF inv qi token]
  have same: "user_weight ?qi = user_weight qi" "byte_weight ?qi = byte_weight qi"
    "control_weight ?qi = control_weight qi" "token_weight ?qi = token_weight qi" "one_role ?qi"
    using t(1) by (simp_all add: weight_defs one_role_def)
  have sums: "held_sum w ?st = held_sum w st" if "w ?qi = w qi" for w
    using qi that by (simp add: held_sum_def)
  have "held ?st \<subseteq> insert ?qi (held st)" by (auto simp: held_def)
  moreover have "ti_connected st" using inv qi by (auto simp: input_inv_def)
  ultimately show ?thesis
    using inv t(2) same sums [of user_weight] sums [of byte_weight] sums [of control_weight] sums [of token_weight]
    by (simp add: input_inv_def subset_iff) blast
qed

lemma finish_input_inv:
  assumes inv: "input_inv st" and qi: "ti_writing st = Some qi" and token: "\<not> qi_terminal_replies qi"
  shows "input_inv (drop_input qi (st\<lparr>ti_writing := None\<rparr>))"
proof -
  have "held_sum token_weight (st\<lparr>ti_writing := None\<rparr>) = held_sum token_weight st"
    using held_sum_writing(1) [OF qi, of token_weight] token by (simp add: token_weight_def)
  then have "input_shape (st\<lparr>ti_writing := None\<rparr>)"
    using inv held_not_writing [of st] by (simp add: input_shape_def input_inv_def subset_iff)
  with writing_dropped [OF inv qi] show ?thesis by (simp add: input_inv_parts)
qed

lemma io_write_inv:
  assumes inv: "input_inv st"
  shows "input_inv (io_write stops st)"
proof (cases "ti_writing st")
  case (Some qi)
  define st1 where "st1 = st\<lparr>ti_output := ti_output st @ [write_queued_input (qi_bytes qi) (qi_submit_split qi) stops]\<rparr>"
  have st1: "input_inv st1" "ti_writing st1 = Some qi" "ti_replies st1 = ti_replies st"
    using inv Some by (simp_all add: st1_def)
  have result: "io_write stops st =
      (if \<not> qi_terminal_replies qi then drop_input qi (st1\<lparr>ti_writing := None\<rparr>)
       else case ti_replies st1 of
              [] \<Rightarrow> drop_input qi (st1\<lparr>ti_token_queued := False, ti_writing := None\<rparr>)
            | nxt # rest \<Rightarrow> st1\<lparr>ti_replies := rest, ti_writing := Some (qi\<lparr>qi_bytes := nxt\<rparr>)\<rparr>)"
    using Some by (simp add: io_write_def st1_def Let_def split: list.split)
  show ?thesis
  proof (cases "qi_terminal_replies qi")
    case True
    note role = token_writing(1) [OF st1(1,2) True]
    show ?thesis
    proof (cases "ti_replies st1")
      case Nil
      then show ?thesis
        using finish_reply_inv [OF st1(1,2) True] reply_role(5) [OF role True] True by (simp add: result)
    next
      case (Cons nxt rest)
      then show ?thesis using next_reply_inv [OF st1(1,2) True] True by (simp add: result)
    qed
  qed (simp add: result finish_input_inv [OF st1(1,2)])
qed (use inv in \<open>simp add: io_write_def\<close>)

lemma flags_inv:
  "input_inv st \<Longrightarrow> input_inv (input_stop st)" "input_inv st \<Longrightarrow> input_inv (st\<lparr>ti_stopping := True\<rparr>)"
  by (simp_all add: input_stop_def input_inv_def held_sum_def held_def)

lemma input_step_inv:
  assumes "input_inv st"
  shows "input_inv (input_step op st)"
  using assms reserve_user_inv [OF assms] reserve_control_inv [OF assms] send_flight_inv [OF assms]
    reply_inv [OF assms] io_take_inv [OF assms] io_write_inv [OF assms] io_leave_inv [OF assms] flags_inv [OF assms]
  by (cases op) (simp_all add: input_step_def)

lemma input_run_inv: "input_inv st \<Longrightarrow> input_inv (fold input_step ops st)"
  by (induction ops arbitrary: st) (simp_all add: input_step_inv)

lemma input_channel_inv: "input_inv input_channel"
  by (simp add: input_channel_def input_inv_def held_sum_def held_def)

section \<open>Order\<close>

text \<open>The replies not yet written: the one behind the token, then the waiting ones.\<close>

definition option_list :: "'a option \<Rightarrow> 'a list" where
  "option_list m = (case m of None \<Rightarrow> [] | Some x \<Rightarrow> [x])"

definition reply_pending :: "term_input \<Rightarrow> bytes list" where
  "reply_pending st =
     map qi_bytes (filter qi_terminal_replies (option_list (ti_writing st) @ ti_channel st)) @ ti_replies st"

text \<open>What one step hands over: an entry sent, an entry taken, a reply accepted, a reply written.\<close>

definition entry_sent :: "input_op \<Rightarrow> term_input \<Rightarrow> queued_input list" where
  "entry_sent op st =
     (case op of
        SendFlight i \<Rightarrow> if i < length (ti_flight st) \<and> fst (send_flight i st) = Inr () then [ti_flight st ! i] else []
      | Reply bytes \<Rightarrow> if bytes \<noteq> [] \<and> fst (write_terminal_reply bytes st) = Inr () \<and> \<not> ti_token_queued st
                       then [reply_token bytes] else []
      | _ \<Rightarrow> [])"

definition entry_taken :: "input_op \<Rightarrow> term_input \<Rightarrow> queued_input list" where
  "entry_taken op st =
     (case op of
        IoTake \<Rightarrow> if ti_writing st \<noteq> None \<or> ti_stopping st \<or> \<not> ti_connected st then []
                  else take 1 (ti_channel st)
      | _ \<Rightarrow> [])"

definition reply_accepted :: "input_op \<Rightarrow> term_input \<Rightarrow> bytes list" where
  "reply_accepted op st =
     (case op of
        Reply bytes \<Rightarrow> if bytes \<noteq> [] \<and> fst (write_terminal_reply bytes st) = Inr () then [bytes] else []
      | _ \<Rightarrow> [])"

definition reply_written :: "input_op \<Rightarrow> term_input \<Rightarrow> bytes list" where
  "reply_written op st =
     (case op of
        IoWrite stops \<Rightarrow> (case ti_writing st of
            Some qi \<Rightarrow> if qi_terminal_replies qi then drop (length (ti_output st)) (ti_output (io_write stops st)) else []
          | None \<Rightarrow> [])
      | _ \<Rightarrow> [])"

definition leaves :: "input_op \<Rightarrow> term_input \<Rightarrow> bool" where
  "leaves op st \<longleftrightarrow> op = IoFail \<and> ti_writing st \<noteq> None \<or> op = IoExit \<and> ti_stopping st"

lemma send_flight_refused:
  "\<not> ti_accepting st \<Longrightarrow> send_flight i st
     = (Inl WriterStopped, drop_input (ti_flight st ! i) (st\<lparr>ti_flight := remove_at i (ti_flight st)\<rparr>))"
  by (simp add: send_flight_def permit_send_def Let_def)

lemma reply_refused:
  "\<not> ti_accepting st \<Longrightarrow> bytes \<noteq> [] \<Longrightarrow> write_terminal_reply bytes st = (Inl WriterStopped, st)"
  by (simp add: write_terminal_reply_def)

lemma drop_input_snd_case [simp]: "reply_pending (drop_input qi st) = reply_pending st"
  by (simp add: reply_pending_def)

lemma no_token_pending:
  assumes "input_inv st" and "\<not> ti_token_queued st"
  shows "reply_pending st = []"
proof -
  have "held_sum token_weight st = 0" "ti_replies st = []" using assms by (auto simp: input_inv_def)
  then have "\<forall>qi \<in> set (option_list (ti_writing st) @ ti_channel st). \<not> qi_terminal_replies qi"
    by (auto simp: held_sum_def token_weight_def option_list_def split: option.splits if_splits)
  then have "filter qi_terminal_replies (option_list (ti_writing st) @ ti_channel st) = []"
    by (simp only: filter_False)
  with \<open>ti_replies st = []\<close> show ?thesis by (simp only: reply_pending_def list.map append_Nil)
qed

lemma channel_after:
  assumes inv: "input_inv st" and "\<not> leaves op st"
  shows "ti_channel st @ entry_sent op st = entry_taken op st @ ti_channel (input_step op st)"
proof (cases op)
  case (ReserveUser bytes split)
  then show ?thesis using to_flight_user [of bytes split st]
    by (auto simp: entry_sent_def entry_taken_def input_step_def)
next
  case (ReserveControl bytes)
  then show ?thesis using to_flight_control [of bytes st]
    by (auto simp: entry_sent_def entry_taken_def input_step_def)
next
  case (SendFlight i)
  then show ?thesis using send_flight_result [OF inv, of i] send_flight_refused [of st i]
    by (cases "ti_accepting st") (auto simp: entry_sent_def entry_taken_def input_step_def)
next
  case (Reply bytes)
  then show ?thesis using reply_result [OF inv, of bytes] reply_refused [of st bytes]
    by (cases "bytes = []"; cases "ti_accepting st")
       (auto simp: entry_sent_def entry_taken_def input_step_def write_terminal_reply_def)
next
  case IoTake
  then show ?thesis
    by (auto simp: entry_sent_def entry_taken_def input_step_def io_take_def split: list.splits)
next
  case (IoWrite stops)
  then show ?thesis
    by (auto simp: entry_sent_def entry_taken_def input_step_def io_write_def Let_def split: option.splits list.splits)
qed (use assms in \<open>auto simp: entry_sent_def entry_taken_def input_step_def input_stop_def leaves_def\<close>)

lemma flight_not_token: "input_inv st \<Longrightarrow> i < length (ti_flight st) \<Longrightarrow> \<not> qi_terminal_replies (ti_flight st ! i)"
  using take_flight(5) by blast

lemma write_reply:
  assumes inv: "input_inv st" and qi: "ti_writing st = Some qi" and token: "qi_terminal_replies qi"
  shows "ti_output (io_write stops st) = ti_output st @ [qi_bytes qi]"
    and "reply_pending st = qi_bytes qi # reply_pending (io_write stops st)"
proof -
  note t = token_writing [OF inv qi token]
  have split: "qi_submit_split qi = None" using t(1) token by (simp add: one_role_def)
  then show "ti_output (io_write stops st) = ti_output st @ [qi_bytes qi]"
    using qi token by (simp add: io_write_def write_queued_input_def Let_def split: list.split)
  have "\<forall>x \<in> set (ti_channel st). \<not> qi_terminal_replies x"
    using t(3) by (auto simp: held_sum_def token_weight_def split: if_splits)
  then have "filter qi_terminal_replies (ti_channel st) = []" by (simp add: filter_False)
  then show "reply_pending st = qi_bytes qi # reply_pending (io_write stops st)"
    using qi token by (cases "ti_replies st") (simp_all add: reply_pending_def io_write_def option_list_def Let_def)
qed

lemma write_other:
  assumes "ti_writing st = Some qi" and "\<not> qi_terminal_replies qi"
  shows "reply_pending (io_write stops st) = reply_pending st"
  using assms by (simp add: reply_pending_def io_write_def option_list_def Let_def)

lemma replies_after:
  assumes inv: "input_inv st" and "\<not> leaves op st"
  shows "reply_pending st @ reply_accepted op st = reply_written op st @ reply_pending (input_step op st)"
proof (cases op)
  case (ReserveUser bytes split)
  then show ?thesis using to_flight_user [of bytes split st]
    by (auto simp: reply_accepted_def reply_written_def input_step_def reply_pending_def)
next
  case (ReserveControl bytes)
  then show ?thesis using to_flight_control [of bytes st]
    by (auto simp: reply_accepted_def reply_written_def input_step_def reply_pending_def)
next
  case (SendFlight i)
  then show ?thesis
    using send_flight_result [OF inv, of i] send_flight_refused [of st i] flight_not_token [OF inv, of i]
    by (cases "ti_accepting st") (auto simp: reply_accepted_def reply_written_def input_step_def reply_pending_def)
next
  case (Reply bytes)
  show ?thesis
  proof (cases "bytes = [] \<or> \<not> ti_accepting st")
    case True
    with Reply reply_refused [of st bytes] show ?thesis
      by (auto simp: reply_accepted_def reply_written_def input_step_def write_terminal_reply_def)
  next
    case False
    with reply_result [OF inv, of bytes] no_token_pending [OF inv] Reply show ?thesis
      by (auto simp: reply_accepted_def reply_written_def input_step_def reply_pending_def reply_token_def)
  qed
next
  case IoTake
  then show ?thesis
    by (auto simp: reply_accepted_def reply_written_def input_step_def io_take_def reply_pending_def
        option_list_def split: list.splits)
next
  case (IoWrite stops)
  show ?thesis
  proof (cases "ti_writing st")
    case None
    with IoWrite show ?thesis by (simp add: reply_accepted_def reply_written_def input_step_def io_write_def)
  next
    case (Some qi)
    with IoWrite write_reply [OF inv Some, of stops] write_other [OF Some, of stops] show ?thesis
      by (cases "qi_terminal_replies qi") (simp_all add: reply_accepted_def reply_written_def input_step_def)
  qed
qed (use assms in \<open>auto simp: reply_accepted_def reply_written_def input_step_def input_stop_def
      leaves_def reply_pending_def\<close>)

text \<open>A run until the writer thread leaves: entries sent and taken, replies accepted and written.\<close>

fun input_trace ::
  "input_op list \<Rightarrow> term_input
    \<Rightarrow> (queued_input list \<times> queued_input list \<times> bytes list \<times> bytes list \<times> term_input) option" where
  "input_trace [] st = Some ([], [], [], [], st)"
| "input_trace (op # ops) st =
     (if leaves op st then None
      else map_option (\<lambda>(sent, taken, replies, written, t).
             (entry_sent op st @ sent, entry_taken op st @ taken, reply_accepted op st @ replies,
              reply_written op st @ written, t)) (input_trace ops (input_step op st)))"

lemma input_trace_order:
  "input_inv st \<Longrightarrow> input_trace ops st = Some (sent, taken, replies, written, t) \<Longrightarrow>
   ti_channel st @ sent = taken @ ti_channel t \<and> reply_pending st @ replies = written @ reply_pending t"
proof (induction ops arbitrary: st sent taken replies written)
  case (Cons op ops)
  then obtain sent' taken' replies' written' where
      tr: "input_trace ops (input_step op st) = Some (sent', taken', replies', written', t)"
      and eqs: "sent = entry_sent op st @ sent'" "taken = entry_taken op st @ taken'"
        "replies = reply_accepted op st @ replies'" "written = reply_written op st @ written'"
      and stays: "\<not> leaves op st"
    by (auto split: if_splits)
  from Cons.IH [OF input_step_inv [OF Cons.prems(1)] tr]
  have IH: "ti_channel (input_step op st) @ sent' = taken' @ ti_channel t"
    "reply_pending (input_step op st) @ replies' = written' @ reply_pending t" by simp_all
  have "ti_channel st @ sent = (ti_channel st @ entry_sent op st) @ sent'" by (simp add: eqs)
  also have "\<dots> = taken @ ti_channel t"
    using IH(1) by (simp add: channel_after [OF Cons.prems(1) stays] eqs)
  finally have "ti_channel st @ sent = taken @ ti_channel t" .
  moreover have "reply_pending st @ replies = (reply_pending st @ reply_accepted op st) @ replies'" by (simp add: eqs)
  then have "reply_pending st @ replies = written @ reply_pending t"
    using IH(2) by (simp add: replies_after [OF Cons.prems(1) stays] eqs)
  ultimately show ?case ..
qed simp

section \<open>Properties\<close>

text \<open>C25: Under any interleaving of producers, replies and the writer thread, the counters are exactly
  what is queued, in flight or being written, and stay within the entry, byte and control budgets;
  there is one reply token while replies wait and none when none do, so no reply waits for a wake-up
  that never comes; and the channel never fills up: an input that holds its permit, and a reply, are
  accepted whenever the writer is still there.\<close>

theorem input_reachable:
  "let st = fold input_step ops input_channel in
     input_inv st
     \<and> (ti_accepting st \<longrightarrow>
          (\<forall>i < length (ti_flight st). fst (send_flight i st) = Inr ())
          \<and> fst (write_terminal_reply bytes st) = Inr ())"
proof -
  let ?st = "fold input_step ops input_channel"
  have inv: "input_inv ?st" by (rule input_run_inv [OF input_channel_inv])
  have "fst (write_terminal_reply bytes ?st) = Inr ()" if "ti_accepting ?st"
    using reply_result [OF inv _ that] by (cases "bytes = []") (simp_all add: write_terminal_reply_def)
  with inv send_flight_result [OF inv] show ?thesis by (simp add: Let_def)
qed

theorem input_reachable_witness:
  "input_inv (fold input_step [ReserveUser [1] None, Reply [2], SendFlight 0, IoTake] input_channel)"
  using input_reachable [of "[ReserveUser [1] None, Reply [2], SendFlight 0, IoTake]" "[]"]
  by (simp add: Let_def)



end
