(* ===== verification/Terminal_View.thy ===== *)
theory Terminal_View
  imports Replica
begin

text \<open>
  A terminal's view as Server and Client hold it, the frames that carry it, and how a frame is made
  from two views, checked and applied (\<open>terminal/view.rs\<close>). A panic of an \<open>expect\<close> is an outer
  \<open>None\<close>. Lengths and indices (\<open>usize\<close>) are \<open>nat\<close>; wire integers keep their width.
\<close>

section \<open>Types\<close>

record terminal_size =
  ts_rows :: u16
  ts_columns :: u16
  ts_cell_width :: u16
  ts_cell_height :: u16

datatype cursor_shape = ShapeBlock | ShapeUnderline | ShapeBeam | ShapeHollowBlock | ShapeHidden
datatype terminal_color = ColorDefault | ColorIndexed u8 | ColorRgb u8 u8 u8

record terminal_cell =
  tc_text :: rstr
  tc_foreground :: terminal_color
  tc_background :: terminal_color
  tc_underline_color :: terminal_color
  tc_flags :: u32
  tc_hyperlink :: "rstr option"

record terminal_cursor =
  cu_row :: u16
  cu_column :: u16
  cu_shape :: cursor_shape
  cu_blinking :: bool

datatype mouse_tracking = TrackNone | TrackClick | TrackDrag | TrackMotion
datatype terminal_side = SideLeft | SideRight

record terminal_position =
  tp_row :: u16
  tp_column :: u16
  tp_side :: terminal_side

record terminal_selection =
  se_start :: terminal_position
  se_end :: terminal_position
  se_display_offset :: u32

record terminal_view =
  tv_revision :: u64
  tv_size :: terminal_size
  tv_display_offset :: u32
  tv_mouse_tracking :: mouse_tracking
  tv_cells :: "terminal_cell list"
  tv_cursor :: "terminal_cursor option"
  tv_selection :: "terminal_selection option"

record cell_run =
  cr_start :: u32
  cr_cells :: "terminal_cell list"

record view_delta =
  vd_base_revision :: u64
  vd_revision :: u64
  vd_display_offset :: u32
  vd_mouse_tracking :: mouse_tracking
  vd_cursor :: "terminal_cursor option"
  vd_selection :: "terminal_selection option"
  vd_runs :: "cell_run list"

datatype view_frame = Full terminal_view | Delta view_delta

datatype frame_error =
    RevisionMismatch u64 u64
  | NonMonotonicRevision u64 u64
  | InvalidCellRun

section \<open>Making a frame\<close>

text \<open>The inner loop: the end of the run of differing cells that begins at or before \<open>index\<close>.\<close>

function run_end :: "terminal_cell list \<Rightarrow> terminal_cell list \<Rightarrow> nat \<Rightarrow> nat" where
  "run_end prev cur index =
     (if index < length cur \<and> prev ! index \<noteq> cur ! index then run_end prev cur (index + 1) else index)"
  by pat_completeness auto

termination run_end
  by (relation "measure (\<lambda>(_, cur, index). length cur - index)") auto

declare run_end.simps [simp del]

lemma run_end_ge: "index \<le> run_end prev cur index"
  by (induction prev cur index rule: run_end.induct) (subst run_end.simps, auto dest: Suc_leD)

lemma run_end_le: "index \<le> length cur \<Longrightarrow> run_end prev cur index \<le> length cur"
  by (induction prev cur index rule: run_end.induct) (subst run_end.simps, simp)

lemma run_end_differs: "index \<le> j \<Longrightarrow> j < run_end prev cur index \<Longrightarrow> prev ! j \<noteq> cur ! j"
proof (induction prev cur index rule: run_end.induct)
  case (1 prev cur index)
  show ?case
  proof (cases "index < length cur \<and> prev ! index \<noteq> cur ! index")
    case True
    with 1 show ?thesis by (cases "j = index") (simp_all add: run_end.simps [of prev cur index])
  next
    case False
    with 1 show ?thesis by (auto simp: run_end.simps [of prev cur index])
  qed
qed

lemma run_end_gt: "index < length cur \<Longrightarrow> prev ! index \<noteq> cur ! index \<Longrightarrow> index < run_end prev cur index"
  using run_end_ge [of "index + 1" prev cur] by (simp add: run_end.simps [of prev cur index])

definition slice :: "nat \<Rightarrow> nat \<Rightarrow> 'a list \<Rightarrow> 'a list" where
  "slice a b xs = take (b - a) (drop a xs)"

definition u32_of :: "nat \<Rightarrow> u32 option" where
  "u32_of n = (if n < 2 ^ 32 then Some (of_nat n) else None)"

lemma unat_u32_of: "u32_of n = Some w \<Longrightarrow> unat w = n"
  by (auto simp: u32_of_def unsigned_of_nat take_bit_nat_eq_self split: if_splits)

text \<open>The outer loop: the runs from \<open>index\<close> on and how many cells they hold.\<close>

function changed_runs ::
  "terminal_cell list \<Rightarrow> terminal_cell list \<Rightarrow> nat \<Rightarrow> (cell_run list \<times> nat) option" where
  "changed_runs prev cur index =
     (if \<not> index < length cur then Some ([], 0)
      else if prev ! index = cur ! index then changed_runs prev cur (index + 1)
      else let stop = run_end prev cur index in
           case u32_of index of
             None \<Rightarrow> None
           | Some start \<Rightarrow>
               map_option (\<lambda>(runs, changed).
                   (\<lparr>cr_start = start, cr_cells = slice index stop cur\<rparr> # runs, stop - index + changed))
                 (changed_runs prev cur stop))"
  by pat_completeness auto

termination changed_runs
  by (relation "measure (\<lambda>(_, cur, index). length cur - index)")
     (auto dest: run_end_gt intro: diff_less_mono2)

declare changed_runs.simps [simp del]

definition metadata_changed :: "terminal_view \<Rightarrow> terminal_view \<Rightarrow> bool" where
  "metadata_changed previous current \<longleftrightarrow>
     tv_display_offset previous \<noteq> tv_display_offset current
     \<or> tv_mouse_tracking previous \<noteq> tv_mouse_tracking current
     \<or> tv_cursor previous \<noteq> tv_cursor current
     \<or> tv_selection previous \<noteq> tv_selection current"

definition frame_from :: "terminal_view option \<Rightarrow> terminal_view \<Rightarrow> view_frame option option" where
  "frame_from previous current =
     (case previous of
        None \<Rightarrow> Some (Some (Full current))
      | Some previous \<Rightarrow>
          if tv_size previous \<noteq> tv_size current
             \<or> length (tv_cells previous) \<noteq> length (tv_cells current)
             \<or> tv_revision current \<le> tv_revision previous
          then Some (Some (Full current))
          else case changed_runs (tv_cells previous) (tv_cells current) 0 of
            None \<Rightarrow> None
          | Some (runs, changed_cells) \<Rightarrow>
              if changed_cells = 0 \<and> \<not> metadata_changed previous current then Some None
              else if length (tv_cells current) div 2 < changed_cells then Some (Some (Full current))
              else Some (Some (Delta \<lparr>vd_base_revision = tv_revision previous,
                     vd_revision = tv_revision current, vd_display_offset = tv_display_offset current,
                     vd_mouse_tracking = tv_mouse_tracking current, vd_cursor = tv_cursor current,
                     vd_selection = tv_selection current, vd_runs = runs\<rparr>)))"

section \<open>Checking and applying a frame\<close>

text \<open>The loop of \<open>validate_delta\<close> over the runs, with the end of the run before.\<close>

fun validate_runs :: "nat \<Rightarrow> nat \<Rightarrow> cell_run list \<Rightarrow> frame_error + unit" where
  "validate_runs limit previous_end [] = Inr ()"
| "validate_runs limit previous_end (run # runs) =
     (let start = unat (cr_start run) in
      case checked_add_usize start (length (cr_cells run)) of
        None \<Rightarrow> Inl InvalidCellRun
      | Some stop \<Rightarrow>
          if \<not> stop \<le> limit then Inl InvalidCellRun
          else if cr_cells run = [] \<or> start < previous_end then Inl InvalidCellRun
          else validate_runs limit stop runs)"

definition validate_delta :: "terminal_view \<Rightarrow> view_delta \<Rightarrow> frame_error + unit" where
  "validate_delta view delta =
     (if vd_revision delta \<le> vd_base_revision delta
      then Inl (NonMonotonicRevision (vd_base_revision delta) (vd_revision delta))
      else if tv_revision view \<noteq> vd_base_revision delta
      then Inl (RevisionMismatch (vd_base_revision delta) (tv_revision view))
      else validate_runs (length (tv_cells view)) 0 (vd_runs delta))"

fun validate_frame :: "terminal_view \<Rightarrow> view_frame \<Rightarrow> frame_error + unit" where
  "validate_frame view (Full _) = Inr ()"
| "validate_frame view (Delta delta) = validate_delta view delta"

definition put_run :: "cell_run \<Rightarrow> terminal_cell list \<Rightarrow> terminal_cell list" where
  "put_run run cells =
     (let start = unat (cr_start run) in
      take start cells @ cr_cells run @ drop (start + length (cr_cells run)) cells)"

definition apply_validated_delta :: "view_delta \<Rightarrow> terminal_view \<Rightarrow> terminal_view" where
  "apply_validated_delta delta view =
     view\<lparr>tv_cells := fold put_run (vd_runs delta) (tv_cells view),
       tv_revision := vd_revision delta, tv_display_offset := vd_display_offset delta,
       tv_mouse_tracking := vd_mouse_tracking delta, tv_cursor := vd_cursor delta,
       tv_selection := vd_selection delta\<rparr>"

definition apply_frame :: "view_frame \<Rightarrow> terminal_view \<Rightarrow> frame_error + terminal_view" where
  "apply_frame frame view =
     bind_ok (validate_frame view frame)
       (\<lambda>_. case frame of
              Full new_view \<Rightarrow> Inr new_view
            | Delta delta \<Rightarrow> Inr (apply_validated_delta delta view))"

section \<open>Cells, sizes and selections\<close>

definition MAX_TERMINAL_CELLS :: nat where "MAX_TERMINAL_CELLS = 65536"

definition view_cell :: "terminal_view \<Rightarrow> u16 \<Rightarrow> u16 \<Rightarrow> terminal_cell option" where
  "view_cell view row column =
     (if ts_rows (tv_size view) \<le> row \<or> ts_columns (tv_size view) \<le> column then None
      else let i = unat row * unat (ts_columns (tv_size view)) + unat column in
           if i < length (tv_cells view) then Some (tv_cells view ! i) else None)"

definition validate_size :: "terminal_size \<Rightarrow> terminal_size option" where
  "validate_size sz =
     (if ts_rows sz = 0 \<or> ts_columns sz = 0 then None
      else if MAX_TERMINAL_CELLS < unat (ts_rows sz) * unat (ts_columns sz) then None
      else Some sz)"

definition position_less :: "terminal_position \<Rightarrow> terminal_position \<Rightarrow> bool" where
  "position_less a b \<longleftrightarrow> tp_row a < tp_row b \<or> tp_row a = tp_row b \<and> tp_column a < tp_column b"

definition clamp_column :: "u16 \<Rightarrow> terminal_position \<Rightarrow> terminal_position" where
  "clamp_column columns p = p\<lparr>tp_column := min (tp_column p) (columns - 1)\<rparr>"

text \<open>\<open>u32::from(row) * u32::from(columns) + u32::from(column)\<close> fits \<open>u32\<close> for 16-bit values.\<close>

definition cell_index :: "u16 \<Rightarrow> terminal_position \<Rightarrow> nat" where
  "cell_index columns p = unat (tp_row p) * unat columns + unat (tp_column p)"

definition selected_cell_range :: "terminal_selection \<Rightarrow> u16 \<Rightarrow> (nat \<times> nat) option" where
  "selected_cell_range sel columns =
     (if columns = 0 then None
      else let a = clamp_column columns (se_start sel); b = clamp_column columns (se_end sel);
               (a, b) = (if position_less b a then (b, a) else (a, b)) in
           if a = b \<or> (tp_row a = tp_row b \<and> tp_column a \<noteq> - 1 \<and> tp_column a + 1 = tp_column b
                      \<and> tp_side a = SideRight \<and> tp_side b = SideLeft)
           then None
           else let different = (tp_row a, tp_column a) \<noteq> (tp_row b, tp_column b);
                    first = cell_index columns a + (if different \<and> tp_side a = SideRight then 1 else 0);
                    last_cell = cell_index columns b - (if different \<and> tp_side b = SideLeft then 1 else 0)
                in if first \<le> last_cell then Some (first, last_cell) else None)"

definition contains_cell :: "terminal_selection \<Rightarrow> u16 \<Rightarrow> u16 \<Rightarrow> u16 \<Rightarrow> bool" where
  "contains_cell sel row column columns =
     (case selected_cell_range sel columns of
        None \<Rightarrow> False
      | Some (a, b) \<Rightarrow> (let cell = unat row * unat columns + unat column in a \<le> cell \<and> cell \<le> b))"

section \<open>Applying runs, cell by cell\<close>

definition covers :: "cell_run \<Rightarrow> nat \<Rightarrow> bool" where
  "covers run i \<longleftrightarrow> unat (cr_start run) \<le> i \<and> i < unat (cr_start run) + length (cr_cells run)"

text \<open>The cell the runs put at \<open>i\<close>: the last run covering it wins.\<close>

definition run_cell :: "cell_run \<Rightarrow> nat \<Rightarrow> terminal_cell" where
  "run_cell run i = cr_cells run ! (i - unat (cr_start run))"

definition runs_at :: "cell_run list \<Rightarrow> nat \<Rightarrow> terminal_cell option" where
  "runs_at runs i = fold (\<lambda>run found. if covers run i then Some (run_cell run i) else found) runs None"

definition runs_fit :: "nat \<Rightarrow> cell_run list \<Rightarrow> bool" where
  "runs_fit limit runs \<longleftrightarrow> (\<forall>run \<in> set runs. unat (cr_start run) + length (cr_cells run) \<le> limit)"

lemma length_put_run:
  "unat (cr_start run) + length (cr_cells run) \<le> length cells \<Longrightarrow> length (put_run run cells) = length cells"
  by (simp add: put_run_def Let_def)

lemma nth_put_run:
  assumes "unat (cr_start run) + length (cr_cells run) \<le> length cells" and "i < length cells"
  shows "put_run run cells ! i = (if covers run i then run_cell run i else cells ! i)"
  using assms by (auto simp: put_run_def covers_def run_cell_def nth_append Let_def)

lemma length_put_runs:
  "runs_fit (length cells) runs \<Longrightarrow> length (fold put_run runs cells) = length cells"
  by (induction runs arbitrary: cells) (simp_all add: runs_fit_def length_put_run)

lemma runs_at_acc:
  "fold (\<lambda>run found. if covers run i then Some (run_cell run i) else found) runs acc
   = (case runs_at runs i of Some c \<Rightarrow> Some c | None \<Rightarrow> acc)"
proof (induction runs arbitrary: acc)
  case (Cons run runs)
  show ?case
    using Cons.IH [of "if covers run i then Some (run_cell run i) else acc"]
      Cons.IH [of "if covers run i then Some (run_cell run i) else None"]
    by (simp add: runs_at_def split: option.splits)
qed (simp add: runs_at_def)

lemma runs_at_simps [simp]:
  "runs_at [] i = None"
  "runs_at (run # runs) i = (case runs_at runs i of Some c \<Rightarrow> Some c
     | None \<Rightarrow> if covers run i then Some (run_cell run i) else None)"
  using runs_at_acc [of i runs "if covers run i then Some (run_cell run i) else None"]
  by (simp_all add: runs_at_def)

lemma nth_put_runs:
  "runs_fit (length cells) runs \<Longrightarrow> i < length cells \<Longrightarrow>
   fold put_run runs cells ! i = (case runs_at runs i of Some c \<Rightarrow> c | None \<Rightarrow> cells ! i)"
  by (induction runs arbitrary: cells)
     (auto simp: runs_fit_def length_put_run nth_put_run split: option.splits)

lemma runs_at_append:
  "runs_at (xs @ ys) i = (case runs_at ys i of Some c \<Rightarrow> Some c | None \<Rightarrow> runs_at xs i)"
  by (induction xs) (auto split: option.splits)

lemma runs_at_None: "runs_at runs i = None \<longleftrightarrow> (\<forall>run \<in> set runs. \<not> covers run i)"
  by (induction runs) (auto split: option.splits)

text \<open>What the check of the runs accepts, written out.\<close>

fun runs_ordered :: "nat \<Rightarrow> nat \<Rightarrow> cell_run list \<Rightarrow> bool" where
  "runs_ordered limit previous_end [] = True"
| "runs_ordered limit previous_end (run # runs) =
     (previous_end \<le> unat (cr_start run) \<and> cr_cells run \<noteq> []
      \<and> unat (cr_start run) + length (cr_cells run) \<le> limit
      \<and> runs_ordered limit (unat (cr_start run) + length (cr_cells run)) runs)"

lemma validate_runs_exact:
  "limit \<le> usize_max \<Longrightarrow> validate_runs limit previous_end runs = Inr () \<longleftrightarrow> runs_ordered limit previous_end runs"
  by (induction limit previous_end runs rule: runs_ordered.induct)
     (auto simp: checked_add_usize_def Let_def)

lemma runs_ordered_fit: "runs_ordered limit previous_end runs \<Longrightarrow> runs_fit limit runs"
  by (induction limit previous_end runs rule: runs_ordered.induct) (auto simp: runs_fit_def)

lemma validate_runs_error: "validate_runs limit previous_end runs \<noteq> Inr () \<Longrightarrow>
   validate_runs limit previous_end runs = Inl InvalidCellRun"
  by (induction limit previous_end runs rule: validate_runs.induct) (auto simp: Let_def split: option.splits)

section \<open>A delta made from two views\<close>

lemma length_slice [simp]: "b \<le> length xs \<Longrightarrow> length (slice a b xs) = b - a"
  by (simp add: slice_def)

lemma nth_slice [simp]: "b \<le> length xs \<Longrightarrow> i < b - a \<Longrightarrow> slice a b xs ! i = xs ! (a + i)"
  by (simp add: slice_def)

lemma changed_runs_total:
  "length cur \<le> 2 ^ 32 \<Longrightarrow> changed_runs prev cur index \<noteq> None"
proof (induction prev cur index rule: changed_runs.induct)
  case (1 prev cur index)
  show ?case
  proof (cases "index < length cur \<and> prev ! index \<noteq> cur ! index")
    case True
    then have "u32_of index = Some (of_nat index)" using 1(3) by (simp add: u32_of_def)
    with True 1 show ?thesis by (subst changed_runs.simps) (simp add: Let_def)
  next
    case False
    with 1 show ?thesis by (subst changed_runs.simps) auto
  qed
qed

text \<open>The runs are ordered, hold the current view's cells, and miss no cell that changed.\<close>

definition runs_of :: "terminal_cell list \<Rightarrow> terminal_cell list \<Rightarrow> nat \<Rightarrow> cell_run list \<Rightarrow> bool" where
  "runs_of prev cur index runs \<longleftrightarrow>
     runs_ordered (length cur) index runs
     \<and> (\<forall>i. index \<le> i \<longrightarrow> i < length cur \<longrightarrow>
          (case runs_at runs i of Some c \<Rightarrow> c = cur ! i | None \<Rightarrow> prev ! i = cur ! i))"

lemma runs_ordered_weaken: "runs_ordered limit n runs \<Longrightarrow> m \<le> n \<Longrightarrow> runs_ordered limit m runs"
  by (cases runs) auto

lemma runs_ordered_ge: "runs_ordered limit n runs \<Longrightarrow> run \<in> set runs \<Longrightarrow> n \<le> unat (cr_start run)"
proof (induction limit n runs arbitrary: run rule: runs_ordered.induct)
  case (2 limit n r runs)
  then show ?case by fastforce
qed simp

lemma changed_runs_spec:
  "length prev = length cur \<Longrightarrow> changed_runs prev cur index = Some (runs, changed) \<Longrightarrow>
   runs_of prev cur index runs \<and> (changed = 0 \<longleftrightarrow> runs = [])"
proof (induction prev cur index arbitrary: runs changed rule: changed_runs.induct)
  case (1 prev cur index)
  consider (stop) "\<not> index < length cur"
    | (same) "index < length cur" "prev ! index = cur ! index"
    | (run) "index < length cur" "prev ! index \<noteq> cur ! index" by blast
  then show ?case
  proof cases
    case stop
    with 1(4) show ?thesis by (simp add: changed_runs.simps [of prev cur index] runs_of_def)
  next
    case same
    with 1(4) have tail: "changed_runs prev cur (index + 1) = Some (runs, changed)"
      by (simp add: changed_runs.simps [of prev cur index])
    from 1(1) [OF _ same(2) 1(3) tail] same(1)
    have IH: "runs_of prev cur (index + 1) runs" "changed = 0 \<longleftrightarrow> runs = []" by auto
    have "runs_at runs index = None"
      unfolding runs_at_None covers_def using IH(1) runs_ordered_ge [of "length cur" "index + 1" runs]
      by (fastforce simp: runs_of_def)
    with IH same show ?thesis
      unfolding runs_of_def by (auto intro: runs_ordered_weaken dest: le_neq_implies_less simp: Suc_le_eq)
  next
    case run
    let ?stop = "run_end prev cur index"
    from run 1(4) obtain start tail rest where
        start: "u32_of index = Some start" and tail: "changed_runs prev cur ?stop = Some (tail, rest)"
        and runs: "runs = \<lparr>cr_start = start, cr_cells = slice index ?stop cur\<rparr> # tail"
        and changed: "changed = ?stop - index + rest"
      by (auto simp: changed_runs.simps [of prev cur index] Let_def split: option.splits)
    from 1(2) [OF _ run(2) refl start 1(3) tail] run(1)
    have IH: "runs_of prev cur ?stop tail" by simp
    have stop: "index < ?stop" "?stop \<le> length cur" using run_end_gt [OF run] run_end_le run(1) by auto
    have at: "unat start = index" by (rule unat_u32_of [OF start])
    let ?r = "\<lparr>cr_start = start, cr_cells = slice index ?stop cur\<rparr>"
    have cov: "covers ?r i \<longleftrightarrow> index \<le> i \<and> i < ?stop" for i using stop at by (auto simp: covers_def)
    have cell: "run_cell ?r i = cur ! i" if "covers ?r i" for i
    proof -
      have i: "index \<le> i" "i - index < ?stop - index" using that by (auto simp: cov)
      have "slice index ?stop cur ! (i - index) = cur ! (index + (i - index))" by (rule nth_slice [OF stop(2) i(2)])
      with i(1) at show ?thesis by (simp add: run_cell_def)
    qed
    have before: "runs_at tail i = None" if "i < ?stop" for i
      unfolding runs_at_None covers_def using IH runs_ordered_ge [of "length cur" ?stop tail] that
      by (fastforce simp: runs_of_def)
    have "case runs_at runs i of Some c \<Rightarrow> c = cur ! i | None \<Rightarrow> prev ! i = cur ! i"
      if "index \<le> i" "i < length cur" for i
    proof (cases "i < ?stop")
      case True
      with that before cell cov show ?thesis by (simp add: runs)
    next
      case False
      with that IH cov show ?thesis by (auto simp: runs runs_of_def split: option.splits)
    qed
    moreover have "runs_ordered (length cur) index runs"
      using IH stop at by (auto simp: runs runs_of_def slice_def)
    ultimately show ?thesis using stop by (simp add: runs_of_def changed runs)
  qed
qed

lemma changed_runs_apply:
  assumes "length prev = length cur" and "changed_runs prev cur 0 = Some (runs, changed)"
  shows "fold put_run runs prev = cur" and "runs_ordered (length cur) 0 runs"
proof -
  have spec: "runs_of prev cur 0 runs" using changed_runs_spec [OF assms] by simp
  then show ordered: "runs_ordered (length cur) 0 runs" by (simp add: runs_of_def)
  then have fit: "runs_fit (length prev) runs" using assms(1) runs_ordered_fit by simp
  show "fold put_run runs prev = cur"
  proof (rule nth_equalityI)
    show "length (fold put_run runs prev) = length cur" using length_put_runs [OF fit] assms(1) by simp
    fix i assume "i < length (fold put_run runs prev)"
    then have "i < length prev" using length_put_runs [OF fit] by simp
    with nth_put_runs [OF fit this] spec assms(1) show "fold put_run runs prev ! i = cur ! i"
      by (auto simp: runs_of_def split: option.splits)
  qed
qed

section \<open>Frames keep a Client's copy equal to the Server's view\<close>

definition view_ok :: "terminal_view \<Rightarrow> bool" where
  "view_ok view \<longleftrightarrow> length (tv_cells view) \<le> MAX_TERMINAL_CELLS"

lemma view_ok_bounds: "view_ok view \<Longrightarrow> length (tv_cells view) \<le> 2 ^ 32 \<and> length (tv_cells view) \<le> usize_max"
  by (simp add: view_ok_def MAX_TERMINAL_CELLS_def usize_max_def)

lemma frame_from_total: "view_ok current \<Longrightarrow> frame_from previous current \<noteq> None"
proof (cases previous)
  case (Some prev)
  assume "view_ok current"
  then have "changed_runs (tv_cells prev) (tv_cells current) 0 \<noteq> None"
    using changed_runs_total view_ok_bounds by blast
  with Some show ?thesis by (auto simp: frame_from_def Let_def split: option.splits)
qed (simp add: frame_from_def)

text \<open>The cases of \<open>frame_from\<close>: a full view, nothing to say, or a delta.\<close>

lemma frame_from_cases:
  assumes "frame_from (Some prev) cur = Some frame"
  obtains (full) "frame = Some (Full cur)"
    | (none) "frame = None" "tv_size prev = tv_size cur" "tv_cells prev = tv_cells cur"
        "\<not> metadata_changed prev cur" "tv_revision prev < tv_revision cur"
    | (delta) delta where "frame = Some (Delta delta)" "tv_size prev = tv_size cur"
        "vd_base_revision delta = tv_revision prev" "tv_revision prev < tv_revision cur"
        "runs_ordered (length (tv_cells cur)) 0 (vd_runs delta)"
        "length (tv_cells prev) = length (tv_cells cur)"
        "apply_validated_delta delta prev = cur" "vd_revision delta = tv_revision cur"
proof -
  consider (f) "frame = Some (Full cur)"
    | (r) runs changed where "tv_size prev = tv_size cur" "length (tv_cells prev) = length (tv_cells cur)"
        "tv_revision prev < tv_revision cur"
        "changed_runs (tv_cells prev) (tv_cells cur) 0 = Some (runs, changed)"
        "frame = (if changed = 0 \<and> \<not> metadata_changed prev cur then None
                  else Some (Delta \<lparr>vd_base_revision = tv_revision prev, vd_revision = tv_revision cur,
                     vd_display_offset = tv_display_offset cur, vd_mouse_tracking = tv_mouse_tracking cur,
                     vd_cursor = tv_cursor cur, vd_selection = tv_selection cur, vd_runs = runs\<rparr>))"
    using assms by (auto simp: frame_from_def Let_def not_le split: option.splits if_splits)
  then show thesis
  proof cases
    case f
    then show ?thesis by (rule full)
  next
    case r
    note spec = changed_runs_apply [OF r(2,4)]
    show ?thesis
    proof (cases "changed = 0 \<and> \<not> metadata_changed prev cur")
      case True
      then have "runs = []" using changed_runs_spec [OF r(2,4)] by simp
      with spec(1) r True show ?thesis by (intro none) simp_all
    next
      case False
      with r spec show ?thesis
        by - (rule delta, simp, simp_all add: apply_validated_delta_def)
    qed
  qed
qed

lemma delta_applies:
  assumes "view_ok view" and "vd_base_revision delta = tv_revision view"
    and "tv_revision view < vd_revision delta"
    and "runs_ordered (length (tv_cells view)) 0 (vd_runs delta)"
  shows "apply_frame (Delta delta) view = Inr (apply_validated_delta delta view)"
  using assms validate_runs_exact [of "length (tv_cells view)" 0 "vd_runs delta"] view_ok_bounds [of view]
  by (simp add: apply_frame_def validate_delta_def not_le)

text \<open>A Server that publishes views, and a Client that applies what it is sent: the sender remembers
  the view of its last frame, and a skipped frame leaves it where it was.\<close>

definition publish_frame :: "terminal_view \<Rightarrow> terminal_view \<Rightarrow> view_frame option \<times> terminal_view" where
  "publish_frame current sent =
     (case frame_from (Some sent) current of
        Some (Some frame) \<Rightarrow> (Some frame, current)
      | _ \<Rightarrow> (None, sent))"

definition receive_frame :: "view_frame option \<Rightarrow> terminal_view option \<Rightarrow> terminal_view option" where
  "receive_frame frame held =
     (case (frame, held) of
        (Some frame, Some view) \<Rightarrow> (case apply_frame frame view of Inr view \<Rightarrow> Some view | Inl _ \<Rightarrow> None)
      | (None, held) \<Rightarrow> held
      | (Some _, None) \<Rightarrow> None)"

definition in_step :: "terminal_view \<Rightarrow> terminal_view option \<Rightarrow> bool" where
  "in_step sent held \<longleftrightarrow> view_ok sent \<and> held = Some sent"

lemma publish_in_step:
  assumes "view_ok current" and "in_step sent held" and "publish_frame current sent = (out, sent')"
  shows "in_step sent' (receive_frame out held)"
proof -
  have held: "view_ok sent" "held = Some sent" using assms(2) by (simp_all add: in_step_def)
  obtain frame where frame: "frame_from (Some sent) current = Some frame"
    using frame_from_total [OF assms(1)] by blast
  from frame show ?thesis
  proof (cases rule: frame_from_cases)
    case full
    with assms(1,3) frame held show ?thesis
      by (auto simp: publish_frame_def receive_frame_def in_step_def apply_frame_def)
  next
    case none
    with assms(3) frame held show ?thesis by (auto simp: publish_frame_def receive_frame_def in_step_def)
  next
    case (delta d)
    then have "apply_frame (Delta d) sent = Inr current" using delta_applies [OF held(1)] by simp
    with delta(1) assms(1,3) frame held show ?thesis
      by (auto simp: publish_frame_def receive_frame_def in_step_def)
  qed
qed

definition publish_checked :: "terminal_view \<Rightarrow> terminal_view \<Rightarrow> view_frame option \<times> terminal_view" where
  "publish_checked current sent = (if view_ok current then publish_frame current sent else (None, sent))"

interpretation view_frames: replica publish_checked receive_frame in_step
proof
  fix sent held current out sent'
  assume "in_step sent held" and "publish_checked current sent = (out, sent')"
  then show "in_step sent' (receive_frame out held)"
    using publish_in_step by (auto simp: publish_checked_def receive_frame_def split: if_splits)
qed

section \<open>Selections\<close>

lemma cell_index_less:
  "tp_row p < rows \<Longrightarrow> tp_column p < columns \<Longrightarrow> cell_index columns p < unat rows * unat columns"
proof -
  assume "tp_row p < rows" "tp_column p < columns"
  then have "unat (tp_row p) + 1 \<le> unat rows" "unat (tp_column p) < unat columns"
    by (auto simp: word_less_nat_alt)
  then have "(unat (tp_row p) + 1) * unat columns \<le> unat rows * unat columns" by (intro mult_le_mono1)
  with \<open>unat (tp_column p) < unat columns\<close> show ?thesis by (simp add: cell_index_def)
qed

lemma clamp_column_less: "columns \<noteq> 0 \<Longrightarrow> tp_column (clamp_column columns p) < columns"
proof -
  assume "columns \<noteq> 0"
  then have "columns - 1 < columns" by (simp add: word_less_nat_alt unat_minus_one unat_gt_0)
  then show ?thesis by (auto simp: clamp_column_def min_less_iff_disj)
qed

section \<open>Properties\<close>

definition frame_follow ::
  "terminal_view \<Rightarrow> terminal_view \<times> terminal_view option \<Rightarrow> terminal_view \<times> terminal_view option" where
  "frame_follow current sc = (let (out, sent) = publish_frame current (fst sc) in (sent, receive_frame out (snd sc)))"

definition same_but_revision :: "terminal_view \<Rightarrow> terminal_view \<Rightarrow> bool" where
  "same_but_revision a b \<longleftrightarrow> a\<lparr>tv_revision := 0\<rparr> = b\<lparr>tv_revision := 0\<rparr>"

lemma same_but_revisionI:
  "tv_size a = tv_size b \<Longrightarrow> tv_cells a = tv_cells b \<Longrightarrow> \<not> metadata_changed a b \<Longrightarrow> same_but_revision a b"
  by (simp add: same_but_revision_def metadata_changed_def)

lemma same_but_revision_refl [simp]: "same_but_revision a a"
  by (simp add: same_but_revision_def)

lemma publish_shows_current:
  assumes "view_ok current" and "publish_frame current sent = (out, sent')"
  shows "same_but_revision sent' current"
proof -
  obtain frame where frame: "frame_from (Some sent) current = Some frame"
    using frame_from_total [OF assms(1)] by blast
  from frame show ?thesis
    using assms(2) frame
    by (cases rule: frame_from_cases) (auto simp: publish_frame_def intro: same_but_revisionI)
qed

lemma follow_views:
  assumes "\<forall>v \<in> set views. view_ok v" and "in_step (fst sc) (snd sc)"
  shows "in_step (fst (fold frame_follow views sc)) (snd (fold frame_follow views sc))
    \<and> (views \<noteq> [] \<longrightarrow> same_but_revision (fst (fold frame_follow views sc)) (last views))"
proof -
  have step: "frame_follow v sc = view_frames.follow v sc" if "view_ok v" for v sc
    using that by (simp add: frame_follow_def view_frames.follow_def publish_checked_def)
  have same: "fold frame_follow vs sc = fold view_frames.follow vs sc" if "\<forall>v \<in> set vs. view_ok v" for vs sc
    using that by (induction vs arbitrary: sc) (simp_all add: step)
  have "in_step (fst (fold frame_follow views sc)) (snd (fold frame_follow views sc))"
    unfolding same [OF assms(1)] by (rule view_frames.run_agrees [OF assms(2)])
  moreover have "same_but_revision (fst (fold frame_follow views sc)) (last views)" if "views \<noteq> []"
  proof (cases views rule: rev_cases)
    case (snoc vs v)
    obtain out sent where pub: "publish_frame v (fst (fold frame_follow vs sc)) = (out, sent)" by fastforce
    have "view_ok v" using assms(1) snoc by simp
    from publish_shows_current [OF this pub] show ?thesis by (simp add: snoc frame_follow_def pub)
  qed (use that in simp)
  ultimately show ?thesis by blast
qed

text \<open>C27: A Client that starts from the Server's view and applies the frames made for it holds, after any
  sequence of views, exactly the view the Server last sent, and that view is the newest one up to its
  revision number: full frames, deltas and skipped frames never let the two drift apart, and no frame
  the Server makes is refused.\<close>

theorem frames_keep_in_step:
  assumes "view_ok view" and "\<forall>v \<in> set views. view_ok v" and "views \<noteq> []"
  shows "case fold frame_follow views (view, Some view) of
     (sent, held) \<Rightarrow> held = Some sent \<and> same_but_revision sent (last views)"
  using follow_views [OF assms(2), of "(view, Some view)"] assms(1,3)
  by (auto simp: in_step_def split: prod.splits)

definition demo_cell :: "nat \<Rightarrow> terminal_cell" where
  "demo_cell c = \<lparr>tc_text = [c], tc_foreground = ColorDefault, tc_background = ColorDefault,
     tc_underline_color = ColorDefault, tc_flags = 0, tc_hyperlink = None\<rparr>"

definition demo_view :: "u64 \<Rightarrow> nat list \<Rightarrow> terminal_view" where
  "demo_view revision chars = \<lparr>tv_revision = revision,
     tv_size = \<lparr>ts_rows = 1, ts_columns = 4, ts_cell_width = 0, ts_cell_height = 0\<rparr>,
     tv_display_offset = 0, tv_mouse_tracking = TrackNone, tv_cells = map demo_cell chars,
     tv_cursor = None, tv_selection = None\<rparr>"

lemma demo_view_ok: "length chars \<le> 4 \<Longrightarrow> view_ok (demo_view revision chars)"
  by (simp add: demo_view_def view_ok_def MAX_TERMINAL_CELLS_def)

theorem frames_keep_in_step_witness:
  "\<exists>sent. fold frame_follow [demo_view 2 [97, 98, 99, 120], demo_view 3 [97, 98, 99, 120]]
      (demo_view 1 [97, 98, 99, 100], Some (demo_view 1 [97, 98, 99, 100])) = (sent, Some sent)
    \<and> same_but_revision sent (demo_view 3 [97, 98, 99, 120])"
  using frames_keep_in_step [of "demo_view 1 [97, 98, 99, 100]"
      "[demo_view 2 [97, 98, 99, 120], demo_view 3 [97, 98, 99, 120]]"]
  by (auto simp: demo_view_ok split: prod.splits)

text \<open>C28: A delta is applied exactly when it advances the revision it is based on, which is the one the
  Client holds, and its runs are non-empty, in order, disjoint and inside the grid; then every cell a
  run covers takes the run's cell, every other cell stays, and the grid keeps its size. Anything else
  is refused with the error that says why, and no input makes the application read or write out of
  range.\<close>

theorem apply_delta_exact:
  assumes "view_ok view"
  shows "apply_frame (Delta d) view =
     (if vd_revision d \<le> vd_base_revision d
      then Inl (NonMonotonicRevision (vd_base_revision d) (vd_revision d))
      else if tv_revision view \<noteq> vd_base_revision d
      then Inl (RevisionMismatch (vd_base_revision d) (tv_revision view))
      else if \<not> runs_ordered (length (tv_cells view)) 0 (vd_runs d) then Inl InvalidCellRun
      else Inr (view\<lparr>tv_revision := vd_revision d, tv_display_offset := vd_display_offset d,
             tv_mouse_tracking := vd_mouse_tracking d, tv_cursor := vd_cursor d,
             tv_selection := vd_selection d,
             tv_cells := map (\<lambda>i. case runs_at (vd_runs d) i of Some c \<Rightarrow> c | None \<Rightarrow> tv_cells view ! i)
               [0..<length (tv_cells view)]\<rparr>))"
proof -
  let ?n = "length (tv_cells view)"
  have ok: "validate_runs ?n 0 (vd_runs d) = Inr () \<longleftrightarrow> runs_ordered ?n 0 (vd_runs d)"
    using view_ok_bounds [OF assms] by (intro validate_runs_exact) simp
  have cells: "fold put_run (vd_runs d) (tv_cells view)
      = map (\<lambda>i. case runs_at (vd_runs d) i of Some c \<Rightarrow> c | None \<Rightarrow> tv_cells view ! i) [0..<?n]"
    if "runs_ordered ?n 0 (vd_runs d)"
    using runs_ordered_fit [OF that] by (intro nth_equalityI) (auto simp: length_put_runs nth_put_runs split: option.split)
  show ?thesis
    using ok cells validate_runs_error [of ?n 0 "vd_runs d"]
    by (cases "validate_runs ?n 0 (vd_runs d)")
       (auto simp: apply_frame_def validate_delta_def apply_validated_delta_def)
qed

theorem apply_delta_exact_witness:
  "apply_frame (Delta \<lparr>vd_base_revision = 2, vd_revision = 3, vd_display_offset = 0,
      vd_mouse_tracking = TrackNone, vd_cursor = None, vd_selection = None, vd_runs = []\<rparr>) (demo_view 1 [97])
   = Inl (RevisionMismatch 2 1)"
  using apply_delta_exact [OF demo_view_ok, of "[97]" _ 1] by (simp add: demo_view_def)

lemma position_less_asym: "position_less a b \<Longrightarrow> \<not> position_less b a"
  by (auto simp: position_less_def)

lemma position_less_total:
  "\<not> position_less a b \<Longrightarrow> \<not> position_less b a \<Longrightarrow> tp_row a = tp_row b \<and> tp_column a = tp_column b"
  by (auto simp: position_less_def)

text \<open>The range of two clamped positions in reading order.\<close>

definition ordered_range :: "u16 \<Rightarrow> terminal_position \<Rightarrow> terminal_position \<Rightarrow> (nat \<times> nat) option" where
  "ordered_range columns a b =
     (if a = b \<or> (tp_row a = tp_row b \<and> tp_column a \<noteq> - 1 \<and> tp_column a + 1 = tp_column b
                \<and> tp_side a = SideRight \<and> tp_side b = SideLeft)
      then None
      else let different = (tp_row a, tp_column a) \<noteq> (tp_row b, tp_column b);
               first = cell_index columns a + (if different \<and> tp_side a = SideRight then 1 else 0);
               last_cell = cell_index columns b - (if different \<and> tp_side b = SideLeft then 1 else 0)
           in if first \<le> last_cell then Some (first, last_cell) else None)"

lemma selected_ordered:
  "columns \<noteq> 0 \<Longrightarrow> selected_cell_range sel columns =
     (let a = clamp_column columns (se_start sel); b = clamp_column columns (se_end sel) in
      if position_less b a then ordered_range columns b a else ordered_range columns a b)"
  by (simp add: selected_cell_range_def ordered_range_def Let_def)

lemma ordered_range_one_cell:
  assumes "tp_row a = tp_row b" and "tp_column a = tp_column b"
  shows "ordered_range columns a b = (if a = b then None else Some (cell_index columns b, cell_index columns b))"
proof -
  have "tp_column b + 1 \<noteq> tp_column b" by simp
  moreover have "cell_index columns a = cell_index columns b" using assms by (simp only: cell_index_def)
  ultimately show ?thesis using assms by (simp only: ordered_range_def Let_def simp_thms if_False prod.inject refl)
      simp
qed

lemma ordered_range_swap:
  assumes "\<not> position_less a b" and "\<not> position_less b a"
  shows "ordered_range columns a b = ordered_range columns b a"
proof -
  have same: "tp_row a = tp_row b" "tp_column a = tp_column b" using position_less_total [OF assms] by simp_all
  have "cell_index columns a = cell_index columns b" using same by (simp only: cell_index_def)
  then have "ordered_range columns a b = ordered_range columns b a" if "a \<noteq> b"
    using that ordered_range_one_cell [OF same] ordered_range_one_cell [OF same(1) [symmetric] same(2) [symmetric]]
    by metis
  then show ?thesis by (cases "a = b") blast+
qed

lemma ordered_range_bounds:
  assumes "ordered_range columns a b = Some (first, last_cell)"
  shows "first \<le> last_cell \<and> last_cell \<le> cell_index columns b"
  using assms by (auto simp: ordered_range_def Let_def split: if_splits)

text \<open>A selection covers a range of cells inside the grid its ends lie in, and dragging it from the
  other end selects the same cells.\<close>

theorem selection_range:
  assumes "tp_row (se_start sel) < rows" and "tp_row (se_end sel) < rows"
  shows "selected_cell_range (sel\<lparr>se_start := se_end sel, se_end := se_start sel\<rparr>) columns
           = selected_cell_range sel columns
    \<and> (case selected_cell_range sel columns of
         Some (first, last_cell) \<Rightarrow> first \<le> last_cell \<and> last_cell < unat rows * unat columns
       | None \<Rightarrow> True)"
proof (cases "columns = 0")
  case False
  let ?a = "clamp_column columns (se_start sel)" and ?b = "clamp_column columns (se_end sel)"
  have range: "selected_cell_range sel columns
      = (if position_less ?b ?a then ordered_range columns ?b ?a else ordered_range columns ?a ?b)"
    using selected_ordered [OF False, of sel] by (simp add: Let_def)
  have swapped: "selected_cell_range (sel\<lparr>se_start := se_end sel, se_end := se_start sel\<rparr>) columns
      = (if position_less ?a ?b then ordered_range columns ?a ?b else ordered_range columns ?b ?a)"
    using selected_ordered [OF False, of "sel\<lparr>se_start := se_end sel, se_end := se_start sel\<rparr>"]
    by (simp add: Let_def)
  have row: "tp_row (clamp_column columns p) = tp_row p" for p by (simp add: clamp_column_def)
  have in_grid: "cell_index columns ?a < unat rows * unat columns"
    "cell_index columns ?b < unat rows * unat columns"
    by (rule cell_index_less; simp only: row assms clamp_column_less [OF False])+
  have "case selected_cell_range sel columns of
         Some (first, last_cell) \<Rightarrow> first \<le> last_cell \<and> last_cell < unat rows * unat columns | None \<Rightarrow> True"
  proof (cases "selected_cell_range sel columns")
    case (Some r)
    then obtain first last_cell where r: "selected_cell_range sel columns = Some (first, last_cell)"
      by (cases r) auto
    then have "ordered_range columns ?a ?b = Some (first, last_cell)
        \<or> ordered_range columns ?b ?a = Some (first, last_cell)"
      using range by (simp split: if_splits)
    then have "first \<le> last_cell \<and> last_cell < unat rows * unat columns"
      using ordered_range_bounds in_grid by (meson le_less_trans)
    with r show ?thesis by simp
  qed simp
  moreover have "selected_cell_range (sel\<lparr>se_start := se_end sel, se_end := se_start sel\<rparr>) columns
      = selected_cell_range sel columns"
    using ordered_range_swap [of ?a ?b columns] position_less_asym [of ?a ?b]
    unfolding range swapped by (cases "position_less ?a ?b"; cases "position_less ?b ?a") simp_all
  ultimately show ?thesis by blast
qed (simp add: selected_cell_range_def)

theorem selection_range_witness:
  "case selected_cell_range \<lparr>se_start = \<lparr>tp_row = 1, tp_column = 3, tp_side = SideRight\<rparr>,
      se_end = \<lparr>tp_row = 0, tp_column = 2, tp_side = SideLeft\<rparr>, se_display_offset = 0\<rparr> 4 of
     Some (first, last_cell) \<Rightarrow> last_cell < 8 | None \<Rightarrow> True"
  using selection_range [of "\<lparr>se_start = \<lparr>tp_row = 1, tp_column = 3, tp_side = SideRight\<rparr>,
      se_end = \<lparr>tp_row = 0, tp_column = 2, tp_side = SideLeft\<rparr>, se_display_offset = 0\<rparr>" 2 4]
  by (auto split: option.splits)

end
