(* ===== verification/Hyperlink_Budget.thy ===== *)
theory Hyperlink_Budget
  imports Terminal_View "HOL-Library.AList"
begin

text \<open>
  The limits on a view's hyperlinks (\<open>terminal/view/wire.rs\<close>): \<open>WireHyperlinks\<close>, which interns the
  URIs of one wire frame, and \<open>TerminalHyperlinkBudget\<close>, the reference-counted store a Client keeps
  beside a retained view. Both are modelled by value: the caches keyed by a string's heap address
  only shorten a look-up of the same string. A hash map is an association list with distinct keys;
  the panics of \<open>expect\<close> are \<open>None\<close>.
\<close>

definition MAX_TERMINAL_HYPERLINK_URI_BYTES :: nat where "MAX_TERMINAL_HYPERLINK_URI_BYTES = 8 * 1024"
definition MAX_TERMINAL_HYPERLINK_BYTES :: nat where "MAX_TERMINAL_HYPERLINK_BYTES = 4 * 1024 * 1024"
definition MAX_TERMINAL_HYPERLINKS :: nat where "MAX_TERMINAL_HYPERLINKS = 65535 + 1"

lemma hyperlink_limits: "MAX_TERMINAL_HYPERLINK_BYTES \<le> usize_max" "MAX_TERMINAL_HYPERLINK_BYTES + MAX_TERMINAL_HYPERLINK_URI_BYTES \<le> usize_max"
  by (simp_all add: MAX_TERMINAL_HYPERLINK_BYTES_def MAX_TERMINAL_HYPERLINK_URI_BYTES_def usize_max_def)

section \<open>Interning for one frame\<close>

record wire_hyperlinks =
  wl_values :: "rstr list"
  wl_indices :: "rstr \<Rightarrow> nat option"
  wl_bytes :: nat

definition wire_hyperlinks_new :: wire_hyperlinks where
  "wire_hyperlinks_new = \<lparr>wl_values = [], wl_indices = (\<lambda>_. None), wl_bytes = 0\<rparr>"

definition intern_by_value :: "rstr \<Rightarrow> wire_hyperlinks \<Rightarrow> nat option \<times> wire_hyperlinks" where
  "intern_by_value uri w =
     (if MAX_TERMINAL_HYPERLINK_URI_BYTES < str_len uri then (None, w)
      else case wl_indices w uri of
        Some index \<Rightarrow> (Some index, w)
      | None \<Rightarrow>
          (case checked_add_usize (wl_bytes w) (str_len uri) of
             None \<Rightarrow> (None, w)
           | Some next_bytes \<Rightarrow>
               if MAX_TERMINAL_HYPERLINK_BYTES < next_bytes then (None, w)
               else let index = length (wl_values w) in
                    if 65535 < index then (None, w)
                    else (Some index, w\<lparr>wl_bytes := next_bytes, wl_values := wl_values w @ [uri],
                            wl_indices := (wl_indices w)(uri \<mapsto> index)\<rparr>)))"

text \<open>\<open>normalize_cell\<close>: the cell, and whether its link was lost.\<close>

definition normalize_cell :: "terminal_cell \<Rightarrow> wire_hyperlinks \<Rightarrow> bool \<times> terminal_cell \<times> wire_hyperlinks" where
  "normalize_cell cell w =
     (case tc_hyperlink cell of
        None \<Rightarrow> (False, cell, w)
      | Some uri \<Rightarrow>
          (case intern_by_value uri w of
             (Some index, w) \<Rightarrow> (False, cell\<lparr>tc_hyperlink := Some (wl_values w ! index)\<rparr>, w)
           | (None, w) \<Rightarrow> (True, cell\<lparr>tc_hyperlink := None\<rparr>, w)))"

fun normalize_wire_cells :: "terminal_cell list \<Rightarrow> wire_hyperlinks \<Rightarrow> bool \<times> terminal_cell list \<times> wire_hyperlinks" where
  "normalize_wire_cells [] w = (False, [], w)"
| "normalize_wire_cells (cell # cells) w =
     (let (lost, cell, w) = normalize_cell cell w; (rest_lost, cells, w) = normalize_wire_cells cells w
      in (lost \<or> rest_lost, cell # cells, w))"

fun normalize_wire_runs :: "cell_run list \<Rightarrow> wire_hyperlinks \<Rightarrow> bool \<times> cell_run list \<times> wire_hyperlinks" where
  "normalize_wire_runs [] w = (False, [], w)"
| "normalize_wire_runs (run # runs) w =
     (let (lost, cells, w) = normalize_wire_cells (cr_cells run) w;
          (rest_lost, runs, w) = normalize_wire_runs runs w
      in (lost \<or> rest_lost, run\<lparr>cr_cells := cells\<rparr> # runs, w))"

fun normalize_hyperlinks_for_wire :: "view_frame \<Rightarrow> bool \<times> view_frame" where
  "normalize_hyperlinks_for_wire (Full view) =
     (let (lost, cells, _) = normalize_wire_cells (tv_cells view) wire_hyperlinks_new
      in (lost, Full (view\<lparr>tv_cells := cells\<rparr>)))"
| "normalize_hyperlinks_for_wire (Delta delta) =
     (let (lost, runs, _) = normalize_wire_runs (vd_runs delta) wire_hyperlinks_new
      in (lost, Delta (delta\<lparr>vd_runs := runs\<rparr>)))"

text \<open>The table: every index points at its own URI, and the limits hold.\<close>

definition wire_inv :: "wire_hyperlinks \<Rightarrow> bool" where
  "wire_inv w \<longleftrightarrow>
     (\<forall>uri i. wl_indices w uri = Some i \<longleftrightarrow> i < length (wl_values w) \<and> wl_values w ! i = uri)
     \<and> wl_bytes w = sum_list (map str_len (wl_values w))
     \<and> wl_bytes w \<le> MAX_TERMINAL_HYPERLINK_BYTES
     \<and> length (wl_values w) \<le> MAX_TERMINAL_HYPERLINKS
     \<and> (\<forall>uri \<in> set (wl_values w). str_len uri \<le> MAX_TERMINAL_HYPERLINK_URI_BYTES)"

lemma wire_inv_new: "wire_inv wire_hyperlinks_new"
  by (simp add: wire_inv_def wire_hyperlinks_new_def)

definition wire_add :: "rstr \<Rightarrow> wire_hyperlinks \<Rightarrow> wire_hyperlinks" where
  "wire_add uri w = w\<lparr>wl_bytes := wl_bytes w + str_len uri, wl_values := wl_values w @ [uri],
     wl_indices := (wl_indices w)(uri \<mapsto> length (wl_values w))\<rparr>"

lemma wire_add_inv:
  assumes inv: "wire_inv w" and new: "wl_indices w uri = None"
    and fits: "wl_bytes w + str_len uri \<le> MAX_TERMINAL_HYPERLINK_BYTES" "length (wl_values w) \<le> 65535"
      "str_len uri \<le> MAX_TERMINAL_HYPERLINK_URI_BYTES"
  shows "wire_inv (wire_add uri w)"
proof -
  have fresh: "uri \<notin> set (wl_values w)"
    using inv new by (metis in_set_conv_nth not_None_eq wire_inv_def)
  have "wl_indices (wire_add uri w) u = Some i
      \<longleftrightarrow> i < length (wl_values (wire_add uri w)) \<and> wl_values (wire_add uri w) ! i = u" for u i
  proof -
    have "wl_indices w u = Some i \<longleftrightarrow> i < length (wl_values w) \<and> wl_values w ! i = u"
      using inv by (simp add: wire_inv_def)
    with fresh show ?thesis
      by (auto simp: wire_add_def nth_append less_Suc_eq dest: nth_mem)
  qed
  moreover have "wl_bytes (wire_add uri w) = sum_list (map str_len (wl_values (wire_add uri w)))"
    "\<forall>u \<in> set (wl_values (wire_add uri w)). str_len u \<le> MAX_TERMINAL_HYPERLINK_URI_BYTES"
    using inv fits by (simp_all add: wire_inv_def wire_add_def)
  ultimately show ?thesis
    using fits by (simp add: wire_inv_def) (simp add: wire_add_def MAX_TERMINAL_HYPERLINKS_def)
qed

lemma intern_cases:
  assumes "intern_by_value uri w = (r, w')"
  obtains (refused) "r = None" "w' = w"
  | (known) i where "r = Some i" "w' = w" "wl_indices w uri = Some i"
  | (added) "r = Some (length (wl_values w))" "w' = wire_add uri w" "wl_indices w uri = None"
      "wl_bytes w + str_len uri \<le> MAX_TERMINAL_HYPERLINK_BYTES" "length (wl_values w) \<le> 65535"
      "str_len uri \<le> MAX_TERMINAL_HYPERLINK_URI_BYTES"
proof (cases "str_len uri \<le> MAX_TERMINAL_HYPERLINK_URI_BYTES")
  case False
  with assms refused show thesis by (simp add: intern_by_value_def not_le)
next
  case short: True
  show thesis
  proof (cases "wl_indices w uri")
    case (Some i)
    with assms short have "r = Some i" "w' = w" by (simp_all add: intern_by_value_def)
    with Some known show thesis by blast
  next
    case None
    show thesis
    proof (cases "wl_bytes w + str_len uri \<le> MAX_TERMINAL_HYPERLINK_BYTES \<and> length (wl_values w) \<le> 65535")
      case True
      then have "wl_bytes w + str_len uri \<le> usize_max" using hyperlink_limits(1) by linarith
      with assms short None True have "r = Some (length (wl_values w))" "w' = wire_add uri w"
        by (auto simp: intern_by_value_def checked_add_usize_def wire_add_def Let_def)
      with short None True added show thesis by blast
    next
      case False
      with assms short None refused show thesis
        by (auto simp: intern_by_value_def checked_add_usize_def Let_def split: if_splits)
    qed
  qed
qed

lemma intern_inv: "wire_inv w \<Longrightarrow> intern_by_value uri w = (r, w') \<Longrightarrow> wire_inv w'"
  by (erule intern_cases) (simp_all add: wire_add_inv)

lemma intern_index:
  "wire_inv w \<Longrightarrow> intern_by_value uri w = (Some i, w') \<Longrightarrow> i < length (wl_values w') \<and> wl_values w' ! i = uri"
  by (erule intern_cases) (auto simp: wire_inv_def wire_add_def)

lemma normalize_cell_spec:
  assumes "wire_inv w" and "normalize_cell cell w = (lost, cell', w')"
  shows "wire_inv w'" and "cell' = (if lost then cell\<lparr>tc_hyperlink := None\<rparr> else cell)"
proof -
  show "wire_inv w'" using assms intern_inv
    by (auto simp: normalize_cell_def split: option.splits prod.splits)
  show "cell' = (if lost then cell\<lparr>tc_hyperlink := None\<rparr> else cell)"
    using assms intern_index by (auto simp: normalize_cell_def split: option.splits prod.splits)
qed

text \<open>Cells that differ at most in links one of them lost.\<close>

definition link_lost :: "terminal_cell \<Rightarrow> terminal_cell \<Rightarrow> bool" where
  "link_lost cell cell' \<longleftrightarrow> cell' = cell \<or> cell' = cell\<lparr>tc_hyperlink := None\<rparr>"

lemma link_lost_refl [simp]: "link_lost cell cell"
  by (simp add: link_lost_def)

lemma link_lost_None [simp]: "link_lost cell (cell\<lparr>tc_hyperlink := None\<rparr>)"
  by (simp add: link_lost_def)

lemma normalize_wire_cells_spec:
  "wire_inv w \<Longrightarrow> normalize_wire_cells cells w = (lost, cells', w') \<Longrightarrow>
   wire_inv w' \<and> list_all2 link_lost cells cells' \<and> (\<not> lost \<longrightarrow> cells' = cells)"
proof (induction cells arbitrary: w lost cells' w')
  case (Cons cell cells)
  obtain l1 c1 w1 where one: "normalize_cell cell w = (l1, c1, w1)" by (metis prod_cases3)
  obtain l2 cs2 w2 where two: "normalize_wire_cells cells w1 = (l2, cs2, w2)" by (metis prod_cases3)
  note spec = normalize_cell_spec [OF Cons.prems(1) one]
  note rest = Cons.IH [OF spec(1) two]
  have "lost = (l1 \<or> l2)" "cells' = c1 # cs2" "w' = w2" using Cons.prems(2) one two by auto
  moreover have "link_lost cell c1" using spec(2) by simp
  ultimately show ?case using spec(2) rest by simp
qed simp

lemma normalize_wire_runs_spec:
  "wire_inv w \<Longrightarrow> normalize_wire_runs runs w = (lost, runs', w') \<Longrightarrow>
   list_all2 (\<lambda>r r'. cr_start r' = cr_start r \<and> list_all2 link_lost (cr_cells r) (cr_cells r')) runs runs'
   \<and> (\<not> lost \<longrightarrow> runs' = runs)"
proof (induction runs arbitrary: w lost runs' w')
  case (Cons run runs)
  obtain l1 c1 w1 where one: "normalize_wire_cells (cr_cells run) w = (l1, c1, w1)" by (metis prod_cases3)
  obtain l2 rs2 w2 where two: "normalize_wire_runs runs w1 = (l2, rs2, w2)" by (metis prod_cases3)
  note spec = normalize_wire_cells_spec [OF Cons.prems(1) one]
  with Cons.IH [OF _ two] Cons.prems(2) one two show ?case by auto
qed simp

section \<open>The budget of a retained view\<close>

record hyperlink_budget =
  hb_by_uri :: "(rstr \<times> nat) list"
  hb_entries :: "(rstr \<times> nat) option list"
  hb_free_entries :: "nat list"
  hb_bytes :: nat

definition budget_empty :: hyperlink_budget where
  "budget_empty = \<lparr>hb_by_uri = [], hb_entries = [], hb_free_entries = [], hb_bytes = 0\<rparr>"

definition entry_at :: "nat \<Rightarrow> hyperlink_budget \<Rightarrow> (rstr \<times> nat) option" where
  "entry_at index b = (if index < length (hb_entries b) then hb_entries b ! index else None)"

definition budget_retain :: "nat \<Rightarrow> hyperlink_budget \<Rightarrow> hyperlink_budget option" where
  "budget_retain index b =
     (case entry_at index b of
        None \<Rightarrow> None
      | Some (uri, references) \<Rightarrow> Some (b\<lparr>hb_entries := (hb_entries b)[index := Some (uri, references + 1)]\<rparr>))"

definition budget_admit :: "rstr \<Rightarrow> hyperlink_budget \<Rightarrow> (nat option \<times> hyperlink_budget) option" where
  "budget_admit uri b =
     (if MAX_TERMINAL_HYPERLINK_URI_BYTES < str_len uri then Some (None, b)
      else case map_of (hb_by_uri b) uri of
        Some index \<Rightarrow> map_option (\<lambda>b. (Some index, b)) (budget_retain index b)
      | None \<Rightarrow>
          (case checked_add_usize (hb_bytes b) (str_len uri) of
             None \<Rightarrow> Some (None, b)
           | Some next_bytes \<Rightarrow>
               if MAX_TERMINAL_HYPERLINK_BYTES < next_bytes \<or> MAX_TERMINAL_HYPERLINKS \<le> length (hb_by_uri b)
               then Some (None, b)
               else let free = hb_free_entries b;
                        index = (if free = [] then length (hb_entries b) else last free);
                        entry = Some (uri, 1);
                        entries = (if index = length (hb_entries b) then hb_entries b @ [entry]
                                   else (hb_entries b)[index := entry])
                    in Some (Some index, b\<lparr>hb_free_entries := butlast free, hb_entries := entries,
                         hb_bytes := next_bytes, hb_by_uri := AList.update uri index (hb_by_uri b)\<rparr>)))"

definition budget_release :: "rstr \<Rightarrow> hyperlink_budget \<Rightarrow> hyperlink_budget option" where
  "budget_release uri b =
     (case map_of (hb_by_uri b) uri of
        None \<Rightarrow> None
      | Some index \<Rightarrow>
          (case entry_at index b of
             None \<Rightarrow> None
           | Some (entry_uri, references) \<Rightarrow>
               if references = 0 then None
               else if references - 1 \<noteq> 0
               then Some (b\<lparr>hb_entries := (hb_entries b)[index := Some (entry_uri, references - 1)]\<rparr>)
               else Some (b\<lparr>hb_entries := (hb_entries b)[index := None],
                      hb_bytes := hb_bytes b - str_len entry_uri,
                      hb_by_uri := AList.delete entry_uri (hb_by_uri b),
                      hb_free_entries := hb_free_entries b @ [index]\<rparr>)))"

fun budget_normalize :: "terminal_cell list \<Rightarrow> hyperlink_budget \<Rightarrow> (terminal_cell list \<times> hyperlink_budget) option" where
  "budget_normalize [] b = Some ([], b)"
| "budget_normalize (cell # cells) b =
     (case (case tc_hyperlink cell of
              None \<Rightarrow> Some (cell, b)
            | Some uri \<Rightarrow>
                (case budget_admit uri b of
                   None \<Rightarrow> None
                 | Some (None, b) \<Rightarrow> Some (cell\<lparr>tc_hyperlink := None\<rparr>, b)
                 | Some (Some index, b) \<Rightarrow>
                     (case entry_at index b of
                        None \<Rightarrow> None
                      | Some (uri, _) \<Rightarrow> Some (cell\<lparr>tc_hyperlink := Some uri\<rparr>, b)))) of
        None \<Rightarrow> None
      | Some (cell, b) \<Rightarrow> map_option (\<lambda>(cells, b). (cell # cells, b)) (budget_normalize cells b))"

fun budget_normalize_runs :: "cell_run list \<Rightarrow> hyperlink_budget \<Rightarrow> (cell_run list \<times> hyperlink_budget) option" where
  "budget_normalize_runs [] b = Some ([], b)"
| "budget_normalize_runs (run # runs) b =
     (case budget_normalize (cr_cells run) b of
        None \<Rightarrow> None
      | Some (cells, b) \<Rightarrow>
          map_option (\<lambda>(runs, b). (run\<lparr>cr_cells := cells\<rparr> # runs, b)) (budget_normalize_runs runs b))"

definition budget_new :: "terminal_view \<Rightarrow> (hyperlink_budget \<times> terminal_view) option" where
  "budget_new view =
     map_option (\<lambda>(cells, b). (b, view\<lparr>tv_cells := cells\<rparr>)) (budget_normalize (tv_cells view) budget_empty)"

fun release_cells :: "terminal_cell list \<Rightarrow> hyperlink_budget \<Rightarrow> hyperlink_budget option" where
  "release_cells [] b = Some b"
| "release_cells (cell # cells) b =
     (case tc_hyperlink cell of
        None \<Rightarrow> release_cells cells b
      | Some uri \<Rightarrow> (case budget_release uri b of None \<Rightarrow> None | Some b \<Rightarrow> release_cells cells b))"

definition covered_cells :: "cell_run \<Rightarrow> terminal_cell list \<Rightarrow> terminal_cell list" where
  "covered_cells run cells = slice (unat (cr_start run)) (unat (cr_start run) + length (cr_cells run)) cells"

fun release_runs :: "cell_run list \<Rightarrow> terminal_cell list \<Rightarrow> hyperlink_budget \<Rightarrow> hyperlink_budget option" where
  "release_runs [] cells b = Some b"
| "release_runs (run # runs) cells b =
     (case release_cells (covered_cells run cells) b of
        None \<Rightarrow> None | Some b \<Rightarrow> release_runs runs cells b)"

definition delta_has_links :: "view_delta \<Rightarrow> bool" where
  "delta_has_links delta = list_ex (\<lambda>run. list_ex (\<lambda>cell. tc_hyperlink cell \<noteq> None) (cr_cells run)) (vd_runs delta)"

text \<open>The result of \<open>apply_delta\<close>: an error, or the budget and the view; a panic is \<open>None\<close>.\<close>

definition budget_apply_delta ::
  "hyperlink_budget \<Rightarrow> terminal_view \<Rightarrow> view_delta \<Rightarrow> (frame_error + hyperlink_budget \<times> terminal_view) option" where
  "budget_apply_delta b view delta =
     (case validate_delta view delta of
        Inl e \<Rightarrow> Some (Inl e)
      | Inr _ \<Rightarrow>
          if hb_by_uri b = [] \<and> \<not> delta_has_links delta
          then Some (Inr (b, apply_validated_delta delta view))
          else case release_runs (vd_runs delta) (tv_cells view) b of
            None \<Rightarrow> None
          | Some b \<Rightarrow>
              (case (if delta_has_links delta then budget_normalize_runs (vd_runs delta) b
                     else Some (vd_runs delta, b)) of
                 None \<Rightarrow> None
               | Some (runs, b) \<Rightarrow> Some (Inr (b, apply_validated_delta (delta\<lparr>vd_runs := runs\<rparr>) view))))"

section \<open>The budget's invariant\<close>

text \<open>\<open>held\<close> is the number of the view's cells that hold a URI. At the level of functions: \<open>m\<close> finds a
  URI's slot, \<open>e\<close> a slot's URI and its references.\<close>

definition links_ok :: "(rstr \<Rightarrow> nat) \<Rightarrow> (rstr \<Rightarrow> nat option) \<Rightarrow> (nat \<Rightarrow> (rstr \<times> nat) option) \<Rightarrow> bool" where
  "links_ok held m e \<longleftrightarrow>
     (\<forall>u i. m u = Some i \<longleftrightarrow> e i = Some (u, held u))
     \<and> (\<forall>i u r. e i = Some (u, r) \<longrightarrow> r = held u)
     \<and> (\<forall>u. m u = None \<longleftrightarrow> held u = 0)"

definition free_ok :: "nat list \<Rightarrow> (rstr \<times> nat) option list \<Rightarrow> bool" where
  "free_ok free entries \<longleftrightarrow> distinct free \<and> (\<forall>i. i \<in> set free \<longleftrightarrow> i < length entries \<and> entries ! i = None)"

definition limits_ok :: "(rstr \<times> nat) list \<Rightarrow> nat \<Rightarrow> bool" where
  "limits_ok by_uri bytes \<longleftrightarrow>
     distinct (map fst by_uri)
     \<and> bytes = (\<Sum>u \<in> dom (map_of by_uri). str_len u)
     \<and> bytes \<le> MAX_TERMINAL_HYPERLINK_BYTES
     \<and> length by_uri \<le> MAX_TERMINAL_HYPERLINKS
     \<and> (\<forall>u \<in> dom (map_of by_uri). str_len u \<le> MAX_TERMINAL_HYPERLINK_URI_BYTES)"

definition budget_inv :: "(rstr \<Rightarrow> nat) \<Rightarrow> hyperlink_budget \<Rightarrow> bool" where
  "budget_inv held b \<longleftrightarrow>
     links_ok held (map_of (hb_by_uri b)) (\<lambda>i. entry_at i b)
     \<and> free_ok (hb_free_entries b) (hb_entries b) \<and> limits_ok (hb_by_uri b) (hb_bytes b)"

lemma budget_inv_empty: "budget_inv (\<lambda>_. 0) budget_empty"
  by (simp add: budget_inv_def budget_empty_def links_ok_def free_ok_def limits_ok_def entry_at_def)

lemma links_okD:
  assumes "links_ok held m e"
  shows "m u = Some i \<longleftrightarrow> e i = Some (u, held u)" and "e i = Some (u, r) \<Longrightarrow> m u = Some i \<and> r = held u"
    and "m u = None \<longleftrightarrow> held u = 0"
  using assms unfolding links_ok_def by metis+

lemma links_ok_recount:
  assumes ok: "links_ok held m e" and at: "m u = Some i" and "n \<noteq> 0"
  shows "links_ok (held(u := n)) m (e(i \<mapsto> (u, n)))"
proof -
  have "m v = Some j \<longleftrightarrow> (e(i \<mapsto> (u, n))) j = Some (v, (held(u := n)) v)" for v j
    using links_okD(1) [OF ok, of v j] links_okD(2) [OF ok, of j v] links_okD(1) [OF ok, of u i] at by auto
  moreover have "r = (held(u := n)) v" if "(e(i \<mapsto> (u, n))) j = Some (v, r)" for j v r
    using links_okD(2) [OF ok, of j v r] that at by (auto split: if_splits)
  moreover have "m v = None \<longleftrightarrow> (held(u := n)) v = 0" for v
    using links_okD(3) [OF ok, of v] at assms(3) by auto
  ultimately show ?thesis unfolding links_ok_def by blast
qed

lemma links_ok_remove:
  assumes ok: "links_ok held m e" and at: "m u = Some i"
  shows "links_ok (held(u := 0)) (m(u := None)) (e(i := None))"
proof -
  have "(m(u := None)) v = Some j \<longleftrightarrow> (e(i := None)) j = Some (v, (held(u := 0)) v)" for v j
    using links_okD(1) [OF ok, of v j] links_okD(2) [OF ok, of j v] links_okD(1) [OF ok, of u i] at by auto
  moreover have "r = (held(u := 0)) v" if "(e(i := None)) j = Some (v, r)" for j v r
    using links_okD(2) [OF ok, of j v r] that at by (auto split: if_splits)
  moreover have "(m(u := None)) v = None \<longleftrightarrow> (held(u := 0)) v = 0" for v
    using links_okD(3) [OF ok, of v] by auto
  ultimately show ?thesis unfolding links_ok_def by blast
qed

lemma links_ok_add:
  assumes ok: "links_ok held m e" and new: "m u = None" and free: "e i = None"
  shows "links_ok (held(u := 1)) (m(u \<mapsto> i)) (e(i \<mapsto> (u, 1)))"
proof -
  have "(m(u \<mapsto> i)) v = Some j \<longleftrightarrow> (e(i \<mapsto> (u, 1))) j = Some (v, (held(u := 1)) v)" for v j
    using links_okD(1) [OF ok, of v j] links_okD(2) [OF ok, of j v] new free by auto
  moreover have "r = (held(u := 1)) v" if "(e(i \<mapsto> (u, 1))) j = Some (v, r)" for j v r
    using links_okD(2) [OF ok, of j v r] that new by (auto split: if_splits)
  moreover have "(m(u \<mapsto> i)) v = None \<longleftrightarrow> (held(u := 1)) v = 0" for v
    using links_okD(3) [OF ok, of v] by auto
  ultimately show ?thesis unfolding links_ok_def by blast
qed

lemma links_ok_lookup: "links_ok held m e \<Longrightarrow> m u = Some i \<Longrightarrow> e i = Some (u, held u) \<and> held u \<noteq> 0"
  using links_okD(1,3) by (metis option.distinct(1))

text \<open>The slots as a function.\<close>

lemma entry_at_bound: "entry_at i b = Some x \<Longrightarrow> i < length (hb_entries b)"
  by (simp add: entry_at_def split: if_splits)

lemma entry_at_update:
  "i < length (hb_entries b) \<Longrightarrow> hb_entries b' = (hb_entries b)[i := x] \<Longrightarrow>
   (\<lambda>j. entry_at j b') = (\<lambda>j. entry_at j b)(i := x)"
  by (auto simp: entry_at_def fun_eq_iff)

lemma entry_at_append:
  "hb_entries b' = hb_entries b @ [x] \<Longrightarrow> (\<lambda>j. entry_at j b') = (\<lambda>j. entry_at j b)(length (hb_entries b) := x)"
  by (auto simp: entry_at_def fun_eq_iff nth_append)

lemma free_ok_same: "free_ok free entries \<Longrightarrow> i < length entries \<Longrightarrow> entries ! i \<noteq> None \<Longrightarrow>
   free_ok free (entries[i := Some x])"
  unfolding free_ok_def by (auto simp: nth_list_update)

lemma free_ok_freed: "free_ok free entries \<Longrightarrow> i < length entries \<Longrightarrow> entries ! i \<noteq> None \<Longrightarrow>
   free_ok (free @ [i]) (entries[i := None])"
  unfolding free_ok_def by (auto simp: nth_list_update)

lemma free_ok_reused:
  assumes "free_ok (free @ [i]) entries"
  shows "free_ok free (entries[i := Some x])"
proof -
  have "j \<in> set free \<longleftrightarrow> j < length entries \<and> entries[i := Some x] ! j = None" for j
  proof (cases "j = i")
    case True
    with assms show ?thesis by (auto simp: free_ok_def)
  next
    case False
    then have "j \<in> set free \<longleftrightarrow> j \<in> set (free @ [i])" by simp
    also have "\<dots> \<longleftrightarrow> j < length entries \<and> entries ! j = None"
      using assms unfolding free_ok_def by blast
    finally show ?thesis using False by simp
  qed
  with assms show ?thesis by (simp add: free_ok_def)
qed

lemma free_ok_grown: "free_ok [] entries \<Longrightarrow> free_ok [] (entries @ [Some x])"
  by (simp add: free_ok_def nth_append less_Suc_eq)

lemma card_links: "distinct (map fst al) \<Longrightarrow> card (dom (map_of al)) = length al"
  by (metis dom_map_of_conv_image_fst distinct_card length_map set_map)

lemma limits_ok_add:
  assumes "limits_ok al bytes" and "map_of al u = None" and "bytes + str_len u \<le> MAX_TERMINAL_HYPERLINK_BYTES"
    and "length al < MAX_TERMINAL_HYPERLINKS" and "str_len u \<le> MAX_TERMINAL_HYPERLINK_URI_BYTES"
  shows "limits_ok (AList.update u i al) (bytes + str_len u)"
proof -
  have dom: "dom (map_of (AList.update u i al)) = insert u (dom (map_of al))" by (simp add: update_conv')
  have new: "u \<notin> dom (map_of al)" using assms(2) by blast
  have distinct: "distinct (map fst (AList.update u i al))"
    using assms(1) by (simp add: limits_ok_def distinct_update)
  have "length (AList.update u i al) = Suc (length al)"
    using card_links [OF distinct] card_links [of al] assms(1) new
    by (simp add: dom limits_ok_def finite_dom_map_of)
  with assms distinct new show ?thesis
    unfolding limits_ok_def dom by (simp add: finite_dom_map_of)
qed

lemma limits_ok_delete:
  assumes "limits_ok al bytes" and "map_of al u = Some i"
  shows "limits_ok (AList.delete u al) (bytes - str_len u)"
proof -
  have dom: "dom (map_of (AList.delete u al)) = dom (map_of al) - {u}" by (auto simp: delete_conv')
  have old: "u \<in> dom (map_of al)" using assms(2) by blast
  have distinct: "distinct (map fst (AList.delete u al))"
    using assms(1) by (simp add: limits_ok_def distinct_delete)
  have "(\<Sum>v \<in> dom (map_of al) - {u}. str_len v) = (\<Sum>v \<in> dom (map_of al). str_len v) - str_len u"
    using sum_diff1_nat [of str_len "dom (map_of al)" u] old by simp
  moreover have "length (AList.delete u al) \<le> length al" by (simp add: AList.delete_eq)
  ultimately show ?thesis
    using assms(1) distinct unfolding limits_ok_def dom by auto
qed

section \<open>The operations keep it\<close>

lemma retain_inv:
  assumes "budget_inv held b" and "map_of (hb_by_uri b) u = Some i"
  shows "\<exists>b'. budget_retain i b = Some b' \<and> budget_inv (held(u := held u + 1)) b' \<and> entry_at i b' = Some (u, held u + 1)"
proof -
  from assms have links: "links_ok held (map_of (hb_by_uri b)) (\<lambda>i. entry_at i b)"
    and free: "free_ok (hb_free_entries b) (hb_entries b)" and limits: "limits_ok (hb_by_uri b) (hb_bytes b)"
    by (simp_all add: budget_inv_def)
  have at: "entry_at i b = Some (u, held u)" using links_ok_lookup [OF links assms(2)] by simp
  then have i: "i < length (hb_entries b)" "hb_entries b ! i = Some (u, held u)"
    by (auto simp: entry_at_def split: if_splits)
  let ?b = "b\<lparr>hb_entries := (hb_entries b)[i := Some (u, held u + 1)]\<rparr>"
  have entries: "(\<lambda>j. entry_at j ?b) = (\<lambda>j. entry_at j b)(i \<mapsto> (u, held u + 1))"
    by (rule entry_at_update [OF i(1)]) simp
  have "budget_inv (held(u := held u + 1)) ?b"
    unfolding budget_inv_def entries
    using links_ok_recount [OF links assms(2), of "held u + 1"] free_ok_same [OF free i(1)] limits i(2) by simp
  moreover have "entry_at i ?b = Some (u, held u + 1)" by (simp add: entry_at_def i(1))
  moreover have "budget_retain i b = Some ?b" by (simp add: budget_retain_def at)
  ultimately show ?thesis by blast
qed

text \<open>Taking a free slot, or a new one at the end.\<close>

definition budget_add :: "rstr \<Rightarrow> hyperlink_budget \<Rightarrow> nat \<times> hyperlink_budget" where
  "budget_add uri b =
     (let free = hb_free_entries b;
          index = (if free = [] then length (hb_entries b) else last free);
          entry = Some (uri, 1);
          entries = (if index = length (hb_entries b) then hb_entries b @ [entry] else (hb_entries b)[index := entry])
      in (index, b\<lparr>hb_free_entries := butlast free, hb_entries := entries,
            hb_bytes := hb_bytes b + str_len uri, hb_by_uri := AList.update uri index (hb_by_uri b)\<rparr>))"

lemma add_inv:
  assumes inv: "budget_inv held b" and new: "map_of (hb_by_uri b) u = None"
    and fits: "hb_bytes b + str_len u \<le> MAX_TERMINAL_HYPERLINK_BYTES"
      "length (hb_by_uri b) < MAX_TERMINAL_HYPERLINKS" "str_len u \<le> MAX_TERMINAL_HYPERLINK_URI_BYTES"
    and add: "budget_add u b = (i, b')"
  shows "budget_inv (held(u := held u + 1)) b' \<and> entry_at i b' = Some (u, 1)"
proof -
  from inv have links: "links_ok held (map_of (hb_by_uri b)) (\<lambda>i. entry_at i b)"
    and free: "free_ok (hb_free_entries b) (hb_entries b)" and limits: "limits_ok (hb_by_uri b) (hb_bytes b)"
    by (simp_all add: budget_inv_def)
  have none: "held u = 0" using links_okD(3) [OF links] new by blast
  have parts: "hb_bytes b' = hb_bytes b + str_len u" "hb_by_uri b' = AList.update u i (hb_by_uri b)"
    using add by (auto simp: budget_add_def Let_def)
  have limits': "limits_ok (hb_by_uri b') (hb_bytes b')"
    unfolding parts by (rule limits_ok_add [OF limits new fits])
  have slot: "free_ok (hb_free_entries b') (hb_entries b')
    \<and> (\<lambda>j. entry_at j b') = (\<lambda>j. entry_at j b)(i \<mapsto> (u, 1)) \<and> entry_at i b = None"
  proof (cases "hb_free_entries b = []")
    case True
    with add have i: "i = length (hb_entries b)" "hb_entries b' = hb_entries b @ [Some (u, 1)]"
        "hb_free_entries b' = []"
      by (auto simp: budget_add_def Let_def)
    have "free_ok [] (hb_entries b)" using free True by simp
    then have "free_ok [] (hb_entries b')" unfolding i(2) by (rule free_ok_grown)
    with i entry_at_append [OF i(2)] show ?thesis by (simp add: entry_at_def)
  next
    case False
    then obtain fs f where fs: "hb_free_entries b = fs @ [f]" by (metis rev_exhaust)
    from free fs have f: "f < length (hb_entries b)" "hb_entries b ! f = None"
      by (auto simp: free_ok_def)
    with add fs have i: "i = f" "hb_entries b' = (hb_entries b)[i := Some (u, 1)]" "hb_free_entries b' = fs"
      by (auto simp: budget_add_def Let_def)
    have "free_ok fs (hb_entries b')" unfolding i(2) i(1)
      by (rule free_ok_reused) (use free fs in simp)
    with i f entry_at_update [of i b b' "Some (u, 1)"] show ?thesis by (simp add: entry_at_def)
  qed
  then have "links_ok (held(u := 1)) (map_of (hb_by_uri b')) (\<lambda>j. entry_at j b')"
    using links_ok_add [OF links new] by (simp add: parts update_conv')
  moreover from slot have "entry_at i b' = Some (u, 1)" by (metis fun_upd_same)
  ultimately show ?thesis using slot limits' none by (simp add: budget_inv_def)
qed

text \<open>Admitting a URI counts it once more, or, at a limit, leaves the budget alone. It never panics.\<close>

lemma admit_inv:
  assumes inv: "budget_inv held b"
  shows "budget_admit u b = Some (None, b)
    \<or> (\<exists>i n b'. budget_admit u b = Some (Some i, b') \<and> entry_at i b' = Some (u, n) \<and> budget_inv (held(u := held u + 1)) b')"
proof (cases "str_len u \<le> MAX_TERMINAL_HYPERLINK_URI_BYTES")
  case False
  then show ?thesis by (simp add: budget_admit_def not_le)
next
  case short: True
  show ?thesis
  proof (cases "map_of (hb_by_uri b) u")
    case (Some i)
    with retain_inv [OF inv Some] short show ?thesis by (auto simp: budget_admit_def)
  next
    case None
    show ?thesis
    proof (cases "hb_bytes b + str_len u \<le> MAX_TERMINAL_HYPERLINK_BYTES \<and> length (hb_by_uri b) < MAX_TERMINAL_HYPERLINKS")
      case True
      obtain i b' where add: "budget_add u b = (i, b')" by (metis surj_pair)
      have "hb_bytes b + str_len u \<le> usize_max" using True hyperlink_limits(1) by linarith
      with short None True add have "budget_admit u b = Some (Some i, b')"
        by (auto simp: budget_admit_def budget_add_def checked_add_usize_def Let_def)
      with add_inv [OF inv None _ _ short add] True show ?thesis by blast
    next
      case False
      with short None show ?thesis
        by (auto simp: budget_admit_def checked_add_usize_def Let_def)
    qed
  qed
qed

text \<open>Releasing a URI a cell of the view held never panics, and counts it once less.\<close>

lemma release_inv:
  assumes inv: "budget_inv held b" and some: "held u \<noteq> 0"
  shows "\<exists>b'. budget_release u b = Some b' \<and> budget_inv (held(u := held u - 1)) b'"
proof -
  from inv have links: "links_ok held (map_of (hb_by_uri b)) (\<lambda>i. entry_at i b)"
    and free: "free_ok (hb_free_entries b) (hb_entries b)" and limits: "limits_ok (hb_by_uri b) (hb_bytes b)"
    by (simp_all add: budget_inv_def)
  from links_okD(3) [OF links, of u] some obtain i where i: "map_of (hb_by_uri b) u = Some i" by auto
  then have at: "entry_at i b = Some (u, held u)" using links_ok_lookup [OF links i] by simp
  then have slot: "i < length (hb_entries b)" "hb_entries b ! i \<noteq> None"
    by (auto simp: entry_at_def split: if_splits)
  show ?thesis
  proof (cases "held u - 1 = 0")
    case False
    let ?b = "b\<lparr>hb_entries := (hb_entries b)[i := Some (u, held u - 1)]\<rparr>"
    have "(\<lambda>j. entry_at j ?b) = (\<lambda>j. entry_at j b)(i \<mapsto> (u, held u - 1))"
      by (rule entry_at_update [OF slot(1)]) simp
    then have "budget_inv (held(u := held u - 1)) ?b"
      unfolding budget_inv_def
      using links_ok_recount [OF links i False] free_ok_same [OF free slot] limits by simp
    moreover have "budget_release u b = Some ?b" using i at some False by (simp add: budget_release_def)
    ultimately show ?thesis by blast
  next
    case True
    let ?b = "b\<lparr>hb_entries := (hb_entries b)[i := None], hb_bytes := hb_bytes b - str_len u,
      hb_by_uri := AList.delete u (hb_by_uri b), hb_free_entries := hb_free_entries b @ [i]\<rparr>"
    have "(\<lambda>j. entry_at j ?b) = (\<lambda>j. entry_at j b)(i := None)"
      by (rule entry_at_update [OF slot(1)]) simp
    then have "budget_inv (held(u := 0)) ?b"
      unfolding budget_inv_def
      using links_ok_remove [OF links i] free_ok_freed [OF free slot] limits_ok_delete [OF limits i]
      by (simp add: delete_conv')
    moreover have "budget_release u b = Some ?b" using i at some True by (simp add: budget_release_def)
    ultimately show ?thesis using True by auto
  qed
qed

section \<open>The budget counts the view's links\<close>

definition links :: "terminal_cell list \<Rightarrow> rstr \<Rightarrow> nat" where
  "links cells u = length (filter (\<lambda>cell. tc_hyperlink cell = Some u) cells)"

lemma links_simps [simp]:
  "links [] u = 0" "links (xs @ ys) u = links xs u + links ys u"
  "links (cell # cells) u = (if tc_hyperlink cell = Some u then 1 else 0) + links cells u"
  by (simp_all add: links_def)

definition run_links :: "cell_run list \<Rightarrow> rstr \<Rightarrow> nat" where
  "run_links runs u = (\<Sum>run \<leftarrow> runs. links (cr_cells run) u)"

definition covered_links :: "cell_run list \<Rightarrow> terminal_cell list \<Rightarrow> rstr \<Rightarrow> nat" where
  "covered_links runs cells u = (\<Sum>run \<leftarrow> runs. links (covered_cells run cells) u)"

lemma release_cells_inv:
  "budget_inv (\<lambda>u. held u + links cells u) b \<Longrightarrow> \<exists>b'. release_cells cells b = Some b' \<and> budget_inv held b'"
proof (induction cells arbitrary: b)
  case (Cons cell cells)
  show ?case
  proof (cases "tc_hyperlink cell")
    case None
    with Cons show ?thesis by simp
  next
    case (Some v)
    let ?held = "\<lambda>u. held u + links (cell # cells) u"
    obtain b1 where b1: "budget_release v b = Some b1" "budget_inv (?held(v := ?held v - 1)) b1"
      using release_inv [OF Cons.prems, of v] Some by auto
    have "?held(v := ?held v - 1) = (\<lambda>u. held u + links cells u)" using Some by auto
    with b1 Cons.IH Some show ?thesis by simp
  qed
qed simp

lemma release_runs_inv:
  "budget_inv (\<lambda>u. held u + covered_links runs cells u) b \<Longrightarrow>
   \<exists>b'. release_runs runs cells b = Some b' \<and> budget_inv held b'"
proof (induction runs arbitrary: b)
  case (Cons run runs)
  have "budget_inv (\<lambda>u. (held u + covered_links runs cells u) + links (covered_cells run cells) u) b"
    using Cons.prems by (simp add: covered_links_def ac_simps)
  from release_cells_inv [OF this] Cons.IH show ?case by auto
qed (simp add: covered_links_def)

definition lost_links :: "terminal_cell list \<Rightarrow> terminal_cell list \<Rightarrow> bool" where
  "lost_links cells cells' \<longleftrightarrow> list_all2 link_lost cells cells'"

lemma lost_links_simps [simp]:
  "lost_links [] []" "lost_links (c # cs) (c' # cs') \<longleftrightarrow> link_lost c c' \<and> lost_links cs cs'"
  by (simp_all add: lost_links_def)

lemma lost_links_length: "lost_links cells cells' \<Longrightarrow> length cells' = length cells"
  by (simp add: lost_links_def list_all2_lengthD)

lemma normalize_inv:
  "budget_inv held b \<Longrightarrow>
   \<exists>cells' b'. budget_normalize cells b = Some (cells', b') \<and> lost_links cells cells'
     \<and> budget_inv (\<lambda>u. held u + links cells' u) b'"
proof (induction cells arbitrary: held b)
  case (Cons cell cells)
  show ?case
  proof (cases "tc_hyperlink cell")
    case None
    with Cons.IH [OF Cons.prems] show ?thesis by fastforce
  next
    case (Some v)
    then have same: "cell\<lparr>tc_hyperlink := Some v\<rparr> = cell" by simp
    from admit_inv [OF Cons.prems, of v] show ?thesis
    proof (elim disjE exE conjE)
      assume "budget_admit v b = Some (None, b)"
      with Some Cons.IH [OF Cons.prems] show ?thesis by fastforce
    next
      fix i n b1 assume admit: "budget_admit v b = Some (Some i, b1)" "entry_at i b1 = Some (v, n)"
        "budget_inv (held(v := held v + 1)) b1"
      from Cons.IH [OF admit(3)] obtain cells' b' where
          rest: "budget_normalize cells b1 = Some (cells', b')" "lost_links cells cells'"
          and inv: "budget_inv (\<lambda>u. (held(v := held v + 1)) u + links cells' u) b'" by blast
      have "(\<lambda>u. (held(v := held v + 1)) u + links cells' u) = (\<lambda>u. held u + links (cell # cells') u)"
        using Some by auto
      with inv have "budget_inv (\<lambda>u. held u + links (cell # cells') u) b'" by simp
      moreover have "budget_normalize (cell # cells) b = Some (cell # cells', b')"
        using Some same admit rest by simp
      moreover have "lost_links (cell # cells) (cell # cells')" using rest by simp
      ultimately show ?thesis by blast
    qed
  qed
qed simp

definition lost_run_links :: "cell_run list \<Rightarrow> cell_run list \<Rightarrow> bool" where
  "lost_run_links runs runs' \<longleftrightarrow>
     list_all2 (\<lambda>r r'. cr_start r' = cr_start r \<and> lost_links (cr_cells r) (cr_cells r')) runs runs'"

lemma lost_run_links_simps [simp]:
  "lost_run_links [] runs' \<longleftrightarrow> runs' = []"
  "lost_run_links (r # runs) (r' # runs') \<longleftrightarrow>
     cr_start r' = cr_start r \<and> lost_links (cr_cells r) (cr_cells r') \<and> lost_run_links runs runs'"
  by (simp_all add: lost_run_links_def)

lemma normalize_runs_inv:
  "budget_inv held b \<Longrightarrow>
   \<exists>runs' b'. budget_normalize_runs runs b = Some (runs', b') \<and> lost_run_links runs runs'
     \<and> budget_inv (\<lambda>u. held u + run_links runs' u) b'"
proof (induction runs arbitrary: held b)
  case (Cons run runs)
  from normalize_inv [OF Cons.prems] obtain cells b1 where
    one: "budget_normalize (cr_cells run) b = Some (cells, b1)" "lost_links (cr_cells run) cells"
      "budget_inv (\<lambda>u. held u + links cells u) b1" by blast
  from Cons.IH [OF one(3)] obtain runs' b' where
    two: "budget_normalize_runs runs b1 = Some (runs', b')" "lost_run_links runs runs'"
      "budget_inv (\<lambda>u. held u + links cells u + run_links runs' u) b'" by blast
  have "budget_normalize_runs (run # runs) b = Some (run\<lparr>cr_cells := cells\<rparr> # runs', b')"
    "lost_run_links (run # runs) (run\<lparr>cr_cells := cells\<rparr> # runs')"
    using one two by simp_all
  moreover have "budget_inv (\<lambda>u. held u + run_links (run\<lparr>cr_cells := cells\<rparr> # runs') u) b'"
    using two(3) by (simp add: run_links_def ac_simps)
  ultimately show ?case by blast
qed (simp add: run_links_def)

text \<open>Writing ordered runs takes the links they cover out of the view and puts their own in.\<close>

lemma links_put_run:
  assumes "unat (cr_start run) + length (cr_cells run) \<le> length cells"
  shows "links (put_run run cells) u + links (covered_cells run cells) u = links cells u + links (cr_cells run) u"
proof -
  let ?s = "unat (cr_start run)" and ?n = "length (cr_cells run)"
  have "cells = take ?s cells @ take ?n (drop ?s cells) @ drop (?s + ?n) cells"
    by (metis append_take_drop_id drop_drop add.commute)
  then have "links cells u = links (take ?s cells) u + links (take ?n (drop ?s cells)) u + links (drop (?s + ?n) cells) u"
    by (metis links_simps(2) add.assoc)
  then show ?thesis by (simp add: put_run_def covered_cells_def slice_def Let_def)
qed

lemma covered_cells_put:
  assumes "unat (cr_start run) + length (cr_cells run) \<le> length cells"
    and "unat (cr_start run) + length (cr_cells run) \<le> unat (cr_start later)"
  shows "covered_cells later (put_run run cells) = covered_cells later cells"
  using assms by (simp add: put_run_def covered_cells_def slice_def Let_def)

lemma covered_links_put:
  assumes "unat (cr_start run) + length (cr_cells run) \<le> length cells"
    and "\<And>later. later \<in> set runs \<Longrightarrow> unat (cr_start run) + length (cr_cells run) \<le> unat (cr_start later)"
  shows "covered_links runs (put_run run cells) u = covered_links runs cells u"
  unfolding covered_links_def
  by (rule arg_cong [where f = sum_list], rule map_cong [OF refl]) (simp add: covered_cells_put assms)

lemma links_put_runs:
  "runs_ordered (length cells) n runs \<Longrightarrow>
   links (fold put_run runs cells) u + covered_links runs cells u = links cells u + run_links runs u"
proof (induction runs arbitrary: n cells)
  case (Cons run runs)
  let ?stop = "unat (cr_start run) + length (cr_cells run)"
  from Cons.prems have fits: "?stop \<le> length cells" and tail: "runs_ordered (length cells) ?stop runs" by simp_all
  have "links (fold put_run runs (put_run run cells)) u + covered_links runs (put_run run cells) u
      = links (put_run run cells) u + run_links runs u"
    by (rule Cons.IH [of _ ?stop]) (simp add: tail length_put_run fits)
  moreover have "covered_links runs (put_run run cells) u = covered_links runs cells u"
    by (rule covered_links_put [OF fits]) (rule runs_ordered_ge [OF tail])
  ultimately show ?case
    using links_put_run [OF fits, of u] by (simp add: covered_links_def run_links_def)
qed (simp add: covered_links_def run_links_def)

lemma links_covered_le:
  "runs_ordered (length cells) n runs \<Longrightarrow> covered_links runs cells u \<le> links cells u"
proof (induction runs arbitrary: n cells)
  case (Cons run runs)
  let ?stop = "unat (cr_start run) + length (cr_cells run)"
  from Cons.prems have fits: "?stop \<le> length cells" and tail: "runs_ordered (length cells) ?stop runs" by simp_all
  let ?blank = "run\<lparr>cr_cells := map (\<lambda>cell. cell\<lparr>tc_hyperlink := None\<rparr>) (cr_cells run)\<rparr>"
  have blank: "links (cr_cells ?blank) u = 0" by (auto simp: links_def filter_empty_conv)
  have fits': "unat (cr_start ?blank) + length (cr_cells ?blank) \<le> length cells" using fits by simp
  have "covered_links runs (put_run ?blank cells) u \<le> links (put_run ?blank cells) u"
    using tail by (intro Cons.IH [of _ ?stop]) (simp add: length_put_run [OF fits'])
  moreover have "covered_links runs (put_run ?blank cells) u = covered_links runs cells u"
    by (rule covered_links_put [OF fits']) (use runs_ordered_ge [OF tail] in simp)
  moreover have "covered_cells ?blank cells = covered_cells run cells" by (simp add: covered_cells_def)
  ultimately show ?case
    using links_put_run [OF fits', of u] blank by (simp add: covered_links_def)
qed (simp add: covered_links_def)

lemma lost_run_links_ordered:
  "lost_run_links runs runs' \<Longrightarrow> runs_ordered limit n runs' = runs_ordered limit n runs"
proof (induction runs arbitrary: n runs')
  case (Cons run runs)
  then obtain r' rs' where "runs' = r' # rs'" by (cases runs') (auto simp: lost_run_links_def)
  with Cons show ?case using lost_links_length [of "cr_cells run" "cr_cells r'"] by fastforce
qed simp

lemma lost_run_links_covered: "lost_run_links runs runs' \<Longrightarrow> covered_links runs' cells u = covered_links runs cells u"
proof (induction runs arbitrary: runs')
  case (Cons run runs)
  then obtain r' rs' where "runs' = r' # rs'" by (cases runs') (auto simp: lost_run_links_def)
  with Cons show ?case using lost_links_length [of "cr_cells run" "cr_cells r'"]
    by (simp add: covered_links_def covered_cells_def)
qed simp

section \<open>A view kept under the budget\<close>

text \<open>A Client's view and its budget: made from a full view, then updated by deltas.\<close>

inductive kept_view :: "hyperlink_budget \<Rightarrow> terminal_view \<Rightarrow> bool" where
  kept_new: "length (tv_cells view) \<le> usize_max \<Longrightarrow> budget_new view = Some (b, view') \<Longrightarrow> kept_view b view'"
| kept_delta: "kept_view b view \<Longrightarrow> budget_apply_delta b view delta = Some (Inr (b', view')) \<Longrightarrow> kept_view b' view'"

text \<open>What the store promises of the links of the view it is kept beside.\<close>

definition kept_inv :: "hyperlink_budget \<Rightarrow> terminal_view \<Rightarrow> bool" where
  "kept_inv b view \<longleftrightarrow> budget_inv (links (tv_cells view)) b \<and> length (tv_cells view) \<le> usize_max"

lemma budget_new_inv:
  "length (tv_cells view) \<le> usize_max \<Longrightarrow>
   \<exists>b cells. budget_new view = Some (b, view\<lparr>tv_cells := cells\<rparr>) \<and> lost_links (tv_cells view) cells
     \<and> kept_inv b (view\<lparr>tv_cells := cells\<rparr>)"
  using normalize_inv [OF budget_inv_empty, of "tv_cells view"] lost_links_length
  by (simp add: budget_new_def kept_inv_def) fastforce

lemma no_run_links: "\<not> delta_has_links delta \<Longrightarrow> run_links (vd_runs delta) u = 0"
  by (auto simp: delta_has_links_def run_links_def links_def list_ex_iff filter_empty_conv)

lemma no_links_kept:
  assumes "budget_inv held b" and "hb_by_uri b = []"
  shows "held u = 0"
  using assms links_okD(3) by (fastforce simp: budget_inv_def)

lemma lost_run_links_refl [simp]: "lost_run_links runs runs"
  by (induction runs) (simp_all, simp add: lost_links_def list_all2_refl)

text \<open>What the update does to the view: the delta, with at most links of its own cells lost.\<close>

definition budget_outcome :: "terminal_view \<Rightarrow> view_delta \<Rightarrow> terminal_view \<Rightarrow> bool" where
  "budget_outcome view delta view' \<longleftrightarrow>
     (\<exists>runs. lost_run_links (vd_runs delta) runs \<and> view' = apply_validated_delta (delta\<lparr>vd_runs := runs\<rparr>) view)"

lemma budget_delta_inv:
  assumes inv: "kept_inv b view" and valid: "validate_delta view delta = Inr ()"
  shows "\<exists>b' view'. budget_apply_delta b view delta = Some (Inr (b', view'))
    \<and> kept_inv b' view' \<and> budget_outcome view delta view'"
proof -
  let ?cells = "tv_cells view" and ?runs = "vd_runs delta"
  have bound: "length ?cells \<le> usize_max" and held: "budget_inv (links ?cells) b"
    using inv by (simp_all add: kept_inv_def)
  have ordered: "runs_ordered (length ?cells) 0 ?runs"
    using valid validate_runs_exact [OF bound] by (simp add: validate_delta_def split: if_splits)
  have finish: "kept_inv b' (apply_validated_delta (delta\<lparr>vd_runs := runs\<rparr>) view)"
    if lost: "lost_run_links ?runs runs"
      and inv': "budget_inv (\<lambda>u. links ?cells u - covered_links ?runs ?cells u + run_links runs u) b'" for b' runs
  proof -
    have ord: "runs_ordered (length ?cells) 0 runs" using ordered lost_run_links_ordered [OF lost] by simp
    have "links (fold put_run runs ?cells) = (\<lambda>u. links ?cells u - covered_links ?runs ?cells u + run_links runs u)"
    proof (rule ext)
      fix u
      show "links (fold put_run runs ?cells) u = links ?cells u - covered_links ?runs ?cells u + run_links runs u"
      using links_put_runs [OF ord, of u] links_put_runs [OF ordered, of u] lost_run_links_covered [OF lost, of ?cells u]
        links_covered_le [OF ordered, of u]
      by linarith
    qed
    with inv' bound length_put_runs [OF runs_ordered_fit [OF ord]] show ?thesis
      by (simp add: kept_inv_def apply_validated_delta_def)
  qed
  show ?thesis
  proof (cases "hb_by_uri b = [] \<and> \<not> delta_has_links delta")
    case True
    then have "links ?cells = (\<lambda>u. 0)" "run_links ?runs = (\<lambda>u. 0)"
      using no_links_kept [OF held] no_run_links by auto
    with held have "kept_inv b (apply_validated_delta (delta\<lparr>vd_runs := ?runs\<rparr>) view)"
      by (intro finish) simp_all
    with True valid show ?thesis
      by (auto simp: budget_apply_delta_def budget_outcome_def intro!: exI [of _ ?runs])
  next
    case False
    have "budget_inv (\<lambda>u. (links ?cells u - covered_links ?runs ?cells u) + covered_links ?runs ?cells u) b"
      using held links_covered_le [OF ordered] by simp
    from release_runs_inv [OF this] obtain b1 where released: "release_runs ?runs ?cells b = Some b1"
      and inv1: "budget_inv (\<lambda>u. links ?cells u - covered_links ?runs ?cells u) b1" by blast
    show ?thesis
    proof (cases "delta_has_links delta")
      case True
      from normalize_runs_inv [OF inv1, of ?runs] obtain runs b' where
        norm: "budget_normalize_runs ?runs b1 = Some (runs, b')" "lost_run_links ?runs runs"
          "budget_inv (\<lambda>u. links ?cells u - covered_links ?runs ?cells u + run_links runs u) b'" by blast
      with finish [OF norm(2,3)] released valid True show ?thesis
        by (auto simp: budget_apply_delta_def budget_outcome_def)
    next
      case no_new: False
      with inv1 have "kept_inv b1 (apply_validated_delta (delta\<lparr>vd_runs := ?runs\<rparr>) view)"
        by (intro finish) (simp_all add: no_run_links)
      with False no_new released valid show ?thesis
        by (auto simp: budget_apply_delta_def budget_outcome_def intro!: exI [of _ ?runs])
    qed
  qed
qed

lemma kept_view_inv: "kept_view b view \<Longrightarrow> kept_inv b view"
proof (induction rule: kept_view.induct)
  case (kept_new view b view')
  with budget_new_inv [OF kept_new(1)] show ?case by auto
next
  case (kept_delta b view delta b' view')
  have valid: "validate_delta view delta = Inr ()"
    using kept_delta(2) by (cases "validate_delta view delta") (simp_all add: budget_apply_delta_def)
  from budget_delta_inv [OF kept_delta(3) valid] kept_delta(2) show ?case by auto
qed

lemma limits_reached:
  assumes "budget_inv held b"
  shows "finite {u. held u \<noteq> 0}" and "card {u. held u \<noteq> 0} \<le> MAX_TERMINAL_HYPERLINKS"
    and "(\<Sum>u | held u \<noteq> 0. str_len u) \<le> MAX_TERMINAL_HYPERLINK_BYTES"
    and "held u \<noteq> 0 \<Longrightarrow> str_len u \<le> MAX_TERMINAL_HYPERLINK_URI_BYTES"
proof -
  have "links_ok held (map_of (hb_by_uri b)) (\<lambda>i. entry_at i b)" and limits: "limits_ok (hb_by_uri b) (hb_bytes b)"
    using assms by (simp_all add: budget_inv_def)
  then have "held u = 0 \<longleftrightarrow> map_of (hb_by_uri b) u = None" for u using links_okD(3) by metis
  then have dom: "{u. held u \<noteq> 0} = dom (map_of (hb_by_uri b))" by (simp add: dom_def)
  show "finite {u. held u \<noteq> 0}" "card {u. held u \<noteq> 0} \<le> MAX_TERMINAL_HYPERLINKS"
    "(\<Sum>u | held u \<noteq> 0. str_len u) \<le> MAX_TERMINAL_HYPERLINK_BYTES"
    using limits card_links [of "hb_by_uri b"] unfolding dom limits_ok_def by (simp_all add: finite_dom_map_of)
  assume "held u \<noteq> 0"
  then have "u \<in> dom (map_of (hb_by_uri b))" using dom by blast
  then show "str_len u \<le> MAX_TERMINAL_HYPERLINK_URI_BYTES" using limits by (simp add: limits_ok_def)
qed

lemma links_held: "{u. links cells u \<noteq> 0} = {u. \<exists>cell \<in> set cells. tc_hyperlink cell = Some u}"
  by (auto simp: links_def filter_empty_conv)

section \<open>Properties\<close>

text \<open>C29: Whatever a Server sends, the view a Client keeps never stores more hyperlinks than the limits
  allow: at most 65536 different URIs, of at most 8 KiB each and 4 MiB together, however many deltas
  came after the first full view.\<close>

theorem kept_links_bounded:
  assumes "kept_view b view"
  shows "card {u. \<exists>cell \<in> set (tv_cells view). tc_hyperlink cell = Some u} \<le> 65536
    \<and> (\<Sum>u | \<exists>cell \<in> set (tv_cells view). tc_hyperlink cell = Some u. str_len u) \<le> 4 * 1024 * 1024
    \<and> (\<forall>cell \<in> set (tv_cells view). \<forall>u. tc_hyperlink cell = Some u \<longrightarrow> str_len u \<le> 8 * 1024)"
proof -
  have inv: "budget_inv (links (tv_cells view)) b" using kept_view_inv [OF assms] by (simp add: kept_inv_def)
  have "str_len u \<le> 8 * 1024" if "cell \<in> set (tv_cells view)" "tc_hyperlink cell = Some u" for cell u
  proof -
    have "links (tv_cells view) u \<noteq> 0" using that links_held by blast
    from limits_reached(4) [OF inv this] show ?thesis by (simp add: MAX_TERMINAL_HYPERLINK_URI_BYTES_def)
  qed
  with limits_reached(2,3) [OF inv] show ?thesis
    unfolding links_held by (auto simp: MAX_TERMINAL_HYPERLINKS_def MAX_TERMINAL_HYPERLINK_BYTES_def)
qed

definition link_cell :: "rstr \<Rightarrow> terminal_cell" where
  "link_cell uri = (demo_cell 97)\<lparr>tc_hyperlink := Some uri\<rparr>"

lemma kept_demo: "\<exists>b. kept_view b ((demo_view 1 [])\<lparr>tv_cells := [link_cell [104]]\<rparr>)"
proof -
  have "str_len [104] = 1" by (simp add: str_len_def str_bytes_def utf8_bytes_def)
  then have "\<exists>b. budget_new ((demo_view 1 [])\<lparr>tv_cells := [link_cell [104]]\<rparr>)
      = Some (b, (demo_view 1 [])\<lparr>tv_cells := [link_cell [104]]\<rparr>)"
    by (simp add: budget_new_def budget_empty_def budget_admit_def checked_add_usize_def usize_max_def Let_def entry_at_def
        link_cell_def MAX_TERMINAL_HYPERLINK_URI_BYTES_def MAX_TERMINAL_HYPERLINK_BYTES_def MAX_TERMINAL_HYPERLINKS_def)
  then obtain b where "budget_new ((demo_view 1 [])\<lparr>tv_cells := [link_cell [104]]\<rparr>)
      = Some (b, (demo_view 1 [])\<lparr>tv_cells := [link_cell [104]]\<rparr>)" by blast
  from kept_new [OF _ this] show ?thesis by (auto simp: usize_max_def)
qed

theorem kept_links_bounded_witness:
  "card {u. \<exists>cell \<in> set [link_cell [104]]. tc_hyperlink cell = Some u} \<le> 65536"
proof -
  obtain b where "kept_view b ((demo_view 1 [])\<lparr>tv_cells := [link_cell [104]]\<rparr>)" using kept_demo by blast
  from kept_links_bounded [OF this] show ?thesis by simp
qed

text \<open>C30: Updating a view under its budget never panics: every link a delta overwrites is found in the
  store with a positive count. A delta the view would refuse is refused with the same error, and one
  it accepts is applied as it stands but for links of its own cells dropped at a limit.\<close>

theorem kept_delta_exact:
  assumes "kept_view b view"
  shows "\<exists>r. budget_apply_delta b view delta = Some r
    \<and> (case r of Inl e \<Rightarrow> validate_delta view delta = Inl e
        | Inr (b', view') \<Rightarrow> validate_delta view delta = Inr () \<and> budget_outcome view delta view')"
proof (cases "validate_delta view delta")
  case (Inl e)
  then show ?thesis by (simp add: budget_apply_delta_def)
next
  case (Inr u)
  then have "validate_delta view delta = Inr ()" by simp
  with budget_delta_inv [OF kept_view_inv [OF assms] this] show ?thesis by auto
qed

theorem kept_delta_exact_witness:
  "\<exists>b r. budget_apply_delta b ((demo_view 1 [])\<lparr>tv_cells := [link_cell [104]]\<rparr>)
       \<lparr>vd_base_revision = 1, vd_revision = 2, vd_display_offset = 0, vd_mouse_tracking = TrackNone, vd_cursor = None,
         vd_selection = None, vd_runs = [\<lparr>cr_start = 0, cr_cells = [link_cell [105]]\<rparr>]\<rparr> = Some r"
proof -
  obtain b where "kept_view b ((demo_view 1 [])\<lparr>tv_cells := [link_cell [104]]\<rparr>)" using kept_demo by blast
  from kept_delta_exact [OF this] show ?thesis by blast
qed

end
