(* ===== verification/Terminal_Wire.thy ===== *)
theory Terminal_Wire
  imports Hyperlink_Budget
begin

text \<open>
  The wire form of a terminal view (\<open>terminal/view/wire.rs\<close>, with the decoding helpers of
  \<open>protocol/pb.rs\<close>). The messages are the ones \<open>proto/condr/v1/terminal.proto\<close> declares; the bytes
  below them are the protobuf library's. Cells travel as parallel columns and their links as indices
  into one table per frame. A decoder answers an error for what a peer may not send; an indexing or
  an \<open>unreachable!\<close> that would panic is an outer \<open>None\<close>.
\<close>

unbundle bit_operations_syntax

section \<open>Messages\<close>

type_synonym i32 = "32 word"

record pb_size =
  pz_rows :: u32
  pz_columns :: u32
  pz_cell_width :: u32
  pz_cell_height :: u32

record pb_cursor =
  pc_row :: u32
  pc_column :: u32
  pc_shape :: i32
  pc_blinking :: bool

record pb_position =
  pp_row :: u32
  pp_column :: u32
  pp_side :: i32

record pb_selection =
  ps_start :: "pb_position option"
  ps_end :: "pb_position option"
  ps_display_offset :: u32

record pb_cells =
  pl_text :: rstr
  pl_text_len :: "u32 list"
  pl_foreground :: "u32 list"
  pl_background :: "u32 list"
  pl_flags :: "u32 list"
  pl_hyperlink :: "u32 list"
  pl_underline :: "u32 list"

record pb_view =
  pv_revision :: u64
  pv_size :: "pb_size option"
  pv_display_offset :: u32
  pv_mouse_tracking :: i32
  pv_hyperlinks :: "rstr list"
  pv_cells :: "pb_cells option"
  pv_cursor :: "pb_cursor option"
  pv_selection :: "pb_selection option"

record pb_delta =
  pd_base_revision :: u64
  pd_revision :: u64
  pd_display_offset :: u32
  pd_mouse_tracking :: i32
  pd_cursor :: "pb_cursor option"
  pd_selection :: "pb_selection option"
  pd_hyperlinks :: "rstr list"
  pd_run_start :: "u32 list"
  pd_run_len :: "u32 list"
  pd_cells :: "pb_cells option"

datatype pb_shape =
  PbShapeUnspecified | PbShapeBlock | PbShapeUnderline | PbShapeBeam | PbShapeHollowBlock | PbShapeHidden
datatype pb_tracking = PbTrackUnspecified | PbTrackNone | PbTrackClick | PbTrackDrag | PbTrackMotion
datatype pb_side = PbSideUnspecified | PbSideLeft | PbSideRight

text \<open>An enum from its number on the wire: the position of its value in the declaration.\<close>

definition enum_try_from :: "'e list \<Rightarrow> i32 \<Rightarrow> 'e option" where
  "enum_try_from members raw = (if unat raw < length members then Some (members ! unat raw) else None)"

definition shape_try_from :: "i32 \<Rightarrow> pb_shape option" where
  "shape_try_from = enum_try_from [PbShapeUnspecified, PbShapeBlock, PbShapeUnderline, PbShapeBeam,
     PbShapeHollowBlock, PbShapeHidden]"

definition tracking_try_from :: "i32 \<Rightarrow> pb_tracking option" where
  "tracking_try_from = enum_try_from [PbTrackUnspecified, PbTrackNone, PbTrackClick, PbTrackDrag, PbTrackMotion]"

definition side_try_from :: "i32 \<Rightarrow> pb_side option" where
  "side_try_from = enum_try_from [PbSideUnspecified, PbSideLeft, PbSideRight]"

section \<open>Decoding helpers\<close>

datatype wire_error = Malformed string | UnknownValue

definition required_field :: "'a option \<Rightarrow> string \<Rightarrow> wire_error + 'a" where
  "required_field v field = (case v of Some x \<Rightarrow> Inr x | None \<Rightarrow> Inl (Malformed (field @ '' is missing'')))"

definition enum_value :: "(i32 \<Rightarrow> 'e option) \<Rightarrow> i32 \<Rightarrow> string \<Rightarrow> wire_error + 'e" where
  "enum_value try_from raw field =
     (if raw = 0 then Inl (Malformed (field @ '' is unspecified''))
      else case try_from raw of Some e \<Rightarrow> Inr e | None \<Rightarrow> Inl UnknownValue)"

definition enum_or :: "(i32 \<Rightarrow> 'e option) \<Rightarrow> i32 \<Rightarrow> string \<Rightarrow> 'e \<Rightarrow> wire_error + 'e" where
  "enum_or try_from raw field fallback =
     (case enum_value try_from raw field of Inl UnknownValue \<Rightarrow> Inr fallback | other \<Rightarrow> other)"

definition narrow :: "u32 \<Rightarrow> string \<Rightarrow> wire_error + 'w::len word" where
  "narrow v field = (if unat v < 2 ^ LENGTH('w) then Inr (ucast v) else Inl (Malformed (field @ '' is out of range'')))"

text \<open>\<open>?\<close> on a result whose computation may panic.\<close>

fun bind_try :: "('e + 'a) option \<Rightarrow> ('a \<Rightarrow> ('e + 'b) option) \<Rightarrow> ('e + 'b) option" where
  "bind_try None f = None"
| "bind_try (Some (Inl e)) f = Some (Inl e)"
| "bind_try (Some (Inr x)) f = f x"

text \<open>\<open>value.map(f).transpose()\<close>.\<close>

definition map_transpose :: "('a \<Rightarrow> ('e + 'b) option) \<Rightarrow> 'a option \<Rightarrow> ('e + 'b option) option" where
  "map_transpose f v =
     (case v of None \<Rightarrow> Some (Inr None) | Some x \<Rightarrow> bind_try (f x) (\<lambda>y. Some (Inr (Some y))))"

section \<open>Colours, sizes, cursors and selections\<close>

fun encode_color :: "terminal_color \<Rightarrow> u32" where
  "encode_color ColorDefault = 0"
| "encode_color (ColorIndexed v) = push_bit 2 (ucast v) OR 2"
| "encode_color (ColorRgb r g b) = push_bit 2 (push_bit 16 (ucast r) OR push_bit 8 (ucast g) OR ucast b) OR 3"

definition decode_color :: "u32 \<Rightarrow> wire_error + terminal_color" where
  "decode_color v =
     (let payload = drop_bit 2 v; kind = v AND 3 in
      if kind = 0 \<and> payload = 0 then Inr ColorDefault
      else if kind = 1 then Inr ColorDefault
      else if kind = 2 then bind_ok (narrow payload ''indexed color'') (\<lambda>i. Inr (ColorIndexed i))
      else if kind = 3 \<and> payload \<le> 0xffffff
      then Inr (ColorRgb (ucast (drop_bit 16 payload)) (ucast (drop_bit 8 payload)) (ucast payload))
      else Inl (Malformed ''terminal cell color is not a known kind''))"

definition encode_size :: "terminal_size \<Rightarrow> pb_size" where
  "encode_size s = \<lparr>pz_rows = ucast (ts_rows s), pz_columns = ucast (ts_columns s),
     pz_cell_width = ucast (ts_cell_width s), pz_cell_height = ucast (ts_cell_height s)\<rparr>"

definition decode_size :: "pb_size \<Rightarrow> wire_error + terminal_size" where
  "decode_size s =
     bind_ok (narrow (pz_rows s) ''terminal rows'') (\<lambda>rows.
     bind_ok (narrow (pz_columns s) ''terminal columns'') (\<lambda>columns.
     bind_ok (narrow (pz_cell_width s) ''cell width'') (\<lambda>width.
     bind_ok (narrow (pz_cell_height s) ''cell height'') (\<lambda>height.
       Inr \<lparr>ts_rows = rows, ts_columns = columns, ts_cell_width = width, ts_cell_height = height\<rparr>))))"

fun encode_mouse_tracking :: "mouse_tracking \<Rightarrow> i32" where
  "encode_mouse_tracking TrackNone = 1"
| "encode_mouse_tracking TrackClick = 2"
| "encode_mouse_tracking TrackDrag = 3"
| "encode_mouse_tracking TrackMotion = 4"

definition decode_mouse_tracking :: "i32 \<Rightarrow> (wire_error + mouse_tracking) option" where
  "decode_mouse_tracking raw =
     bind_try (Some (enum_or tracking_try_from raw ''mouse tracking'' PbTrackNone)) (\<lambda>t.
       case t of
         PbTrackUnspecified \<Rightarrow> None
       | PbTrackNone \<Rightarrow> Some (Inr TrackNone)
       | PbTrackClick \<Rightarrow> Some (Inr TrackClick)
       | PbTrackDrag \<Rightarrow> Some (Inr TrackDrag)
       | PbTrackMotion \<Rightarrow> Some (Inr TrackMotion))"

fun encode_shape :: "cursor_shape \<Rightarrow> i32" where
  "encode_shape ShapeBlock = 1"
| "encode_shape ShapeUnderline = 2"
| "encode_shape ShapeBeam = 3"
| "encode_shape ShapeHollowBlock = 4"
| "encode_shape ShapeHidden = 5"

definition encode_cursor :: "terminal_cursor \<Rightarrow> pb_cursor" where
  "encode_cursor c = \<lparr>pc_row = ucast (cu_row c), pc_column = ucast (cu_column c),
     pc_shape = encode_shape (cu_shape c), pc_blinking = cu_blinking c\<rparr>"

definition decode_cursor :: "pb_cursor \<Rightarrow> (wire_error + terminal_cursor) option" where
  "decode_cursor c =
     bind_try (Some (narrow (pc_row c) ''cursor row'')) (\<lambda>row.
     bind_try (Some (narrow (pc_column c) ''cursor column'')) (\<lambda>column.
     bind_try (Some (enum_or shape_try_from (pc_shape c) ''cursor shape'' PbShapeBlock)) (\<lambda>shape.
     bind_try (case shape of
         PbShapeUnspecified \<Rightarrow> None
       | PbShapeBlock \<Rightarrow> Some (Inr ShapeBlock)
       | PbShapeUnderline \<Rightarrow> Some (Inr ShapeUnderline)
       | PbShapeBeam \<Rightarrow> Some (Inr ShapeBeam)
       | PbShapeHollowBlock \<Rightarrow> Some (Inr ShapeHollowBlock)
       | PbShapeHidden \<Rightarrow> Some (Inr ShapeHidden)) (\<lambda>shape.
       Some (Inr \<lparr>cu_row = row, cu_column = column, cu_shape = shape, cu_blinking = pc_blinking c\<rparr>)))))"

definition encode_position :: "terminal_position \<Rightarrow> pb_position" where
  "encode_position p = \<lparr>pp_row = ucast (tp_row p), pp_column = ucast (tp_column p),
     pp_side = (case tp_side p of SideLeft \<Rightarrow> 1 | SideRight \<Rightarrow> 2)\<rparr>"

definition decode_position :: "pb_position \<Rightarrow> (wire_error + terminal_position) option" where
  "decode_position p =
     bind_try (Some (narrow (pp_row p) ''selection row'')) (\<lambda>row.
     bind_try (Some (narrow (pp_column p) ''selection column'')) (\<lambda>column.
     bind_try (Some (enum_or side_try_from (pp_side p) ''selection side'' PbSideLeft)) (\<lambda>side.
     bind_try (case side of
         PbSideUnspecified \<Rightarrow> None
       | PbSideLeft \<Rightarrow> Some (Inr SideLeft)
       | PbSideRight \<Rightarrow> Some (Inr SideRight)) (\<lambda>side.
       Some (Inr \<lparr>tp_row = row, tp_column = column, tp_side = side\<rparr>)))))"

definition encode_selection :: "terminal_selection \<Rightarrow> pb_selection" where
  "encode_selection s = \<lparr>ps_start = Some (encode_position (se_start s)),
     ps_end = Some (encode_position (se_end s)), ps_display_offset = se_display_offset s\<rparr>"

definition decode_selection :: "pb_selection \<Rightarrow> (wire_error + terminal_selection) option" where
  "decode_selection s =
     bind_try (Some (required_field (ps_start s) ''selection start'')) (\<lambda>start.
     bind_try (decode_position start) (\<lambda>start.
     bind_try (Some (required_field (ps_end s) ''selection end'')) (\<lambda>stop.
     bind_try (decode_position stop) (\<lambda>stop.
       Some (Inr \<lparr>se_start = start, se_end = stop, se_display_offset = ps_display_offset s\<rparr>)))))"

section \<open>Cells in columns\<close>

text \<open>A column that stays empty until a cell needs it: \<open>resize\<close> fills the cells before with zeros.\<close>

definition lazy_push :: "nat \<Rightarrow> u32 \<Rightarrow> bool \<times> u32 list \<Rightarrow> bool \<times> u32 list" where
  "lazy_push index v col =
     (let (any, column) = col;
          column = (if v \<noteq> 0 \<and> \<not> any then take index column @ replicate (index - length column) 0 else column);
          any = (any \<or> v \<noteq> 0)
      in (any, if any then column @ [v] else column))"

record encoder =
  en_columns :: pb_cells
  en_any_flags :: bool
  en_any_hyperlink :: bool
  en_any_underline :: bool
  en_hyperlinks :: wire_hyperlinks

definition encoder_new :: "wire_hyperlinks \<Rightarrow> encoder" where
  "encoder_new w = \<lparr>en_columns = \<lparr>pl_text = [], pl_text_len = [], pl_foreground = [], pl_background = [],
       pl_flags = [], pl_hyperlink = [], pl_underline = []\<rparr>,
     en_any_flags = False, en_any_hyperlink = False, en_any_underline = False, en_hyperlinks = w\<rparr>"

definition encode_link :: "rstr option \<Rightarrow> wire_hyperlinks \<Rightarrow> u32 \<times> wire_hyperlinks" where
  "encode_link link w =
     (case link of
        None \<Rightarrow> (0, w)
      | Some uri \<Rightarrow> (case intern_by_value uri w of
          (Some index, w) \<Rightarrow> (of_nat index + 1, w)
        | (None, w) \<Rightarrow> (0, w)))"

definition encode_cell :: "nat \<Rightarrow> terminal_cell \<Rightarrow> encoder \<Rightarrow> encoder" where
  "encode_cell index cell e =
     (let c = en_columns e;
          (any_flags, flags) = lazy_push index (tc_flags cell) (en_any_flags e, pl_flags c);
          (any_underline, underline) =
            lazy_push index (encode_color (tc_underline_color cell)) (en_any_underline e, pl_underline c);
          (link, w) = encode_link (tc_hyperlink cell) (en_hyperlinks e);
          (any_hyperlink, hyperlink) = lazy_push index link (en_any_hyperlink e, pl_hyperlink c)
      in \<lparr>en_columns = \<lparr>pl_text = pl_text c @ tc_text cell,
            pl_text_len = pl_text_len c @ [of_nat (str_len (tc_text cell))],
            pl_foreground = pl_foreground c @ [encode_color (tc_foreground cell)],
            pl_background = pl_background c @ [encode_color (tc_background cell)],
            pl_flags = flags, pl_hyperlink = hyperlink, pl_underline = underline\<rparr>,
          en_any_flags = any_flags, en_any_hyperlink = any_hyperlink, en_any_underline = any_underline,
          en_hyperlinks = w\<rparr>)"

fun encode_cells_from :: "nat \<Rightarrow> terminal_cell list \<Rightarrow> encoder \<Rightarrow> encoder" where
  "encode_cells_from index [] e = e"
| "encode_cells_from index (cell # cells) e = encode_cells_from (index + 1) cells (encode_cell index cell e)"

definition encode_cells :: "terminal_cell list \<Rightarrow> wire_hyperlinks \<Rightarrow> pb_cells \<times> wire_hyperlinks" where
  "encode_cells cells w =
     (let e = encode_cells_from 0 cells (encoder_new w) in (en_columns e, en_hyperlinks e))"

text \<open>\<open>str::get(a..b)\<close>: the characters between two byte offsets, when both are character boundaries.\<close>

fun take_bytes :: "nat \<Rightarrow> rstr \<Rightarrow> (rstr \<times> rstr) option" where
  "take_bytes n [] = (if n = 0 then Some ([], []) else None)"
| "take_bytes n (c # s) =
     (if n = 0 then Some ([], c # s)
      else if length (utf8_bytes c) \<le> n
      then map_option (\<lambda>(xs, ys). (c # xs, ys)) (take_bytes (n - length (utf8_bytes c)) s)
      else None)"

definition str_get :: "nat \<Rightarrow> nat \<Rightarrow> rstr \<Rightarrow> rstr option" where
  "str_get a b s =
     (case take_bytes a s of
        None \<Rightarrow> None
      | Some (_, rest) \<Rightarrow> if a \<le> b then map_option fst (take_bytes (b - a) rest) else None)"

definition MAX_TERMINAL_CELL_TEXT_BYTES :: nat where "MAX_TERMINAL_CELL_TEXT_BYTES = 256"

record cell_reader =
  cv_columns :: pb_cells
  cv_hyperlinks :: "rstr list"
  cv_index :: nat
  cv_offset :: nat

definition optional_column :: "nat \<Rightarrow> u32 list \<Rightarrow> bool" where
  "optional_column n column \<longleftrightarrow> column = [] \<or> length column = n"

definition cell_reader_new :: "pb_cells \<Rightarrow> rstr list \<Rightarrow> nat \<Rightarrow> wire_error + cell_reader" where
  "cell_reader_new columns hyperlinks n =
     (if length (pl_text_len columns) \<noteq> n \<or> length (pl_foreground columns) \<noteq> n
         \<or> length (pl_background columns) \<noteq> n \<or> \<not> optional_column n (pl_flags columns)
         \<or> \<not> optional_column n (pl_hyperlink columns) \<or> \<not> optional_column n (pl_underline columns)
      then Inl (Malformed ''terminal cell columns disagree on the cell count'')
      else Inr \<lparr>cv_columns = columns, cv_hyperlinks = hyperlinks, cv_index = 0, cv_offset = 0\<rparr>)"

definition column_at :: "u32 list \<Rightarrow> nat \<Rightarrow> u32 option" where
  "column_at column i = (if i < length column then Some (column ! i) else None)"

definition column_or_zero :: "u32 list \<Rightarrow> nat \<Rightarrow> u32" where
  "column_or_zero column i = (case column_at column i of Some v \<Rightarrow> v | None \<Rightarrow> 0)"

definition link_at :: "rstr list \<Rightarrow> u32 \<Rightarrow> wire_error + rstr option" where
  "link_at table link =
     (if link = 0 then Inr None
      else if unat link - 1 < length table then Inr (Some (table ! (unat link - 1)))
      else Inl (Malformed ''terminal cell references an invalid hyperlink index''))"

definition next_cell :: "cell_reader \<Rightarrow> (wire_error + terminal_cell \<times> cell_reader) option" where
  "next_cell r =
     (let index = cv_index r; columns = cv_columns r in
      case column_at (pl_text_len columns) index of
        None \<Rightarrow> None
      | Some len \<Rightarrow>
          if MAX_TERMINAL_CELL_TEXT_BYTES < unat len
          then Some (Inl (Malformed ''terminal cell text exceeds the byte limit''))
          else let stop = cv_offset r + unat len in
          case str_get (cv_offset r) stop (pl_text columns) of
            None \<Rightarrow> Some (Inl (Malformed ''terminal cell text does not split on character boundaries''))
          | Some chars \<Rightarrow>
              bind_try (Some (link_at (cv_hyperlinks r) (column_or_zero (pl_hyperlink columns) index))) (\<lambda>link.
              bind_try (Some (decode_color (column_or_zero (pl_underline columns) index))) (\<lambda>underline.
              bind_try (map_option decode_color (column_at (pl_foreground columns) index)) (\<lambda>foreground.
              bind_try (map_option decode_color (column_at (pl_background columns) index)) (\<lambda>background.
                Some (Inr (\<lparr>tc_text = chars, tc_foreground = foreground, tc_background = background,
                    tc_underline_color = underline, tc_flags = column_or_zero (pl_flags columns) index,
                    tc_hyperlink = link\<rparr>,
                  r\<lparr>cv_index := index + 1, cv_offset := stop\<rparr>)))))))"

fun read_cells :: "nat \<Rightarrow> cell_reader \<Rightarrow> (wire_error + terminal_cell list \<times> cell_reader) option" where
  "read_cells 0 r = Some (Inr ([], r))"
| "read_cells (Suc n) r =
     bind_try (next_cell r) (\<lambda>(cell, r). bind_try (read_cells n r) (\<lambda>(cells, r). Some (Inr (cell # cells, r))))"

definition reader_finish :: "cell_reader \<Rightarrow> wire_error + unit" where
  "reader_finish r =
     (if cv_offset r \<noteq> str_len (pl_text (cv_columns r))
      then Inl (Malformed ''terminal cell text has bytes no cell covers'') else Inr ())"

fun check_hyperlinks :: "nat \<Rightarrow> rstr list \<Rightarrow> wire_error + unit" where
  "check_hyperlinks bytes [] = Inr ()"
| "check_hyperlinks bytes (uri # uris) =
     (if MAX_TERMINAL_HYPERLINK_URI_BYTES < str_len uri
      then Inl (Malformed ''terminal hyperlink URI exceeds the byte limit'')
      else let bytes = bytes + str_len uri in
        if MAX_TERMINAL_HYPERLINK_BYTES < bytes
        then Inl (Malformed ''terminal hyperlink table exceeds the byte limit'')
        else check_hyperlinks bytes uris)"

definition decode_hyperlinks :: "rstr list \<Rightarrow> wire_error + rstr list" where
  "decode_hyperlinks uris =
     (if MAX_TERMINAL_HYPERLINKS < length uris
      then Inl (Malformed ''terminal hyperlink table exceeds u16 indices'')
      else bind_ok (check_hyperlinks 0 uris) (\<lambda>_. Inr uris))"

section \<open>Views and deltas\<close>

definition encode_view :: "terminal_view \<Rightarrow> pb_view" where
  "encode_view view =
     (let (cells, w) = encode_cells (tv_cells view) wire_hyperlinks_new in
      \<lparr>pv_revision = tv_revision view, pv_size = Some (encode_size (tv_size view)),
       pv_display_offset = tv_display_offset view,
       pv_mouse_tracking = encode_mouse_tracking (tv_mouse_tracking view),
       pv_hyperlinks = wl_values w, pv_cells = Some cells,
       pv_cursor = map_option encode_cursor (tv_cursor view),
       pv_selection = map_option encode_selection (tv_selection view)\<rparr>)"

definition decode_view :: "pb_view \<Rightarrow> (wire_error + terminal_view) option" where
  "decode_view pb =
     bind_try (Some (required_field (pv_size pb) ''terminal size'')) (\<lambda>size_pb.
     bind_try (Some (decode_size size_pb)) (\<lambda>size.
     let n = unat (ts_rows size) * unat (ts_columns size) in
     if MAX_TERMINAL_CELLS < n then Some (Inl (Malformed ''terminal grid exceeds the maximum cell count''))
     else
     bind_try (Some (decode_hyperlinks (pv_hyperlinks pb))) (\<lambda>uris.
     bind_try (Some (required_field (pv_cells pb) ''terminal cells'')) (\<lambda>columns.
     bind_try (Some (cell_reader_new columns uris n)) (\<lambda>reader.
     bind_try (read_cells n reader) (\<lambda>(cells, reader).
     bind_try (Some (reader_finish reader)) (\<lambda>_.
     bind_try (decode_mouse_tracking (pv_mouse_tracking pb)) (\<lambda>tracking.
     bind_try (map_transpose decode_cursor (pv_cursor pb)) (\<lambda>cursor.
     bind_try (map_transpose decode_selection (pv_selection pb)) (\<lambda>selection.
       Some (Inr \<lparr>tv_revision = pv_revision pb, tv_size = size, tv_display_offset = pv_display_offset pb,
         tv_mouse_tracking = tracking, tv_cells = cells, tv_cursor = cursor, tv_selection = selection\<rparr>)))))))))))"

definition encode_delta :: "view_delta \<Rightarrow> pb_delta" where
  "encode_delta delta =
     (let (cells, w) = encode_cells (concat (map cr_cells (vd_runs delta))) wire_hyperlinks_new in
      \<lparr>pd_base_revision = vd_base_revision delta, pd_revision = vd_revision delta,
       pd_display_offset = vd_display_offset delta,
       pd_mouse_tracking = encode_mouse_tracking (vd_mouse_tracking delta),
       pd_cursor = map_option encode_cursor (vd_cursor delta),
       pd_selection = map_option encode_selection (vd_selection delta),
       pd_hyperlinks = wl_values w, pd_run_start = map cr_start (vd_runs delta),
       pd_run_len = map (\<lambda>run. of_nat (length (cr_cells run))) (vd_runs delta), pd_cells = Some cells\<rparr>)"

fun count_run_cells :: "nat \<Rightarrow> u32 list \<Rightarrow> wire_error + nat" where
  "count_run_cells n [] = Inr n"
| "count_run_cells n (len # lens) =
     (let n = n + unat len in
      if MAX_TERMINAL_CELLS < n then Inl (Malformed ''terminal delta exceeds the maximum cell count'')
      else count_run_cells n lens)"

fun read_runs :: "(u32 \<times> u32) list \<Rightarrow> cell_reader \<Rightarrow> (wire_error + cell_run list \<times> cell_reader) option" where
  "read_runs [] r = Some (Inr ([], r))"
| "read_runs ((start, len) # rest) r =
     bind_try (read_cells (unat len) r) (\<lambda>(cells, r).
     bind_try (read_runs rest r) (\<lambda>(runs, r). Some (Inr (\<lparr>cr_start = start, cr_cells = cells\<rparr> # runs, r))))"

definition decode_delta :: "pb_delta \<Rightarrow> (wire_error + view_delta) option" where
  "decode_delta pb =
     (if length (pd_run_start pb) \<noteq> length (pd_run_len pb)
      then Some (Inl (Malformed ''terminal delta run columns disagree''))
      else
     bind_try (Some (count_run_cells 0 (pd_run_len pb))) (\<lambda>n.
     bind_try (Some (decode_hyperlinks (pd_hyperlinks pb))) (\<lambda>uris.
     bind_try (Some (required_field (pd_cells pb) ''terminal cells'')) (\<lambda>columns.
     bind_try (Some (cell_reader_new columns uris n)) (\<lambda>reader.
     bind_try (read_runs (zip (pd_run_start pb) (pd_run_len pb)) reader) (\<lambda>(runs, reader).
     bind_try (Some (reader_finish reader)) (\<lambda>_.
     bind_try (decode_mouse_tracking (pd_mouse_tracking pb)) (\<lambda>tracking.
     bind_try (map_transpose decode_cursor (pd_cursor pb)) (\<lambda>cursor.
     bind_try (map_transpose decode_selection (pd_selection pb)) (\<lambda>selection.
       Some (Inr \<lparr>vd_base_revision = pd_base_revision pb, vd_revision = pd_revision pb,
         vd_display_offset = pd_display_offset pb, vd_mouse_tracking = tracking, vd_cursor = cursor,
         vd_selection = selection, vd_runs = runs\<rparr>)))))))))))"


datatype pb_frame = PbFull pb_view | PbDelta pb_delta

text \<open>A frame is a oneof: unset, or a member this build does not know, is \<open>None\<close>.\<close>

fun encode_view_frame :: "view_frame \<Rightarrow> pb_frame option" where
  "encode_view_frame (Full view) = Some (PbFull (encode_view view))"
| "encode_view_frame (Delta delta) = Some (PbDelta (encode_delta delta))"

definition decode_view_frame :: "pb_frame option \<Rightarrow> (wire_error + view_frame) option" where
  "decode_view_frame frame =
     (case frame of
        None \<Rightarrow> Some (Inl UnknownValue)
      | Some (PbFull view) \<Rightarrow> bind_try (decode_view view) (\<lambda>view. Some (Inr (Full view)))
      | Some (PbDelta delta) \<Rightarrow> bind_try (decode_delta delta) (\<lambda>delta. Some (Inr (Delta delta))))"

section \<open>Scalars come back\<close>

lemma unat_ucast_u32:
  assumes "LENGTH('w::len) \<le> 32"
  shows "unat (ucast (v :: 'w word) :: u32) = unat v"
proof -
  have "unat v < 2 ^ LENGTH('w)" by (rule unsigned_less)
  also have "\<dots> \<le> 2 ^ 32" by (rule power_increasing [OF assms]) simp
  finally show ?thesis by (simp add: unsigned_ucast_eq take_bit_nat_eq_self)
qed

lemma ucast_ucast_u32: "LENGTH('w::len) \<le> 32 \<Longrightarrow> ucast (ucast (v :: 'w word) :: u32) = v"
  by (rule bit_eqI) (auto simp: bit_simps)

lemma narrow_ucast: "LENGTH('w::len) \<le> 32 \<Longrightarrow> narrow (ucast (v :: 'w word)) field = Inr v"
  by (simp add: narrow_def unat_ucast_u32 ucast_ucast_u32)

lemma narrow_u16 [simp]: "narrow (ucast (v :: u16)) field = Inr v"
  by (simp add: narrow_ucast)

lemma decode_size_encode [simp]: "decode_size (encode_size s) = Inr s"
  by (simp add: decode_size_def encode_size_def)

text \<open>The kind in the two low bits, the value above them.\<close>

lemma color_kind:
  fixes x k :: u32
  assumes "k \<le> 3"
  shows "(push_bit 2 x OR k) AND 3 = k" and "drop_bit 2 (push_bit 2 x OR k) = take_bit 30 x"
proof -
  have three: "(3 :: u32) = mask 2" by (simp add: mask_eq_exp_minus_1)
  have small: "take_bit 2 k = k" using assms
    by (simp add: word_unat_eq_iff unsigned_take_bit_eq take_bit_nat_eq_self word_le_nat_alt)
  have low: "n < 2" if "bit k n" for n using that small by (metis bit_take_bit_iff)
  show "(push_bit 2 x OR k) AND 3 = k"
    unfolding three by (rule bit_eqI) (auto simp: bit_simps dest: low)
  show "drop_bit 2 (push_bit 2 x OR k) = take_bit 30 x"
    by (rule bit_eqI) (auto simp: bit_simps dest: low)
qed

lemma take_bit_30: "LENGTH('w::len) \<le> 30 \<Longrightarrow> take_bit 30 (ucast (v :: 'w word) :: u32) = ucast v"
  by (rule bit_eqI) (auto simp: bit_simps dest: bit_imp_le_length)

definition rgb_word :: "u8 \<Rightarrow> u8 \<Rightarrow> u8 \<Rightarrow> u32" where
  "rgb_word r g b = push_bit 16 (ucast r) OR push_bit 8 (ucast g) OR ucast b"

lemma rgb_word_parts:
  "ucast (drop_bit 16 (rgb_word r g b)) = r" "ucast (drop_bit 8 (rgb_word r g b)) = g" "ucast (rgb_word r g b) = b"
  "take_bit 24 (rgb_word r g b) = rgb_word r g b"
  by (rule bit_eqI, auto simp: rgb_word_def bit_simps dest: bit_imp_le_length)+

lemma rgb_word_small: "take_bit 30 (rgb_word r g b) = rgb_word r g b" "rgb_word r g b \<le> 0xffffff"
proof -
  have "take_bit 30 (take_bit 24 (rgb_word r g b)) = take_bit 24 (rgb_word r g b)"
    by (subst take_bit_take_bit) simp
  then show "take_bit 30 (rgb_word r g b) = rgb_word r g b" by (simp only: rgb_word_parts)
  have "unat (take_bit 24 (rgb_word r g b)) < 2 ^ 24"
    by (simp only: unsigned_take_bit_eq) (rule take_bit_nat_less_exp)
  then show "rgb_word r g b \<le> 0xffffff" by (simp add: rgb_word_parts word_le_nat_alt)
qed

lemma decode_color_kind:
  assumes "k \<le> 3"
  shows "decode_color (push_bit 2 x OR k) =
     (let payload = take_bit 30 x in
      if k = 0 \<and> payload = 0 then Inr ColorDefault
      else if k = 1 then Inr ColorDefault
      else if k = 2 then bind_ok (narrow payload ''indexed color'') (\<lambda>i. Inr (ColorIndexed i))
      else if k = 3 \<and> payload \<le> 0xffffff
      then Inr (ColorRgb (ucast (drop_bit 16 payload)) (ucast (drop_bit 8 payload)) (ucast payload))
      else Inl (Malformed ''terminal cell color is not a known kind''))"
  by (simp only: decode_color_def Let_def color_kind [OF assms])

lemma color_roundtrip [simp]: "decode_color (encode_color c) = Inr c"
proof (cases c)
  case ColorDefault
  then show ?thesis by (simp add: decode_color_def)
next
  case (ColorIndexed v)
  have "take_bit 30 (ucast v :: u32) = ucast v" by (rule take_bit_30) simp
  moreover have "decode_color (encode_color c) = decode_color (push_bit 2 (ucast v) OR 2)"
    by (simp only: ColorIndexed encode_color.simps)
  ultimately show ?thesis
    using ColorIndexed by (simp only:) (subst decode_color_kind, simp, simp add: narrow_ucast Let_def)
next
  case (ColorRgb r g b)
  then have "encode_color c = push_bit 2 (rgb_word r g b) OR 3" by (simp only: encode_color.simps rgb_word_def)
  then show ?thesis
    using ColorRgb
    by (simp only:) (subst decode_color_kind, simp, simp add: Let_def rgb_word_small rgb_word_parts)
qed

lemma tracking_roundtrip [simp]: "decode_mouse_tracking (encode_mouse_tracking t) = Some (Inr t)"
  by (cases t) (simp_all add: decode_mouse_tracking_def enum_or_def enum_value_def tracking_try_from_def enum_try_from_def)

lemma cursor_roundtrip [simp]: "decode_cursor (encode_cursor c) = Some (Inr c)"
  by (cases c, cases "cu_shape c")
    (simp_all add: decode_cursor_def encode_cursor_def enum_or_def enum_value_def shape_try_from_def enum_try_from_def)

lemma position_roundtrip [simp]: "decode_position (encode_position p) = Some (Inr p)"
  by (cases p, cases "tp_side p")
    (simp_all add: decode_position_def encode_position_def enum_or_def enum_value_def side_try_from_def enum_try_from_def)

lemma selection_roundtrip [simp]: "decode_selection (encode_selection s) = Some (Inr s)"
  by (simp add: decode_selection_def encode_selection_def required_field_def)

lemma map_transpose_roundtrip [simp]:
  "(\<And>x. decode (encode x) = Some (Inr x)) \<Longrightarrow> map_transpose decode (map_option encode v) = Some (Inr v)"
  by (simp add: map_transpose_def split: option.split)

section \<open>Text by byte offsets\<close>

lemma str_len_simps [simp]:
  "str_len (xs @ ys) = str_len xs + str_len ys" "str_len (c # s) = length (utf8_bytes c) + str_len s"
  by (simp_all add: str_len_def str_bytes_def)

lemma take_bytes_append: "take_bytes (str_len xs) (xs @ ys) = Some (xs, ys)"
proof (induction xs)
  case Nil
  then show ?case by (cases ys) simp_all
next
  case (Cons c xs)
  have "utf8_bytes c \<noteq> []" using length_utf8_bytes(1) [of c] by auto
  with Cons show ?case by simp
qed

lemma str_get_append: "str_get (str_len xs) (str_len xs + str_len ys) (xs @ ys @ zs) = Some ys"
  by (simp add: str_get_def take_bytes_append)

lemma take_bytes_len: "take_bytes n s = Some (xs, ys) \<Longrightarrow> str_len xs = n \<and> s = xs @ ys"
  by (induction s arbitrary: n xs) (auto split: if_splits)

lemma str_get_len: "str_get a b s = Some xs \<Longrightarrow> str_len xs = b - a"
  by (auto simp: str_get_def split: option.splits if_splits dest: take_bytes_len)

section \<open>Columns\<close>

definition lazy_column :: "u32 list \<Rightarrow> bool \<times> u32 list" where
  "lazy_column vs = (let any = list_ex (\<lambda>v. v \<noteq> 0) vs in (any, if any then vs else []))"

lemma no_nonzero: "\<not> list_ex (\<lambda>v. v \<noteq> 0) vs \<Longrightarrow> vs = replicate (length vs) (0 :: u32)"
  by (simp add: list_ex_iff replicate_length_same)

lemma lazy_push_column: "lazy_push (length vs) v (lazy_column vs) = lazy_column (vs @ [v])"
  using no_nonzero [of vs] by (auto simp: lazy_push_def lazy_column_def Let_def)

lemma lazy_column_at: "i < length vs \<Longrightarrow> column_or_zero (snd (lazy_column vs)) i = vs ! i"
  by (auto simp: column_or_zero_def column_at_def lazy_column_def Let_def list_ex_iff)

lemma lazy_column_optional: "optional_column (length vs) (snd (lazy_column vs))"
  by (simp add: optional_column_def lazy_column_def Let_def)

text \<open>The columns of given cells whose links have the given numbers.\<close>

definition columns_of :: "terminal_cell list \<Rightarrow> u32 list \<Rightarrow> pb_cells" where
  "columns_of cells nums = \<lparr>pl_text = concat (map tc_text cells),
     pl_text_len = map (\<lambda>c. of_nat (str_len (tc_text c))) cells,
     pl_foreground = map (\<lambda>c. encode_color (tc_foreground c)) cells,
     pl_background = map (\<lambda>c. encode_color (tc_background c)) cells,
     pl_flags = snd (lazy_column (map tc_flags cells)),
     pl_hyperlink = snd (lazy_column nums),
     pl_underline = snd (lazy_column (map (\<lambda>c. encode_color (tc_underline_color c)) cells))\<rparr>"

definition encoder_at :: "terminal_cell list \<Rightarrow> u32 list \<Rightarrow> wire_hyperlinks \<Rightarrow> encoder" where
  "encoder_at cells nums w = \<lparr>en_columns = columns_of cells nums,
     en_any_flags = fst (lazy_column (map tc_flags cells)),
     en_any_hyperlink = fst (lazy_column nums),
     en_any_underline = fst (lazy_column (map (\<lambda>c. encode_color (tc_underline_color c)) cells)),
     en_hyperlinks = w\<rparr>"

lemma encode_cell_at:
  assumes "length nums = length cells" and "encode_link (tc_hyperlink cell) w = (num, w')"
  shows "encode_cell (length cells) cell (encoder_at cells nums w) = encoder_at (cells @ [cell]) (nums @ [num]) w'"
proof -
  let ?under = "\<lambda>c. encode_color (tc_underline_color c)"
  have push: "lazy_push (length cells) (f cell) (fst (lazy_column (map f cells)), snd (lazy_column (map f cells)))
      = lazy_column (map f (cells @ [cell]))" for f
    using lazy_push_column [of "map f cells" "f cell"] by simp
  have push_num: "lazy_push (length cells) num (fst (lazy_column nums), snd (lazy_column nums)) = lazy_column (nums @ [num])"
    using lazy_push_column [of nums num] assms(1) by simp
  show ?thesis
    using assms(2) push [of tc_flags] push [of ?under] push_num
    by (simp add: encode_cell_def encoder_at_def columns_of_def Let_def split: prod.split)
qed

fun link_numbers :: "terminal_cell list \<Rightarrow> wire_hyperlinks \<Rightarrow> u32 list \<times> wire_hyperlinks" where
  "link_numbers [] w = ([], w)"
| "link_numbers (cell # cells) w =
     (let (num, w) = encode_link (tc_hyperlink cell) w; (nums, w) = link_numbers cells w in (num # nums, w))"

lemma length_link_numbers: "length (fst (link_numbers cells w)) = length cells"
proof (induction cells arbitrary: w)
  case (Cons cell cells)
  obtain num w1 where "encode_link (tc_hyperlink cell) w = (num, w1)" by fastforce
  moreover obtain nums w2 where "link_numbers cells w1 = (nums, w2)" by fastforce
  ultimately show ?case using Cons.IH [of w1] by simp
qed simp

lemma encode_cells_from_at:
  "length nums = length cells \<Longrightarrow> link_numbers rest w = (ms, w') \<Longrightarrow>
   encode_cells_from (length cells) rest (encoder_at cells nums w) = encoder_at (cells @ rest) (nums @ ms) w'"
proof (induction rest arbitrary: cells nums w ms w')
  case (Cons cell rest)
  obtain num w1 where one: "encode_link (tc_hyperlink cell) w = (num, w1)" by fastforce
  obtain ms' w2 where two: "link_numbers rest w1 = (ms', w2)" by fastforce
  have "encode_cells_from (length (cells @ [cell])) rest (encoder_at (cells @ [cell]) (nums @ [num]) w1)
      = encoder_at ((cells @ [cell]) @ rest) ((nums @ [num]) @ ms') w2"
    by (rule Cons.IH) (simp_all add: Cons.prems(1) two)
  with Cons.prems one two show ?case by (simp add: encode_cell_at [OF Cons.prems(1) one])
qed simp

lemma encode_cells_columns:
  "link_numbers cells w = (nums, w') \<Longrightarrow> encode_cells cells w = (columns_of cells nums, w')"
  using encode_cells_from_at [of "[]" "[]" cells w nums w']
  by (simp add: encode_cells_def encoder_new_def encoder_at_def columns_of_def lazy_column_def Let_def)

section \<open>Links and their numbers\<close>

definition extends :: "wire_hyperlinks \<Rightarrow> wire_hyperlinks \<Rightarrow> bool" where
  "extends w w' \<longleftrightarrow> (\<exists>tail. wl_values w' = wl_values w @ tail)"

lemma extends_refl [simp]: "extends w w"
  by (simp add: extends_def)

lemma extends_trans: "extends a b \<Longrightarrow> extends b c \<Longrightarrow> extends a c"
  by (auto simp: extends_def)

lemma intern_extends: "intern_by_value uri w = (r, w') \<Longrightarrow> extends w w'"
  by (erule intern_cases) (auto simp: extends_def wire_add_def)

text \<open>A number names, in every later table, the link the cell keeps once normalised.\<close>

lemma link_number:
  assumes inv: "wire_inv w" and enc: "encode_link (tc_hyperlink cell) w = (num, w1)"
  shows "normalize_cell cell w = (fst (normalize_cell cell w), fst (snd (normalize_cell cell w)), w1)"
    and "wire_inv w1 \<and> extends w w1"
    and "extends w1 w2 \<Longrightarrow> link_at (wl_values w2) num = Inr (tc_hyperlink (fst (snd (normalize_cell cell w))))"
proof -
  show "normalize_cell cell w = (fst (normalize_cell cell w), fst (snd (normalize_cell cell w)), w1)"
    using enc by (auto simp: encode_link_def normalize_cell_def split: option.splits prod.splits)
  show "wire_inv w1 \<and> extends w w1"
    using enc inv intern_inv [OF inv] intern_extends
    by (auto simp: encode_link_def split: option.splits prod.splits)
  assume later: "extends w1 w2"
  show "link_at (wl_values w2) num = Inr (tc_hyperlink (fst (snd (normalize_cell cell w))))"
  proof (cases "tc_hyperlink cell")
    case None
    with enc show ?thesis by (auto simp: encode_link_def normalize_cell_def link_at_def)
  next
    case (Some uri)
    obtain r wx where intern: "intern_by_value uri w = (r, wx)" by fastforce
    show ?thesis
    proof (cases r)
      case None
      with enc Some intern show ?thesis by (auto simp: encode_link_def normalize_cell_def link_at_def)
    next
      case (Some i)
      note at = intern_index [OF inv intern [unfolded Some]]
      have num: "num = of_nat i + 1" "wx = w1"
        using enc \<open>tc_hyperlink cell = Some uri\<close> intern Some by (auto simp: encode_link_def)
      have "length (wl_values w1) \<le> 65536"
        using intern_inv [OF inv intern] num by (simp add: wire_inv_def MAX_TERMINAL_HYPERLINKS_def)
      then have "Suc i < 2 ^ 32" using at num by simp
      then have "unat (of_nat (Suc i) :: u32) = Suc i"
        by (simp only: unsigned_of_nat) (simp add: take_bit_nat_eq_self)
      then have "unat num = i + 1" using num by (simp add: add.commute)
      moreover from this have "num \<noteq> 0" by auto
      moreover have "i < length (wl_values w2) \<and> wl_values w2 ! i = uri"
        using later at num by (auto simp: extends_def nth_append)
      moreover have "tc_hyperlink (fst (snd (normalize_cell cell w))) = Some uri"
        using \<open>tc_hyperlink cell = Some uri\<close> intern Some at by (simp add: normalize_cell_def)
      ultimately show ?thesis by (simp add: link_at_def)
    qed
  qed
qed

lemma cells_numbers:
  assumes "wire_inv w" and "link_numbers cells w = (nums, w1)" and "normalize_wire_cells cells w = (lost, cells', w2)"
  shows "w2 = w1 \<and> wire_inv w1 \<and> extends w w1
    \<and> (\<forall>w3. extends w1 w3 \<longrightarrow> list_all2 (\<lambda>num c. link_at (wl_values w3) num = Inr (tc_hyperlink c)) nums cells')"
  using assms
proof (induction cells arbitrary: w nums lost cells' w1 w2)
  case (Cons cell cells)
  obtain num wa where one: "encode_link (tc_hyperlink cell) w = (num, wa)" by fastforce
  obtain ms wb where two: "link_numbers cells wa = (ms, wb)" by fastforce
  obtain l1 c1 where norm: "normalize_cell cell w = (l1, c1, wa)"
    using link_number(1) [OF Cons.prems(1) one] by blast
  obtain l2 cs2 wc where rest: "normalize_wire_cells cells wa = (l2, cs2, wc)" by (metis prod_cases3)
  note step = link_number(2,3) [OF Cons.prems(1) one]
  have inv: "wire_inv wa" and ext: "extends w wa" using step(1) by simp_all
  note tail = Cons.IH [OF inv two rest]
  have parts: "nums = num # ms" "w1 = wb" "cells' = c1 # cs2" "w2 = wc"
    using Cons.prems(2,3) one two norm rest by auto
  have "link_at (wl_values w3) num = Inr (tc_hyperlink c1)" if "extends wb w3" for w3
    using step(2) [of w3] extends_trans [of wa wb w3] tail that norm by simp
  with tail parts extends_trans [OF ext, of wb] show ?case by simp
qed (auto simp: extends_def)

section \<open>Reading the columns back\<close>

definition reader_at :: "terminal_cell list \<Rightarrow> u32 list \<Rightarrow> rstr list \<Rightarrow> nat \<Rightarrow> cell_reader" where
  "reader_at cells nums table i = \<lparr>cv_columns = columns_of cells nums, cv_hyperlinks = table, cv_index = i,
     cv_offset = str_len (concat (map tc_text (take i cells)))\<rparr>"

lemma column_at_map: "i < length xs \<Longrightarrow> column_at (map f xs) i = Some (f (xs ! i))"
  by (simp add: column_at_def)

lemma text_at:
  assumes "i < length cells"
  shows "str_get (str_len (concat (map tc_text (take i cells))))
     (str_len (concat (map tc_text (take i cells))) + str_len (tc_text (cells ! i))) (concat (map tc_text cells))
   = Some (tc_text (cells ! i))"
proof -
  have "cells = take i cells @ cells ! i # drop (Suc i) cells" using assms by (rule id_take_nth_drop)
  then have "concat (map tc_text cells)
      = concat (map tc_text (take i cells)) @ tc_text (cells ! i) @ concat (map tc_text (drop (Suc i) cells))"
    by (metis concat.simps(2) concat_append list.simps(9) map_append)
  then show ?thesis by (simp only: str_get_append)
qed

lemma next_cell_at:
  assumes i: "i < length cells" "length nums = length cells" and small: "str_len (tc_text (cells ! i)) \<le> 256"
    and link: "link_at table (nums ! i) = Inr link"
  shows "next_cell (reader_at cells nums table i)
   = Some (Inr ((cells ! i)\<lparr>tc_hyperlink := link\<rparr>, reader_at cells nums table (Suc i)))"
proof -
  have len: "unat (of_nat (str_len (tc_text (cells ! i))) :: u32) = str_len (tc_text (cells ! i))"
    using small by (simp only: unsigned_of_nat) (simp add: take_bit_nat_eq_self)
  have under: "column_or_zero (snd (lazy_column (map (\<lambda>c. encode_color (tc_underline_color c)) cells))) i
      = encode_color (tc_underline_color (cells ! i))"
    using lazy_column_at [of i "map (\<lambda>c. encode_color (tc_underline_color c)) cells"] i by simp
  have flags: "column_or_zero (snd (lazy_column (map tc_flags cells))) i = tc_flags (cells ! i)"
    using lazy_column_at [of i "map tc_flags cells"] i by simp
  have num: "column_or_zero (snd (lazy_column nums)) i = nums ! i" using lazy_column_at [of i nums] i by simp
  have stop: "str_len (concat (map tc_text (take (Suc i) cells)))
      = str_len (concat (map tc_text (take i cells))) + str_len (tc_text (cells ! i))"
    using i by (simp add: take_Suc_conv_app_nth)
  show ?thesis
    using i small link
    by (simp add: next_cell_def reader_at_def columns_of_def Let_def column_at_map len text_at under flags num stop
        MAX_TERMINAL_CELL_TEXT_BYTES_def)
qed

text \<open>Reading cells whose numbers name their normalised links gives the normalised cells.\<close>

definition readable :: "terminal_cell list \<Rightarrow> u32 list \<Rightarrow> rstr list \<Rightarrow> terminal_cell list \<Rightarrow> bool" where
  "readable cells nums table cells' \<longleftrightarrow>
     length nums = length cells \<and> length cells' = length cells
     \<and> (\<forall>i < length cells. link_at table (nums ! i) = Inr (tc_hyperlink (cells' ! i))
          \<and> (cells ! i)\<lparr>tc_hyperlink := tc_hyperlink (cells' ! i)\<rparr> = cells' ! i
          \<and> str_len (tc_text (cells ! i)) \<le> 256)"

lemma read_cells_at:
  assumes "readable cells nums table cells'"
  shows "i + n \<le> length cells \<Longrightarrow> read_cells n (reader_at cells nums table i)
    = Some (Inr (take n (drop i cells'), reader_at cells nums table (i + n)))"
proof (induction n arbitrary: i)
  case (Suc n)
  then have i: "i < length cells" by simp
  have "next_cell (reader_at cells nums table i) = Some (Inr (cells' ! i, reader_at cells nums table (Suc i)))"
    using next_cell_at [OF i, of nums table "tc_hyperlink (cells' ! i)"] assms i by (simp add: readable_def)
  moreover have "drop i cells' = cells' ! i # drop (Suc i) cells'"
    using i assms by (simp add: readable_def Cons_nth_drop_Suc)
  ultimately show ?case using Suc.IH [of "Suc i"] Suc.prems by simp
qed simp

lemma reader_new_at:
  "length nums = length cells \<Longrightarrow> n = length cells \<Longrightarrow>
   cell_reader_new (columns_of cells nums) table n = Inr (reader_at cells nums table 0)"
  using lazy_column_optional [of "map tc_flags cells"] lazy_column_optional [of nums]
    lazy_column_optional [of "map (\<lambda>c. encode_color (tc_underline_color c)) cells"]
  by (simp add: cell_reader_new_def reader_at_def columns_of_def)

lemma reader_finish_at: "reader_finish (reader_at cells nums table (length cells)) = Inr ()"
  by (simp add: reader_finish_def reader_at_def columns_of_def)

lemma check_hyperlinks_exact:
  "check_hyperlinks n uris = Inr () \<longleftrightarrow>
     (\<forall>u \<in> set uris. str_len u \<le> MAX_TERMINAL_HYPERLINK_URI_BYTES)
     \<and> (uris = [] \<or> n + sum_list (map str_len uris) \<le> MAX_TERMINAL_HYPERLINK_BYTES)"
  by (induction n uris rule: check_hyperlinks.induct) (auto simp: Let_def not_less)

lemma decode_hyperlinks_exact:
  "decode_hyperlinks uris = Inr out \<longleftrightarrow> out = uris \<and> length uris \<le> MAX_TERMINAL_HYPERLINKS
     \<and> (\<forall>u \<in> set uris. str_len u \<le> MAX_TERMINAL_HYPERLINK_URI_BYTES)
     \<and> sum_list (map str_len uris) \<le> MAX_TERMINAL_HYPERLINK_BYTES"
  by (auto simp: decode_hyperlinks_def check_hyperlinks_exact)

lemma decode_hyperlinks_inv: "wire_inv w \<Longrightarrow> decode_hyperlinks (wl_values w) = Inr (wl_values w)"
  by (simp add: decode_hyperlinks_exact wire_inv_def)

lemma link_lost_same: "link_lost c c' \<Longrightarrow> c\<lparr>tc_hyperlink := tc_hyperlink c'\<rparr> = c'"
  by (auto simp: link_lost_def)

lemma encode_readable:
  assumes enc: "encode_cells cells wire_hyperlinks_new = (columns, w)"
    and norm: "normalize_wire_cells cells wire_hyperlinks_new = (lost, cells', wx)"
    and small: "\<forall>c \<in> set cells. str_len (tc_text c) \<le> 256"
  shows "\<exists>nums. columns = columns_of cells nums \<and> readable cells nums (wl_values w) cells' \<and> wire_inv w"
proof -
  obtain nums w1 where nums: "link_numbers cells wire_hyperlinks_new = (nums, w1)" by fastforce
  have columns: "columns = columns_of cells nums" "w = w1" using enc encode_cells_columns [OF nums] by auto
  note spec = cells_numbers [OF wire_inv_new nums norm]
  have ats: "list_all2 (\<lambda>num c. link_at (wl_values w1) num = Inr (tc_hyperlink c)) nums cells'" using spec by simp
  have lost: "list_all2 link_lost cells cells'" using normalize_wire_cells_spec [OF wire_inv_new norm] by simp
  have "length nums = length cells" using length_link_numbers [of cells wire_hyperlinks_new] nums by simp
  with ats lost small columns spec have "readable cells nums (wl_values w) cells' \<and> wire_inv w"
    by (auto simp: readable_def list_all2_conv_all_nth intro: link_lost_same)
  with columns show ?thesis by blast
qed

section \<open>Frames come back\<close>

definition texts_ok :: "terminal_cell list \<Rightarrow> bool" where
  "texts_ok cells \<longleftrightarrow> (\<forall>c \<in> set cells. str_len (tc_text c) \<le> MAX_TERMINAL_CELL_TEXT_BYTES)"

fun wire_frame_ok :: "view_frame \<Rightarrow> bool" where
  "wire_frame_ok (Full view) \<longleftrightarrow> texts_ok (tv_cells view)
     \<and> length (tv_cells view) = unat (ts_rows (tv_size view)) * unat (ts_columns (tv_size view))
     \<and> length (tv_cells view) \<le> MAX_TERMINAL_CELLS"
| "wire_frame_ok (Delta delta) \<longleftrightarrow> texts_ok (concat (map cr_cells (vd_runs delta)))
     \<and> length (concat (map cr_cells (vd_runs delta))) \<le> MAX_TERMINAL_CELLS"

lemma view_roundtrip:
  assumes ok: "wire_frame_ok (Full view)"
    and norm: "normalize_wire_cells (tv_cells view) wire_hyperlinks_new = (lost, cells', wx)"
  shows "decode_view (encode_view view) = Some (Inr (view\<lparr>tv_cells := cells'\<rparr>))"
proof -
  let ?cells = "tv_cells view"
  obtain columns w where enc: "encode_cells ?cells wire_hyperlinks_new = (columns, w)" by fastforce
  from encode_readable [OF enc norm] ok obtain nums where
    columns: "columns = columns_of ?cells nums" and read: "readable ?cells nums (wl_values w) cells'" and inv: "wire_inv w"
    by (auto simp: texts_ok_def MAX_TERMINAL_CELL_TEXT_BYTES_def)
  have lens: "length nums = length ?cells" "length cells' = length ?cells" using read by (simp_all add: readable_def)
  have cells: "read_cells (length ?cells) (reader_at ?cells nums (wl_values w) 0)
      = Some (Inr (cells', reader_at ?cells nums (wl_values w) (length ?cells)))"
    using read_cells_at [OF read, of 0 "length ?cells"] lens by simp
  show ?thesis
    using ok enc columns cells reader_new_at [OF lens(1) refl, of "wl_values w"] reader_finish_at [of ?cells nums "wl_values w"]
      decode_hyperlinks_inv [OF inv]
    by (simp add: decode_view_def encode_view_def required_field_def Let_def not_less)
qed

lemma count_run_cells_exact:
  "n + sum_list (map unat lens) \<le> MAX_TERMINAL_CELLS \<Longrightarrow> count_run_cells n lens = Inr (n + sum_list (map unat lens))"
  by (induction n lens rule: count_run_cells.induct) (simp_all add: Let_def)

text \<open>Cells dealt out to runs of given lengths.\<close>

fun split_runs :: "cell_run list \<Rightarrow> terminal_cell list \<Rightarrow> cell_run list" where
  "split_runs [] cells = []"
| "split_runs (run # runs) cells =
     run\<lparr>cr_cells := take (length (cr_cells run)) cells\<rparr> # split_runs runs (drop (length (cr_cells run)) cells)"

lemma read_runs_at:
  assumes read: "readable cells nums table cells'"
    and lens: "\<And>run. run \<in> set runs \<Longrightarrow> length (cr_cells run) < 2 ^ 32"
  shows "i + length (concat (map cr_cells runs)) \<le> length cells \<Longrightarrow>
    read_runs (zip (map cr_start runs) (map (\<lambda>run. of_nat (length (cr_cells run))) runs)) (reader_at cells nums table i)
    = Some (Inr (split_runs runs (drop i cells'), reader_at cells nums table (i + length (concat (map cr_cells runs)))))"
  using lens
proof (induction runs arbitrary: i)
  case (Cons run runs)
  let ?n = "length (cr_cells run)"
  have len: "unat (of_nat ?n :: u32) = ?n"
    using Cons.prems(2) [of run] by (simp only: unsigned_of_nat) (simp add: take_bit_nat_eq_self)
  have fits: "i + ?n \<le> length cells" using Cons.prems(1) by simp
  have rest: "read_runs (zip (map cr_start runs) (map (\<lambda>run. of_nat (length (cr_cells run))) runs)) (reader_at cells nums table (i + ?n))
    = Some (Inr (split_runs runs (drop (i + ?n) cells'), reader_at cells nums table (i + ?n + length (concat (map cr_cells runs)))))"
    using Cons.prems by (intro Cons.IH) auto
  show ?case using read_cells_at [OF read fits] rest by (simp add: len ac_simps)
qed simp

lemma normalize_wire_cells_append:
  "normalize_wire_cells xs w = (l1, xs', w1) \<Longrightarrow> normalize_wire_cells ys w1 = (l2, ys', w2) \<Longrightarrow>
   normalize_wire_cells (xs @ ys) w = (l1 \<or> l2, xs' @ ys', w2)"
proof (induction xs arbitrary: w l1 xs')
  case (Cons cell xs)
  obtain la ca wa where one: "normalize_cell cell w = (la, ca, wa)" by (metis prod_cases3)
  obtain lb csb wb where two: "normalize_wire_cells xs wa = (lb, csb, wb)" by (metis prod_cases3)
  have "wb = w1" using Cons.prems(1) one two by simp
  from Cons.IH [OF two [unfolded this] Cons.prems(2)] Cons.prems(1) one two show ?case by auto
qed simp

lemma normalize_wire_cells_length: "normalize_wire_cells xs w = (l, xs', w') \<Longrightarrow> length xs' = length xs"
proof (induction xs arbitrary: w l xs')
  case (Cons cell xs)
  obtain la ca wa where one: "normalize_cell cell w = (la, ca, wa)" by (metis prod_cases3)
  obtain lb csb wb where two: "normalize_wire_cells xs wa = (lb, csb, wb)" by (metis prod_cases3)
  have "wb = w'" "xs' = ca # csb" using Cons.prems one two by simp_all
  with Cons.IH [of wa lb csb] two show ?case by simp
qed simp

lemma split_runs_normalized:
  "normalize_wire_cells (concat (map cr_cells runs)) w = (lost, cells', w') \<Longrightarrow>
   normalize_wire_runs runs w = (lost, split_runs runs cells', w')"
proof (induction runs arbitrary: w lost cells')
  case (Cons run runs)
  obtain l1 c1 w1 where one: "normalize_wire_cells (cr_cells run) w = (l1, c1, w1)" by (metis prod_cases3)
  obtain l2 c2 w2 where two: "normalize_wire_cells (concat (map cr_cells runs)) w1 = (l2, c2, w2)" by (metis prod_cases3)
  have parts: "lost = (l1 \<or> l2)" "cells' = c1 @ c2" "w' = w2"
    using Cons.prems normalize_wire_cells_append [OF one two] by simp_all
  show ?case
    using Cons.IH [OF two [folded parts(3)]] one normalize_wire_cells_length [OF one] by (simp add: parts)
qed simp

lemma length_run_le: "run \<in> set runs \<Longrightarrow> length (cr_cells run) \<le> length (concat (map cr_cells runs))"
  by (induction runs) auto

lemma delta_roundtrip:
  assumes ok: "wire_frame_ok (Delta delta)"
    and norm: "normalize_wire_runs (vd_runs delta) wire_hyperlinks_new = (lost, runs, wx)"
  shows "decode_delta (encode_delta delta) = Some (Inr (delta\<lparr>vd_runs := runs\<rparr>))"
proof -
  let ?runs = "vd_runs delta"
  let ?cells = "concat (map cr_cells ?runs)" and ?lens = "map (\<lambda>run. of_nat (length (cr_cells run)) :: u32) (vd_runs delta)"
  obtain columns w where enc: "encode_cells ?cells wire_hyperlinks_new = (columns, w)" by fastforce
  obtain l cells' wy where flat: "normalize_wire_cells ?cells wire_hyperlinks_new = (l, cells', wy)" by (metis prod_cases3)
  have runs: "runs = split_runs ?runs cells'" using split_runs_normalized [OF flat] norm by simp
  from encode_readable [OF enc flat] ok obtain nums where
    columns: "columns = columns_of ?cells nums" and read: "readable ?cells nums (wl_values w) cells'" and inv: "wire_inv w"
    by (auto simp: texts_ok_def MAX_TERMINAL_CELL_TEXT_BYTES_def)
  have lens: "length nums = length ?cells" using read by (simp add: readable_def)
  have bound: "length (cr_cells run) < 2 ^ 32" if "run \<in> set ?runs" for run
    using length_run_le [OF that] ok by (simp add: MAX_TERMINAL_CELLS_def)
  have read_runs: "read_runs (zip (map cr_start ?runs) ?lens) (reader_at ?cells nums (wl_values w) 0)
      = Some (Inr (runs, reader_at ?cells nums (wl_values w) (length ?cells)))"
    using read_runs_at [OF read, of ?runs 0] bound runs by simp
  have "map unat ?lens = map (\<lambda>run. length (cr_cells run)) ?runs"
    using bound by (simp add: unsigned_of_nat take_bit_nat_eq_self)
  then have total: "sum_list (map unat ?lens) = length ?cells" by (simp only: length_concat map_map comp_def)
  have "count_run_cells 0 ?lens = Inr (length ?cells)"
    using count_run_cells_exact [of 0 ?lens] ok unfolding total by simp
  then show ?thesis
    using enc columns read_runs reader_new_at [OF lens refl, of "wl_values w"] reader_finish_at [of ?cells nums "wl_values w"]
      decode_hyperlinks_inv [OF inv]
    by (simp add: decode_delta_def encode_delta_def required_field_def)
qed



section \<open>What a decoder accepts\<close>

text \<open>A reader whose columns have the given number of cells, and stands before the last of them.\<close>

definition reader_ok :: "nat \<Rightarrow> cell_reader \<Rightarrow> bool" where
  "reader_ok n r \<longleftrightarrow> length (pl_text_len (cv_columns r)) = n \<and> length (pl_foreground (cv_columns r)) = n
     \<and> length (pl_background (cv_columns r)) = n"

definition cell_ok :: "rstr list \<Rightarrow> terminal_cell \<Rightarrow> bool" where
  "cell_ok table c \<longleftrightarrow> str_len (tc_text c) \<le> MAX_TERMINAL_CELL_TEXT_BYTES
     \<and> (\<forall>u. tc_hyperlink c = Some u \<longrightarrow> u \<in> set table)"

lemma bind_try_cases:
  "bind_try m f = Some (Inr y) \<longleftrightarrow> (\<exists>x. m = Some (Inr x) \<and> f x = Some (Inr y))"
  "bind_try m f = None \<longleftrightarrow> m = None \<or> (\<exists>x. m = Some (Inr x) \<and> f x = None)"
  by (induction m f rule: bind_try.induct) auto

lemma next_cell_total:
  assumes "reader_ok n r" and "cv_index r < n"
  shows "next_cell r \<noteq> None"
proof
  assume "next_cell r = None"
  with assms show False
    by (auto simp: next_cell_def reader_ok_def column_at_def bind_try_cases Let_def split: option.splits if_splits)
qed

lemma next_cell_ok:
  assumes "next_cell r = Some (Inr (c, r'))"
  shows "cell_ok (cv_hyperlinks r) c \<and> cv_columns r' = cv_columns r \<and> cv_hyperlinks r' = cv_hyperlinks r
    \<and> cv_index r' = Suc (cv_index r)"
  using assms
  by (auto simp: next_cell_def bind_try_cases Let_def cell_ok_def link_at_def dest: str_get_len
      split: option.splits if_splits)

lemma read_cells_total: "reader_ok n r \<Longrightarrow> cv_index r + k \<le> n \<Longrightarrow> read_cells k r \<noteq> None"
proof (induction k arbitrary: r)
  case (Suc k)
  have "next_cell r \<noteq> None" by (rule next_cell_total [OF Suc.prems(1)]) (use Suc.prems(2) in simp)
  moreover have "read_cells k r' \<noteq> None" if "next_cell r = Some (Inr (c, r'))" for c r'
    using Suc.IH [of r'] Suc.prems next_cell_ok [OF that] by (simp add: reader_ok_def)
  ultimately show ?case by (auto simp: bind_try_cases)
qed simp

lemma read_cells_ok:
  "read_cells k r = Some (Inr (cells, r')) \<Longrightarrow> length cells = k \<and> (\<forall>c \<in> set cells. cell_ok (cv_hyperlinks r) c)
   \<and> cv_columns r' = cv_columns r \<and> cv_hyperlinks r' = cv_hyperlinks r \<and> cv_index r' = cv_index r + k"
proof (induction k arbitrary: r cells)
  case (Suc k)
  from Suc.prems obtain c r1 cs where one: "next_cell r = Some (Inr (c, r1))"
    and two: "read_cells k r1 = Some (Inr (cs, r'))" and cells: "cells = c # cs"
    by (auto simp: bind_try_cases)
  from next_cell_ok [OF one] Suc.IH [OF two] cells show ?case by auto
qed auto

lemma count_run_cells_ok:
  "count_run_cells n lens = Inr k \<Longrightarrow> k = n + sum_list (map unat lens) \<and> (k \<le> MAX_TERMINAL_CELLS \<or> k = n)"
  by (induction n lens rule: count_run_cells.induct) (auto simp: Let_def split: if_splits)

lemma count_run_cells_bound:
  assumes "count_run_cells 0 lens = Inr k"
  shows "k = sum_list (map unat lens)" and "k \<le> MAX_TERMINAL_CELLS"
  using count_run_cells_ok [OF assms] by (simp, metis le0)

lemma reader_new_ok:
  "cell_reader_new columns table n = Inr r \<Longrightarrow> reader_ok n r \<and> cv_index r = 0 \<and> cv_hyperlinks r = table"
  by (auto simp: cell_reader_new_def reader_ok_def split: if_splits)

lemma read_runs_total:
  "reader_ok n r \<Longrightarrow> cv_index r + sum_list (map (unat \<circ> snd) runs) \<le> n \<Longrightarrow> read_runs runs r \<noteq> None"
proof (induction runs arbitrary: r)
  case (Cons pair rest)
  obtain start len where pair: "pair = (start, len)" by fastforce
  have "read_cells (unat len) r \<noteq> None" by (rule read_cells_total [OF Cons.prems(1)]) (use Cons.prems(2) pair in simp)
  moreover have "read_runs rest r' \<noteq> None" if "read_cells (unat len) r = Some (Inr (cells, r'))" for cells r'
    using Cons.IH [of r'] Cons.prems read_cells_ok [OF that] pair by (simp add: reader_ok_def)
  ultimately show ?case using pair by (auto simp: bind_try_cases)
qed simp

lemma read_runs_ok:
  "read_runs pairs r = Some (Inr (runs, r')) \<Longrightarrow>
   (\<forall>c \<in> set (concat (map cr_cells runs)). cell_ok (cv_hyperlinks r) c)
   \<and> length (concat (map cr_cells runs)) = sum_list (map (unat \<circ> snd) pairs)"
proof (induction pairs arbitrary: r runs)
  case (Cons pair rest)
  obtain start len where pair: "pair = (start, len)" by fastforce
  from Cons.prems obtain cells r1 rs where one: "read_cells (unat len) r = Some (Inr (cells, r1))"
    and two: "read_runs rest r1 = Some (Inr (rs, r'))" and runs: "runs = \<lparr>cr_start = start, cr_cells = cells\<rparr> # rs"
    by (auto simp: pair bind_try_cases)
  from read_cells_ok [OF one] Cons.IH [OF two] runs show ?case by (auto simp: pair)
qed simp

text \<open>\<open>enum_or\<close> never lets the unspecified value through.\<close>

lemma enum_or_member:
  assumes "enum_or (enum_try_from (unspecified # members)) raw field fallback = Inr t" and "fallback \<in> set members"
  shows "t \<in> set members"
proof (cases "unat raw")
  case 0
  with assms show ?thesis by (simp add: unat_eq_zero enum_or_def enum_value_def)
next
  case (Suc k)
  then have "raw \<noteq> 0" by auto
  with assms Suc show ?thesis
    by (auto simp: enum_or_def enum_value_def enum_try_from_def split: if_splits)
qed

lemma decode_mouse_tracking_total [simp]: "decode_mouse_tracking raw \<noteq> None"
proof -
  have "t \<noteq> PbTrackUnspecified" if "enum_or tracking_try_from raw ''mouse tracking'' PbTrackNone = Inr t" for t
    using enum_or_member [OF that [unfolded tracking_try_from_def]] by auto
  then show ?thesis
    unfolding decode_mouse_tracking_def bind_try_cases by (auto split: pb_tracking.splits)
qed

lemma decode_cursor_total [simp]: "decode_cursor c \<noteq> None"
proof -
  have "t \<noteq> PbShapeUnspecified" if "enum_or shape_try_from (pc_shape c) ''cursor shape'' PbShapeBlock = Inr t" for t
    using enum_or_member [OF that [unfolded shape_try_from_def]] by auto
  then show ?thesis
    unfolding decode_cursor_def bind_try_cases by (auto split: pb_shape.splits)
qed

lemma decode_position_total [simp]: "decode_position p \<noteq> None"
proof -
  have "t \<noteq> PbSideUnspecified" if "enum_or side_try_from (pp_side p) ''selection side'' PbSideLeft = Inr t" for t
    using enum_or_member [OF that [unfolded side_try_from_def]] by auto
  then show ?thesis
    unfolding decode_position_def bind_try_cases by (auto split: pb_side.splits)
qed

lemma decode_selection_total [simp]: "decode_selection s \<noteq> None"
  unfolding decode_selection_def bind_try_cases by auto

lemma map_transpose_None: "map_transpose f v = None \<longleftrightarrow> (\<exists>x. v = Some x \<and> f x = None)"
  by (cases v) (simp_all add: map_transpose_def bind_try_cases)

definition links_within :: "rstr list \<Rightarrow> bool" where
  "links_within uris \<longleftrightarrow> length uris \<le> MAX_TERMINAL_HYPERLINKS
     \<and> (\<forall>u \<in> set uris. str_len u \<le> MAX_TERMINAL_HYPERLINK_URI_BYTES)
     \<and> sum_list (map str_len uris) \<le> MAX_TERMINAL_HYPERLINK_BYTES"

lemma decode_view_total [simp]: "decode_view pb \<noteq> None"
proof
  assume "decode_view pb = None"
  then obtain columns uris n r where "cell_reader_new columns uris n = Inr r" "read_cells n r = None"
    unfolding decode_view_def bind_try_cases Let_def by (auto simp: map_transpose_None bind_try_cases split: if_splits)
  with reader_new_ok [of columns uris n r] read_cells_total [of n r n] show False by simp
qed

lemma run_lengths: "length starts = length lens \<Longrightarrow> sum_list (map (unat \<circ> snd) (zip starts lens)) = sum_list (map unat lens)"
  by (metis map_map map_snd_zip)

lemma decode_delta_total [simp]: "decode_delta pb \<noteq> None"
proof
  assume "decode_delta pb = None"
  then obtain columns uris n r where lens: "length (pd_run_start pb) = length (pd_run_len pb)"
    and n: "count_run_cells 0 (pd_run_len pb) = Inr n"
    and reader: "cell_reader_new columns uris n = Inr r" "read_runs (zip (pd_run_start pb) (pd_run_len pb)) r = None"
    unfolding decode_delta_def bind_try_cases by (auto simp: map_transpose_None bind_try_cases split: if_splits)
  have "cv_index r + sum_list (map (unat \<circ> snd) (zip (pd_run_start pb) (pd_run_len pb))) \<le> n"
    using reader_new_ok [OF reader(1)] count_run_cells_ok [OF n] run_lengths [OF lens] by simp
  with reader_new_ok [OF reader(1)] read_runs_total reader(2) show False by blast
qed

text \<open>The cells of a frame, and what a frame from a peer is held to.\<close>

fun frame_cells :: "view_frame \<Rightarrow> terminal_cell list" where
  "frame_cells (Full view) = tv_cells view"
| "frame_cells (Delta delta) = concat (map cr_cells (vd_runs delta))"

fun frame_grid_ok :: "view_frame \<Rightarrow> bool" where
  "frame_grid_ok (Full view) \<longleftrightarrow>
     length (tv_cells view) = unat (ts_rows (tv_size view)) * unat (ts_columns (tv_size view))"
| "frame_grid_ok (Delta delta) \<longleftrightarrow> True"

lemma decode_view_ok:
  assumes "decode_view pb = Some (Inr view)"
  shows "length (tv_cells view) \<le> MAX_TERMINAL_CELLS \<and> frame_grid_ok (Full view)
    \<and> (\<exists>uris. links_within uris \<and> (\<forall>c \<in> set (tv_cells view). cell_ok uris c))"
proof -
  from assms obtain size uris columns r cells r' where
    n: "unat (ts_rows size) * unat (ts_columns size) \<le> MAX_TERMINAL_CELLS"
    and uris: "decode_hyperlinks (pv_hyperlinks pb) = Inr uris"
    and reader: "cell_reader_new columns uris (unat (ts_rows size) * unat (ts_columns size)) = Inr r"
    and cells: "read_cells (unat (ts_rows size) * unat (ts_columns size)) r = Some (Inr (cells, r'))" "tv_cells view = cells" "tv_size view = size"
    unfolding decode_view_def bind_try_cases Let_def by (auto simp: bind_try_cases not_less split: if_splits)
  have "links_within uris" using uris by (simp add: decode_hyperlinks_exact links_within_def)
  then show ?thesis using n read_cells_ok [OF cells(1)] reader_new_ok [OF reader] cells(2,3) by auto
qed

lemma decode_delta_ok:
  assumes "decode_delta pb = Some (Inr delta)"
  shows "length (frame_cells (Delta delta)) \<le> MAX_TERMINAL_CELLS
    \<and> (\<exists>uris. links_within uris \<and> (\<forall>c \<in> set (frame_cells (Delta delta)). cell_ok uris c))"
proof -
  from assms obtain n uris columns r runs r' where
    lens: "length (pd_run_start pb) = length (pd_run_len pb)" and n: "count_run_cells 0 (pd_run_len pb) = Inr n"
    and uris: "decode_hyperlinks (pd_hyperlinks pb) = Inr uris"
    and reader: "cell_reader_new columns uris n = Inr r"
    and runs: "read_runs (zip (pd_run_start pb) (pd_run_len pb)) r = Some (Inr (runs, r'))" "vd_runs delta = runs"
    by (auto simp: decode_delta_def bind_try_cases split: if_splits)
  have "n = sum_list (map unat (pd_run_len pb))" "n \<le> MAX_TERMINAL_CELLS"
    using count_run_cells_bound [OF n] by simp_all
  then have "length (concat (map cr_cells runs)) \<le> MAX_TERMINAL_CELLS"
    using read_runs_ok [OF runs(1)] run_lengths [OF lens] by linarith
  moreover have "links_within uris" using uris by (simp add: decode_hyperlinks_exact links_within_def)
  ultimately show ?thesis using read_runs_ok [OF runs(1)] reader_new_ok [OF reader] runs(2) by auto
qed

text \<open>C33: No message a peer can send makes the decoding of a view frame panic, whatever its columns, lengths and
  numbers are. A frame it accepts holds at most 65536 cells (as many as its size says, when it is a
  full view), texts of at most 256 bytes, and links out of one table within the hyperlink limits.\<close>

theorem decoded_frame_bounded:
  "decode_view_frame pb \<noteq> None
   \<and> (decode_view_frame pb = Some (Inr frame) \<longrightarrow>
        length (frame_cells frame) \<le> 65536 \<and> frame_grid_ok frame
        \<and> (\<exists>uris. links_within uris \<and> (\<forall>c \<in> set (frame_cells frame). cell_ok uris c)))"
proof
  show "decode_view_frame pb \<noteq> None"
    unfolding decode_view_frame_def by (auto simp: bind_try_cases(2) simp del: not_None_eq split: option.split pb_frame.split)
  show "decode_view_frame pb = Some (Inr frame) \<longrightarrow>
        length (frame_cells frame) \<le> 65536 \<and> frame_grid_ok frame
        \<and> (\<exists>uris. links_within uris \<and> (\<forall>c \<in> set (frame_cells frame). cell_ok uris c))"
    using decode_view_ok decode_delta_ok
    by (fastforce simp: decode_view_frame_def bind_try_cases MAX_TERMINAL_CELLS_def split: option.splits pb_frame.splits)
qed

text \<open>A full view of one row of two cells, the second carrying a link.\<close>

definition linked_view :: terminal_view where
  "linked_view = (demo_view 7 [])\<lparr>tv_size := \<lparr>ts_rows = 1, ts_columns = 2, ts_cell_width = 0, ts_cell_height = 0\<rparr>,
     tv_cells := [demo_cell 97, link_cell [104]]\<rparr>"

theorem decoded_frame_bounded_witness:
  "decode_view_frame (encode_view_frame (Full linked_view)) = Some (Inr (Full linked_view))
   \<and> length (frame_cells (Full linked_view)) \<le> 65536"
proof -
  have "wire_frame_ok (Full linked_view)"
    by (simp add: linked_view_def demo_view_def demo_cell_def link_cell_def texts_ok_def str_len_def str_bytes_def utf8_bytes_def
        MAX_TERMINAL_CELL_TEXT_BYTES_def MAX_TERMINAL_CELLS_def)
  moreover have "normalize_wire_cells (tv_cells linked_view) wire_hyperlinks_new
      = (False, tv_cells linked_view, wire_add [104] wire_hyperlinks_new)"
    by (simp add: linked_view_def link_cell_def demo_cell_def normalize_cell_def intern_by_value_def wire_hyperlinks_new_def
        wire_add_def checked_add_usize_def usize_max_def str_len_def str_bytes_def utf8_bytes_def Let_def
        MAX_TERMINAL_HYPERLINK_URI_BYTES_def MAX_TERMINAL_HYPERLINK_BYTES_def)
  ultimately have "decode_view (encode_view linked_view) = Some (Inr (linked_view\<lparr>tv_cells := tv_cells linked_view\<rparr>))"
    by (rule view_roundtrip)
  then have "decode_view_frame (encode_view_frame (Full linked_view)) = Some (Inr (Full linked_view))"
    by (simp add: decode_view_frame_def)
  with decoded_frame_bounded [of "encode_view_frame (Full linked_view)" "Full linked_view"] show ?thesis by blast
qed

end
