(* ===== verification/Terminal_Merge.thy ===== *)
theory Terminal_Merge
  imports Hyperlink_Budget
begin

text \<open>
  Merging two terminal frames into one (\<open>condr-client/src/frames.rs\<close>): what a Client does with
  frames that arrive faster than it draws. An \<open>Err(())\<close>, which tells the Client to resynchronise, is
  \<open>Inl ()\<close>. The \<open>BTreeMap\<close> of changed cells is an association list in key order.
\<close>

section \<open>The code\<close>

fun frame_revision :: "view_frame \<Rightarrow> u64" where
  "frame_revision (Full view) = tv_revision view"
| "frame_revision (Delta delta) = vd_revision delta"

definition checked_add_u32 :: "u32 \<Rightarrow> u32 \<Rightarrow> u32 option" where
  "checked_add_u32 a b = (if unat a + unat b < 2 ^ 32 then Some (a + b) else None)"

fun check_run_shapes :: "cell_run list \<Rightarrow> unit + unit" where
  "check_run_shapes [] = Inr ()"
| "check_run_shapes (run # runs) =
     (case u32_of (length (cr_cells run)) of
        None \<Rightarrow> Inl ()
      | Some len \<Rightarrow>
          if cr_cells run = [] \<or> checked_add_u32 (cr_start run) len = None then Inl ()
          else check_run_shapes runs)"

definition check_terminal_delta_merge :: "view_delta \<Rightarrow> view_delta \<Rightarrow> unit + unit" where
  "check_terminal_delta_merge previous nxt =
     (if vd_revision previous \<noteq> vd_base_revision nxt then Inl ()
      else check_run_shapes (vd_runs previous @ vd_runs nxt))"

fun check_terminal_frame_merge :: "view_frame \<Rightarrow> view_frame \<Rightarrow> unit + unit" where
  "check_terminal_frame_merge _ (Full _) = Inr ()"
| "check_terminal_frame_merge (Full view) (Delta delta) =
     (case validate_delta view delta of Inl _ \<Rightarrow> Inl () | Inr _ \<Rightarrow> Inr ())"
| "check_terminal_frame_merge (Delta previous) (Delta nxt) = check_terminal_delta_merge previous nxt"

text \<open>\<open>BTreeMap::insert\<close>.\<close>

fun btree_insert :: "u32 \<Rightarrow> 'v \<Rightarrow> (u32 \<times> 'v) list \<Rightarrow> (u32 \<times> 'v) list" where
  "btree_insert k v [] = [(k, v)]"
| "btree_insert k v ((k', v') # m) =
     (if k < k' then (k, v) # (k', v') # m
      else if k = k' then (k, v) # m
      else (k', v') # btree_insert k v m)"

fun insert_cells ::
  "u32 \<Rightarrow> nat \<Rightarrow> terminal_cell list \<Rightarrow> (u32 \<times> terminal_cell) list \<Rightarrow> unit + (u32 \<times> terminal_cell) list" where
  "insert_cells start offset [] m = Inr m"
| "insert_cells start offset (cell # cells) m =
     (case u32_of offset of
        None \<Rightarrow> Inl ()
      | Some off \<Rightarrow>
          (case checked_add_u32 start off of
             None \<Rightarrow> Inl ()
           | Some index \<Rightarrow> insert_cells start (offset + 1) cells (btree_insert index cell m)))"

definition group_cell :: "u32 \<times> terminal_cell \<Rightarrow> cell_run list \<Rightarrow> unit + cell_run list" where
  "group_cell entry runs =
     (let (index, cell) = entry; fresh = Inr (runs @ [\<lparr>cr_start = index, cr_cells = [cell]\<rparr>]) in
      if runs = [] then fresh
      else let run = last runs in
        case u32_of (length (cr_cells run)) of
          None \<Rightarrow> Inl ()
        | Some len \<Rightarrow>
            if checked_add_u32 (cr_start run) len = Some index
            then Inr (butlast runs @ [run\<lparr>cr_cells := cr_cells run @ [cell]\<rparr>])
            else fresh)"

definition merge_terminal_deltas :: "view_delta \<Rightarrow> view_delta \<Rightarrow> unit + view_delta" where
  "merge_terminal_deltas previous nxt =
     bind_ok (check_terminal_delta_merge previous nxt) (\<lambda>_.
     bind_ok (fold_ok (\<lambda>run. insert_cells (cr_start run) 0 (cr_cells run)) (vd_runs previous @ vd_runs nxt) []) (\<lambda>cells.
     bind_ok (fold_ok group_cell cells []) (\<lambda>runs.
       Inr \<lparr>vd_base_revision = vd_base_revision previous, vd_revision = vd_revision nxt,
         vd_display_offset = vd_display_offset nxt, vd_mouse_tracking = vd_mouse_tracking nxt,
         vd_cursor = vd_cursor nxt, vd_selection = vd_selection nxt, vd_runs = runs\<rparr>)))"

fun next_adds_links :: "view_frame \<Rightarrow> bool" where
  "next_adds_links (Delta delta) = delta_has_links delta"
| "next_adds_links (Full _) = False"

definition merge_terminal_frames :: "view_frame \<Rightarrow> view_frame \<Rightarrow> unit + view_frame" where
  "merge_terminal_frames previous nxt =
     bind_ok
       (case nxt of
          Full view \<Rightarrow> Inr (Full view)
        | Delta delta \<Rightarrow>
            (case previous of
               Full view \<Rightarrow>
                 (case apply_frame (Delta delta) view of Inl _ \<Rightarrow> Inl () | Inr view \<Rightarrow> Inr (Full view))
             | Delta previous \<Rightarrow> bind_ok (merge_terminal_deltas previous delta) (\<lambda>delta. Inr (Delta delta))))
       (\<lambda>merged. Inr (if next_adds_links nxt then snd (normalize_hyperlinks_for_wire merged) else merged))"

section \<open>The ordered map\<close>

definition ordered_keys :: "(u32 \<times> 'v) list \<Rightarrow> bool" where
  "ordered_keys m \<longleftrightarrow> sorted_wrt (<) (map fst m)"

lemma map_of_btree_insert: "map_of (btree_insert k v m) = (map_of m)(k \<mapsto> v)" if "ordered_keys m"
  using that
proof (induction k v m rule: btree_insert.induct)
  case (2 k v k' v' m)
  have "map_of m k = None" if "k < k'"
    using 2(2) that by (auto simp: ordered_keys_def map_of_eq_None_iff)
  with 2 show ?case by (auto simp: ordered_keys_def fun_upd_twist)
qed simp

lemma set_btree_insert: "fst ` set (btree_insert k v m) = insert k (fst ` set m)"
  by (induction k v m rule: btree_insert.induct) auto

lemma ordered_btree_insert: "ordered_keys m \<Longrightarrow> ordered_keys (btree_insert k v m)"
proof (induction k v m rule: btree_insert.induct)
  case (2 k v k' v' m)
  have keys: "fst ` set (btree_insert k v m) = insert k (fst ` set m)" by (rule set_btree_insert)
  show ?case
    using 2 keys by (auto simp: ordered_keys_def)
qed (simp add: ordered_keys_def)

section \<open>Collecting the cells\<close>

definition run_stop :: "cell_run \<Rightarrow> nat" where
  "run_stop run = unat (cr_start run) + length (cr_cells run)"

definition shaped :: "cell_run list \<Rightarrow> bool" where
  "shaped runs \<longleftrightarrow> (\<forall>run \<in> set runs. cr_cells run \<noteq> [] \<and> run_stop run < 2 ^ 32)"

lemma unat_of_nat_u32: "n < 2 ^ 32 \<Longrightarrow> unat (of_nat n :: u32) = n"
  by (simp only: unsigned_of_nat) (simp add: take_bit_nat_eq_self)

lemma u32_of_Some: "u32_of n = Some k \<longleftrightarrow> n < 2 ^ 32 \<and> k = of_nat n"
  by (auto simp: u32_of_def)

lemma checked_add_u32_Some: "checked_add_u32 a b = Some c \<longleftrightarrow> unat a + unat b < 2 ^ 32 \<and> c = a + b"
  by (auto simp: checked_add_u32_def)

lemma unat_checked_add: "checked_add_u32 a b = Some c \<Longrightarrow> unat c = unat a + unat b"
  by (simp add: checked_add_u32_Some unat_word_ariths)

lemma run_shape_fits:
  "u32_of (length (cr_cells run)) = Some len \<Longrightarrow> checked_add_u32 (cr_start run) len \<noteq> None \<longleftrightarrow> run_stop run < 2 ^ 32"
  by (auto simp: u32_of_Some checked_add_u32_def unat_of_nat_u32 run_stop_def)

lemma check_run_shapes_exact: "check_run_shapes runs = Inr () \<longleftrightarrow> shaped runs"
proof (induction runs)
  case (Cons run runs)
  show ?case
  proof (cases "u32_of (length (cr_cells run))")
    case None
    then have "\<not> run_stop run < 2 ^ 32" by (auto simp: u32_of_def run_stop_def split: if_splits)
    with None show ?thesis by (simp add: shaped_def)
  next
    case (Some len)
    with Cons.IH run_shape_fits [OF Some] show ?thesis by (auto simp: shaped_def)
  qed
qed (simp add: shaped_def)

lemma insert_cells_spec:
  "unat start + offset + length cells < 2 ^ 32 \<Longrightarrow> ordered_keys m \<Longrightarrow>
   \<exists>m'. insert_cells start offset cells m = Inr m' \<and> ordered_keys m'
     \<and> (\<forall>i. map_of m' i = (if unat start + offset \<le> unat i \<and> unat i < unat start + offset + length cells
          then Some (cells ! (unat i - (unat start + offset))) else map_of m i))"
proof (induction cells arbitrary: offset m)
  case (Cons cell cells)
  let ?index = "start + of_nat offset"
  have off: "u32_of offset = Some (of_nat offset)" using Cons.prems(1) by (simp add: u32_of_Some)
  have index: "checked_add_u32 start (of_nat offset) = Some ?index"
    using Cons.prems(1) by (simp add: checked_add_u32_Some unat_of_nat_u32)
  have unat: "unat ?index = unat start + offset"
    using unat_checked_add [OF index] Cons.prems(1) by (simp add: unat_of_nat_u32)
  have "unat start + (offset + 1) + length cells < 2 ^ 32" using Cons.prems(1) by simp
  from Cons.IH [OF this ordered_btree_insert [OF Cons.prems(2)], of ?index cell] obtain m' where
    m': "insert_cells start (offset + 1) cells (btree_insert ?index cell m) = Inr m'" "ordered_keys m'"
    and lookup: "\<And>i. map_of m' i = (if unat start + (offset + 1) \<le> unat i \<and> unat i < unat start + (offset + 1) + length cells
          then Some (cells ! (unat i - (unat start + (offset + 1)))) else map_of (btree_insert ?index cell m) i)" by blast
  have at: "i = ?index \<longleftrightarrow> unat i = unat start + offset" for i using unat by (metis word_unat_eq_iff)
  have "map_of m' i = (if unat start + offset \<le> unat i \<and> unat i < unat start + offset + length (cell # cells)
          then Some ((cell # cells) ! (unat i - (unat start + offset))) else map_of m i)" for i
  proof -
    note insert = map_of_btree_insert [OF Cons.prems(2), of ?index cell]
    show ?thesis
    proof (cases "unat i = unat start + offset")
      case True
      then have "i = ?index" using at by blast
      with True show ?thesis using lookup [of i] by (simp add: insert)
    next
      case False
      then have other: "map_of (btree_insert ?index cell m) i = map_of m i" using at by (simp add: insert)
      show ?thesis
      proof (cases "unat start + offset < unat i")
        case True
        then have "unat i - (unat start + offset) = Suc (unat i - (unat start + (offset + 1)))" by simp
        with True show ?thesis using lookup [of i] other by simp
      next
        case le: False
        with False show ?thesis using lookup [of i] other by simp
      qed
    qed
  qed
  moreover have "insert_cells start offset (cell # cells) m = Inr m'" using off index m'(1) by simp
  ultimately show ?case using m'(2) by blast
qed auto

lemma collect_spec:
  "shaped runs \<Longrightarrow> ordered_keys m \<Longrightarrow>
   \<exists>m'. fold_ok (\<lambda>run. insert_cells (cr_start run) 0 (cr_cells run)) runs m = Inr m' \<and> ordered_keys m'
     \<and> (\<forall>i. map_of m' i = (case runs_at runs (unat i) of Some c \<Rightarrow> Some c | None \<Rightarrow> map_of m i))"
proof (induction runs arbitrary: m)
  case (Cons run runs)
  have "unat (cr_start run) + 0 + length (cr_cells run) < 2 ^ 32"
    using Cons.prems(1) by (simp add: shaped_def run_stop_def)
  from insert_cells_spec [OF this Cons.prems(2)] obtain m1 where
    m1: "insert_cells (cr_start run) 0 (cr_cells run) m = Inr m1" "ordered_keys m1"
    and at: "\<And>i. map_of m1 i = (if covers run (unat i) then Some (run_cell run (unat i)) else map_of m i)"
    by (fastforce simp: covers_def run_cell_def)
  have "shaped runs" using Cons.prems(1) by (simp add: shaped_def)
  from Cons.IH [OF this m1(2)] obtain m' where
    m': "fold_ok (\<lambda>run. insert_cells (cr_start run) 0 (cr_cells run)) runs m1 = Inr m'" "ordered_keys m'"
    and rest: "\<And>i. map_of m' i = (case runs_at runs (unat i) of Some c \<Rightarrow> Some c | None \<Rightarrow> map_of m1 i)" by blast
  have "map_of m' i = (case runs_at (run # runs) (unat i) of Some c \<Rightarrow> Some c | None \<Rightarrow> map_of m i)" for i
    using rest [of i] at [of i] by (cases "runs_at runs (unat i)") simp_all
  with m1(1) m' show ?case by auto
qed simp

section \<open>Grouping them into runs\<close>

definition runs_stop :: "nat \<Rightarrow> cell_run list \<Rightarrow> nat" where
  "runs_stop n runs = (if runs = [] then n else run_stop (last runs))"

lemma runs_ordered_snoc:
  "runs_ordered limit n (runs @ [run]) \<longleftrightarrow>
     runs_ordered limit n runs \<and> runs_stop n runs \<le> unat (cr_start run) \<and> cr_cells run \<noteq> [] \<and> run_stop run \<le> limit"
  by (induction limit n runs rule: runs_ordered.induct) (auto simp: runs_stop_def run_stop_def)

definition grouped :: "(u32 \<times> terminal_cell) list \<Rightarrow> cell_run list \<Rightarrow> bool" where
  "grouped m runs \<longleftrightarrow> (\<forall>limit. (\<forall>i \<in> fst ` set m. unat i < limit) \<longrightarrow> runs_ordered limit 0 runs)
     \<and> (\<forall>n. runs_at runs n = (if n < 2 ^ 32 then map_of m (of_nat n) else None))"

lemma runs_at_snoc: "runs_at (runs @ [run]) n = (if covers run n then Some (run_cell run n) else runs_at runs n)"
  by (simp add: runs_at_append)

lemma map_of_snoc: "k \<notin> fst ` set m \<Longrightarrow> map_of (m @ [(k, v)]) = (map_of m)(k \<mapsto> v)"
  by (auto simp: fun_eq_iff map_add_def split: option.splits dest: map_of_SomeD intro: rev_image_eqI)

lemma of_nat_u32_eq: "n < 2 ^ 32 \<Longrightarrow> of_nat n = (index :: u32) \<longleftrightarrow> n = unat index"
  using unat_of_nat_u32 by fastforce

text \<open>One more cell, after all the keys so far: it extends the last run or starts one of its own.\<close>

lemma group_cell_spec:
  assumes grouped: "grouped m runs" and above: "\<And>k. k \<in> fst ` set m \<Longrightarrow> k < index"
  shows "\<exists>runs'. group_cell (index, cell) runs = Inr runs' \<and> grouped (m @ [(index, cell)]) runs'"
proof -
  have new: "index \<notin> fst ` set m" using above by blast
  have ordered: "runs_ordered (unat index) 0 runs"
    using grouped above by (simp add: grouped_def word_less_nat_alt)
  have ordered_limit: "runs_ordered limit 0 runs" if "unat index < limit" for limit
    using grouped above that unfolding grouped_def by (metis order.strict_trans word_less_nat_alt)
  have finish: "grouped (m @ [(index, cell)]) runs'"
    if "\<And>limit. unat index < limit \<Longrightarrow> runs_ordered limit 0 runs'"
      and at: "\<And>n. runs_at runs' n = (if n = unat index then Some cell else runs_at runs n)" for runs'
  proof -
    have "runs_at runs' n = (if n < 2 ^ 32 then map_of (m @ [(index, cell)]) (of_nat n) else None)" for n
      using at [of n] grouped of_nat_u32_eq [of n index] unsigned_less [of index, where 'a = nat]
      unfolding map_of_snoc [OF new] by (auto simp: grouped_def)
    with that(1) show ?thesis by (simp add: grouped_def)
  qed
  let ?single = "\<lparr>cr_start = index, cr_cells = [cell]\<rparr>"
  have fresh: "grouped (m @ [(index, cell)]) (runs @ [?single])"
  proof (rule finish)
    fix limit assume "unat index < limit"
    moreover have "runs_stop 0 runs \<le> unat index"
      using ordered by (cases runs rule: rev_cases) (simp_all add: runs_stop_def runs_ordered_snoc)
    ultimately show "runs_ordered limit 0 (runs @ [?single])"
      using ordered_limit by (simp add: runs_ordered_snoc run_stop_def)
  next
    show "runs_at (runs @ [?single]) n = (if n = unat index then Some cell else runs_at runs n)" for n
      by (auto simp: runs_at_snoc covers_def run_cell_def)
  qed
  show ?thesis
  proof (cases runs rule: rev_cases)
    case Nil
    with fresh show ?thesis by (simp add: group_cell_def)
  next
    case (snoc bs run)
    have stop: "run_stop run \<le> unat index" "cr_cells run \<noteq> []" using ordered snoc by (simp_all add: runs_ordered_snoc)
    have len: "u32_of (length (cr_cells run)) = Some (of_nat (length (cr_cells run)))"
      using stop unsigned_less [of index, where 'a = nat] by (simp add: u32_of_Some run_stop_def)
    have add: "checked_add_u32 (cr_start run) (of_nat (length (cr_cells run))) = Some index \<longleftrightarrow> run_stop run = unat index"
    proof -
      have "unat (of_nat (length (cr_cells run)) :: u32) = length (cr_cells run)"
        using len by (simp add: u32_of_Some unat_of_nat_u32)
      moreover have "run_stop run < 2 ^ 32" using stop unsigned_less [of index, where 'a = nat] by simp
      ultimately show ?thesis
        by (auto simp: checked_add_u32_Some run_stop_def word_unat_eq_iff unat_word_ariths)
    qed
    show ?thesis
    proof (cases "run_stop run = unat index")
      case False
      with fresh snoc len add show ?thesis by (simp add: group_cell_def)
    next
      case True
      let ?grown = "run\<lparr>cr_cells := cr_cells run @ [cell]\<rparr>"
      have "grouped (m @ [(index, cell)]) (bs @ [?grown])"
      proof (rule finish)
        fix limit assume "unat index < limit"
        with ordered_limit [of limit] True snoc show "runs_ordered limit 0 (bs @ [?grown])"
          by (simp add: runs_ordered_snoc run_stop_def)
      next
        fix n
        show "runs_at (bs @ [?grown]) n = (if n = unat index then Some cell else runs_at runs n)"
          using True snoc by (auto simp: runs_at_snoc covers_def run_cell_def run_stop_def nth_append)
      qed
      with True snoc len add show ?thesis by (simp add: group_cell_def)
    qed
  qed
qed

lemma group_spec:
  "grouped m runs \<Longrightarrow> ordered_keys (m @ rest) \<Longrightarrow>
   \<exists>runs'. fold_ok group_cell rest runs = Inr runs' \<and> grouped (m @ rest) runs'"
proof (induction rest arbitrary: m runs)
  case (Cons entry rest)
  obtain index cell where entry: "entry = (index, cell)" by fastforce
  have "k < index" if "k \<in> fst ` set m" for k
    using Cons.prems(2) that by (auto simp: ordered_keys_def entry sorted_wrt_append)
  from group_cell_spec [OF Cons.prems(1) this] obtain runs1 where
    one: "group_cell (index, cell) runs = Inr runs1" "grouped (m @ [(index, cell)]) runs1" by blast
  have "ordered_keys ((m @ [(index, cell)]) @ rest)" using Cons.prems(2) by (simp add: entry)
  from Cons.IH [OF one(2) this] one(1) show ?case by (simp add: entry)
qed simp

lemma grouped_empty: "grouped [] []"
  by (simp add: grouped_def)

text \<open>The merge succeeds exactly when the check says so, and its runs are ordered and hold the newest cells.\<close>

lemma merge_deltas_spec:
  assumes "check_terminal_delta_merge previous nxt = Inr ()"
  shows "\<exists>runs. merge_terminal_deltas previous nxt = Inr (nxt\<lparr>vd_base_revision := vd_base_revision previous, vd_runs := runs\<rparr>)
    \<and> (\<forall>n. runs_at runs n = runs_at (vd_runs previous @ vd_runs nxt) n)
    \<and> (\<forall>limit. runs_fit limit (vd_runs previous @ vd_runs nxt) \<longrightarrow> runs_ordered limit 0 runs)"
proof -
  let ?runs = "vd_runs previous @ vd_runs nxt"
  have shaped: "shaped ?runs"
    using assms check_run_shapes_exact by (auto simp: check_terminal_delta_merge_def split: if_splits)
  from collect_spec [OF shaped, of "[]"] obtain m where
    m: "fold_ok (\<lambda>run. insert_cells (cr_start run) 0 (cr_cells run)) ?runs [] = Inr m" "ordered_keys m"
    and at: "\<And>i. map_of m i = runs_at ?runs (unat i)"
    by (fastforce simp: ordered_keys_def split: option.splits)
  from group_spec [OF grouped_empty, of m] m(2) obtain runs where
    runs: "fold_ok group_cell m [] = Inr runs" "grouped m runs" by auto
  have inside: "n < 2 ^ 32" if some: "runs_at ?runs n = Some c" for n c
  proof -
    have "runs_at ?runs n \<noteq> None" using some by simp
    then obtain run where "run \<in> set ?runs" "covers run n" unfolding runs_at_None by blast
    moreover from this(1) shaped have "run_stop run < 2 ^ 32" by (simp only: shaped_def)
    ultimately show ?thesis by (simp add: covers_def run_stop_def)
  qed
  have "runs_at runs n = runs_at ?runs n" for n
  proof (cases "n < 2 ^ 32")
    case True
    with runs(2) at [of "of_nat n"] show ?thesis by (simp add: grouped_def unat_of_nat_u32)
  next
    case False
    with runs(2) inside [of n] show ?thesis by (cases "runs_at ?runs n") (auto simp: grouped_def)
  qed
  moreover have "runs_ordered limit 0 runs" if fit: "runs_fit limit ?runs" for limit
  proof -
    have "unat i < limit" if key: "i \<in> fst ` set m" for i
    proof -
      have "map_of m i \<noteq> None" using key by (simp add: map_of_eq_None_iff)
      then have "runs_at ?runs (unat i) \<noteq> None" using at by simp
      then obtain run where "run \<in> set ?runs" "covers run (unat i)" unfolding runs_at_None by blast
      moreover from this(1) fit have "unat (cr_start run) + length (cr_cells run) \<le> limit"
        by (simp only: runs_fit_def)
      ultimately show ?thesis by (simp add: covers_def)
    qed
    with runs(2) show ?thesis by (simp add: grouped_def)
  qed
  moreover have "merge_terminal_deltas previous nxt = Inr (nxt\<lparr>vd_base_revision := vd_base_revision previous, vd_runs := runs\<rparr>)"
    using assms m(1) runs(1) by (simp add: merge_terminal_deltas_def)
  ultimately show ?thesis by blast
qed

section \<open>A merged frame does what the two did\<close>

lemma applied_delta:
  assumes "apply_frame (Delta delta) view = Inr out" and "view_ok view"
  shows "runs_ordered (length (tv_cells view)) 0 (vd_runs delta)" and "vd_base_revision delta = tv_revision view"
    and "tv_revision view < vd_revision delta" and "out = apply_validated_delta delta view" and "view_ok out"
    and "length (tv_cells out) = length (tv_cells view)"
proof -
  have ok: "validate_runs (length (tv_cells view)) 0 (vd_runs delta) = Inr () \<longleftrightarrow>
      runs_ordered (length (tv_cells view)) 0 (vd_runs delta)"
    using view_ok_bounds [OF assms(2)] by (intro validate_runs_exact) simp
  from assms(1) ok show run: "runs_ordered (length (tv_cells view)) 0 (vd_runs delta)"
    "vd_base_revision delta = tv_revision view" "tv_revision view < vd_revision delta"
    "out = apply_validated_delta delta view"
    by (auto simp: apply_frame_def validate_delta_def not_le split: if_splits)
  show "length (tv_cells out) = length (tv_cells view)"
    using length_put_runs [OF runs_ordered_fit [OF run(1)]] run(4) by (simp add: apply_validated_delta_def)
  with assms(2) show "view_ok out" by (simp add: view_ok_def)
qed

lemma ordered_shaped: "runs_ordered limit n runs \<Longrightarrow> limit < 2 ^ 32 \<Longrightarrow> shaped runs"
  by (induction limit n runs rule: runs_ordered.induct) (auto simp: shaped_def run_stop_def)

lemma shaped_append: "shaped (xs @ ys) \<longleftrightarrow> shaped xs \<and> shaped ys"
  by (auto simp: shaped_def)

lemma put_runs_eq:
  assumes "runs_fit (length cells) xs" and "runs_fit (length cells) ys" and "\<And>n. runs_at xs n = runs_at ys n"
  shows "fold put_run xs cells = fold put_run ys cells"
  by (rule nth_equalityI) (simp_all add: length_put_runs nth_put_runs assms)

lemma merge_deltas_apply:
  assumes ok: "view_ok view" and one: "apply_frame (Delta previous) view = Inr view1"
    and two: "apply_frame (Delta nxt) view1 = Inr view2"
  shows "\<exists>delta. merge_terminal_deltas previous nxt = Inr delta \<and> apply_frame (Delta delta) view = Inr view2"
proof -
  note first = applied_delta [OF one ok]
  note second = applied_delta [OF two first(5)]
  let ?n = "length (tv_cells view)" and ?runs = "vd_runs previous @ vd_runs nxt"
  have small: "?n < 2 ^ 32" using ok by (simp add: view_ok_def MAX_TERMINAL_CELLS_def)
  have ordered2: "runs_ordered ?n 0 (vd_runs nxt)" using second(1) first(6) by simp
  have revision: "tv_revision view1 = vd_revision previous" using first(4) by (simp add: apply_validated_delta_def)
  have "shaped ?runs"
    using ordered_shaped [OF first(1) small] ordered_shaped [OF ordered2 small] by (simp add: shaped_append)
  then have "check_terminal_delta_merge previous nxt = Inr ()"
    using second(2) revision check_run_shapes_exact [of ?runs] by (simp add: check_terminal_delta_merge_def)
  from merge_deltas_spec [OF this] obtain runs where
    merged: "merge_terminal_deltas previous nxt = Inr (nxt\<lparr>vd_base_revision := vd_base_revision previous, vd_runs := runs\<rparr>)"
    and at: "\<And>n. runs_at runs n = runs_at ?runs n" and ordered: "\<And>limit. runs_fit limit ?runs \<Longrightarrow> runs_ordered limit 0 runs"
    by blast
  let ?delta = "nxt\<lparr>vd_base_revision := vd_base_revision previous, vd_runs := runs\<rparr>"
  have fit: "runs_fit ?n ?runs"
    using runs_ordered_fit [OF first(1)] runs_ordered_fit [OF ordered2] by (auto simp: runs_fit_def)
  have cells: "fold put_run runs (tv_cells view) = fold put_run ?runs (tv_cells view)"
    by (rule put_runs_eq [OF runs_ordered_fit [OF ordered [OF fit]] fit at])
  have "apply_frame (Delta ?delta) view = Inr (apply_validated_delta ?delta view)"
    using first(2,3) second(3) revision ordered [OF fit] by (intro delta_applies [OF ok]) auto
  moreover have "apply_validated_delta ?delta view = view2"
    using cells first(4) second(4) by (simp add: apply_validated_delta_def)
  ultimately show ?thesis using merged by blast
qed

text \<open>The same view but for links that were lost.\<close>

definition view_lost :: "terminal_view \<Rightarrow> terminal_view \<Rightarrow> bool" where
  "view_lost view view' \<longleftrightarrow> (\<exists>cells. lost_links (tv_cells view) cells \<and> view' = view\<lparr>tv_cells := cells\<rparr>)"

fun frame_lost :: "view_frame \<Rightarrow> view_frame \<Rightarrow> bool" where
  "frame_lost (Full view) frame \<longleftrightarrow> (\<exists>view'. frame = Full view' \<and> view_lost view view')"
| "frame_lost (Delta delta) frame \<longleftrightarrow>
     (\<exists>runs. lost_run_links (vd_runs delta) runs \<and> frame = Delta (delta\<lparr>vd_runs := runs\<rparr>))"

lemma lost_links_refl [simp]: "lost_links cells cells"
  by (simp add: lost_links_def list_all2_refl)

lemma view_lost_refl [simp]: "view_lost view view"
  unfolding view_lost_def by (rule exI [of _ "tv_cells view"]) simp

lemma link_lost_trans: "link_lost a b \<Longrightarrow> link_lost b c \<Longrightarrow> link_lost a c"
  by (auto simp: link_lost_def)

lemma lost_links_trans: "lost_links a b \<Longrightarrow> lost_links b c \<Longrightarrow> lost_links a c"
  unfolding lost_links_def by (rule list_all2_trans [OF link_lost_trans])

lemma view_lost_trans: "view_lost a b \<Longrightarrow> view_lost b c \<Longrightarrow> view_lost a c"
  unfolding view_lost_def using lost_links_trans by fastforce

lemma normalize_frame_lost: "frame_lost frame (snd (normalize_hyperlinks_for_wire frame))"
proof (cases frame)
  case (Full view)
  obtain l cells w where norm: "normalize_wire_cells (tv_cells view) wire_hyperlinks_new = (l, cells, w)" by (metis prod_cases3)
  with normalize_wire_cells_spec [OF wire_inv_new norm] Full show ?thesis by (auto simp: view_lost_def lost_links_def)
next
  case (Delta delta)
  obtain l runs w where norm: "normalize_wire_runs (vd_runs delta) wire_hyperlinks_new = (l, runs, w)" by (metis prod_cases3)
  with normalize_wire_runs_spec [OF wire_inv_new norm] Delta show ?thesis by (auto simp: lost_run_links_def lost_links_def)
qed

lemma lost_links_put_run:
  assumes "lost_links cells cells'" and "cr_start run' = cr_start run" and "lost_links (cr_cells run) (cr_cells run')"
  shows "lost_links (put_run run cells) (put_run run' cells')"
  using assms lost_links_length [OF assms(3)] unfolding put_run_def lost_links_def Let_def
  by (auto intro!: list_all2_appendI list_all2_takeI list_all2_dropI)

lemma lost_links_put_runs:
  "lost_run_links runs runs' \<Longrightarrow> lost_links cells cells' \<Longrightarrow> lost_links (fold put_run runs cells) (fold put_run runs' cells')"
proof (induction runs arbitrary: runs' cells cells')
  case (Cons run runs)
  then obtain r' rs' where "runs' = r' # rs'" by (cases runs') (auto simp: lost_run_links_def)
  with Cons show ?case by (simp add: lost_links_put_run)
qed simp

lemma view_lost_fields:
  assumes "view_lost view view'"
  shows "tv_revision view' = tv_revision view" and "length (tv_cells view') = length (tv_cells view)"
    and "view_ok view' \<longleftrightarrow> view_ok view"
  using assms lost_links_length by (auto simp: view_lost_def view_ok_def)

text \<open>Applying a frame commutes with losing links before and in it.\<close>

lemma apply_frame_lost:
  assumes ok: "view_ok view" and applied: "apply_frame frame view = Inr out"
    and views: "view_lost view view'" and frames: "frame_lost frame frame'"
  shows "\<exists>out'. apply_frame frame' view' = Inr out' \<and> view_lost out out'"
proof (cases frame)
  case (Full new_view)
  with applied frames show ?thesis by (auto simp: apply_frame_def)
next
  case (Delta delta)
  from frames Delta obtain runs where runs: "lost_run_links (vd_runs delta) runs"
    and frame': "frame' = Delta (delta\<lparr>vd_runs := runs\<rparr>)" by auto
  from views obtain cells where cells: "lost_links (tv_cells view) cells" "view' = view\<lparr>tv_cells := cells\<rparr>"
    by (auto simp: view_lost_def)
  note first = applied_delta [OF applied [unfolded Delta] ok]
  have "apply_frame frame' view' = Inr (apply_validated_delta (delta\<lparr>vd_runs := runs\<rparr>) view')"
    unfolding frame'
    using first lost_run_links_ordered [OF runs] view_lost_fields [OF views] ok
    by (intro delta_applies) simp_all
  moreover have "view_lost out (apply_validated_delta (delta\<lparr>vd_runs := runs\<rparr>) view')"
    using lost_links_put_runs [OF runs cells(1)] cells(2) first(4)
    by (auto simp: view_lost_def apply_validated_delta_def)
  ultimately show ?thesis by blast
qed

lemma apply_frame_ok:
  "view_ok view \<Longrightarrow> apply_frame frame view = Inr out \<Longrightarrow> (case frame of Full new_view \<Rightarrow> view_ok new_view | Delta _ \<Rightarrow> True) \<Longrightarrow>
   view_ok out"
  by (cases frame) (auto simp: apply_frame_def intro: applied_delta(5))

lemma delta_lost_refl: "frame_lost (Delta delta) (Delta delta)"
  by (simp, rule exI [of _ "vd_runs delta"]) simp

lemma frame_lost_refl: "frame_lost frame frame"
proof (cases frame)
  case (Delta delta)
  with delta_lost_refl show ?thesis by simp
qed simp

text \<open>A merge before the links are normalised.\<close>

lemma merge_exact:
  assumes ok: "view_ok view" and one: "apply_frame previous view = Inr view1" and ok1: "view_ok view1"
    and two: "apply_frame nxt view1 = Inr view2"
  shows "\<exists>merged. merge_terminal_frames previous nxt
      = Inr (if next_adds_links nxt then snd (normalize_hyperlinks_for_wire merged) else merged)
    \<and> apply_frame merged view = Inr view2"
proof (cases nxt)
  case (Full v)
  with two show ?thesis by (auto simp: merge_terminal_frames_def apply_frame_def)
next
  case (Delta delta)
  show ?thesis
  proof (cases previous)
    case (Full v)
    with one have "v = view1" by (simp add: apply_frame_def)
    with Full Delta two have "merge_terminal_frames previous nxt
      = Inr (if next_adds_links nxt then snd (normalize_hyperlinks_for_wire (Full view2)) else Full view2)"
      by (simp add: merge_terminal_frames_def del: normalize_hyperlinks_for_wire.simps)
    moreover have "apply_frame (Full view2) view = Inr view2" by (simp add: apply_frame_def)
    ultimately show ?thesis by blast
  next
    case prev: (Delta previous_delta)
    from merge_deltas_apply [OF ok one [unfolded prev] two [unfolded Delta]] obtain merged where
      merged: "merge_terminal_deltas previous_delta delta = Inr merged" "apply_frame (Delta merged) view = Inr view2" by blast
    with Delta prev have "merge_terminal_frames previous nxt
      = Inr (if next_adds_links nxt then snd (normalize_hyperlinks_for_wire (Delta merged)) else Delta merged)"
      by (simp add: merge_terminal_frames_def del: normalize_hyperlinks_for_wire.simps)
    with merged(2) show ?thesis by blast
  qed
qed

text \<open>A sequence of frames, applied one by one or merged into one.\<close>

fun apply_frames :: "view_frame list \<Rightarrow> terminal_view \<Rightarrow> frame_error + terminal_view" where
  "apply_frames [] view = Inr view"
| "apply_frames (frame # frames) view = bind_ok (apply_frame frame view) (apply_frames frames)"

definition merge_all :: "view_frame \<Rightarrow> view_frame list \<Rightarrow> unit + view_frame" where
  "merge_all frame frames = fold_ok (\<lambda>nxt merged. merge_terminal_frames merged nxt) frames frame"

fun full_ok :: "view_frame \<Rightarrow> bool" where
  "full_ok (Full view) \<longleftrightarrow> view_ok view"
| "full_ok (Delta _) \<longleftrightarrow> True"

lemma apply_full_ok: "view_ok view \<Longrightarrow> full_ok frame \<Longrightarrow> apply_frame frame view = Inr out \<Longrightarrow> view_ok out"
  by (cases frame) (auto simp: apply_frame_def intro: applied_delta(5))

text \<open>The merged frame so far gives, on the view held, the view the frames give, but for lost links.\<close>

lemma merge_all_from:
  "view_ok view \<Longrightarrow> apply_frame merged view = Inr got \<Longrightarrow> view_ok got \<Longrightarrow> view_lost exact got \<Longrightarrow>
   (\<And>frame. frame \<in> set frames \<Longrightarrow> full_ok frame) \<Longrightarrow> apply_frames frames exact = Inr last_view \<Longrightarrow>
   \<exists>final out. merge_all merged frames = Inr final \<and> apply_frame final view = Inr out \<and> view_lost last_view out
     \<and> (exact = got \<and> \<not> list_ex next_adds_links frames \<longrightarrow> out = last_view)"
proof (induction frames arbitrary: merged exact got)
  case Nil
  then show ?case by (auto simp: merge_all_def)
next
  case (Cons frame frames)
  from Cons.prems(6) obtain exact1 where exact1: "apply_frame frame exact = Inr exact1"
    and rest: "apply_frames frames exact1 = Inr last_view" by auto
  have ok_exact: "view_ok exact" using view_lost_fields(3) [OF Cons.prems(4)] Cons.prems(3) by simp
  from apply_frame_lost [OF ok_exact exact1 Cons.prems(4) frame_lost_refl] obtain got1 where
    got1: "apply_frame frame got = Inr got1" "view_lost exact1 got1" by blast
  have full: "full_ok frame" by (rule Cons.prems(5)) simp
  have ok1: "view_ok got1" by (rule apply_full_ok [OF Cons.prems(3) full got1(1)])
  from merge_exact [OF Cons.prems(1,2,3) got1(1)] obtain m where
    m: "merge_terminal_frames merged frame = Inr (if next_adds_links frame then snd (normalize_hyperlinks_for_wire m) else m)"
      "apply_frame m view = Inr got1" by blast
  define m' where "m' = (if next_adds_links frame then snd (normalize_hyperlinks_for_wire m) else m)"
  have "frame_lost m m'" using normalize_frame_lost frame_lost_refl by (simp add: m'_def)
  from apply_frame_lost [OF Cons.prems(1) m(2) view_lost_refl this] obtain got2 where
    got2: "apply_frame m' view = Inr got2" "view_lost got1 got2" by blast
  have ok2: "view_ok got2" using view_lost_fields(3) [OF got2(2)] ok1 by simp
  from Cons.IH [OF Cons.prems(1) got2(1) ok2 view_lost_trans [OF got1(2) got2(2)] Cons.prems(5) rest]
  obtain final out where final: "merge_all m' frames = Inr final" "apply_frame final view = Inr out"
    "view_lost last_view out" "exact1 = got2 \<and> \<not> list_ex next_adds_links frames \<longrightarrow> out = last_view" by auto
  have "merge_all merged (frame # frames) = Inr final"
    using final(1) m(1) by (simp add: merge_all_def m'_def)
  moreover have "out = last_view" if "exact = got \<and> \<not> list_ex next_adds_links (frame # frames)"
  proof -
    have "m' = m" "exact1 = got1" using that exact1 got1(1) by (simp_all add: m'_def)
    with that final(4) got2(1) m(2) show ?thesis by simp
  qed
  ultimately show ?case using final(2,3) by blast
qed


definition demo_delta :: "u64 \<Rightarrow> u64 \<Rightarrow> u32 \<Rightarrow> nat list \<Rightarrow> view_frame" where
  "demo_delta base revision start chars = Delta \<lparr>vd_base_revision = base, vd_revision = revision, vd_display_offset = 0,
     vd_mouse_tracking = TrackNone, vd_cursor = None, vd_selection = None,
     vd_runs = [\<lparr>cr_start = start, cr_cells = map demo_cell chars\<rparr>]\<rparr>"


end
