(* ===== verification/Terminal_Slot.thy ===== *)
theory Terminal_Slot
  imports Terminal_Merge Session_Ids
begin

text \<open>
  The slot between a connection's reader and its owner, and the terminals a Client holds
  (\<open>condr-client/src/frames.rs\<close>). Every operation of the slot runs under its mutex, so a run is a
  sequence of operations. A \<open>HashMap\<close> whose order \<open>take\<close> gives away is an association list with
  distinct keys; the others are maps. An \<open>expect\<close> that fails is an outer \<open>None\<close>.
\<close>

section \<open>The visual slot\<close>

type_synonym pane_frame = "pane_id \<times> view_frame"

record frame_batch =
  fb_server_id :: u64
  fb_session_id :: u64
  fb_panes :: "pane_frame list"

record pending_visual =
  pv_server_id :: u64
  pv_session_id :: u64
  pv_panes :: "(pane_id \<times> view_frame) list"

record visual_slot =
  vs_generation :: u64
  vs_pending :: "pending_visual option"
  vs_signaled :: bool

definition visual_slot_default :: visual_slot where
  "visual_slot_default = \<lparr>vs_generation = 0, vs_pending = None, vs_signaled = False\<rparr>"

definition pending_panes :: "visual_slot \<Rightarrow> (pane_id \<times> view_frame) list" where
  "pending_panes slot = (case vs_pending slot of Some p \<Rightarrow> pv_panes p | None \<Rightarrow> [])"

text \<open>The read-only check: each frame against the frame before it, in this batch or in the slot.\<close>

fun precheck ::
  "(pane_id \<Rightarrow> view_frame option) \<Rightarrow> (pane_id \<Rightarrow> view_frame option) \<Rightarrow> pane_frame list \<Rightarrow> unit + unit" where
  "precheck held seen [] = Inr ()"
| "precheck held seen ((pane_id, frame) # panes) =
     (let previous = (case seen pane_id of Some f \<Rightarrow> Some f | None \<Rightarrow> held pane_id) in
      bind_ok (case previous of Some f \<Rightarrow> check_terminal_frame_merge f frame | None \<Rightarrow> Inr ())
        (\<lambda>_. precheck held (seen(pane_id \<mapsto> frame)) panes))"

definition merge_pane :: "pane_frame \<Rightarrow> (pane_id \<times> view_frame) list \<Rightarrow> unit + (pane_id \<times> view_frame) list" where
  "merge_pane pane held =
     (let (pane_id, frame) = pane in
      bind_ok (case map_of held pane_id of Some previous \<Rightarrow> merge_terminal_frames previous frame | None \<Rightarrow> Inr frame)
        (\<lambda>frame. Inr (AList.update pane_id frame (AList.delete pane_id held))))"

definition slot_advance :: "visual_slot \<Rightarrow> visual_slot" where
  "slot_advance slot = \<lparr>vs_generation = vs_generation slot + 1, vs_pending = None, vs_signaled = False\<rparr>"

definition slot_publish :: "frame_batch \<Rightarrow> visual_slot \<Rightarrow> (unit + u64 option) \<times> visual_slot" where
  "slot_publish batch slot =
     (if (case vs_pending slot of
            Some p \<Rightarrow> pv_server_id p \<noteq> fb_server_id batch \<or> pv_session_id p \<noteq> fb_session_id batch
          | None \<Rightarrow> False)
      then (Inl (), slot)
      else case precheck (map_of (pending_panes slot)) Map.empty (fb_panes batch) of
        Inl e \<Rightarrow> (Inl e, slot)
      | Inr _ \<Rightarrow>
          let pending = (case vs_pending slot of
                Some p \<Rightarrow> p
              | None \<Rightarrow> \<lparr>pv_server_id = fb_server_id batch, pv_session_id = fb_session_id batch, pv_panes = []\<rparr>)
          in case fold_ok merge_pane (fb_panes batch) (pv_panes pending) of
            Inl e \<Rightarrow> (Inl e, slot_advance slot)
          | Inr panes \<Rightarrow>
              let slot = slot\<lparr>vs_pending := Some (pending\<lparr>pv_panes := panes\<rparr>)\<rparr> in
              if vs_signaled slot then (Inr None, slot)
              else (Inr (Some (vs_generation slot)), slot\<lparr>vs_signaled := True\<rparr>))"

definition slot_take :: "u64 \<Rightarrow> visual_slot \<Rightarrow> frame_batch option \<times> visual_slot" where
  "slot_take generation slot =
     (if vs_generation slot \<noteq> generation then (None, slot)
      else (map_option (\<lambda>p. \<lparr>fb_server_id = pv_server_id p, fb_session_id = pv_session_id p, fb_panes = pv_panes p\<rparr>)
              (vs_pending slot),
            slot\<lparr>vs_signaled := False, vs_pending := None\<rparr>))"

section \<open>Applying a batch\<close>

type_synonym terminals = "pane_id \<Rightarrow> terminal_view option"
type_synonym budgets = "pane_id \<Rightarrow> hyperlink_budget option"

fun check_panes :: "terminals \<Rightarrow> budgets \<Rightarrow> pane_id set \<Rightarrow> pane_frame list \<Rightarrow> unit + unit" where
  "check_panes terminals budgets seen [] = Inr ()"
| "check_panes terminals budgets seen ((pane_id, frame) # panes) =
     (if pane_id \<in> seen then Inl ()
      else bind_ok
        (case terminals pane_id of
           Some view \<Rightarrow>
             if budgets pane_id = None then Inl ()
             else (case validate_frame view frame of Inl _ \<Rightarrow> Inl () | Inr _ \<Rightarrow> Inr ())
         | None \<Rightarrow> (case frame of Full _ \<Rightarrow> Inr () | Delta _ \<Rightarrow> Inl ()))
        (\<lambda>_. check_panes terminals budgets (insert pane_id seen) panes))"

definition apply_pane :: "pane_frame \<Rightarrow> terminals \<times> budgets \<Rightarrow> (terminals \<times> budgets) option" where
  "apply_pane pane st =
     (let (pane_id, frame) = pane; (terminals, budgets) = st in
      case frame of
        Full view \<Rightarrow>
          map_option (\<lambda>(budget, view). (terminals(pane_id \<mapsto> view), budgets(pane_id \<mapsto> budget))) (budget_new view)
      | Delta delta \<Rightarrow>
          (case (terminals pane_id, budgets pane_id) of
             (Some view, Some budget) \<Rightarrow>
               (case budget_apply_delta budget view delta of
                  Some (Inr (budget, view)) \<Rightarrow> Some (terminals(pane_id \<mapsto> view), budgets(pane_id \<mapsto> budget))
                | _ \<Rightarrow> None)
           | _ \<Rightarrow> None))"

fun apply_panes :: "pane_frame list \<Rightarrow> terminals \<times> budgets \<Rightarrow> (terminals \<times> budgets) option" where
  "apply_panes [] st = Some st"
| "apply_panes (pane # panes) st = (case apply_pane pane st of None \<Rightarrow> None | Some st \<Rightarrow> apply_panes panes st)"

definition apply_terminal_frame_batch ::
  "pane_frame list \<Rightarrow> terminals \<times> budgets \<Rightarrow> ((unit + pane_id list) \<times> terminals \<times> budgets) option" where
  "apply_terminal_frame_batch panes st =
     (case check_panes (fst st) (snd st) {} panes of
        Inl e \<Rightarrow> Some (Inl e, st)
      | Inr _ \<Rightarrow> map_option (\<lambda>st. (Inr (map fst panes), st)) (apply_panes panes st))"

section \<open>The slot holds the merge of what was published\<close>

text \<open>A ghost history: for each Pane, the frames published and not yet taken or dropped, in order.\<close>

type_synonym history = "pane_id \<Rightarrow> view_frame list"

definition merged_history :: "view_frame list \<Rightarrow> view_frame option \<Rightarrow> bool" where
  "merged_history frames held \<longleftrightarrow>
     (case frames of [] \<Rightarrow> held = None | first # rest \<Rightarrow> \<exists>f. held = Some f \<and> merge_all first rest = Inr f)"

definition slot_inv :: "visual_slot \<Rightarrow> history \<Rightarrow> bool" where
  "slot_inv slot h \<longleftrightarrow>
     (vs_signaled slot \<longleftrightarrow> vs_pending slot \<noteq> None)
     \<and> distinct (map fst (pending_panes slot))
     \<and> (\<forall>pane_id. merged_history (h pane_id) (map_of (pending_panes slot) pane_id))"

definition batch_frames :: "pane_frame list \<Rightarrow> pane_id \<Rightarrow> view_frame list" where
  "batch_frames panes pane_id = map snd (filter (\<lambda>pane. fst pane = pane_id) panes)"

lemma batch_frames_simps [simp]:
  "batch_frames [] p = []"
  "batch_frames (pane # panes) p = (if fst pane = p then [snd pane] else []) @ batch_frames panes p"
  by (simp_all add: batch_frames_def)

lemma fold_ok_append: "fold_ok f (xs @ ys) acc = bind_ok (fold_ok f xs acc) (fold_ok f ys)"
proof (induction xs arbitrary: acc)
  case (Cons x xs)
  then show ?case by (cases "f x acc") simp_all
qed simp

lemma merged_history_snoc:
  assumes "merged_history frames held" and "(case held of Some f \<Rightarrow> merge_terminal_frames f nxt | None \<Rightarrow> Inr nxt) = Inr g"
  shows "merged_history (frames @ [nxt]) (Some g)"
  using assms by (cases frames) (auto simp: merged_history_def merge_all_def fold_ok_append)

lemma merge_pane_map:
  assumes "merge_pane (p, frame) held = Inr held'" and "distinct (map fst held)"
  shows "distinct (map fst held')"
    and "\<exists>g. (case map_of held p of Some f \<Rightarrow> merge_terminal_frames f frame | None \<Rightarrow> Inr frame) = Inr g
      \<and> map_of held' = (map_of held)(p \<mapsto> g)"
  using assms by (auto simp: merge_pane_def distinct_update distinct_delete update_conv' delete_conv')

lemma merge_panes_history:
  "fold_ok merge_pane panes held = Inr held' \<Longrightarrow> distinct (map fst held) \<Longrightarrow>
   (\<And>p. merged_history (h p) (map_of held p)) \<Longrightarrow>
   distinct (map fst held') \<and> (\<forall>p. merged_history (h p @ batch_frames panes p) (map_of held' p))"
proof (induction panes arbitrary: held h)
  case (Cons pane panes)
  obtain q frame where pane: "pane = (q, frame)" by fastforce
  from Cons.prems(1) obtain held1 where one: "merge_pane (q, frame) held = Inr held1"
    and rest: "fold_ok merge_pane panes held1 = Inr held'" by (auto simp: pane)
  note step = merge_pane_map [OF one Cons.prems(2)]
  obtain g where g: "(case map_of held q of Some f \<Rightarrow> merge_terminal_frames f frame | None \<Rightarrow> Inr frame) = Inr g"
    "map_of held1 = (map_of held)(q \<mapsto> g)" using step(2) by blast
  let ?h = "h(q := h q @ [frame])"
  have "merged_history (?h p) (map_of held1 p)" for p
    using Cons.prems(3) [of p] merged_history_snoc [OF Cons.prems(3) g(1)] g(2) by simp
  from Cons.IH [OF rest step(1) this] show ?case by (auto simp: pane split: if_splits)
qed simp

datatype slot_op = Publish frame_batch | Take u64 | Advance

definition no_history :: history where
  "no_history = (\<lambda>_. [])"

definition slot_step :: "slot_op \<Rightarrow> visual_slot \<times> history \<Rightarrow> visual_slot \<times> history" where
  "slot_step op st =
     (let (slot, h) = st in
      case op of
        Publish batch \<Rightarrow>
          (let (r, slot') = slot_publish batch slot in
           (slot', case r of
              Inr _ \<Rightarrow> (\<lambda>p. h p @ batch_frames (fb_panes batch) p)
            | Inl _ \<Rightarrow> if vs_generation slot' = vs_generation slot then h else no_history))
      | Take generation \<Rightarrow>
          (snd (slot_take generation slot), if vs_generation slot = generation then no_history else h)
      | Advance \<Rightarrow> (slot_advance slot, no_history))"

lemma slot_inv_empty: "vs_pending slot = None \<Longrightarrow> \<not> vs_signaled slot \<Longrightarrow> slot_inv slot no_history"
  by (simp add: slot_inv_def pending_panes_def merged_history_def no_history_def)

lemma slot_advance_inv: "slot_inv (slot_advance slot) no_history"
  by (rule slot_inv_empty) (simp_all add: slot_advance_def)

lemma slot_take_inv: "slot_inv slot h \<Longrightarrow>
   slot_inv (snd (slot_take generation slot)) (if vs_generation slot = generation then no_history else h)"
  by (auto simp: slot_take_def intro!: slot_inv_empty)

text \<open>What a publish does: everything merged, nothing at all, or the slot emptied for a new generation.\<close>

lemma slot_publish_cases:
  assumes "slot_publish batch slot = (r, slot')"
  obtains (kept) "r = Inl ()" "slot' = slot"
  | (dropped) "r = Inl ()" "slot' = slot_advance slot"
  | (merged) panes where "r = Inr (if vs_signaled slot then None else Some (vs_generation slot))"
      "fold_ok merge_pane (fb_panes batch) (pending_panes slot) = Inr panes" "pending_panes slot' = panes"
      "vs_pending slot' \<noteq> None" "vs_signaled slot'" "vs_generation slot' = vs_generation slot"
proof -
  let ?foreign = "case vs_pending slot of
      Some p \<Rightarrow> pv_server_id p \<noteq> fb_server_id batch \<or> pv_session_id p \<noteq> fb_session_id batch | None \<Rightarrow> False"
  let ?pending = "case vs_pending slot of Some p \<Rightarrow> p
      | None \<Rightarrow> \<lparr>pv_server_id = fb_server_id batch, pv_session_id = fb_session_id batch, pv_panes = []\<rparr>"
  have panes: "pv_panes ?pending = pending_panes slot" by (simp add: pending_panes_def split: option.split)
  show thesis
  proof (cases ?foreign)
    case True
    with assms kept show thesis by (simp add: slot_publish_def)
  next
    case same: False
    show thesis
    proof (cases "precheck (map_of (pending_panes slot)) Map.empty (fb_panes batch)")
      case (Inl e)
      with assms same kept show thesis by (simp add: slot_publish_def)
    next
      case (Inr u)
      show thesis
      proof (cases "fold_ok merge_pane (fb_panes batch) (pending_panes slot)")
        case failed: (Inl e)
        with assms same Inr dropped panes show thesis by (simp add: slot_publish_def Let_def)
      next
        case ok: (Inr held)
        have "slot_publish batch slot = (Inr (if vs_signaled slot then None else Some (vs_generation slot)),
            slot\<lparr>vs_pending := Some (?pending\<lparr>pv_panes := held\<rparr>), vs_signaled := True\<rparr>)"
          using same Inr ok panes by (simp add: slot_publish_def Let_def)
        with assms have "r = Inr (if vs_signaled slot then None else Some (vs_generation slot))"
          "slot' = slot\<lparr>vs_pending := Some (?pending\<lparr>pv_panes := held\<rparr>), vs_signaled := True\<rparr>" by simp_all
        with ok show thesis by (intro merged [of held]) (simp_all add: pending_panes_def)
      qed
    qed
  qed
qed

lemma slot_step_inv: "slot_inv slot h \<Longrightarrow> slot_inv (fst (slot_step op (slot, h))) (snd (slot_step op (slot, h)))"
proof (cases op)
  case (Publish batch)
  assume inv: "slot_inv slot h"
  obtain r slot' where pub: "slot_publish batch slot = (r, slot')" by fastforce
  then show ?thesis
  proof (cases rule: slot_publish_cases)
    case kept
    with inv pub Publish show ?thesis by (simp add: slot_step_def)
  next
    case dropped
    then have "vs_generation slot' \<noteq> vs_generation slot" by (simp add: slot_advance_def)
    with dropped pub Publish slot_advance_inv show ?thesis by (simp add: slot_step_def)
  next
    case (merged panes)
    have "distinct (map fst panes) \<and> (\<forall>p. merged_history (h p @ batch_frames (fb_panes batch) p) (map_of panes p))"
      using inv by (intro merge_panes_history [OF merged(2)]) (simp_all add: slot_inv_def)
    with merged pub Publish show ?thesis by (auto simp: slot_step_def slot_inv_def)
  qed
next
  case (Take generation)
  then show "slot_inv slot h \<Longrightarrow> ?thesis" using slot_take_inv by (simp add: slot_step_def)
next
  case Advance
  then show ?thesis using slot_advance_inv by (simp add: slot_step_def)
qed

lemma slot_run_inv: "slot_inv (fst st) (snd st) \<Longrightarrow> slot_inv (fst (fold slot_step ops st)) (snd (fold slot_step ops st))"
proof (induction ops arbitrary: st)
  case (Cons op ops)
  have "slot_inv (fst (slot_step op st)) (snd (slot_step op st))"
    using slot_step_inv [of "fst st" "snd st" op] Cons.prems by simp
  with Cons.IH show ?case by simp
qed simp

definition slot_start :: "visual_slot \<times> history" where
  "slot_start = (visual_slot_default, no_history)"

lemma slot_reachable: "fold slot_step ops slot_start = (slot, h) \<Longrightarrow> slot_inv slot h"
  using slot_run_inv [of slot_start ops] slot_inv_empty [of visual_slot_default]
  by (simp add: slot_start_def visual_slot_default_def)

text \<open>A taken frame brings a Pane's view to where its published frames would have.\<close>

lemma history_applies:
  assumes held: "merged_history frames held" and some: "frames \<noteq> []" and ok: "view_ok view"
    and full: "\<And>f. f \<in> set frames \<Longrightarrow> full_ok f" and run: "apply_frames frames view = Inr last_view"
  shows "\<exists>f out. held = Some f \<and> apply_frame f view = Inr out \<and> view_lost last_view out"
proof -
  obtain first rest where frames: "frames = first # rest" using some by (cases frames) auto
  from run obtain view1 where one: "apply_frame first view = Inr view1" and rest: "apply_frames rest view1 = Inr last_view"
    by (auto simp: frames)
  have ok1: "view_ok view1" using apply_full_ok [OF ok _ one] full by (simp add: frames)
  have "full_ok f" if "f \<in> set rest" for f using full that by (simp add: frames)
  from merge_all_from [OF ok one ok1 view_lost_refl this rest] held show ?thesis
    by (auto simp: frames merged_history_def)
qed


definition demo_batch :: "view_frame \<Rightarrow> frame_batch" where
  "demo_batch frame = \<lparr>fb_server_id = 1, fb_session_id = 1, fb_panes = [(PaneId 5, frame)]\<rparr>"


section \<open>A batch applies whole or not at all\<close>

definition client_inv :: "terminals \<times> budgets \<Rightarrow> bool" where
  "client_inv st \<longleftrightarrow> (\<forall>p view. fst st p = Some view \<longrightarrow> (\<exists>b. snd st p = Some b \<and> kept_inv b view))"

definition pane_valid :: "terminals \<Rightarrow> pane_frame \<Rightarrow> bool" where
  "pane_valid terminals pane \<longleftrightarrow>
     (case terminals (fst pane) of
        Some view \<Rightarrow> validate_frame view (snd pane) = Inr ()
      | None \<Rightarrow> (case snd pane of Full _ \<Rightarrow> True | Delta _ \<Rightarrow> False))"

lemma check_panes_ok:
  "check_panes terminals budgets seen panes = Inr () \<Longrightarrow>
   distinct (map fst panes) \<and> (\<forall>pane \<in> set panes. fst pane \<notin> seen \<and> pane_valid terminals pane)"
proof (induction terminals budgets seen panes rule: check_panes.induct)
  case (2 terminals budgets seen p frame panes)
  from 2(2) have p: "p \<notin> seen" by (simp split: if_splits)
  from 2(2) have valid: "pane_valid terminals (p, frame)"
    by (auto simp: pane_valid_def split: if_splits option.splits sum.splits view_frame.splits)
  have rest: "check_panes terminals budgets (insert p seen) panes = Inr ()"
    using 2(2) p by (auto split: option.splits)
  have "distinct (map fst panes) \<and> (\<forall>pane \<in> set panes. fst pane \<notin> insert p seen \<and> pane_valid terminals pane)"
    by (rule 2(1) [OF p rest])
  with p valid show ?case by (auto simp: image_iff)
qed simp

text \<open>What a Pane shows after its frame: the full view, or its own view with the delta applied, but for
  links past the limits.\<close>

fun pane_outcome :: "terminals \<Rightarrow> pane_id \<Rightarrow> view_frame \<Rightarrow> terminal_view \<Rightarrow> bool" where
  "pane_outcome terminals p (Full view) view' \<longleftrightarrow> view_lost view view'"
| "pane_outcome terminals p (Delta delta) view' \<longleftrightarrow>
     (\<exists>view. terminals p = Some view \<and> budget_outcome view delta view')"

lemma apply_pane_ok:
  assumes inv: "client_inv st" and valid: "pane_valid (fst st) (p, frame)" and full: "full_ok frame"
  shows "\<exists>view' budget. apply_pane (p, frame) st = Some ((fst st)(p \<mapsto> view'), (snd st)(p \<mapsto> budget))
    \<and> kept_inv budget view' \<and> pane_outcome (fst st) p frame view'"
proof (cases frame)
  case (Full view)
  then have "length (tv_cells view) \<le> usize_max" using full by (simp add: view_ok_bounds)
  from budget_new_inv [OF this] Full show ?thesis
    by (cases st) (fastforce simp: apply_pane_def view_lost_def)
next
  case (Delta delta)
  from valid Delta obtain view where view: "fst st p = Some view" "validate_delta view delta = Inr ()"
    by (auto simp: pane_valid_def split: option.splits)
  from inv view(1) obtain budget where budget: "snd st p = Some budget" "kept_inv budget view"
    by (auto simp: client_inv_def)
  from budget_delta_inv [OF budget(2) view(2)] obtain budget' view' where
    "budget_apply_delta budget view delta = Some (Inr (budget', view'))" "kept_inv budget' view'"
    "budget_outcome view delta view'" by blast
  moreover from this(1) view(1) budget(1) Delta
  have "apply_pane (p, frame) st = Some ((fst st)(p \<mapsto> view'), (snd st)(p \<mapsto> budget'))"
    by (cases st) (simp add: apply_pane_def)
  ultimately show ?thesis using view(1) Delta by auto
qed

lemma client_inv_update: "client_inv st \<Longrightarrow> kept_inv budget view \<Longrightarrow> client_inv ((fst st)(p \<mapsto> view), (snd st)(p \<mapsto> budget))"
  by (auto simp: client_inv_def)

lemma pane_outcome_elsewhere: "q \<noteq> p \<Longrightarrow> pane_outcome (terminals(q := v)) p frame view' = pane_outcome terminals p frame view'"
  by (cases frame) auto

lemma apply_panes_ok:
  "client_inv st \<Longrightarrow> distinct (map fst panes) \<Longrightarrow> (\<forall>pane \<in> set panes. pane_valid (fst st) pane \<and> full_ok (snd pane)) \<Longrightarrow>
   \<exists>st'. apply_panes panes st = Some st' \<and> client_inv st'
     \<and> (\<forall>pane \<in> set panes. \<exists>view'. fst st' (fst pane) = Some view' \<and> pane_outcome (fst st) (fst pane) (snd pane) view')
     \<and> (\<forall>p. p \<notin> fst ` set panes \<longrightarrow> fst st' p = fst st p)"
proof (induction panes arbitrary: st)
  case (Cons pane panes)
  obtain p frame where pane: "pane = (p, frame)" by fastforce
  have "pane_valid (fst st) (p, frame)" "full_ok frame" using Cons.prems(3) by (simp_all add: pane)
  from apply_pane_ok [OF Cons.prems(1) this] obtain view' budget where
    one: "apply_pane (p, frame) st = Some ((fst st)(p \<mapsto> view'), (snd st)(p \<mapsto> budget))" "kept_inv budget view'"
      "pane_outcome (fst st) p frame view'" by blast
  let ?st = "((fst st)(p \<mapsto> view'), (snd st)(p \<mapsto> budget))"
  have other: "fst q \<noteq> p" if "q \<in> set panes" for q using Cons.prems(2) that by (auto simp: pane)
  have "\<forall>q \<in> set panes. pane_valid (fst ?st) q \<and> full_ok (snd q)"
    using Cons.prems(3) other by (auto simp: pane_valid_def)
  moreover have "distinct (map fst panes)" using Cons.prems(2) by simp
  ultimately obtain st' where
    rest: "apply_panes panes ?st = Some st'" "client_inv st'"
      "\<forall>q \<in> set panes. \<exists>view'. fst st' (fst q) = Some view' \<and> pane_outcome (fst ?st) (fst q) (snd q) view'"
      "\<forall>q. q \<notin> fst ` set panes \<longrightarrow> fst st' q = fst ?st q"
    using Cons.IH [OF client_inv_update [OF Cons.prems(1) one(2)]] by blast
  have "p \<notin> fst ` set panes" using other by fastforce
  then have mine: "fst st' p = Some view'" using rest(4) by simp
  have "\<forall>q \<in> set panes. \<exists>view'. fst st' (fst q) = Some view' \<and> pane_outcome (fst st) (fst q) (snd q) view'"
    using rest(3) other by (fastforce simp: pane_outcome_elsewhere)
  moreover have "fst st' q = fst st q" if "q \<notin> fst ` set (pane # panes)" for q
    using rest(4) that by (simp add: pane)
  ultimately show ?case using one rest(1,2) mine by (auto simp: pane)
qed auto

text \<open>C35: Applying a batch never panics. It is refused, and then nothing changes, when a Pane comes twice, a
  delta does not fit the view held, or there is none; otherwise every Pane in it shows its frame, no
  other Pane changes, and the hyperlink budgets still match the views.\<close>

theorem batch_applied:
  assumes "client_inv st" and "\<forall>pane \<in> set panes. full_ok (snd pane)"
  shows "\<exists>r st'. apply_terminal_frame_batch panes st = Some (r, st') \<and> client_inv st'
    \<and> (case r of
         Inl _ \<Rightarrow> st' = st \<and> check_panes (fst st) (snd st) {} panes = Inl ()
       | Inr ids \<Rightarrow> ids = map fst panes \<and> distinct ids
           \<and> (\<forall>(p, frame) \<in> set panes. pane_valid (fst st) (p, frame)
                \<and> (\<exists>view'. fst st' p = Some view' \<and> pane_outcome (fst st) p frame view'))
           \<and> (\<forall>p. p \<notin> set ids \<longrightarrow> fst st' p = fst st p))"
proof (cases "check_panes (fst st) (snd st) {} panes")
  case (Inl e)
  then show ?thesis using assms(1) by (simp add: apply_terminal_frame_batch_def)
next
  case (Inr u)
  then have checked: "distinct (map fst panes)" "\<forall>pane \<in> set panes. pane_valid (fst st) pane"
    using check_panes_ok [of "fst st" "snd st" "{}" panes] by simp_all
  from apply_panes_ok [OF assms(1) checked(1)] checked(2) assms(2) obtain st' where
    st': "apply_panes panes st = Some st'" "client_inv st'"
      "\<forall>pane \<in> set panes. \<exists>view'. fst st' (fst pane) = Some view' \<and> pane_outcome (fst st) (fst pane) (snd pane) view'"
      "\<forall>p. p \<notin> fst ` set panes \<longrightarrow> fst st' p = fst st p" by blast
  have "apply_terminal_frame_batch panes st = Some (Inr (map fst panes), st')"
    using Inr st'(1) by (simp add: apply_terminal_frame_batch_def)
  with st' checked show ?thesis by fastforce
qed

theorem batch_applied_witness:
  "\<exists>r st'. apply_terminal_frame_batch [(PaneId 1, Full (demo_view 1 [97])), (PaneId 1, Full (demo_view 2 [98]))]
       (Map.empty, Map.empty) = Some (r, st') \<and> client_inv st'"
  using batch_applied [of "(Map.empty, Map.empty)" "[(PaneId 1, Full (demo_view 1 [97])), (PaneId 1, Full (demo_view 2 [98]))]"]
  by (auto simp: client_inv_def demo_view_ok)

end
