(* ===== verification/Chunked_Transfer.thy ===== *)
theory Chunked_Transfer
  imports Terminal_Slot Agent_Model Client_Writer
begin

text \<open>
  Records too large for one frame travel in chunks: a Bootstrap, split by the Server
  (\<open>condr-server/src/server/bootstrap.rs\<close>) and put together by \<open>BootstrapAssembler\<close>
  (\<open>protocol/bootstrap.rs\<close>), and a large terminal frame (\<open>server/terminal_stream.rs\<close> and
  \<open>condr-client/src/frames.rs\<close>). The protobuf bytes of a record are the library's: the encoder and
  the decoder of a record are arguments. A failed push ends the assembly, as both callers do, so
  an error carries no state.
\<close>

definition MAX_CHUNKED_RECORD_SIZE :: nat where "MAX_CHUNKED_RECORD_SIZE = 24 * 1024 * 1024"
definition MAX_CHUNK_PAYLOAD_SIZE :: nat where "MAX_CHUNK_PAYLOAD_SIZE = MAX_FRAME_SIZE - 256"

lemma chunk_limits:
  "0 < MAX_CHUNK_PAYLOAD_SIZE" "MAX_CHUNKED_RECORD_SIZE \<le> usize_max" "MAX_BOOTSTRAP_TOTAL_SIZE \<le> usize_max"
  "MAX_BOOTSTRAP_BATCHES = 65536"
  by (simp_all add: MAX_CHUNK_PAYLOAD_SIZE_def MAX_FRAME_SIZE_def MAX_CHUNKED_RECORD_SIZE_def MAX_BOOTSTRAP_TOTAL_SIZE_def
      MAX_BOOTSTRAP_BATCHES_def usize_max_def)

section \<open>What a Bootstrap carries\<close>

datatype progress_state = ProgressNormal | ProgressError | ProgressIndeterminate | ProgressPaused

record terminal_progress =
  pg_state :: progress_state
  pg_percent :: "u8 option"

record pane_terminal =
  pt_pane_id :: pane_id
  pt_view :: "terminal_view option"
  pt_exited :: bool
  pt_title :: "rstr option"
  pt_attention :: bool
  pt_progress :: "terminal_progress option"

record pane_agent =
  pa_pane_id :: pane_id
  pa_agent :: agent_snapshot
  pa_unseen :: bool

text \<open>The git fields of a Workspace, the Session Snapshot and the settings pass through unread.\<close>

record 'git workspace_git =
  wg_workspace_id :: workspace_id
  wg_git :: 'git

datatype 'git bootstrap_record =
    TerminalRecord pane_terminal
  | AgentRecord pane_agent
  | WorkspaceGitRecord "'git workspace_git"
  | ZoomedPaneRecord pane_id

record ('snap, 'set) bootstrap_header =
  bh_server_id :: u64
  bh_runtime_epoch :: "128 word"
  bh_session_id :: u64
  bh_sequence :: u64
  bh_snapshot :: 'snap
  bh_settings :: 'set
  bh_batch_count :: u32

record bootstrap_batch =
  bb_server_id :: u64
  bb_session_id :: u64
  bb_batch_index :: u32
  bb_record_index :: u32
  bb_chunk_index :: u32
  bb_chunk_count :: u32
  bb_payload :: bytes

record ('snap, 'set, 'git) session_bootstrap =
  sb_server_id :: u64
  sb_runtime_epoch :: "128 word"
  sb_session_id :: u64
  sb_sequence :: u64
  sb_snapshot :: 'snap
  sb_settings :: 'set
  sb_terminals :: "pane_terminal list"
  sb_agents :: "pane_agent list"
  sb_workspace_git :: "'git workspace_git list"
  sb_zoomed_panes :: "pane_id list"

section \<open>Splitting, on the Server\<close>

datatype split_error =
    RecordTooLarge nat | SizeOverflow | TooLarge | TooManyBatches | TooManyRecords | TooManyChunks | EmptyRecord

text \<open>\<open>encode_chunked_value\<close>, and \<open>decode_chunked_value\<close> with the decoding of the message.\<close>

definition encode_chunked :: "('r \<Rightarrow> bytes) \<Rightarrow> 'r \<Rightarrow> split_error + bytes" where
  "encode_chunked enc rec =
     (let payload = enc rec in
      if MAX_CHUNKED_RECORD_SIZE < length payload then Inl (RecordTooLarge (length payload)) else Inr payload)"

definition decode_chunked :: "(bytes \<Rightarrow> 'e + 'r) \<Rightarrow> 'e \<Rightarrow> bytes \<Rightarrow> 'e + 'r" where
  "decode_chunked dec too_large payload =
     (if MAX_CHUNKED_RECORD_SIZE < length payload then Inl too_large else dec payload)"

text \<open>\<open>slice::chunks\<close> and \<open>usize::div_ceil\<close>.\<close>

function chunks_of :: "nat \<Rightarrow> 'a list \<Rightarrow> 'a list list" where
  "chunks_of n xs = (if xs = [] \<or> n = 0 then [] else take n xs # chunks_of n (drop n xs))"
  by auto
termination chunks_of by (relation "measure (\<lambda>(n, xs). length xs)") auto

declare chunks_of.simps [simp del]

definition div_ceil :: "nat \<Rightarrow> nat \<Rightarrow> nat" where
  "div_ceil a n = (a + n - 1) div n"

text \<open>\<open>normalize_hyperlinks_for_wire\<close> on the view of a Terminal record.\<close>

definition normalize_view :: "terminal_view \<Rightarrow> terminal_view" where
  "normalize_view view = (case snd (normalize_hyperlinks_for_wire (view_frame.Full view)) of view_frame.Full v \<Rightarrow> v | Delta _ \<Rightarrow> view)"

fun normalize_record :: "'git bootstrap_record \<Rightarrow> 'git bootstrap_record" where
  "normalize_record (TerminalRecord t) = TerminalRecord (t\<lparr>pt_view := map_option normalize_view (pt_view t)\<rparr>)"
| "normalize_record rec = rec"

fun record_baseline :: "'git bootstrap_record \<Rightarrow> (pane_id \<times> terminal_view) list" where
  "record_baseline (TerminalRecord t) = (case pt_view t of Some view \<Rightarrow> [(pt_pane_id t, view)] | None \<Rightarrow> [])"
| "record_baseline rec = []"

text \<open>The chunks of one record.\<close>

fun push_chunks ::
  "u64 \<Rightarrow> u64 \<Rightarrow> u32 \<Rightarrow> u32 \<Rightarrow> nat \<Rightarrow> bytes list \<Rightarrow> bootstrap_batch list \<Rightarrow> split_error + bootstrap_batch list" where
  "push_chunks server session record_index chunk_count chunk_index [] batches = Inr batches"
| "push_chunks server session record_index chunk_count chunk_index (payload # rest) batches =
     (if MAX_BOOTSTRAP_BATCHES \<le> length batches then Inl TooManyBatches
      else case u32_of (length batches) of
        None \<Rightarrow> Inl TooManyBatches
      | Some batch_index \<Rightarrow>
          (case u32_of chunk_index of
             None \<Rightarrow> Inl TooManyChunks
           | Some index \<Rightarrow>
               push_chunks server session record_index chunk_count (chunk_index + 1) rest
                 (batches @ [\<lparr>bb_server_id = server, bb_session_id = session, bb_batch_index = batch_index,
                    bb_record_index = record_index, bb_chunk_index = index, bb_chunk_count = chunk_count,
                    bb_payload = payload\<rparr>])))"

fun split_records ::
  "('git bootstrap_record \<Rightarrow> bytes) \<Rightarrow> u64 \<Rightarrow> u64 \<Rightarrow> nat \<Rightarrow> nat \<Rightarrow> 'git bootstrap_record list
   \<Rightarrow> bootstrap_batch list \<Rightarrow> split_error + bootstrap_batch list \<times> (pane_id \<times> terminal_view) list" where
  "split_records enc server session record_index total_size [] batches = Inr (batches, [])"
| "split_records enc server session record_index total_size (rec # records) batches =
     (case u32_of record_index of
        None \<Rightarrow> Inl TooManyRecords
      | Some index \<Rightarrow>
          let rec = normalize_record rec in
          bind_ok (encode_chunked enc rec) (\<lambda>payload.
          case checked_add_usize total_size (length payload) of
            None \<Rightarrow> Inl SizeOverflow
          | Some total_size \<Rightarrow>
              if MAX_BOOTSTRAP_TOTAL_SIZE < total_size then Inl TooLarge
              else case u32_of (div_ceil (length payload) MAX_CHUNK_PAYLOAD_SIZE) of
                None \<Rightarrow> Inl TooManyChunks
              | Some chunk_count \<Rightarrow>
                  bind_ok (push_chunks server session index chunk_count 0 (chunks_of MAX_CHUNK_PAYLOAD_SIZE payload) batches)
                    (\<lambda>batches.
                      if chunk_count = 0 then Inl EmptyRecord
                      else bind_ok (split_records enc server session (record_index + 1) total_size records batches)
                        (\<lambda>(batches, baselines). Inr (batches, record_baseline rec @ baselines)))))"

definition split_bootstrap_records ::
  "('git bootstrap_record \<Rightarrow> bytes) \<Rightarrow> u64 \<Rightarrow> u64 \<Rightarrow> 'git bootstrap_record list
   \<Rightarrow> split_error + bootstrap_batch list \<times> (pane_id \<times> terminal_view) list" where
  "split_bootstrap_records enc server session records = split_records enc server session 0 0 records []"

text \<open>The messages of a Bootstrap: its header and its batches, with the views the Clients will hold.\<close>

definition bootstrap_records :: "('snap, 'set, 'git) session_bootstrap \<Rightarrow> 'git bootstrap_record list" where
  "bootstrap_records b = map TerminalRecord (sb_terminals b) @ map AgentRecord (sb_agents b)
     @ map WorkspaceGitRecord (sb_workspace_git b) @ map ZoomedPaneRecord (sb_zoomed_panes b)"

definition bootstrap_messages ::
  "('git bootstrap_record \<Rightarrow> bytes) \<Rightarrow> ('snap, 'set, 'git) session_bootstrap
   \<Rightarrow> split_error + ('snap, 'set) bootstrap_header \<times> bootstrap_batch list \<times> (pane_id \<times> terminal_view) list" where
  "bootstrap_messages enc b =
     bind_ok (split_bootstrap_records enc (sb_server_id b) (sb_session_id b) (bootstrap_records b))
       (\<lambda>(batches, baselines).
          case u32_of (length batches) of
            None \<Rightarrow> Inl TooManyBatches
          | Some batch_count \<Rightarrow>
              Inr (\<lparr>bh_server_id = sb_server_id b, bh_runtime_epoch = sb_runtime_epoch b,
                  bh_session_id = sb_session_id b, bh_sequence = sb_sequence b, bh_snapshot = sb_snapshot b,
                  bh_settings = sb_settings b, bh_batch_count = batch_count\<rparr>, batches, baselines))"

section \<open>Assembling, on the Client\<close>

record ('snap, 'set, 'git) bootstrap_assembler =
  ba_header :: "('snap, 'set) bootstrap_header"
  ba_next_batch_index :: u32
  ba_next_record_index :: u32
  ba_next_chunk_index :: u32
  ba_current_chunk_count :: "u32 option"
  ba_current_payload :: bytes
  ba_total_payload_size :: nat
  ba_terminals :: "pane_terminal list"
  ba_agents :: "pane_agent list"
  ba_workspace_git :: "'git workspace_git list"
  ba_zoomed_panes :: "pane_id list"
  ba_terminal_ids :: "pane_id set"
  ba_agent_ids :: "pane_id set"
  ba_workspace_git_ids :: "workspace_id set"
  ba_zoomed_pane_ids :: "pane_id set"

datatype 'e assembly_error =
    TooManyBatchesDeclared | MoreBatchesThanDeclared | IdentityMismatch | BatchOutOfOrder | RecordOutOfOrder
  | InvalidChunkRange | ChunkOutOfOrder | EmptyPayload | ChunkTooLarge | ChunkCountChanged | RecordCannotFit
  | RecordOverLimit | AggregateOverLimit | IndexOverflow | RecordUndecodable 'e | DuplicateTerminal
  | DuplicateAgent | DuplicateWorkspaceGit | DuplicateZoomedPane | EndedEarly | EndedMidRecord

definition checked_bootstrap_total_size :: "nat \<Rightarrow> nat \<Rightarrow> 'e assembly_error + nat" where
  "checked_bootstrap_total_size current additional =
     (case checked_add_usize current additional of
        None \<Rightarrow> Inl AggregateOverLimit
      | Some next_total \<Rightarrow> if MAX_BOOTSTRAP_TOTAL_SIZE < next_total then Inl AggregateOverLimit else Inr next_total)"

definition assembler_new ::
  "('snap, 'set) bootstrap_header \<Rightarrow> 'e assembly_error + ('snap, 'set, 'git) bootstrap_assembler" where
  "assembler_new header =
     (if MAX_BOOTSTRAP_BATCHES < unat (bh_batch_count header) then Inl TooManyBatchesDeclared
      else Inr \<lparr>ba_header = header, ba_next_batch_index = 0, ba_next_record_index = 0, ba_next_chunk_index = 0,
        ba_current_chunk_count = None, ba_current_payload = [], ba_total_payload_size = 0, ba_terminals = [],
        ba_agents = [], ba_workspace_git = [], ba_zoomed_panes = [], ba_terminal_ids = {}, ba_agent_ids = {},
        ba_workspace_git_ids = {}, ba_zoomed_pane_ids = {}\<rparr>)"

fun insert_record ::
  "'git bootstrap_record \<Rightarrow> ('snap, 'set, 'git) bootstrap_assembler
   \<Rightarrow> 'e assembly_error + ('snap, 'set, 'git) bootstrap_assembler" where
  "insert_record (TerminalRecord t) a =
     (if pt_pane_id t \<in> ba_terminal_ids a then Inl DuplicateTerminal
      else Inr (a\<lparr>ba_terminal_ids := insert (pt_pane_id t) (ba_terminal_ids a), ba_terminals := ba_terminals a @ [t]\<rparr>))"
| "insert_record (AgentRecord g) a =
     (if pa_pane_id g \<in> ba_agent_ids a then Inl DuplicateAgent
      else Inr (a\<lparr>ba_agent_ids := insert (pa_pane_id g) (ba_agent_ids a), ba_agents := ba_agents a @ [g]\<rparr>))"
| "insert_record (WorkspaceGitRecord w) a =
     (if wg_workspace_id w \<in> ba_workspace_git_ids a then Inl DuplicateWorkspaceGit
      else Inr (a\<lparr>ba_workspace_git_ids := insert (wg_workspace_id w) (ba_workspace_git_ids a),
             ba_workspace_git := ba_workspace_git a @ [w]\<rparr>))"
| "insert_record (ZoomedPaneRecord p) a =
     (if p \<in> ba_zoomed_pane_ids a then Inl DuplicateZoomedPane
      else Inr (a\<lparr>ba_zoomed_pane_ids := insert p (ba_zoomed_pane_ids a), ba_zoomed_panes := ba_zoomed_panes a @ [p]\<rparr>))"

text \<open>The checks of a batch, in order; then what a batch adds.\<close>

definition check_batch ::
  "bootstrap_batch \<Rightarrow> ('snap, 'set, 'git) bootstrap_assembler \<Rightarrow> 'e assembly_error + unit" where
  "check_batch batch a =
     (let header = ba_header a in
      if bh_batch_count header \<le> ba_next_batch_index a then Inl MoreBatchesThanDeclared
      else if bb_server_id batch \<noteq> bh_server_id header \<or> bb_session_id batch \<noteq> bh_session_id header
      then Inl IdentityMismatch
      else if bb_batch_index batch \<noteq> ba_next_batch_index a then Inl BatchOutOfOrder
      else if bb_record_index batch \<noteq> ba_next_record_index a then Inl RecordOutOfOrder
      else if bb_chunk_count batch = 0 \<or> bb_chunk_count batch \<le> bb_chunk_index batch then Inl InvalidChunkRange
      else if bb_chunk_index batch \<noteq> ba_next_chunk_index a then Inl ChunkOutOfOrder
      else if bb_payload batch = [] then Inl EmptyPayload
      else if MAX_CHUNK_PAYLOAD_SIZE < length (bb_payload batch) then Inl ChunkTooLarge
      else if (case ba_current_chunk_count a of Some n \<Rightarrow> n \<noteq> bb_chunk_count batch | None \<Rightarrow> False)
      then Inl ChunkCountChanged
      else if bh_batch_count header - ba_next_batch_index a < bb_chunk_count batch - bb_chunk_index batch
      then Inl RecordCannotFit
      else Inr ())"

text \<open>The end of a record: it is decoded and inserted, and the next one begins.\<close>

definition end_record ::
  "(bytes \<Rightarrow> 'e + 'git bootstrap_record option) \<Rightarrow> 'e \<Rightarrow> bytes \<Rightarrow> ('snap, 'set, 'git) bootstrap_assembler
   \<Rightarrow> 'e assembly_error + ('snap, 'set, 'git) bootstrap_assembler" where
  "end_record dec too_large payload a =
     bind_ok
       (case decode_chunked dec too_large payload of
          Inl e \<Rightarrow> Inl (RecordUndecodable e)
        | Inr (Some rec) \<Rightarrow> insert_record rec a
        | Inr None \<Rightarrow> Inr a)
       (\<lambda>a. case checked_add_u32 (ba_next_record_index a) 1 of
          None \<Rightarrow> Inl IndexOverflow
        | Some next_record \<Rightarrow>
            Inr (a\<lparr>ba_current_payload := [], ba_current_chunk_count := None, ba_next_chunk_index := 0,
                   ba_next_record_index := next_record\<rparr>))"

definition assembler_push ::
  "(bytes \<Rightarrow> 'e + 'git bootstrap_record option) \<Rightarrow> 'e \<Rightarrow> bootstrap_batch \<Rightarrow> ('snap, 'set, 'git) bootstrap_assembler
   \<Rightarrow> 'e assembly_error + ('snap, 'set, 'git) bootstrap_assembler" where
  "assembler_push dec too_large batch a =
     bind_ok (check_batch batch a) (\<lambda>_.
     let a = a\<lparr>ba_current_chunk_count := Some (bb_chunk_count batch)\<rparr> in
     case checked_add_usize (length (ba_current_payload a)) (length (bb_payload batch)) of
       None \<Rightarrow> Inl RecordOverLimit
     | Some next_size \<Rightarrow>
         if MAX_CHUNKED_RECORD_SIZE < next_size then Inl RecordOverLimit
         else bind_ok (checked_bootstrap_total_size (ba_total_payload_size a) (length (bb_payload batch))) (\<lambda>total_size.
         case (checked_add_u32 (ba_next_batch_index a) 1, checked_add_u32 (ba_next_chunk_index a) 1) of
           (Some next_batch, Some next_chunk) \<Rightarrow>
             let a = a\<lparr>ba_total_payload_size := total_size,
                       ba_current_payload := ba_current_payload a @ bb_payload batch,
                       ba_next_batch_index := next_batch, ba_next_chunk_index := next_chunk\<rparr> in
             if next_chunk \<noteq> bb_chunk_count batch then Inr a
             else end_record dec too_large (ba_current_payload a) a
         | _ \<Rightarrow> Inl IndexOverflow))"

definition assembler_finish ::
  "('snap, 'set, 'git) bootstrap_assembler \<Rightarrow> 'e assembly_error + ('snap, 'set, 'git) session_bootstrap" where
  "assembler_finish a =
     (let header = ba_header a in
      if ba_next_batch_index a \<noteq> bh_batch_count header then Inl EndedEarly
      else if ba_current_chunk_count a \<noteq> None \<or> ba_current_payload a \<noteq> [] then Inl EndedMidRecord
      else Inr \<lparr>sb_server_id = bh_server_id header, sb_runtime_epoch = bh_runtime_epoch header,
             sb_session_id = bh_session_id header, sb_sequence = bh_sequence header,
             sb_snapshot = bh_snapshot header, sb_settings = bh_settings header,
             sb_terminals = ba_terminals a, sb_agents = ba_agents a, sb_workspace_git = ba_workspace_git a,
             sb_zoomed_panes = ba_zoomed_panes a\<rparr>)"

text \<open>\<open>read_bootstrap_batches\<close>: as many batches as the header declares.\<close>

definition read_bootstrap ::
  "(bytes \<Rightarrow> 'e + 'git bootstrap_record option) \<Rightarrow> 'e \<Rightarrow> ('snap, 'set) bootstrap_header \<Rightarrow> bootstrap_batch list
   \<Rightarrow> 'e assembly_error + ('snap, 'set, 'git) session_bootstrap" where
  "read_bootstrap dec too_large header batches =
     bind_ok (assembler_new header) (\<lambda>a.
     bind_ok (fold_ok (assembler_push dec too_large) (take (unat (bh_batch_count header)) batches) a) assembler_finish)"

section \<open>What the split sends\<close>

lemma chunks_of_Cons: "xs \<noteq> [] \<Longrightarrow> 0 < n \<Longrightarrow> chunks_of n xs = take n xs # chunks_of n (drop n xs)"
  by (simp add: chunks_of.simps)

lemma chunks_of_Nil [simp]: "chunks_of n [] = []"
  by (simp add: chunks_of.simps)

lemma chunks_of_spec:
  "0 < n \<Longrightarrow> concat (chunks_of n xs) = xs \<and> (\<forall>c \<in> set (chunks_of n xs). c \<noteq> [] \<and> length c \<le> n)"
proof (induction n xs rule: chunks_of.induct)
  case (1 n xs)
  show ?case
  proof (cases "xs = []")
    case False
    then have IH: "concat (chunks_of n (drop n xs)) = drop n xs"
      "\<forall>c \<in> set (chunks_of n (drop n xs)). c \<noteq> [] \<and> length c \<le> n" using 1 by auto
    show ?thesis unfolding chunks_of_Cons [OF False 1(2)] using IH 1(2) False by simp
  qed simp
qed

lemma div_ceil_0 [simp]: "0 < n \<Longrightarrow> div_ceil 0 n = 0"
  by (simp add: div_ceil_def)

lemma div_ceil_step:
  assumes n: "0 < n" and m: "m \<noteq> 0"
  shows "div_ceil m n = Suc (div_ceil (m - n) n)"
proof -
  have up: "m + n - 1 = (m - 1) + n" using m by arith
  have "div_ceil m n = ((m - 1) + n) div n" by (simp only: div_ceil_def up)
  also have "\<dots> = Suc ((m - 1) div n)" using n by (simp only: div_add_self2 Suc_eq_plus1)
  also have "(m - 1) div n = div_ceil (m - n) n"
  proof (cases "n \<le> m")
    case True
    then have "m - n + n - 1 = m - 1" by arith
    then show ?thesis by (simp only: div_ceil_def)
  next
    case False
    then have "m - n = 0" "m - 1 < n" by arith+
    then show ?thesis using n by (simp only: div_ceil_0 div_less)
  qed
  finally show ?thesis .
qed

lemma length_chunks_of: "0 < n \<Longrightarrow> length (chunks_of n xs) = div_ceil (length xs) n"
proof (induction n xs rule: chunks_of.induct)
  case (1 n xs)
  show ?case
  proof (cases "xs = []")
    case False
    have "length (chunks_of n (drop n xs)) = div_ceil (length xs - n) n"
      using 1(1) [OF _ 1(2)] False 1(2) by (metis gr_implies_not0 length_drop)
    moreover have "div_ceil (length xs) n = Suc (div_ceil (length xs - n) n)"
      by (rule div_ceil_step [OF 1(2)]) (simp add: False)
    ultimately show ?thesis by (simp only: chunks_of_Cons [OF False 1(2)] list.size)
  next
    case True
    then show ?thesis using div_ceil_0 [OF 1(2)] by (simp only: chunks_of_Nil list.size)
  qed
qed

definition chunk_batch :: "u64 \<Rightarrow> u64 \<Rightarrow> nat \<Rightarrow> u32 \<Rightarrow> nat \<Rightarrow> u32 \<Rightarrow> bytes \<Rightarrow> bootstrap_batch" where
  "chunk_batch server session bi ri k n payload = \<lparr>bb_server_id = server, bb_session_id = session,
     bb_batch_index = of_nat bi, bb_record_index = ri, bb_chunk_index = of_nat k, bb_chunk_count = n,
     bb_payload = payload\<rparr>"

fun chunk_batches :: "u64 \<Rightarrow> u64 \<Rightarrow> nat \<Rightarrow> u32 \<Rightarrow> nat \<Rightarrow> u32 \<Rightarrow> bytes list \<Rightarrow> bootstrap_batch list" where
  "chunk_batches server session bi ri k n [] = []"
| "chunk_batches server session bi ri k n (payload # rest) =
     chunk_batch server session bi ri k n payload # chunk_batches server session (bi + 1) ri (k + 1) n rest"

lemma length_chunk_batches [simp]: "length (chunk_batches server session bi ri k n payloads) = length payloads"
  by (induction payloads arbitrary: bi k) simp_all

lemma push_chunks_sends:
  "push_chunks server session ri n k payloads batches = Inr out \<Longrightarrow>
   out = batches @ chunk_batches server session (length batches) ri k n payloads
   \<and> (payloads = [] \<or> length batches + length payloads \<le> MAX_BOOTSTRAP_BATCHES)"
proof (induction payloads arbitrary: k batches)
  case (Cons payload rest)
  from Cons.prems have "\<not> MAX_BOOTSTRAP_BATCHES \<le> length batches"
    and index: "u32_of (length batches) = Some (of_nat (length batches))" "u32_of k = Some (of_nat k)"
    by (auto simp: u32_of_def split: if_splits option.splits)
  with Cons.prems have step: "push_chunks server session ri n (k + 1) rest
      (batches @ [chunk_batch server session (length batches) ri k n payload]) = Inr out"
    by (simp add: chunk_batch_def)
  from Cons.IH [OF this] \<open>\<not> MAX_BOOTSTRAP_BATCHES \<le> length batches\<close> show ?case by auto
qed simp

text \<open>The batches of a list of records, the first of them record \<open>ri\<close> and batch \<open>bi\<close>.\<close>

fun records_batches ::
  "('git bootstrap_record \<Rightarrow> bytes) \<Rightarrow> u64 \<Rightarrow> u64 \<Rightarrow> nat \<Rightarrow> nat \<Rightarrow> 'git bootstrap_record list \<Rightarrow> bootstrap_batch list" where
  "records_batches enc server session ri bi [] = []"
| "records_batches enc server session ri bi (rec # records) =
     (let payloads = chunks_of MAX_CHUNK_PAYLOAD_SIZE (enc rec) in
      chunk_batches server session bi (of_nat ri) 0 (of_nat (length payloads)) payloads
      @ records_batches enc server session (ri + 1) (bi + length payloads) records)"

definition sendable :: "('git bootstrap_record \<Rightarrow> bytes) \<Rightarrow> 'git bootstrap_record list \<Rightarrow> bool" where
  "sendable enc records \<longleftrightarrow> (\<forall>rec \<in> set records. enc rec \<noteq> [] \<and> length (enc rec) \<le> MAX_CHUNKED_RECORD_SIZE)"

lemma chunk_count_word:
  assumes "u32_of (div_ceil (length payload) MAX_CHUNK_PAYLOAD_SIZE) = Some n"
  shows "n = of_nat (length (chunks_of MAX_CHUNK_PAYLOAD_SIZE payload))" and "n = 0 \<longleftrightarrow> payload = []"
proof -
  have len: "length (chunks_of MAX_CHUNK_PAYLOAD_SIZE payload) = div_ceil (length payload) MAX_CHUNK_PAYLOAD_SIZE"
    by (rule length_chunks_of [OF chunk_limits(1)])
  with assms show n: "n = of_nat (length (chunks_of MAX_CHUNK_PAYLOAD_SIZE payload))" by (simp add: u32_of_Some)
  have "unat n = length (chunks_of MAX_CHUNK_PAYLOAD_SIZE payload)"
    unfolding n using assms len by (simp add: u32_of_Some unat_of_nat_u32)
  then have "n = 0 \<longleftrightarrow> chunks_of MAX_CHUNK_PAYLOAD_SIZE payload = []"
    by (metis length_0_conv unat_eq_zero)
  also have "\<dots> \<longleftrightarrow> payload = []" using chunk_limits(1) by (subst chunks_of.simps) simp
  finally show "n = 0 \<longleftrightarrow> payload = []" .
qed

lemma split_records_sends:
  "split_records enc server session ri t records batches = Inr (out, baselines) \<Longrightarrow>
   out = batches @ records_batches enc server session ri (length batches) (map normalize_record records)
   \<and> baselines = concat (map record_baseline (map normalize_record records))
   \<and> sendable enc (map normalize_record records)
   \<and> (records = [] \<or> t + sum_list (map (length \<circ> enc) (map normalize_record records)) \<le> MAX_BOOTSTRAP_TOTAL_SIZE
        \<and> length out \<le> MAX_BOOTSTRAP_BATCHES)"
proof (induction records arbitrary: ri t batches out baselines)
  case (Cons rec records)
  let ?rec = "normalize_record rec"
  let ?payloads = "chunks_of MAX_CHUNK_PAYLOAD_SIZE (enc ?rec)"
  from Cons.prems obtain n batches1 baselines1 where
    index: "u32_of ri = Some (of_nat ri)" and small: "length (enc ?rec) \<le> MAX_CHUNKED_RECORD_SIZE"
    and total: "t + length (enc ?rec) \<le> MAX_BOOTSTRAP_TOTAL_SIZE"
    and n: "u32_of (div_ceil (length (enc ?rec)) MAX_CHUNK_PAYLOAD_SIZE) = Some n" "n \<noteq> 0"
    and chunks: "push_chunks server session (of_nat ri) n 0 ?payloads batches = Inr batches1"
    and rest: "split_records enc server session (ri + 1) (t + length (enc ?rec)) records batches1 = Inr (out, baselines1)"
    and baselines: "baselines = record_baseline ?rec @ baselines1"
    by (auto simp: encode_chunked_def Let_def u32_of_Some not_less split: if_splits option.splits)
  note count = chunk_count_word [OF n(1)]
  have some: "enc ?rec \<noteq> []" using n(2) count(2) by simp
  then have "?payloads \<noteq> []" by (simp add: chunks_of_Cons chunk_limits)
  with push_chunks_sends [OF chunks] count(1) have
    batches1: "batches1 = batches @ chunk_batches server session (length batches) (of_nat ri) 0 (of_nat (length ?payloads)) ?payloads"
    and fits: "length batches + length ?payloads \<le> MAX_BOOTSTRAP_BATCHES" by auto
  from Cons.IH [OF rest] batches1 fits small some total baselines show ?case
    by (auto simp: sendable_def Let_def)
qed (simp add: sendable_def)

end
