(* ===== verification/Bootstrap_Transfer.thy ===== *)
theory Bootstrap_Transfer
  imports Chunked_Transfer
begin

text \<open>
  A Bootstrap arrives as it was sent: what \<open>BootstrapAssembler\<close> makes of the batches
  \<open>split_bootstrap_records\<close> sends, batch by batch and record by record.
\<close>

section \<open>One batch\<close>

text \<open>The assembler inside a record: \<open>k\<close> of its \<open>n\<close> chunks are in, with payload \<open>sofar\<close>; \<open>bi\<close> is the
  record's first batch and \<open>t\<close> the bytes before it.\<close>

definition mid_record ::
  "('snap, 'set, 'git) bootstrap_assembler \<Rightarrow> nat \<Rightarrow> nat \<Rightarrow> nat \<Rightarrow> nat \<Rightarrow> bytes \<Rightarrow> ('snap, 'set, 'git) bootstrap_assembler" where
  "mid_record a bi t n k sofar = a\<lparr>ba_next_batch_index := of_nat (bi + k), ba_next_chunk_index := of_nat k,
     ba_current_chunk_count := (if k = 0 then None else Some (of_nat n)), ba_current_payload := sofar,
     ba_total_payload_size := t + length sofar\<rparr>"

lemma add_one_u32: "n + 1 < 2 ^ 32 \<Longrightarrow> checked_add_u32 (of_nat n) 1 = Some (of_nat (n + 1))"
  by (simp add: checked_add_u32_Some unat_of_nat_u32)

lemma of_nat_u32_le: "m < 2 ^ 32 \<Longrightarrow> n < 2 ^ 32 \<Longrightarrow> (of_nat m :: u32) \<le> of_nat n \<longleftrightarrow> m \<le> n"
  by (simp add: word_le_nat_alt unat_of_nat_u32)

lemma of_nat_u32_less: "m < 2 ^ 32 \<Longrightarrow> n < 2 ^ 32 \<Longrightarrow> (of_nat m :: u32) < of_nat n \<longleftrightarrow> m < n"
  by (simp add: word_less_nat_alt unat_of_nat_u32)

lemma of_nat_u32_inj: "m < 2 ^ 32 \<Longrightarrow> n < 2 ^ 32 \<Longrightarrow> (of_nat m :: u32) = of_nat n \<longleftrightarrow> m = n"
  using unat_of_nat_u32 by metis

lemma of_nat_u32_diff: "n \<le> m \<Longrightarrow> (of_nat m :: u32) - of_nat n = of_nat (m - n)"
  by (simp add: of_nat_diff)

text \<open>A header that fits its batches, and a record whose batches lie inside the declared count.\<close>

definition header_of :: "u64 \<Rightarrow> u64 \<Rightarrow> nat \<Rightarrow> ('snap, 'set, 'git) bootstrap_assembler \<Rightarrow> bool" where
  "header_of server session declared a \<longleftrightarrow> bh_server_id (ba_header a) = server \<and> bh_session_id (ba_header a) = session
     \<and> bh_batch_count (ba_header a) = of_nat declared \<and> declared \<le> MAX_BOOTSTRAP_BATCHES"

lemma check_batch_ok:
  assumes head: "header_of server session declared a" and fits: "bi + n \<le> declared" and k: "k < n"
    and chunk: "chunk \<noteq> []" "length chunk \<le> MAX_CHUNK_PAYLOAD_SIZE"
    and ri: "ba_next_record_index a = ri"
  shows "check_batch (chunk_batch server session (bi + k) ri k (of_nat n) chunk) (mid_record a bi t n k sofar) = Inr ()"
proof -
  have small: "declared < 2 ^ 32" "bi + k < declared" "n < 2 ^ 32" "k < 2 ^ 32" "bi + k < 2 ^ 32"
    using head fits k by (simp_all add: header_of_def chunk_limits(4))
  have "(of_nat declared :: u32) - of_nat (bi + k) = of_nat (declared - (bi + k))"
    "(of_nat n :: u32) - of_nat k = of_nat (n - k)"
    using small k by (simp_all only: of_nat_u32_diff less_imp_le)
  then have room: "\<not> (of_nat declared :: u32) - of_nat (bi + k) < of_nat n - of_nat k"
    using small fits by (simp only: of_nat_u32_less)
  have order: "\<not> (of_nat declared :: u32) \<le> of_nat (bi + k)" "\<not> (of_nat n :: u32) \<le> of_nat k"
    using small k by (simp_all only: of_nat_u32_le not_le)
  have "(of_nat n :: u32) \<noteq> 0" using of_nat_u32_inj [of n 0] small k by simp
  with head room order chunk ri show ?thesis
    by (simp add: check_batch_def mid_record_def chunk_batch_def header_of_def Let_def)
qed

lemma push_step:
  fixes dec :: "bytes \<Rightarrow> 'e + 'git bootstrap_record option"
  assumes "check_batch batch a = (Inr () :: 'e assembly_error + unit)"
    and "checked_add_usize (length (ba_current_payload a)) (length (bb_payload batch)) = Some next_size"
    and "next_size \<le> MAX_CHUNKED_RECORD_SIZE"
    and "checked_bootstrap_total_size (ba_total_payload_size a) (length (bb_payload batch))
       = (Inr total_size :: 'e assembly_error + nat)"
    and "checked_add_u32 (ba_next_batch_index a) 1 = Some next_batch"
    and "checked_add_u32 (ba_next_chunk_index a) 1 = Some next_chunk"
  shows "assembler_push dec too_large batch a
    = (let a' = (a\<lparr>ba_current_chunk_count := Some (bb_chunk_count batch)\<rparr>)
         \<lparr>ba_total_payload_size := total_size, ba_current_payload := ba_current_payload a @ bb_payload batch,
          ba_next_batch_index := next_batch, ba_next_chunk_index := next_chunk\<rparr> in
       if next_chunk \<noteq> bb_chunk_count batch then Inr a' else end_record dec too_large (ba_current_payload a') a')"
  using assms by (simp add: assembler_push_def Let_def not_less del: checked_add_usize_Some)

lemma push_chunk:
  fixes dec :: "bytes \<Rightarrow> 'e + 'git bootstrap_record option"
  assumes head: "header_of server session declared a" and fits: "bi + n \<le> declared" and k: "k < n"
    and chunk: "chunk \<noteq> []" "length chunk \<le> MAX_CHUNK_PAYLOAD_SIZE"
    and ri: "ba_next_record_index a = ri"
    and record_fits: "length sofar + length chunk \<le> MAX_CHUNKED_RECORD_SIZE"
    and total_fits: "t + length sofar + length chunk \<le> MAX_BOOTSTRAP_TOTAL_SIZE"
  shows "assembler_push dec too_large (chunk_batch server session (bi + k) ri k (of_nat n) chunk) (mid_record a bi t n k sofar)
    = (if k + 1 = n then end_record dec too_large (sofar @ chunk) (mid_record a bi t n (k + 1) (sofar @ chunk))
       else Inr (mid_record a bi t n (k + 1) (sofar @ chunk)))"
proof -
  let ?mid = "mid_record a bi t n k sofar" and ?mid' = "mid_record a bi t n (k + 1) (sofar @ chunk)"
  let ?batch = "chunk_batch server session (bi + k) ri k (of_nat n) chunk"
  have small: "n < 2 ^ 32" "k + 1 < 2 ^ 32" "bi + k + 1 < 2 ^ 32"
    using head fits k by (simp_all add: header_of_def chunk_limits(4))
  have check: "check_batch ?batch ?mid = (Inr () :: 'e assembly_error + unit)"
    by (rule check_batch_ok [OF head fits k chunk ri])
  have add: "checked_add_usize (length sofar) (length chunk) = Some (length sofar + length chunk)"
    using record_fits chunk_limits(2) by (simp add: checked_add_usize_def)
  have sum: "checked_bootstrap_total_size (t + length sofar) (length chunk)
      = (Inr (t + length sofar + length chunk) :: 'e assembly_error + nat)"
    using total_fits chunk_limits(3) by (simp add: checked_bootstrap_total_size_def checked_add_usize_def)
  have next_batch: "checked_add_u32 (of_nat (bi + k)) 1 = Some (of_nat (bi + k + 1))" by (rule add_one_u32) (rule small)
  have next_chunk: "checked_add_u32 (of_nat k) 1 = Some (of_nat (k + 1))" by (rule add_one_u32) (rule small)
  have last: "(of_nat (k + 1) :: u32) = of_nat n \<longleftrightarrow> k + 1 = n" using small by (simp only: of_nat_u32_inj)
  have after: "(?mid\<lparr>ba_current_chunk_count := Some (of_nat n)\<rparr>)
      \<lparr>ba_total_payload_size := t + length sofar + length chunk, ba_current_payload := sofar @ chunk,
       ba_next_batch_index := of_nat (bi + k + 1), ba_next_chunk_index := of_nat (k + 1)\<rparr> = ?mid'"
    by (simp add: mid_record_def)
  have parts: "ba_current_payload ?mid = sofar" "ba_total_payload_size ?mid = t + length sofar"
    "ba_next_batch_index ?mid = of_nat (bi + k)" "ba_next_chunk_index ?mid = of_nat k"
    "bb_payload ?batch = chunk" "bb_chunk_count ?batch = of_nat n"
    by (simp_all add: mid_record_def chunk_batch_def)
  have "assembler_push dec too_large ?batch ?mid
      = (let a' = (?mid\<lparr>ba_current_chunk_count := Some (of_nat n)\<rparr>)
           \<lparr>ba_total_payload_size := t + length sofar + length chunk, ba_current_payload := sofar @ chunk,
            ba_next_batch_index := of_nat (bi + k + 1), ba_next_chunk_index := of_nat (k + 1)\<rparr> in
         if of_nat (k + 1) \<noteq> (of_nat n :: u32) then Inr a' else end_record dec too_large (ba_current_payload a') a')"
    by (rule push_step [OF check, unfolded parts, OF add record_fits sum next_batch next_chunk])
  then have "assembler_push dec too_large ?batch ?mid
      = (if of_nat (k + 1) \<noteq> (of_nat n :: u32) then Inr ?mid'
         else end_record dec too_large (ba_current_payload ?mid') ?mid')"
    by (simp only: after Let_def)
  moreover have "ba_current_payload ?mid' = sofar @ chunk" by (simp add: mid_record_def)
  ultimately show ?thesis by (simp only: last) simp
qed

section \<open>One record\<close>

lemma push_record_chunks:
  fixes dec :: "bytes \<Rightarrow> 'e + 'git bootstrap_record option"
  assumes head: "header_of server session declared a" and fits: "bi + n \<le> declared"
    and ri: "ba_next_record_index a = ri"
  shows "n = k + length chunks \<Longrightarrow> chunks \<noteq> [] \<Longrightarrow> (\<forall>c \<in> set chunks. c \<noteq> [] \<and> length c \<le> MAX_CHUNK_PAYLOAD_SIZE) \<Longrightarrow>
    length sofar + length (concat chunks) \<le> MAX_CHUNKED_RECORD_SIZE \<Longrightarrow>
    t + length sofar + length (concat chunks) \<le> MAX_BOOTSTRAP_TOTAL_SIZE \<Longrightarrow>
    fold_ok (assembler_push dec too_large) (chunk_batches server session (bi + k) ri k (of_nat n) chunks) (mid_record a bi t n k sofar)
    = end_record dec too_large (sofar @ concat chunks) (mid_record a bi t n n (sofar @ concat chunks))"
proof (induction chunks arbitrary: k sofar)
  case (Cons chunk chunks)
  have k: "k < n" using Cons.prems(1) by simp
  have fit1: "length sofar + length chunk \<le> MAX_CHUNKED_RECORD_SIZE" using Cons.prems(4) by simp
  have fit2: "t + length sofar + length chunk \<le> MAX_BOOTSTRAP_TOTAL_SIZE" using Cons.prems(5) by simp
  have ok: "chunk \<noteq> []" "length chunk \<le> MAX_CHUNK_PAYLOAD_SIZE" using Cons.prems(3) by simp_all
  have step: "assembler_push dec too_large (chunk_batch server session (bi + k) ri k (of_nat n) chunk) (mid_record a bi t n k sofar)
    = (if k + 1 = n then end_record dec too_large (sofar @ chunk) (mid_record a bi t n (k + 1) (sofar @ chunk))
       else Inr (mid_record a bi t n (k + 1) (sofar @ chunk)))"
    by (rule push_chunk [OF head fits k ok ri fit1 fit2])
  show ?case
  proof (cases "chunks = []")
    case True
    then have last: "k + 1 = n" using Cons.prems(1) by simp
    have id: "bind_ok r Inr = r" for r :: "'e assembly_error + ('a, 'b, 'git) bootstrap_assembler" by (cases r) simp_all
    have none_left: "fold_ok (assembler_push dec too_large) [] = Inr" by (rule ext) simp
    show ?thesis
      unfolding True chunk_batches.simps fold_ok.simps(2) step last none_left
      by (simp only: id if_True simp_thms concat.simps append_Nil2)
  next
    case False
    have "fold_ok (assembler_push dec too_large) (chunk_batches server session (bi + (k + 1)) ri (k + 1) (of_nat n) chunks)
        (mid_record a bi t n (k + 1) (sofar @ chunk))
      = end_record dec too_large ((sofar @ chunk) @ concat chunks) (mid_record a bi t n n ((sofar @ chunk) @ concat chunks))"
    proof (rule Cons.IH [OF _ False])
      show "n = (k + 1) + length chunks" using Cons.prems(1) by simp
      show "\<forall>c \<in> set chunks. c \<noteq> [] \<and> length c \<le> MAX_CHUNK_PAYLOAD_SIZE" using Cons.prems(3) by simp
      show "length (sofar @ chunk) + length (concat chunks) \<le> MAX_CHUNKED_RECORD_SIZE" using Cons.prems(4) by simp
      show "t + length (sofar @ chunk) + length (concat chunks) \<le> MAX_BOOTSTRAP_TOTAL_SIZE" using Cons.prems(5) by simp
    qed
    moreover have more_left: "(k + 1 = n) = False" using Cons.prems(1) False by (cases chunks) simp_all
    ultimately show ?thesis
      unfolding chunk_batches.simps fold_ok.simps(2) step more_left
      by (simp only: if_False bind_ok.simps add.assoc concat.simps append.assoc)
  qed
qed simp

text \<open>The assembler between two records, with the records it collected.\<close>

definition between :: "nat \<Rightarrow> nat \<Rightarrow> nat \<Rightarrow> ('snap, 'set, 'git) bootstrap_assembler \<Rightarrow> bool" where
  "between bi ri t a \<longleftrightarrow> ba_next_batch_index a = of_nat bi \<and> ba_next_record_index a = of_nat ri
     \<and> ba_next_chunk_index a = 0 \<and> ba_current_chunk_count a = None \<and> ba_current_payload a = []
     \<and> ba_total_payload_size a = t"

definition terminals_in :: "'git bootstrap_record list \<Rightarrow> pane_terminal list" where
  "terminals_in recs = concat (map (\<lambda>r. case r of TerminalRecord t \<Rightarrow> [t] | _ \<Rightarrow> []) recs)"

definition agents_in :: "'git bootstrap_record list \<Rightarrow> pane_agent list" where
  "agents_in recs = concat (map (\<lambda>r. case r of AgentRecord g \<Rightarrow> [g] | _ \<Rightarrow> []) recs)"

definition git_in :: "'git bootstrap_record list \<Rightarrow> 'git workspace_git list" where
  "git_in recs = concat (map (\<lambda>r. case r of WorkspaceGitRecord w \<Rightarrow> [w] | _ \<Rightarrow> []) recs)"

definition zoomed_in :: "'git bootstrap_record list \<Rightarrow> pane_id list" where
  "zoomed_in recs = concat (map (\<lambda>r. case r of ZoomedPaneRecord p \<Rightarrow> [p] | _ \<Rightarrow> []) recs)"

lemmas records_in = terminals_in_def agents_in_def git_in_def zoomed_in_def

definition collected :: "'git bootstrap_record list \<Rightarrow> ('snap, 'set, 'git) bootstrap_assembler \<Rightarrow> bool" where
  "collected recs a \<longleftrightarrow> ba_terminals a = terminals_in recs \<and> ba_agents a = agents_in recs
     \<and> ba_workspace_git a = git_in recs \<and> ba_zoomed_panes a = zoomed_in recs
     \<and> ba_terminal_ids a = pt_pane_id ` set (terminals_in recs) \<and> ba_agent_ids a = pa_pane_id ` set (agents_in recs)
     \<and> ba_workspace_git_ids a = wg_workspace_id ` set (git_in recs) \<and> ba_zoomed_pane_ids a = set (zoomed_in recs)"

definition distinct_records :: "'git bootstrap_record list \<Rightarrow> bool" where
  "distinct_records recs \<longleftrightarrow> distinct (map pt_pane_id (terminals_in recs)) \<and> distinct (map pa_pane_id (agents_in recs))
     \<and> distinct (map wg_workspace_id (git_in recs)) \<and> distinct (zoomed_in recs)"

lemma records_in_append:
  "terminals_in (xs @ ys) = terminals_in xs @ terminals_in ys" "agents_in (xs @ ys) = agents_in xs @ agents_in ys"
  "git_in (xs @ ys) = git_in xs @ git_in ys" "zoomed_in (xs @ ys) = zoomed_in xs @ zoomed_in ys"
  by (simp_all add: records_in)

lemma distinct_records_prefix: "distinct_records (xs @ ys) \<Longrightarrow> distinct_records xs"
  by (simp add: distinct_records_def records_in_append)

lemma insert_record_collects:
  assumes "collected recs a" and "distinct_records (recs @ [rec])"
  shows "\<exists>a'. insert_record rec a = Inr a' \<and> collected (recs @ [rec]) a' \<and> ba_header a' = ba_header a
    \<and> ba_next_batch_index a' = ba_next_batch_index a \<and> ba_next_record_index a' = ba_next_record_index a
    \<and> ba_total_payload_size a' = ba_total_payload_size a"
  using assms by (cases rec) (auto simp: collected_def distinct_records_def records_in image_iff)

lemma collected_mid: "collected recs (mid_record a bi t n k sofar) = collected recs a"
  by (simp add: collected_def mid_record_def)

lemma end_record_collects:
  fixes dec :: "bytes \<Rightarrow> 'e + 'git bootstrap_record option"
  assumes dec: "dec payload = Inr (Some rec)" and small: "length payload \<le> MAX_CHUNKED_RECORD_SIZE"
    and collected: "collected recs a" and distinct: "distinct_records (recs @ [rec])"
    and ri: "ba_next_record_index a = of_nat ri" "ri + 1 < 2 ^ 32"
  shows "\<exists>a'. end_record dec too_large payload a = Inr a' \<and> collected (recs @ [rec]) a' \<and> ba_header a' = ba_header a
    \<and> ba_next_batch_index a' = ba_next_batch_index a \<and> ba_total_payload_size a' = ba_total_payload_size a
    \<and> ba_next_record_index a' = of_nat (ri + 1) \<and> ba_next_chunk_index a' = 0 \<and> ba_current_chunk_count a' = None
    \<and> ba_current_payload a' = []"
proof -
  from insert_record_collects [OF collected distinct] obtain a1 where
    a1: "insert_record rec a = (Inr a1 :: 'e assembly_error + _)" "collected (recs @ [rec]) a1" "ba_header a1 = ba_header a"
      "ba_next_batch_index a1 = ba_next_batch_index a" "ba_next_record_index a1 = ba_next_record_index a"
      "ba_total_payload_size a1 = ba_total_payload_size a" by blast
  have decoded: "decode_chunked dec too_large payload = Inr (Some rec)"
    using dec small by (simp add: decode_chunked_def)
  have rec_index: "checked_add_u32 (ba_next_record_index a1) 1 = Some (of_nat (ri + 1))"
    unfolding a1(5) ri(1) by (rule add_one_u32 [OF ri(2)])
  let ?a = "a1\<lparr>ba_current_payload := [], ba_current_chunk_count := None, ba_next_chunk_index := 0,
    ba_next_record_index := of_nat (ri + 1)\<rparr>"
  have "end_record dec too_large payload a = Inr ?a"
    unfolding end_record_def decoded by (simp add: a1(1) rec_index)
  moreover have "collected (recs @ [rec]) ?a" using a1(2) by (simp add: collected_def)
  ultimately show ?thesis using a1 by auto
qed

lemma record_step:
  fixes dec :: "bytes \<Rightarrow> 'e + 'git bootstrap_record option"
  assumes head: "header_of server session declared a" and between: "between bi ri t a" and collected: "collected recs a"
    and distinct: "distinct_records (recs @ [rec])" and payload: "payload \<noteq> []"
    and chunks: "chunks_of MAX_CHUNK_PAYLOAD_SIZE payload = chunks" and fits: "bi + length chunks \<le> declared"
    and small: "length payload \<le> MAX_CHUNKED_RECORD_SIZE" "t + length payload \<le> MAX_BOOTSTRAP_TOTAL_SIZE"
    and dec: "dec payload = Inr (Some rec)" and ri: "ri + 1 < 2 ^ 32"
  shows "\<exists>a'. fold_ok (assembler_push dec too_large) (chunk_batches server session bi (of_nat ri) 0 (of_nat (length chunks)) chunks) a
      = Inr a' \<and> header_of server session declared a' \<and> ba_header a' = ba_header a
    \<and> between (bi + length chunks) (ri + 1) (t + length payload) a' \<and> collected (recs @ [rec]) a'"
proof -
  let ?n = "length chunks"
  have spec: "concat chunks = payload" "\<forall>c \<in> set chunks. c \<noteq> [] \<and> length c \<le> MAX_CHUNK_PAYLOAD_SIZE"
    using chunks_of_spec [OF chunk_limits(1), of payload] chunks by simp_all
  have some: "chunks \<noteq> []" using spec(1) payload by auto
  have start: "mid_record a bi t ?n 0 [] = a"
    using between by (cases a) (simp add: between_def mid_record_def)
  have rec_index: "ba_next_record_index a = of_nat ri" using between by (simp add: between_def)
  have "fold_ok (assembler_push dec too_large) (chunk_batches server session (bi + 0) (of_nat ri) 0 (of_nat ?n) chunks)
      (mid_record a bi t ?n 0 [])
    = end_record dec too_large ([] @ concat chunks) (mid_record a bi t ?n ?n ([] @ concat chunks))"
    by (rule push_record_chunks [OF head fits rec_index]) (use some spec small in simp_all)
  then have run: "fold_ok (assembler_push dec too_large) (chunk_batches server session bi (of_nat ri) 0 (of_nat ?n) chunks) a
      = end_record dec too_large payload (mid_record a bi t ?n ?n payload)"
    by (simp add: start spec(1))
  have "ba_next_record_index (mid_record a bi t ?n ?n payload) = of_nat ri" using rec_index by (simp add: mid_record_def)
  from end_record_collects [of dec payload rec recs "mid_record a bi t ?n ?n payload", unfolded collected_mid,
      OF dec small(1) collected distinct this ri, of too_large]
  show ?thesis using head by (auto simp: run between_def mid_record_def header_of_def)
qed

section \<open>All of them\<close>

lemma length_records_batches:
  "sendable enc records \<Longrightarrow> length records \<le> length (records_batches enc server session ri bi records)"
proof (induction records arbitrary: ri bi)
  case (Cons rec records)
  have "enc rec \<noteq> []" "sendable enc records" using Cons.prems by (simp_all add: sendable_def)
  then have "chunks_of MAX_CHUNK_PAYLOAD_SIZE (enc rec) \<noteq> []" by (simp add: chunks_of_Cons chunk_limits)
  then have one: "1 \<le> length (chunks_of MAX_CHUNK_PAYLOAD_SIZE (enc rec))" by (simp add: Suc_le_eq)
  show ?case
    using add_mono [OF one Cons.IH [OF \<open>sendable enc records\<close>]] by (simp add: Let_def)
qed simp

lemma records_arrive:
  fixes dec :: "bytes \<Rightarrow> 'e + 'git bootstrap_record option"
  shows "header_of server session declared a \<Longrightarrow> between bi ri t a \<Longrightarrow> collected recs a \<Longrightarrow>
    distinct_records (recs @ records) \<Longrightarrow> sendable enc records \<Longrightarrow>
    bi + length (records_batches enc server session ri bi records) \<le> declared \<Longrightarrow>
    t + sum_list (map (length \<circ> enc) records) \<le> MAX_BOOTSTRAP_TOTAL_SIZE \<Longrightarrow> ri + length records < 2 ^ 32 \<Longrightarrow>
    (\<forall>rec \<in> set records. dec (enc rec) = Inr (Some rec)) \<Longrightarrow>
    \<exists>a'. fold_ok (assembler_push dec too_large) (records_batches enc server session ri bi records) a = Inr a'
      \<and> ba_header a' = ba_header a \<and> collected (recs @ records) a'
      \<and> (\<exists>t. between (bi + length (records_batches enc server session ri bi records)) (ri + length records) t a')"
proof (induction records arbitrary: a bi ri t recs)
  case (Cons rec records)
  let ?chunks = "chunks_of MAX_CHUNK_PAYLOAD_SIZE (enc rec)"
  let ?first = "chunk_batches server session bi (of_nat ri) 0 (of_nat (length ?chunks)) ?chunks"
  let ?rest = "records_batches enc server session (ri + 1) (bi + length ?chunks) records"
  have batches: "records_batches enc server session ri bi (rec # records) = ?first @ ?rest" by (simp add: Let_def)
  have fits: "bi + length ?chunks + length ?rest \<le> declared" using Cons.prems(6) unfolding batches by simp
  have d1: "distinct_records (recs @ [rec])"
    by (rule distinct_records_prefix [of _ records]) (use Cons.prems(4) in simp)
  have p: "enc rec \<noteq> []" "length (enc rec) \<le> MAX_CHUNKED_RECORD_SIZE" "sendable enc records"
    using Cons.prems(5) by (simp_all add: sendable_def)
  have t1: "t + length (enc rec) \<le> MAX_BOOTSTRAP_TOTAL_SIZE"
    and t2: "t + length (enc rec) + sum_list (map (length \<circ> enc) records) \<le> MAX_BOOTSTRAP_TOTAL_SIZE"
    using Cons.prems(7) by (simp_all add: comp_def add.assoc)
  have bi: "bi + length ?chunks \<le> declared" using fits by simp
  have ri: "ri + 1 < 2 ^ 32" "ri + 1 + length records < 2 ^ 32" using Cons.prems(8) by simp_all
  have dec: "dec (enc rec) = Inr (Some rec)" "\<forall>rec \<in> set records. dec (enc rec) = Inr (Some rec)"
    using Cons.prems(9) by simp_all
  from record_step [where dec = dec and too_large = too_large and payload = "enc rec" and chunks = ?chunks,
      OF Cons.prems(1,2,3) d1 p(1) refl bi p(2) t1 dec(1) ri(1)] obtain a1 where
    a1: "fold_ok (assembler_push dec too_large) ?first a = Inr a1" "header_of server session declared a1"
      "ba_header a1 = ba_header a" "between (bi + length ?chunks) (ri + 1) (t + length (enc rec)) a1"
      "collected (recs @ [rec]) a1" by blast
  have d2: "distinct_records ((recs @ [rec]) @ records)" using Cons.prems(4) by simp
  from Cons.IH [OF a1(2,4,5) d2 p(3) fits t2 ri(2) dec(2)] obtain a' t' where
    a': "fold_ok (assembler_push dec too_large) ?rest a1 = Inr a'" "ba_header a' = ba_header a1"
      "collected ((recs @ [rec]) @ records) a'"
      "between (bi + length ?chunks + length ?rest) (ri + 1 + length records) t' a'" by blast
  have "fold_ok (assembler_push dec too_large) (?first @ ?rest) a = Inr a'"
    using a1(1) a'(1) by (simp only: fold_ok_append bind_ok.simps)
  then show ?case unfolding batches using a' a1(3) by (auto simp: add.assoc)
qed auto

text \<open>What arrives of a Terminal: its view with the frame limits on links applied.\<close>

definition arrived :: "pane_terminal \<Rightarrow> pane_terminal" where
  "arrived t = t\<lparr>pt_view := map_option normalize_view (pt_view t)\<rparr>"

definition bootstrap_ok :: "('snap, 'set, 'git) session_bootstrap \<Rightarrow> bool" where
  "bootstrap_ok b \<longleftrightarrow> distinct (map pt_pane_id (sb_terminals b)) \<and> distinct (map pa_pane_id (sb_agents b))
     \<and> distinct (map wg_workspace_id (sb_workspace_git b)) \<and> distinct (sb_zoomed_panes b)"

lemma sent_records:
  "map normalize_record (bootstrap_records b) = map TerminalRecord (map arrived (sb_terminals b)) @ map AgentRecord (sb_agents b)
     @ map WorkspaceGitRecord (sb_workspace_git b) @ map ZoomedPaneRecord (sb_zoomed_panes b)"
  by (simp add: bootstrap_records_def arrived_def)

lemma concat_singles [simp]: "concat (map (\<lambda>x. [f x]) xs) = map f xs" "concat (map (\<lambda>x. []) xs) = []"
  by (induction xs) simp_all

lemma records_in_sent:
  "terminals_in (map TerminalRecord ts @ map AgentRecord gs @ map WorkspaceGitRecord ws @ map ZoomedPaneRecord ps) = ts"
  "agents_in (map TerminalRecord ts @ map AgentRecord gs @ map WorkspaceGitRecord ws @ map ZoomedPaneRecord ps) = gs"
  "git_in (map TerminalRecord ts @ map AgentRecord gs @ map WorkspaceGitRecord ws @ map ZoomedPaneRecord ps) = ws"
  "zoomed_in (map TerminalRecord ts @ map AgentRecord gs @ map WorkspaceGitRecord ws @ map ZoomedPaneRecord ps) = ps"
  by (simp_all add: records_in comp_def)

lemma sent_distinct: "bootstrap_ok b \<Longrightarrow> distinct_records (map normalize_record (bootstrap_records b))"
  unfolding sent_records distinct_records_def records_in_sent bootstrap_ok_def
  by (simp add: arrived_def comp_def)

lemma sent_baselines:
  "concat (map record_baseline (map normalize_record (bootstrap_records b)))
   = concat (map (\<lambda>t. case pt_view t of Some view \<Rightarrow> [(pt_pane_id t, view)] | None \<Rightarrow> []) (map arrived (sb_terminals b)))"
  unfolding sent_records by (simp add: comp_def)


definition small_bootstrap :: "(unit, unit, unit) session_bootstrap" where
  "small_bootstrap = \<lparr>sb_server_id = 1, sb_runtime_epoch = 2, sb_session_id = 3, sb_sequence = 4, sb_snapshot = (),
     sb_settings = (), sb_terminals = [], sb_agents = [], sb_workspace_git = [], sb_zoomed_panes = [PaneId 5]\<rparr>"


end
