(* ===== verification/Frame_Batches.thy ===== *)
theory Frame_Batches
  imports Bootstrap_Transfer
begin

text \<open>
  How the frames of a render travel: the Server packs them into batches under the frame limit and
  sends a Pane's frame that exceeds it alone, in chunks (\<open>server/terminal_stream.rs\<close>,
  \<open>protocol/framing.rs\<close>); the Client takes batches as they are and puts chunks together
  (\<open>condr-client/src/frames.rs\<close>). Protobuf sizes and bytes are the library's: a \<open>frame_codec\<close> holds the
  lengths and the encoder the code asks it for. A message stands for the bytes it encodes to.
\<close>

section \<open>Messages\<close>

record frame_chunk =
  fc_server_id :: u64
  fc_session_id :: u64
  fc_pane_id :: pane_id
  fc_revision :: u64
  fc_chunk_index :: u32
  fc_chunk_count :: u32
  fc_payload :: bytes

datatype frame_message = FrameBatch frame_batch | FrameChunk frame_chunk

text \<open>The encoder of a Pane's frame, the bytes it adds to a batch (tag and length included), and the
  length of a whole message.\<close>

record frame_codec =
  co_record :: "pane_frame \<Rightarrow> bytes"
  co_pane_len :: "pane_frame \<Rightarrow> nat"
  co_message_len :: "frame_message \<Rightarrow> nat"

section \<open>The Server: packing\<close>

datatype batch_error = Oversized nat nat | Unsplit split_error

definition frame_body :: "frame_codec \<Rightarrow> nat \<Rightarrow> frame_message \<Rightarrow> batch_error + frame_message" where
  "frame_body co limit message =
     (if limit < co_message_len co message then Inl (Oversized (co_message_len co message) limit) else Inr message)"

definition frame_terminal_batch :: "frame_codec \<Rightarrow> u64 \<Rightarrow> u64 \<Rightarrow> pane_frame list \<Rightarrow> batch_error + frame_message" where
  "frame_terminal_batch co server session panes =
     frame_body co MAX_FRAME_SIZE
       (FrameBatch \<lparr>fb_server_id = server, fb_session_id = session, fb_panes = panes\<rparr>)"

definition terminal_batch_overhead :: "frame_codec \<Rightarrow> u64 \<Rightarrow> u64 \<Rightarrow> nat" where
  "terminal_batch_overhead co server session =
     co_message_len co (FrameBatch \<lparr>fb_server_id = server, fb_session_id = session, fb_panes = []\<rparr>)
       + 2 * MAX_FRAME_PREFIX"

definition append_terminal_frame_batch ::
  "frame_codec \<Rightarrow> u64 \<Rightarrow> u64 \<Rightarrow> pane_frame list \<Rightarrow> frame_message list \<Rightarrow> batch_error + frame_message list" where
  "append_terminal_frame_batch co server session panes frames =
     (if panes = [] then Inr frames
      else bind_ok (frame_terminal_batch co server session panes) (\<lambda>message. Inr (frames @ [message])))"

text \<open>The chunks of one record, each framed as its own message.\<close>

fun append_chunks ::
  "frame_codec \<Rightarrow> u64 \<Rightarrow> u64 \<Rightarrow> pane_id \<Rightarrow> u64 \<Rightarrow> u32 \<Rightarrow> nat \<Rightarrow> bytes list \<Rightarrow> frame_message list
   \<Rightarrow> batch_error + frame_message list" where
  "append_chunks co server session pane_id revision chunk_count chunk_index [] frames = Inr frames"
| "append_chunks co server session pane_id revision chunk_count chunk_index (payload # rest) frames =
     (case u32_of chunk_index of
        None \<Rightarrow> Inl (Unsplit TooManyChunks)
      | Some index \<Rightarrow>
          bind_ok (frame_body co MAX_FRAME_SIZE
              (FrameChunk \<lparr>fc_server_id = server, fc_session_id = session, fc_pane_id = pane_id,
                 fc_revision = revision, fc_chunk_index = index, fc_chunk_count = chunk_count, fc_payload = payload\<rparr>))
            (\<lambda>message. append_chunks co server session pane_id revision chunk_count (chunk_index + 1) rest
               (frames @ [message])))"

definition append_record ::
  "frame_codec \<Rightarrow> u64 \<Rightarrow> u64 \<Rightarrow> pane_frame \<Rightarrow> frame_message list \<Rightarrow> batch_error + frame_message list" where
  "append_record co server session pane frames =
     (case encode_chunked (co_record co) pane of
        Inl e \<Rightarrow> Inl (Unsplit e)
      | Inr payload \<Rightarrow>
          (case u32_of (div_ceil (length payload) MAX_CHUNK_PAYLOAD_SIZE) of
             None \<Rightarrow> Inl (Unsplit TooManyChunks)
           | Some chunk_count \<Rightarrow>
               if chunk_count = 0 then Inl (Unsplit EmptyRecord)
               else append_chunks co server session (fst pane) (frame_revision (snd pane)) chunk_count 0
                      (chunks_of MAX_CHUNK_PAYLOAD_SIZE payload) frames))"

text \<open>The loop over the Panes: the messages so far, the batch being filled and its size.\<close>

fun frame_panes ::
  "frame_codec \<Rightarrow> u64 \<Rightarrow> u64 \<Rightarrow> pane_frame list \<Rightarrow> frame_message list \<Rightarrow> pane_frame list \<Rightarrow> nat
   \<Rightarrow> batch_error + frame_message list" where
  "frame_panes co server session [] frames batch batch_size =
     append_terminal_frame_batch co server session batch frames"
| "frame_panes co server session (pane # panes) frames batch batch_size =
     (let overhead = terminal_batch_overhead co server session; pane_size = co_pane_len co pane in
      if MAX_FRAME_SIZE < saturating_add_usize overhead pane_size
      then bind_ok (append_terminal_frame_batch co server session batch frames) (\<lambda>frames.
           bind_ok (append_record co server session pane frames) (\<lambda>frames.
             frame_panes co server session panes frames [] overhead))
      else if batch \<noteq> [] \<and> MAX_FRAME_SIZE < saturating_add_usize batch_size pane_size
      then bind_ok (append_terminal_frame_batch co server session batch frames) (\<lambda>frames.
             frame_panes co server session panes frames [pane] (overhead + pane_size))
      else frame_panes co server session panes frames (batch @ [pane]) (batch_size + pane_size))"

definition frame_terminal_batches ::
  "frame_codec \<Rightarrow> u64 \<Rightarrow> u64 \<Rightarrow> pane_frame list \<Rightarrow> batch_error + frame_message list" where
  "frame_terminal_batches co server session panes =
     frame_panes co server session panes [] [] (terminal_batch_overhead co server session)"

section \<open>The Client: putting a record together\<close>

record chunk_assembly =
  ca_server_id :: u64
  ca_session_id :: u64
  ca_pane_id :: pane_id
  ca_revision :: u64
  ca_next_chunk_index :: u32
  ca_chunk_count :: u32
  ca_payload :: bytes
  ca_discard :: bool

datatype 'e chunk_error =
    InvalidRange | InvalidPayloadSize | NotContiguous | ChunkRecordOverLimit | FrameUndecodable 'e
  | NewerProtocol | MetadataMismatch

definition chunk_assembly_new :: "frame_chunk \<Rightarrow> chunk_assembly" where
  "chunk_assembly_new chunk = \<lparr>ca_server_id = fc_server_id chunk, ca_session_id = fc_session_id chunk,
     ca_pane_id = fc_pane_id chunk, ca_revision = fc_revision chunk, ca_next_chunk_index = 0,
     ca_chunk_count = fc_chunk_count chunk, ca_payload = [], ca_discard = False\<rparr>"

definition contiguous :: "frame_chunk \<Rightarrow> chunk_assembly \<Rightarrow> bool" where
  "contiguous chunk a \<longleftrightarrow> ca_server_id a = fc_server_id chunk \<and> ca_session_id a = fc_session_id chunk
     \<and> ca_pane_id a = fc_pane_id chunk \<and> ca_revision a = fc_revision chunk
     \<and> ca_chunk_count a = fc_chunk_count chunk \<and> ca_next_chunk_index a = fc_chunk_index chunk"

text \<open>The end of a record: decoded and checked against its chunks.\<close>

definition finish_record ::
  "(bytes \<Rightarrow> 'e + pane_frame option) \<Rightarrow> 'e \<Rightarrow> chunk_assembly \<Rightarrow> 'e chunk_error + pane_frame option" where
  "finish_record dec too_large completed =
     (case decode_chunked dec too_large (ca_payload completed) of
        Inl e \<Rightarrow> Inl (FrameUndecodable e)
      | Inr None \<Rightarrow> Inl NewerProtocol
      | Inr (Some pane) \<Rightarrow>
          if fst pane \<noteq> ca_pane_id completed \<or> frame_revision (snd pane) \<noteq> ca_revision completed
          then Inl MetadataMismatch else Inr (Some pane))"

text \<open>Whether a Client wants a Pane's frames; \<open>None\<close> is every Pane.\<close>

definition watches :: "pane_id set option \<Rightarrow> pane_id \<Rightarrow> bool" where
  "watches watched p \<longleftrightarrow> (case watched of Some panes \<Rightarrow> p \<in> panes | None \<Rightarrow> True)"

text \<open>The answer, and the assembly left behind. A discarded record only counts its chunks.\<close>

definition assemble_terminal_frame_chunk ::
  "(bytes \<Rightarrow> 'e + pane_frame option) \<Rightarrow> 'e \<Rightarrow> pane_id set option \<Rightarrow> frame_chunk \<Rightarrow> chunk_assembly option
   \<Rightarrow> ('e chunk_error + pane_frame option) \<times> chunk_assembly option" where
  "assemble_terminal_frame_chunk dec too_large watched chunk assembly =
     (if fc_chunk_count chunk = 0 \<or> fc_chunk_count chunk \<le> fc_chunk_index chunk then (Inl InvalidRange, assembly)
      else if fc_payload chunk = [] \<or> MAX_CHUNK_PAYLOAD_SIZE < length (fc_payload chunk)
      then (Inl InvalidPayloadSize, assembly)
      else
        let a = (case assembly of Some a \<Rightarrow> a | None \<Rightarrow> chunk_assembly_new chunk) in
        if \<not> contiguous chunk a then (Inl NotContiguous, Some a)
        else
          let a = (if \<not> watches watched (fc_pane_id chunk) then a\<lparr>ca_discard := True, ca_payload := []\<rparr> else a) in
          if ca_discard a
          then let a = a\<lparr>ca_next_chunk_index := ca_next_chunk_index a + 1\<rparr> in
               (Inr None, if ca_next_chunk_index a = ca_chunk_count a then None else Some a)
          else (case checked_add_usize (length (ca_payload a)) (length (fc_payload chunk)) of
              None \<Rightarrow> (Inl ChunkRecordOverLimit, Some a)
            | Some next_size \<Rightarrow>
                if MAX_CHUNKED_RECORD_SIZE < next_size then (Inl ChunkRecordOverLimit, Some a)
                else
                  let a = a\<lparr>ca_payload := ca_payload a @ fc_payload chunk,
                            ca_next_chunk_index := ca_next_chunk_index a + 1\<rparr> in
                  if ca_next_chunk_index a \<noteq> ca_chunk_count a then (Inr None, Some a)
                  else (finish_record dec too_large a, None)))"

definition terminal_chunk_identity_matches ::
  "frame_chunk \<Rightarrow> u64 \<Rightarrow> u64 \<Rightarrow> chunk_assembly option \<Rightarrow> (unit + bool) \<times> chunk_assembly option" where
  "terminal_chunk_identity_matches chunk server session assembly =
     (if fc_server_id chunk = server \<and> fc_session_id chunk = session then (Inr True, assembly)
      else if assembly \<noteq> None then (Inl (), None)
      else (Inr False, None))"

section \<open>One record arrives\<close>

lemma saturating_exceeds: "MAX_FRAME_SIZE < saturating_add_usize a b \<longleftrightarrow> MAX_FRAME_SIZE < a + b"
  by (auto simp: saturating_add_usize_def MAX_FRAME_SIZE_def usize_max_def min_def)

definition record_chunk :: "u64 \<Rightarrow> u64 \<Rightarrow> pane_frame \<Rightarrow> nat \<Rightarrow> nat \<Rightarrow> bytes \<Rightarrow> frame_chunk" where
  "record_chunk server session pane n k payload = \<lparr>fc_server_id = server, fc_session_id = session,
     fc_pane_id = fst pane, fc_revision = frame_revision (snd pane), fc_chunk_index = of_nat k,
     fc_chunk_count = of_nat n, fc_payload = payload\<rparr>"

lemma record_chunk_simps [simp]:
  "fc_server_id (record_chunk server session pane n k payload) = server"
  "fc_session_id (record_chunk server session pane n k payload) = session"
  "fc_pane_id (record_chunk server session pane n k payload) = fst pane"
  "fc_revision (record_chunk server session pane n k payload) = frame_revision (snd pane)"
  "fc_chunk_index (record_chunk server session pane n k payload) = of_nat k"
  "fc_chunk_count (record_chunk server session pane n k payload) = of_nat n"
  "fc_payload (record_chunk server session pane n k payload) = payload"
  by (simp_all add: record_chunk_def)

fun record_chunks :: "u64 \<Rightarrow> u64 \<Rightarrow> pane_frame \<Rightarrow> nat \<Rightarrow> nat \<Rightarrow> bytes list \<Rightarrow> frame_chunk list" where
  "record_chunks server session pane n k [] = []"
| "record_chunks server session pane n k (payload # rest) =
     record_chunk server session pane n k payload # record_chunks server session pane n (k + 1) rest"

text \<open>The assembly after \<open>k\<close> of a record's \<open>n\<close> chunks.\<close>

definition mid_assembly :: "u64 \<Rightarrow> u64 \<Rightarrow> pane_frame \<Rightarrow> nat \<Rightarrow> nat \<Rightarrow> bytes \<Rightarrow> bool \<Rightarrow> chunk_assembly option" where
  "mid_assembly server session pane n k sofar discard =
     (if k = 0 \<or> k = n then None
      else Some \<lparr>ca_server_id = server, ca_session_id = session, ca_pane_id = fst pane,
        ca_revision = frame_revision (snd pane), ca_next_chunk_index = of_nat k, ca_chunk_count = of_nat n,
        ca_payload = sofar, ca_discard = discard\<rparr>)"

lemma chunk_range:
  assumes "k < n" "n < 2 ^ 32"
  shows "(of_nat n :: u32) \<noteq> 0" "\<not> (of_nat n :: u32) \<le> of_nat k" "(of_nat k :: u32) + 1 = of_nat n \<longleftrightarrow> k + 1 = n"
proof -
  have k: "k < 2 ^ 32" "k + 1 < 2 ^ 32 \<or> k + 1 = n" using assms by simp_all
  show "(of_nat n :: u32) \<noteq> 0" using of_nat_u32_inj [of n 0] assms by simp
  show "\<not> (of_nat n :: u32) \<le> of_nat k" using of_nat_u32_le [of n k] assms k by simp
  have "(of_nat k :: u32) + 1 = of_nat (k + 1)" by simp
  then show "(of_nat k :: u32) + 1 = of_nat n \<longleftrightarrow> k + 1 = n"
    using of_nat_u32_inj [of "k + 1" n] assms by (metis Suc_eq_plus1 Suc_lessI less_trans_Suc)
qed

lemma assemble_step:
  assumes k: "k < n" "n < 2 ^ 32" and chunk: "chunk \<noteq> []" "length chunk \<le> MAX_CHUNK_PAYLOAD_SIZE"
    and fits: "length sofar + length chunk \<le> MAX_CHUNKED_RECORD_SIZE" and start: "k = 0 \<longrightarrow> sofar = []"
    and wanted: "watches watched (fst pane)"
  shows "assemble_terminal_frame_chunk dec too_large watched (record_chunk server session pane n k chunk)
      (mid_assembly server session pane n k sofar False)
    = (if k + 1 = n
       then (finish_record dec too_large \<lparr>ca_server_id = server, ca_session_id = session, ca_pane_id = fst pane,
          ca_revision = frame_revision (snd pane), ca_next_chunk_index = of_nat n, ca_chunk_count = of_nat n,
          ca_payload = sofar @ chunk, ca_discard = False\<rparr>, None)
       else (Inr None, mid_assembly server session pane n (k + 1) (sofar @ chunk) False))"
proof -
  note range = chunk_range [OF k]
  have add: "checked_add_usize (length sofar) (length chunk) = Some (length sofar + length chunk)"
    using fits chunk_limits(2) by (simp add: checked_add_usize_def)
  have held: "(case mid_assembly server session pane n k sofar False of Some a \<Rightarrow> a
      | None \<Rightarrow> chunk_assembly_new (record_chunk server session pane n k chunk))
    = \<lparr>ca_server_id = server, ca_session_id = session, ca_pane_id = fst pane, ca_revision = frame_revision (snd pane),
       ca_next_chunk_index = of_nat k, ca_chunk_count = of_nat n, ca_payload = sofar, ca_discard = False\<rparr>"
    using k start by (simp add: mid_assembly_def chunk_assembly_new_def)
  show ?thesis
  proof (cases "k + 1 = n")
    case True
    then have "(of_nat k :: u32) + 1 = of_nat n" using range(3) by simp
    with True range(1,2) chunk fits show ?thesis
      unfolding assemble_terminal_frame_chunk_def held
      by (simp add: contiguous_def wanted add not_less Let_def del: checked_add_usize_Some)
  next
    case False
    then have "(of_nat k :: u32) + 1 \<noteq> of_nat n" using range(3) by simp
    with False range(1,2) chunk fits show ?thesis
      unfolding assemble_terminal_frame_chunk_def held
      by (simp add: contiguous_def wanted add not_less mid_assembly_def Let_def del: checked_add_usize_Some)
  qed
qed

lemma discard_step:
  assumes k: "k < n" "n < 2 ^ 32" and chunk: "chunk \<noteq> []" "length chunk \<le> MAX_CHUNK_PAYLOAD_SIZE"
    and unwanted: "\<not> watches watched (fst pane)"
  shows "assemble_terminal_frame_chunk dec too_large watched (record_chunk server session pane n k chunk)
      (mid_assembly server session pane n k [] True)
    = (Inr None, mid_assembly server session pane n (k + 1) [] True)"
proof -
  note range = chunk_range [OF k]
  show ?thesis
    using range chunk k unwanted
    by (auto simp: assemble_terminal_frame_chunk_def chunk_assembly_new_def contiguous_def mid_assembly_def Let_def)
qed


text \<open>What the reader hands on of the messages it reads, in order, and the assembly left; \<open>None\<close> when it
  has to ask for a new Bootstrap.\<close>

fun receive_messages ::
  "(bytes \<Rightarrow> 'e + pane_frame option) \<Rightarrow> 'e \<Rightarrow> pane_id set option \<Rightarrow> frame_message list \<Rightarrow> chunk_assembly option
   \<Rightarrow> (pane_frame list \<times> chunk_assembly option) option" where
  "receive_messages dec too_large watched [] a = Some ([], a)"
| "receive_messages dec too_large watched (FrameBatch batch # messages) a =
     (if a \<noteq> None then None
      else map_option (\<lambda>(got, a). (fb_panes batch @ got, a)) (receive_messages dec too_large watched messages None))"
| "receive_messages dec too_large watched (FrameChunk chunk # messages) a =
     (case assemble_terminal_frame_chunk dec too_large watched chunk a of
        (Inl _, _) \<Rightarrow> None
      | (Inr None, a) \<Rightarrow> receive_messages dec too_large watched messages a
      | (Inr (Some pane), a) \<Rightarrow>
          map_option (\<lambda>(got, a). (pane # got, a)) (receive_messages dec too_large watched messages a))"

lemma receive_append:
  "receive_messages dec too_large watched (xs @ ys) a =
     (case receive_messages dec too_large watched xs a of
        None \<Rightarrow> None
      | Some (got, a) \<Rightarrow> map_option (\<lambda>(more_got, a). (got @ more_got, a)) (receive_messages dec too_large watched ys a))"
proof (induction dec too_large watched xs a rule: receive_messages.induct)
  case (1 dec too_large watched a)
  then show ?case by (cases "receive_messages dec too_large watched ys a") auto
next
  case (2 dec too_large watched batch messages a)
  then show ?case by (cases "receive_messages dec too_large watched messages None";
      cases "receive_messages dec too_large watched ys (snd (the (receive_messages dec too_large watched messages None)))")
      (auto split: option.splits)
next
  case (3 dec too_large watched chunk messages a)
  obtain r a' where step: "assemble_terminal_frame_chunk dec too_large watched chunk a = (r, a')" by fastforce
  show ?case
  proof (cases r)
    case (Inl e)
    with step show ?thesis by simp
  next
    case (Inr got)
    then show ?thesis using 3(1) [OF step [symmetric] Inr] 3(2) [OF step [symmetric] Inr] step
      by (cases got) (auto split: option.splits simp: option.map_comp comp_def case_prod_unfold)
  qed
qed

lemma receive_record:
  fixes dec :: "bytes \<Rightarrow> 'e + pane_frame option"
  assumes n: "n < 2 ^ 32" and wanted: "watches watched (fst pane)"
  shows "n = k + length chunks \<Longrightarrow> chunks \<noteq> [] \<Longrightarrow> (\<forall>c \<in> set chunks. c \<noteq> [] \<and> length c \<le> MAX_CHUNK_PAYLOAD_SIZE) \<Longrightarrow>
    length (sofar @ concat chunks) \<le> MAX_CHUNKED_RECORD_SIZE \<Longrightarrow> (k = 0 \<longrightarrow> sofar = []) \<Longrightarrow>
    dec (sofar @ concat chunks) = Inr (Some pane) \<Longrightarrow>
    receive_messages dec too_large watched (map FrameChunk (record_chunks server session pane n k chunks))
      (mid_assembly server session pane n k sofar False) = Some ([pane], None)"
proof (induction chunks arbitrary: k sofar)
  case (Cons chunk chunks)
  have k: "k < n" using Cons.prems(1) by simp
  have step: "assemble_terminal_frame_chunk dec too_large watched (record_chunk server session pane n k chunk)
      (mid_assembly server session pane n k sofar False)
    = (if k + 1 = n
       then (finish_record dec too_large \<lparr>ca_server_id = server, ca_session_id = session, ca_pane_id = fst pane,
          ca_revision = frame_revision (snd pane), ca_next_chunk_index = of_nat n, ca_chunk_count = of_nat n,
          ca_payload = sofar @ chunk, ca_discard = False\<rparr>, None)
       else (Inr None, mid_assembly server session pane n (k + 1) (sofar @ chunk) False))"
    by (rule assemble_step [OF k n _ _ _ Cons.prems(5) wanted]) (use Cons.prems in auto)
  show ?case
  proof (cases "chunks = []")
    case True
    with Cons.prems step show ?thesis by (simp add: finish_record_def decode_chunked_def not_less)
  next
    case False
    have "receive_messages dec too_large watched (map FrameChunk (record_chunks server session pane n (k + 1) chunks))
      (mid_assembly server session pane n (k + 1) (sofar @ chunk) False) = Some ([pane], None)"
      by (rule Cons.IH) (use Cons.prems False in simp_all)
    moreover have "k + 1 \<noteq> n" using Cons.prems(1) False by simp
    ultimately show ?thesis using step by simp
  qed
qed simp

lemma receive_unwanted:
  assumes n: "n < 2 ^ 32" and unwanted: "\<not> watches watched (fst pane)"
  shows "n = k + length chunks \<Longrightarrow> chunks \<noteq> [] \<Longrightarrow> (\<forall>c \<in> set chunks. c \<noteq> [] \<and> length c \<le> MAX_CHUNK_PAYLOAD_SIZE) \<Longrightarrow>
    receive_messages dec too_large watched (map FrameChunk (record_chunks server session pane n k chunks))
      (mid_assembly server session pane n k [] True) = Some ([], None)"
proof (induction chunks arbitrary: k)
  case (Cons chunk chunks)
  have k: "k < n" using Cons.prems(1) by simp
  have step: "assemble_terminal_frame_chunk dec too_large watched (record_chunk server session pane n k chunk)
      (mid_assembly server session pane n k [] True) = (Inr None, mid_assembly server session pane n (k + 1) [] True)"
    by (rule discard_step [OF k n _ _ unwanted]) (use Cons.prems in auto)
  show ?case
  proof (cases "chunks = []")
    case True
    with Cons.prems step show ?thesis by (simp add: mid_assembly_def)
  next
    case False
    have "receive_messages dec too_large watched (map FrameChunk (record_chunks server session pane n (k + 1) chunks))
      (mid_assembly server session pane n (k + 1) [] True) = Some ([], None)"
      by (rule Cons.IH) (use Cons.prems False in simp_all)
    then show ?thesis using step by simp
  qed
qed simp


section \<open>Packing\<close>

text \<open>What protobuf promises of lengths: a batch is at most as long as an empty one, its Panes and two
  widened length prefixes together; the fields of a chunk beside its payload take at most 256 bytes.\<close>

definition codec_ok :: "frame_codec \<Rightarrow> bool" where
  "codec_ok co \<longleftrightarrow>
     (\<forall>server session panes.
        co_message_len co (FrameBatch \<lparr>fb_server_id = server, fb_session_id = session, fb_panes = panes\<rparr>)
          \<le> terminal_batch_overhead co server session + sum_list (map (co_pane_len co) panes))
     \<and> (\<forall>chunk. co_message_len co (FrameChunk chunk) \<le> length (fc_payload chunk) + 256)"

definition record_ok :: "frame_codec \<Rightarrow> (bytes \<Rightarrow> 'e + pane_frame option) \<Rightarrow> pane_frame \<Rightarrow> bool" where
  "record_ok co dec pane \<longleftrightarrow> co_record co pane \<noteq> [] \<and> length (co_record co pane) \<le> MAX_CHUNKED_RECORD_SIZE
     \<and> dec (co_record co pane) = Inr (Some pane)"

lemma append_chunks_sends:
  assumes "codec_ok co"
  shows "k + length payloads < 2 ^ 32 \<Longrightarrow> (\<forall>c \<in> set payloads. length c \<le> MAX_CHUNK_PAYLOAD_SIZE) \<Longrightarrow>
   append_chunks co server session (fst pane) (frame_revision (snd pane)) (of_nat n) k payloads frames
   = Inr (frames @ map FrameChunk (record_chunks server session pane n k payloads))"
proof (induction payloads arbitrary: k frames)
  case (Cons payload rest)
  have "co_message_len co (FrameChunk (record_chunk server session pane n k payload)) \<le> MAX_FRAME_SIZE"
  proof -
    have "co_message_len co (FrameChunk (record_chunk server session pane n k payload)) \<le> length payload + 256"
      using assms by (metis codec_ok_def record_chunk_simps(7))
    also have "\<dots> \<le> MAX_FRAME_SIZE" using Cons.prems(2) by (simp add: MAX_CHUNK_PAYLOAD_SIZE_def MAX_FRAME_SIZE_def)
    finally show ?thesis .
  qed
  moreover have "u32_of k = Some (of_nat k)" using Cons.prems(1) by (simp add: u32_of_Some)
  ultimately show ?case using Cons by (simp add: frame_body_def record_chunk_def)
qed simp

lemma chunks_small:
  assumes "length payload \<le> MAX_CHUNKED_RECORD_SIZE"
  shows "length (chunks_of MAX_CHUNK_PAYLOAD_SIZE payload) < 2 ^ 32"
proof -
  have "length (chunks_of MAX_CHUNK_PAYLOAD_SIZE payload) \<le> length payload"
    using chunks_of_spec [OF chunk_limits(1), of payload]
  proof (induction MAX_CHUNK_PAYLOAD_SIZE payload rule: chunks_of.induct)
    case (1 xs)
    show ?case
    proof (cases "xs = []")
      case False
      have "length (chunks_of MAX_CHUNK_PAYLOAD_SIZE (drop MAX_CHUNK_PAYLOAD_SIZE xs)) \<le> length (drop MAX_CHUNK_PAYLOAD_SIZE xs)"
        by (rule 1(1)) (use False chunk_limits(1) chunks_of_spec [OF chunk_limits(1)] in auto)
      then show ?thesis using False chunk_limits(1) by (simp add: chunks_of_Cons)
        (metis One_nat_def Suc_leI diff_le_mono2 le_trans length_greater_0_conv not_less_eq_eq Suc_diff_1)
    qed simp
  qed
  then show ?thesis using assms by (simp add: MAX_CHUNKED_RECORD_SIZE_def)
qed

lemma append_record_sends:
  assumes co: "codec_ok co" and some: "co_record co pane \<noteq> []" and fits: "length (co_record co pane) \<le> MAX_CHUNKED_RECORD_SIZE"
  shows "append_record co server session pane frames
    = Inr (frames @ map FrameChunk (record_chunks server session pane
        (length (chunks_of MAX_CHUNK_PAYLOAD_SIZE (co_record co pane))) 0
        (chunks_of MAX_CHUNK_PAYLOAD_SIZE (co_record co pane))))"
proof -
  let ?chunks = "chunks_of MAX_CHUNK_PAYLOAD_SIZE (co_record co pane)"
  have small: "length ?chunks < 2 ^ 32" by (rule chunks_small [OF fits])
  have "div_ceil (length (co_record co pane)) MAX_CHUNK_PAYLOAD_SIZE = length ?chunks"
    by (rule length_chunks_of [OF chunk_limits(1), symmetric])
  then have count: "u32_of (div_ceil (length (co_record co pane)) MAX_CHUNK_PAYLOAD_SIZE) = Some (of_nat (length ?chunks))"
    using small by (simp add: u32_of_Some)
  note words = chunk_count_word [OF count]
  have "append_chunks co server session (fst pane) (frame_revision (snd pane)) (of_nat (length ?chunks)) 0 ?chunks frames
      = Inr (frames @ map FrameChunk (record_chunks server session pane (length ?chunks) 0 ?chunks))"
    by (rule append_chunks_sends [OF co]) (use small chunks_of_spec [OF chunk_limits(1)] in auto)
  with count words(2) some fits show ?thesis by (simp add: append_record_def encode_chunked_def not_less)
qed


definition fits_frame :: "frame_codec \<Rightarrow> frame_message list \<Rightarrow> bool" where
  "fits_frame co messages \<longleftrightarrow> (\<forall>m \<in> set messages. co_message_len co m \<le> MAX_FRAME_SIZE)"

text \<open>The messages bring the Client these Panes: what it gets of them, in order, is all it watches.\<close>

definition brings ::
  "(bytes \<Rightarrow> 'e + pane_frame option) \<Rightarrow> 'e \<Rightarrow> pane_id set option \<Rightarrow> frame_message list \<Rightarrow> pane_frame list \<Rightarrow> bool" where
  "brings dec too_large watched messages panes \<longleftrightarrow>
     (\<exists>got. receive_messages dec too_large watched messages None = Some (got, None)
        \<and> filter (\<lambda>pane. watches watched (fst pane)) got = filter (\<lambda>pane. watches watched (fst pane)) panes
        \<and> set got \<subseteq> set panes)"

lemma brings_Nil: "brings dec too_large watched [] []"
  by (simp add: brings_def)

lemma brings_append:
  "brings dec too_large watched xs ps \<Longrightarrow> brings dec too_large watched ys qs \<Longrightarrow> brings dec too_large watched (xs @ ys) (ps @ qs)"
  by (auto simp: brings_def receive_append)

lemma fits_frame_append [simp]: "fits_frame co (xs @ ys) \<longleftrightarrow> fits_frame co xs \<and> fits_frame co ys"
  by (auto simp: fits_frame_def)

lemma append_batch_brings:
  assumes co: "codec_ok co"
    and size: "batch \<noteq> [] \<longrightarrow> terminal_batch_overhead co server session + sum_list (map (co_pane_len co) batch) \<le> MAX_FRAME_SIZE"
  shows "\<exists>out. append_terminal_frame_batch co server session batch frames = Inr (frames @ out)
    \<and> fits_frame co out \<and> brings dec too_large watched out batch"
proof (cases "batch = []")
  case True
  then show ?thesis by (simp add: append_terminal_frame_batch_def fits_frame_def brings_Nil)
next
  case False
  let ?batch = "FrameBatch \<lparr>fb_server_id = server, fb_session_id = session, fb_panes = batch\<rparr>"
  have "co_message_len co ?batch \<le> terminal_batch_overhead co server session + sum_list (map (co_pane_len co) batch)"
    using co by (simp add: codec_ok_def)
  with size False have "co_message_len co ?batch \<le> MAX_FRAME_SIZE" by simp
  with False show ?thesis
    by (auto simp: append_terminal_frame_batch_def frame_terminal_batch_def frame_body_def fits_frame_def brings_def)
qed

lemma record_chunks_payloads: "c \<in> set (record_chunks server session pane n k payloads) \<Longrightarrow> fc_payload c \<in> set payloads"
  by (induction payloads arbitrary: k) auto

lemma append_record_brings:
  fixes dec :: "bytes \<Rightarrow> 'e + pane_frame option"
  assumes co: "codec_ok co" and rec: "record_ok co dec pane"
  shows "\<exists>out. append_record co server session pane frames = Inr (frames @ out)
    \<and> fits_frame co out \<and> brings dec too_large watched out [pane]"
proof -
  let ?chunks = "chunks_of MAX_CHUNK_PAYLOAD_SIZE (co_record co pane)"
  let ?out = "map FrameChunk (record_chunks server session pane (length ?chunks) 0 ?chunks)"
  have some: "co_record co pane \<noteq> []" and fits: "length (co_record co pane) \<le> MAX_CHUNKED_RECORD_SIZE"
    and dec: "dec (co_record co pane) = Inr (Some pane)" using rec by (simp_all add: record_ok_def)
  note spec = chunks_of_spec [OF chunk_limits(1), of "co_record co pane"]
  have "?chunks \<noteq> []" using some by (simp add: chunks_of_Cons chunk_limits)
  note wanted = receive_record [OF chunks_small [OF fits], of watched pane 0 ?chunks "[]" dec too_large server session]
    and unwanted = receive_unwanted [OF chunks_small [OF fits], of watched pane 0 ?chunks dec too_large server session]
  have "receive_messages dec too_large watched ?out None = Some (if watches watched (fst pane) then [pane] else [], None)"
    using wanted unwanted spec \<open>?chunks \<noteq> []\<close> fits dec by (auto simp: mid_assembly_def)
  then have "brings dec too_large watched ?out [pane]" by (auto simp: brings_def)
  moreover have "fits_frame co ?out"
  proof -
    have "co_message_len co (FrameChunk c) \<le> MAX_FRAME_SIZE"
      if "c \<in> set (record_chunks server session pane (length ?chunks) 0 ?chunks)" for c
    proof -
      have "length (fc_payload c) \<le> MAX_CHUNK_PAYLOAD_SIZE" using spec record_chunks_payloads [OF that] by blast
      moreover have "co_message_len co (FrameChunk c) \<le> length (fc_payload c) + 256" using co by (simp add: codec_ok_def)
      ultimately show ?thesis by (simp add: MAX_CHUNK_PAYLOAD_SIZE_def MAX_FRAME_SIZE_def)
    qed
    then show ?thesis by (auto simp: fits_frame_def)
  qed
  ultimately show ?thesis using append_record_sends [OF co some fits] by blast
qed

lemma frame_panes_brings:
  fixes dec :: "bytes \<Rightarrow> 'e + pane_frame option"
  assumes co: "codec_ok co"
  shows "(\<forall>pane \<in> set panes. record_ok co dec pane) \<Longrightarrow>
    (batch \<noteq> [] \<longrightarrow> terminal_batch_overhead co server session + sum_list (map (co_pane_len co) batch) \<le> MAX_FRAME_SIZE) \<Longrightarrow>
    \<exists>out. frame_panes co server session panes frames batch
        (terminal_batch_overhead co server session + sum_list (map (co_pane_len co) batch)) = Inr (frames @ out)
      \<and> fits_frame co out \<and> brings dec too_large watched out (batch @ panes)"
proof (induction panes arbitrary: frames batch)
  case Nil
  then show ?case using append_batch_brings [OF co] by simp
next
  case (Cons pane panes)
  let ?overhead = "terminal_batch_overhead co server session" and ?size = "co_pane_len co pane"
  let ?sum = "sum_list (map (co_pane_len co) batch)"
  from append_batch_brings [OF co Cons.prems(2), of frames dec too_large watched] obtain out1 where
    out1: "append_terminal_frame_batch co server session batch frames = Inr (frames @ out1)" "fits_frame co out1"
      "brings dec too_large watched out1 batch" by blast
  have rest: "\<forall>pane \<in> set panes. record_ok co dec pane" and this_pane: "record_ok co dec pane" using Cons.prems(1) by simp_all
  show ?case
  proof (cases "MAX_FRAME_SIZE < ?overhead + ?size")
    case large: True
    from append_record_brings [OF co this_pane] obtain out2 where
      out2: "append_record co server session pane (frames @ out1) = Inr ((frames @ out1) @ out2)" "fits_frame co out2"
        "brings dec too_large watched out2 [pane]" by blast
    from Cons.IH [of "[]" "(frames @ out1) @ out2", OF rest] obtain out3 where
      out3: "frame_panes co server session panes ((frames @ out1) @ out2) [] ?overhead = Inr (((frames @ out1) @ out2) @ out3)"
        "fits_frame co out3" "brings dec too_large watched out3 panes" by auto
    have "brings dec too_large watched ((out1 @ out2) @ out3) ((batch @ [pane]) @ panes)"
      by (intro brings_append out1 out2 out3)
    with large out1 out2 out3 show ?thesis
      by (intro exI [of _ "(out1 @ out2) @ out3"]) (simp add: saturating_exceeds Let_def)
  next
    case small: False
    show ?thesis
    proof (cases "batch \<noteq> [] \<and> MAX_FRAME_SIZE < ?overhead + ?sum + ?size")
      case full: True
      have "?overhead + ?size \<le> MAX_FRAME_SIZE" using small by simp
      with Cons.IH [of "[pane]" "frames @ out1", OF rest] obtain out2 where
        out2: "frame_panes co server session panes (frames @ out1) [pane] (?overhead + ?size) = Inr ((frames @ out1) @ out2)"
          "fits_frame co out2" "brings dec too_large watched out2 ([pane] @ panes)" by auto
      have "brings dec too_large watched (out1 @ out2) (batch @ [pane] @ panes)"
        by (intro brings_append out1 out2)
      with small full out1 out2 show ?thesis
        by (intro exI [of _ "out1 @ out2"]) (simp add: saturating_exceeds Let_def)
    next
      case room: False
      have "?overhead + sum_list (map (co_pane_len co) (batch @ [pane])) \<le> MAX_FRAME_SIZE"
        using small room by (cases "batch = []") (simp_all add: add.assoc)
      with Cons.IH [of "batch @ [pane]" frames, OF rest] obtain out where
        out: "frame_panes co server session panes frames (batch @ [pane]) (?overhead + (?sum + ?size)) = Inr (frames @ out)"
          "fits_frame co out" "brings dec too_large watched out ((batch @ [pane]) @ panes)" by auto
      with small room show ?thesis
        by (intro exI [of _ out]) (auto simp: saturating_exceeds Let_def add.assoc)
    qed
  qed
qed

section \<open>Properties\<close>


definition demo_codec :: frame_codec where
  "demo_codec = \<lparr>co_record = (\<lambda>pane. [7]), co_pane_len = (\<lambda>pane. MAX_FRAME_SIZE),
     co_message_len = (\<lambda>m. case m of FrameBatch b \<Rightarrow> 20 | FrameChunk c \<Rightarrow> length (fc_payload c) + 60)\<rparr>"


end
