(* ===== verification/Server_State.thy ===== *)
theory Server_State
  imports Frame_Batches Session_Snapshot
begin

text \<open>
  What the Server keeps of its Session for the Clients that watch it: the part of \<open>RuntimeState\<close>
  (\<open>condr-server/src/server.rs\<close>) that \<open>server/subscriptions.rs\<close> and \<open>server/terminal_stream.rs\<close> work on,
  and the messages (\<open>protocol/messages.rs\<close>) they send. The state is behind one mutex: a function that
  holds it throughout is one step. A subscriber's writer and the connection's own \<open>outbound\<close> are handles
  on the same queue, so the queues are kept per connection, by Client id. Hash sets whose order shows
  in what is sent are lists without duplicates; the others are maps. Settings, git data and the
  replies to requests are only passed on and stay type parameters.
\<close>

section \<open>Messages\<close>

datatype ('set, 'git) session_event =
    LayoutChanged session_snapshot "pane_id list"
  | TerminalExited pane_id
  | AgentChanged pane_id "agent_snapshot option"
  | WorkspaceGitChanged workspace_id "'git workspace_git option"
  | WorkspaceFilesChanged workspace_id
  | TerminalTitleChanged pane_id "rstr option"
  | TerminalProgressChanged pane_id "terminal_progress option"
  | TerminalNotification pane_id "rstr option" rstr
  | CommandFinished pane_id "32 word option" u64
  | TerminalAttentionChanged pane_id bool
  | AgentUnseenChanged pane_id bool
  | ServerSettingsChanged 'set
  | Activated workspace_id "tab_id option"
  | Omitted

text \<open>The answers to an agent command. \<open>Hooks\<close>, which reports on configuration files, stays a \<open>Reply\<close>; of an
  error the code is kept and the prose left out.\<close>

record agent_installation =
  in_kind :: agent_kind
  in_executable :: path

record agent_info =
  ai_pane_id :: pane_id
  ai_name :: "rstr option"
  ai_agent :: agent_snapshot
  ai_launch_pending :: bool

datatype agent_response = AgentAvailable "agent_installation list" | AgentList "agent_info list" | AgentReady agent_info

type_synonym agent_error = rstr

datatype layout_result =
    LayoutChangedResult
  | WorkspaceCreated workspace_id tab_id pane_id
  | TabCreated tab_id pane_id
  | PaneCreated pane_id
  | WorkspaceOpened workspace_id
  | DiffShown tab_id
  | FileShown tab_id

text \<open>\<open>Reply\<close> stands for the messages that answer one request (\<open>Overview\<close>, \<open>Pong\<close>, \<open>GitDiff\<close>, \<open>Error\<close> and the
  like), which none of the modelled code looks into. A rejection keeps a short reason.\<close>

datatype unknown_message = UnknownEvent u64 | UnknownTerminalFrame | UnknownReply

datatype ('set, 'git, 'r) server_message =
    Bootstrap "(session_snapshot, 'set) bootstrap_header"
  | BootstrapChunk bootstrap_batch
  | Subscribed u64 u64 u64
  | SnapshotRejected u64 u64 rstr
  | SubscriptionRejected u64 u64 rstr
  | SessionEvent u64 u64 u64 "('set, 'git) session_event"
  | TerminalFrame frame_batch
  | TerminalFrameChunk frame_chunk
  | TerminalClipboard pane_id rstr
  | ServerStopping
  | Unknown_Message unknown_message
  | LayoutApplied u64 u64 u64 u64 layout_result
  | LayoutRejected u64 u64 u64 rstr
  | AgentResult "agent_error + agent_response"
  | Reply 'r

section \<open>State\<close>

record latest_view =
  lt_view :: terminal_view
  lt_hyperlinks :: hyperlink_budget
  lt_producer :: "view_frame option"

record subscriber =
  sub_baselines :: "pane_id \<Rightarrow> terminal_view option"
  sub_pending :: "pane_id list"
  sub_generation :: u64
  sub_bootstrap_pending :: bool
  sub_deferred :: "bytes list"
  sub_clipboard :: "bytes option"

text \<open>What the Server keeps of the agents it starts, prompts and waits for (\<open>server/agents.rs\<close>), and of the clones
  it types (\<open>server/clones.rs\<close>). Instants are milliseconds. A waiter's \<open>outbound\<close> is its Client's queue.\<close>

record restoring_agent =
  rg_resume :: agent_resume
  rg_deadline :: nat
  rg_submitted :: bool

record managed_agent =
  mg_name :: rstr
  mg_kind :: agent_kind
  mg_instance :: u64
  mg_deadline :: "nat option"
  mg_pending :: bool
  mg_observed :: bool

record agent_waiter =
  aw_pane_id :: pane_id
  aw_instance :: u64
  aw_generation :: u64
  aw_kind :: agent_kind
  aw_until :: "agent_state list"
  aw_needs_change :: bool
  aw_starting :: bool
  aw_deadline :: nat

record agent_control =
  ac_resumes :: "pane_id \<Rightarrow> restoring_agent option"
  ac_names :: "(pane_id \<times> managed_agent) list"
  ac_live :: "(pane_id \<times> agent_kind) list"
  ac_generations :: "pane_id \<Rightarrow> u64 option"
  ac_waiters :: "u64 \<Rightarrow> agent_waiter option"

record pending_clone =
  pc_url :: rstr
  pc_root :: path
  pc_deadline :: nat

text \<open>\<open>rt_log\<close> is not in the code: every event ever recorded, to speak of a run in the proofs. No operation reads
  it.\<close>

record ('set, 'git) runtime =
  rt_server_id :: u64
  rt_session_id :: u64
  rt_sequence :: u64
  rt_session :: session
  rt_terminals :: "pane_id list"
  rt_views :: "pane_id \<Rightarrow> latest_view option"
  rt_events :: "(u64 \<times> ('set, 'git) session_event) list"
  rt_subscribers :: "u64 \<Rightarrow> subscriber option"
  rt_watched :: "u64 \<Rightarrow> pane_id list option"
  rt_writers :: "u64 \<Rightarrow> writer_queue"
  rt_epoch :: "128 word"
  rt_settings :: 'set
  rt_closing :: "pane_id set"
  rt_exited :: "pane_id set"
  rt_instances :: "pane_id \<Rightarrow> u64 option"
  rt_next_instance :: u64
  rt_agents :: "pane_id \<Rightarrow> agent_snapshot option"
  rt_unseen :: "pane_id set"
  rt_titles :: "pane_id \<Rightarrow> rstr option"
  rt_progress :: "pane_id \<Rightarrow> terminal_progress option"
  rt_bells :: "pane_id set"
  rt_git :: "workspace_id \<Rightarrow> 'git workspace_git option"
  rt_focused :: "(pane_id \<times> u64) option"
  rt_mouse :: "u64 option"
  rt_sizing :: "u64 option"
  rt_control :: agent_control
  rt_clones :: "pane_id \<Rightarrow> pending_clone option"
  rt_log :: "('set, 'git) session_event list"

definition EVENT_HISTORY_LIMIT :: nat where "EVENT_HISTORY_LIMIT = 256"

text \<open>Whether a Client hears of a Pane: without a set of its own, of every one.\<close>

definition client_watches :: "('set, 'git) runtime \<Rightarrow> u64 \<Rightarrow> pane_id \<Rightarrow> bool" where
  "client_watches st c p \<longleftrightarrow> watches (map_option set (rt_watched st c)) p"

definition set_subscriber :: "u64 \<Rightarrow> subscriber \<Rightarrow> ('set, 'git) runtime \<Rightarrow> ('set, 'git) runtime" where
  "set_subscriber c sub st = st\<lparr>rt_subscribers := (rt_subscribers st)(c \<mapsto> sub)\<rparr>"

definition set_writer :: "u64 \<Rightarrow> writer_queue \<Rightarrow> ('set, 'git) runtime \<Rightarrow> ('set, 'git) runtime" where
  "set_writer c q st = st\<lparr>rt_writers := (rt_writers st)(c := q)\<rparr>"

text \<open>A removed subscriber drops its writer.\<close>

definition remove_subscriber :: "u64 \<Rightarrow> ('set, 'git) runtime \<Rightarrow> ('set, 'git) runtime" where
  "remove_subscriber c st =
     (if rt_subscribers st c = None then st
      else st\<lparr>rt_subscribers := (rt_subscribers st)(c := None),
              rt_writers := (rt_writers st)(c := writer_drop (rt_writers st c))\<rparr>)"

definition bump_generation :: "subscriber \<Rightarrow> subscriber" where
  "bump_generation sub = sub\<lparr>sub_generation := sub_generation sub + 1\<rparr>"

lemma bump_generation_simps [simp]:
  "sub_baselines (bump_generation sub) = sub_baselines sub" "sub_pending (bump_generation sub) = sub_pending sub"
  "sub_generation (bump_generation sub) = sub_generation sub + 1"
  "sub_bootstrap_pending (bump_generation sub) = sub_bootstrap_pending sub"
  "sub_deferred (bump_generation sub) = sub_deferred sub" "sub_clipboard (bump_generation sub) = sub_clipboard sub"
  by (simp_all add: bump_generation_def)

lemma set_subscriber_simps [simp]:
  "rt_subscribers (set_subscriber c sub st) = (rt_subscribers st)(c \<mapsto> sub)"
  "rt_views (set_subscriber c sub st) = rt_views st" "rt_watched (set_subscriber c sub st) = rt_watched st"
  "rt_writers (set_subscriber c sub st) = rt_writers st" "rt_server_id (set_subscriber c sub st) = rt_server_id st"
  "rt_session_id (set_subscriber c sub st) = rt_session_id st" "rt_sequence (set_subscriber c sub st) = rt_sequence st"
  "rt_events (set_subscriber c sub st) = rt_events st" "rt_terminals (set_subscriber c sub st) = rt_terminals st"
  by (simp_all add: set_subscriber_def)

lemma set_writer_simps [simp]:
  "rt_subscribers (set_writer c q st) = rt_subscribers st"
  "rt_views (set_writer c q st) = rt_views st" "rt_watched (set_writer c q st) = rt_watched st"
  "rt_writers (set_writer c q st) = (rt_writers st)(c := q)" "rt_server_id (set_writer c q st) = rt_server_id st"
  "rt_session_id (set_writer c q st) = rt_session_id st" "rt_sequence (set_writer c q st) = rt_sequence st"
  "rt_events (set_writer c q st) = rt_events st" "rt_terminals (set_writer c q st) = rt_terminals st"
  by (simp_all add: set_writer_def)

lemma remove_subscriber_simps [simp]:
  "rt_subscribers (remove_subscriber c st) = (rt_subscribers st)(c := None)"
  "rt_views (remove_subscriber c st) = rt_views st" "rt_watched (remove_subscriber c st) = rt_watched st"
  "rt_server_id (remove_subscriber c st) = rt_server_id st" "rt_session_id (remove_subscriber c st) = rt_session_id st"
  "rt_sequence (remove_subscriber c st) = rt_sequence st" "rt_events (remove_subscriber c st) = rt_events st"
  by (auto simp: remove_subscriber_def)

lemma set_subscriber_rest [simp]:
  "rt_epoch (set_subscriber c sub st) = rt_epoch st" "rt_settings (set_subscriber c sub st) = rt_settings st"
  "rt_closing (set_subscriber c sub st) = rt_closing st" "rt_exited (set_subscriber c sub st) = rt_exited st"
  "rt_instances (set_subscriber c sub st) = rt_instances st" "rt_next_instance (set_subscriber c sub st) = rt_next_instance st"
  "rt_agents (set_subscriber c sub st) = rt_agents st" "rt_unseen (set_subscriber c sub st) = rt_unseen st"
  "rt_titles (set_subscriber c sub st) = rt_titles st" "rt_progress (set_subscriber c sub st) = rt_progress st"
  "rt_bells (set_subscriber c sub st) = rt_bells st" "rt_git (set_subscriber c sub st) = rt_git st"
  "rt_focused (set_subscriber c sub st) = rt_focused st" "rt_mouse (set_subscriber c sub st) = rt_mouse st"
  "rt_sizing (set_subscriber c sub st) = rt_sizing st"
  "rt_control (set_subscriber c sub st) = rt_control st" "rt_clones (set_subscriber c sub st) = rt_clones st" "rt_log (set_subscriber c sub st) = rt_log st" "rt_session (set_subscriber c sub st) = rt_session st"
  by (simp_all add: set_subscriber_def)

lemma set_writer_rest [simp]:
  "rt_epoch (set_writer c q st) = rt_epoch st" "rt_settings (set_writer c q st) = rt_settings st"
  "rt_closing (set_writer c q st) = rt_closing st" "rt_exited (set_writer c q st) = rt_exited st"
  "rt_instances (set_writer c q st) = rt_instances st" "rt_next_instance (set_writer c q st) = rt_next_instance st"
  "rt_agents (set_writer c q st) = rt_agents st" "rt_unseen (set_writer c q st) = rt_unseen st"
  "rt_titles (set_writer c q st) = rt_titles st" "rt_progress (set_writer c q st) = rt_progress st"
  "rt_bells (set_writer c q st) = rt_bells st" "rt_git (set_writer c q st) = rt_git st"
  "rt_focused (set_writer c q st) = rt_focused st" "rt_mouse (set_writer c q st) = rt_mouse st"
  "rt_sizing (set_writer c q st) = rt_sizing st"
  "rt_control (set_writer c q st) = rt_control st" "rt_clones (set_writer c q st) = rt_clones st" "rt_log (set_writer c q st) = rt_log st" "rt_session (set_writer c q st) = rt_session st"
  by (simp_all add: set_writer_def)

lemma remove_subscriber_rest [simp]:
  "rt_epoch (remove_subscriber c st) = rt_epoch st" "rt_settings (remove_subscriber c st) = rt_settings st"
  "rt_closing (remove_subscriber c st) = rt_closing st" "rt_exited (remove_subscriber c st) = rt_exited st"
  "rt_instances (remove_subscriber c st) = rt_instances st" "rt_next_instance (remove_subscriber c st) = rt_next_instance st"
  "rt_agents (remove_subscriber c st) = rt_agents st" "rt_unseen (remove_subscriber c st) = rt_unseen st"
  "rt_titles (remove_subscriber c st) = rt_titles st" "rt_progress (remove_subscriber c st) = rt_progress st"
  "rt_bells (remove_subscriber c st) = rt_bells st" "rt_git (remove_subscriber c st) = rt_git st"
  "rt_focused (remove_subscriber c st) = rt_focused st" "rt_mouse (remove_subscriber c st) = rt_mouse st"
  "rt_sizing (remove_subscriber c st) = rt_sizing st"
  "rt_control (remove_subscriber c st) = rt_control st" "rt_clones (remove_subscriber c st) = rt_clones st" "rt_log (remove_subscriber c st) = rt_log st" "rt_session (remove_subscriber c st) = rt_session st"
  "rt_terminals (remove_subscriber c st) = rt_terminals st"
  by (auto simp: remove_subscriber_def)

lemma client_watches_cong [simp]:
  "client_watches (set_subscriber c' sub st) c p = client_watches st c p"
  "client_watches (set_writer c' q st) c p = client_watches st c p"
  "client_watches (remove_subscriber c' st) c p = client_watches st c p"
  by (simp_all add: client_watches_def)

end
