(* ===== verification/Terminal_Render.thy ===== *)
theory Terminal_Render
  imports Server_State
begin

text \<open>
  How the Server turns what its terminals publish into frames for each Client
  (\<open>server/terminal_stream.rs\<close>, and the views' part of \<open>install_terminal\<close> in
  \<open>server/terminal_state.rs\<close>): every subscriber
  has, per Pane, the view it was last sent (its baseline) and the Panes that changed since; a render
  takes a snapshot of those under the lock, makes the frames outside it, and commits only if nothing
  that concerns this subscriber moved meanwhile (its generation). A failed \<open>expect\<close> is an outer \<open>None\<close>.
\<close>

section \<open>Publishing\<close>

text \<open>\<open>TerminalHyperlinkBudget::apply_delta\<close> with the delta it answers, links past the limits dropped.\<close>

definition budget_delta_frame ::
  "hyperlink_budget \<Rightarrow> terminal_view \<Rightarrow> view_delta
   \<Rightarrow> (frame_error + hyperlink_budget \<times> terminal_view \<times> view_delta) option" where
  "budget_delta_frame b view delta =
     (case validate_delta view delta of
        Inl e \<Rightarrow> Some (Inl e)
      | Inr _ \<Rightarrow>
          if hb_by_uri b = [] \<and> \<not> delta_has_links delta
          then Some (Inr (b, apply_validated_delta delta view, delta))
          else case release_runs (vd_runs delta) (tv_cells view) b of
            None \<Rightarrow> None
          | Some b \<Rightarrow>
              (case (if delta_has_links delta then budget_normalize_runs (vd_runs delta) b
                     else Some (vd_runs delta, b)) of
                 None \<Rightarrow> None
               | Some (runs, b) \<Rightarrow>
                   let delta = delta\<lparr>vd_runs := runs\<rparr> in Some (Inr (b, apply_validated_delta delta view, delta))))"

text \<open>The loop over the subscribers: a Client that does not watch the Pane hears nothing.\<close>

definition mark_pending :: "pane_id \<Rightarrow> subscriber \<Rightarrow> subscriber" where
  "mark_pending p sub = bump_generation (sub\<lparr>sub_pending := List.insert p (sub_pending sub)\<rparr>)"

definition mark_watchers :: "pane_id \<Rightarrow> ('set, 'git) runtime \<Rightarrow> u64 \<Rightarrow> subscriber option" where
  "mark_watchers p st c =
     map_option (\<lambda>sub. if client_watches st c p then mark_pending p sub else sub) (rt_subscribers st c)"

definition marked_clients :: "pane_id \<Rightarrow> ('set, 'git) runtime \<Rightarrow> u64 set" where
  "marked_clients p st = {c. rt_subscribers st c \<noteq> None \<and> client_watches st c p}"

text \<open>The Clients to flush, or \<open>None\<close> for a delta that fits no retained view.\<close>

definition publish_terminal ::
  "pane_id \<Rightarrow> view_frame \<Rightarrow> ('set, 'git) runtime \<Rightarrow> (u64 set option \<times> ('set, 'git) runtime) option" where
  "publish_terminal p frame st =
     (let publish = (\<lambda>latest. Some (Some (marked_clients p st),
            st\<lparr>rt_views := (rt_views st)(p \<mapsto> latest), rt_subscribers := mark_watchers p st\<rparr>)) in
      case frame of
        view_frame.Full view \<Rightarrow>
          (case budget_new view of
             None \<Rightarrow> None
           | Some (b, view) \<Rightarrow> publish \<lparr>lt_view = view, lt_hyperlinks = b, lt_producer = None\<rparr>)
      | Delta delta \<Rightarrow>
          (case rt_views st p of
             None \<Rightarrow> Some (None, st)
           | Some latest \<Rightarrow>
               (case budget_delta_frame (lt_hyperlinks latest) (lt_view latest) delta of
                  None \<Rightarrow> None
                | Some (Inl _) \<Rightarrow> Some (None, st)
                | Some (Inr (b, view, delta)) \<Rightarrow>
                    publish \<lparr>lt_view = view, lt_hyperlinks = b, lt_producer = Some (Delta delta)\<rparr>)))"

text \<open>A new Terminal in a Pane: its view replaces the old one, and no baseline survives.\<close>

definition reset_pane :: "pane_id \<Rightarrow> subscriber \<Rightarrow> subscriber" where
  "reset_pane p sub = bump_generation (sub\<lparr>sub_baselines := (sub_baselines sub)(p := None),
     sub_pending := List.insert p (sub_pending sub)\<rparr>)"

definition install_view :: "pane_id \<Rightarrow> terminal_view \<Rightarrow> ('set, 'git) runtime \<Rightarrow> ('set, 'git) runtime option" where
  "install_view p view st =
     (case budget_new view of
        None \<Rightarrow> None
      | Some (b, view) \<Rightarrow>
          Some (st\<lparr>rt_views := (rt_views st)(p \<mapsto> \<lparr>lt_view = view, lt_hyperlinks = b, lt_producer = None\<rparr>),
             rt_subscribers := (\<lambda>c. map_option (reset_pane p) (rt_subscribers st c))\<rparr>))"

section \<open>A render\<close>

record render_pane =
  rn_pane_id :: pane_id
  rn_baseline :: "terminal_view option"
  rn_current :: terminal_view
  rn_producer :: "view_frame option"

record render_snapshot =
  rs_client_id :: u64
  rs_generation :: u64
  rs_server_id :: u64
  rs_session_id :: u64
  rs_panes :: "render_pane list"

record prepared_render =
  pr_client_id :: u64
  pr_generation :: u64
  pr_server_id :: u64
  pr_session_id :: u64
  pr_pending :: "pane_id list"
  pr_baselines :: "(pane_id \<times> terminal_view) list"
  pr_frames :: "pane_frame list"

definition render_pane_of :: "subscriber \<Rightarrow> (pane_id \<Rightarrow> latest_view option) \<Rightarrow> pane_id \<Rightarrow> render_pane option" where
  "render_pane_of sub views p =
     map_option (\<lambda>latest. \<lparr>rn_pane_id = p, rn_baseline = sub_baselines sub p, rn_current = lt_view latest,
        rn_producer = lt_producer latest\<rparr>) (views p)"

definition retain_live :: "(pane_id \<Rightarrow> latest_view option) \<Rightarrow> subscriber \<Rightarrow> subscriber" where
  "retain_live views sub =
     sub\<lparr>sub_pending := filter (\<lambda>p. views p \<noteq> None) (sub_pending sub),
         sub_baselines := sub_baselines sub |` dom views\<rparr>"

definition terminal_render_snapshot ::
  "u64 \<Rightarrow> ('set, 'git) runtime \<Rightarrow> render_snapshot option \<times> ('set, 'git) runtime" where
  "terminal_render_snapshot c st =
     (case rt_subscribers st c of
        None \<Rightarrow> (None, st)
      | Some sub \<Rightarrow>
          if sub_bootstrap_pending sub then (None, st)
          else
            let sub = retain_live (rt_views st) sub; st = set_subscriber c sub st;
                panes = List.map_filter (render_pane_of sub (rt_views st)) (sub_pending sub)
            in (if panes = [] then None
                else Some \<lparr>rs_client_id = c, rs_generation = sub_generation sub, rs_server_id = rt_server_id st,
                       rs_session_id = rt_session_id st, rs_panes = panes\<rparr>, st))"

text \<open>One Pane's frame and its new baseline. \<open>None\<close> is a Pane with nothing to send.\<close>

definition pane_frame_of :: "render_pane \<Rightarrow> view_frame option option" where
  "pane_frame_of pane =
     (case (rn_baseline pane, rn_producer pane) of
        (Some baseline, Some (Delta delta)) \<Rightarrow>
          if tv_revision baseline = vd_base_revision delta then Some (rn_producer pane)
          else frame_from (rn_baseline pane) (rn_current pane)
      | _ \<Rightarrow> frame_from (rn_baseline pane) (rn_current pane))"

definition projected_baseline :: "render_pane \<Rightarrow> bool \<Rightarrow> view_frame \<Rightarrow> terminal_view option" where
  "projected_baseline pane projected frame =
     (if \<not> projected then Some (rn_current pane)
      else case frame of
        view_frame.Full view \<Rightarrow> Some view
      | Delta _ \<Rightarrow>
          (case rn_baseline pane of
             None \<Rightarrow> None
           | Some baseline \<Rightarrow> (case apply_frame frame baseline of Inl _ \<Rightarrow> None | Inr view \<Rightarrow> Some view)))"

definition prepare_pane :: "render_pane \<Rightarrow> (view_frame \<times> terminal_view) option option" where
  "prepare_pane pane =
     (if (case rn_baseline pane of Some baseline \<Rightarrow> tv_revision (rn_current pane) \<le> tv_revision baseline | None \<Rightarrow> False)
      then Some None
      else case pane_frame_of pane of
        None \<Rightarrow> None
      | Some None \<Rightarrow> Some None
      | Some (Some frame) \<Rightarrow>
          let (projected, frame) = normalize_hyperlinks_for_wire frame in
          (case projected_baseline pane projected frame of
             None \<Rightarrow> None
           | Some baseline \<Rightarrow> Some (Some (frame, baseline))))"

fun prepare_panes :: "render_pane list \<Rightarrow> (pane_frame list \<times> (pane_id \<times> terminal_view) list) option" where
  "prepare_panes [] = Some ([], [])"
| "prepare_panes (pane # panes) =
     (case prepare_pane pane of
        None \<Rightarrow> None
      | Some prepared \<Rightarrow>
          map_option (\<lambda>(frames, baselines).
              case prepared of
                None \<Rightarrow> (frames, baselines)
              | Some (frame, baseline) \<Rightarrow>
                  ((rn_pane_id pane, frame) # frames, (rn_pane_id pane, baseline) # baselines))
            (prepare_panes panes))"

definition prepare_terminal_render :: "render_snapshot \<Rightarrow> prepared_render option" where
  "prepare_terminal_render snap =
     map_option (\<lambda>(frames, baselines). \<lparr>pr_client_id = rs_client_id snap, pr_generation = rs_generation snap,
        pr_server_id = rs_server_id snap, pr_session_id = rs_session_id snap,
        pr_pending = map rn_pane_id (rs_panes snap), pr_baselines = baselines, pr_frames = frames\<rparr>)
       (prepare_panes (rs_panes snap))"

section \<open>Committing it\<close>

datatype render_commit = RenderDone | RenderRetry

definition insert_baselines :: "(pane_id \<times> terminal_view) list \<Rightarrow> subscriber \<Rightarrow> subscriber" where
  "insert_baselines baselines sub = sub\<lparr>sub_baselines := sub_baselines sub ++ map_of (rev baselines)\<rparr>"

text \<open>\<open>Inl True\<close> is a full render slot, \<open>Inl False\<close> a lost connection.\<close>

definition try_send_terminal_render ::
  "bytes list \<Rightarrow> (pane_id \<times> terminal_view) list \<Rightarrow> u64 \<Rightarrow> subscriber \<Rightarrow> ('set, 'git) runtime
   \<Rightarrow> ((bool + unit) \<times> ('set, 'git) runtime) option" where
  "try_send_terminal_render frames baselines c sub st =
     map_option (\<lambda>(r, q).
         case r of
           Inl (RenderFull _) \<Rightarrow> (Inl True, set_writer c q st)
         | Inl (RenderDisconnected _) \<Rightarrow> (Inl False, set_writer c q st)
         | Inr _ \<Rightarrow> (Inr (), set_subscriber c (insert_baselines baselines sub) (set_writer c q st)))
       (try_send_render frames (rt_writers st c))"

definition clear_pending :: "pane_id list \<Rightarrow> subscriber \<Rightarrow> subscriber" where
  "clear_pending done sub =
     bump_generation (sub\<lparr>sub_pending := filter (\<lambda>p. p \<notin> set done) (sub_pending sub)\<rparr>)"

definition settle_render :: "prepared_render \<Rightarrow> ('set, 'git) runtime \<Rightarrow> ('set, 'git) runtime" where
  "settle_render prepared st =
     (case rt_subscribers st (pr_client_id prepared) of
        None \<Rightarrow> st
      | Some sub \<Rightarrow> set_subscriber (pr_client_id prepared) (clear_pending (pr_pending prepared) sub) st)"

definition commit_terminal_render ::
  "prepared_render \<Rightarrow> bytes list option \<Rightarrow> ('set, 'git) runtime \<Rightarrow> (render_commit \<times> ('set, 'git) runtime) option" where
  "commit_terminal_render prepared frames st =
     (let c = pr_client_id prepared in
      case rt_subscribers st c of
        None \<Rightarrow> Some (RenderDone, st)
      | Some sub \<Rightarrow>
          if sub_generation sub \<noteq> pr_generation prepared then Some (RenderRetry, st)
          else case frames of
            None \<Rightarrow> Some (RenderDone, settle_render prepared
                       (set_subscriber c (insert_baselines (pr_baselines prepared) sub) st))
          | Some frames \<Rightarrow>
              (case try_send_terminal_render frames (pr_baselines prepared) c sub st of
                 None \<Rightarrow> None
               | Some (Inl True, st) \<Rightarrow> Some (RenderDone, st)
               | Some (Inl False, st) \<Rightarrow> Some (RenderDone, remove_subscriber c st)
               | Some (Inr _, st) \<Rightarrow> Some (RenderDone, settle_render prepared st)))"

text \<open>The frames of a render as bytes; \<open>None\<close> inside is a render without frames.\<close>

definition render_bytes ::
  "frame_codec \<Rightarrow> (frame_message \<Rightarrow> bytes) \<Rightarrow> prepared_render \<Rightarrow> batch_error + bytes list option" where
  "render_bytes co enc prepared =
     (if pr_frames prepared = [] then Inr None
      else bind_ok (frame_terminal_batches co (pr_server_id prepared) (pr_session_id prepared) (pr_frames prepared))
             (\<lambda>messages. Inr (Some (map enc messages))))"

text \<open>One round of the loop when nothing else runs between its two critical sections; \<open>True\<close> asks for
  another round.\<close>

definition flush_terminal_render ::
  "frame_codec \<Rightarrow> (frame_message \<Rightarrow> bytes) \<Rightarrow> u64 \<Rightarrow> ('set, 'git) runtime \<Rightarrow> (bool \<times> ('set, 'git) runtime) option" where
  "flush_terminal_render co enc c st =
     (case terminal_render_snapshot c st of
        (None, st) \<Rightarrow> Some (False, st)
      | (Some snap, st) \<Rightarrow>
          (case prepare_terminal_render snap of
             None \<Rightarrow> None
           | Some prepared \<Rightarrow>
               (case render_bytes co enc prepared of
                  Inl _ \<Rightarrow> Some (False, st)
                | Inr frames \<Rightarrow>
                    map_option (\<lambda>(r, st). (r = RenderRetry, st)) (commit_terminal_render prepared frames st))))"

end
