(* ===== verification/Server_Subscriptions.thy ===== *)
theory Server_Subscriptions
  imports Terminal_Render
begin

text \<open>
  Who hears of what (\<open>server/subscriptions.rs\<close>, the \<open>Subscribe\<close> request of \<open>server/client.rs\<close> and
  \<open>queue_runtime_bootstrap\<close> of \<open>server/bootstrap.rs\<close>): numbered events with a bounded history, the fence
  that holds events back while a Bootstrap is made, and the set of Panes a Client watches. The bytes
  of a message are the library's: an encoder that answers \<open>None\<close> for one over the frame limit is an
  argument.
\<close>

section \<open>Events\<close>

definition zoomed_panes :: "session \<Rightarrow> pane_id list" where
  "zoomed_panes s = List.map_filter tab_zoomed_pane_id (concat (map w_tabs (workspaces s)))"

text \<open>The walk of \<open>snapshot\<close> may panic on a Tab whose layout is broken; well-formed Sessions have none.\<close>

definition layout_changed_event :: "('set, 'git) runtime \<Rightarrow> ('set, 'git) session_event option" where
  "layout_changed_event st =
     map_option (\<lambda>snap. LayoutChanged snap (zoomed_panes (rt_session st))) (session_to_snapshot (rt_session st))"

definition saturating_succ :: "u64 \<Rightarrow> u64" where
  "saturating_succ n = (if n = - 1 then n else n + 1)"

definition record_event :: "('set, 'git) session_event \<Rightarrow> ('set, 'git) runtime \<Rightarrow> ('set, 'git) runtime" where
  "record_event event st =
     (let sequence = saturating_succ (rt_sequence st); events = rt_events st @ [(sequence, event)] in
      st\<lparr>rt_sequence := sequence, rt_events := drop (length events - EVENT_HISTORY_LIMIT) events,
         rt_log := rt_log st @ [event]\<rparr>)"

text \<open>What the loop of \<open>retain\<close> does with one subscriber: what it keeps of it, and its queue.\<close>

definition offer_event :: "bytes \<Rightarrow> subscriber \<Rightarrow> writer_queue \<Rightarrow> subscriber option \<times> writer_queue" where
  "offer_event data sub q =
     (if sub_bootstrap_pending sub then (Some (sub\<lparr>sub_deferred := sub_deferred sub @ [data]\<rparr>), q)
      else case send_reliable data q of
        (Inl _, q) \<Rightarrow> (None, writer_drop q)
      | (Inr _, q) \<Rightarrow> (Some sub, q))"

definition keep_origin :: "bool \<Rightarrow> subscriber \<Rightarrow> writer_queue \<Rightarrow> subscriber option \<times> writer_queue" where
  "keep_origin lost sub q = (if lost then (None, writer_drop q) else (Some sub, q))"

text \<open>A loop over the subscribers: \<open>f\<close> for each of them.\<close>

definition for_subscribers ::
  "(u64 \<Rightarrow> subscriber \<Rightarrow> writer_queue \<Rightarrow> subscriber option \<times> writer_queue) \<Rightarrow> ('set, 'git) runtime \<Rightarrow> ('set, 'git) runtime" where
  "for_subscribers f st =
     st\<lparr>rt_subscribers := (\<lambda>c. case rt_subscribers st c of None \<Rightarrow> None | Some sub \<Rightarrow> fst (f c sub (rt_writers st c))),
        rt_writers := (\<lambda>c. case rt_subscribers st c of None \<Rightarrow> rt_writers st c | Some sub \<Rightarrow> snd (f c sub (rt_writers st c)))\<rparr>"

text \<open>Whether the origin's connection must close. \<open>None\<close> is the panic of an event over the frame limit.\<close>

definition publish_event ::
  "(('set, 'git, 'r) server_message \<Rightarrow> bytes option) \<Rightarrow> ('set, 'git) session_event \<Rightarrow> u64 option
   \<Rightarrow> ('set, 'git) runtime \<Rightarrow> (bool \<times> ('set, 'git) runtime) option" where
  "publish_event enc event origin st =
     (let st = record_event event st in
      case enc (SessionEvent (rt_server_id st) (rt_session_id st) (rt_sequence st) event) of
        None \<Rightarrow> None
      | Some data \<Rightarrow>
          (case origin of
             None \<Rightarrow> Some (False, for_subscribers (\<lambda>c. offer_event data) st)
           | Some origin \<Rightarrow>
               let (result, q) = send_reliable data (rt_writers st origin); st = set_writer origin q st in
               Some (result = Inl Disconnected,
                 for_subscribers (\<lambda>c. if c = origin then keep_origin (result \<noteq> Inr ()) else offer_event data) st)))"

definition offer_clipboard :: "bytes \<Rightarrow> subscriber \<Rightarrow> writer_queue \<Rightarrow> subscriber option \<times> writer_queue" where
  "offer_clipboard data sub q =
     (if sub_bootstrap_pending sub then (Some (sub\<lparr>sub_clipboard := Some data\<rparr>), q)
      else case send_clipboard data q of
        (Inl _, q) \<Rightarrow> (None, writer_drop q)
      | (Inr _, q) \<Rightarrow> (Some sub, q))"

definition broadcast_clipboard ::
  "(('set, 'git, 'r) server_message \<Rightarrow> bytes option) \<Rightarrow> pane_id \<Rightarrow> rstr \<Rightarrow> ('set, 'git) runtime \<Rightarrow> ('set, 'git) runtime" where
  "broadcast_clipboard enc p content st =
     (case enc (TerminalClipboard p content) of
        None \<Rightarrow> st
      | Some data \<Rightarrow> for_subscribers (\<lambda>c. offer_clipboard data) st)"

section \<open>Subscribing\<close>

text \<open>\<open>outbound.clone()\<close> is made before the look-up and dropped again when there is a subscriber.\<close>

definition ensure_subscriber :: "u64 \<Rightarrow> ('set, 'git) runtime \<Rightarrow> bool \<times> ('set, 'git) runtime" where
  "ensure_subscriber c st =
     (case rt_subscribers st c of
        Some _ \<Rightarrow> (False, st)
      | None \<Rightarrow>
          (True, set_writer c (writer_clone (rt_writers st c))
             (set_subscriber c \<lparr>sub_baselines = Map.empty,
                sub_pending = filter (client_watches st c) (rt_terminals st), sub_generation = 1,
                sub_bootstrap_pending = False, sub_deferred = [], sub_clipboard = None\<rparr> st)))"

definition subscribe_answer ::
  "u64 \<Rightarrow> u64 \<Rightarrow> ('set, 'git) runtime \<Rightarrow> ('set, 'git, 'r) server_message list \<times> bool" where
  "subscribe_answer session_id after_sequence st =
     (let reject = (\<lambda>reason. ([SubscriptionRejected (rt_server_id st) (rt_session_id st) (str_lit reason)], False)) in
      if session_id \<noteq> rt_session_id st then reject ''unknown Session''
      else if rt_sequence st < after_sequence then reject ''event cursor is ahead of the server''
      else if (case rt_events st of [] \<Rightarrow> False | event # _ \<Rightarrow> saturating_succ after_sequence < fst event)
      then reject ''event cursor expired''
      else (map (\<lambda>(sequence, event). SessionEvent (rt_server_id st) (rt_session_id st) sequence event)
              (filter (\<lambda>event. after_sequence < fst event) (rt_events st))
            @ [Subscribed (rt_server_id st) (rt_session_id st) (rt_sequence st)], True))"

definition queue_response ::
  "(('set, 'git, 'r) server_message \<Rightarrow> bytes option) \<Rightarrow> ('set, 'git, 'r) server_message \<Rightarrow> writer_queue
   \<Rightarrow> (reliable_send_error + unit) \<times> writer_queue" where
  "queue_response enc message q =
     (case enc message of None \<Rightarrow> (Inl Disconnected, q) | Some data \<Rightarrow> send_reliable data q)"

text \<open>\<open>try_for_each\<close>: stops at the first response the queue refuses.\<close>

fun queue_responses ::
  "(('set, 'git, 'r) server_message \<Rightarrow> bytes option) \<Rightarrow> ('set, 'git, 'r) server_message list \<Rightarrow> writer_queue
   \<Rightarrow> (reliable_send_error + unit) \<times> writer_queue" where
  "queue_responses enc [] q = (Inr (), q)"
| "queue_responses enc (message # messages) q =
     (case queue_response enc message q of
        (Inl e, q) \<Rightarrow> (Inl e, q)
      | (Inr _, q) \<Rightarrow> queue_responses enc messages q)"

text \<open>Whether to flush, whether to close the connection, and the state.\<close>

definition subscribe ::
  "(('set, 'git, 'r) server_message \<Rightarrow> bytes option) \<Rightarrow> u64 \<Rightarrow> u64 \<Rightarrow> u64 \<Rightarrow> ('set, 'git) runtime
   \<Rightarrow> bool \<times> bool \<times> ('set, 'git) runtime" where
  "subscribe enc c session_id after_sequence st =
     (let (responses, should_subscribe) = subscribe_answer session_id after_sequence st;
          st = (if should_subscribe then snd (ensure_subscriber c st)
                else if rt_subscribers st c = None then st
                else remove_subscriber c (set_writer c (clear_render (rt_writers st c)) st));
          (queued, q) = queue_responses enc responses (rt_writers st c);
          st = set_writer c q st;
          st = (if queued = Inr () then st else remove_subscriber c st)
      in (should_subscribe \<and> queued = Inr (), queued = Inl Disconnected, st))"

section \<open>Watched Panes\<close>

text \<open>A watched Pane with a view and no baseline is marked, one outside the set forgotten.\<close>

definition reconcile_watched_terminals ::
  "pane_id list \<Rightarrow> (pane_id \<Rightarrow> latest_view option) \<Rightarrow> subscriber \<Rightarrow> subscriber" where
  "reconcile_watched_terminals watched views sub =
     (let baselines = sub_baselines sub |` set watched;
          pending = filter (\<lambda>p. p \<in> set watched) (sub_pending sub);
          fresh = filter (\<lambda>p. views p \<noteq> None \<and> baselines p = None) watched
      in bump_generation (sub\<lparr>sub_baselines := baselines, sub_pending := fold List.insert fresh pending\<rparr>))"

definition watch_terminals :: "u64 \<Rightarrow> pane_id list \<Rightarrow> ('set, 'git) runtime \<Rightarrow> ('set, 'git) runtime" where
  "watch_terminals c panes st =
     (let st = st\<lparr>rt_watched := (rt_watched st)(c \<mapsto> panes)\<rparr> in
      case rt_subscribers st c of
        None \<Rightarrow> st
      | Some sub \<Rightarrow>
          if sub_bootstrap_pending sub then st
          else set_subscriber c (reconcile_watched_terminals panes (rt_views st) sub) st)"

section \<open>The Bootstrap fence\<close>

record framed_bootstrap =
  fr_frames :: "bytes list"
  fr_baselines :: "(pane_id \<times> terminal_view) list"

definition fence_subscriber :: "subscriber \<Rightarrow> subscriber" where
  "fence_subscriber sub = bump_generation (sub\<lparr>sub_pending := [], sub_baselines := Map.empty,
     sub_bootstrap_pending := True, sub_deferred := []\<rparr>)"

definition begin_bootstrap :: "u64 \<Rightarrow> ('set, 'git) runtime \<Rightarrow> ('set, 'git) runtime" where
  "begin_bootstrap c st =
     (case rt_subscribers st c of
        None \<Rightarrow> st
      | Some sub \<Rightarrow> set_subscriber c (fence_subscriber sub) (set_writer c (clear_render (rt_writers st c)) st))"

text \<open>The deferred events, one by one: what is left of them, and the queue.\<close>

fun send_deferred :: "bytes list \<Rightarrow> writer_queue \<Rightarrow> (reliable_send_error + unit) \<times> bytes list \<times> writer_queue" where
  "send_deferred [] q = (Inr (), [], q)"
| "send_deferred (data # rest) q =
     (case send_reliable data q of
        (Inl e, q) \<Rightarrow> (Inl e, rest, q)
      | (Inr _, q) \<Rightarrow> send_deferred rest q)"

definition rebase_subscriber ::
  "(pane_id \<times> terminal_view) list \<Rightarrow> pane_id list option \<Rightarrow> (pane_id \<Rightarrow> latest_view option) \<Rightarrow> subscriber \<Rightarrow> subscriber" where
  "rebase_subscriber baselines watched views sub =
     (let sub = sub\<lparr>sub_baselines := map_of (rev baselines)\<rparr> in
      case watched of None \<Rightarrow> sub | Some panes \<Rightarrow> reconcile_watched_terminals panes views sub)"

definition finish_bootstrap ::
  "u64 \<Rightarrow> framed_bootstrap \<Rightarrow> ('set, 'git) runtime \<Rightarrow> (reliable_send_error + unit) \<times> ('set, 'git) runtime" where
  "finish_bootstrap c framed st =
     (case rt_subscribers st c of
        None \<Rightarrow> (Inl Disconnected, st)
      | Some sub \<Rightarrow>
          let sub = rebase_subscriber (fr_baselines framed) (rt_watched st c) (rt_views st) sub;
              stop = (\<lambda>r sub q. (r, set_subscriber c sub (set_writer c q st)))
          in (case send_reliable_batch (fr_frames framed) (clear_render (rt_writers st c)) of
                (Inl e, q) \<Rightarrow> stop (Inl e) sub q
              | (Inr _, q) \<Rightarrow>
                  (case send_deferred (sub_deferred sub) q of
                     (Inl e, rest, q) \<Rightarrow> stop (Inl e) (sub\<lparr>sub_deferred := rest\<rparr>) q
                   | (Inr _, rest, q) \<Rightarrow>
                       let clipboard = sub_clipboard sub; sub = sub\<lparr>sub_deferred := rest, sub_clipboard := None\<rparr>;
                           (r, q) = (case clipboard of None \<Rightarrow> (Inr (), q) | Some data \<Rightarrow> send_clipboard data q)
                       in (case r of
                             Inl e \<Rightarrow> stop (Inl e) sub q
                           | Inr _ \<Rightarrow> stop (Inr ()) (bump_generation (sub\<lparr>sub_bootstrap_pending := False\<rparr>)) q))))"

definition abort_bootstrap :: "u64 \<Rightarrow> ('set, 'git) runtime \<Rightarrow> ('set, 'git) runtime" where
  "abort_bootstrap c st =
     (case rt_subscribers st c of
        None \<Rightarrow> st
      | Some sub \<Rightarrow>
          let q = (case sub_clipboard sub of
                     None \<Rightarrow> rt_writers st c | Some data \<Rightarrow> snd (send_clipboard data (rt_writers st c)))
          in set_subscriber c (bump_generation (sub\<lparr>sub_bootstrap_pending := False, sub_deferred := [],
                 sub_clipboard := None, sub_pending := []\<rparr>)) (set_writer c q st))"

end
