(* ===== verification/Render_Screens.thy ===== *)
theory Render_Screens
  imports Server_Subscriptions
begin

text \<open>
  What a render does to the screens: views compared without the hyperlinks that the limits may cost
  them, what a published frame does to the retained view, and what a prepared frame does to the
  Client's copy.
\<close>

section \<open>Views without their links\<close>

definition bare_cell :: "terminal_cell \<Rightarrow> terminal_cell" where
  "bare_cell cell = cell\<lparr>tc_hyperlink := None\<rparr>"

definition bare_view :: "terminal_view \<Rightarrow> terminal_view" where
  "bare_view view = view\<lparr>tv_cells := map bare_cell (tv_cells view)\<rparr>"

definition bare_run :: "cell_run \<Rightarrow> cell_run" where
  "bare_run run = run\<lparr>cr_cells := map bare_cell (cr_cells run)\<rparr>"

fun bare_frame :: "view_frame \<Rightarrow> view_frame" where
  "bare_frame (view_frame.Full view) = view_frame.Full (bare_view view)"
| "bare_frame (Delta delta) = Delta (delta\<lparr>vd_runs := map bare_run (vd_runs delta)\<rparr>)"

lemma bare_view_simps [simp]:
  "tv_revision (bare_view view) = tv_revision view" "tv_cells (bare_view view) = map bare_cell (tv_cells view)"
  by (simp_all add: bare_view_def)

lemma bare_run_simps [simp]: "cr_start (bare_run run) = cr_start run" "cr_cells (bare_run run) = map bare_cell (cr_cells run)"
  by (simp_all add: bare_run_def)

lemma bare_revision: "bare_view a = bare_view b \<Longrightarrow> tv_revision a = tv_revision b"
  by (drule arg_cong [where f = tv_revision]) simp

lemma bare_length: "bare_view a = bare_view b \<Longrightarrow> length (tv_cells a) = length (tv_cells b)"
  by (drule arg_cong [where f = "\<lambda>v. length (tv_cells v)"]) simp

lemma bare_ok: "bare_view a = bare_view b \<Longrightarrow> view_ok a \<Longrightarrow> view_ok b"
  using bare_length [of a b] by (simp add: view_ok_def)

lemma bare_links: "lost_links cells cells' \<Longrightarrow> map bare_cell cells' = map bare_cell cells"
  unfolding lost_links_def by (induction rule: list_all2_induct) (auto simp: link_lost_def bare_cell_def)

lemma bare_lost: "view_lost view view' \<Longrightarrow> bare_view view' = bare_view view"
proof -
  assume "view_lost view view'"
  then obtain cells where cells: "lost_links (tv_cells view) cells" "view' = view\<lparr>tv_cells := cells\<rparr>"
    unfolding view_lost_def by blast
  show ?thesis by (simp add: bare_view_def cells(2) bare_links [OF cells(1)])
qed

lemma bare_runs: "lost_run_links runs runs' \<Longrightarrow> map bare_run runs' = map bare_run runs"
proof (induction runs arbitrary: runs')
  case (Cons run runs)
  then obtain run' rest where runs': "runs' = run' # rest" by (cases runs') (auto simp: lost_run_links_def)
  from Cons.prems runs' have one: "cr_start run' = cr_start run" "lost_links (cr_cells run) (cr_cells run')"
    and rest: "lost_run_links runs rest" by simp_all
  have "bare_run run' = bare_run run"
    by (rule cell_run.equality) (simp_all add: one(1) bare_links [OF one(2)])
  with Cons.IH [OF rest] runs' show ?case by simp
qed simp

lemma bare_put_run: "put_run (bare_run run) (map bare_cell cells) = map bare_cell (put_run run cells)"
  by (simp add: put_run_def Let_def take_map drop_map)

lemma bare_put_runs: "fold put_run (map bare_run runs) (map bare_cell cells) = map bare_cell (fold put_run runs cells)"
  by (induction runs arbitrary: cells) (simp_all add: bare_put_run)

lemma bare_validate_runs: "validate_runs limit e (map bare_run runs) = validate_runs limit e runs"
  by (induction limit e runs rule: validate_runs.induct) (simp_all add: Let_def split: option.splits)

lemma bare_validate:
  "validate_frame (bare_view view) (bare_frame frame) = validate_frame view frame"
  by (cases frame) (simp_all add: validate_delta_def bare_validate_runs)

lemma bare_apply_delta:
  "apply_validated_delta (delta\<lparr>vd_runs := map bare_run (vd_runs delta)\<rparr>) (bare_view view)
   = bare_view (apply_validated_delta delta view)"
  by (simp add: apply_validated_delta_def bare_view_def bare_put_runs)

lemma bare_apply: "apply_frame (bare_frame frame) (bare_view view) = map_sum id bare_view (apply_frame frame view)"
proof (cases "validate_frame view frame")
  case (Inl e)
  then show ?thesis by (simp add: apply_frame_def bare_validate)
next
  case (Inr u)
  then have ok: "validate_frame (bare_view view) (bare_frame frame) = Inr u" by (simp only: bare_validate)
  from Inr ok show ?thesis
    by (cases frame) (simp_all add: apply_frame_def bare_apply_delta del: validate_frame.simps)
qed

lemma apply_bare:
  assumes "apply_frame frame view = Inr out" and "bare_frame frame' = bare_frame frame" and "bare_view view' = bare_view view"
  shows "\<exists>out'. apply_frame frame' view' = Inr out' \<and> bare_view out' = bare_view out"
proof -
  have "map_sum id bare_view (apply_frame frame' view') = Inr (bare_view out)"
    using bare_apply [of frame' view'] bare_apply [of frame view] assms by simp
  then show ?thesis by (cases "apply_frame frame' view'") auto
qed

lemma bare_normalize:
  assumes "normalize_hyperlinks_for_wire frame = (lost, frame')"
  shows "bare_frame frame' = bare_frame frame" and "\<not> lost \<Longrightarrow> frame' = frame"
proof -
  have lost: "frame_lost frame frame'" using normalize_frame_lost [of frame] assms by simp
  show "bare_frame frame' = bare_frame frame"
  proof (cases frame)
    case (Full view)
    with lost bare_lost show ?thesis by auto
  next
    case (Delta delta)
    with lost bare_runs show ?thesis by auto
  qed
  assume "\<not> lost"
  then show "frame' = frame"
  proof (cases frame)
    case (Full view)
    then show ?thesis using assms \<open>\<not> lost\<close> normalize_wire_cells_spec [OF wire_inv_new, of "tv_cells view"]
      by (auto split: prod.splits)
  next
    case (Delta delta)
    then show ?thesis using assms \<open>\<not> lost\<close> normalize_wire_runs_spec [OF wire_inv_new, of "vd_runs delta"]
      by (auto split: prod.splits)
  qed
qed

definition same_screen :: "terminal_view \<Rightarrow> terminal_view \<Rightarrow> bool" where
  "same_screen a b \<longleftrightarrow> same_but_revision (bare_view a) (bare_view b)"

lemma same_screen_refl [simp]: "same_screen a a"
  by (simp add: same_screen_def)

lemma bare_same_screen: "bare_view a = bare_view b \<Longrightarrow> same_screen a b"
  by (simp add: same_screen_def)

lemma same_screen_bare: "same_screen a b \<Longrightarrow> bare_view a' = bare_view a \<Longrightarrow> same_screen a' b"
  by (simp add: same_screen_def)

lemma unchanged_same_screen: "same_but_revision a b \<Longrightarrow> same_screen a b"
proof -
  have bare: "(bare_view v)\<lparr>tv_revision := 0\<rparr> = bare_view (v\<lparr>tv_revision := 0\<rparr>)" for v by (simp add: bare_view_def)
  assume "same_but_revision a b"
  then show ?thesis by (simp add: same_screen_def same_but_revision_def bare)
qed

end
