(* ===== verification/Render_Chain.thy ===== *)
theory Render_Chain
  imports Render_Screens
begin

text \<open>
  A Client's screens follow the Server's terminals: the invariant between the retained views, a
  subscriber's baselines and marks, and what the Client holds, over any run of publications, new and
  closed Terminals, changes of the watched set, Bootstraps and renders of which any number may be
  under way at once.
\<close>

section \<open>The retained views\<close>

definition latest_ok :: "latest_view \<Rightarrow> bool" where
  "latest_ok l \<longleftrightarrow> view_ok (lt_view l) \<and> kept_inv (lt_hyperlinks l) (lt_view l)
     \<and> (\<forall>v. lt_producer l \<noteq> Some (view_frame.Full v))
     \<and> (\<forall>d. lt_producer l = Some (Delta d) \<longrightarrow> vd_base_revision d < tv_revision (lt_view l))"

text \<open>A baseline from which the newest view can be reached: by comparing the two, or by the producer's own
  delta when it starts at the baseline's revision.\<close>

definition baseline_ok :: "terminal_view \<Rightarrow> latest_view \<Rightarrow> bool" where
  "baseline_ok b l \<longleftrightarrow> view_ok b \<and> tv_revision b \<le> tv_revision (lt_view l)
     \<and> (tv_revision b = tv_revision (lt_view l) \<longrightarrow> bare_view b = bare_view (lt_view l))
     \<and> (\<forall>d. lt_producer l = Some (Delta d) \<and> vd_base_revision d = tv_revision b \<longrightarrow>
          (\<exists>v. apply_frame (Delta d) b = Inr v \<and> bare_view v = bare_view (lt_view l)))"

lemma current_baseline_ok: "latest_ok l \<Longrightarrow> bare_view b = bare_view (lt_view l) \<Longrightarrow> baseline_ok b l"
  using bare_revision [of b "lt_view l"] bare_ok [of "lt_view l" b]
  by (auto simp: baseline_ok_def latest_ok_def)

lemma bare_set_link [simp]: "bare_cell (cell\<lparr>tc_hyperlink := link\<rparr>) = bare_cell cell"
  by (simp add: bare_cell_def)

lemma bare_budget: "budget_normalize cells b = Some (cells', b') \<Longrightarrow> map bare_cell cells' = map bare_cell cells"
proof (induction cells arbitrary: b cells')
  case (Cons cell cells)
  then show ?case by (auto split: option.splits)
qed simp

lemma bare_budget_runs: "budget_normalize_runs runs b = Some (runs', b') \<Longrightarrow> map bare_run runs' = map bare_run runs"
proof (induction runs arbitrary: b runs')
  case (Cons run runs)
  from Cons.prems obtain cells b1 rest where cells: "budget_normalize (cr_cells run) b = Some (cells, b1)"
    "budget_normalize_runs runs b1 = Some (rest, b')" "runs' = run\<lparr>cr_cells := cells\<rparr> # rest"
    by (auto split: option.splits)
  have "bare_run (run\<lparr>cr_cells := cells\<rparr>) = bare_run run" using bare_budget [OF cells(1)] by (simp add: bare_run_def)
  with Cons.IH [OF cells(2)] cells(3) show ?case by simp
qed simp

lemma budget_frame_outcome:
  assumes inv: "kept_inv b view"
  shows "case budget_delta_frame b view delta of
      None \<Rightarrow> False
    | Some (Inl e) \<Rightarrow> validate_delta view delta = Inl e
    | Some (Inr (b', view', delta')) \<Rightarrow> validate_delta view delta = Inr () \<and> kept_inv b' view'
        \<and> view' = apply_validated_delta delta' view \<and> bare_frame (Delta delta') = bare_frame (Delta delta)
        \<and> vd_base_revision delta' = vd_base_revision delta \<and> vd_revision delta' = vd_revision delta"
proof (cases "validate_delta view delta")
  case (Inl e)
  then show ?thesis by (simp add: budget_delta_frame_def)
next
  case (Inr u)
  then have valid: "validate_delta view delta = Inr ()" by simp
  have same: "map_option (map_sum id (\<lambda>(b, v, d). (b, v))) (budget_delta_frame b view delta) = budget_apply_delta b view delta"
    by (simp add: budget_delta_frame_def budget_apply_delta_def Let_def split: sum.splits option.splits prod.splits)
  from budget_delta_inv [OF inv valid] obtain b' view' where
    out: "budget_apply_delta b view delta = Some (Inr (b', view'))" "kept_inv b' view'" by blast
  obtain delta' where frame: "budget_delta_frame b view delta = Some (Inr (b', view', delta'))"
  proof (cases "budget_delta_frame b view delta")
    case (Some r)
    with same out(1) that show ?thesis by (cases r) auto
  qed (use same out(1) in simp)
  have "view' = apply_validated_delta delta' view \<and> bare_frame (Delta delta') = bare_frame (Delta delta)
      \<and> vd_base_revision delta' = vd_base_revision delta \<and> vd_revision delta' = vd_revision delta"
    using frame valid by (auto simp: budget_delta_frame_def Let_def bare_budget_runs split: if_splits option.splits)
  with frame out valid show ?thesis by simp
qed

text \<open>One view follows another: what every baseline of the one keeps for the other.\<close>

definition follows :: "latest_view \<Rightarrow> latest_view \<Rightarrow> bool" where
  "follows l l' \<longleftrightarrow> latest_ok l' \<and> (\<forall>b. baseline_ok b l \<longrightarrow> baseline_ok b l')"

lemma full_follows:
  assumes new: "budget_new view = Some (b, view')" and ok: "view_ok view"
  shows "latest_ok \<lparr>lt_view = view', lt_hyperlinks = b, lt_producer = None\<rparr>" "bare_view view' = bare_view view"
    and "tv_revision (lt_view l) < tv_revision view \<Longrightarrow> follows l \<lparr>lt_view = view', lt_hyperlinks = b, lt_producer = None\<rparr>"
proof -
  have len: "length (tv_cells view) \<le> usize_max" using view_ok_bounds [OF ok] by simp
  from budget_new_inv [OF this] new obtain cells where
    cells: "view' = view\<lparr>tv_cells := cells\<rparr>" "lost_links (tv_cells view) cells" "kept_inv b view'" by auto
  then have lost: "view_lost view view'" by (auto simp: view_lost_def)
  show latest: "latest_ok \<lparr>lt_view = view', lt_hyperlinks = b, lt_producer = None\<rparr>"
    using view_lost_fields(3) [OF lost] cells(3) ok by (simp add: latest_ok_def)
  show "bare_view view' = bare_view view" by (rule bare_lost [OF lost])
  assume "tv_revision (lt_view l) < tv_revision view"
  then show "follows l \<lparr>lt_view = view', lt_hyperlinks = b, lt_producer = None\<rparr>"
    using latest cells(1) by (auto simp: follows_def baseline_ok_def)
qed

lemma delta_follows:
  assumes ok: "latest_ok l"
    and delta: "budget_delta_frame (lt_hyperlinks l) (lt_view l) delta = Some (Inr (b', view', delta'))"
  shows "follows l \<lparr>lt_view = view', lt_hyperlinks = b', lt_producer = Some (Delta delta')\<rparr>" (is "follows l ?l'")
proof -
  let ?view = "lt_view l"
  have inv: "kept_inv (lt_hyperlinks l) ?view" using ok by (simp add: latest_ok_def)
  have "validate_delta ?view delta = Inr () \<and> kept_inv b' view' \<and> view' = apply_validated_delta delta' ?view
      \<and> bare_frame (Delta delta') = bare_frame (Delta delta)
      \<and> vd_base_revision delta' = vd_base_revision delta \<and> vd_revision delta' = vd_revision delta"
    using budget_frame_outcome [OF inv, of delta] unfolding delta option.case sum.case prod.case by blast
  then have valid: "validate_delta ?view delta = Inr ()" and kept: "kept_inv b' view'"
    and out: "view' = apply_validated_delta delta' ?view" and same: "bare_frame (Delta delta') = bare_frame (Delta delta)"
    and revs: "vd_base_revision delta' = vd_base_revision delta" "vd_revision delta' = vd_revision delta" by blast+
  from valid have moved: "vd_base_revision delta < vd_revision delta" "tv_revision ?view = vd_base_revision delta"
    by (auto simp: validate_delta_def not_le split: if_splits)
  have rev': "tv_revision view' = vd_revision delta" using out revs by (simp add: apply_validated_delta_def)
  have "apply_frame (Delta delta) ?view = Inr (apply_validated_delta delta ?view)"
    using valid by (simp add: apply_frame_def)
  from apply_bare [OF this same refl] have applied: "apply_frame (Delta delta') ?view = Inr view'"
    using out by (auto simp: apply_frame_def split: sum.splits)
  have "view_ok view'" using apply_full_ok [OF _ _ applied] ok by (simp add: latest_ok_def)
  with kept moved rev' revs have latest: "latest_ok ?l'" by (simp add: latest_ok_def)
  have "baseline_ok b ?l'" if b: "baseline_ok b l" for b
  proof -
    have "tv_revision b \<le> tv_revision ?view" using b by (simp add: baseline_ok_def)
    then have older: "tv_revision b < tv_revision view'" unfolding rev' moved(2) using moved(1) by (rule order.strict_trans1)
    have "\<exists>v. apply_frame (Delta delta') b = Inr v \<and> bare_view v = bare_view view'"
      if "vd_base_revision delta' = tv_revision b"
      using that b moved(2) revs(1) apply_bare [OF applied refl] by (simp add: baseline_ok_def)
    with older b show ?thesis by (auto simp: baseline_ok_def)
  qed
  with latest show ?thesis by (simp add: follows_def)
qed

section \<open>What is prepared\<close>

text \<open>A frame brings a holder of \<open>held\<close> to \<open>b\<close>.\<close>

fun frame_brings :: "view_frame \<Rightarrow> terminal_view option \<Rightarrow> terminal_view \<Rightarrow> bool" where
  "frame_brings (view_frame.Full v) held b \<longleftrightarrow> bare_view v = bare_view b"
| "frame_brings (Delta d) held b \<longleftrightarrow>
     (\<exists>w v. held = Some w \<and> apply_frame (Delta d) w = Inr v \<and> bare_view v = bare_view b)"

lemma frame_brings_bare:
  assumes "frame_brings frame held b" and "bare_frame frame' = bare_frame frame" and "bare_view b' = bare_view b"
    and "\<And>w. held = Some w \<Longrightarrow> \<exists>w'. held' = Some w' \<and> bare_view w' = bare_view w"
  shows "frame_brings frame' held' b'"
proof (cases frame)
  case (Full v)
  with assms show ?thesis by (cases frame') auto
next
  case (Delta d)
  with assms(1) obtain w v where held: "held = Some w" "apply_frame frame w = Inr v" "bare_view v = bare_view b" by auto
  from assms(4) [OF held(1)] obtain w' where w': "held' = Some w'" "bare_view w' = bare_view w" by blast
  from apply_bare [OF held(2) assms(2) w'(2)] obtain v' where
    "apply_frame frame' w' = Inr v'" "bare_view v' = bare_view v" by blast
  with Delta assms(2,3) held(3) w'(1) show ?thesis by (cases frame') auto
qed

definition pane_ready :: "render_pane \<Rightarrow> latest_view \<Rightarrow> bool" where
  "pane_ready pane l \<longleftrightarrow> latest_ok l \<and> rn_current pane = lt_view l \<and> rn_producer pane = lt_producer l
     \<and> (\<forall>b. rn_baseline pane = Some b \<longrightarrow> baseline_ok b l)"

definition pane_prepared :: "render_pane \<Rightarrow> (view_frame \<times> terminal_view) option \<Rightarrow> bool" where
  "pane_prepared pane out \<longleftrightarrow>
     (case out of
        None \<Rightarrow> \<exists>b. rn_baseline pane = Some b \<and> same_screen b (rn_current pane)
      | Some (frame, b) \<Rightarrow> full_ok frame \<and> bare_view b = bare_view (rn_current pane)
          \<and> frame_brings frame (rn_baseline pane) b)"

lemma made_frame:
  assumes ready: "pane_ready pane l"
    and newer: "\<And>b. rn_baseline pane = Some b \<Longrightarrow> tv_revision b < tv_revision (rn_current pane)"
  shows "\<exists>out. pane_frame_of pane = Some out \<and>
    (case out of
       None \<Rightarrow> \<exists>b. rn_baseline pane = Some b \<and> same_screen b (rn_current pane)
     | Some frame \<Rightarrow> full_ok frame \<and> frame_brings frame (rn_baseline pane) (rn_current pane))"
proof -
  let ?cur = "rn_current pane"
  have cur: "view_ok ?cur" using ready by (simp add: pane_ready_def latest_ok_def)
  show ?thesis
  proof (cases "rn_baseline pane")
    case None
    with cur show ?thesis by (simp add: pane_frame_of_def frame_from_def)
  next
    case (Some b)
    then have b: "baseline_ok b l" using ready by (simp add: pane_ready_def)
    have compare: "\<exists>out. frame_from (Some b) ?cur = Some out \<and>
      (case out of None \<Rightarrow> same_screen b ?cur | Some frame \<Rightarrow> full_ok frame \<and> frame_brings frame (Some b) ?cur)"
    proof -
      obtain out where out: "frame_from (Some b) ?cur = Some out" using frame_from_total [OF cur] by blast
      from out show ?thesis
      proof (cases rule: frame_from_cases)
        case full
        with cur out show ?thesis by simp
      next
        case none
        then have "same_but_revision b ?cur" by (intro same_but_revisionI) simp_all
        with none(1) out unchanged_same_screen show ?thesis by simp
      next
        case (delta d)
        then have "apply_frame (Delta d) b = Inr ?cur"
          using delta_applies [of b d] b by (simp add: baseline_ok_def)
        with delta(1) out show ?thesis by simp
      qed
    qed
    show ?thesis
    proof (cases "\<exists>d. rn_producer pane = Some (Delta d) \<and> tv_revision b = vd_base_revision d")
      case True
      then obtain d where d: "rn_producer pane = Some (Delta d)" "tv_revision b = vd_base_revision d" by blast
      then have "lt_producer l = Some (Delta d)" "lt_view l = ?cur" using ready by (simp_all add: pane_ready_def)
      with b d(2) obtain v where "apply_frame (Delta d) b = Inr v" "bare_view v = bare_view ?cur"
        unfolding baseline_ok_def by metis
      with Some d show ?thesis by (simp add: pane_frame_of_def)
    next
      case False
      then have "pane_frame_of pane = frame_from (Some b) ?cur"
        using Some by (auto simp: pane_frame_of_def split: option.splits view_frame.splits)
      with compare Some show ?thesis by (auto split: option.splits)
    qed
  qed
qed

lemma bare_full_ok: "bare_frame frame' = bare_frame frame \<Longrightarrow> full_ok frame \<Longrightarrow> full_ok frame'"
  by (cases frame; cases frame') (auto dest: bare_ok [OF sym])

lemma prepare_pane_sound:
  assumes ready: "pane_ready pane l"
  shows "\<exists>out. prepare_pane pane = Some out \<and> pane_prepared pane out"
proof (cases "case rn_baseline pane of Some b \<Rightarrow> tv_revision (rn_current pane) \<le> tv_revision b | None \<Rightarrow> False")
  case True
  then obtain b where b: "rn_baseline pane = Some b" "tv_revision (rn_current pane) \<le> tv_revision b"
    by (auto split: option.splits)
  then have "bare_view b = bare_view (rn_current pane)"
    using ready by (auto simp: pane_ready_def baseline_ok_def)
  with True b show ?thesis by (simp add: prepare_pane_def pane_prepared_def bare_same_screen)
next
  case False
  then have newer: "\<And>b. rn_baseline pane = Some b \<Longrightarrow> tv_revision b < tv_revision (rn_current pane)" by (simp add: not_le)
  from made_frame [OF ready newer] obtain out where made: "pane_frame_of pane = Some out" and
    out: "case out of None \<Rightarrow> \<exists>b. rn_baseline pane = Some b \<and> same_screen b (rn_current pane)
      | Some frame \<Rightarrow> full_ok frame \<and> frame_brings frame (rn_baseline pane) (rn_current pane)" by blast
  show ?thesis
  proof (cases out)
    case None
    with made out False show ?thesis by (simp add: prepare_pane_def pane_prepared_def)
  next
    case (Some frame)
    obtain lost frame' where norm: "normalize_hyperlinks_for_wire frame = (lost, frame')" by fastforce
    note bare = bare_normalize [OF norm]
    have brings: "frame_brings frame' (rn_baseline pane) (rn_current pane)"
      using frame_brings_bare [OF _ bare(1) refl, of "rn_baseline pane"] out Some by simp
    have full: "full_ok frame'" using bare_full_ok [OF bare(1)] out Some by simp
    obtain b where "projected_baseline pane lost frame' = Some b" "bare_view b = bare_view (rn_current pane)"
    proof (cases frame')
      case (Full v)
      with brings that show thesis by (cases lost) (auto simp: projected_baseline_def)
    next
      case (Delta d)
      with brings that show thesis by (cases lost) (auto simp: projected_baseline_def)
    qed
    moreover from this(2) brings have "frame_brings frame' (rn_baseline pane) b"
      using frame_brings_bare [OF brings refl] by simp
    ultimately show ?thesis using made Some False norm full
      by (simp add: prepare_pane_def pane_prepared_def)
  qed
qed

text \<open>The whole render: one frame and one baseline for each Pane that needs them.\<close>

lemma map_of_rev: "distinct (map fst xs) \<Longrightarrow> map_of (rev xs) = map_of xs"
  by (rule map_of_inject_set [THEN iffD2]) (simp_all add: rev_map [symmetric])

lemma prepare_panes_sound:
  "\<forall>pane \<in> set panes. \<exists>l. pane_ready pane l \<Longrightarrow> distinct (map rn_pane_id panes) \<Longrightarrow>
   \<exists>frames bs. prepare_panes panes = Some (frames, bs) \<and> distinct (map fst frames) \<and> map fst bs = map fst frames
     \<and> set (map fst frames) \<subseteq> set (map rn_pane_id panes)
     \<and> (\<forall>pane \<in> set panes. \<exists>out. pane_prepared pane out \<and> map_of frames (rn_pane_id pane) = map_option fst out
          \<and> map_of bs (rn_pane_id pane) = map_option snd out)"
proof (induction panes)
  case (Cons pane panes)
  have "\<forall>pane \<in> set panes. \<exists>l. pane_ready pane l" "distinct (map rn_pane_id panes)" using Cons.prems by simp_all
  from Cons.IH [OF this] obtain frames bs where rest: "prepare_panes panes = Some (frames, bs)" "distinct (map fst frames)"
    "map fst bs = map fst frames" "set (map fst frames) \<subseteq> set (map rn_pane_id panes)"
    "\<forall>q \<in> set panes. \<exists>out. pane_prepared q out \<and> map_of frames (rn_pane_id q) = map_option fst out
          \<and> map_of bs (rn_pane_id q) = map_option snd out" by blast
  from Cons.prems(1) obtain l where "pane_ready pane l" by auto
  from prepare_pane_sound [OF this] obtain out where out: "prepare_pane pane = Some out" "pane_prepared pane out" by blast
  let ?id = "rn_pane_id pane"
  have unknown: "?id \<notin> set (map rn_pane_id panes)" using Cons.prems(2) by simp
  then have other: "rn_pane_id q \<noteq> ?id" if "q \<in> set panes" for q using that by (metis imageI list.set_map)
  have fresh: "?id \<notin> set (map fst frames)" "?id \<notin> set (map fst bs)"
    using rest(4) unknown unfolding rest(3) by blast+
  show ?case
  proof (cases out)
    case None
    have none: "map_of frames ?id = None" "map_of bs ?id = None" using fresh by (simp_all add: map_of_eq_None_iff)
    have "\<forall>q \<in> set (pane # panes). \<exists>out. pane_prepared q out \<and> map_of frames (rn_pane_id q) = map_option fst out
          \<and> map_of bs (rn_pane_id q) = map_option snd out"
      using out(2) None none rest(5) by simp
    moreover have "prepare_panes (pane # panes) = Some (frames, bs)" using out(1) None rest(1) by simp
    moreover have "set (map fst frames) \<subseteq> set (map rn_pane_id (pane # panes))" using rest(4) by auto
    ultimately show ?thesis using rest(2,3) by blast
  next
    case (Some fb)
    obtain f b where fb: "fb = (f, b)" by fastforce
    have same: "map_of ((?id, f) # frames) (rn_pane_id q) = map_of frames (rn_pane_id q)"
      "map_of ((?id, b) # bs) (rn_pane_id q) = map_of bs (rn_pane_id q)" if "q \<in> set panes" for q
      using other [OF that] by simp_all
    have "prepare_panes (pane # panes) = Some ((?id, f) # frames, (?id, b) # bs)"
      using out(1) Some fb rest(1) by simp
    moreover have "\<forall>q \<in> set (pane # panes). \<exists>out. pane_prepared q out
        \<and> map_of ((?id, f) # frames) (rn_pane_id q) = map_option fst out
        \<and> map_of ((?id, b) # bs) (rn_pane_id q) = map_option snd out"
      using out(2) Some fb rest(5) same by auto
    moreover have "distinct (map fst ((?id, f) # frames))" using rest(2) fresh by simp
    moreover have "map fst ((?id, b) # bs) = map fst ((?id, f) # frames)" using rest(3) by simp
    moreover have "set (map fst ((?id, f) # frames)) \<subseteq> set (map rn_pane_id (pane # panes))" using rest(4) by auto
    ultimately show ?thesis by blast
  qed
qed simp

section \<open>What the Client makes of it\<close>

lemma check_panes_accept:
  "(\<forall>p \<in> fst ` set panes. p \<notin> seen) \<Longrightarrow> distinct (map fst panes) \<Longrightarrow> (\<forall>pane \<in> set panes. pane_valid terminals pane) \<Longrightarrow>
   (\<forall>p view. terminals p = Some view \<longrightarrow> budgets p \<noteq> None) \<Longrightarrow> check_panes terminals budgets seen panes = Inr ()"
proof (induction terminals budgets seen panes rule: check_panes.induct)
  case (2 terminals budgets seen p frame panes)
  have "check_panes terminals budgets (insert p seen) panes = Inr ()"
    by (rule 2(1)) (use 2(2-5) in auto)
  moreover have "pane_valid terminals (p, frame)" using 2(4) by simp
  ultimately show ?case using 2(2,5)
    by (auto simp: pane_valid_def split: option.splits view_frame.splits)
qed simp

lemma brings_valid: "frame_brings frame (terminals p) b \<Longrightarrow> pane_valid terminals (p, frame)"
proof (cases frame)
  case (Full v)
  then show ?thesis by (simp add: pane_valid_def split: option.splits)
next
  case (Delta d)
  assume "frame_brings frame (terminals p) b"
  with Delta obtain w v where "terminals p = Some w" "apply_frame (Delta d) w = Inr v" by auto
  then show ?thesis using Delta by (auto simp: pane_valid_def apply_frame_def)
qed

lemma outcome_bare:
  assumes "pane_outcome terminals p frame view'" and "frame_brings frame (terminals p) b"
  shows "bare_view view' = bare_view b"
proof (cases frame)
  case (Full v)
  with assms bare_lost show ?thesis by simp
next
  case (Delta d)
  with assms(2) obtain w v where w: "terminals p = Some w" "apply_frame (Delta d) w = Inr v" "bare_view v = bare_view b" by auto
  from assms(1) Delta w(1) obtain runs where
    runs: "lost_run_links (vd_runs d) runs" "view' = apply_validated_delta (d\<lparr>vd_runs := runs\<rparr>) w"
    by (auto simp: budget_outcome_def)
  have "bare_frame (Delta (d\<lparr>vd_runs := runs\<rparr>)) = bare_frame (Delta d)" using bare_runs [OF runs(1)] by simp
  from apply_bare [OF w(2) this refl] obtain v' where
    "apply_frame (Delta (d\<lparr>vd_runs := runs\<rparr>)) w = Inr v'" "bare_view v' = bare_view v" by blast
  moreover from this(1) runs(2) have "v' = view'" by (auto simp: apply_frame_def split: sum.splits)
  ultimately show ?thesis using w(3) by simp
qed

lemma client_takes_render:
  assumes inv: "client_inv st" and distinct: "distinct (map fst frames)"
    and ready: "\<And>p f. map_of frames p = Some f \<Longrightarrow> full_ok f \<and> (\<exists>b. frame_brings f (fst st p) b)"
  shows "\<exists>st'. apply_terminal_frame_batch frames st = Some (Inr (map fst frames), st') \<and> client_inv st'
    \<and> (\<forall>p. map_of frames p = None \<longrightarrow> fst st' p = fst st p)
    \<and> (\<forall>p f b. map_of frames p = Some f \<and> frame_brings f (fst st p) b \<longrightarrow>
         (\<exists>v. fst st' p = Some v \<and> bare_view v = bare_view b))"
proof -
  have each: "full_ok f \<and> (\<exists>b. frame_brings f (fst st p) b)" if "(p, f) \<in> set frames" for p f
    using ready that distinct by (simp add: map_of_is_SomeI)
  have valid: "\<forall>pane \<in> set frames. pane_valid (fst st) pane"
    using each brings_valid by fastforce
  have kept: "\<forall>p view. fst st p = Some view \<longrightarrow> snd st p \<noteq> None" using inv unfolding client_inv_def by (metis option.distinct(1))
  have "check_panes (fst st) (snd st) {} frames = Inr ()"
    by (rule check_panes_accept [OF _ distinct valid kept]) simp
  moreover have "\<forall>pane \<in> set frames. pane_valid (fst st) pane \<and> full_ok (snd pane)" using valid each by auto
  from apply_panes_ok [OF inv distinct this] obtain st' where
    st': "apply_panes frames st = Some st'" "client_inv st'"
      "\<forall>pane \<in> set frames. \<exists>view'. fst st' (fst pane) = Some view' \<and> pane_outcome (fst st) (fst pane) (snd pane) view'"
      "\<forall>p. p \<notin> fst ` set frames \<longrightarrow> fst st' p = fst st p" by blast
  ultimately have "apply_terminal_frame_batch frames st = Some (Inr (map fst frames), st')"
    by (simp add: apply_terminal_frame_batch_def)
  moreover have "\<exists>v. fst st' p = Some v \<and> bare_view v = bare_view b"
    if "map_of frames p = Some f" "frame_brings f (fst st p) b" for p f b
    using st'(3) map_of_SomeD [OF that(1)] outcome_bare [of "fst st" p f _ b] that(2) by fastforce
  ultimately show ?thesis using st'(2,4) by (auto simp: map_of_eq_None_iff)
qed

end
