(* ===== verification/Render_Run.thy ===== *)
theory Render_Run
  imports Render_Chain
begin

text \<open>
  Any run of what concerns one subscriber: publications and new, closed or replaced Terminals, changes
  of its watched set, Bootstraps, and renders whose two critical sections lie anywhere in between. The
  invariant of a run and its consequences: every render the Server commits is one the Client can
  apply, and a Pane without a mark shows what the Server shows.
\<close>

section \<open>The invariant, without the state around it\<close>

text \<open>\<open>w\<close> are the watched Panes, \<open>B\<close> the baselines, \<open>P\<close> the marked Panes, \<open>H\<close> what the Client holds.\<close>

type_synonym views = "pane_id \<Rightarrow> latest_view option"

definition synced :: "views \<Rightarrow> (pane_id \<Rightarrow> bool) \<Rightarrow> terminals \<Rightarrow> pane_id set \<Rightarrow> terminals \<Rightarrow> bool" where
  "synced views w B P H \<longleftrightarrow>
     (\<forall>p b. B p = Some b \<longrightarrow> w p \<and> (\<exists>v. H p = Some v \<and> bare_view v = bare_view b)
        \<and> (\<forall>l. views p = Some l \<longrightarrow> baseline_ok b l))
     \<and> (\<forall>p \<in> P. w p)
     \<and> (\<forall>p l. views p = Some l \<and> w p \<and> p \<notin> P \<longrightarrow> (\<exists>b. B p = Some b \<and> same_screen b (lt_view l)))"

lemma syncedD:
  assumes "synced views w B P H"
  shows "B p = Some b \<Longrightarrow> w p" and "B p = Some b \<Longrightarrow> \<exists>v. H p = Some v \<and> bare_view v = bare_view b"
    and "B p = Some b \<Longrightarrow> views p = Some l \<Longrightarrow> baseline_ok b l" and "p \<in> P \<Longrightarrow> w p"
    and "views p = Some l \<Longrightarrow> w p \<Longrightarrow> p \<notin> P \<Longrightarrow> \<exists>b. B p = Some b \<and> same_screen b (lt_view l)"
  using assms unfolding synced_def by blast+

lemma syncedI:
  assumes "\<And>p b. B p = Some b \<Longrightarrow> w p" and "\<And>p b. B p = Some b \<Longrightarrow> \<exists>v. H p = Some v \<and> bare_view v = bare_view b"
    and "\<And>p b l. B p = Some b \<Longrightarrow> views p = Some l \<Longrightarrow> baseline_ok b l" and "\<And>p. p \<in> P \<Longrightarrow> w p"
    and "\<And>p l. views p = Some l \<Longrightarrow> w p \<Longrightarrow> p \<notin> P \<Longrightarrow> \<exists>b. B p = Some b \<and> same_screen b (lt_view l)"
  shows "synced views w B P H"
  using assms unfolding synced_def by blast

lemma synced_publish:
  assumes inv: "synced views w B P H" and l: "views p = Some l" and follows: "follows l l'"
    and P': "P' = (if w p then insert p P else P)"
  shows "synced (views(p \<mapsto> l')) w B P' H"
proof (rule syncedI)
  fix q b k assume b: "B q = Some b" and k: "(views(p \<mapsto> l')) q = Some k"
  show "baseline_ok b k"
  proof (cases "q = p")
    case True
    with syncedD(3) [OF inv _ l] follows b k show ?thesis by (auto simp: follows_def)
  next
    case False
    with syncedD(3) [OF inv b] k show ?thesis by simp
  qed
next
  fix q k assume "(views(p \<mapsto> l')) q = Some k" "w q" "q \<notin> P'"
  then show "\<exists>b. B q = Some b \<and> same_screen b (lt_view k)"
    using syncedD(5) [OF inv, of q k] P' by (auto split: if_splits)
qed (use syncedD [OF inv] P' in \<open>auto split: if_splits\<close>)

lemma synced_install:
  assumes inv: "synced views w B P H" and w: "w p"
  shows "synced (views(p \<mapsto> l')) w (B(p := None)) (insert p P) H"
  by (rule syncedI) (use syncedD [OF inv] w in \<open>auto split: if_splits\<close>)

lemma synced_close: "synced views w B P H \<Longrightarrow> synced (views(p := None)) w B P H"
  by (rule syncedI) (auto dest: syncedD split: if_splits)

lemma synced_retain: "synced views w B P H \<Longrightarrow> synced views w (B |` dom views) (P \<inter> dom views) H"
  by (rule syncedI) (auto dest: syncedD simp: restrict_map_def split: if_splits)

lemma synced_watch:
  assumes inv: "synced views w B P H"
  shows "synced views (\<lambda>p. p \<in> W) (B |` W) ((P \<inter> W) \<union> {p \<in> W. views p \<noteq> None \<and> B p = None}) (H |` W)"
proof (rule syncedI)
  fix p l assume l: "views p = Some l" and p: "p \<in> W" "p \<notin> (P \<inter> W) \<union> {p \<in> W. views p \<noteq> None \<and> B p = None}"
  then obtain b where b: "B p = Some b" by auto
  with syncedD(5) [OF inv l syncedD(1) [OF inv b]] p show "\<exists>b. (B |` W) p = Some b \<and> same_screen b (lt_view l)"
    by auto
qed (use syncedD [OF inv] in \<open>auto simp: restrict_map_def split: if_splits\<close>)

text \<open>The start of a Bootstrap: the views it carries are the baselines, and what the Client will hold.\<close>

lemma synced_capture:
  assumes caps: "\<And>p b. caps p = Some b \<Longrightarrow> w p \<and> (\<forall>l. views p = Some l \<longrightarrow> latest_ok l \<and> bare_view b = bare_view (lt_view l))"
    and all: "\<And>p l. views p = Some l \<Longrightarrow> w p \<Longrightarrow> caps p \<noteq> None"
  shows "synced views w caps {} caps"
proof (rule syncedI)
  fix p l assume "views p = Some l" "w p" "p \<notin> {}"
  with caps [of p] all [of p l] bare_same_screen show "\<exists>b. caps p = Some b \<and> same_screen b (lt_view l)" by fastforce
qed (use caps current_baseline_ok in auto)

section \<open>A render under way\<close>

definition pane_fresh :: "views \<Rightarrow> terminals \<Rightarrow> terminals \<Rightarrow> prepared_render \<Rightarrow> pane_id \<Rightarrow> bool" where
  "pane_fresh views B H prep p \<longleftrightarrow>
     (case map_of (pr_frames prep) p of
        None \<Rightarrow> \<forall>l. views p = Some l \<longrightarrow> (\<exists>b. B p = Some b \<and> same_screen b (lt_view l))
      | Some f \<Rightarrow> \<exists>b. map_of (pr_baselines prep) p = Some b \<and> full_ok f \<and> frame_brings f (H p) b
          \<and> (\<forall>l. views p = Some l \<longrightarrow> bare_view b = bare_view (lt_view l)))"

definition render_fresh :: "views \<Rightarrow> (pane_id \<Rightarrow> bool) \<Rightarrow> terminals \<Rightarrow> terminals \<Rightarrow> prepared_render \<Rightarrow> bool" where
  "render_fresh views w B H prep \<longleftrightarrow>
     distinct (map fst (pr_frames prep)) \<and> map fst (pr_baselines prep) = map fst (pr_frames prep)
     \<and> set (map fst (pr_frames prep)) \<subseteq> set (pr_pending prep)
     \<and> (\<forall>p \<in> set (pr_pending prep). w p \<and> pane_fresh views B H prep p)"

lemma pane_fresh_fewer:
  assumes "pane_fresh views B H prep p" and "\<And>l. views' p = Some l \<Longrightarrow> views p = Some l \<and> B' p = B p"
  shows "pane_fresh views' B' H prep p"
proof (cases "map_of (pr_frames prep) p")
  case None
  with assms show ?thesis by (simp add: pane_fresh_def)
next
  case (Some f)
  with assms(1) obtain b where "map_of (pr_baselines prep) p = Some b" "full_ok f" "frame_brings f (H p) b"
    "\<forall>l. views p = Some l \<longrightarrow> bare_view b = bare_view (lt_view l)" by (auto simp: pane_fresh_def)
  with assms(2) show ?thesis unfolding pane_fresh_def Some option.case by blast
qed

lemma render_fresh_fewer:
  assumes "render_fresh views w B H prep" and "\<And>p l. views' p = Some l \<Longrightarrow> views p = Some l \<and> B' p = B p"
  shows "render_fresh views' w B' H prep"
  using assms(1) pane_fresh_fewer [of views B H prep _ views' B', OF _ assms(2)]
  unfolding render_fresh_def by blast

lemma render_fresh_close: "render_fresh views w B H prep \<Longrightarrow> render_fresh (views(p := None)) w B H prep"
  by (erule render_fresh_fewer) (simp split: if_splits)

lemma render_fresh_retain: "render_fresh views w B H prep \<Longrightarrow> render_fresh views w (B |` dom views) H prep"
  by (erule render_fresh_fewer) (auto simp: restrict_map_def)

lemma fresh_frame:
  assumes "render_fresh views w B H prep" and at: "map_of (pr_frames prep) p = Some f"
  shows "\<exists>b. map_of (pr_baselines prep) p = Some b \<and> full_ok f \<and> frame_brings f (H p) b \<and> w p
    \<and> (\<forall>l. views p = Some l \<longrightarrow> bare_view b = bare_view (lt_view l))"
proof -
  have "p \<in> set (map fst (pr_frames prep))" using map_of_SomeD [OF at] by force
  with assms(1) have "w p" "pane_fresh views B H prep p" unfolding render_fresh_def by blast+
  with at show ?thesis by (auto simp: pane_fresh_def)
qed

lemma fresh_baseline:
  assumes "render_fresh views w B H prep" and "map_of (pr_baselines prep) p = Some b"
  shows "\<exists>f. map_of (pr_frames prep) p = Some f"
proof -
  have "p \<in> set (map fst (pr_baselines prep))" using map_of_SomeD [OF assms(2)] by force
  then have "p \<in> fst ` set (pr_frames prep)" using assms(1) unfolding render_fresh_def by simp
  then have "map_of (pr_frames prep) p \<noteq> None" by (simp add: map_of_eq_None_iff)
  then show ?thesis by blast
qed

lemma synced_commit:
  assumes inv: "synced views w B P H" and views: "\<And>p l. views p = Some l \<Longrightarrow> latest_ok l"
    and fresh: "render_fresh views w B H prep"
    and taken: "\<And>p f b. map_of (pr_frames prep) p = Some f \<Longrightarrow> frame_brings f (H p) b \<Longrightarrow>
      \<exists>v. H' p = Some v \<and> bare_view v = bare_view b"
    and kept: "\<And>p. map_of (pr_frames prep) p = None \<Longrightarrow> H' p = H p"
  shows "synced views w (B ++ map_of (pr_baselines prep)) (P - set (pr_pending prep)) H'"
proof (rule syncedI)
  fix p b assume b: "(B ++ map_of (pr_baselines prep)) p = Some b"
  have new: "w p \<and> (\<exists>v. H' p = Some v \<and> bare_view v = bare_view b) \<and> (\<forall>l. views p = Some l \<longrightarrow> baseline_ok b l)"
    if at: "map_of (pr_baselines prep) p = Some b"
  proof -
    from fresh_baseline [OF fresh at] obtain f where f: "map_of (pr_frames prep) p = Some f" by blast
    from fresh_frame [OF fresh f] at taken [OF f, of b] show ?thesis
      by (auto intro: current_baseline_ok views)
  qed
  have old: "w p \<and> (\<exists>v. H' p = Some v \<and> bare_view v = bare_view b) \<and> (\<forall>l. views p = Some l \<longrightarrow> baseline_ok b l)"
    if at: "map_of (pr_baselines prep) p = None" "B p = Some b"
  proof -
    have "map_of (pr_frames prep) p = None"
      using at(1) fresh_frame [OF fresh, of p] by (cases "map_of (pr_frames prep) p") auto
    with kept syncedD [OF inv, where p = p] at(2) show ?thesis by simp
  qed
  have both: "w p \<and> (\<exists>v. H' p = Some v \<and> bare_view v = bare_view b) \<and> (\<forall>l. views p = Some l \<longrightarrow> baseline_ok b l)"
    using b new old by (auto simp: map_add_Some_iff)
  then show "w p" "\<exists>v. H' p = Some v \<and> bare_view v = bare_view b" by simp_all
  show "baseline_ok b l" if "views p = Some l" for l using both that by simp
next
  fix p l assume l: "views p = Some l" and w: "w p" and p: "p \<notin> P - set (pr_pending prep)"
  show "\<exists>b. (B ++ map_of (pr_baselines prep)) p = Some b \<and> same_screen b (lt_view l)"
  proof (cases "map_of (pr_baselines prep) p")
    case (Some b)
    from fresh_baseline [OF fresh Some] obtain f where "map_of (pr_frames prep) p = Some f" by blast
    from fresh_frame [OF fresh this] Some l bare_same_screen show ?thesis by (auto simp: map_add_Some_iff)
  next
    case None
    then have none: "map_of (pr_frames prep) p = None"
      using fresh_frame [OF fresh, of p] by (cases "map_of (pr_frames prep) p") auto
    have "\<exists>b. B p = Some b \<and> same_screen b (lt_view l)"
    proof (cases "p \<in> set (pr_pending prep)")
      case True
      with fresh have "pane_fresh views B H prep p" unfolding render_fresh_def by blast
      with none l show ?thesis by (simp add: pane_fresh_def)
    next
      case False
      with p syncedD(5) [OF inv l w] show ?thesis by simp
    qed
    with None show ?thesis by (auto simp: map_add_Some_iff)
  qed
qed (use syncedD(4) [OF inv] in auto)

section \<open>Runs\<close>

record ('set, 'git) render_run =
  rr_state :: "('set, 'git) runtime"
  rr_bumps :: nat
  rr_flights :: "(nat \<times> prepared_render) set"
  rr_capture :: "(pane_id \<times> terminal_view) list option"
  rr_held :: "terminals \<times> budgets"

text \<open>\<open>rr_bumps\<close> counts the changes of the generation without its wrap-around at \<open>2^64\<close>; a render under way
  keeps the count it was taken at.\<close>

definition generation :: "u64 \<Rightarrow> ('set, 'git) runtime \<Rightarrow> u64" where
  "generation c st = (case rt_subscribers st c of Some sub \<Rightarrow> sub_generation sub | None \<Rightarrow> 0)"

definition moved :: "u64 \<Rightarrow> ('set, 'git) render_run \<Rightarrow> ('set, 'git) runtime \<Rightarrow> ('set, 'git) render_run" where
  "moved c r st = r\<lparr>rr_state := st, rr_bumps := rr_bumps r + unat (generation c st - generation c (rr_state r))\<rparr>"

text \<open>A Terminal's frames advance its revision; a delta that does not fit is refused by itself.\<close>

definition frame_advances :: "view_frame \<Rightarrow> latest_view \<Rightarrow> bool" where
  "frame_advances frame l \<longleftrightarrow>
     (case frame of view_frame.Full v \<Rightarrow> view_ok v \<and> tv_revision (lt_view l) < tv_revision v | Delta _ \<Rightarrow> True)"

text \<open>The views a Bootstrap captures of the Panes \<open>ps\<close>, in the Session's order.\<close>

definition capture_views :: "('set, 'git) runtime \<Rightarrow> u64 \<Rightarrow> pane_id list \<Rightarrow> (pane_id \<times> terminal_view) list" where
  "capture_views st c ps = List.map_filter
     (\<lambda>p. if client_watches st c p then map_option (\<lambda>l. (p, normalize_view (lt_view l))) (rt_views st p) else None) ps"

definition holds_bootstrap :: "(pane_id \<times> terminal_view) list \<Rightarrow> terminals \<times> budgets \<Rightarrow> bool" where
  "holds_bootstrap caps held \<longleftrightarrow> client_inv held
     \<and> (\<forall>p b. map_of caps p = Some b \<longrightarrow> (\<exists>v. fst held p = Some v \<and> bare_view v = bare_view b))"

text \<open>Whether a commit hands its frames on, and the Client that applied them.\<close>

definition committed :: "u64 \<Rightarrow> prepared_render \<Rightarrow> bytes list option \<Rightarrow> ('set, 'git) runtime \<Rightarrow> bool" where
  "committed c prep frames st \<longleftrightarrow> generation c st = pr_generation prep
     \<and> (case frames of None \<Rightarrow> True | Some data \<Rightarrow> \<exists>q. try_send_render data (rt_writers st c) = Some (Inr (), q))"

definition client_after :: "pane_frame list \<Rightarrow> terminals \<times> budgets \<Rightarrow> terminals \<times> budgets" where
  "client_after frames held =
     (case apply_terminal_frame_batch frames held of Some (Inr _, held) \<Rightarrow> held | _ \<Rightarrow> held)"

definition same_render :: "subscriber \<Rightarrow> subscriber \<Rightarrow> bool" where
  "same_render sub sub' \<longleftrightarrow> sub_baselines sub' = sub_baselines sub \<and> sub_pending sub' = sub_pending sub
     \<and> sub_generation sub' = sub_generation sub \<and> sub_bootstrap_pending sub' = sub_bootstrap_pending sub"

text \<open>One step that concerns Client \<open>c\<close>, in the state and in what the Client holds once it applied all it
  was sent. A Terminal is installed in a Pane the Client watches and no Bootstrap on its way carries; a
  Client changes its set on the thread that also makes its Bootstraps, so not during one; a Bootstrap
  captures every retained view. \<open>step_other\<close> is everything else: events, other Clients' renders.\<close>

inductive render_step :: "u64 \<Rightarrow> ('set, 'git) render_run \<Rightarrow> ('set, 'git) render_run \<Rightarrow> bool" for c where
  step_publish: "publish_terminal p frame (rr_state r) = Some (out, st) \<Longrightarrow> rt_views (rr_state r) p = Some l \<Longrightarrow>
    frame_advances frame l \<Longrightarrow> render_step c r (moved c r st)"
| step_install: "install_view p v (rr_state r) = Some st \<Longrightarrow> view_ok v \<Longrightarrow> client_watches (rr_state r) c p \<Longrightarrow>
    \<forall>caps. rr_capture r = Some caps \<longrightarrow> p \<notin> fst ` set caps \<Longrightarrow> render_step c r (moved c r st)"
| step_close: "render_step c r (moved c r ((rr_state r)\<lparr>rt_views := (rt_views (rr_state r))(p := None)\<rparr>))"
| step_watch: "rr_capture r = None \<Longrightarrow>
    render_step c r ((moved c r (watch_terminals c ps (rr_state r)))
      \<lparr>rr_held := (fst (rr_held r) |` set ps, snd (rr_held r) |` set ps)\<rparr>)"
| step_other: "rt_views st = rt_views (rr_state r) \<Longrightarrow> rt_watched st c = rt_watched (rr_state r) c \<Longrightarrow>
    rt_subscribers (rr_state r) c = Some sub \<Longrightarrow> rt_subscribers st c = Some sub' \<Longrightarrow> same_render sub sub' \<Longrightarrow>
    render_step c r (moved c r st)"
| step_idle: "terminal_render_snapshot c (rr_state r) = (None, st) \<Longrightarrow> render_step c r (moved c r st)"
| step_take: "terminal_render_snapshot c (rr_state r) = (Some snap, st) \<Longrightarrow> prepare_terminal_render snap = Some prep \<Longrightarrow>
    render_step c r ((moved c r st)\<lparr>rr_flights := insert (rr_bumps r, prep) (rr_flights r)\<rparr>)"
| step_commit: "(n, prep) \<in> rr_flights r \<Longrightarrow> (frames = None) = (pr_frames prep = []) \<Longrightarrow>
    commit_terminal_render prep frames (rr_state r) = Some (out, st) \<Longrightarrow> rt_subscribers st c \<noteq> None \<Longrightarrow>
    render_step c r ((moved c r st)\<lparr>rr_held :=
      if committed c prep frames (rr_state r) then client_after (pr_frames prep) (rr_held r) else rr_held r\<rparr>)"
| step_begin: "rr_capture r = None \<Longrightarrow> distinct ps \<Longrightarrow> \<forall>p. rt_views (rr_state r) p \<noteq> None \<longrightarrow> p \<in> set ps \<Longrightarrow>
    render_step c r ((moved c r (begin_bootstrap c (rr_state r)))\<lparr>rr_capture := Some (capture_views (rr_state r) c ps)\<rparr>)"
| step_finish: "rr_capture r = Some caps \<Longrightarrow>
    finish_bootstrap c \<lparr>fr_frames = data, fr_baselines = caps\<rparr> (rr_state r) = (Inr (), st) \<Longrightarrow> holds_bootstrap caps held \<Longrightarrow>
    render_step c r ((moved c r st)\<lparr>rr_capture := None, rr_held := held\<rparr>)"

text \<open>What \<open>ensure_subscriber\<close> leaves for a Client that may hold anything.\<close>

definition render_start :: "u64 \<Rightarrow> ('set, 'git) render_run \<Rightarrow> bool" where
  "render_start c r \<longleftrightarrow> rr_bumps r = 1 \<and> rr_flights r = {} \<and> rr_capture r = None \<and> client_inv (rr_held r)
     \<and> (\<forall>p l. rt_views (rr_state r) p = Some l \<longrightarrow> latest_ok l)
     \<and> (\<exists>sub. rt_subscribers (rr_state r) c = Some sub \<and> sub_generation sub = 1 \<and> \<not> sub_bootstrap_pending sub
          \<and> sub_baselines sub = Map.empty \<and> distinct (sub_pending sub)
          \<and> (\<forall>p \<in> set (sub_pending sub). client_watches (rr_state r) c p)
          \<and> (\<forall>p. rt_views (rr_state r) p \<noteq> None \<and> client_watches (rr_state r) c p \<longrightarrow> p \<in> set (sub_pending sub)))"

section \<open>The invariant of a run\<close>

definition run_synced :: "u64 \<Rightarrow> ('set, 'git) render_run \<Rightarrow> subscriber \<Rightarrow> bool" where
  "run_synced c r sub \<longleftrightarrow>
     (let views = rt_views (rr_state r); w = client_watches (rr_state r) c in
      case rr_capture r of
        None \<Rightarrow> synced views w (sub_baselines sub) (set (sub_pending sub)) (fst (rr_held r))
      | Some caps \<Rightarrow> distinct (map fst caps) \<and> synced views w (map_of caps) (set (sub_pending sub)) (map_of caps))"

definition flight_ok :: "u64 \<Rightarrow> ('set, 'git) render_run \<Rightarrow> subscriber \<Rightarrow> nat \<times> prepared_render \<Rightarrow> bool" where
  "flight_ok c r sub flight \<longleftrightarrow>
     (let (n, prep) = flight in n \<le> rr_bumps r \<and> pr_client_id prep = c \<and> pr_generation prep = of_nat n
      \<and> (n = rr_bumps r \<longrightarrow> rr_capture r = None
           \<and> render_fresh (rt_views (rr_state r)) (client_watches (rr_state r) c) (sub_baselines sub) (fst (rr_held r)) prep))"

definition run_inv :: "u64 \<Rightarrow> ('set, 'git) render_run \<Rightarrow> bool" where
  "run_inv c r \<longleftrightarrow> client_inv (rr_held r) \<and> (\<forall>p l. rt_views (rr_state r) p = Some l \<longrightarrow> latest_ok l)
     \<and> (\<exists>sub. rt_subscribers (rr_state r) c = Some sub \<and> sub_generation sub = of_nat (rr_bumps r)
          \<and> sub_bootstrap_pending sub = (rr_capture r \<noteq> None) \<and> distinct (sub_pending sub)
          \<and> run_synced c r sub \<and> (\<forall>flight \<in> rr_flights r. flight_ok c r sub flight))"

lemma moved_simps [simp]:
  "rr_state (moved c r st) = st" "rr_flights (moved c r st) = rr_flights r" "rr_capture (moved c r st) = rr_capture r"
  "rr_held (moved c r st) = rr_held r"
  "rr_bumps (moved c r st) = rr_bumps r + unat (generation c st - generation c (rr_state r))"
  by (simp_all add: moved_def)

lemma render_start_inv: "render_start c r \<Longrightarrow> run_inv c r"
  unfolding render_start_def run_inv_def run_synced_def by (auto intro!: syncedI)

lemma render_step_bumps: "render_step c r r' \<Longrightarrow> rr_bumps r \<le> rr_bumps r'"
  by (induction rule: render_step.induct) simp_all

text \<open>How a step re-establishes it: the flights are either outdated by a new generation or still fresh.\<close>

lemma run_inv_step:
  assumes inv: "run_inv c r" and sub: "rt_subscribers (rr_state r) c = Some sub" "rt_subscribers (rr_state r') c = Some sub'"
    and bumps: "rr_bumps r' = rr_bumps r + unat (sub_generation sub' - sub_generation sub)"
    and held: "client_inv (rr_held r')" and views: "\<And>p l. rt_views (rr_state r') p = Some l \<Longrightarrow> latest_ok l"
    and capture: "sub_bootstrap_pending sub' = (rr_capture r' \<noteq> None)" and distinct: "distinct (sub_pending sub')"
    and synced: "run_synced c r' sub'" and flights: "rr_flights r' = rr_flights r"
    and still: "\<And>n prep. sub_generation sub' = sub_generation sub \<Longrightarrow> (n, prep) \<in> rr_flights r \<Longrightarrow> n = rr_bumps r \<Longrightarrow>
      rr_capture r = None \<Longrightarrow>
      render_fresh (rt_views (rr_state r)) (client_watches (rr_state r) c) (sub_baselines sub) (fst (rr_held r)) prep \<Longrightarrow>
      rr_capture r' = None
      \<and> render_fresh (rt_views (rr_state r')) (client_watches (rr_state r') c) (sub_baselines sub') (fst (rr_held r')) prep"
  shows "run_inv c r'"
proof -
  have gen: "sub_generation sub = of_nat (rr_bumps r)" and old: "\<forall>flight \<in> rr_flights r. flight_ok c r sub flight"
    using inv sub(1) by (auto simp: run_inv_def)
  have gen': "sub_generation sub' = of_nat (rr_bumps r')" using gen bumps by simp
  have "flight_ok c r' sub' (n, prep)" if at: "(n, prep) \<in> rr_flights r" for n prep
  proof -
    have ok: "flight_ok c r sub (n, prep)" using old at by blast
    show ?thesis
    proof (cases "sub_generation sub' = sub_generation sub")
      case True
      with still [OF True at] ok bumps show ?thesis by (simp add: flight_ok_def)
    next
      case False
      then have "rr_bumps r < rr_bumps r'" using bumps by (simp add: unat_gt_0)
      with ok show ?thesis by (simp add: flight_ok_def)
    qed
  qed
  then show ?thesis using sub(2) held views capture distinct synced flights gen' by (auto simp: run_inv_def)
qed

lemma run_inv_sub:
  assumes "run_inv c r"
  obtains sub where "rt_subscribers (rr_state r) c = Some sub" "sub_generation sub = of_nat (rr_bumps r)"
    "sub_bootstrap_pending sub = (rr_capture r \<noteq> None)" "distinct (sub_pending sub)" "run_synced c r sub"
    "\<And>flight. flight \<in> rr_flights r \<Longrightarrow> flight_ok c r sub flight"
  using assms by (auto simp: run_inv_def)

lemma render_fresh_elsewhere:
  assumes "render_fresh views w B H prep" and "\<not> w p"
  shows "render_fresh (views(p := x)) w B H prep"
proof -
  have "w q \<and> pane_fresh (views(p := x)) B H prep q" if "q \<in> set (pr_pending prep)" for q
  proof -
    have q: "w q" "pane_fresh views B H prep q" using assms(1) that unfolding render_fresh_def by blast+
    with assms(2) have "q \<noteq> p" by blast
    then have "pane_fresh (views(p := x)) B H prep q" by (intro pane_fresh_fewer [OF q(2)]) simp
    with q(1) show ?thesis by blast
  qed
  with assms(1) show ?thesis unfolding render_fresh_def by blast
qed

lemma publish_cases:
  assumes pub: "publish_terminal p frame st = Some (out, st')" and l: "rt_views st p = Some l" "latest_ok l"
    and advances: "frame_advances frame l"
  obtains (refused) "st' = st"
    | (published) l' where "follows l l'" "st' = st\<lparr>rt_views := (rt_views st)(p \<mapsto> l'), rt_subscribers := mark_watchers p st\<rparr>"
proof (cases frame)
  case (Full v)
  then have v: "view_ok v" "tv_revision (lt_view l) < tv_revision v" using advances by (simp_all add: frame_advances_def)
  from pub Full obtain b v' where new: "budget_new v = Some (b, v')"
    and st': "st' = st\<lparr>rt_views := (rt_views st)(p \<mapsto> \<lparr>lt_view = v', lt_hyperlinks = b, lt_producer = None\<rparr>),
      rt_subscribers := mark_watchers p st\<rparr>" by (auto simp: publish_terminal_def Let_def split: option.splits)
  from full_follows(3) [OF new v(1) v(2)] st' published show thesis by blast
next
  case (Delta d)
  show thesis
  proof (cases "budget_delta_frame (lt_hyperlinks l) (lt_view l) d")
    case (Some r)
    show thesis
    proof (cases r)
      case (Inl e)
      with pub Delta l(1) Some refused show thesis by (simp add: publish_terminal_def Let_def)
    next
      case (Inr x)
      obtain b v d' where x: "x = (b, v, d')" by (metis prod_cases3)
      from delta_follows [OF l(2)] Some Inr x have "follows l \<lparr>lt_view = v, lt_hyperlinks = b, lt_producer = Some (Delta d')\<rparr>" by simp
      moreover from pub Delta l(1) Some Inr x have "st' = st\<lparr>rt_views := (rt_views st)(p \<mapsto>
          \<lparr>lt_view = v, lt_hyperlinks = b, lt_producer = Some (Delta d')\<rparr>), rt_subscribers := mark_watchers p st\<rparr>"
        by (simp add: publish_terminal_def Let_def)
      ultimately show thesis using published by blast
    qed
  qed (use pub Delta l(1) in \<open>simp add: publish_terminal_def\<close>)
qed

lemma generation_sub: "rt_subscribers st c = Some sub \<Longrightarrow> generation c st = sub_generation sub"
  by (simp add: generation_def)

lemma inv_publish:
  assumes inv: "run_inv c r" and pub: "publish_terminal p frame (rr_state r) = Some (out, st)"
    and l: "rt_views (rr_state r) p = Some l" and advances: "frame_advances frame l"
  shows "run_inv c (moved c r st)"
proof -
  let ?st = "rr_state r" and ?r = "moved c r st"
  from run_inv_sub [OF inv] obtain sub where sub: "rt_subscribers ?st c = Some sub"
    "sub_bootstrap_pending sub = (rr_capture r \<noteq> None)" "distinct (sub_pending sub)" "run_synced c r sub" by metis
  have ok: "latest_ok k" if "rt_views ?st q = Some k" for q k using inv that by (simp add: run_inv_def)
  from pub l ok [OF l] advances show ?thesis
  proof (cases rule: publish_cases)
    case refused
    with inv show ?thesis by (simp add: moved_def)
  next
    case (published l')
    let ?w = "client_watches ?st c p"
    define sub' where "sub' = (if ?w then mark_pending p sub else sub)"
    have sub': "rt_subscribers st c = Some sub'" using published(2) sub(1) by (simp add: mark_watchers_def sub'_def)
    have parts: "rt_views st = (rt_views ?st)(p \<mapsto> l')" "client_watches st c = client_watches ?st c"
      using published(2) by (simp_all add: client_watches_def fun_eq_iff)
    have set: "set (sub_pending sub') = (if ?w then insert p (set (sub_pending sub)) else set (sub_pending sub))"
      "sub_baselines sub' = sub_baselines sub" "sub_bootstrap_pending sub' = sub_bootstrap_pending sub"
      "distinct (sub_pending sub')" using sub(3) by (simp_all add: sub'_def mark_pending_def)
    show ?thesis
    proof (rule run_inv_step [OF inv sub(1), of ?r sub'])
      show "rt_subscribers (rr_state ?r) c = Some sub'" using sub' by simp
      show "run_synced c ?r sub'"
        using sub(4) synced_publish [where w = "client_watches ?st c" and p = p and views = "rt_views ?st", OF _ l published(1) set(1)]
        by (cases "rr_capture r") (simp_all add: run_synced_def Let_def parts set(2))
      show "latest_ok k" if "rt_views (rr_state ?r) q = Some k" for q k
        using that published(1) ok parts(1) by (auto simp: follows_def split: if_splits)
      fix n prep
      assume same: "sub_generation sub' = sub_generation sub" and none: "rr_capture r = None"
        and fresh: "render_fresh (rt_views ?st) (client_watches ?st c) (sub_baselines sub) (fst (rr_held r)) prep"
      have "\<not> ?w" using same by (auto simp: sub'_def mark_pending_def split: if_splits)
      from render_fresh_elsewhere [OF fresh this] none show "rr_capture ?r = None
          \<and> render_fresh (rt_views (rr_state ?r)) (client_watches (rr_state ?r) c) (sub_baselines sub') (fst (rr_held ?r)) prep"
        by (simp add: parts set(2))
    qed (use sub sub' set inv in \<open>simp_all add: run_inv_def generation_sub\<close>)
  qed
qed

lemma inv_install:
  assumes inv: "run_inv c r" and new: "install_view p v (rr_state r) = Some st" "view_ok v"
    and w: "client_watches (rr_state r) c p" and outside: "\<forall>caps. rr_capture r = Some caps \<longrightarrow> p \<notin> fst ` set caps"
  shows "run_inv c (moved c r st)"
proof -
  let ?st = "rr_state r" and ?r = "moved c r st"
  from run_inv_sub [OF inv] obtain sub where sub: "rt_subscribers ?st c = Some sub"
    "sub_bootstrap_pending sub = (rr_capture r \<noteq> None)" "distinct (sub_pending sub)" "run_synced c r sub" by metis
  have ok: "latest_ok k" if "rt_views ?st q = Some k" for q k using inv that by (simp add: run_inv_def)
  from new(1) obtain b v' where new': "budget_new v = Some (b, v')"
    and st: "st = ?st\<lparr>rt_views := (rt_views ?st)(p \<mapsto> \<lparr>lt_view = v', lt_hyperlinks = b, lt_producer = None\<rparr>),
      rt_subscribers := (\<lambda>c. map_option (reset_pane p) (rt_subscribers ?st c))\<rparr>"
    by (auto simp: install_view_def split: option.splits)
  define l' where "l' = \<lparr>lt_view = v', lt_hyperlinks = b, lt_producer = None\<rparr>"
  have l': "latest_ok l'" using full_follows(1) [OF new' new(2)] by (simp add: l'_def)
  let ?sub = "reset_pane p sub"
  have parts: "rt_views st = (rt_views ?st)(p \<mapsto> l')" "client_watches st c = client_watches ?st c"
    "rt_subscribers st c = Some ?sub" using st sub(1) by (simp_all add: client_watches_def fun_eq_iff l'_def)
  have set: "set (sub_pending ?sub) = insert p (set (sub_pending sub))" "sub_baselines ?sub = (sub_baselines sub)(p := None)"
    "sub_bootstrap_pending ?sub = sub_bootstrap_pending sub" "distinct (sub_pending ?sub)"
    "sub_generation ?sub = sub_generation sub + 1" using sub(3) by (simp_all add: reset_pane_def)
  show ?thesis
  proof (rule run_inv_step [OF inv sub(1), of ?r ?sub])
    show "run_synced c ?r ?sub"
    proof (cases "rr_capture r")
      case None
      with sub(4) synced_install [where w = "client_watches ?st c", OF _ w] show ?thesis by (simp add: run_synced_def Let_def parts set)
    next
      case (Some caps)
      then have "(map_of caps)(p := None) = map_of caps" using outside by (auto simp: map_of_eq_None_iff fun_upd_idem_iff)
      with Some sub(4) synced_install [where w = "client_watches ?st c" and B = "map_of caps", OF _ w]
      show ?thesis by (simp add: run_synced_def Let_def parts set)
    qed
    show "latest_ok k" if "rt_views (rr_state ?r) q = Some k" for q k
      using that l' ok parts(1) by (auto split: if_splits)
  qed (use sub parts set inv in \<open>simp_all add: run_inv_def generation_sub\<close>)
qed

lemma watches_cong: "rt_watched st' c = rt_watched st c \<Longrightarrow> client_watches st' c = client_watches st c"
  by (simp add: client_watches_def fun_eq_iff)

text \<open>A step that leaves the subscriber's part alone and shows at most fewer views.\<close>

lemma inv_fewer:
  assumes inv: "run_inv c r" and sub: "rt_subscribers (rr_state r) c = Some sub" "rt_subscribers st c = Some sub'"
    and watched: "client_watches st c = client_watches (rr_state r) c"
    and same: "sub_generation sub' = sub_generation sub" "sub_bootstrap_pending sub' = sub_bootstrap_pending sub" "distinct (sub_pending sub')"
    and views: "\<And>p l. rt_views st p = Some l \<Longrightarrow> rt_views (rr_state r) p = Some l \<and> sub_baselines sub' p = sub_baselines sub p"
    and synced: "run_synced c r sub \<Longrightarrow> run_synced c (moved c r st) sub'"
  shows "run_inv c (moved c r st)"
proof (rule run_inv_step [OF inv sub(1), of "moved c r st" sub'])
  have old: "run_synced c r sub" "sub_bootstrap_pending sub = (rr_capture r \<noteq> None)"
    "\<And>p l. rt_views (rr_state r) p = Some l \<Longrightarrow> latest_ok l" "client_inv (rr_held r)"
    using inv sub(1) by (auto simp: run_inv_def)
  show "run_synced c (moved c r st) sub'" by (rule synced [OF old(1)])
  show "latest_ok l" if "rt_views (rr_state (moved c r st)) p = Some l" for p l
    using old(3) views that by (simp only: moved_simps) blast
  show "client_inv (rr_held (moved c r st))" using old(4) by simp
  show "sub_bootstrap_pending sub' = (rr_capture (moved c r st) \<noteq> None)" using old(2) same(2) by simp
  fix n prep
  assume "rr_capture r = None"
    and "render_fresh (rt_views (rr_state r)) (client_watches (rr_state r) c) (sub_baselines sub) (fst (rr_held r)) prep"
  with render_fresh_fewer [OF _ views] show "rr_capture (moved c r st) = None
      \<and> render_fresh (rt_views (rr_state (moved c r st))) (client_watches (rr_state (moved c r st)) c) (sub_baselines sub')
          (fst (rr_held (moved c r st))) prep" by (simp add: watched)
qed (use sub same in \<open>simp_all add: generation_sub\<close>)

lemma inv_close: "run_inv c r \<Longrightarrow> run_inv c (moved c r ((rr_state r)\<lparr>rt_views := (rt_views (rr_state r))(p := None)\<rparr>))"
proof -
  assume inv: "run_inv c r"
  from run_inv_sub [OF inv] obtain sub where sub: "rt_subscribers (rr_state r) c = Some sub" "distinct (sub_pending sub)" by metis
  let ?st = "(rr_state r)\<lparr>rt_views := (rt_views (rr_state r))(p := None)\<rparr>"
  have w: "client_watches ?st c = client_watches (rr_state r) c" by (rule watches_cong) simp
  have "run_synced c (moved c r ?st) sub" if "run_synced c r sub"
    using that synced_close [where w = "client_watches (rr_state r) c"]
    by (cases "rr_capture r") (simp_all add: run_synced_def Let_def w)
  then show ?thesis by (intro inv_fewer [OF inv sub(1), of ?st sub]) (use sub w in \<open>auto split: if_splits\<close>)
qed

lemma inv_other:
  assumes inv: "run_inv c r" and same: "rt_views st = rt_views (rr_state r)" "rt_watched st c = rt_watched (rr_state r) c"
    "rt_subscribers (rr_state r) c = Some sub" "rt_subscribers st c = Some sub'" "same_render sub sub'"
  shows "run_inv c (moved c r st)"
proof -
  have distinct: "distinct (sub_pending sub)" using inv same(3) by (auto simp: run_inv_def)
  have w: "client_watches st c = client_watches (rr_state r) c" by (rule watches_cong) (rule same(2))
  have "run_synced c (moved c r st) sub' = run_synced c r sub"
    using same(1,5) by (cases "rr_capture r") (simp_all add: run_synced_def Let_def w same_render_def)
  with distinct same w show ?thesis by (intro inv_fewer [OF inv same(3,4)]) (simp_all add: same_render_def)
qed

lemma snapshot_cases:
  assumes "terminal_render_snapshot c st = (out, st')" and "rt_subscribers st c = Some sub"
  shows "sub_bootstrap_pending sub \<and> out = None \<and> st' = st
    \<or> \<not> sub_bootstrap_pending sub \<and> st' = set_subscriber c (retain_live (rt_views st) sub) st
        \<and> (\<forall>snap. out = Some snap \<longrightarrow> rs_client_id snap = c \<and> rs_generation snap = sub_generation sub
             \<and> rs_panes snap = List.map_filter (render_pane_of (retain_live (rt_views st) sub) (rt_views st))
                 (sub_pending (retain_live (rt_views st) sub)))"
  using assms by (auto simp: terminal_render_snapshot_def Let_def retain_live_def split: if_splits)

lemma retain_live_simps [simp]:
  "sub_generation (retain_live views sub) = sub_generation sub"
  "sub_bootstrap_pending (retain_live views sub) = sub_bootstrap_pending sub"
  "sub_pending (retain_live views sub) = filter (\<lambda>p. views p \<noteq> None) (sub_pending sub)"
  "sub_baselines (retain_live views sub) = sub_baselines sub |` dom views"
  by (simp_all add: retain_live_def)

lemma inv_snapshot:
  assumes inv: "run_inv c r" and snap: "terminal_render_snapshot c (rr_state r) = (out, st)"
  shows "run_inv c (moved c r st)"
proof -
  from run_inv_sub [OF inv] obtain sub where sub: "rt_subscribers (rr_state r) c = Some sub" "distinct (sub_pending sub)"
    "sub_bootstrap_pending sub = (rr_capture r \<noteq> None)" by metis
  from snapshot_cases [OF snap sub(1)] show ?thesis
  proof (elim disjE conjE)
    assume "st = rr_state r"
    with inv show ?thesis by (simp add: moved_def)
  next
    assume open_: "\<not> sub_bootstrap_pending sub" and st: "st = set_subscriber c (retain_live (rt_views (rr_state r)) sub) (rr_state r)"
    let ?sub = "retain_live (rt_views (rr_state r)) sub"
    have pending: "set (sub_pending ?sub) = set (sub_pending sub) \<inter> dom (rt_views (rr_state r))" by auto
    have w: "client_watches st c = client_watches (rr_state r) c" by (rule watches_cong) (simp add: st)
    have "run_synced c (moved c r st) ?sub" if "run_synced c r sub"
      using that open_ sub(3) synced_retain [where w = "client_watches (rr_state r) c"]
      by (simp add: run_synced_def Let_def w pending del: retain_live_simps(3)) (simp add: st)
    then show ?thesis
      by (intro inv_fewer [OF inv sub(1), of st ?sub]) (use sub w in \<open>auto simp: st restrict_map_def\<close>)
  qed
qed

subsection \<open>Taking a render\<close>

lemma map_filter_live:
  "\<forall>p \<in> set ps. views p \<noteq> None \<Longrightarrow> map rn_pane_id (List.map_filter (render_pane_of sub views) ps) = ps"
  by (induction ps) (auto simp: List.map_filter_simps render_pane_of_def)

lemma map_filter_panes:
  "pane \<in> set (List.map_filter (render_pane_of sub views) ps) \<Longrightarrow>
   \<exists>l. rn_pane_id pane \<in> set ps \<and> views (rn_pane_id pane) = Some l \<and> rn_baseline pane = sub_baselines sub (rn_pane_id pane)
     \<and> rn_current pane = lt_view l \<and> rn_producer pane = lt_producer l"
  by (induction ps) (auto simp: List.map_filter_simps render_pane_of_def split: option.splits)

lemma prepared_fresh:
  assumes synced: "synced views w B P H" and ok: "\<And>p l. views p = Some l \<Longrightarrow> latest_ok l"
    and sub: "sub_baselines sub = B" "set (sub_pending sub) = P" "distinct (sub_pending sub)" "\<forall>p \<in> P. views p \<noteq> None"
    and snap: "rs_panes snap = List.map_filter (render_pane_of sub views) (sub_pending sub)"
  shows "\<exists>prep. prepare_terminal_render snap = Some prep \<and> pr_client_id prep = rs_client_id snap
    \<and> pr_generation prep = rs_generation snap \<and> render_fresh views w B H prep"
proof -
  have ids: "map rn_pane_id (rs_panes snap) = sub_pending sub"
    unfolding snap by (rule map_filter_live) (use sub(2,4) in simp)
  have pane: "\<exists>l. rn_pane_id pane \<in> P \<and> views (rn_pane_id pane) = Some l \<and> rn_baseline pane = B (rn_pane_id pane)
      \<and> rn_current pane = lt_view l \<and> rn_producer pane = lt_producer l" if "pane \<in> set (rs_panes snap)" for pane
    using map_filter_panes that sub(1,2) unfolding snap by fastforce
  have "pane_ready pane l" if "pane \<in> set (rs_panes snap)" "views (rn_pane_id pane) = Some l" for pane l
    using pane [OF that(1)] that(2) syncedD(3) [OF synced] ok unfolding pane_ready_def by auto
  then have "\<forall>pane \<in> set (rs_panes snap). \<exists>l. pane_ready pane l" using pane by blast
  from prepare_panes_sound [OF this] ids sub(3) obtain frames bs where
    prep: "prepare_panes (rs_panes snap) = Some (frames, bs)" "distinct (map fst frames)" "map fst bs = map fst frames"
      "set (map fst frames) \<subseteq> set (sub_pending sub)"
      "\<forall>pane \<in> set (rs_panes snap). \<exists>out. pane_prepared pane out \<and> map_of frames (rn_pane_id pane) = map_option fst out
          \<and> map_of bs (rn_pane_id pane) = map_option snd out" by auto
  let ?prep = "\<lparr>pr_client_id = rs_client_id snap, pr_generation = rs_generation snap, pr_server_id = rs_server_id snap,
    pr_session_id = rs_session_id snap, pr_pending = sub_pending sub, pr_baselines = bs, pr_frames = frames\<rparr>"
  have made: "prepare_terminal_render snap = Some ?prep" using prep(1) ids by (simp add: prepare_terminal_render_def)
  have "w p \<and> pane_fresh views B H ?prep p" if "p \<in> set (sub_pending sub)" for p
  proof
    show w: "w p" using syncedD(4) [OF synced] that sub(2) by simp
    from that ids obtain pane where at: "pane \<in> set (rs_panes snap)" "rn_pane_id pane = p" by (metis in_set_conv_nth length_map nth_map)
    from pane [OF at(1)] at(2) obtain l where l: "views p = Some l" "rn_baseline pane = B p" "rn_current pane = lt_view l" by auto
    from prep(5) at obtain out where out: "pane_prepared pane out" "map_of frames p = map_option fst out" "map_of bs p = map_option snd out"
      by auto
    show "pane_fresh views B H ?prep p"
    proof (cases out)
      case None
      with out l show ?thesis by (auto simp: pane_fresh_def pane_prepared_def)
    next
      case (Some fb)
      obtain f b where fb: "fb = (f, b)" by fastforce
      have one: "full_ok f" "bare_view b = bare_view (lt_view l)" "frame_brings f (B p) b"
        using out(1) Some fb l by (simp_all add: pane_prepared_def)
      have "frame_brings f (H p) b"
        by (rule frame_brings_bare [OF one(3) refl refl]) (use syncedD(2) [OF synced] in blast)
      with one out Some fb l show ?thesis by (simp add: pane_fresh_def)
    qed
  qed
  then have "render_fresh views w B H ?prep" using prep(2-4) by (simp add: render_fresh_def)
  with made show ?thesis by (metis prepared_render.select_convs(1,2))
qed

lemma snapshot_prepared:
  assumes inv: "run_inv c r" and snap: "terminal_render_snapshot c (rr_state r) = (Some snap, st)"
  shows "\<exists>prep sub. prepare_terminal_render snap = Some prep \<and> rt_subscribers st c = Some sub
    \<and> flight_ok c (moved c r st) sub (rr_bumps r, prep)"
proof -
  from run_inv_sub [OF inv] obtain sub where sub: "rt_subscribers (rr_state r) c = Some sub" "distinct (sub_pending sub)"
    "sub_bootstrap_pending sub = (rr_capture r \<noteq> None)" "sub_generation sub = of_nat (rr_bumps r)" "run_synced c r sub" by metis
  let ?views = "rt_views (rr_state r)" and ?sub = "retain_live (rt_views (rr_state r)) sub"
  let ?w = "client_watches (rr_state r) c" and ?H = "fst (rr_held r)"
  from snapshot_cases [OF snap sub(1)] have
    open_: "\<not> sub_bootstrap_pending sub" "st = set_subscriber c ?sub (rr_state r)"
      and out: "rs_client_id snap = c" "rs_generation snap = sub_generation sub"
        "rs_panes snap = List.map_filter (render_pane_of ?sub ?views) (sub_pending ?sub)" by simp_all
  have pending: "set (sub_pending ?sub) = set (sub_pending sub) \<inter> dom ?views" by auto
  have "synced ?views ?w (sub_baselines sub) (set (sub_pending sub)) ?H"
    using sub(3,5) open_(1) by (simp add: run_synced_def Let_def)
  from synced_retain [OF this] have synced: "synced ?views ?w (sub_baselines ?sub) (set (sub_pending ?sub)) ?H"
    unfolding pending by simp
  have ok: "latest_ok l" if "?views p = Some l" for p l using inv that by (simp add: run_inv_def)
  have live: "\<forall>p \<in> set (sub_pending ?sub). ?views p \<noteq> None" "distinct (sub_pending ?sub)" using sub(2) by simp_all
  obtain prep where
    prep: "prepare_terminal_render snap = Some prep" "pr_client_id prep = rs_client_id snap"
      "pr_generation prep = rs_generation snap" "render_fresh ?views ?w (sub_baselines ?sub) ?H prep"
    using prepared_fresh [where w = ?w and H = ?H, OF synced _ refl refl live(2,1) out(3)] ok by blast
  have w: "client_watches st c = ?w" by (rule watches_cong) (simp add: open_(2))
  have views: "rt_views st = ?views" by (simp add: open_(2))
  have "flight_ok c (moved c r st) ?sub (rr_bumps r, prep)"
    using prep(2-4) out(1,2) sub(3,4) open_(1) by (simp add: flight_ok_def w views)
  with prep(1) show ?thesis by (auto simp: open_(2))
qed

lemma inv_take:
  assumes inv: "run_inv c r" and snap: "terminal_render_snapshot c (rr_state r) = (Some snap, st)"
    and prep: "prepare_terminal_render snap = Some prep"
  shows "run_inv c ((moved c r st)\<lparr>rr_flights := insert (rr_bumps r, prep) (rr_flights r)\<rparr>)"
proof -
  have step: "run_inv c (moved c r st)" by (rule inv_snapshot [OF inv snap])
  from snapshot_prepared [OF inv snap] prep obtain sub where
    sub: "rt_subscribers st c = Some sub" "flight_ok c (moved c r st) sub (rr_bumps r, prep)" by auto
  let ?r = "(moved c r st)\<lparr>rr_flights := insert (rr_bumps r, prep) (rr_flights r)\<rparr>"
  have same: "flight_ok c ?r sub f = flight_ok c (moved c r st) sub f" "run_synced c ?r sub = run_synced c (moved c r st) sub" for f
    by (cases "rr_capture r"; simp add: flight_ok_def run_synced_def Let_def)+
  from step sub same show ?thesis by (simp add: run_inv_def)
qed

subsection \<open>The watched set\<close>

lemma set_fold_insert: "set (fold List.insert xs ys) = set xs \<union> set ys" "distinct ys \<Longrightarrow> distinct (fold List.insert xs ys)"
  by (induction xs arbitrary: ys) auto

lemma inv_watch:
  assumes inv: "run_inv c r" and none: "rr_capture r = None"
  shows "run_inv c ((moved c r (watch_terminals c ps (rr_state r)))
    \<lparr>rr_held := (fst (rr_held r) |` set ps, snd (rr_held r) |` set ps)\<rparr>)" (is "run_inv c ?r")
proof -
  let ?st = "rr_state r" and ?st' = "watch_terminals c ps (rr_state r)"
  from run_inv_sub [OF inv] obtain sub where sub: "rt_subscribers ?st c = Some sub" "distinct (sub_pending sub)"
    "sub_bootstrap_pending sub = (rr_capture r \<noteq> None)" "run_synced c r sub" by metis
  let ?sub = "reconcile_watched_terminals ps (rt_views ?st) sub"
  have st': "?st' = set_subscriber c ?sub (?st\<lparr>rt_watched := (rt_watched ?st)(c \<mapsto> ps)\<rparr>)"
    using sub(1,3) none by (simp add: watch_terminals_def)
  have w: "client_watches ?st' c = (\<lambda>p. p \<in> set ps)" by (simp add: st' client_watches_def watches_def fun_eq_iff)
  have parts: "sub_baselines ?sub = sub_baselines sub |` set ps" "sub_generation ?sub = sub_generation sub + 1"
    "sub_bootstrap_pending ?sub = sub_bootstrap_pending sub" "distinct (sub_pending ?sub)"
    "set (sub_pending ?sub) = (set (sub_pending sub) \<inter> set ps) \<union> {p \<in> set ps. rt_views ?st p \<noteq> None \<and> sub_baselines sub p = None}"
    using sub(2) by (auto simp: reconcile_watched_terminals_def Let_def set_fold_insert restrict_map_def split: if_splits)
  have views: "rt_views ?st' = rt_views ?st" by (simp add: st')
  show ?thesis
  proof (rule run_inv_step [OF inv sub(1), of ?r ?sub])
    show "run_synced c ?r ?sub"
      using sub(4) none synced_watch [where W = "set ps" and w = "client_watches ?st c"]
      by (simp add: run_synced_def Let_def w views parts)
    show "client_inv (rr_held ?r)" using inv by (auto simp: run_inv_def client_inv_def restrict_map_def)
    show "latest_ok l" if "rt_views (rr_state ?r) p = Some l" for p l
      using that inv by (simp add: views run_inv_def)
  qed (use sub none parts in \<open>simp_all add: st' generation_sub\<close>)
qed

subsection \<open>Committing a render\<close>

lemma commit_cases:
  assumes commit: "commit_terminal_render prep frames st = Some (out, st')" and c: "pr_client_id prep = c"
    and sub: "rt_subscribers st c = Some sub" and there: "rt_subscribers st' c \<noteq> None"
  shows "rt_views st' = rt_views st \<and> rt_watched st' = rt_watched st
    \<and> (if committed c prep frames st
       then rt_subscribers st' c = Some (clear_pending (pr_pending prep) (insert_baselines (pr_baselines prep) sub))
       else rt_subscribers st' c = Some sub)"
proof (cases "sub_generation sub = pr_generation prep")
  case False
  with commit c sub show ?thesis by (auto simp: commit_terminal_render_def Let_def committed_def generation_def)
next
  case same: True
  show ?thesis
  proof (cases frames)
    case None
    with commit c sub same show ?thesis
      by (auto simp: commit_terminal_render_def Let_def committed_def generation_def settle_render_def)
  next
    case (Some data)
    obtain r q where send: "try_send_render data (rt_writers st c) = Some (r, q)"
      using commit c sub same Some
      by (cases "try_send_render data (rt_writers st c)") (auto simp: commit_terminal_render_def Let_def try_send_terminal_render_def)
    show ?thesis
    proof (cases r)
      case (Inl e)
      with commit c sub same Some send there show ?thesis
        by (cases e) (auto simp: commit_terminal_render_def Let_def committed_def generation_def try_send_terminal_render_def)
    next
      case (Inr u)
      with commit c sub same Some send show ?thesis
        by (auto simp: commit_terminal_render_def Let_def committed_def generation_def try_send_terminal_render_def settle_render_def)
    qed
  qed
qed

lemma generation_count:
  "n \<le> m \<Longrightarrow> m < 2 ^ 64 \<Longrightarrow> (of_nat n :: u64) = of_nat m \<longleftrightarrow> n = m"
  by (simp add: word_of_nat_eq_iff take_bit_nat_eq_self)

text \<open>A flight whose generation is the subscriber's is fresh, and the Client can apply its frames.\<close>

lemma flight_fresh:
  assumes inv: "run_inv c r" and bound: "rr_bumps r < 2 ^ 64" and flight: "(n, prep) \<in> rr_flights r"
    and gen: "generation c (rr_state r) = pr_generation prep"
  obtains sub where "rt_subscribers (rr_state r) c = Some sub" "rr_capture r = None" "n = rr_bumps r"
    "render_fresh (rt_views (rr_state r)) (client_watches (rr_state r) c) (sub_baselines sub) (fst (rr_held r)) prep"
  using inv
proof (rule run_inv_sub)
  fix sub
  assume sub: "rt_subscribers (rr_state r) c = Some sub" "sub_generation sub = of_nat (rr_bumps r)"
    and ok: "\<And>flight. flight \<in> rr_flights r \<Longrightarrow> flight_ok c r sub flight"
  have at: "n \<le> rr_bumps r" "pr_generation prep = of_nat n"
    "n = rr_bumps r \<Longrightarrow> rr_capture r = None
      \<and> render_fresh (rt_views (rr_state r)) (client_watches (rr_state r) c) (sub_baselines sub) (fst (rr_held r)) prep"
    using ok [OF flight] unfolding flight_ok_def Let_def prod.case by blast+
  have "(of_nat n :: u64) = of_nat (rr_bumps r)"
    using gen unfolding generation_sub [OF sub(1)] sub(2) at(2) by (rule sym)
  then have "n = rr_bumps r" using generation_count [OF at(1) bound] by blast
  with at(3) that [OF sub(1)] show thesis by blast
qed

lemma fresh_applies:
  assumes fresh: "render_fresh views w B (fst held) prep" and inv: "client_inv held"
  shows "apply_terminal_frame_batch (pr_frames prep) held = Some (Inr (map fst (pr_frames prep)), client_after (pr_frames prep) held)
    \<and> client_inv (client_after (pr_frames prep) held)
    \<and> (\<forall>p. map_of (pr_frames prep) p = None \<longrightarrow> fst (client_after (pr_frames prep) held) p = fst held p)
    \<and> (\<forall>p f b. map_of (pr_frames prep) p = Some f \<and> frame_brings f (fst held p) b \<longrightarrow>
         (\<exists>v. fst (client_after (pr_frames prep) held) p = Some v \<and> bare_view v = bare_view b))"
proof -
  have "distinct (map fst (pr_frames prep))" using fresh by (simp add: render_fresh_def)
  moreover have "full_ok f \<and> (\<exists>b. frame_brings f (fst held p) b)" if "map_of (pr_frames prep) p = Some f" for p f
    using fresh_frame [OF fresh that] by blast
  ultimately obtain held' where "apply_terminal_frame_batch (pr_frames prep) held = Some (Inr (map fst (pr_frames prep)), held')"
    "client_inv held'" "\<forall>p. map_of (pr_frames prep) p = None \<longrightarrow> fst held' p = fst held p"
    "\<forall>p f b. map_of (pr_frames prep) p = Some f \<and> frame_brings f (fst held p) b \<longrightarrow> (\<exists>v. fst held' p = Some v \<and> bare_view v = bare_view b)"
    using client_takes_render [OF inv] by blast
  then show ?thesis by (simp add: client_after_def)
qed

lemma inv_commit:
  assumes inv: "run_inv c r" and bound: "rr_bumps r < 2 ^ 64" and flight: "(n, prep) \<in> rr_flights r"
    and commit: "commit_terminal_render prep frames (rr_state r) = Some (out, st)" and there: "rt_subscribers st c \<noteq> None"
  shows "run_inv c ((moved c r st)\<lparr>rr_held :=
    if committed c prep frames (rr_state r) then client_after (pr_frames prep) (rr_held r) else rr_held r\<rparr>)" (is "run_inv c ?r")
proof -
  let ?st = "rr_state r"
  have client: "pr_client_id prep = c" using inv flight by (auto simp: run_inv_def flight_ok_def)
  from run_inv_sub [OF inv] obtain sub where sub: "rt_subscribers ?st c = Some sub" "distinct (sub_pending sub)"
    "sub_bootstrap_pending sub = (rr_capture r \<noteq> None)" "run_synced c r sub" by metis
  from commit_cases [OF commit client sub(1) there] have same: "rt_views st = rt_views ?st" "rt_watched st = rt_watched ?st"
    and cases: "if committed c prep frames ?st
       then rt_subscribers st c = Some (clear_pending (pr_pending prep) (insert_baselines (pr_baselines prep) sub))
       else rt_subscribers st c = Some sub" by blast+
  show ?thesis
  proof (cases "committed c prep frames ?st")
    case False
    have "same_render sub sub" by (simp add: same_render_def)
    from inv_other [OF inv same(1) _ sub(1) _ this] cases False same(2) have "run_inv c (moved c r st)" by simp
    moreover have "?r = moved c r st" using False by (simp add: moved_def)
    ultimately show ?thesis by simp
  next
    case yes: True
    let ?sub = "clear_pending (pr_pending prep) (insert_baselines (pr_baselines prep) sub)"
    let ?held = "client_after (pr_frames prep) (rr_held r)" and ?w = "client_watches ?st c"
    have sub': "rt_subscribers st c = Some ?sub" using cases yes by simp
    from yes have "generation c ?st = pr_generation prep" by (simp add: committed_def)
    from flight_fresh [OF inv bound flight this] sub(1) have none: "rr_capture r = None"
      and fresh: "render_fresh (rt_views ?st) ?w (sub_baselines sub) (fst (rr_held r)) prep" by auto
    have held: "client_inv (rr_held r)" and ok: "\<And>p l. rt_views ?st p = Some l \<Longrightarrow> latest_ok l"
      using inv by (simp_all add: run_inv_def)
    note applied = fresh_applies [OF fresh held]
    have synced: "synced (rt_views ?st) ?w (sub_baselines sub) (set (sub_pending sub)) (fst (rr_held r))"
      using sub(4) none by (simp add: run_synced_def)
    have "synced (rt_views ?st) ?w (sub_baselines sub ++ map_of (pr_baselines prep)) (set (sub_pending sub) - set (pr_pending prep)) (fst ?held)"
      by (rule synced_commit [OF synced ok fresh]) (use applied in blast)+
    moreover have "sub_baselines ?sub = sub_baselines sub ++ map_of (pr_baselines prep)"
      "set (sub_pending ?sub) = set (sub_pending sub) - set (pr_pending prep)"
      using fresh map_of_rev [of "pr_baselines prep"] by (auto simp: clear_pending_def insert_baselines_def render_fresh_def)
    moreover have w: "client_watches st c = ?w" by (rule watches_cong) (simp add: same(2))
    ultimately have synced': "run_synced c ?r ?sub" using none yes by (simp add: run_synced_def same(1))
    have parts: "sub_generation ?sub = sub_generation sub + 1" "sub_bootstrap_pending ?sub = sub_bootstrap_pending sub"
      "distinct (sub_pending ?sub)" using sub(2) by (simp_all add: clear_pending_def insert_baselines_def)
    show ?thesis
      by (rule run_inv_step [OF inv sub(1), of ?r ?sub])
         (use sub' sub parts synced' applied yes none ok same in \<open>simp_all add: generation_sub\<close>)
  qed
qed

subsection \<open>Bootstraps\<close>

lemma capture_at:
  "distinct ps \<Longrightarrow> map_of (capture_views st c ps) p =
     (if p \<in> set ps \<and> client_watches st c p then map_option (\<lambda>l. normalize_view (lt_view l)) (rt_views st p) else None)"
  by (induction ps) (auto simp: capture_views_def List.map_filter_simps map_option_case split: option.splits)

lemma capture_keys: "fst ` set (capture_views st c ps) \<subseteq> set ps"
  by (induction ps) (auto simp: capture_views_def List.map_filter_simps split: option.splits)

lemma capture_distinct: "distinct ps \<Longrightarrow> distinct (map fst (capture_views st c ps))"
proof (induction ps)
  case (Cons q ps)
  have "q \<notin> fst ` set (capture_views st c ps)" using Cons.prems capture_keys [of st c ps] by auto
  with Cons show ?case by (auto simp: capture_views_def List.map_filter_simps split: option.splits)
qed (simp add: capture_views_def List.map_filter_simps)

lemma bare_normalize_view: "bare_view (normalize_view view) = bare_view view"
proof -
  obtain lost frame where norm: "normalize_hyperlinks_for_wire (view_frame.Full view) = (lost, frame)" by fastforce
  from bare_normalize(1) [OF norm] norm show ?thesis by (cases frame) (simp_all add: normalize_view_def)
qed

lemma inv_begin:
  assumes inv: "run_inv c r" and none: "rr_capture r = None" and ps: "distinct ps"
    and all: "\<forall>p. rt_views (rr_state r) p \<noteq> None \<longrightarrow> p \<in> set ps"
  shows "run_inv c ((moved c r (begin_bootstrap c (rr_state r)))\<lparr>rr_capture := Some (capture_views (rr_state r) c ps)\<rparr>)"
    (is "run_inv c ?r")
proof -
  let ?st = "rr_state r" and ?caps = "capture_views (rr_state r) c ps"
  from run_inv_sub [OF inv] obtain sub where sub: "rt_subscribers ?st c = Some sub" by metis
  let ?sub = "fence_subscriber sub"
  have ok: "\<And>p l. rt_views ?st p = Some l \<Longrightarrow> latest_ok l" using inv by (simp add: run_inv_def)
  have st': "rt_subscribers (begin_bootstrap c ?st) c = Some ?sub" "rt_views (begin_bootstrap c ?st) = rt_views ?st"
    "rt_watched (begin_bootstrap c ?st) = rt_watched ?st" using sub by (simp_all add: begin_bootstrap_def)
  have w: "client_watches (begin_bootstrap c ?st) c = client_watches ?st c" by (rule watches_cong) (simp add: st'(3))
  have parts: "sub_generation ?sub = sub_generation sub + 1" "sub_bootstrap_pending ?sub" "sub_pending ?sub = []"
    by (simp_all add: fence_subscriber_def)
  have "synced (rt_views ?st) (client_watches ?st c) (map_of ?caps) {} (map_of ?caps)"
    by (rule synced_capture) (use all ok in \<open>auto simp: capture_at [OF ps] bare_normalize_view split: if_splits\<close>)
  then have synced: "run_synced c ?r ?sub" by (simp add: run_synced_def Let_def w st' parts capture_distinct [OF ps])
  show ?thesis
    by (rule run_inv_step [OF inv sub, of ?r ?sub])
       (use st' parts synced ok inv sub in \<open>simp_all add: generation_sub run_inv_def\<close>)
qed

lemma finish_effect:
  assumes finish: "finish_bootstrap c framed st = (Inr (), st')" and sub: "rt_subscribers st c = Some sub"
  shows "\<exists>sub'. rt_subscribers st' c = Some sub' \<and> rt_views st' = rt_views st \<and> rt_watched st' = rt_watched st
    \<and> \<not> sub_bootstrap_pending sub'
    \<and> sub_baselines sub' = sub_baselines (rebase_subscriber (fr_baselines framed) (rt_watched st c) (rt_views st) sub)
    \<and> sub_pending sub' = sub_pending (rebase_subscriber (fr_baselines framed) (rt_watched st c) (rt_views st) sub)
    \<and> sub_generation sub' = sub_generation (rebase_subscriber (fr_baselines framed) (rt_watched st c) (rt_views st) sub) + 1"
  using assms by (auto simp: finish_bootstrap_def Let_def split: sum.splits prod.splits)

lemma synced_finish:
  assumes inv: "synced views w B P B" and held: "\<And>p b. B p = Some b \<Longrightarrow> \<exists>v. H p = Some v \<and> bare_view v = bare_view b"
    and marks: "P \<subseteq> P'" "\<And>p. p \<in> P' \<Longrightarrow> w p"
  shows "synced views w B P' H"
  by (rule syncedI) (use syncedD [OF inv] held marks in blast)+

lemma inv_finish:
  assumes inv: "run_inv c r" and caps: "rr_capture r = Some caps"
    and finish: "finish_bootstrap c \<lparr>fr_frames = data, fr_baselines = caps\<rparr> (rr_state r) = (Inr (), st)"
    and held: "holds_bootstrap caps held"
  shows "run_inv c ((moved c r st)\<lparr>rr_capture := None, rr_held := held\<rparr>)" (is "run_inv c ?r")
proof -
  let ?st = "rr_state r" and ?w = "client_watches (rr_state r) c" and ?views = "rt_views (rr_state r)"
  from run_inv_sub [OF inv] obtain sub where sub: "rt_subscribers ?st c = Some sub" "distinct (sub_pending sub)"
    "run_synced c r sub" by metis
  have distinct: "distinct (map fst caps)" and synced: "synced ?views ?w (map_of caps) (set (sub_pending sub)) (map_of caps)"
    using sub(3) caps by (simp_all add: run_synced_def)
  define rebased where "rebased = rebase_subscriber caps (rt_watched ?st c) ?views sub"
  from finish_effect [OF finish sub(1)] obtain sub' where
    sub': "rt_subscribers st c = Some sub'" "rt_views st = ?views" "rt_watched st = rt_watched ?st" "\<not> sub_bootstrap_pending sub'"
      "sub_baselines sub' = sub_baselines rebased" "sub_pending sub' = sub_pending rebased"
    by (auto simp: rebased_def)
  have w: "client_watches st c = ?w" by (rule watches_cong) (simp add: sub'(3))
  have rebased: "sub_baselines rebased = map_of caps \<and> distinct (sub_pending rebased)
    \<and> set (sub_pending sub) \<subseteq> set (sub_pending rebased) \<and> (\<forall>p \<in> set (sub_pending rebased). ?w p)"
  proof (cases "rt_watched ?st c")
    case None
    with sub(2) syncedD(4) [OF synced] show ?thesis
      by (auto simp: rebased_def rebase_subscriber_def map_of_rev [OF distinct])
  next
    case (Some ps)
    then have watched: "?w = (\<lambda>p. p \<in> set ps)" by (simp add: client_watches_def watches_def fun_eq_iff)
    have "map_of caps |` set ps = map_of caps"
    proof (rule ext)
      fix p
      show "(map_of caps |` set ps) p = map_of caps p"
        using syncedD(1) [OF synced, of p] watched by (cases "map_of caps p") (auto simp: restrict_map_def)
    qed
    with Some sub(2) syncedD(4) [OF synced] watched show ?thesis
      by (auto simp: rebased_def rebase_subscriber_def reconcile_watched_terminals_def Let_def set_fold_insert map_of_rev [OF distinct])
  qed
  have "synced ?views ?w (map_of caps) (set (sub_pending rebased)) (fst held)"
    by (rule synced_finish [OF synced]) (use held rebased in \<open>auto simp: holds_bootstrap_def\<close>)
  then have synced': "run_synced c ?r sub'" by (simp add: run_synced_def w sub' rebased)
  show ?thesis
    by (rule run_inv_step [OF inv sub(1), of ?r sub'])
       (use sub' synced' rebased inv sub held caps in \<open>simp_all add: generation_sub run_inv_def holds_bootstrap_def\<close>)
qed

lemma inv_step:
  assumes "render_step c r r'" and "run_inv c r" and "rr_bumps r < 2 ^ 64"
  shows "run_inv c r'"
  using assms
proof (cases rule: render_step.cases)
  case (step_publish p frame out st l)
  with inv_publish assms(2) show ?thesis by blast
next
  case (step_install p v st)
  with inv_install assms(2) show ?thesis by blast
next
  case (step_close p)
  with inv_close assms(2) show ?thesis by blast
next
  case (step_watch ps)
  with inv_watch assms(2) show ?thesis by blast
next
  case (step_other st sub sub')
  with inv_other assms(2) show ?thesis by blast
next
  case (step_idle st)
  with inv_snapshot assms(2) show ?thesis by blast
next
  case (step_take snap st prep)
  with inv_take assms(2) show ?thesis by blast
next
  case (step_commit n prep frames out st)
  with inv_commit assms(2,3) show ?thesis by blast
next
  case (step_begin ps)
  with inv_begin assms(2) show ?thesis by blast
next
  case (step_finish caps data st held)
  with inv_finish assms(2) show ?thesis by blast
qed

lemma run_keeps_inv: "(render_step c)\<^sup>*\<^sup>* r r' \<Longrightarrow> run_inv c r \<Longrightarrow> rr_bumps r' < 2 ^ 64 \<Longrightarrow> run_inv c r'"
proof (induction rule: rtranclp_induct)
  case (step r1 r2)
  have "rr_bumps r1 < 2 ^ 64" using render_step_bumps [OF step(2)] step.prems(2) by linarith
  with step show ?case using inv_step by blast
qed simp

end
