(* ===== verification/Render_Properties.thy ===== *)
theory Render_Properties
  imports Render_Run
begin

text \<open>
  What the invariant of a run gives: the Client's screens follow the Server's, and every render the
  Server commits can be applied. Then the two places where the code leaves the runs modelled here.
\<close>

section \<open>Catching up\<close>

lemma run_reaches_inv:
  assumes "render_start c r0" and "(render_step c)\<^sup>*\<^sup>* r0 r" and "rr_bumps r < 2 ^ 64"
  shows "run_inv c r"
  by (rule run_keeps_inv [OF assms(2) render_start_inv [OF assms(1)] assms(3)])

lemma unmarked_shown:
  assumes inv: "run_inv c r" and none: "rr_capture r = None" and sub: "rt_subscribers (rr_state r) c = Some sub"
    and p: "client_watches (rr_state r) c p" "rt_views (rr_state r) p = Some l" "p \<notin> set (sub_pending sub)"
  shows "\<exists>v. fst (rr_held r) p = Some v \<and> same_screen v (lt_view l)"
proof -
  have synced: "synced (rt_views (rr_state r)) (client_watches (rr_state r) c) (sub_baselines sub) (set (sub_pending sub)) (fst (rr_held r))"
    using inv sub none by (auto simp: run_inv_def run_synced_def)
  from syncedD(5) [OF synced p(2,1,3)] obtain b where b: "sub_baselines sub p = Some b" "same_screen b (lt_view l)" by blast
  from syncedD(2) [OF synced b(1)] b(2) same_screen_bare show ?thesis by blast
qed


lemma snapshot_never_fails:
  assumes "run_inv c r" and "terminal_render_snapshot c (rr_state r) = (Some snap, st)"
  shows "prepare_terminal_render snap \<noteq> None"
  using snapshot_prepared [OF assms] by (elim exE conjE) (simp only: option.distinct not_False_eq_True)

lemma flight_applied:
  assumes inv: "run_inv c r" and bumps: "rr_bumps r < 2 ^ 64" and at: "(n, prep) \<in> rr_flights r"
    and gen: "generation c (rr_state r) = pr_generation prep"
  shows "\<exists>held. apply_terminal_frame_batch (pr_frames prep) (rr_held r) = Some (Inr (map fst (pr_frames prep)), held)"
proof -
  have held: "client_inv (rr_held r)" using inv unfolding run_inv_def by (rule conjunct1)
  show ?thesis
  proof (rule flight_fresh [OF inv bumps at gen])
    fix sub
    assume fresh: "render_fresh (rt_views (rr_state r)) (client_watches (rr_state r) c) (sub_baselines sub) (fst (rr_held r)) prep"
    show ?thesis using conjunct1 [OF fresh_applies [OF fresh held]] by (rule exI)
  qed
qed


text \<open>A flush that nothing interrupts leaves no mark, when the connection takes its frames.\<close>

lemma frames_of_some_pane:
  "prepare_panes panes = Some (frames, bs) \<Longrightarrow> length frames = length bs"
  by (induction panes arbitrary: frames bs) (auto split: option.splits)

lemma batches_nonempty:
  assumes "frame_terminal_batches co server session panes = Inr messages" and "panes \<noteq> []"
    and "codec_ok co" and "\<forall>pane \<in> set panes. record_ok co (dec :: bytes \<Rightarrow> unit + pane_frame option) pane"
  shows "messages \<noteq> []"
proof
  assume none: "messages = []"
  from frame_panes_brings [OF assms(3), of panes dec "[]" server session "[]" "()" None] assms(1,4) none
  have "brings dec () None [] panes" by (auto simp: frame_terminal_batches_def)
  then show False using assms(2) by (simp add: brings_def watches_def)
qed

text \<open>The frames of a render fit the protocol's records.\<close>

definition renders_fit ::
  "frame_codec \<Rightarrow> (bytes \<Rightarrow> unit + pane_frame option) \<Rightarrow> u64 \<Rightarrow> ('set, 'git) runtime \<Rightarrow> bool" where
  "renders_fit co dec c st \<longleftrightarrow> (\<forall>snap st' prep. terminal_render_snapshot c st = (Some snap, st')
     \<and> prepare_terminal_render snap = Some prep \<longrightarrow> (\<forall>pane \<in> set (pr_frames prep). record_ok co dec pane))"


section \<open>A run to test them on\<close>

text \<open>One Client, watching the Panes \<open>watched\<close>; Pane 1 shows \<open>view\<close>.\<close>

definition demo_state :: "pane_id list option \<Rightarrow> terminal_view option \<Rightarrow> (unit, unit) runtime" where
  "demo_state watched view = \<lparr>rt_server_id = 1, rt_session_id = 2, rt_sequence = 0, rt_session = session_new,
     rt_terminals = [PaneId 1],
     rt_views = (case view of None \<Rightarrow> Map.empty
       | Some v \<Rightarrow> [PaneId 1 \<mapsto> \<lparr>lt_view = v, lt_hyperlinks = budget_empty, lt_producer = None\<rparr>]),
     rt_events = [],
     rt_subscribers = [7 \<mapsto> \<lparr>sub_baselines = Map.empty, sub_pending = (if view = None then [] else [PaneId 1]),
       sub_generation = 1, sub_bootstrap_pending = False, sub_deferred = [], sub_clipboard = None\<rparr>],
     rt_watched = (\<lambda>c. watched), rt_writers = (\<lambda>c. channel_inner None), rt_epoch = 0, rt_settings = (), rt_closing = {},
     rt_exited = {}, rt_instances = Map.empty, rt_next_instance = 1, rt_agents = Map.empty, rt_unseen = {},
     rt_titles = Map.empty, rt_progress = Map.empty, rt_bells = {}, rt_git = Map.empty, rt_focused = None,
     rt_mouse = None, rt_sizing = None,
     rt_control = \<lparr>ac_resumes = Map.empty, ac_names = [], ac_live = [], ac_generations = Map.empty, ac_waiters = Map.empty\<rparr>,
     rt_clones = Map.empty, rt_log = []\<rparr>"

definition demo_start :: "(unit, unit) render_run" where
  "demo_start = \<lparr>rr_state = demo_state (Some [PaneId 1]) (Some (demo_view 1 [97])), rr_bumps = 1, rr_flights = {},
     rr_capture = None, rr_held = (Map.empty, Map.empty)\<rparr>"

lemma demo_latest_ok: "latest_ok \<lparr>lt_view = demo_view n [97], lt_hyperlinks = budget_empty, lt_producer = None\<rparr>"
proof -
  have "budget_new (demo_view n [97]) = Some (budget_empty, demo_view n [97])"
    by (simp add: budget_new_def demo_view_def demo_cell_def)
  moreover have "view_ok (demo_view n [97])" by (simp add: demo_view_ok)
  ultimately show ?thesis
    using budget_new_inv [of "demo_view n [97]"] by (auto simp: latest_ok_def view_ok_bounds)
qed

lemma demo_start_ok: "render_start 7 demo_start"
  using demo_latest_ok [of 1]
  by (auto simp: render_start_def demo_start_def demo_state_def client_inv_def client_watches_def watches_def)

definition demo_taken :: prepared_render where
  "demo_taken = \<lparr>pr_client_id = 7, pr_generation = 1, pr_server_id = 1, pr_session_id = 2, pr_pending = [PaneId 1],
     pr_baselines = [(PaneId 1, demo_view 1 [97])], pr_frames = [(PaneId 1, view_frame.Full (demo_view 1 [97]))]\<rparr>"

lemmas render_evals = terminal_render_snapshot_def retain_live_def set_subscriber_def set_writer_def List.map_filter_simps
  render_pane_of_def restrict_map_def prepare_terminal_render_def prepare_pane_def pane_frame_of_def projected_baseline_def
  frame_from_def commit_terminal_render_def settle_render_def clear_pending_def bump_generation_def insert_baselines_def
  try_send_terminal_render_def try_send_render_def channel_inner_def normalize_cell_def

lemma demo_snapshot:
  "\<exists>snap. terminal_render_snapshot 7 (rr_state demo_start) = (Some snap, rr_state demo_start)
    \<and> prepare_terminal_render snap = Some demo_taken"
  by (auto simp: render_evals demo_start_def demo_state_def demo_view_def demo_cell_def demo_taken_def)

definition demo_flying :: "(unit, unit) render_run" where
  "demo_flying = demo_start\<lparr>rr_flights := {(1, demo_taken)}\<rparr>"

lemma demo_take: "render_step 7 demo_start demo_flying"
proof -
  from demo_snapshot obtain snap where snap: "terminal_render_snapshot 7 (rr_state demo_start) = (Some snap, rr_state demo_start)"
    "prepare_terminal_render snap = Some demo_taken" by blast
  from step_take [OF snap] show ?thesis
    by (simp add: moved_def demo_flying_def) (simp add: demo_start_def)
qed

definition demo_sent :: "(unit, unit) runtime" where
  "demo_sent = set_subscriber 7 \<lparr>sub_baselines = [PaneId 1 \<mapsto> demo_view 1 [97]], sub_pending = [], sub_generation = 2,
     sub_bootstrap_pending = False, sub_deferred = [], sub_clipboard = None\<rparr>
     (set_writer 7 ((channel_inner None)\<lparr>wq_render := Some [[7]]\<rparr>) (rr_state demo_start))"

lemma demo_commits: "commit_terminal_render demo_taken (Some [[7]]) (rr_state demo_start) = Some (RenderDone, demo_sent)"
  by (auto simp: render_evals demo_start_def demo_state_def demo_taken_def demo_sent_def fun_eq_iff)

definition demo_done :: "(unit, unit) render_run" where
  "demo_done = demo_flying\<lparr>rr_state := demo_sent, rr_bumps := 2,
     rr_held := client_after [(PaneId 1, view_frame.Full (demo_view 1 [97]))] (Map.empty, Map.empty)\<rparr>"

lemma demo_commit: "render_step 7 demo_flying demo_done"
proof -
  let ?done = "(moved 7 demo_flying demo_sent)\<lparr>rr_held :=
      if committed 7 demo_taken (Some [[7]]) (rr_state demo_flying)
      then client_after (pr_frames demo_taken) (rr_held demo_flying) else rr_held demo_flying\<rparr>"
  have "render_step 7 demo_flying ?done"
    by (rule step_commit [of 1 _ _ _ RenderDone])
      (use demo_commits in \<open>simp_all add: demo_flying_def demo_taken_def demo_sent_def\<close>)
  moreover have "committed 7 demo_taken (Some [[7]]) (rr_state demo_flying)"
    by (simp add: committed_def generation_def demo_flying_def demo_taken_def demo_start_def demo_state_def try_send_render_def channel_inner_def)
  then have "?done = demo_done"
    by (simp add: moved_def demo_done_def generation_def demo_flying_def demo_taken_def demo_sent_def demo_start_def demo_state_def)
  ultimately show ?thesis by simp
qed

lemma demo_run: "(render_step 7)\<^sup>*\<^sup>* demo_start demo_done"
  using demo_take demo_commit by (meson r_into_rtranclp rtranclp_trans)



lemma demo_fits: "renders_fit demo_codec (\<lambda>b. Inr (Some (PaneId 1, view_frame.Full (demo_view 1 [97])))) 7 (rr_state demo_start)"
proof -
  from demo_snapshot obtain snap where snap: "terminal_render_snapshot 7 (rr_state demo_start) = (Some snap, rr_state demo_start)"
    "prepare_terminal_render snap = Some demo_taken" by blast
  then show ?thesis
    unfolding renders_fit_def by (simp add: demo_taken_def record_ok_def demo_codec_def MAX_CHUNKED_RECORD_SIZE_def)
qed


section \<open>Where the code leaves these runs\<close>

lemmas server_evals = render_evals demo_state_def demo_view_def demo_cell_def install_view_def budget_new_def
  reset_pane_def begin_bootstrap_def fence_subscriber_def clear_render_def finish_bootstrap_def rebase_subscriber_def
  send_reliable_batch_def flush_terminal_render_def render_bytes_def Let_def enqueue_reliable_def refusal_def
  reserve_reliable_def batch_bytes_def saturating_add_usize_def checked_add_usize_def usize_max_def
  MAX_RELIABLE_QUEUE_ITEMS_def MAX_RELIABLE_QUEUE_BYTES_def
  MAX_FRAME_SIZE_def watch_terminals_def reconcile_watched_terminals_def

text \<open>A codec whose messages are all short.\<close>

definition short_codec :: frame_codec where
  "short_codec = \<lparr>co_record = (\<lambda>pane. [7]), co_pane_len = (\<lambda>pane. 30), co_message_len = (\<lambda>m. 60)\<rparr>"

lemma short_batches: "frame_terminal_batches short_codec server session [pane] =
    Inr [FrameBatch \<lparr>fb_server_id = server, fb_session_id = session, fb_panes = [pane]\<rparr>]"
  by (simp add: frame_terminal_batches_def short_codec_def terminal_batch_overhead_def append_terminal_frame_batch_def
      frame_terminal_batch_def frame_body_def saturating_add_usize_def usize_max_def MAX_FRAME_SIZE_def MAX_FRAME_PREFIX_def)

text \<open>A Terminal that replaces one while a Bootstrap is on its way: the Bootstrap still carries the old view, whose
  revision is higher, so its baseline makes the new view look old. The next flush sends nothing and
  takes the mark away, and the Client goes on showing the old screen.\<close>

lemma restart_in_bootstrap_missed:
  "\<exists>st1 st2 st3. install_view (PaneId 1) (demo_view 0 [98]) (begin_bootstrap 7 (demo_state None (Some (demo_view 9 [97])))) = Some st1
    \<and> finish_bootstrap 7 \<lparr>fr_frames = [[1]], fr_baselines = [(PaneId 1, demo_view 9 [97])]\<rparr> st1 = (Inr (), st2)
    \<and> flush_terminal_render short_codec (\<lambda>m. [7]) 7 st2 = Some (False, st3)
    \<and> wq_render (rt_writers st3 7) = None
    \<and> map_option sub_pending (rt_subscribers st3 7) = Some []
    \<and> map_option lt_view (rt_views st3 (PaneId 1)) = Some (demo_view 0 [98])"
  by (simp add: server_evals short_batches)

text \<open>A Terminal installed in a Pane the Client does not watch is marked all the same, and a flush makes a
  baseline of a frame the Client drops. When the Client watches the Pane, it is not marked, since it
  has a baseline: the full frame the Client waits for never comes.\<close>

lemma install_outside_watched_blank:
  "\<exists>st1 st2. install_view (PaneId 1) (demo_view 0 [98]) (demo_state (Some []) None) = Some st1
    \<and> flush_terminal_render short_codec (\<lambda>m. [7]) 7 st1 = Some (False, st2)
    \<and> (case rt_subscribers (watch_terminals 7 [PaneId 1] st2) 7 of None \<Rightarrow> False
       | Some sub \<Rightarrow> sub_pending sub = [] \<and> sub_baselines sub (PaneId 1) = Some (demo_view 0 [98]))"
  by (simp add: server_evals short_batches)

end
