(* ===== verification/Session_Kept.thy ===== *)
theory Session_Kept
  imports Session_Properties Session_Restore
begin

text \<open>
  Which Panes an operation leaves a Session with, and what of a Session an observer that is only
  told of changes to the layout can know: not the Panes' working directories and resumes, and the
  zoom only by a list of its own.
\<close>

section \<open>The Panes an operation keeps\<close>

definition same_panes :: "session \<Rightarrow> session \<Rightarrow> bool" where
  "same_panes s s' \<longleftrightarrow> mset (session_pane_ids s') = mset (session_pane_ids s)"

lemma same_panes_refl [simp]: "same_panes s s"
  by (simp add: same_panes_def)

lemma same_panes_set: "same_panes s s' \<Longrightarrow> set (session_pane_ids s') = set (session_pane_ids s)"
  unfolding same_panes_def by (metis set_mset_mset)

lemma same_panes_trans: "same_panes s s' \<Longrightarrow> same_panes s' s'' \<Longrightarrow> same_panes s s''"
  by (simp add: same_panes_def)

lemma same_panes_set_workspace:
  assumes "i < length (workspaces s)" and "workspace_pane_ids w = workspace_pane_ids (workspaces s ! i)"
  shows "same_panes s (set_workspace i w s)"
  using assms by (simp add: same_panes_def session_pane_ids_concat set_workspace_def map_update_same)

lemma same_panes_set_tab:
  assumes "i < length (workspaces s)" and "j < length (w_tabs (workspaces s ! i))"
    and "mset (tab_pane_ids t) = mset (tab_pane_ids (tab_at s i j))"
  shows "same_panes s (set_tab i j t s)"
  using mset_session_panes_set_tab [OF assms(1,2), of t] assms(3) by (simp add: same_panes_def)

lemma same_panes_set_terminals:
  assumes "i < length (workspaces s)" and "j < length (w_tabs (workspaces s ! i))"
    and "terminal_layout_at s i j = Some tm" and "mset (pane_ids_of tm') = mset (pane_ids_of tm)"
  shows "same_panes s (set_terminals i j tm' s)"
  using mset_session_panes_set_terminals [OF assms(1-3), of tm'] assms(4) by (simp add: same_panes_def)

context terminal_edit
begin

lemma keeps_panes:
  assumes inv: "session_inv rp nxt s" and step: "on_pane_tab s p edit = Some (r, s')"
  shows "same_panes s s'"
  using step
proof (cases rule: on_pane_tab_cases)
  case (edited i j k tm tm')
  note live = session_inv_live_terminals [OF inv edited(1,2)]
  show ?thesis unfolding edited(6)
    using edit_panes [OF live edited(3,4,5)]
    by (intro same_panes_set_terminals [OF find_pane_Some(1,2) [OF edited(1)] edited(2)]) (simp flip: mset_map)
qed simp

end

lemma focus_pane_panes: "session_inv rp nxt s \<Longrightarrow> focus_pane s p = Some (r, s') \<Longrightarrow> same_panes s s'"
  unfolding focus_pane_def by (rule focus_edit.keeps_panes)

lemma focus_pane_in_direction_panes:
  assumes "session_inv rp nxt s" and "focus_pane_in_direction s p direction = Some (r, s')"
  shows "same_panes s s'"
  using assms focus_pane_panes [OF assms(1)]
  by (auto simp: focus_pane_in_direction_def split: option.splits prod.splits)

lemma resize_pane_panes:
  assumes "session_inv rp nxt s" and "resize_pane s p direction amount = Some (r, s')"
  shows "same_panes s s'"
  using assms resize_edit.keeps_panes by (auto simp: resize_pane_def split: if_splits)

lemma swap_pane_panes: "session_inv rp nxt s \<Longrightarrow> swap_pane s p direction = Some (r, s') \<Longrightarrow> same_panes s s'"
  unfolding swap_pane_def by (rule swap_edit.keeps_panes)

lemma swap_panes_panes:
  assumes "session_inv rp nxt s" and "swap_panes s p other = Some (r, s')"
  shows "same_panes s s'"
  using assms swap_with_edit.keeps_panes by (auto simp: swap_panes_def split: if_splits)

lemma move_pane_panes:
  assumes "session_inv rp nxt s" and "move_pane s p target side = Some (r, s')"
  shows "same_panes s s'"
  using assms move_edit.keeps_panes by (auto simp: move_pane_def split: if_splits)

lemma toggle_pane_zoom_panes:
  assumes inv: "session_inv rp nxt s" and "toggle_pane_zoom s p = Some (r, s')"
  shows "same_panes s s'"
  using assms focus_pane_inv [OF inv] focus_pane_panes [OF inv] zoom_edit.keeps_panes
    same_panes_trans
  by (fastforce simp: toggle_pane_zoom_def split: option.splits prod.splits if_splits)

lemma set_tab_split_ratios_panes:
  assumes "set_tab_split_ratios s tid ratios = Some (r, s')"
  shows "same_panes s s'"
proof (cases "s' = s")
  case False
  with assms obtain i j tm t where loc: "tab_location s tid = Some (i, j)"
    and tm: "tab_terminals (tab_at s i j) = Some tm" and s': "s' = set_terminals i j (tm\<lparr>tl_layout := t\<rparr>) s"
    by (auto simp: set_tab_split_ratios_def split: if_splits option.splits prod.splits)
  show ?thesis unfolding s'
    using tm by (intro same_panes_set_terminals [OF tab_location_Some(1,2) [OF loc]])
       (simp_all add: terminal_layout_at_def)
qed simp

lemma rename_workspace_panes: "rename_workspace s wid name = (r, s') \<Longrightarrow> same_panes s s'"
  by (auto simp: rename_workspace_def workspace_pane_ids_def dest: position_lessD split: if_splits option.splits
      intro!: same_panes_set_workspace)

lemma rename_tab_panes: "rename_tab s tid name = (r, s') \<Longrightarrow> same_panes s s'"
  by (auto simp: rename_tab_def tab_pane_ids_def tab_panes_def tab_terminals_def dest: tab_location_Some
      split: if_splits option.splits prod.splits intro!: same_panes_set_tab)

lemma associate_worktree_panes: "associate_worktree s wid parent root m base = (r, s') \<Longrightarrow> same_panes s s'"
  by (auto simp: associate_worktree_def workspace_pane_ids_def dest: position_lessD split: if_splits option.splits
      intro!: same_panes_set_workspace)

lemma move_workspace_panes:
  assumes "move_workspace s wid ix = (r, s')"
  shows "same_panes s s'"
proof (cases "s' = s")
  case False
  with assms obtain i where i: "position (\<lambda>w. w_id w = wid) (workspaces s) = Some i"
    and ix: "ix < length (workspaces s)"
    and s': "s' = s\<lparr>workspaces := insert_at ix (workspaces s ! i) (remove_at i (workspaces s))\<rparr>"
    by (auto simp: move_workspace_def split: if_splits option.splits)
  have "mset (workspaces s') = mset (workspaces s)"
    using s' mset_move [OF position_lessD [OF i]] by simp
  then show ?thesis unfolding same_panes_def session_pane_ids_concat by (rule mset_concat_map_cong)
qed simp

lemma move_tab_panes:
  assumes "move_tab s tid ix = (r, s')"
  shows "same_panes s s'"
proof (cases "s' = s")
  case False
  with assms obtain i j where loc: "tab_location s tid = Some (i, j)"
    and s': "s' = set_workspace i ((workspaces s ! i)\<lparr>w_tabs := insert_at ix (w_tabs (workspaces s ! i) ! j)
        (remove_at j (w_tabs (workspaces s ! i)))\<rparr>) s"
    by (auto simp: move_tab_def Let_def split: if_splits option.splits)
  note at = tab_location_Some [OF loc]
  let ?w = "workspaces s ! i" and ?ts = "insert_at ix (w_tabs (workspaces s ! i) ! j) (remove_at j (w_tabs (workspaces s ! i)))"
  have "mset ?ts = mset (w_tabs ?w)" using mset_move [OF at(2)] by simp
  then have "mset (workspace_pane_ids (?w\<lparr>w_tabs := ?ts\<rparr>)) = mset (workspace_pane_ids ?w)"
    using mset_concat_map_cong [of ?ts "w_tabs ?w" tab_pane_ids] by (simp add: workspace_pane_ids_def del: mset_concat mset_map)
  then show ?thesis
    using mset_concat_map_update [OF at(1), of workspace_pane_ids "?w\<lparr>w_tabs := ?ts\<rparr>"]
    by (simp add: s' same_panes_def session_pane_ids_concat set_workspace_def del: mset_concat)
qed simp

lemma follow_rename_panes:
  assumes "follow_rename rp s wid from dest = (r, s')"
  shows "same_panes s s'"
  using assms
  by (auto simp: follow_rename_def Let_def workspace_pane_ids_def comp_def rename_tab_path_same dest: position_lessD
      split: option.splits intro!: same_panes_set_workspace)

lemma preserve_focus_from_panes: "session_pane_ids (preserve_focus_from s previous) = session_pane_ids s"
proof -
  have "workspace_pane_ids (case find_workspace previous (w_id w) of
      Some old \<Rightarrow> w\<lparr>w_tabs := map (preserve_tab_focus (w_tabs old)) (w_tabs w)\<rparr> | None \<Rightarrow> w) = workspace_pane_ids w" for w
    by (auto simp: workspace_pane_ids_def preserve_tab_focus_same comp_def split: option.splits)
  then show ?thesis by (simp add: session_pane_ids_concat preserve_focus_from_def comp_def)
qed

lemma show_viewer_panes:
  assumes inv: "session_inv rp nxt s" and step: "show_viewer rp s nxt wid content name = (r, s', nxt')"
  shows "same_panes s s'"
proof (cases "s' = s")
  case False
  with step obtain p i where p: "viewer_path content = Some p"
    and i: "position (\<lambda>w. w_id w = wid) (workspaces s) = Some i"
    by (auto simp: show_viewer_def split: option.splits if_splits)
  note il = position_lessD [OF i]
  let ?w = "workspaces s ! i"
  have none: "tab_pane_ids (t\<lparr>t_content := content\<rparr>) = []" for t
    using p by (cases content) (auto simp: tab_pane_ids_def tab_panes_def tab_terminals_def)
  show ?thesis
  proof (cases "position (\<lambda>t. same_viewer_kind (t_content t) content) (w_tabs ?w)")
    case None
    with False step p i obtain tid where s': "s' = set_workspace i (?w\<lparr>w_tabs := w_tabs ?w @
        [\<lparr>t_id = tid, t_name = name, t_content = content\<rparr>]\<rparr>) s"
      by (auto simp: show_viewer_def Let_def split: option.splits if_splits)
    have "tab_pane_ids \<lparr>t_id = tid, t_name = name, t_content = content\<rparr> = []"
      using none [of "\<lparr>t_id = tid, t_name = name, t_content = content\<rparr>"] by simp
    then show ?thesis unfolding s' by (intro same_panes_set_workspace [OF il]) (simp add: workspace_pane_ids_def)
  next
    case (Some j)
    with False step p i have s': "s' = set_tab i j ((w_tabs ?w ! j)\<lparr>t_content := content\<rparr>) s"
      by (auto simp: show_viewer_def Let_def split: if_splits)
    have "same_viewer_kind (t_content (w_tabs ?w ! j)) content" using position_satD [OF Some] by simp
    then have "tab_pane_ids (tab_at s i j) = []"
      by (cases "t_content (w_tabs ?w ! j)") (auto simp: tab_at_def tab_pane_ids_def tab_panes_def tab_terminals_def)
    with none show ?thesis unfolding s'
      by (intro same_panes_set_tab [OF il position_lessD [OF Some]]) simp
  qed
qed simp

section \<open>What a close and a new Pane change\<close>

text \<open>The Panes before, less those closed, and the new one.\<close>

definition panes_change :: "session \<Rightarrow> pane_id list \<Rightarrow> pane_id option \<Rightarrow> session \<Rightarrow> bool" where
  "panes_change s closed new_pane s' \<longleftrightarrow>
     set (session_pane_ids s') = (set (session_pane_ids s) - set closed) \<union> set_option new_pane
     \<and> set_option new_pane \<inter> set (session_pane_ids s) = {} \<and> set closed \<subseteq> set (session_pane_ids s)"

lemma same_panes_change: "same_panes s s' \<Longrightarrow> panes_change s [] None s'"
  using same_panes_set by (auto simp: panes_change_def)

lemma closes_panes_change:
  assumes "session_inv rp nxt s" and "closes_exactly s c s'"
  shows "panes_change s (co_panes c) None s'"
proof -
  have m: "mset (session_pane_ids s) = mset (session_pane_ids s' @ co_panes c)"
    using assms(2) by (simp add: closes_exactly_def)
  have "distinct (session_pane_ids s' @ co_panes c)"
    using session_inv_ids(3) [OF assms(1)] mset_eq_imp_distinct_iff [OF m] by simp
  with mset_eq_setD [OF m] show ?thesis by (auto simp: panes_change_def)
qed

lemma fresh_below:
  assumes "session_inv rp nxt s" and "unat nxt \<le> unat n"
  shows "PaneId n \<notin> set (session_pane_ids s)"
  using session_inv_ids(6) [OF assms(1)] assms(2) by fastforce

lemma create_workspace_change:
  assumes inv: "session_inv rp nxt s" and step: "create_workspace s nxt root = (Some wid, s', nxt')"
  obtains first where "wid = WorkspaceId first" and "PaneId (first + 2) \<notin> set (session_pane_ids s)"
    and "mset (session_pane_ids s') = add_mset (PaneId (first + 2)) (mset (session_pane_ids s))"
    and "workspaces s' = workspaces s @ [\<lparr>w_id = wid, w_name = workspace_name root, w_root = root,
        w_worktree = None, w_tabs = [\<lparr>t_id = TabId (first + 1), t_name = [],
          t_content = Terminals (single_terminal
            \<lparr>p_id = PaneId (first + 2), p_cwd = Some root, p_resume = None\<rparr>)\<rparr>]\<rparr>]"
    and "wid \<notin> set (session_workspace_ids s)"
proof -
  have pos: "0 < unat nxt" using inv by (simp add: session_inv_def)
  from step obtain first where r: "reserve_ids 3 nxt = Some (first, nxt')" and wid: "wid = WorkspaceId first"
    and s': "s' = s\<lparr>workspaces := workspaces s @ [\<lparr>w_id = WorkspaceId first,
        w_name = workspace_name root, w_root = root, w_worktree = None,
        w_tabs = [\<lparr>t_id = TabId (first + 1), t_name = [],
          t_content = Terminals (single_terminal
            \<lparr>p_id = PaneId (first + 2), p_cwd = Some root, p_resume = None\<rparr>)\<rparr>]\<rparr>]\<rparr>"
    by (auto simp: create_workspace_def Let_def split: if_splits option.splits)
  have "PaneId (first + 2) \<notin> set (session_pane_ids s)"
    using reserved_third [OF r pos] fresh_below [OF inv] by simp
  moreover have "wid \<notin> set (session_workspace_ids s)"
    using reserved_first [OF r pos] session_inv_ids(4) [OF inv] wid by fastforce
  ultimately show ?thesis
    using s' wid by (intro that [of first]) (simp_all add: session_pane_ids_concat workspace_pane_ids_def tab_pane_ids_def
        tab_panes_def tab_terminals_def)
qed

lemma create_tab_change:
  assumes inv: "session_inv rp nxt s" and step: "create_tab s nxt wid from = (Some tid, s', nxt')"
  obtains first cwd i where "tid = TabId first" and "PaneId (first + 1) \<notin> set (session_pane_ids s)"
    and "mset (session_pane_ids s') = add_mset (PaneId (first + 1)) (mset (session_pane_ids s))"
    and "i < length (workspaces s)" and "tid \<notin> set (session_tab_ids s)"
    and "s' = set_workspace i ((workspaces s ! i)\<lparr>w_tabs := w_tabs (workspaces s ! i) @
        [\<lparr>t_id = TabId first, t_name = [], t_content = Terminals (single_terminal
            \<lparr>p_id = PaneId (first + 1), p_cwd = Some cwd, p_resume = None\<rparr>)\<rparr>]\<rparr>) s"
proof -
  have pos: "0 < unat nxt" using inv by (simp add: session_inv_def)
  from step obtain first cwd i where r: "reserve_ids 2 nxt = Some (first, nxt')" and tid: "tid = TabId first"
    and i: "position (\<lambda>w. w_id w = wid) (workspaces s) = Some i"
    and s': "s' = set_workspace i ((workspaces s ! i)\<lparr>w_tabs := w_tabs (workspaces s ! i) @
        [\<lparr>t_id = TabId first, t_name = [], t_content = Terminals (single_terminal
            \<lparr>p_id = PaneId (first + 1), p_cwd = Some cwd, p_resume = None\<rparr>)\<rparr>]\<rparr>) s"
    by (auto simp: create_tab_def Let_def split: if_splits option.splits)
  note il = position_lessD [OF i]
  have "PaneId (first + 1) \<notin> set (session_pane_ids s)"
    using reserved_second [OF r pos] fresh_below [OF inv] by simp
  moreover have "tid \<notin> set (session_tab_ids s)"
    using reserved_first [OF r pos] session_inv_ids(5) [OF inv] tid by fastforce
  moreover have "mset (session_pane_ids s') = add_mset (PaneId (first + 1)) (mset (session_pane_ids s))"
    using mset_concat_map_update [OF il, of workspace_pane_ids "(workspaces s ! i)\<lparr>w_tabs := w_tabs (workspaces s ! i) @
        [\<lparr>t_id = TabId first, t_name = [], t_content = Terminals (single_terminal
            \<lparr>p_id = PaneId (first + 1), p_cwd = Some cwd, p_resume = None\<rparr>)\<rparr>]\<rparr>"]
    by (simp add: s' session_pane_ids_concat set_workspace_def del: mset_concat)
       (simp add: workspace_pane_ids_def tab_pane_ids_def tab_panes_def tab_terminals_def del: mset_concat mset_map)
  ultimately show ?thesis using tid s' il by (intro that [of first i cwd])
qed

lemma added_panes_change:
  assumes "q \<notin> set (session_pane_ids s)" and "mset (session_pane_ids s') = add_mset q (mset (session_pane_ids s))"
  shows "panes_change s [] (Some q) s'"
proof -
  have "set (session_pane_ids s') = insert q (set (session_pane_ids s))"
    using arg_cong [OF assms(2), of set_mset] by simp
  with assms(1) show ?thesis by (simp add: panes_change_def)
qed

lemma split_pane_change:
  assumes inv: "session_inv rp nxt s" and step: "split_pane s nxt p d r = Some (Some q, s', nxt')"
  shows "panes_change s [] (Some q) s'"
  using inv step
proof (rule split_pane_detail)
  fix i j tm t cwd
  assume i: "i < length (workspaces s)" "j < length (w_tabs (workspaces s ! i))" "terminal_layout_at s i j = Some tm"
    and fresh: "q \<notin> set (session_pane_ids s)"
    and s': "s' = set_terminals i j (tm\<lparr>tl_layout := t,
         tl_history := tl_history tm @ [tl_focused tm], tl_focused := q, tl_zoomed := None,
         tl_panes := tl_panes tm @ [\<lparr>p_id = q, p_cwd = Some cwd, p_resume = None\<rparr>]\<rparr>) s"
  show ?thesis
    using mset_session_panes_set_terminals [OF i, of "tm\<lparr>tl_layout := t,
         tl_history := tl_history tm @ [tl_focused tm], tl_focused := q, tl_zoomed := None,
         tl_panes := tl_panes tm @ [\<lparr>p_id = q, p_cwd = Some cwd, p_resume = None\<rparr>]\<rparr>"]
    by (intro added_panes_change [OF fresh]) (simp add: s')
qed

section \<open>What an observer of the layout sees\<close>

definition bare_pane :: "pane \<Rightarrow> pane" where
  "bare_pane p = p\<lparr>p_cwd := None, p_resume := None\<rparr>"

definition bare_tab :: "tab \<Rightarrow> tab" where
  "bare_tab t = (case t_content t of
     Terminals tm \<Rightarrow> t\<lparr>t_content := Terminals (tm\<lparr>tl_panes := map bare_pane (tl_panes tm)\<rparr>)\<rparr>
   | _ \<Rightarrow> t)"

definition bare_session :: "session \<Rightarrow> session" where
  "bare_session s = s\<lparr>workspaces := map (\<lambda>w. w\<lparr>w_tabs := map bare_tab (w_tabs w)\<rparr>) (workspaces s)\<rparr>"

lemma bare_pane_id [simp]: "p_id (bare_pane p) = p_id p"
  by (simp add: bare_pane_def)

lemma bare_tab_ids [simp]: "tab_pane_ids (bare_tab t) = tab_pane_ids t" "t_id (bare_tab t) = t_id t"
  by (auto simp: bare_tab_def tab_pane_ids_def tab_panes_def tab_terminals_def comp_def split: tab_content.splits)

lemma bare_unzoom: "bare_tab (unzoom_tab t) = unzoom_tab (bare_tab t)"
  by (auto simp: bare_tab_def unzoom_tab_def split: tab_content.splits)

lemma bare_zoom [simp]: "tab_zoomed_pane_id (bare_tab t) = tab_zoomed_pane_id t"
  by (auto simp: bare_tab_def tab_zoomed_pane_id_def tab_terminals_def split: tab_content.splits)

lemma bare_unzoomed: "bare_session (unzoomed s) = unzoomed (bare_session s)"
  by (simp add: bare_session_def unzoomed_def comp_def bare_unzoom)

lemma unzoomed_ids [simp]:
  "session_pane_ids (unzoomed s) = session_pane_ids s" "session_workspace_ids (unzoomed s) = session_workspace_ids s"
proof -
  have "tab_pane_ids (unzoom_tab t) = tab_pane_ids t" for t
    by (auto simp: unzoom_tab_def tab_pane_ids_def tab_panes_def tab_terminals_def split: tab_content.splits)
  then have "workspace_pane_ids (w\<lparr>w_tabs := map unzoom_tab (w_tabs w)\<rparr>) = workspace_pane_ids w" for w
    by (simp add: workspace_pane_ids_def comp_def)
  then show "session_pane_ids (unzoomed s) = session_pane_ids s" "session_workspace_ids (unzoomed s) = session_workspace_ids s"
    by (simp_all add: session_pane_ids_concat session_workspace_ids_def unzoomed_def comp_def)
qed

lemma bare_session_ids [simp]:
  "session_pane_ids (bare_session s) = session_pane_ids s"
  "session_workspace_ids (bare_session s) = session_workspace_ids s"
  by (simp_all add: session_pane_ids_concat session_workspace_ids_def bare_session_def workspace_pane_ids_def [abs_def] comp_def)

lemma bare_same_ids:
  assumes "bare_session s = bare_session s'"
  shows "session_pane_ids s = session_pane_ids s'" and "session_workspace_ids s = session_workspace_ids s'"
  using arg_cong [OF assms, of session_pane_ids] arg_cong [OF assms, of session_workspace_ids] by simp_all

lemma bare_set_terminals:
  assumes i: "i < length (workspaces s)" and j: "j < length (w_tabs (workspaces s ! i))"
    and tm: "terminal_layout_at s i j = Some tm"
    and same: "tm' = tm\<lparr>tl_panes := tl_panes tm'\<rparr>" and panes: "map bare_pane (tl_panes tm') = map bare_pane (tl_panes tm)"
  shows "bare_session (set_terminals i j tm' s) = bare_session s"
proof -
  let ?w = "workspaces s ! i"
  from tm have c: "t_content (w_tabs ?w ! j) = Terminals tm"
    by (simp add: terminal_layout_at_def tab_terminals_Some tab_at_def)
  have "tm'\<lparr>tl_panes := map bare_pane (tl_panes tm')\<rparr> = tm\<lparr>tl_panes := map bare_pane (tl_panes tm)\<rparr>"
    using panes by (subst same) simp
  then have t: "bare_tab ((w_tabs ?w ! j)\<lparr>t_content := Terminals tm'\<rparr>) = bare_tab (w_tabs ?w ! j)"
    using c by (simp add: bare_tab_def)
  have ts: "map bare_tab ((w_tabs ?w)[j := (w_tabs ?w ! j)\<lparr>t_content := Terminals tm'\<rparr>]) = map bare_tab (w_tabs ?w)"
    using t j by (simp add: map_update list_update_same_conv)
  have "map (\<lambda>w. w\<lparr>w_tabs := map bare_tab (w_tabs w)\<rparr>) ((workspaces s)[i := ?w\<lparr>w_tabs := (w_tabs ?w)
        [j := (w_tabs ?w ! j)\<lparr>t_content := Terminals tm'\<rparr>]\<rparr>]) = map (\<lambda>w. w\<lparr>w_tabs := map bare_tab (w_tabs w)\<rparr>) (workspaces s)"
    using ts i by (simp add: map_update list_update_same_conv)
  then show ?thesis
    by (simp add: bare_session_def set_terminals_def set_tab_def set_workspace_def tab_at_def Let_def)
qed

lemma set_pane_cwd_bare:
  assumes "set_pane_cwd s p cwd = Some (r, s')"
  shows "bare_session s' = bare_session s"
  using assms unfolding set_pane_cwd_def
proof (cases rule: cwd_edit.on_pane_tab_cases)
  case (edited i j k tm tm')
  from edited(5) have tm': "tm' = tm\<lparr>tl_panes := (tl_panes tm)[k := (tl_panes tm ! k)\<lparr>p_cwd := cwd\<rparr>]\<rparr> \<or> tm' = tm"
    by (auto simp: set_cwd_def Let_def split: if_splits)
  have "map bare_pane (tl_panes tm') = map bare_pane (tl_panes tm)"
    using tm' edited(3) by (auto simp: map_update list_update_same_conv bare_pane_def)
  then show ?thesis unfolding edited(6)
    using tm' by (intro bare_set_terminals [OF find_pane_Some(1,2) [OF edited(1)] edited(2)]) auto
qed simp

lemma set_pane_agent_resume_bare:
  assumes "set_pane_agent_resume s p resume = Some (r, s')"
  shows "bare_session s' = bare_session s"
  using set_pane_agent_resume_edit [OF assms]
proof
  assume "on_pane_tab s p (set_resume (accepted_resume resume)) = Some (r, s')"
  then show ?thesis
  proof (cases rule: resume_edit.on_pane_tab_cases)
    case (edited i j k tm tm')
    from edited(5) have tm': "tm' = tm\<lparr>tl_panes := (tl_panes tm)[k := (tl_panes tm ! k)\<lparr>p_resume := accepted_resume resume\<rparr>]\<rparr>
        \<or> tm' = tm"
      by (auto simp: set_resume_def split: if_splits)
    have "map bare_pane (tl_panes tm') = map bare_pane (tl_panes tm)"
      using tm' edited(3) by (auto simp: map_update list_update_same_conv bare_pane_def)
    then show ?thesis unfolding edited(6)
      using tm' by (intro bare_set_terminals [OF find_pane_Some(1,2) [OF edited(1)] edited(2)]) auto
  qed simp
qed simp

text \<open>Where the ids were saved, restoring works under any id counter.\<close>

lemma session_restore_any_counter:
  assumes "session_restore rp snap nxt = Some (Inr (s, nxt'))"
  shows "\<exists>nxt''. session_restore rp snap n = Some (Inr (s, nxt''))"
proof -
  from assms obtain ws x y where "validate_snapshot_resources snap = Inr ()"
    "those (map restore_workspace (ss_workspaces snap)) = Some ws" "s = \<lparr>workspaces = ws\<rparr>"
    "session_validate rp s = Inr x" "checked_add_u64 x 1 = Some y"
    by (auto simp: session_restore_def Let_def split: sum.splits option.splits)
  then show ?thesis by (simp add: session_restore_def)
qed

lemma saved_restores_anywhere:
  assumes "session_inv rp nxt s"
  obtains snap where "session_to_snapshot s = Some snap"
    and "\<And>n. \<exists>nxt'. session_restore rp snap n = Some (Inr (unzoomed s, nxt'))"
  using saved_restores [OF assms] session_restore_any_counter that by metis

lemma zoomed_workspace_ids: "find_workspace s wid = None \<longleftrightarrow> wid \<notin> set (session_workspace_ids s)"
  by (auto simp: find_workspace_def find_None_iff session_workspace_ids_def)

lemma get_pane_ids: "get_pane s p = None \<longleftrightarrow> p \<notin> set (session_pane_ids s)"
  by (auto simp: get_pane_def find_None_iff session_pane_ids_def)

end
