(* ===== verification/Agent_Control.thy ===== *)
theory Agent_Control
  imports Server_Subscriptions "HOL-Library.AList"
begin

text \<open>
  Starting, prompting and waiting for agents from a script (\<open>server/agents.rs\<close>): names, what runs in each
  Pane, and one wait per connection that some later change, its deadline or the Server's end answers.
  What the terminals answer is given: \<open>running\<close> is the agent a terminal's processes show, \<open>typed\<close> how
  typing a line went.
\<close>

section \<open>Checks\<close>

definition MAX_AGENT_TIMEOUT_MS :: u64 where "MAX_AGENT_TIMEOUT_MS = 300000"

definition SETTLED :: "agent_state list" where "SETTLED = [Idle, Done, Blocked, Error]"

definition ready_states :: "agent_kind \<Rightarrow> agent_state list" where
  "ready_states kind = SETTLED @ (if as_reports_at_startup (agent_kind_spec kind) then [] else [Unknown])"

definition reports_state :: "agent_kind \<Rightarrow> agent_error + unit" where
  "reports_state kind = (if agent_hooks kind \<noteq> None then Inr () else Inl (str_lit ''agent_reports_no_state''))"

definition valid_name :: "rstr \<Rightarrow> bool" where
  "valid_name name \<longleftrightarrow> 1 \<le> str_len name \<and> str_len name \<le> 32
     \<and> 97 \<le> hd (str_bytes name) \<and> hd (str_bytes name) \<le> 122
     \<and> (\<forall>b \<in> set (str_bytes name). (97 \<le> b \<and> b \<le> 122) \<or> (48 \<le> b \<and> b \<le> 57) \<or> b = 95 \<or> b = 45)"

definition wait_deadline :: "nat \<Rightarrow> u64 \<Rightarrow> agent_error + nat" where
  "wait_deadline now timeout_ms =
     (if MAX_AGENT_TIMEOUT_MS < timeout_ms then Inl (str_lit ''invalid_agent_timeout'') else Inr (now + unat timeout_ms))"

definition validate_until :: "agent_state list option \<Rightarrow> agent_error + unit" where
  "validate_until states =
     (case states of
        None \<Rightarrow> Inr ()
      | Some states \<Rightarrow> if states = [] \<or> 6 < length states then Inl (str_lit ''invalid_agent_state'') else Inr ())"

text \<open>\<open>str::parse::<u64>\<close>: decimal digits after an optional plus sign, within 64 bits.\<close>

definition parse_u64 :: "rstr \<Rightarrow> u64 option" where
  "parse_u64 s =
     (let digits = (case s of [] \<Rightarrow> [] | c # rest \<Rightarrow> if c = 43 then rest else s);
          n = fold (\<lambda>c n. 10 * n + (c - 48)) digits 0
      in if digits = [] \<or> list_ex (\<lambda>c. c < 48 \<or> 57 < c) digits \<or> 2 ^ 64 \<le> n then None else Some (of_nat n))"

section \<open>Looking at an agent\<close>

definition agent_terminal_instance :: "('set, 'git) runtime \<Rightarrow> pane_id \<Rightarrow> agent_error + u64" where
  "agent_terminal_instance st p =
     (case rt_instances st p of
        Some instance_id \<Rightarrow>
          if get_pane (rt_session st) p \<noteq> None \<and> p \<notin> rt_exited st \<and> p \<notin> rt_closing st
          then Inr instance_id else Inl (str_lit ''pane_not_running'')
      | None \<Rightarrow> Inl (str_lit ''pane_not_running''))"

definition agent_info_of :: "('set, 'git) runtime \<Rightarrow> pane_id \<Rightarrow> agent_info option" where
  "agent_info_of st p =
     (case agent_terminal_instance st p of
        Inl _ \<Rightarrow> None
      | Inr _ \<Rightarrow>
          let managed = map_of (ac_names (rt_control st)) p in
          (case (case map_of (ac_live (rt_control st)) p of Some kind \<Rightarrow> Some kind | None \<Rightarrow> map_option mg_kind managed) of
             None \<Rightarrow> None
           | Some kind \<Rightarrow>
               let agent = (case rt_agents st p of
                     Some agent \<Rightarrow> if sn_kind agent = kind then agent
                       else \<lparr>sn_session_id = None, sn_kind = kind, sn_state = Unknown, sn_detail = None\<rparr>
                   | None \<Rightarrow> \<lparr>sn_session_id = None, sn_kind = kind, sn_state = Unknown, sn_detail = None\<rparr>)
               in Some \<lparr>ai_pane_id = p, ai_name = map_option mg_name managed, ai_agent = agent,
                    ai_launch_pending = (case managed of Some agent \<Rightarrow> mg_pending agent | None \<Rightarrow> False)\<rparr>))"

definition resolve_agent :: "('set, 'git) runtime \<Rightarrow> rstr \<Rightarrow> agent_error + agent_info" where
  "resolve_agent st target =
     (let p = (case parse_u64 target of
            Some n \<Rightarrow> Some (PaneId n)
          | None \<Rightarrow> map_option fst (find (\<lambda>(_, agent). mg_name agent = target) (ac_names (rt_control st))))
      in case Option.bind p (agent_info_of st) of
           None \<Rightarrow> Inl (str_lit ''agent_not_found'')
         | Some info \<Rightarrow> Inr info)"

section \<open>Waits\<close>

definition wait_generation :: "('set, 'git) runtime \<Rightarrow> pane_id \<Rightarrow> u64" where
  "wait_generation st p = (case ac_generations (rt_control st) p of Some n \<Rightarrow> n | None \<Rightarrow> 0)"

definition set_control :: "(agent_control \<Rightarrow> agent_control) \<Rightarrow> ('set, 'git) runtime \<Rightarrow> ('set, 'git) runtime" where
  "set_control f st = st\<lparr>rt_control := f (rt_control st)\<rparr>"

definition add_agent_wait ::
  "u64 \<Rightarrow> pane_id \<Rightarrow> agent_kind \<Rightarrow> agent_state list \<Rightarrow> bool \<Rightarrow> bool \<Rightarrow> nat \<Rightarrow> ('set, 'git) runtime
   \<Rightarrow> (agent_error + unit) \<times> ('set, 'git) runtime" where
  "add_agent_wait c p kind until needs_change starting deadline st =
     (case agent_terminal_instance st p of
        Inl e \<Rightarrow> (Inl e, st)
      | Inr instance_id \<Rightarrow> (Inr (), set_control (\<lambda>ac. ac\<lparr>ac_waiters := (ac_waiters ac)(c \<mapsto>
            \<lparr>aw_pane_id = p, aw_instance = instance_id, aw_generation = wait_generation st p, aw_kind = kind,
             aw_until = until, aw_needs_change = needs_change, aw_starting = starting, aw_deadline = deadline\<rparr>)\<rparr>) st))"

definition agent_wait_result ::
  "(pane_id \<Rightarrow> agent_kind option) \<Rightarrow> ('set, 'git) runtime \<Rightarrow> agent_waiter \<Rightarrow> (agent_error + agent_response) option" where
  "agent_wait_result running st wait =
     (let p = aw_pane_id wait in
      if agent_terminal_instance st p \<noteq> Inr (aw_instance wait) \<or> wait_generation st p \<noteq> aw_generation wait
      then Some (Inl (str_lit ''agent_not_running''))
      else case agent_info_of st p of
        None \<Rightarrow> Some (Inl (str_lit ''agent_not_running''))
      | Some info \<Rightarrow>
          if sn_kind (ai_agent info) \<noteq> aw_kind wait then Some (Inl (str_lit ''agent_changed''))
          else if \<not> aw_needs_change wait \<and> \<not> ai_launch_pending info \<and> sn_state (ai_agent info) \<in> set (aw_until wait)
          then if running p \<noteq> Some (aw_kind wait) then Some (Inl (str_lit ''agent_not_running''))
               else if aw_starting wait \<and> sn_state (ai_agent info) \<in> {Blocked, Error}
               then Some (Inl (str_lit ''agent_not_ready''))
               else Some (Inr (AgentReady info))
          else None)"

text \<open>\<open>reply\<close>: a result too large for a frame is answered by an error.\<close>

definition reply_queue ::
  "(('set, 'git, 'r) server_message \<Rightarrow> bytes option) \<Rightarrow> agent_error + agent_response \<Rightarrow> writer_queue \<Rightarrow> writer_queue" where
  "reply_queue enc result q =
     (case enc (AgentResult result) of
        Some data \<Rightarrow> snd (send_reliable data q)
      | None \<Rightarrow> snd (queue_response enc (AgentResult (Inl (str_lit ''agent_response_failed''))) q))"

definition reply ::
  "(('set, 'git, 'r) server_message \<Rightarrow> bytes option) \<Rightarrow> u64 \<Rightarrow> agent_error + agent_response
   \<Rightarrow> ('set, 'git) runtime \<Rightarrow> ('set, 'git) runtime" where
  "reply enc c result st = set_writer c (reply_queue enc result (rt_writers st c)) st"

text \<open>The loops over the waiters: those with a result leave and get it. Every waiter has a queue of its own.\<close>

definition answer_waits ::
  "(('set, 'git, 'r) server_message \<Rightarrow> bytes option) \<Rightarrow> (agent_waiter \<Rightarrow> (agent_error + agent_response) option)
   \<Rightarrow> ('set, 'git) runtime \<Rightarrow> ('set, 'git) runtime" where
  "answer_waits enc result st =
     (let waiters = ac_waiters (rt_control st); results = (\<lambda>c. Option.bind (waiters c) result) in
      set_control (\<lambda>ac. ac\<lparr>ac_waiters := (\<lambda>c. if results c = None then waiters c else None)\<rparr>)
        (st\<lparr>rt_writers := (\<lambda>c. case results c of
              None \<Rightarrow> rt_writers st c | Some r \<Rightarrow> reply_queue enc r (rt_writers st c))\<rparr>))"

definition complete_agent_waits ::
  "(('set, 'git, 'r) server_message \<Rightarrow> bytes option) \<Rightarrow> (pane_id \<Rightarrow> agent_kind option)
   \<Rightarrow> ('set, 'git) runtime \<Rightarrow> ('set, 'git) runtime" where
  "complete_agent_waits enc running st = answer_waits enc (agent_wait_result running st) st"

definition expire_agent_operations ::
  "(('set, 'git, 'r) server_message \<Rightarrow> bytes option) \<Rightarrow> nat \<Rightarrow> ('set, 'git) runtime \<Rightarrow> ('set, 'git) runtime" where
  "expire_agent_operations enc now st =
     (let st = answer_waits enc (\<lambda>wait.
            if agent_terminal_instance st (aw_pane_id wait) \<noteq> Inr (aw_instance wait)
            then Some (Inl (str_lit ''agent_not_running''))
            else if aw_deadline wait \<le> now then Some (Inl (str_lit ''agent_timeout'')) else None) st;
          stale = (\<lambda>(p, agent). agent_terminal_instance st p \<noteq> Inr (mg_instance agent)
            \<or> (case mg_deadline agent of Some deadline \<Rightarrow> deadline \<le> now | None \<Rightarrow> False))
      in set_control (\<lambda>ac. ac\<lparr>ac_names := filter (\<lambda>entry. \<not> stale entry) (ac_names ac)\<rparr>) st)"

definition stop_agent_waits ::
  "(('set, 'git, 'r) server_message \<Rightarrow> bytes option) \<Rightarrow> ('set, 'git) runtime \<Rightarrow> ('set, 'git) runtime" where
  "stop_agent_waits enc st = answer_waits enc (\<lambda>wait. Some (Inl (str_lit ''server_stopping''))) st"

section \<open>What the probes report\<close>

definition agent_process_update :: "pane_id \<Rightarrow> agent_kind option \<Rightarrow> ('set, 'git) runtime \<Rightarrow> ('set, 'git) runtime" where
  "agent_process_update p nxt st = set_control (\<lambda>ac.
     let previous = map_of (ac_live ac) p;
         ac = (if nxt = None then ac else ac\<lparr>ac_resumes := (ac_resumes ac)(p := None)\<rparr>);
         ac = ac\<lparr>ac_live := (case nxt of Some kind \<Rightarrow> AList.update p kind (ac_live ac) | None \<Rightarrow> AList.delete p (ac_live ac))\<rparr>;
         ac = (if previous \<noteq> None \<and> previous \<noteq> nxt
               then ac\<lparr>ac_generations := (ac_generations ac)(p \<mapsto>
                      (case ac_generations ac p of Some n \<Rightarrow> n | None \<Rightarrow> 0) + 1)\<rparr>
               else ac)
     in case map_of (ac_names ac) p of
          None \<Rightarrow> ac
        | Some managed \<Rightarrow>
            if (mg_observed managed \<and> nxt \<noteq> Some (mg_kind managed)) \<or> (nxt \<noteq> None \<and> nxt \<noteq> Some (mg_kind managed))
            then ac\<lparr>ac_names := AList.delete p (ac_names ac)\<rparr>
            else if nxt = Some (mg_kind managed)
            then ac\<lparr>ac_names := AList.update p (managed\<lparr>mg_observed := True\<rparr>) (ac_names ac)\<rparr>
            else ac) st"

definition agent_state_changed ::
  "(('set, 'git, 'r) server_message \<Rightarrow> bytes option) \<Rightarrow> (pane_id \<Rightarrow> agent_kind option) \<Rightarrow> pane_id
   \<Rightarrow> ('set, 'git) runtime \<Rightarrow> ('set, 'git) runtime" where
  "agent_state_changed enc running p st = complete_agent_waits enc running (set_control (\<lambda>ac.
     let ac = ac\<lparr>ac_waiters := (\<lambda>c. map_option (\<lambda>wait. if aw_pane_id wait = p then wait\<lparr>aw_needs_change := False\<rparr> else wait)
                   (ac_waiters ac c))\<rparr>
     in case map_of (ac_names ac) p of
          None \<Rightarrow> ac
        | Some managed \<Rightarrow>
            if mg_observed managed
               \<and> (case rt_agents st p of Some agent \<Rightarrow> sn_state agent \<in> set (ready_states (sn_kind agent)) | None \<Rightarrow> False)
            then ac\<lparr>ac_names := AList.update p (managed\<lparr>mg_pending := False, mg_deadline := None\<rparr>) (ac_names ac)\<rparr>
            else ac) st)"

definition forget_agent_control :: "pane_id \<Rightarrow> ('set, 'git) runtime \<Rightarrow> ('set, 'git) runtime" where
  "forget_agent_control p st = set_control (\<lambda>ac.
     ac\<lparr>ac_resumes := (ac_resumes ac)(p := None), ac_names := AList.delete p (ac_names ac),
        ac_live := AList.delete p (ac_live ac), ac_generations := (ac_generations ac)(p := None)\<rparr>)
     (st\<lparr>rt_clones := (rt_clones st)(p := None)\<rparr>)"

section \<open>Commands\<close>

datatype agent_command =
    Available
  | ListAgents
  | Start rstr agent_kind pane_id "rstr list" u64
  | Prompt rstr rstr "agent_state list option" u64
  | Wait rstr "agent_state list" u64
  | Hooks

text \<open>How typing a line into a terminal went; \<open>WouldBlock\<close> is a full input queue.\<close>

datatype typed = Typed | WouldBlock | TypeFailed

definition agent_start ::
  "(('set, 'git, 'r) server_message \<Rightarrow> bytes option) \<Rightarrow> nat \<Rightarrow> u64 \<Rightarrow> (u64 \<times> typed) option \<Rightarrow> rstr \<Rightarrow> agent_kind \<Rightarrow> pane_id
   \<Rightarrow> rstr list \<Rightarrow> u64 \<Rightarrow> ('set, 'git) runtime \<Rightarrow> (agent_error + agent_response option) \<times> ('set, 'git) runtime" where
  "agent_start enc now c launch name kind p args timeout_ms st =
     (if \<not> valid_name name then (Inl (str_lit ''invalid_agent_name''), st)
      else case wait_deadline now timeout_ms of
        Inl e \<Rightarrow> (Inl e, st)
      | Inr until \<Rightarrow>
          if timeout_ms \<le> 3000 then (Inl (str_lit ''invalid_agent_timeout''), st)
          else if 128 * 1024 < sum_list (map str_len args) \<or> list_ex (list_ex is_control) args
          then (Inl (str_lit ''invalid_agent_args''), st)
          else
            let st = expire_agent_operations enc now st; ac = rt_control st in
            if list_ex (\<lambda>(_, agent). mg_name agent = name) (ac_names ac) then (Inl (str_lit ''agent_name_in_use''), st)
            else (case agent_terminal_instance st p of
                Inl e \<Rightarrow> (Inl e, st)
              | Inr instance_id \<Rightarrow>
                  if map_of (ac_names ac) p \<noteq> None \<or> map_of (ac_live ac) p \<noteq> None \<or> ac_resumes ac p \<noteq> None
                  then (Inl (str_lit ''pane_busy''), st)
                  else case launch of
                    None \<Rightarrow> (Inl (str_lit ''agent_unavailable''), st)
                  | Some (launch_instance, typed) \<Rightarrow>
                      if launch_instance \<noteq> instance_id then (Inl (str_lit ''pane_not_running''), st)
                      else if typed = WouldBlock then (Inl (str_lit ''pane_busy''), st)
                      else if typed = TypeFailed then (Inl (str_lit ''agent_start_failed''), st)
                      else
                        let st = set_control (\<lambda>ac. ac\<lparr>ac_names := AList.update p
                              \<lparr>mg_name = name, mg_kind = kind, mg_instance = instance_id, mg_deadline = Some until,
                               mg_pending = True, mg_observed = False\<rparr> (ac_names ac)\<rparr>) st;
                            (r, st) = add_agent_wait c p kind (ready_states kind) False True until st
                        in (bind_ok r (\<lambda>_. Inr None), st)))"

definition prompt_char_ok :: "nat \<Rightarrow> bool" where
  "prompt_char_ok ch \<longleftrightarrow> \<not> is_control ch \<or> ch = 10 \<or> ch = 13 \<or> ch = 9"

definition agent_prompt ::
  "(pane_id \<Rightarrow> agent_kind option) \<Rightarrow> typed \<Rightarrow> nat \<Rightarrow> u64 \<Rightarrow> rstr \<Rightarrow> rstr \<Rightarrow> agent_state list option \<Rightarrow> u64
   \<Rightarrow> ('set, 'git) runtime \<Rightarrow> (agent_error + agent_response option) \<times> ('set, 'git) runtime" where
  "agent_prompt running typed now c target content until timeout_ms st =
     (let checked = bind_ok (wait_deadline now timeout_ms) (\<lambda>deadline.
          bind_ok (validate_until until) (\<lambda>_.
          if 1024 * 1024 < str_len content \<or> list_ex (\<lambda>ch. \<not> prompt_char_ok ch) content
          then Inl (str_lit ''invalid_agent_prompt'')
          else bind_ok (resolve_agent st target) (\<lambda>info.
          bind_ok (if until \<noteq> None then reports_state (sn_kind (ai_agent info)) else Inr ()) (\<lambda>_.
            let agent = ai_agent info;
                first_turn = sn_state agent = Unknown \<and> \<not> as_reports_at_startup (agent_kind_spec (sn_kind agent))
            in if ai_launch_pending info \<or> (\<not> at_prompt (sn_state agent) \<and> \<not> first_turn)
               then Inl (str_lit ''agent_not_ready'')
               else if running (ai_pane_id info) \<noteq> Some (sn_kind agent) then Inl (str_lit ''agent_not_running'')
               else if typed \<noteq> Typed then Inl (str_lit ''agent_prompt_failed'')
               else Inr (info, deadline)))))
      in case checked of
           Inl e \<Rightarrow> (Inl e, st)
         | Inr (info, deadline) \<Rightarrow>
             (case until of
                None \<Rightarrow> (Inr (Some (AgentReady info)), st)
              | Some until \<Rightarrow>
                  let (r, st) = add_agent_wait c (ai_pane_id info) (sn_kind (ai_agent info)) until True False deadline st
                  in (bind_ok r (\<lambda>_. Inr None), st)))"

definition agent_wait ::
  "nat \<Rightarrow> u64 \<Rightarrow> rstr \<Rightarrow> agent_state list \<Rightarrow> u64 \<Rightarrow> ('set, 'git) runtime
   \<Rightarrow> (agent_error + agent_response option) \<times> ('set, 'git) runtime" where
  "agent_wait now c target until timeout_ms st =
     (case bind_ok (wait_deadline now timeout_ms) (\<lambda>deadline.
           bind_ok (validate_until (Some until)) (\<lambda>_.
           bind_ok (resolve_agent st target) (\<lambda>info.
           bind_ok (reports_state (sn_kind (ai_agent info))) (\<lambda>_. Inr (info, deadline))))) of
        Inl e \<Rightarrow> (Inl e, st)
      | Inr (info, deadline) \<Rightarrow>
          let (r, st) = add_agent_wait c (ai_pane_id info) (sn_kind (ai_agent info)) until False False deadline st
          in (bind_ok r (\<lambda>_. Inr None), st))"

definition agent_list :: "('set, 'git) runtime \<Rightarrow> agent_info list" where
  "agent_list st =
     (let panes = map fst (ac_live (rt_control st)) @ map fst (ac_names (rt_control st)) in
      List.map_filter (agent_info_of st) (map PaneId (remdups (sort (map pane_u64 panes)))))"

fun agent_request ::
  "(('set, 'git, 'r) server_message \<Rightarrow> bytes option) \<Rightarrow> (pane_id \<Rightarrow> agent_kind option) \<Rightarrow> typed \<Rightarrow> nat \<Rightarrow> u64
   \<Rightarrow> agent_installation list \<Rightarrow> (u64 \<times> typed) option \<Rightarrow> agent_command \<Rightarrow> ('set, 'git) runtime
   \<Rightarrow> (agent_error + agent_response option) \<times> ('set, 'git) runtime" where
  "agent_request enc running typed now c installations launch Available st = (Inr (Some (AgentAvailable installations)), st)"
| "agent_request enc running typed now c installations launch Hooks st = (Inl (str_lit ''invalid_agent_request''), st)"
| "agent_request enc running typed now c installations launch ListAgents st = (Inr (Some (AgentList (agent_list st))), st)"
| "agent_request enc running typed now c installations launch (Start name kind p args timeout_ms) st =
     agent_start enc now c launch name kind p args timeout_ms st"
| "agent_request enc running typed now c installations launch (Prompt target content until timeout_ms) st =
     agent_prompt running typed now c target content until timeout_ms st"
| "agent_request enc running typed now c installations launch (Wait target until timeout_ms) st =
     agent_wait now c target until timeout_ms st"

definition handle_agent ::
  "(('set, 'git, 'r) server_message \<Rightarrow> bytes option) \<Rightarrow> (pane_id \<Rightarrow> agent_kind option) \<Rightarrow> typed \<Rightarrow> nat \<Rightarrow> u64
   \<Rightarrow> agent_installation list \<Rightarrow> (u64 \<times> typed) option \<Rightarrow> agent_command \<Rightarrow> ('set, 'git) runtime \<Rightarrow> ('set, 'git) runtime" where
  "handle_agent enc running typed now c installations launch command st =
     (if ac_waiters (rt_control st) c \<noteq> None then reply enc c (Inl (str_lit ''agent_wait_pending'')) st
      else case agent_request enc running typed now c installations launch command st of
        (Inr (Some response), st) \<Rightarrow> reply enc c (Inr response) st
      | (Inr None, st) \<Rightarrow> complete_agent_waits enc running st
      | (Inl e, st) \<Rightarrow> reply enc c (Inl e) st)"

end
