(* ===== verification/Server_Terminals.thy ===== *)
theory Server_Terminals
  imports Agent_Control "HOL-Library.Monad_Syntax"
begin

text \<open>
  What the Server keeps of its terminals, and what it tells the Clients when that changes
  (\<open>server/terminal_state.rs\<close>, the critical sections of \<open>server/terminal_monitor.rs\<close>, and the working
  directories and resumes of \<open>server/recovery.rs\<close> and \<open>server/agents.rs\<close>). What is only written to a
  terminal (focus reports, colours, key modes) and pushes to phones leave no state here. \<open>None\<close> is the
  panic of an event over the frame limit.
\<close>

section \<open>Events in the background\<close>

type_synonym ('set, 'git, 'r) encode = "('set, 'git, 'r) server_message \<Rightarrow> bytes option"

definition publish_background ::
  "('set, 'git, 'r) encode \<Rightarrow> ('set, 'git) session_event \<Rightarrow> ('set, 'git) runtime \<Rightarrow> ('set, 'git) runtime option" where
  "publish_background enc event st = map_option snd (publish_event enc event None st)"

definition set_agent_unseen ::
  "('set, 'git, 'r) encode \<Rightarrow> pane_id \<Rightarrow> bool \<Rightarrow> ('set, 'git) runtime \<Rightarrow> ('set, 'git) runtime option" where
  "set_agent_unseen enc p unseen st =
     (if unseen = (p \<in> rt_unseen st) then Some st
      else publish_background enc (AgentUnseenChanged p unseen)
             (st\<lparr>rt_unseen := (if unseen then insert p (rt_unseen st) else rt_unseen st - {p})\<rparr>))"

definition clear_bell ::
  "('set, 'git, 'r) encode \<Rightarrow> pane_id \<Rightarrow> ('set, 'git) runtime \<Rightarrow> ('set, 'git) runtime option" where
  "clear_bell enc p st =
     (if p \<in> rt_bells st
      then publish_background enc (TerminalAttentionChanged p False) (st\<lparr>rt_bells := rt_bells st - {p}\<rparr>)
      else Some st)"

definition clear_unseen ::
  "('set, 'git, 'r) encode \<Rightarrow> pane_id \<Rightarrow> ('set, 'git) runtime \<Rightarrow> ('set, 'git) runtime option" where
  "clear_unseen enc p st = do {st \<leftarrow> clear_bell enc p st; set_agent_unseen enc p False st}"

definition forget_agent ::
  "('set, 'git, 'r) encode \<Rightarrow> pane_id \<Rightarrow> ('set, 'git) runtime \<Rightarrow> ('set, 'git) runtime option" where
  "forget_agent enc p st =
     (if rt_agents st p = None then Some st
      else do {
        st \<leftarrow> publish_background enc (AgentChanged p None) (st\<lparr>rt_agents := (rt_agents st)(p := None)\<rparr>);
        set_agent_unseen enc p False st})"

definition clear_title ::
  "('set, 'git, 'r) encode \<Rightarrow> pane_id \<Rightarrow> ('set, 'git) runtime \<Rightarrow> ('set, 'git) runtime option" where
  "clear_title enc p st =
     (if rt_titles st p = None then Some st
      else publish_background enc (TerminalTitleChanged p None) (st\<lparr>rt_titles := (rt_titles st)(p := None)\<rparr>))"

definition clear_progress ::
  "('set, 'git, 'r) encode \<Rightarrow> pane_id \<Rightarrow> ('set, 'git) runtime \<Rightarrow> ('set, 'git) runtime option" where
  "clear_progress enc p st =
     (if rt_progress st p = None then Some st
      else publish_background enc (TerminalProgressChanged p None) (st\<lparr>rt_progress := (rt_progress st)(p := None)\<rparr>))"

definition clear_terminal_reports ::
  "('set, 'git, 'r) encode \<Rightarrow> pane_id \<Rightarrow> ('set, 'git) runtime \<Rightarrow> ('set, 'git) runtime option" where
  "clear_terminal_reports enc p st = do {st \<leftarrow> clear_title enc p st; clear_progress enc p st}"

section \<open>Terminals come and go\<close>

definition next_instance :: "u64 \<Rightarrow> u64" where
  "next_instance n = max (n + 1) 1"

text \<open>A new Terminal with its first view; the answer is its instance.\<close>

definition install_terminal ::
  "('set, 'git, 'r) encode \<Rightarrow> pane_id \<Rightarrow> terminal_view \<Rightarrow> ('set, 'git) runtime \<Rightarrow> (u64 \<times> ('set, 'git) runtime) option" where
  "install_terminal enc p view st =
     (let instance_id = rt_next_instance st;
          st = forget_agent_control p (st\<lparr>rt_next_instance := next_instance instance_id\<rparr>)
      in do {
        st \<leftarrow> clear_terminal_reports enc p st;
        st \<leftarrow> clear_unseen enc p st;
        st \<leftarrow> install_view p view st;
        Some (instance_id, st\<lparr>rt_terminals := List.insert p (rt_terminals st),
          rt_instances := (rt_instances st)(p \<mapsto> instance_id), rt_closing := rt_closing st - {p}\<rparr>)})"

definition terminal_is_current :: "('set, 'git) runtime \<Rightarrow> pane_id \<Rightarrow> u64 \<Rightarrow> bool" where
  "terminal_is_current st p instance_id \<longleftrightarrow> rt_instances st p = Some instance_id"

definition exit_terminal ::
  "('set, 'git, 'r) encode \<Rightarrow> pane_id \<Rightarrow> ('set, 'git) runtime \<Rightarrow> ('set, 'git) runtime option" where
  "exit_terminal enc p st =
     (if p \<in> rt_exited st then Some st
      else publish_background enc (TerminalExited p) (st\<lparr>rt_exited := insert p (rt_exited st)\<rparr>))"

text \<open>The full view of a terminal that could not be restarted; \<open>False\<close> when the Pane is gone or runs one.\<close>

definition restore_exited_terminal ::
  "('set, 'git, 'r) encode \<Rightarrow> pane_id \<Rightarrow> terminal_view \<Rightarrow> ('set, 'git) runtime \<Rightarrow> (bool \<times> ('set, 'git) runtime) option" where
  "restore_exited_terminal enc p view st =
     (if get_pane (rt_session st) p = None \<or> p \<in> set (rt_terminals st) then Some (False, st)
      else
        let st = forget_agent_control p (st\<lparr>rt_instances := (rt_instances st)(p := None)\<rparr>);
            st = st\<lparr>rt_closing := rt_closing st - {p}, rt_terminals := List.insert p (rt_terminals st)\<rparr>
        in do {
          (clients, st) \<leftarrow> publish_terminal p (view_frame.Full view) st;
          st \<leftarrow> exit_terminal enc p st;
          st \<leftarrow> clear_terminal_reports enc p st;
          st \<leftarrow> forget_agent enc p st;
          Some (True, st)})"

section \<open>Focus\<close>

definition clear_terminal_focus :: "('set, 'git) runtime \<Rightarrow> ('set, 'git) runtime" where
  "clear_terminal_focus st = st\<lparr>rt_focused := None\<rparr>"

definition is_focused :: "('set, 'git) runtime \<Rightarrow> pane_id \<Rightarrow> bool" where
  "is_focused st p \<longleftrightarrow> (case rt_focused st of Some (focused, _) \<Rightarrow> focused = p | None \<Rightarrow> False)"

text \<open>Whether the Pane hears of it.\<close>

definition record_terminal_focus ::
  "('set, 'git, 'r) encode \<Rightarrow> pane_id \<Rightarrow> u64 \<Rightarrow> bool \<Rightarrow> ('set, 'git) runtime \<Rightarrow> (bool \<times> ('set, 'git) runtime) option" where
  "record_terminal_focus enc p c focused st =
     (if focused then
        let st = (case rt_focused st of Some (q, _) \<Rightarrow> if q \<noteq> p then clear_terminal_focus st else st | None \<Rightarrow> st);
            st = st\<lparr>rt_focused := Some (p, c), rt_sizing := Some c\<rparr>
        in do {st \<leftarrow> clear_unseen enc p st; Some (True, st)}
      else
        let st = (if rt_sizing st = Some c then st\<lparr>rt_sizing := None\<rparr> else st)
        in if rt_focused st = Some (p, c) then Some (True, st\<lparr>rt_focused := None\<rparr>) else Some (False, st))"

definition release_client_terminal_state :: "u64 \<Rightarrow> ('set, 'git) runtime \<Rightarrow> ('set, 'git) runtime" where
  "release_client_terminal_state c st =
     (let st = (if rt_sizing st = Some c then st\<lparr>rt_sizing := None\<rparr> else st);
          st = (if rt_mouse st = Some c then st\<lparr>rt_mouse := None\<rparr> else st)
      in case rt_focused st of
           Some (_, client) \<Rightarrow> if client = c then clear_terminal_focus st else st
         | None \<Rightarrow> st)"

text \<open>A connection that ends.\<close>

definition client_leaves :: "u64 \<Rightarrow> ('set, 'git) runtime \<Rightarrow> ('set, 'git) runtime" where
  "client_leaves c st =
     (let st = set_control (\<lambda>ac. ac\<lparr>ac_waiters := (ac_waiters ac)(c := None)\<rparr>) st;
          st = remove_subscriber c st
      in release_client_terminal_state c (st\<lparr>rt_watched := (rt_watched st)(c := None)\<rparr>))"

section \<open>Working directories and resumes\<close>

definition put_cwd :: "session \<Rightarrow> pane_id \<Rightarrow> path option \<Rightarrow> session option" where
  "put_cwd s p cwd = map_option snd (set_pane_cwd s p cwd)"

text \<open>The first loop: the Session with every new directory, and the changes. The paths modelled are UTF-8.\<close>

fun cwd_updates :: "(pane_id \<times> path) list \<Rightarrow> session \<Rightarrow> (session \<times> (pane_id \<times> path) list) option" where
  "cwd_updates [] s = Some (s, [])"
| "cwd_updates ((p, cwd) # cwds) s =
     (case get_pane s p of
        None \<Rightarrow> cwd_updates cwds s
      | Some pane \<Rightarrow>
          if p_cwd pane = Some cwd then cwd_updates cwds s
          else do {
            s \<leftarrow> put_cwd s p (Some cwd);
            (s, updates) \<leftarrow> cwd_updates cwds s;
            Some (s, (p, cwd) # updates)})"

text \<open>The second: each change by itself, taken back when the Snapshot grows too large.\<close>

fun cwd_accept ::
  "(session_snapshot \<Rightarrow> bool) \<Rightarrow> (pane_id \<times> path) list \<Rightarrow> session \<Rightarrow> (session \<times> bool) option" where
  "cwd_accept persistable [] s = Some (s, False)"
| "cwd_accept persistable ((p, cwd) # updates) s =
     (let previous = Option.bind (get_pane s p) p_cwd in do {
        new \<leftarrow> put_cwd s p (Some cwd);
        snapshot \<leftarrow> session_to_snapshot new;
        if persistable snapshot
        then do {(s, _) \<leftarrow> cwd_accept persistable updates new; Some (s, True)}
        else do {s \<leftarrow> put_cwd new p previous; cwd_accept persistable updates s}})"

definition record_terminal_cwds ::
  "(session_snapshot \<Rightarrow> bool) \<Rightarrow> (pane_id \<times> path) list \<Rightarrow> ('set, 'git) runtime \<Rightarrow> (bool \<times> ('set, 'git) runtime) option" where
  "record_terminal_cwds persistable cwds st = do {
     (candidate, updates) \<leftarrow> cwd_updates cwds (rt_session st);
     if updates = [] then Some (False, st)
     else do {
       snapshot \<leftarrow> session_to_snapshot candidate;
       if persistable snapshot then Some (True, st\<lparr>rt_session := candidate\<rparr>)
       else do {
         (candidate, accepted) \<leftarrow> cwd_accept persistable updates (rt_session st);
         if accepted then Some (True, st\<lparr>rt_session := candidate\<rparr>) else Some (False, st)}}}"

definition record_terminal_cwd_observations ::
  "(session_snapshot \<Rightarrow> bool) \<Rightarrow> (pane_id \<times> u64 \<times> path option) list \<Rightarrow> ('set, 'git) runtime
   \<Rightarrow> (bool \<times> ('set, 'git) runtime) option" where
  "record_terminal_cwd_observations persistable observations st =
     record_terminal_cwds persistable
       (List.map_filter (\<lambda>(p, instance_id, cwd).
            if terminal_is_current st p instance_id \<and> p \<notin> rt_closing st \<and> p \<notin> rt_exited st
            then map_option (\<lambda>cwd. (p, cwd)) cwd else None) observations) st"

definition record_agent_resume ::
  "(session_snapshot \<Rightarrow> bool) \<Rightarrow> pane_id \<Rightarrow> agent_resume option \<Rightarrow> ('set, 'git) runtime \<Rightarrow> ('set, 'git) runtime option" where
  "record_agent_resume persistable p resume st =
     (let resume = (if p \<in> rt_exited st then None else resume);
          previous = Option.bind (get_pane (rt_session st) p) p_resume
      in do {
        (changed, session) \<leftarrow> set_pane_agent_resume (rt_session st) p resume;
        if \<not> changed then Some (st\<lparr>rt_session := session\<rparr>)
        else do {
          snapshot \<leftarrow> session_to_snapshot session;
          if persistable snapshot then Some (st\<lparr>rt_session := session\<rparr>)
          else do {
            (_, session) \<leftarrow> set_pane_agent_resume session p previous;
            Some (st\<lparr>rt_session := session\<rparr>)}}})"

section \<open>The monitor of a terminal\<close>

definition agent_done :: "agent_snapshot option \<Rightarrow> bool" where
  "agent_done agent \<longleftrightarrow> (case agent of Some agent \<Rightarrow> sn_state agent = Done | None \<Rightarrow> False)"

text \<open>What becomes of the Pane's unseen mark; \<open>None\<close> leaves it.\<close>

definition unseen_after ::
  "('set, 'git) runtime \<Rightarrow> pane_id \<Rightarrow> agent_snapshot option \<Rightarrow> agent_snapshot option \<Rightarrow> bool option" where
  "unseen_after st p previous nxt =
     (if \<not> agent_done nxt then Some False
      else if \<not> agent_done previous then Some (\<not> is_focused st p)
      else None)"

definition apply_agent_refresh ::
  "('set, 'git, 'r) encode \<Rightarrow> (pane_id \<Rightarrow> agent_kind option) \<Rightarrow> pane_id \<Rightarrow> agent_snapshot option \<Rightarrow> ('set, 'git) runtime
   \<Rightarrow> ('set, 'git) runtime option" where
  "apply_agent_refresh enc running p nxt st =
     (let previous = rt_agents st p in
      if previous = nxt then Some (complete_agent_waits enc running st)
      else do {
        let unseen = unseen_after st p previous nxt;
        st \<leftarrow> publish_background enc (AgentChanged p nxt) (st\<lparr>rt_agents := (rt_agents st)(p := nxt)\<rparr>);
        st \<leftarrow> (case unseen of Some unseen \<Rightarrow> set_agent_unseen enc p unseen st | None \<Rightarrow> Some st);
        Some (agent_state_changed enc running p st)})"

text \<open>One tick of the probe thread, once it has something to say and the lock.\<close>

definition probe_update ::
  "('set, 'git, 'r) encode \<Rightarrow> (session_snapshot \<Rightarrow> bool) \<Rightarrow> (pane_id \<Rightarrow> agent_kind option) \<Rightarrow> pane_id \<Rightarrow> u64
   \<Rightarrow> path option \<Rightarrow> agent_resume option option \<Rightarrow> agent_kind option \<Rightarrow> agent_snapshot option option
   \<Rightarrow> ('set, 'git) runtime \<Rightarrow> ('set, 'git) runtime option" where
  "probe_update enc persistable running p instance_id cwd resume agent update st =
     (if \<not> terminal_is_current st p instance_id then Some st
      else do {
        st \<leftarrow> (case cwd of Some cwd \<Rightarrow> map_option snd (record_terminal_cwds persistable [(p, cwd)] st) | None \<Rightarrow> Some st);
        st \<leftarrow> (case resume of Some resume \<Rightarrow> record_agent_resume persistable p resume st | None \<Rightarrow> Some st);
        (case update of
           Some nxt \<Rightarrow> apply_agent_refresh enc running p nxt (agent_process_update p agent st)
         | None \<Rightarrow> Some st)})"

text \<open>After a panic of the probe the Pane's Agent shows as Unknown.\<close>

definition probe_panicked ::
  "('set, 'git, 'r) encode \<Rightarrow> (pane_id \<Rightarrow> agent_kind option) \<Rightarrow> pane_id \<Rightarrow> u64 \<Rightarrow> ('set, 'git) runtime
   \<Rightarrow> ('set, 'git) runtime option" where
  "probe_panicked enc running p instance_id st =
     (case rt_agents st p of
        Some agent \<Rightarrow>
          if terminal_is_current st p instance_id
          then apply_agent_refresh enc running p (Some (agent\<lparr>sn_state := Unknown, sn_detail := None\<rparr>)) st
          else Some st
      | None \<Rightarrow> Some st)"

record notice_batch =
  nb_title :: "rstr option option"
  nb_bells :: nat
  nb_clipboard :: "rstr option"
  nb_notifications :: "(rstr option \<times> rstr) list"
  nb_finished_commands :: "(32 word option \<times> u64) list"
  nb_progress :: "terminal_progress option option"

fun publish_all ::
  "('set, 'git, 'r) encode \<Rightarrow> ('set, 'git) session_event list \<Rightarrow> ('set, 'git) runtime \<Rightarrow> ('set, 'git) runtime option" where
  "publish_all enc [] st = Some st"
| "publish_all enc (event # events) st = do {st \<leftarrow> publish_background enc event st; publish_all enc events st}"

definition note_title ::
  "('set, 'git, 'r) encode \<Rightarrow> pane_id \<Rightarrow> rstr option option \<Rightarrow> ('set, 'git) runtime \<Rightarrow> ('set, 'git) runtime option" where
  "note_title enc p title st =
     (case title of
        None \<Rightarrow> Some st
      | Some title \<Rightarrow>
          let previous = rt_titles st p; st = st\<lparr>rt_titles := (rt_titles st)(p := title)\<rparr> in
          if previous \<noteq> title then publish_background enc (TerminalTitleChanged p title) st else Some st)"

definition note_bell ::
  "('set, 'git, 'r) encode \<Rightarrow> pane_id \<Rightarrow> nat \<Rightarrow> ('set, 'git) runtime \<Rightarrow> ('set, 'git) runtime option" where
  "note_bell enc p bells st =
     (if 0 < bells \<and> \<not> is_focused st p \<and> p \<notin> rt_bells st
      then publish_background enc (TerminalAttentionChanged p True) (st\<lparr>rt_bells := insert p (rt_bells st)\<rparr>)
      else Some st)"

definition note_progress ::
  "('set, 'git, 'r) encode \<Rightarrow> pane_id \<Rightarrow> terminal_progress option option \<Rightarrow> ('set, 'git) runtime \<Rightarrow> ('set, 'git) runtime option" where
  "note_progress enc p progress st =
     (case progress of
        None \<Rightarrow> Some st
      | Some progress \<Rightarrow>
          let previous = rt_progress st p; st = st\<lparr>rt_progress := (rt_progress st)(p := progress)\<rparr> in
          if previous \<noteq> progress then publish_background enc (TerminalProgressChanged p progress) st else Some st)"

definition apply_terminal_notices ::
  "('set, 'git, 'r) encode \<Rightarrow> pane_id \<Rightarrow> notice_batch \<Rightarrow> ('set, 'git) runtime \<Rightarrow> ('set, 'git) runtime option" where
  "apply_terminal_notices enc p notices st = do {
     st \<leftarrow> note_title enc p (nb_title notices) st;
     st \<leftarrow> note_bell enc p (nb_bells notices) st;
     let st = (case nb_clipboard notices of Some content \<Rightarrow> broadcast_clipboard enc p content st | None \<Rightarrow> st);
     let reporting_agent = (case rt_agents st p of Some agent \<Rightarrow> sn_state agent \<noteq> Unknown | None \<Rightarrow> False);
     st \<leftarrow> (if reporting_agent then Some st
           else publish_all enc (map (\<lambda>(title, body). TerminalNotification p title body) (nb_notifications notices)) st);
     st \<leftarrow> publish_all enc (map (\<lambda>(exit_code, secs). CommandFinished p exit_code secs) (nb_finished_commands notices)) st;
     note_progress enc p (nb_progress notices) st}"

definition take_notices ::
  "('set, 'git, 'r) encode \<Rightarrow> pane_id \<Rightarrow> u64 \<Rightarrow> notice_batch \<Rightarrow> ('set, 'git) runtime \<Rightarrow> (bool \<times> ('set, 'git) runtime) option" where
  "take_notices enc p instance_id notices st =
     (if \<not> terminal_is_current st p instance_id then Some (False, st)
      else map_option (Pair True) (apply_terminal_notices enc p notices st))"

text \<open>A frame of the terminal, or its whole view where the frame fits no retained one. Between the two the lock
  is free; here nothing else runs then.\<close>

definition publish_terminal_frame ::
  "pane_id \<Rightarrow> u64 \<Rightarrow> view_frame \<Rightarrow> terminal_view \<Rightarrow> ('set, 'git) runtime \<Rightarrow> (u64 set option \<times> ('set, 'git) runtime) option" where
  "publish_terminal_frame p instance_id frame whole st =
     (if \<not> terminal_is_current st p instance_id then Some (None, st)
      else do {
        (clients, st) \<leftarrow> publish_terminal p frame st;
        if clients = None then publish_terminal p (view_frame.Full whole) st else Some (clients, st)})"

text \<open>The end of a terminal, in two critical sections around closing it.\<close>

definition end_terminal_begin :: "pane_id \<Rightarrow> u64 \<Rightarrow> ('set, 'git) runtime \<Rightarrow> bool \<times> ('set, 'git) runtime" where
  "end_terminal_begin p instance_id st =
     (if \<not> terminal_is_current st p instance_id then (False, st)
      else (p \<in> set (rt_terminals st),
        st\<lparr>rt_instances := (rt_instances st)(p := None), rt_closing := insert p (rt_closing st),
           rt_terminals := filter (\<lambda>q. q \<noteq> p) (rt_terminals st)\<rparr>))"

definition end_terminal_finish ::
  "('set, 'git, 'r) encode \<Rightarrow> (session_snapshot \<Rightarrow> bool) \<Rightarrow> pane_id \<Rightarrow> u64 \<Rightarrow> terminal_view \<Rightarrow> path option
   \<Rightarrow> ('set, 'git) runtime \<Rightarrow> ('set, 'git) runtime option" where
  "end_terminal_finish enc persistable p instance_id final_view cwd st =
     (if get_pane (rt_session st) p = None \<or> p \<in> set (rt_terminals st) then Some st
      else
        let st = st\<lparr>rt_terminals := List.insert p (rt_terminals st), rt_instances := (rt_instances st)(p \<mapsto> instance_id),
                   rt_closing := rt_closing st - {p}\<rparr>
        in do {
          (clients, st) \<leftarrow> publish_terminal p (view_frame.Full final_view) st;
          st \<leftarrow> (case cwd of Some cwd \<Rightarrow> map_option snd (record_terminal_cwds persistable [(p, cwd)] st) | None \<Rightarrow> Some st);
          st \<leftarrow> record_agent_resume persistable p None (st\<lparr>rt_exited := insert p (rt_exited st)\<rparr>);
          st \<leftarrow> publish_background enc (TerminalExited p) (forget_agent_control p st);
          st \<leftarrow> clear_terminal_reports enc p st;
          forget_agent enc p st})"

end
