(* ===== verification/Server_Layout.thy ===== *)
theory Server_Layout
  imports Server_Terminals Session_Panes
begin

text \<open>
  Changes of the structure (\<open>server/layout.rs\<close>, \<open>server/layout/operation.rs\<close>): a command edits a copy of the
  Session, and only a copy whose Snapshot can be saved replaces it; what belonged to closed Panes goes,
  a new Pane gets its Terminal, and every Client learns of it in one event. Git, the file system and
  starting a shell are outside: \<open>spawn\<close> answers a new Terminal's first view. Reasons are kept short.
\<close>

section \<open>Commands\<close>

datatype layout_command =
    CreateWorkspace path "rstr option"
  | CreateWorkspaceDirectory path rstr "rstr option" "rstr option"
  | CreateWorktree workspace_id rstr
  | OpenWorktree workspace_id path
  | RemoveWorktree workspace_id
  | CreateTab workspace_id "rstr option" "pane_id option"
  | RenameWorkspace workspace_id rstr
  | RenameTab tab_id rstr
  | ActivateWorkspace workspace_id
  | ActivateTab tab_id
  | MoveWorkspace workspace_id u32
  | MoveTab tab_id u32
  | SplitPane pane_id split_direction bool
  | FocusPane pane_id
  | FocusPaneDirection pane_id pane_direction
  | ResizePane pane_id pane_direction f32
  | SetSplitRatios tab_id "f32 list"
  | SwapPane pane_id pane_direction
  | SwapPanes pane_id pane_id
  | MovePane pane_id pane_id pane_direction
  | TogglePaneZoom pane_id
  | ClosePane pane_id
  | CloseTab tab_id
  | CloseWorkspace workspace_id
  | ShowDiff workspace_id rstr
  | ShowFile workspace_id rstr

text \<open>What the match over the command comes to: an early return, or the edited copy with the new Pane, what was
  closed, the result, and whether the focus stays.\<close>

datatype layout_plan =
    Refused rstr
  | Activates workspace_id "tab_id option"
  | Edits session "pane_id option" "close_outcome option" layout_result bool

definition refuse :: "string \<Rightarrow> layout_plan" where "refuse reason = Refused (str_lit reason)"

definition edits :: "session \<Rightarrow> layout_plan" where "edits s = Edits s None None LayoutChangedResult False"

definition edits_when :: "string \<Rightarrow> bool \<times> session \<Rightarrow> layout_plan" where
  "edits_when reason r = (if fst r then edits (snd r) else refuse reason)"

text \<open>The first Tab of a new Workspace and its Pane, each expected.\<close>

definition opens_on :: "session \<Rightarrow> workspace_id \<Rightarrow> (tab_id \<times> pane_id) option" where
  "opens_on s wid = do {
     w \<leftarrow> find_workspace s wid;
     t \<leftarrow> (case w_tabs w of [] \<Rightarrow> None | t # _ \<Rightarrow> Some t);
     focused \<leftarrow> tab_focused_pane t;
     pane \<leftarrow> focused;
     Some (t_id t, p_id pane)}"

definition workspace_of_tab :: "session \<Rightarrow> tab_id \<Rightarrow> workspace option" where
  "workspace_of_tab s tid = find (\<lambda>w. list_ex (\<lambda>t. t_id t = tid) (w_tabs w)) (workspaces s)"

definition plan_workspace :: "path \<Rightarrow> rstr option \<Rightarrow> session \<Rightarrow> u64 \<Rightarrow> (layout_plan \<times> u64) option" where
  "plan_workspace root name s nxt =
     (case create_workspace s nxt root of
        (None, _, nxt) \<Rightarrow> Some (refuse ''Session Workspace limit reached'', nxt)
      | (Some wid, s, nxt) \<Rightarrow>
          let (named, s) = (case name of Some name \<Rightarrow> rename_workspace s wid name | None \<Rightarrow> (True, s)) in
          if \<not> named then Some (refuse ''empty Workspace name'', nxt)
          else do {
            (tid, p) \<leftarrow> opens_on s wid;
            Some (Edits s (Some p) None (WorkspaceCreated wid tid p) False, nxt)})"

definition plan_tab :: "workspace_id \<Rightarrow> rstr option \<Rightarrow> pane_id option \<Rightarrow> session \<Rightarrow> u64 \<Rightarrow> (layout_plan \<times> u64) option" where
  "plan_tab wid name cwd_from s nxt =
     (case create_tab s nxt wid cwd_from of
        (None, _, nxt) \<Rightarrow> Some (refuse ''unknown Workspace or Session Tab limit reached'', nxt)
      | (Some tid, s, nxt) \<Rightarrow> do {
          t \<leftarrow> find_tab s tid;
          focused \<leftarrow> tab_focused_pane t;
     pane \<leftarrow> focused;
          let (named, s) = (case name of Some name \<Rightarrow> rename_tab s tid name | None \<Rightarrow> (True, s));
          Some (if named then Edits s (Some (p_id pane)) None (TabCreated tid (p_id pane)) False
                else refuse ''empty Tab name'', nxt)})"

definition plan_split :: "pane_id \<Rightarrow> split_direction \<Rightarrow> bool \<Rightarrow> session \<Rightarrow> u64 \<Rightarrow> (layout_plan \<times> u64) option" where
  "plan_split p direction focus s nxt = do {
     (new_pane, s, nxt) \<leftarrow> split_pane s nxt p direction ratio_half;
     Some (case new_pane of
         None \<Rightarrow> refuse ''unknown Pane or Session Pane/layout depth limit reached''
       | Some q \<Rightarrow> Edits s (Some q) None (PaneCreated q) (\<not> focus), nxt)}"

definition plan_pane :: "session \<Rightarrow> pane_id \<Rightarrow> (bool \<times> session) option \<Rightarrow> layout_plan option" where
  "plan_pane s p r = (if get_pane s p = None then Some (refuse ''unknown Pane'') else map_option (edits \<circ> snd) r)"

definition plan_resize :: "pane_id \<Rightarrow> pane_direction \<Rightarrow> f32 \<Rightarrow> session \<Rightarrow> layout_plan option" where
  "plan_resize p direction amount s =
     (if get_pane s p = None then Some (refuse ''unknown Pane'')
      else if \<not> f32_is_finite amount \<or> f32_le amount f32_zero
      then Some (refuse ''Pane resize amount must be a positive finite number'')
      else map_option (edits \<circ> snd) (resize_pane s p direction amount))"

definition plan_ratios :: "tab_id \<Rightarrow> f32 list \<Rightarrow> session \<Rightarrow> layout_plan option" where
  "plan_ratios tid ratios s =
     (case find_tab s tid of
        None \<Rightarrow> Some (refuse ''unknown Tab'')
      | Some t \<Rightarrow>
          if tab_terminals t = None then Some (refuse ''a viewer Tab has no Panes to size'')
          else if list_ex (\<lambda>r. \<not> f32_is_finite r) ratios then Some (refuse ''split ratios must be finite'')
          else if length ratios \<noteq> length (tab_panes t) - 1
          then Some (refuse ''split ratio count does not match the Tab layout'')
          else map_option (edits \<circ> snd) (set_tab_split_ratios s tid ratios))"

definition plan_pair :: "string \<Rightarrow> session \<Rightarrow> pane_id \<Rightarrow> pane_id \<Rightarrow> (bool \<times> session) option \<Rightarrow> layout_plan option" where
  "plan_pair reason s p q r =
     (if get_pane s p = None \<or> get_pane s q = None then Some (refuse ''unknown Pane'')
      else map_option (edits_when reason) r)"

definition plan_close :: "string \<Rightarrow> close_outcome option \<times> session \<Rightarrow> layout_plan" where
  "plan_close reason r =
     (case r of (None, _) \<Rightarrow> refuse reason | (Some closed, s) \<Rightarrow> Edits s None (Some closed) LayoutChangedResult False)"

definition plan_viewer :: "(tab_id \<Rightarrow> layout_result) \<Rightarrow> tab_id option \<times> session \<times> u64 \<Rightarrow> layout_plan \<times> u64" where
  "plan_viewer result r =
     (case r of
        (None, _, nxt) \<Rightarrow> (refuse ''unknown Workspace, invalid path, or Session Tab limit reached'', nxt)
      | (Some tid, s, nxt) \<Rightarrow> (Edits s None None (result tid) False, nxt))"

definition plan_move_workspace :: "workspace_id \<Rightarrow> u32 \<Rightarrow> session \<Rightarrow> layout_plan" where
  "plan_move_workspace wid target s =
     (if find_workspace s wid = None then refuse ''unknown Workspace''
      else if length (workspaces s) \<le> unat target then refuse ''Workspace target index is out of range''
      else edits (snd (move_workspace s wid (unat target))))"

definition plan_move_tab :: "tab_id \<Rightarrow> u32 \<Rightarrow> session \<Rightarrow> layout_plan" where
  "plan_move_tab tid target s =
     (case workspace_of_tab s tid of
        None \<Rightarrow> refuse ''unknown Tab''
      | Some w \<Rightarrow>
          if length (w_tabs w) \<le> unat target then refuse ''Tab target index is out of range''
          else edits (snd (move_tab s tid (unat target))))"

text \<open>The match of \<open>apply_layout_command\<close>, with the id counter. \<open>None\<close> is a failed \<open>expect\<close>.\<close>

fun layout_plan_of :: "relpath_api \<Rightarrow> layout_command \<Rightarrow> session \<Rightarrow> u64 \<Rightarrow> (layout_plan \<times> u64) option" where
  "layout_plan_of rp (CreateWorkspace root name) s nxt = plan_workspace root name s nxt"
| "layout_plan_of rp (CreateWorkspaceDirectory _ _ _ _) s nxt = Some (refuse ''external layout command was not prepared'', nxt)"
| "layout_plan_of rp (CreateWorktree _ _) s nxt = Some (refuse ''external layout command was not prepared'', nxt)"
| "layout_plan_of rp (OpenWorktree _ _) s nxt = Some (refuse ''external layout command was not prepared'', nxt)"
| "layout_plan_of rp (RemoveWorktree _) s nxt = Some (refuse ''external layout command was not prepared'', nxt)"
| "layout_plan_of rp (CreateTab wid name cwd_from) s nxt = plan_tab wid name cwd_from s nxt"
| "layout_plan_of rp (RenameWorkspace wid name) s nxt =
     Some (edits_when ''unknown Workspace or empty name'' (rename_workspace s wid name), nxt)"
| "layout_plan_of rp (RenameTab tid name) s nxt = Some (edits_when ''unknown Tab or empty name'' (rename_tab s tid name), nxt)"
| "layout_plan_of rp (ActivateWorkspace wid) s nxt =
     Some (if find_workspace s wid = None then refuse ''unknown Workspace'' else Activates wid None, nxt)"
| "layout_plan_of rp (ActivateTab tid) s nxt =
     Some (case workspace_of_tab s tid of None \<Rightarrow> refuse ''unknown Tab'' | Some w \<Rightarrow> Activates (w_id w) (Some tid), nxt)"
| "layout_plan_of rp (MoveWorkspace wid target) s nxt = Some (plan_move_workspace wid target s, nxt)"
| "layout_plan_of rp (MoveTab tid target) s nxt = Some (plan_move_tab tid target s, nxt)"
| "layout_plan_of rp (SplitPane p direction focus) s nxt = plan_split p direction focus s nxt"
| "layout_plan_of rp (FocusPane p) s nxt = map_option (\<lambda>r. (edits_when ''unknown Pane'' r, nxt)) (focus_pane s p)"
| "layout_plan_of rp (FocusPaneDirection p direction) s nxt =
     map_option (\<lambda>plan. (plan, nxt)) (plan_pane s p (focus_pane_in_direction s p direction))"
| "layout_plan_of rp (ResizePane p direction amount) s nxt = map_option (\<lambda>plan. (plan, nxt)) (plan_resize p direction amount s)"
| "layout_plan_of rp (SetSplitRatios tid ratios) s nxt = map_option (\<lambda>plan. (plan, nxt)) (plan_ratios tid ratios s)"
| "layout_plan_of rp (SwapPane p direction) s nxt = map_option (\<lambda>plan. (plan, nxt)) (plan_pane s p (swap_pane s p direction))"
| "layout_plan_of rp (SwapPanes p q) s nxt =
     map_option (\<lambda>plan. (plan, nxt)) (plan_pair ''Panes must differ and share a Tab'' s p q (swap_panes s p q))"
| "layout_plan_of rp (MovePane p q side) s nxt =
     map_option (\<lambda>plan. (plan, nxt))
       (plan_pair ''Panes must differ, share a Tab, and leave the Tab another Pane'' s p q (move_pane s p q side))"
| "layout_plan_of rp (TogglePaneZoom p) s nxt = map_option (\<lambda>plan. (plan, nxt)) (plan_pane s p (toggle_pane_zoom s p))"
| "layout_plan_of rp (ClosePane p) s nxt = map_option (\<lambda>r. (plan_close ''unknown Pane'' r, nxt)) (close_pane s p)"
| "layout_plan_of rp (CloseTab tid) s nxt = Some (plan_close ''unknown Tab'' (close_tab s tid), nxt)"
| "layout_plan_of rp (CloseWorkspace wid) s nxt = Some (plan_close ''unknown Workspace'' (close_workspace s wid), nxt)"
| "layout_plan_of rp (ShowDiff wid p) s nxt = Some (plan_viewer DiffShown (show_diff rp s nxt wid p))"
| "layout_plan_of rp (ShowFile wid p) s nxt = Some (plan_viewer FileShown (show_file rp s nxt wid p))"

section \<open>Committing a copy\<close>

record ('set, 'git) layout_effect =
  le_result :: layout_result
  le_event :: "('set, 'git) session_event"
  le_started :: "(pane_id \<times> u64) list"
  le_removed :: "pane_id list"

text \<open>The loop over a closed Pane's state.\<close>

definition drop_pane :: "pane_id \<Rightarrow> ('set, 'git) runtime \<Rightarrow> ('set, 'git) runtime" where
  "drop_pane p st =
     (let st = forget_agent_control p (st\<lparr>rt_exited := rt_exited st - {p}, rt_closing := rt_closing st - {p},
                 rt_agents := (rt_agents st)(p := None)\<rparr>)
      in st\<lparr>rt_titles := (rt_titles st)(p := None), rt_progress := (rt_progress st)(p := None),
            rt_bells := rt_bells st - {p}, rt_unseen := rt_unseen st - {p}, rt_views := (rt_views st)(p := None),
            rt_instances := (rt_instances st)(p := None), rt_terminals := filter (\<lambda>q. q \<noteq> p) (rt_terminals st)\<rparr>)"

definition closed_panes :: "close_outcome option \<Rightarrow> pane_id list" where
  "closed_panes closed = (case closed of Some closed \<Rightarrow> co_panes closed | None \<Rightarrow> [])"

text \<open>The Session and what hangs on it, before the new Terminal.\<close>

definition adopt_session :: "session \<Rightarrow> pane_id list \<Rightarrow> ('set, 'git) runtime \<Rightarrow> ('set, 'git) runtime" where
  "adopt_session candidate closed st =
     fold drop_pane closed (st\<lparr>rt_session := candidate,
       rt_git := (\<lambda>wid. if find_workspace candidate wid = None then None else rt_git st wid)\<rparr>)"

text \<open>The git watcher also stops watching a closed Workspace, and the Snapshot is scheduled to be saved.\<close>

definition commit_layout_candidate ::
  "('set, 'git, 'r) encode \<Rightarrow> (session_snapshot \<Rightarrow> bool) \<Rightarrow> session \<Rightarrow> close_outcome option
   \<Rightarrow> (pane_id \<times> terminal_view) option \<Rightarrow> ('set, 'git) runtime
   \<Rightarrow> ((rstr + ('set, 'git) layout_effect) \<times> ('set, 'git) runtime) option" where
  "commit_layout_candidate enc persistable candidate closed started st = do {
     snapshot \<leftarrow> session_to_snapshot candidate;
     if \<not> persistable snapshot then Some (Inl (str_lit ''Session Snapshot is too large''), st)
     else do {
       let removed = filter (\<lambda>p. p \<in> set (rt_terminals st)) (closed_panes closed);
       let st = adopt_session candidate (closed_panes closed) st;
       (started, st) \<leftarrow> (case started of
            None \<Rightarrow> Some ([], st)
          | Some (p, view) \<Rightarrow> map_option (\<lambda>(instance_id, st). ([(p, instance_id)], st)) (install_terminal enc p view st));
       event \<leftarrow> layout_changed_event st;
       Some (Inr \<lparr>le_result = LayoutChangedResult, le_event = event, le_started = started, le_removed = removed\<rparr>, st)}}"

definition with_result :: "layout_result \<Rightarrow> rstr + ('set, 'git) layout_effect \<Rightarrow> rstr + ('set, 'git) layout_effect" where
  "with_result result r = (case r of Inl e \<Rightarrow> Inl e | Inr effect \<Rightarrow> Inr (effect\<lparr>le_result := result\<rparr>))"

definition activated :: "workspace_id \<Rightarrow> tab_id option \<Rightarrow> ('set, 'git) layout_effect" where
  "activated wid tid = \<lparr>le_result = LayoutChangedResult, le_event = Activated wid tid, le_started = [], le_removed = []\<rparr>"

text \<open>The first view of a new Pane's Terminal, in its own directory; an error when none can be started.\<close>

type_synonym spawn = "pane_id \<Rightarrow> path \<Rightarrow> rstr + terminal_view"

definition start_terminal :: "spawn \<Rightarrow> session \<Rightarrow> pane_id option \<Rightarrow> rstr + (pane_id \<times> terminal_view) option" where
  "start_terminal spawn s new_pane =
     (case new_pane of
        None \<Rightarrow> Inr None
      | Some p \<Rightarrow>
          (case Option.bind (get_pane s p) p_cwd of
             None \<Rightarrow> Inl (str_lit ''new Pane has no working directory'')
           | Some cwd \<Rightarrow> bind_ok (spawn p cwd) (\<lambda>view. Inr (Some (p, view)))))"

definition apply_layout_command ::
  "('set, 'git, 'r) encode \<Rightarrow> (session_snapshot \<Rightarrow> bool) \<Rightarrow> spawn \<Rightarrow> relpath_api \<Rightarrow> layout_command
   \<Rightarrow> ('set, 'git) runtime \<Rightarrow> u64 \<Rightarrow> ((rstr + ('set, 'git) layout_effect) \<times> ('set, 'git) runtime \<times> u64) option" where
  "apply_layout_command enc persistable spawn rp command st nxt = do {
     (plan, nxt) \<leftarrow> layout_plan_of rp command (rt_session st) nxt;
     (case plan of
        Refused reason \<Rightarrow> Some (Inl reason, st, nxt)
      | Activates wid tid \<Rightarrow> Some (Inr (activated wid tid), st, nxt)
      | Edits candidate new_pane closed result preserve_focus \<Rightarrow>
          let candidate = (if preserve_focus then preserve_focus_from candidate (rt_session st) else candidate) in
          (case start_terminal spawn candidate new_pane of
             Inl reason \<Rightarrow> Some (Inl reason, st, nxt)
           | Inr started \<Rightarrow>
               map_option (\<lambda>(r, st). (with_result result r, st, nxt))
                 (commit_layout_candidate enc persistable candidate closed started st)))}"

end
