(* ===== verification/Layout_Plans.thy ===== *)
theory Layout_Plans
  imports Session_Kept Session_Behaviour Server_Layout
begin

text \<open>
  What every layout command leads to: a Session that satisfies the invariant, with the Panes there
  were less the closed ones and the new one, or nothing.
\<close>

section \<open>The counter only grows\<close>

lemma session_inv_mono: "session_inv rp nxt s \<Longrightarrow> unat nxt \<le> unat nxt' \<Longrightarrow> session_inv rp nxt' s"
  unfolding session_inv_def session_ids_below_def by (meson order_less_le_trans)

lemma reserved_grows: "reserve_ids n nxt = Some (first, nxt') \<Longrightarrow> 0 < unat nxt \<Longrightarrow> 0 < unat n \<Longrightarrow> unat nxt \<le> unat nxt'"
  using reserved_first(2,3) by fastforce

lemma create_workspace_grows: "create_workspace s nxt root = (r, s', nxt') \<Longrightarrow> 0 < unat nxt \<Longrightarrow> unat nxt \<le> unat nxt'"
  by (auto simp: create_workspace_def Let_def dest: reserved_grows split: if_splits option.splits)

lemma create_tab_grows: "create_tab s nxt wid from = (r, s', nxt') \<Longrightarrow> 0 < unat nxt \<Longrightarrow> unat nxt \<le> unat nxt'"
  by (auto simp: create_tab_def Let_def dest: reserved_grows split: if_splits option.splits)

lemma show_viewer_grows:
  "show_viewer rp s nxt wid content name = (r, s', nxt') \<Longrightarrow> 0 < unat nxt \<Longrightarrow> unat nxt \<le> unat nxt'"
  by (auto simp: show_viewer_def Let_def dest: reserved_grows split: if_splits option.splits)

lemma split_pane_grows:
  assumes "split_pane s nxt p d r = Some (q, s', nxt')" and "0 < unat nxt"
  shows "unat nxt \<le> unat nxt'"
proof (cases q)
  case (Some x)
  from assms(1) [unfolded this] show ?thesis
    by (rule split_pane_Some) (use reserved_grows [OF _ assms(2)] in simp)
qed (use split_pane_refused(2) assms(1) in force)

section \<open>A new Workspace or Tab opens on its Pane\<close>

lemma opens_on_set_workspace:
  assumes i: "position (\<lambda>w. w_id w = wid) (workspaces s) = Some i"
    and w: "w_id w' = wid" "w_tabs w' = w_tabs (workspaces s ! i)"
  shows "opens_on (set_workspace i w' s) wid = opens_on s wid"
proof -
  have "find_workspace s wid = Some (workspaces s ! i)"
    using position_find [OF i] by (simp add: find_workspace_def)
  then show ?thesis
    using find_workspace_set(1) [OF i, of w'] position_satD [OF i] w by (simp add: opens_on_def)
qed

lemma opens_on_rename:
  assumes "rename_workspace s wid name = (r, s')"
  shows "opens_on s' wid = opens_on s wid"
proof (cases "s' = s")
  case False
  with assms obtain i where "position (\<lambda>w. w_id w = wid) (workspaces s) = Some i"
    and "s' = set_workspace i ((workspaces s ! i)\<lparr>w_name := trim name\<rparr>) s"
    by (auto simp: rename_workspace_def split: if_splits option.splits)
  with opens_on_set_workspace [of wid s i "(workspaces s ! i)\<lparr>w_name := trim name\<rparr>"] show ?thesis
    using position_satD by fastforce
qed simp

lemma opens_on_associate:
  assumes "associate_worktree s wid parent root m base = (r, s')"
  shows "opens_on s' wid = opens_on s wid"
proof (cases "s' = s")
  case False
  with assms obtain i where i: "position (\<lambda>w. w_id w = wid) (workspaces s) = Some i"
    and s': "s' = set_workspace i ((workspaces s ! i)\<lparr>w_worktree := Some
      \<lparr>wt_parent_id = parent, wt_parent_root = root, wt_managed = m, wt_base_branch = base\<rparr>\<rparr>) s"
    by (auto simp: associate_worktree_def split: if_splits option.splits)
  show ?thesis unfolding s' using position_satD [OF i] by (intro opens_on_set_workspace [OF i]) simp_all
qed simp

lemma opens_on_created:
  assumes "session_inv rp nxt s" and "create_workspace s nxt root = (Some wid, s', nxt')"
  obtains tid q where "opens_on s' wid = Some (tid, q)" and "panes_change s [] (Some q) s'"
    and "wid \<in> set (session_workspace_ids s')"
  using assms
proof (rule create_workspace_change)
  fix first
  assume fresh: "PaneId (first + 2) \<notin> set (session_pane_ids s)" "wid \<notin> set (session_workspace_ids s)"
    and panes: "mset (session_pane_ids s') = add_mset (PaneId (first + 2)) (mset (session_pane_ids s))"
    and ws: "workspaces s' = workspaces s @ [\<lparr>w_id = wid, w_name = workspace_name root, w_root = root,
        w_worktree = None, w_tabs = [\<lparr>t_id = TabId (first + 1), t_name = [],
          t_content = Terminals (single_terminal
            \<lparr>p_id = PaneId (first + 2), p_cwd = Some root, p_resume = None\<rparr>)\<rparr>]\<rparr>]"
  have "find (\<lambda>w. w_id w = wid) (workspaces s) = None"
    using fresh(2) by (auto simp: find_None_iff session_workspace_ids_def)
  then have "opens_on s' wid = Some (TabId (first + 1), PaneId (first + 2))"
    by (simp add: opens_on_def find_workspace_def ws find_append tab_focused_pane_def tab_terminals_def
        single_terminal_def)
  then show thesis
    using added_panes_change [OF fresh(1) panes] ws by (intro that) (simp_all add: session_workspace_ids_def)
qed

section \<open>What a plan owes\<close>

definition kept_focus :: "bool \<Rightarrow> session \<Rightarrow> session \<Rightarrow> session" where
  "kept_focus preserve candidate s = (if preserve then preserve_focus_from candidate s else candidate)"

fun plan_owes :: "relpath_api \<Rightarrow> session \<Rightarrow> u64 \<Rightarrow> layout_plan \<Rightarrow> bool" where
  "plan_owes rp s nxt (Edits candidate new_pane closed result preserve) \<longleftrightarrow>
     session_inv rp nxt (kept_focus preserve candidate s)
     \<and> panes_change s (closed_panes closed) new_pane (kept_focus preserve candidate s)"
| "plan_owes rp s nxt _ \<longleftrightarrow> True"

lemma refuse_owes [simp]: "plan_owes rp s nxt (refuse reason)"
  by (simp add: refuse_def)

lemma edits_owes: "session_inv rp nxt s' \<Longrightarrow> same_panes s s' \<Longrightarrow> plan_owes rp s nxt (edits s')"
  by (simp add: edits_def closed_panes_def kept_focus_def same_panes_change)

lemma edits_when_owes:
  "session_inv rp nxt (snd r) \<Longrightarrow> same_panes s (snd r) \<Longrightarrow> plan_owes rp s nxt (edits_when reason r)"
  by (simp add: edits_when_def edits_owes)

lemma plan_workspace_owes:
  assumes inv: "session_inv rp nxt s"
  shows "\<exists>plan nxt'. plan_workspace root name s nxt = Some (plan, nxt') \<and> unat nxt \<le> unat nxt' \<and> plan_owes rp s nxt' plan"
proof -
  have pos: "0 < unat nxt" using inv by (simp add: session_inv_def)
  obtain r s1 nxt1 where step: "create_workspace s nxt root = (r, s1, nxt1)" by (metis prod_cases3)
  note grows = create_workspace_grows [OF step pos]
  show ?thesis
  proof (cases r)
    case (Some wid)
    note step = step [unfolded Some]
    show ?thesis using inv step
    proof (rule opens_on_created)
      fix tid q assume opens: "opens_on s1 wid = Some (tid, q)" and change: "panes_change s [] (Some q) s1"
      obtain named s2 where named: "(case name of Some name \<Rightarrow> rename_workspace s1 wid name | None \<Rightarrow> (True, s1)) = (named, s2)"
        by (cases "case name of Some name \<Rightarrow> rename_workspace s1 wid name | None \<Rightarrow> (True, s1)") simp
      have "session_inv rp nxt1 s2" "same_panes s1 s2" "opens_on s2 wid = Some (tid, q)"
        using named create_workspace_inv [OF inv step] rename_workspace_inv rename_workspace_panes opens_on_rename opens
        by (auto split: option.splits)
      moreover from this change have "panes_change s [] (Some q) s2"
        using same_panes_set by (simp add: panes_change_def)
      ultimately show ?thesis using grows step named
        by (auto simp: plan_workspace_def closed_panes_def kept_focus_def)
    qed
  qed (use step grows in \<open>simp add: plan_workspace_def\<close>)
qed

lemma find_tab_unique:
  assumes "distinct (session_tab_ids s)" and "t \<in> set (session_tabs s)"
  shows "find_tab s (t_id t) = Some t"
proof -
  obtain j where "j < length (session_tabs s)" "session_tabs s ! j = t" using assms(2) by (metis in_set_conv_nth)
  then show ?thesis using find_unique [of t_id "session_tabs s" j] assms(1) by (simp add: find_tab_def session_tab_ids_def)
qed

lemma plan_tab_owes:
  assumes inv: "session_inv rp nxt s"
  shows "\<exists>plan nxt'. plan_tab wid name from s nxt = Some (plan, nxt') \<and> unat nxt \<le> unat nxt' \<and> plan_owes rp s nxt' plan"
proof -
  have pos: "0 < unat nxt" using inv by (simp add: session_inv_def)
  obtain r s1 nxt1 where step: "create_tab s nxt wid from = (r, s1, nxt1)" by (metis prod_cases3)
  note grows = create_tab_grows [OF step pos]
  show ?thesis
  proof (cases r)
    case (Some tid)
    note step = step [unfolded Some]
    show ?thesis using inv step
    proof (rule create_tab_change)
      fix first cwd i
      let ?q = "PaneId (first + 1)"
      let ?t = "\<lparr>t_id = TabId first, t_name = [],
          t_content = Terminals (single_terminal \<lparr>p_id = ?q, p_cwd = Some cwd, p_resume = None\<rparr>)\<rparr>"
      assume tid: "tid = TabId first" and fresh: "?q \<notin> set (session_pane_ids s)"
        and panes: "mset (session_pane_ids s1) = add_mset ?q (mset (session_pane_ids s))"
        and i: "i < length (workspaces s)"
        and s1: "s1 = set_workspace i ((workspaces s ! i)\<lparr>w_tabs := w_tabs (workspaces s ! i) @ [?t]\<rparr>) s"
      note inv1 = create_tab_inv [OF inv step]
      have "?t \<in> set (session_tabs s1)"
        using i unfolding s1 session_tabs_def set_workspace_def
        by (auto intro!: bexI [OF _ set_update_memI [OF i]])
      then have "find_tab s1 tid = Some ?t" using find_tab_unique [OF session_inv_ids(2) [OF inv1]] tid by fastforce
      moreover obtain named s2 where named: "(case name of Some name \<Rightarrow> rename_tab s1 tid name | None \<Rightarrow> (True, s1)) = (named, s2)"
        by (cases "case name of Some name \<Rightarrow> rename_tab s1 tid name | None \<Rightarrow> (True, s1)") simp
      moreover have "session_inv rp nxt1 s2" "same_panes s1 s2"
        using named inv1 rename_tab_inv rename_tab_panes by (auto split: option.splits)
      moreover from this added_panes_change [OF fresh panes] have "panes_change s [] (Some ?q) s2"
        using same_panes_set by (simp add: panes_change_def)
      ultimately show ?thesis using grows step
        by (auto simp: plan_tab_def closed_panes_def kept_focus_def tab_focused_pane_def tab_terminals_def single_terminal_def)
    qed
  qed (use step grows in \<open>simp add: plan_tab_def\<close>)
qed

lemma plan_split_owes:
  assumes inv: "session_inv rp nxt s" and step: "split_pane s nxt p d ratio_half \<noteq> None"
  shows "\<exists>plan nxt'. plan_split p d focus s nxt = Some (plan, nxt') \<and> unat nxt \<le> unat nxt' \<and> plan_owes rp s nxt' plan"
proof -
  have pos: "0 < unat nxt" using inv by (simp add: session_inv_def)
  from step obtain r s1 nxt1 where step: "split_pane s nxt p d ratio_half = Some (r, s1, nxt1)" by (metis not_None_eq prod_cases3)
  note grows = split_pane_grows [OF step pos] and inv1 = split_pane_inv [OF inv step]
  show ?thesis
  proof (cases r)
    case (Some q)
    note step = step [unfolded Some]
    have "panes_change s [] (Some q) s1"
      using split_pane_change [OF inv step] .
    moreover have "session_inv rp nxt1 (preserve_focus_from s1 s)"
      using split_pane_keeps_panes [OF inv step] inv by (intro preserve_focus_from_inv [OF inv1]) (auto simp: session_inv_def)
    ultimately show ?thesis using grows step inv1
      by (simp add: plan_split_def closed_panes_def kept_focus_def panes_change_def preserve_focus_from_panes)
  qed (use step grows in \<open>simp add: plan_split_def\<close>)
qed

lemma plan_close_owes:
  assumes inv: "session_inv rp nxt s" and "session_inv rp nxt (snd r)"
    and "\<And>c. fst r = Some c \<Longrightarrow> closes_exactly s c (snd r)"
  shows "plan_owes rp s nxt (plan_close reason r)"
  using assms closes_panes_change [OF inv]
  by (auto simp: plan_close_def closed_panes_def kept_focus_def split: option.splits prod.splits)

lemma plan_viewer_owes:
  assumes inv: "session_inv rp nxt s" and step: "show_viewer rp s nxt wid content name = r"
    and plan: "plan_viewer result r = (plan, nxt')"
  shows "unat nxt \<le> unat nxt' \<and> plan_owes rp s nxt' plan"
proof -
  obtain t s1 nxt1 where r: "r = (t, s1, nxt1)" by (metis prod_cases3)
  note step = step [unfolded r]
  have pos: "0 < unat nxt" using inv by (simp add: session_inv_def)
  show ?thesis
    using plan r show_viewer_grows [OF step pos] show_viewer_inv [OF inv step] same_panes_change [OF show_viewer_panes [OF inv step]]
    by (auto simp: plan_viewer_def closed_panes_def kept_focus_def split: option.splits)
qed

section \<open>Every command\<close>

text \<open>An operation on Panes that answers whether it changed something.\<close>

lemma plan_pane_owes:
  assumes "session_inv rp nxt s" and "r \<noteq> None"
    and "\<And>c s'. r = Some (c, s') \<Longrightarrow> session_inv rp nxt s' \<and> same_panes s s'"
  shows "\<exists>plan. plan_pane s p r = Some plan \<and> plan_owes rp s nxt plan"
    and "\<exists>plan. plan_pair reason s p q r = Some plan \<and> plan_owes rp s nxt plan"
proof -
  from assms(2) obtain c s' where r: "r = Some (c, s')" by (metis not_None_eq surj_pair)
  from assms(3) [OF r] show "\<exists>plan. plan_pane s p r = Some plan \<and> plan_owes rp s nxt plan"
    and "\<exists>plan. plan_pair reason s p q r = Some plan \<and> plan_owes rp s nxt plan"
    by (simp_all add: plan_pane_def plan_pair_def r edits_owes edits_when_owes)
qed

lemma plan_resize_owes:
  assumes "session_inv rp nxt s" and "resize_pane s p direction amount \<noteq> None"
  shows "\<exists>plan. plan_resize p direction amount s = Some plan \<and> plan_owes rp s nxt plan"
proof -
  from assms(2) obtain c s' where r: "resize_pane s p direction amount = Some (c, s')" by (metis not_None_eq surj_pair)
  show ?thesis
    using resize_pane_inv [OF assms(1) r] resize_pane_panes [OF assms(1) r] by (simp add: plan_resize_def r edits_owes)
qed

lemma plan_ratios_owes:
  assumes "session_inv rp nxt s"
  shows "\<exists>plan. plan_ratios tid ratios s = Some plan \<and> plan_owes rp s nxt plan"
proof -
  obtain c s' where r: "set_tab_split_ratios s tid ratios = Some (c, s')"
    using set_tab_split_ratios_total [of s tid ratios] by (metis not_None_eq surj_pair)
  show ?thesis
    using set_tab_split_ratios_inv [OF assms r] set_tab_split_ratios_panes [OF r]
    by (simp add: plan_ratios_def r edits_owes split: option.splits)
qed

lemma layout_plan_owes:
  assumes inv: "session_inv rp nxt s"
  shows "\<exists>plan nxt'. layout_plan_of rp command s nxt = Some (plan, nxt') \<and> unat nxt \<le> unat nxt' \<and> plan_owes rp s nxt' plan"
proof (cases command)
  case (CreateWorkspace root name) then show ?thesis using plan_workspace_owes [OF inv] by simp
next
  case (CreateTab wid name cwd_from) then show ?thesis using plan_tab_owes [OF inv] by simp
next
  case (SplitPane p d focus)
  then show ?thesis using plan_split_owes [OF inv] pane_operations_total [OF inv] by simp
next
  case (RenameWorkspace wid name)
  then show ?thesis using rename_workspace_inv [OF inv] rename_workspace_panes
    by (cases "rename_workspace s wid name") (auto intro!: edits_when_owes)
next
  case (RenameTab tid name)
  then show ?thesis using rename_tab_inv [OF inv] rename_tab_panes
    by (cases "rename_tab s tid name") (auto intro!: edits_when_owes)
next
  case (MoveWorkspace wid target)
  then show ?thesis using move_workspace_inv [OF inv] move_workspace_panes
    by (cases "move_workspace s wid (unat target)") (auto simp: plan_move_workspace_def intro!: edits_owes)
next
  case (MoveTab tid target)
  then show ?thesis using move_tab_inv [OF inv] move_tab_panes
    by (cases "move_tab s tid (unat target)") (auto simp: plan_move_tab_def intro!: edits_owes split: option.splits)
next
  case (FocusPane p)
  obtain c s' where r: "focus_pane s p = Some (c, s')" using focus_pane_total [of s p] by (metis not_None_eq surj_pair)
  show ?thesis using focus_pane_inv [OF inv r] focus_pane_panes [OF inv r]
    by (simp add: FocusPane r edits_when_owes)
next
  case (FocusPaneDirection p d)
  then show ?thesis using pane_operations_total [OF inv] focus_pane_in_direction_inv [OF inv] focus_pane_in_direction_panes [OF inv]
    using plan_pane_owes(1) [OF inv] by force
next
  case (ResizePane p d amount)
  then show ?thesis using plan_resize_owes [OF inv] pane_operations_total [OF inv] by (force)
next
  case (SetSplitRatios tid ratios)
  then show ?thesis using plan_ratios_owes [OF inv] by force
next
  case (SwapPane p d)
  have "swap_pane s p d \<noteq> None" by (simp add: swap_pane_def swap_edit.no_panic)
  then show ?thesis using swap_pane_inv [OF inv] swap_pane_panes [OF inv] plan_pane_owes(1) [OF inv, of "swap_pane s p d"]
    by (simp add: SwapPane)
next
  case (SwapPanes p q)
  have "swap_panes s p q \<noteq> None" using pane_operations_total [OF inv] by blast
  then show ?thesis using swap_panes_inv [OF inv] swap_panes_panes [OF inv] plan_pane_owes(2) [OF inv, of "swap_panes s p q"]
    by (simp add: SwapPanes)
next
  case (MovePane p q side)
  have "move_pane s p q side \<noteq> None" using pane_operations_total [OF inv] by blast
  then show ?thesis using move_pane_inv [OF inv] move_pane_panes [OF inv] plan_pane_owes(2) [OF inv, of "move_pane s p q side"]
    by (simp add: MovePane)
next
  case (TogglePaneZoom p)
  show ?thesis using toggle_pane_zoom_total [of s p] toggle_pane_zoom_inv [OF inv] toggle_pane_zoom_panes [OF inv]
      plan_pane_owes(1) [OF inv, of "toggle_pane_zoom s p"] by (simp add: TogglePaneZoom)
next
  case (ClosePane p)
  obtain c s' where r: "close_pane s p = Some (c, s')" using close_pane_total [OF inv] by (metis not_None_eq surj_pair)
  show ?thesis using close_pane_inv [OF inv r] close_pane_exactly [OF inv] r
    by (auto simp: ClosePane intro!: plan_close_owes [OF inv])
next
  case (CloseTab tid)
  obtain c s' where r: "close_tab s tid = (c, s')" by (metis surj_pair)
  show ?thesis using close_tab_inv [OF inv r] close_tab_exactly r
    by (auto simp: CloseTab intro!: plan_close_owes [OF inv])
next
  case (CloseWorkspace wid)
  obtain c s' where r: "close_workspace s wid = (c, s')" by (metis surj_pair)
  show ?thesis using close_workspace_inv [OF inv r] close_workspace_exactly r
    by (auto simp: CloseWorkspace intro!: plan_close_owes [OF inv])
next
  case (ShowDiff wid p)
  then show ?thesis using plan_viewer_owes [OF inv] by (cases "plan_viewer DiffShown (show_diff rp s nxt wid p)") (auto simp: show_diff_def)
next
  case (ShowFile wid p)
  then show ?thesis using plan_viewer_owes [OF inv] by (cases "plan_viewer FileShown (show_file rp s nxt wid p)") (auto simp: show_file_def)
qed (auto split: option.splits)

end
