(* ===== verification/Server_External.thy ===== *)
theory Server_External
  imports Server_Layout
begin

text \<open>
  The rest of what changes the shared state: Workspaces on Git worktrees, which need work outside the
  lock between their steps (\<open>server/layout.rs\<close>, \<open>server/layout/operation.rs\<close>), Git status
  (\<open>server/workspace_git.rs\<close>), settings, the answer to a layout request, and the state a Bootstrap
  captures (\<open>server/bootstrap.rs\<close>). What Git and the file system answer is given; the Git data of a
  Workspace is one opaque value.
\<close>

section \<open>Git and settings\<close>

text \<open>What is kept of a Workspace's Git state, as the snapshot that carries its id.\<close>

definition workspace_git_snapshot :: "workspace_id \<Rightarrow> 'git workspace_git \<Rightarrow> 'git workspace_git" where
  "workspace_git_snapshot wid git = git\<lparr>wg_workspace_id := wid\<rparr>"

definition publish_git ::
  "('set, 'git, 'r) encode \<Rightarrow> workspace_id \<Rightarrow> 'git workspace_git option \<Rightarrow> ('set, 'git) runtime \<Rightarrow> ('set, 'git) runtime option" where
  "publish_git enc wid git st =
     (let git = map_option (workspace_git_snapshot wid) git; changed = rt_git st wid \<noteq> git; st = st\<lparr>rt_git := (rt_git st)(wid := git)\<rparr> in
      if changed then publish_background enc (WorkspaceGitChanged wid git) st else Some st)"

definition set_workspace_git ::
  "('set, 'git, 'r) encode \<Rightarrow> workspace_id \<Rightarrow> 'git workspace_git option \<Rightarrow> ('set, 'git) runtime \<Rightarrow> ('set, 'git) runtime option" where
  "set_workspace_git enc wid git st = publish_git enc wid git st"

text \<open>\<open>False\<close> when the Workspace is gone or has moved.\<close>

definition apply_workspace_git_refresh ::
  "('set, 'git, 'r) encode \<Rightarrow> workspace_id \<Rightarrow> path \<Rightarrow> 'git workspace_git option \<Rightarrow> ('set, 'git) runtime
   \<Rightarrow> (bool \<times> ('set, 'git) runtime) option" where
  "apply_workspace_git_refresh enc wid root git st =
     (case find_workspace (rt_session st) wid of
        None \<Rightarrow> Some (False, st)
      | Some w \<Rightarrow> if w_root w \<noteq> root then Some (False, st) else map_option (Pair True) (publish_git enc wid git st))"

definition git_scanned ::
  "('set, 'git, 'r) encode \<Rightarrow> workspace_id \<Rightarrow> path \<Rightarrow> 'git workspace_git option \<Rightarrow> bool \<Rightarrow> ('set, 'git) runtime
   \<Rightarrow> ('set, 'git) runtime option" where
  "git_scanned enc wid root git working_tree_changed st = do {
     (applied, st) \<leftarrow> apply_workspace_git_refresh enc wid root git st;
     if applied \<and> working_tree_changed then publish_background enc (WorkspaceFilesChanged wid) st else Some st}"

definition set_settings ::
  "('set, 'git, 'r) encode \<Rightarrow> 'set \<Rightarrow> u64 option \<Rightarrow> ('set, 'git) runtime \<Rightarrow> (bool \<times> ('set, 'git) runtime) option" where
  "set_settings enc settings origin st =
     (if rt_settings st = settings then Some (False, st)
      else publish_event enc (ServerSettingsChanged settings) origin (st\<lparr>rt_settings := settings\<rparr>))"

section \<open>External layout operations\<close>

datatype 'git prepared_layout =
    PreparedWorkspace path "'git workspace_git option" "rstr option" "rstr option"
  | PreparedWorktree workspace_id path path "'git workspace_git" "rstr option"
  | PreparedOpen workspace_id path path "'git workspace_git"
  | RemovalReady workspace_id path
  | Removal workspace_id

definition CLONE_PROMPT_TIMEOUT :: nat where "CLONE_PROMPT_TIMEOUT = 30000"

definition queue_clone :: "nat \<Rightarrow> pane_id \<Rightarrow> rstr \<Rightarrow> path \<Rightarrow> ('set, 'git) runtime \<Rightarrow> ('set, 'git) runtime" where
  "queue_clone now p url root st =
     st\<lparr>rt_clones := (rt_clones st)(p \<mapsto> \<lparr>pc_url = url, pc_root = root, pc_deadline = now + CLONE_PROMPT_TIMEOUT\<rparr>)\<rparr>"

definition parent_moved :: "session \<Rightarrow> workspace_id \<Rightarrow> path \<Rightarrow> bool" where
  "parent_moved s wid root \<longleftrightarrow> (case find_workspace s wid of None \<Rightarrow> True | Some w \<Rightarrow> w_root w \<noteq> root)"

definition apply_prepared_workspace ::
  "('set, 'git, 'r) encode \<Rightarrow> (session_snapshot \<Rightarrow> bool) \<Rightarrow> spawn \<Rightarrow> relpath_api \<Rightarrow> nat \<Rightarrow> path \<Rightarrow> 'git workspace_git option
   \<Rightarrow> rstr option \<Rightarrow> rstr option \<Rightarrow> ('set, 'git) runtime \<Rightarrow> u64
   \<Rightarrow> ((rstr + ('set, 'git) layout_effect) \<times> ('set, 'git) runtime \<times> u64) option" where
  "apply_prepared_workspace enc persistable spawn rp now root git name clone_url st nxt = do {
     (r, st, nxt) \<leftarrow> apply_layout_command enc persistable spawn rp (CreateWorkspace root name) st nxt;
     (case r of
        Inl reason \<Rightarrow> Some (Inl reason, st, nxt)
      | Inr effect \<Rightarrow>
          (case le_result effect of
             WorkspaceCreated wid tid p \<Rightarrow> do {
               st \<leftarrow> set_workspace_git enc wid git st;
               Some (Inr effect, case clone_url of Some url \<Rightarrow> queue_clone now p url root st | None \<Rightarrow> st, nxt)}
           | _ \<Rightarrow> None))}"

text \<open>A Workspace on the worktree \<open>child_root\<close>, with its association; the Terminal is started in it.\<close>

definition commit_worktree ::
  "('set, 'git, 'r) encode \<Rightarrow> (session_snapshot \<Rightarrow> bool) \<Rightarrow> spawn \<Rightarrow> path \<Rightarrow> 'git workspace_git \<Rightarrow> workspace_id \<Rightarrow> session
   \<Rightarrow> ('set, 'git) runtime \<Rightarrow> u64 \<Rightarrow> ((rstr + ('set, 'git) layout_effect) \<times> ('set, 'git) runtime \<times> u64) option" where
  "commit_worktree enc persistable spawn child_root child wid candidate st nxt = do {
     (tid, p) \<leftarrow> opens_on candidate wid;
     (case spawn p child_root of
        Inl reason \<Rightarrow> Some (Inl reason, st, nxt)
      | Inr view \<Rightarrow> do {
          (r, st) \<leftarrow> commit_layout_candidate enc persistable candidate None (Some (p, view)) st;
          (case r of
             Inl reason \<Rightarrow> Some (Inl reason, st, nxt)
           | Inr effect \<Rightarrow> do {
               st \<leftarrow> set_workspace_git enc wid (Some child) st;
               Some (Inr (effect\<lparr>le_result := WorkspaceCreated wid tid p\<rparr>), st, nxt)})})}"

definition apply_prepared_worktree ::
  "('set, 'git, 'r) encode \<Rightarrow> (session_snapshot \<Rightarrow> bool) \<Rightarrow> spawn \<Rightarrow> workspace_id \<Rightarrow> path \<Rightarrow> path \<Rightarrow> 'git workspace_git
   \<Rightarrow> rstr option \<Rightarrow> ('set, 'git) runtime \<Rightarrow> u64
   \<Rightarrow> ((rstr + ('set, 'git) layout_effect) \<times> ('set, 'git) runtime \<times> u64) option" where
  "apply_prepared_worktree enc persistable spawn parent parent_root child_root child base_branch st nxt =
     (let s = rt_session st in
      if parent_moved s parent parent_root
      then Some (Inl (str_lit ''parent Workspace changed while creating its worktree''), st, nxt)
      else case create_workspace s nxt child_root of
        (None, _, nxt) \<Rightarrow> Some (Inl (str_lit ''Session Workspace limit reached''), st, nxt)
      | (Some wid, s, nxt) \<Rightarrow>
          let (ok, s) = associate_worktree s wid parent parent_root True base_branch in
          if \<not> ok then Some (Inl (str_lit ''failed to associate the created worktree''), st, nxt)
          else do {
            opened \<leftarrow> opens_on s wid;
            snapshot \<leftarrow> session_to_snapshot s;
            if \<not> persistable snapshot then Some (Inl (str_lit ''Session Snapshot is too large''), st, nxt)
            else commit_worktree enc persistable spawn child_root child wid s st nxt})"

definition apply_prepared_open ::
  "('set, 'git, 'r) encode \<Rightarrow> (session_snapshot \<Rightarrow> bool) \<Rightarrow> spawn \<Rightarrow> workspace_id \<Rightarrow> path \<Rightarrow> path \<Rightarrow> 'git workspace_git
   \<Rightarrow> ('set, 'git) runtime \<Rightarrow> u64 \<Rightarrow> ((rstr + ('set, 'git) layout_effect) \<times> ('set, 'git) runtime \<times> u64) option" where
  "apply_prepared_open enc persistable spawn parent parent_root child_root child st nxt =
     (let s = rt_session st in
      if parent_moved s parent parent_root
      then Some (Inl (str_lit ''parent Workspace changed while opening its worktree''), st, nxt)
      else case workspace_by_root s child_root of
        Some w \<Rightarrow>
          let s = (if w_worktree w = None then snd (associate_worktree s (w_id w) parent parent_root False None) else s)
          in do {
            (r, st) \<leftarrow> commit_layout_candidate enc persistable s None None st;
            (case r of
               Inl reason \<Rightarrow> Some (Inl reason, st, nxt)
             | Inr effect \<Rightarrow> do {
                 st \<leftarrow> set_workspace_git enc (w_id w) (Some child) st;
                 Some (Inr (effect\<lparr>le_result := WorkspaceOpened (w_id w)\<rparr>), st, nxt)})}
      | None \<Rightarrow>
          (case create_workspace s nxt child_root of
             (None, _, nxt) \<Rightarrow> Some (Inl (str_lit ''Session Workspace limit reached''), st, nxt)
           | (Some wid, s, nxt) \<Rightarrow>
               let s = snd (associate_worktree s wid parent parent_root False None)
               in commit_worktree enc persistable spawn child_root child wid s st nxt))"

definition managed :: "session \<Rightarrow> workspace_id \<Rightarrow> bool" where
  "managed s wid \<longleftrightarrow> (case Option.bind (find_workspace s wid) w_worktree of Some wt \<Rightarrow> wt_managed wt | None \<Rightarrow> False)"

definition apply_removal ::
  "('set, 'git, 'r) encode \<Rightarrow> (session_snapshot \<Rightarrow> bool) \<Rightarrow> workspace_id \<Rightarrow> ('set, 'git) runtime
   \<Rightarrow> ((rstr + ('set, 'git) layout_effect) \<times> ('set, 'git) runtime) option" where
  "apply_removal enc persistable wid st =
     (if \<not> managed (rt_session st) wid
      then Some (Inl (str_lit ''managed Workspace changed while removing its worktree''), st)
      else case close_workspace (rt_session st) wid of
        (None, _) \<Rightarrow> None
      | (Some closed, s) \<Rightarrow> commit_layout_candidate enc persistable s (Some closed) None st)"

fun apply_prepared_external_layout ::
  "('set, 'git, 'r) encode \<Rightarrow> (session_snapshot \<Rightarrow> bool) \<Rightarrow> spawn \<Rightarrow> relpath_api \<Rightarrow> nat \<Rightarrow> 'git prepared_layout
   \<Rightarrow> ('set, 'git) runtime \<Rightarrow> u64 \<Rightarrow> ((rstr + ('set, 'git) layout_effect) \<times> ('set, 'git) runtime \<times> u64) option" where
  "apply_prepared_external_layout enc persistable spawn rp now (PreparedWorkspace root git name clone_url) st nxt =
     apply_prepared_workspace enc persistable spawn rp now root git name clone_url st nxt"
| "apply_prepared_external_layout enc persistable spawn rp now (PreparedWorktree parent parent_root child_root child base) st nxt =
     apply_prepared_worktree enc persistable spawn parent parent_root child_root child base st nxt"
| "apply_prepared_external_layout enc persistable spawn rp now (PreparedOpen parent parent_root child_root child) st nxt =
     apply_prepared_open enc persistable spawn parent parent_root child_root child st nxt"
| "apply_prepared_external_layout enc persistable spawn rp now (RemovalReady wid child_root) st nxt =
     Some (Inl (str_lit ''worktree removal was not finalized''), st, nxt)"
| "apply_prepared_external_layout enc persistable spawn rp now (Removal wid) st nxt =
     map_option (\<lambda>(r, st). (r, st, nxt)) (apply_removal enc persistable wid st)"

text \<open>Approving a removal takes the Workspace's terminals out, to be closed outside the lock. The answer names
  those stopped, with the directory to restart in unless they had exited.\<close>

definition restart_cwd :: "('set, 'git) runtime \<Rightarrow> path \<Rightarrow> pane_id \<Rightarrow> path option" where
  "restart_cwd st root p =
     (if p \<in> rt_exited st then None
      else Some (case Option.bind (get_pane (rt_session st) p) p_cwd of Some cwd \<Rightarrow> cwd | None \<Rightarrow> root))"

definition stop_terminal :: "pane_id \<Rightarrow> ('set, 'git) runtime \<Rightarrow> ('set, 'git) runtime" where
  "stop_terminal p st =
     (if p \<in> set (rt_terminals st)
      then st\<lparr>rt_terminals := filter (\<lambda>q. q \<noteq> p) (rt_terminals st), rt_instances := (rt_instances st)(p := None),
             rt_closing := insert p (rt_closing st)\<rparr>
      else st)"

definition approve_removal ::
  "workspace_id \<Rightarrow> path \<Rightarrow> ('set, 'git) runtime \<Rightarrow> (rstr + (pane_id \<times> path option) list) \<times> ('set, 'git) runtime" where
  "approve_removal wid child_root st =
     (case find_workspace (rt_session st) wid of
        None \<Rightarrow> (Inl (str_lit ''managed Workspace changed while preparing removal''), st)
      | Some w \<Rightarrow>
          if w_root w \<noteq> child_root \<or> \<not> managed (rt_session st) wid
          then (Inl (str_lit ''managed Workspace changed while preparing removal''), st)
          else
            let panes = filter (\<lambda>p. p \<in> set (rt_terminals st)) (map p_id (concat (map tab_panes (w_tabs w))))
            in (Inr (map (\<lambda>p. (p, restart_cwd st (w_root w) p)) panes), fold stop_terminal panes st))"

fun approve_external_layout ::
  "'git prepared_layout \<Rightarrow> ('set, 'git) runtime \<Rightarrow> (rstr + (pane_id \<times> path option) list) \<times> ('set, 'git) runtime" where
  "approve_external_layout (RemovalReady wid child_root) st = approve_removal wid child_root st"
| "approve_external_layout (PreparedWorktree parent parent_root _ _ _) st =
     (if parent_moved (rt_session st) parent parent_root
      then Inl (str_lit ''parent Workspace changed while preparing its worktree'') else Inr [], st)"
| "approve_external_layout (PreparedOpen parent parent_root _ _) st =
     (if parent_moved (rt_session st) parent parent_root
      then Inl (str_lit ''parent Workspace changed while preparing its worktree'') else Inr [], st)"
| "approve_external_layout _ st = (Inr [], st)"

text \<open>A removal that failed: the terminals restarted are installed, those that could not be are kept as exited.\<close>

fun reinstall_terminals ::
  "('set, 'git, 'r) encode \<Rightarrow> (pane_id \<times> terminal_view) list \<Rightarrow> ('set, 'git) runtime
   \<Rightarrow> (pane_id list \<times> ('set, 'git) runtime) option" where
  "reinstall_terminals enc [] st = Some ([], st)"
| "reinstall_terminals enc ((p, view) # rest) st =
     (if get_pane (rt_session st) p = None \<or> p \<in> set (rt_terminals st) then reinstall_terminals enc rest st
      else
        let had_agent = rt_agents st p \<noteq> None;
            st = st\<lparr>rt_exited := rt_exited st - {p}, rt_agents := (rt_agents st)(p := None)\<rparr>
        in do {
          (instance_id, st) \<leftarrow> install_terminal enc p view st;
          (cleared, st) \<leftarrow> reinstall_terminals enc rest st;
          Some (if had_agent then p # cleared else cleared, st)})"

fun restore_exited_terminals ::
  "('set, 'git, 'r) encode \<Rightarrow> (pane_id \<times> terminal_view) list \<Rightarrow> ('set, 'git) runtime \<Rightarrow> ('set, 'git) runtime option" where
  "restore_exited_terminals enc [] st = Some st"
| "restore_exited_terminals enc ((p, view) # rest) st = do {
     (restored, st) \<leftarrow> restore_exited_terminal enc p view st;
     restore_exited_terminals enc rest st}"

definition restore_failed_removal ::
  "('set, 'git, 'r) encode \<Rightarrow> (session_snapshot \<Rightarrow> bool) \<Rightarrow> bool \<Rightarrow> (pane_id \<times> path) list
   \<Rightarrow> (pane_id \<times> terminal_view) list \<Rightarrow> (pane_id \<times> terminal_view) list \<Rightarrow> ('set, 'git) runtime
   \<Rightarrow> ('set, 'git) runtime option" where
  "restore_failed_removal enc persistable stopping cwds restarted exited st = do {
     (recorded, st) \<leftarrow> record_terminal_cwds persistable cwds st;
     if stopping then Some st
     else do {
       (cleared, st) \<leftarrow> reinstall_terminals enc restarted st;
       st \<leftarrow> publish_all enc (map (\<lambda>p. AgentChanged p None) cleared) st;
       restore_exited_terminals enc exited st}}"

text \<open>A renamed file moves its Preview Tab along (\<open>files_mutated\<close> in \<open>server/client.rs\<close>).\<close>

definition follow_renamed_file ::
  "('set, 'git, 'r) encode \<Rightarrow> (session_snapshot \<Rightarrow> bool) \<Rightarrow> relpath_api \<Rightarrow> workspace_id \<Rightarrow> rstr \<Rightarrow> rstr
   \<Rightarrow> ('set, 'git) runtime \<Rightarrow> ('set, 'git) runtime option" where
  "follow_renamed_file enc persistable rp wid from dest st =
     (let (followed, s) = follow_rename rp (rt_session st) wid from dest in
      if \<not> followed then Some st
      else do {
        (r, st) \<leftarrow> commit_layout_candidate enc persistable s None None st;
        (case r of Inl _ \<Rightarrow> Some st | Inr effect \<Rightarrow> publish_background enc (le_event effect) st)})"

section \<open>The answer to a request\<close>

record layout_request =
  lr_server_id :: u64
  lr_session_id :: u64
  lr_request_id :: u64

definition layout_authority_error :: "('set, 'git) runtime \<Rightarrow> u64 \<Rightarrow> u64 \<Rightarrow> bool \<Rightarrow> rstr option" where
  "layout_authority_error st server session_id stopping =
     (if stopping then Some (str_lit ''Server is stopping'')
      else if server \<noteq> rt_server_id st then Some (str_lit ''unknown Server'')
      else if session_id \<noteq> rt_session_id st then Some (str_lit ''unknown Session'')
      else None)"

definition reject_layout :: "layout_request \<Rightarrow> rstr \<Rightarrow> ('set, 'git, 'r) server_message" where
  "reject_layout request reason = LayoutRejected (lr_server_id request) (lr_session_id request) (lr_request_id request) reason"

definition publish_effect ::
  "('set, 'git, 'r) encode \<Rightarrow> u64 \<Rightarrow> layout_request \<Rightarrow> ('set, 'git) layout_effect \<Rightarrow> ('set, 'git) runtime
   \<Rightarrow> (('set, 'git, 'r) server_message \<times> ('set, 'git) runtime) option" where
  "publish_effect enc c request effect st = do {
     (closed, st) \<leftarrow> publish_event enc (le_event effect) (Some c) st;
     Some (LayoutApplied (rt_server_id st) (rt_session_id st) (lr_request_id request) (rt_sequence st) (le_result effect), st)}"

text \<open>A command that needs no work outside the lock, from the look at the working directories on.\<close>

definition execute_local ::
  "('set, 'git, 'r) encode \<Rightarrow> (session_snapshot \<Rightarrow> bool) \<Rightarrow> spawn \<Rightarrow> relpath_api \<Rightarrow> bool \<Rightarrow> u64 \<Rightarrow> layout_request
   \<Rightarrow> layout_command \<Rightarrow> (pane_id \<times> u64 \<times> path option) list \<Rightarrow> ('set, 'git) runtime \<Rightarrow> u64
   \<Rightarrow> ((rstr + ('set, 'git, 'r) server_message) \<times> ('set, 'git) runtime \<times> u64) option" where
  "execute_local enc persistable spawn rp stopping c request command observations st nxt =
     (case layout_authority_error st (lr_server_id request) (lr_session_id request) stopping of
        Some reason \<Rightarrow> Some (Inl reason, st, nxt)
      | None \<Rightarrow> do {
          (recorded, st) \<leftarrow> record_terminal_cwd_observations persistable observations st;
          (r, st, nxt) \<leftarrow> apply_layout_command enc persistable spawn rp command st nxt;
          (case r of
             Inl reason \<Rightarrow> Some (Inl reason, st, nxt)
           | Inr effect \<Rightarrow> map_option (\<lambda>(response, st). (Inr response, st, nxt)) (publish_effect enc c request effect st))})"

definition commit_prepared ::
  "('set, 'git, 'r) encode \<Rightarrow> (session_snapshot \<Rightarrow> bool) \<Rightarrow> spawn \<Rightarrow> relpath_api \<Rightarrow> nat \<Rightarrow> bool \<Rightarrow> u64 \<Rightarrow> layout_request
   \<Rightarrow> 'git prepared_layout \<Rightarrow> ('set, 'git) runtime \<Rightarrow> u64
   \<Rightarrow> ((rstr + ('set, 'git, 'r) server_message) \<times> ('set, 'git) runtime \<times> u64) option" where
  "commit_prepared enc persistable spawn rp now stopping c request prepared st nxt =
     (let stopping = stopping \<and> (case prepared of Removal _ \<Rightarrow> False | _ \<Rightarrow> True) in
      case layout_authority_error st (lr_server_id request) (lr_session_id request) stopping of
        Some reason \<Rightarrow> Some (Inl reason, st, nxt)
      | None \<Rightarrow> do {
          (r, st, nxt) \<leftarrow> apply_prepared_external_layout enc persistable spawn rp now prepared st nxt;
          (case r of
             Inl reason \<Rightarrow> Some (Inl reason, st, nxt)
           | Inr effect \<Rightarrow> map_option (\<lambda>(response, st). (Inr response, st, nxt)) (publish_effect enc c request effect st))})"

definition answer_layout ::
  "('set, 'git, 'r) encode \<Rightarrow> u64 \<Rightarrow> layout_request \<Rightarrow> rstr + ('set, 'git, 'r) server_message \<Rightarrow> ('set, 'git) runtime
   \<Rightarrow> ('set, 'git) runtime" where
  "answer_layout enc c request r st =
     set_writer c (snd (queue_response enc (case r of Inl reason \<Rightarrow> reject_layout request reason | Inr response \<Rightarrow> response)
       (rt_writers st c))) st"

section \<open>What a Bootstrap captures\<close>

text \<open>Hash maps are read in the Session's order.\<close>

definition capture_terminal :: "('set, 'git) runtime \<Rightarrow> pane_id list option \<Rightarrow> pane_id \<Rightarrow> pane_terminal option" where
  "capture_terminal st watched p =
     (if p \<in> set (rt_terminals st) \<or> p \<in> rt_closing st
      then map_option (\<lambda>latest. \<lparr>pt_pane_id = p,
             pt_view = (if watches (map_option set watched) p then Some (lt_view latest) else None),
             pt_exited = (p \<in> rt_exited st), pt_title = rt_titles st p, pt_attention = (p \<in> rt_bells st),
             pt_progress = rt_progress st p\<rparr>) (rt_views st p)
      else None)"

definition pane_agent_snapshots :: "('set, 'git) runtime \<Rightarrow> pane_agent list" where
  "pane_agent_snapshots st = List.map_filter (\<lambda>p.
     if p \<in> rt_closing st \<or> p \<in> rt_exited st then None
     else map_option (\<lambda>agent. \<lparr>pa_pane_id = p, pa_agent = agent, pa_unseen = (p \<in> rt_unseen st)\<rparr>) (rt_agents st p))
     (session_pane_ids (rt_session st))"

definition capture_bootstrap ::
  "pane_id list option \<Rightarrow> ('set, 'git) runtime \<Rightarrow> (session_snapshot, 'set, 'git) session_bootstrap option" where
  "capture_bootstrap watched st = map_option (\<lambda>snapshot. \<lparr>sb_server_id = rt_server_id st, sb_runtime_epoch = rt_epoch st,
     sb_session_id = rt_session_id st, sb_sequence = rt_sequence st, sb_snapshot = snapshot, sb_settings = rt_settings st,
     sb_terminals = List.map_filter (capture_terminal st watched) (session_pane_ids (rt_session st)),
     sb_agents = pane_agent_snapshots st,
     sb_workspace_git = List.map_filter (rt_git st) (map w_id (workspaces (rt_session st))),
     sb_zoomed_panes = zoomed_panes (rt_session st)\<rparr>) (session_to_snapshot (rt_session st))"

end
