(* ===== verification/Client_Model.thy ===== *)
theory Client_Model
  imports Server_Subscriptions
begin

text \<open>
  What a Client keeps of one connection (\<open>condr-client/src/model.rs\<close>) and how it applies what the Server
  sends (\<open>apply\<close> and \<open>apply_message\<close> in \<open>condr-mobile/src/companion.rs\<close>): a Bootstrap replaces everything,
  an event is applied when it is the next one, a gap asks for a new Bootstrap. The marks for the app's
  screens are left out.
\<close>

section \<open>The model\<close>

record ('set, 'git) session_model =
  sm_server_id :: "u64 option"
  sm_runtime_epoch :: "128 word option"
  sm_session_id :: "u64 option"
  sm_sequence :: u64
  sm_session :: "session option"
  sm_terminals :: terminals
  sm_exited :: "pane_id set"
  sm_watched :: "pane_id set option"
  sm_titles :: "pane_id \<Rightarrow> rstr option"
  sm_progress :: "pane_id \<Rightarrow> terminal_progress option"
  sm_hyperlinks :: budgets
  sm_agents :: "pane_id \<Rightarrow> agent_snapshot option"
  sm_unseen :: "pane_id set"
  sm_attention :: "pane_id set"
  sm_git :: "workspace_id \<Rightarrow> 'git workspace_git option"
  sm_zoomed :: "pane_id set"
  sm_settings :: 'set

record bootstrap_change =
  bc_authority_changed :: bool
  bc_previous :: "session option"

text \<open>The loop over the terminals: each one's view with its budget of links, for the watched Panes. The inner
  \<open>expect\<close>s of the budget are \<open>None\<close>.\<close>

fun keep_views :: "pane_id set option \<Rightarrow> pane_terminal list \<Rightarrow> terminals \<times> budgets \<Rightarrow> (terminals \<times> budgets) option" where
  "keep_views watched [] held = Some held"
| "keep_views watched (t # ts) held =
     (case pt_view t of
        None \<Rightarrow> keep_views watched ts held
      | Some view \<Rightarrow>
          if \<not> watches watched (pt_pane_id t) then keep_views watched ts held
          else case budget_new view of
            None \<Rightarrow> None
          | Some (b, view) \<Rightarrow>
              keep_views watched ts ((fst held)(pt_pane_id t \<mapsto> view), (snd held)(pt_pane_id t \<mapsto> b)))"

text \<open>Later records win, as \<open>insert\<close> and \<open>collect\<close> have it.\<close>

definition insert_all :: "('k \<times> 'v) list \<Rightarrow> 'k \<Rightarrow> 'v option" where
  "insert_all entries = map_of (rev entries)"

definition records :: "('a \<Rightarrow> 'k) \<Rightarrow> ('a \<Rightarrow> 'v option) \<Rightarrow> 'a list \<Rightarrow> ('k \<times> 'v) list" where
  "records key value rs = List.map_filter (\<lambda>r. map_option (Pair (key r)) (value r)) rs"

definition apply_bootstrap ::
  "relpath_api \<Rightarrow> u64 \<Rightarrow> (session_snapshot, 'set, 'git) session_bootstrap \<Rightarrow> ('set, 'git) session_model
   \<Rightarrow> ((snapshot_error + bootstrap_change) \<times> ('set, 'git) session_model) option" where
  "apply_bootstrap rp nxt b m =
     (case session_restore rp (sb_snapshot b) nxt of
        None \<Rightarrow> None
      | Some (Inl e) \<Rightarrow> Some (Inl e, m)
      | Some (Inr (s, _)) \<Rightarrow>
          let authority_changed = sm_server_id m \<noteq> Some (sb_server_id b)
                \<or> sm_runtime_epoch m \<noteq> Some (sb_runtime_epoch b) \<or> sm_session_id m \<noteq> Some (sb_session_id b) in
          map_option (\<lambda>(terminals, hyperlinks).
              (Inr \<lparr>bc_authority_changed = authority_changed, bc_previous = sm_session m\<rparr>,
               m\<lparr>sm_server_id := Some (sb_server_id b), sm_runtime_epoch := Some (sb_runtime_epoch b),
                 sm_session_id := Some (sb_session_id b), sm_sequence := sb_sequence b, sm_session := Some s,
                 sm_attention := set (map pt_pane_id (filter pt_attention (sb_terminals b))),
                 sm_terminals := terminals, sm_hyperlinks := hyperlinks,
                 sm_exited := set (map pt_pane_id (filter pt_exited (sb_terminals b))),
                 sm_titles := insert_all (records pt_pane_id pt_title (sb_terminals b)),
                 sm_progress := insert_all (records pt_pane_id pt_progress (sb_terminals b)),
                 sm_unseen := set (map pa_pane_id (filter pa_unseen (sb_agents b))),
                 sm_agents := insert_all (map (\<lambda>a. (pa_pane_id a, pa_agent a)) (sb_agents b)),
                 sm_git := insert_all (map (\<lambda>git. (wg_workspace_id git, git)) (sb_workspace_git b)),
                 sm_zoomed := set (sb_zoomed_panes b), sm_settings := sb_settings b\<rparr>))
            (keep_views (sm_watched m) (sb_terminals b) (Map.empty, Map.empty)))"

definition apply_layout ::
  "relpath_api \<Rightarrow> u64 \<Rightarrow> session_snapshot \<Rightarrow> pane_id list \<Rightarrow> ('set, 'git) session_model
   \<Rightarrow> ((snapshot_error + session option) \<times> ('set, 'git) session_model) option" where
  "apply_layout rp nxt snapshot zoomed m =
     (case session_restore rp snapshot nxt of
        None \<Rightarrow> None
      | Some (Inl e) \<Rightarrow> Some (Inl e, m)
      | Some (Inr (s, _)) \<Rightarrow>
          let live = set (session_pane_ids s); live_workspaces = set (map w_id (workspaces s)) in
          Some (Inr (sm_session m),
            m\<lparr>sm_session := Some s, sm_zoomed := set zoomed, sm_terminals := sm_terminals m |` live,
              sm_exited := sm_exited m \<inter> live, sm_hyperlinks := sm_hyperlinks m |` live,
              sm_titles := sm_titles m |` live, sm_progress := sm_progress m |` live, sm_agents := sm_agents m |` live,
              sm_unseen := sm_unseen m \<inter> live, sm_attention := sm_attention m \<inter> live,
              sm_git := sm_git m |` live_workspaces\<rparr>))"

definition model_watch_terminals :: "pane_id set \<Rightarrow> ('set, 'git) session_model \<Rightarrow> ('set, 'git) session_model" where
  "model_watch_terminals panes m =
     m\<lparr>sm_terminals := sm_terminals m |` panes, sm_hyperlinks := sm_hyperlinks m |` panes, sm_watched := Some panes\<rparr>"

definition wanted_frame :: "('set, 'git) session_model \<Rightarrow> pane_frame \<Rightarrow> bool" where
  "wanted_frame m pane \<longleftrightarrow> watches (sm_watched m) (fst pane)
     \<and> (sm_terminals m (fst pane) \<noteq> None \<or> (case snd pane of view_frame.Full _ \<Rightarrow> True | Delta _ \<Rightarrow> False))"

definition apply_terminal_frames ::
  "pane_frame list \<Rightarrow> ('set, 'git) session_model \<Rightarrow> ((unit + pane_id list) \<times> ('set, 'git) session_model) option" where
  "apply_terminal_frames panes m =
     (let panes = (if sm_watched m \<noteq> None then filter (wanted_frame m) panes else panes) in
      map_option (\<lambda>(r, terminals, hyperlinks). (r, m\<lparr>sm_terminals := terminals, sm_hyperlinks := hyperlinks\<rparr>))
        (apply_terminal_frame_batch panes (sm_terminals m, sm_hyperlinks m)))"

definition apply_progress ::
  "pane_id \<Rightarrow> terminal_progress option \<Rightarrow> ('set, 'git) session_model \<Rightarrow> ('set, 'git) session_model" where
  "apply_progress p progress m = m\<lparr>sm_progress := (sm_progress m)(p := progress)\<rparr>"

text \<open>The Agent there was, and whether this one is a new process.\<close>

definition apply_agent ::
  "pane_id \<Rightarrow> agent_snapshot option \<Rightarrow> ('set, 'git) session_model
   \<Rightarrow> (agent_snapshot option \<times> bool) \<times> ('set, 'git) session_model" where
  "apply_agent p agent m =
     (let previous = sm_agents m p in
      ((previous, case agent of
           None \<Rightarrow> False
         | Some agent \<Rightarrow> (case previous of Some previous \<Rightarrow> sn_kind previous \<noteq> sn_kind agent | None \<Rightarrow> True)),
       m\<lparr>sm_agents := (sm_agents m)(p := agent)\<rparr>))"

definition apply_agent_unseen ::
  "pane_id \<Rightarrow> bool \<Rightarrow> bool \<Rightarrow> ('set, 'git) session_model \<Rightarrow> bool \<times> ('set, 'git) session_model" where
  "apply_agent_unseen p unseen in_front m =
     (if unseen \<and> \<not> in_front then (p \<notin> sm_unseen m, m\<lparr>sm_unseen := insert p (sm_unseen m)\<rparr>)
      else (p \<in> sm_unseen m, m\<lparr>sm_unseen := sm_unseen m - {p}\<rparr>))"

definition mark_seen :: "pane_id \<Rightarrow> ('set, 'git) session_model \<Rightarrow> ('set, 'git) session_model" where
  "mark_seen p m = m\<lparr>sm_unseen := sm_unseen m - {p}\<rparr>"

definition model_display_state :: "('set, 'git) session_model \<Rightarrow> pane_id \<Rightarrow> agent_display_state option" where
  "model_display_state m p = map_option (\<lambda>agent. display_state (sn_state agent) (p \<in> sm_unseen m)) (sm_agents m p)"

definition pane_title :: "('set, 'git) session_model \<Rightarrow> pane_id \<Rightarrow> rstr option" where
  "pane_title m p = (case sm_titles m p of
       Some title \<Rightarrow> Some title | None \<Rightarrow> map_option (\<lambda>agent. as_label (agent_kind_spec (sn_kind agent))) (sm_agents m p))"

definition agents_needing_you :: "('set, 'git) session_model \<Rightarrow> (workspace \<times> pane_id \<times> agent_snapshot) list" where
  "agents_needing_you m =
     (case sm_session m of
        None \<Rightarrow> []
      | Some s \<Rightarrow> List.map_filter (\<lambda>(w, p).
            case sm_agents m p of
              Some agent \<Rightarrow> if sn_state agent = Blocked \<or> sn_state agent = Error then Some (w, p, agent) else None
            | None \<Rightarrow> None)
          (concat (map (\<lambda>w. map (\<lambda>pane. (w, p_id pane)) (workspace_panes w)) (workspaces s))))"

section \<open>A connection\<close>

datatype subscription = NotSubscribed | SubscriptionPending | SubscriptionActive

datatype client_request = SubscribeFrom u64 u64 | SnapshotRequest u64

record ('set, 'git) device =
  dv_model :: "('set, 'git) session_model"
  dv_subscription :: subscription
  dv_snapshot_pending :: bool
  dv_connected :: bool
  dv_sent :: "client_request list"

definition device_send :: "client_request \<Rightarrow> ('set, 'git) device \<Rightarrow> ('set, 'git) device" where
  "device_send request d = (if dv_connected d then d\<lparr>dv_sent := dv_sent d @ [request]\<rparr> else d)"

definition device_subscribe :: "('set, 'git) device \<Rightarrow> ('set, 'git) device" where
  "device_subscribe d =
     (if dv_subscription d \<noteq> NotSubscribed then d
      else case sm_session_id (dv_model d) of
        None \<Rightarrow> d
      | Some session_id \<Rightarrow>
          (device_send (SubscribeFrom session_id (sm_sequence (dv_model d))) d)\<lparr>dv_subscription := SubscriptionPending\<rparr>)"

definition request_snapshot :: "('set, 'git) device \<Rightarrow> ('set, 'git) device" where
  "request_snapshot d =
     (if dv_snapshot_pending d then d
      else case sm_session_id (dv_model d) of
        None \<Rightarrow> d
      | Some session_id \<Rightarrow> (device_send (SnapshotRequest session_id) d)\<lparr>dv_snapshot_pending := True\<rparr>)"

definition disconnect :: "('set, 'git) device \<Rightarrow> ('set, 'git) device" where
  "disconnect d = d\<lparr>dv_connected := False, dv_subscription := NotSubscribed, dv_snapshot_pending := False\<rparr>"

definition on_model ::
  "(('set, 'git) session_model \<Rightarrow> ('set, 'git) session_model) \<Rightarrow> ('set, 'git) device \<Rightarrow> ('set, 'git) device" where
  "on_model f d = d\<lparr>dv_model := f (dv_model d)\<rparr>"

text \<open>The match over an event that is not a layout.\<close>

fun apply_event ::
  "pane_id option \<Rightarrow> ('set, 'git) session_event \<Rightarrow> ('set, 'git) session_model \<Rightarrow> ('set, 'git) session_model" where
  "apply_event shown (AgentChanged p agent) m = snd (apply_agent p agent m)"
| "apply_event shown (TerminalExited p) m = m\<lparr>sm_exited := insert p (sm_exited m)\<rparr>"
| "apply_event shown (TerminalTitleChanged p title) m = m\<lparr>sm_titles := (sm_titles m)(p := title)\<rparr>"
| "apply_event shown (TerminalProgressChanged p progress) m = apply_progress p progress m"
| "apply_event shown (TerminalAttentionChanged p attention) m =
     m\<lparr>sm_attention := (if attention then insert p (sm_attention m) else sm_attention m - {p})\<rparr>"
| "apply_event shown (AgentUnseenChanged p unseen) m = snd (apply_agent_unseen p unseen (shown = Some p) m)"
| "apply_event shown (WorkspaceGitChanged wid git) m = m\<lparr>sm_git := (sm_git m)(wid := git)\<rparr>"
| "apply_event shown (ServerSettingsChanged settings) m = m\<lparr>sm_settings := settings\<rparr>"
| "apply_event shown _ m = m"

definition apply_session_event ::
  "relpath_api \<Rightarrow> u64 \<Rightarrow> pane_id option \<Rightarrow> u64 \<Rightarrow> u64 \<Rightarrow> u64 \<Rightarrow> ('set, 'git) session_event \<Rightarrow> ('set, 'git) device
   \<Rightarrow> ('set, 'git) device option" where
  "apply_session_event rp nxt shown server session_id sequence event d =
     (let m = dv_model d in
      if sm_server_id m \<noteq> Some server \<or> sm_session_id m \<noteq> Some session_id then Some d
      else if sequence \<noteq> saturating_succ (sm_sequence m)
      then Some (if sm_sequence m < sequence then request_snapshot (d\<lparr>dv_subscription := NotSubscribed\<rparr>) else d)
      else case event of
        LayoutChanged snapshot zoomed \<Rightarrow>
          (case apply_layout rp nxt snapshot zoomed m of
             None \<Rightarrow> None
           | Some (Inr _, m) \<Rightarrow> Some (d\<lparr>dv_model := m\<lparr>sm_sequence := sequence\<rparr>\<rparr>)
           | Some (Inl _, _) \<Rightarrow> Some (request_snapshot (d\<lparr>dv_subscription := NotSubscribed\<rparr>)))
      | _ \<Rightarrow> Some (on_model (\<lambda>m. apply_event shown event (m\<lparr>sm_sequence := sequence\<rparr>)) d))"

fun apply_message ::
  "relpath_api \<Rightarrow> u64 \<Rightarrow> pane_id option \<Rightarrow> ('set, 'git, 'r) server_message \<Rightarrow> ('set, 'git) device \<Rightarrow> ('set, 'git) device option" where
  "apply_message rp nxt shown (SessionEvent server session_id sequence event) d =
     apply_session_event rp nxt shown server session_id sequence event d"
| "apply_message rp nxt shown (Subscribed _ _ _) d = Some (d\<lparr>dv_subscription := SubscriptionActive\<rparr>)"
| "apply_message rp nxt shown (SubscriptionRejected _ _ _) d =
     Some (request_snapshot (d\<lparr>dv_subscription := NotSubscribed, dv_snapshot_pending := False\<rparr>))"
| "apply_message rp nxt shown (SnapshotRejected _ _ _) d =
     Some (request_snapshot (d\<lparr>dv_subscription := NotSubscribed, dv_snapshot_pending := False\<rparr>))"
| "apply_message rp nxt shown ServerStopping d = Some (disconnect d)"
| "apply_message rp nxt shown (Unknown_Message _) d = Some (request_snapshot d)"
| "apply_message rp nxt shown _ d = Some d"

text \<open>A Bootstrap, and the frames that wait in the visual slot.\<close>

definition receive_bootstrap ::
  "relpath_api \<Rightarrow> u64 \<Rightarrow> pane_id option \<Rightarrow> (session_snapshot, 'set, 'git) session_bootstrap \<Rightarrow> ('set, 'git) device
   \<Rightarrow> ('set, 'git) device option" where
  "receive_bootstrap rp nxt shown b d =
     (case apply_bootstrap rp nxt b (dv_model d) of
        None \<Rightarrow> None
      | Some (Inl _, _) \<Rightarrow> Some (disconnect d)
      | Some (Inr change, m) \<Rightarrow>
          let m = (case shown of Some p \<Rightarrow> mark_seen p m | None \<Rightarrow> m);
              d = d\<lparr>dv_model := m, dv_snapshot_pending := False\<rparr>;
              d = (if bc_authority_changed change then d\<lparr>dv_subscription := NotSubscribed\<rparr> else d)
          in Some (device_subscribe d))"

definition receive_frames ::
  "frame_batch option \<Rightarrow> ('set, 'git) device \<Rightarrow> ('set, 'git) device option" where
  "receive_frames batch d =
     (case batch of
        None \<Rightarrow> Some d
      | Some batch \<Rightarrow>
          if sm_server_id (dv_model d) \<noteq> Some (fb_server_id batch) \<or> sm_session_id (dv_model d) \<noteq> Some (fb_session_id batch)
          then Some d
          else map_option (\<lambda>(r, m). let d = d\<lparr>dv_model := m\<rparr> in case r of Inr _ \<Rightarrow> d | Inl _ \<Rightarrow> request_snapshot d)
                 (apply_terminal_frames (fb_panes batch) (dv_model d)))"

end
