(* ===== verification/Mirror.thy ===== *)
theory Mirror
  imports Layout_Plans Server_External Client_Model
begin

text \<open>
  What a Client that starts from a Bootstrap and applies every event keeps in common with the Server:
  the relation between the two, and how a step of the Server carries it along. A step is one critical
  section; what it publishes is what it adds to the log. The theories that follow show it for every
  operation.
\<close>

section \<open>What the Server's state is about\<close>

text \<open>The fields events speak of. What else a state holds (subscribers, queues, waits, focus) has no part in it.\<close>

definition core where
  "core st = (rt_server_id st, rt_session_id st, rt_epoch st, rt_session st, rt_settings st,
     set (rt_terminals st), rt_closing st, rt_exited st, rt_instances st, rt_agents st, rt_unseen st,
     rt_titles st, rt_progress st, rt_bells st, rt_git st, dom (rt_views st))"

text \<open>The Panes with a terminal, or with one that is being closed; and those whose agent a Bootstrap leaves out.\<close>

definition present :: "('set, 'git) runtime \<Rightarrow> pane_id set" where
  "present st = set (rt_terminals st) \<union> rt_closing st"

definition hidden :: "('set, 'git) runtime \<Rightarrow> pane_id set" where
  "hidden st = rt_closing st \<union> rt_exited st"

definition server_ok :: "relpath_api \<Rightarrow> u64 \<Rightarrow> ('set, 'git) runtime \<Rightarrow> bool" where
  "server_ok rp nxt st \<longleftrightarrow> session_inv rp nxt (rt_session st)
     \<and> present st \<subseteq> set (session_pane_ids (rt_session st)) \<and> present st \<subseteq> dom (rt_views st)
     \<and> rt_exited st \<subseteq> present st \<and> rt_bells st \<subseteq> present st \<and> dom (rt_titles st) \<subseteq> present st
     \<and> dom (rt_progress st) \<subseteq> present st \<and> dom (rt_agents st) \<subseteq> present st
     \<and> dom (rt_instances st) \<subseteq> set (rt_terminals st)
     \<and> rt_unseen st \<subseteq> dom (rt_agents st) \<union> hidden st
     \<and> (\<forall>wid git. rt_git st wid = Some git \<longrightarrow>
          wg_workspace_id git = wid \<and> wid \<in> set (session_workspace_ids (rt_session st)))"

lemma server_okD:
  assumes "server_ok rp nxt st"
  shows "session_inv rp nxt (rt_session st)" and "present st \<subseteq> set (session_pane_ids (rt_session st))"
    and "present st \<subseteq> dom (rt_views st)" and "rt_exited st \<subseteq> present st" and "rt_bells st \<subseteq> present st"
    and "dom (rt_titles st) \<subseteq> present st" and "dom (rt_progress st) \<subseteq> present st"
    and "dom (rt_agents st) \<subseteq> present st" and "dom (rt_instances st) \<subseteq> set (rt_terminals st)"
    and "rt_unseen st \<subseteq> dom (rt_agents st) \<union> hidden st"
    and "\<And>wid git. rt_git st wid = Some git \<Longrightarrow>
          wg_workspace_id git = wid \<and> wid \<in> set (session_workspace_ids (rt_session st))"
  using assms unfolding server_ok_def by blast+

lemma core_eq:
  "core st = core st' \<longleftrightarrow> rt_server_id st = rt_server_id st' \<and> rt_session_id st = rt_session_id st'
     \<and> rt_epoch st = rt_epoch st' \<and> rt_session st = rt_session st' \<and> rt_settings st = rt_settings st'
     \<and> set (rt_terminals st) = set (rt_terminals st') \<and> rt_closing st = rt_closing st'
     \<and> rt_exited st = rt_exited st' \<and> rt_instances st = rt_instances st' \<and> rt_agents st = rt_agents st'
     \<and> rt_unseen st = rt_unseen st' \<and> rt_titles st = rt_titles st' \<and> rt_progress st = rt_progress st'
     \<and> rt_bells st = rt_bells st' \<and> rt_git st = rt_git st' \<and> dom (rt_views st) = dom (rt_views st')"
  by (simp add: core_def)

lemma core_cong:
  assumes "core st' = core st"
  shows "server_ok rp nxt st' = server_ok rp nxt st" and "present st' = present st" and "hidden st' = hidden st"
  using assms by (simp_all add: core_eq server_ok_def present_def hidden_def)

section \<open>The relation\<close>

text \<open>\<open>W\<close> are the Panes this Client had on screen: their Done it drops at once. \<open>X\<close> are Panes whose agent the
  Server has dropped and not yet told of. A Bootstrap leaves the agents of hidden Panes out.\<close>

definition mirrors ::
  "pane_id set \<Rightarrow> pane_id set \<Rightarrow> ('set, 'git) runtime \<Rightarrow> ('set, 'git) session_model \<Rightarrow> bool" where
  "mirrors W X st m \<longleftrightarrow>
     sm_server_id m = Some (rt_server_id st) \<and> sm_session_id m = Some (rt_session_id st)
     \<and> sm_runtime_epoch m = Some (rt_epoch st)
     \<and> map_option bare_session (sm_session m) = Some (unzoomed (bare_session (rt_session st)))
     \<and> sm_zoomed m = set (zoomed_panes (rt_session st)) \<and> sm_settings m = rt_settings st
     \<and> sm_exited m = rt_exited st \<and> sm_titles m = rt_titles st \<and> sm_progress m = rt_progress st
     \<and> sm_attention m = rt_bells st \<and> sm_git m = rt_git st
     \<and> (\<forall>p. p \<notin> X \<longrightarrow> sm_agents m p = rt_agents st p \<or> p \<in> hidden st \<and> sm_agents m p = None)
     \<and> sm_unseen m \<subseteq> rt_unseen st \<and> rt_unseen st \<subseteq> sm_unseen m \<union> W \<union> hidden st"

lemma mirrors_core: "core st' = core st \<Longrightarrow> mirrors W X st' = mirrors W X st"
  by (intro ext) (simp add: core_eq mirrors_def hidden_def)

lemma mirrors_weaken:
  assumes "mirrors W X st m" and "X \<subseteq> X'"
  shows "mirrors W X' st m"
proof -
  have "\<forall>p. p \<notin> X' \<longrightarrow> sm_agents m p = rt_agents st p \<or> p \<in> hidden st \<and> sm_agents m p = None"
    using assms by (meson mirrors_def subsetD)
  with assms(1) show ?thesis by (simp add: mirrors_def)
qed

section \<open>Applying events\<close>

text \<open>One event, whatever the Client's id counter is and whichever of its Panes is on screen.\<close>

definition model_event ::
  "relpath_api \<Rightarrow> u64 \<Rightarrow> pane_id option \<Rightarrow> ('set, 'git) session_event \<Rightarrow> ('set, 'git) session_model
   \<Rightarrow> ('set, 'git) session_model option" where
  "model_event rp nxt shown event m = (case event of
     LayoutChanged snapshot zoomed \<Rightarrow>
       (case apply_layout rp nxt snapshot zoomed m of Some (Inr _, m) \<Rightarrow> Some m | _ \<Rightarrow> None)
   | _ \<Rightarrow> Some (apply_event shown event m))"

abbreviation on_screen :: "pane_id set \<Rightarrow> pane_id option set" where
  "on_screen W \<equiv> insert None (Some ` W)"

fun always ::
  "relpath_api \<Rightarrow> pane_id set \<Rightarrow> (('set, 'git) session_model \<Rightarrow> bool) \<Rightarrow> ('set, 'git) session_event list
   \<Rightarrow> ('set, 'git) session_model \<Rightarrow> bool" where
  "always rp W Q [] m = Q m"
| "always rp W Q (event # events) m =
     (\<forall>nxt. \<forall>shown \<in> on_screen W. \<exists>m'. model_event rp nxt shown event m = Some m' \<and> always rp W Q events m')"

lemma always_append: "always rp W Q (events @ events') m = always rp W (always rp W Q events') events m"
  by (induction events arbitrary: m) auto

lemma always_mono: "always rp W P events m \<Longrightarrow> (\<And>m. P m \<Longrightarrow> Q m) \<Longrightarrow> always rp W Q events m"
proof (induction events arbitrary: m)
  case (Cons event events)
  show ?case unfolding always.simps
  proof (intro allI ballI)
    fix nxt shown assume "shown \<in> on_screen W"
    with Cons.prems(1) obtain m' where "model_event rp nxt shown event m = Some m'" "always rp W P events m'"
      unfolding always.simps by blast
    with Cons.IH [OF _ Cons.prems(2)] show "\<exists>m'. model_event rp nxt shown event m = Some m' \<and> always rp W Q events m'"
      by blast
  qed
qed simp

section \<open>Steps that publish\<close>

text \<open>From \<open>st\<close> to \<open>st'\<close>, what was recorded takes a model in \<open>P\<close> to one in \<open>Q\<close>.\<close>

definition runs where
  "runs rp W P st Q st' \<longleftrightarrow> (\<exists>events. rt_log st' = rt_log st @ events
     \<and> rt_sequence st' = (saturating_succ ^^ length events) (rt_sequence st)
     \<and> (\<forall>m. P m \<longrightarrow> always rp W Q events m))"

lemma runs_silent:
  assumes "rt_log st' = rt_log st" and "rt_sequence st' = rt_sequence st" and "\<And>m. P m \<Longrightarrow> Q m"
  shows "runs rp W P st Q st'"
  unfolding runs_def using assms by (intro exI [of _ "[]"]) simp

lemma runs_refl: "runs rp W P st P st"
  by (rule runs_silent) simp_all

lemma runs_trans:
  assumes "runs rp W P st Q st1" and "runs rp W Q st1 R st2"
  shows "runs rp W P st R st2"
proof -
  from assms obtain es fs where e: "rt_log st1 = rt_log st @ es" "rt_sequence st1 = (saturating_succ ^^ length es) (rt_sequence st)"
      "\<And>m. P m \<Longrightarrow> always rp W Q es m"
    and f: "rt_log st2 = rt_log st1 @ fs" "rt_sequence st2 = (saturating_succ ^^ length fs) (rt_sequence st1)"
      "\<And>m. Q m \<Longrightarrow> always rp W R fs m"
    unfolding runs_def by blast
  have "always rp W R (es @ fs) m" if "P m" for m
    unfolding always_append using always_mono [OF e(3) [OF that]] f(3) by blast
  then show ?thesis unfolding runs_def
    using e(1,2) f(1,2) by (intro exI [of _ "es @ fs"]) (simp add: add.commute [of "length es"] funpow_add)
qed

lemma runs_weaken: "runs rp W P st Q st' \<Longrightarrow> (\<And>m. P' m \<Longrightarrow> P m) \<Longrightarrow> (\<And>m. Q m \<Longrightarrow> Q' m) \<Longrightarrow> runs rp W P' st Q' st'"
  unfolding runs_def using always_mono by blast

text \<open>A change of the other fields before or after does not matter.\<close>

lemma runs_before: "rt_log st1 = rt_log st \<Longrightarrow> rt_sequence st1 = rt_sequence st \<Longrightarrow> runs rp W P st1 Q st' \<Longrightarrow> runs rp W P st Q st'"
  by (simp add: runs_def)

lemma runs_after: "rt_log st' = rt_log st1 \<Longrightarrow> rt_sequence st' = rt_sequence st1 \<Longrightarrow> runs rp W P st Q st1 \<Longrightarrow> runs rp W P st Q st'"
  by (simp add: runs_def)

lemma core_for_subscribers [simp]:
  "core (for_subscribers f st) = core st" "rt_log (for_subscribers f st) = rt_log st"
  "rt_sequence (for_subscribers f st) = rt_sequence st"
  by (simp_all add: for_subscribers_def core_eq)

lemma core_writers [simp]:
  "core (set_writer c q st) = core st" "core (set_subscriber c sub st) = core st" "core (remove_subscriber c st) = core st"
  "rt_log (set_writer c q st) = rt_log st"
  by (simp_all add: core_eq)

lemma record_event_log:
  "core (record_event event st) = core st" "rt_log (record_event event st) = rt_log st @ [event]"
  "rt_sequence (record_event event st) = saturating_succ (rt_sequence st)"
  by (simp_all add: record_event_def Let_def core_eq)

lemma publish_event_log:
  assumes "publish_event enc event origin st = Some (closed, st')"
  shows "core st' = core st" and "rt_log st' = rt_log st @ [event]" and "rt_sequence st' = saturating_succ (rt_sequence st)"
  using assms by (auto simp: publish_event_def Let_def record_event_log split: option.splits prod.splits)

lemma publish_event_runs:
  assumes "publish_event enc event origin st = Some (closed, st')"
    and "\<And>m nxt shown. P m \<Longrightarrow> shown \<in> on_screen W \<Longrightarrow> \<exists>m'. model_event rp nxt shown event m = Some m' \<and> Q m'"
  shows "runs rp W P st Q st'"
  unfolding runs_def using publish_event_log [OF assms(1)] assms(2) by (intro exI [of _ "[event]"]) simp

lemma publish_background_log:
  assumes "publish_background enc event st = Some st'"
  shows "core st' = core st" and "rt_log st' = rt_log st @ [event]" and "rt_sequence st' = saturating_succ (rt_sequence st)"
  using assms publish_event_log by (auto simp: publish_background_def)

lemma publish_background_runs:
  assumes "publish_background enc event st = Some st'"
    and "\<And>m nxt shown. P m \<Longrightarrow> shown \<in> on_screen W \<Longrightarrow> \<exists>m'. model_event rp nxt shown event m = Some m' \<and> Q m'"
  shows "runs rp W P st Q st'"
  unfolding runs_def using publish_background_log [OF assms(1)] assms(2) by (intro exI [of _ "[event]"]) simp

text \<open>Events that are not a layout never fail.\<close>

lemma model_event_simps [simp]:
  "model_event rp nxt shown (TerminalExited p) m = Some (apply_event shown (TerminalExited p) m)"
  "model_event rp nxt shown (AgentChanged p agent) m = Some (apply_event shown (AgentChanged p agent) m)"
  "model_event rp nxt shown (WorkspaceGitChanged wid git) m = Some (apply_event shown (WorkspaceGitChanged wid git) m)"
  "model_event rp nxt shown (WorkspaceFilesChanged wid) m = Some m"
  "model_event rp nxt shown (TerminalTitleChanged p title) m = Some (apply_event shown (TerminalTitleChanged p title) m)"
  "model_event rp nxt shown (TerminalProgressChanged p progress) m = Some (apply_event shown (TerminalProgressChanged p progress) m)"
  "model_event rp nxt shown (TerminalNotification p heading body) m = Some m"
  "model_event rp nxt shown (CommandFinished p x n) m = Some m"
  "model_event rp nxt shown (TerminalAttentionChanged p b) m = Some (apply_event shown (TerminalAttentionChanged p b) m)"
  "model_event rp nxt shown (AgentUnseenChanged p b) m = Some (apply_event shown (AgentUnseenChanged p b) m)"
  "model_event rp nxt shown (ServerSettingsChanged settings) m = Some (apply_event shown (ServerSettingsChanged settings) m)"
  "model_event rp nxt shown (Activated wid tid) m = Some m"
  by (simp_all add: model_event_def)

section \<open>One field at a time\<close>

text \<open>A field is changed and the change published, unless there was none.\<close>

lemma published_change:
  assumes step: "(if unchanged then Some st else publish_background enc event st1) = Some st'"
    and log: "rt_log st1 = rt_log st" "rt_sequence st1 = rt_sequence st"
    and same: "unchanged \<Longrightarrow> core st = core st1"
    and event: "\<And>m nxt shown. \<not> unchanged \<Longrightarrow> mirrors W X st m \<Longrightarrow> shown \<in> on_screen W
        \<Longrightarrow> \<exists>m'. model_event rp nxt shown event m = Some m' \<and> mirrors W X' st1 m'"
    and weaker: "X \<subseteq> X'"
  shows "runs rp W (mirrors W X st) st (mirrors W X' st') st' \<and> core st' = core st1"
proof (cases unchanged)
  case True
  with step have "st' = st" by simp
  moreover have "mirrors W X st m \<Longrightarrow> mirrors W X' st m" for m using weaker by (rule mirrors_weaken [rotated])
  ultimately show ?thesis using same [OF True] by (simp add: runs_silent)
next
  case False
  with step have pub: "publish_background enc event st1 = Some st'" by simp
  note core = publish_background_log(1) [OF pub]
  have "runs rp W (mirrors W X st) st1 (mirrors W X' st1) st'"
    by (rule publish_background_runs [OF pub]) (use event [OF False] in blast)
  then show ?thesis using log core by (auto simp: mirrors_core [OF core] intro: runs_before [rotated 2])
qed

lemma set_agent_unseen_runs:
  assumes "set_agent_unseen enc p unseen st = Some st'"
  shows "runs rp W (mirrors W X st) st (mirrors W X st') st'
    \<and> core st' = core (st\<lparr>rt_unseen := (if unseen then insert p (rt_unseen st) else rt_unseen st - {p})\<rparr>)"
  using assms unfolding set_agent_unseen_def
  by (rule published_change) (auto simp: core_eq mirrors_def hidden_def apply_agent_unseen_def)

lemma clear_bell_runs:
  assumes "clear_bell enc p st = Some st'"
  shows "runs rp W (mirrors W X st) st (mirrors W X st') st'
    \<and> core st' = core (st\<lparr>rt_bells := rt_bells st - {p}\<rparr>)"
proof -
  have step: "(if p \<notin> rt_bells st then Some st else publish_background enc (TerminalAttentionChanged p False)
      (st\<lparr>rt_bells := rt_bells st - {p}\<rparr>)) = Some st'"
    using assms by (simp add: clear_bell_def split: if_splits)
  show ?thesis using step by (rule published_change) (auto simp: core_eq mirrors_def hidden_def)
qed

lemma clear_title_runs:
  assumes "clear_title enc p st = Some st'"
  shows "runs rp W (mirrors W X st) st (mirrors W X st') st'
    \<and> core st' = core (st\<lparr>rt_titles := (rt_titles st)(p := None)\<rparr>)"
  using assms unfolding clear_title_def
  by (rule published_change) (auto simp: core_eq mirrors_def hidden_def)

lemma clear_progress_runs:
  assumes "clear_progress enc p st = Some st'"
  shows "runs rp W (mirrors W X st) st (mirrors W X st') st'
    \<and> core st' = core (st\<lparr>rt_progress := (rt_progress st)(p := None)\<rparr>)"
  using assms unfolding clear_progress_def
  by (rule published_change) (auto simp: core_eq mirrors_def hidden_def apply_progress_def)

text \<open>The agent of one Pane, as its event says; it is no longer unannounced.\<close>

lemma agent_published:
  assumes "publish_background enc (AgentChanged p agent) (st\<lparr>rt_agents := (rt_agents st)(p := agent)\<rparr>) = Some st'"
  shows "runs rp W (mirrors W X st) st (mirrors W (X - {p}) st') st'
    \<and> core st' = core (st\<lparr>rt_agents := (rt_agents st)(p := agent)\<rparr>)"
proof -
  let ?st = "st\<lparr>rt_agents := (rt_agents st)(p := agent)\<rparr>"
  note core = publish_background_log(1) [OF assms]
  have "runs rp W (mirrors W X st) ?st (mirrors W (X - {p}) ?st) st'"
    by (rule publish_background_runs [OF assms]) (auto simp: mirrors_def hidden_def apply_agent_def Let_def)
  then show ?thesis using core by (auto simp: mirrors_core [OF core] intro: runs_before [rotated 2])
qed

section \<open>Their compositions\<close>

text \<open>Two parts that run one after the other, each with what it makes of the core.\<close>

lemma runs_then:
  assumes "runs rp W P st Q st1 \<and> core st1 = c1" and "runs rp W Q st1 R st2 \<and> core st2 = c2"
  shows "runs rp W P st R st2" and "core st1 = c1" and "core st2 = c2"
  using assms runs_trans by blast+

lemma clear_unseen_runs:
  assumes "clear_unseen enc p st = Some st'"
  shows "runs rp W (mirrors W X st) st (mirrors W X st') st'
    \<and> core st' = core (st\<lparr>rt_bells := rt_bells st - {p}, rt_unseen := rt_unseen st - {p}\<rparr>)"
proof -
  from assms obtain st1 where a: "clear_bell enc p st = Some st1" and b: "set_agent_unseen enc p False st1 = Some st'"
    by (auto simp: clear_unseen_def bind_eq_Some_conv)
  note r = runs_then [OF clear_bell_runs [OF a] set_agent_unseen_runs [OF b]]
  show ?thesis using r by (simp add: core_eq)
qed

lemma clear_terminal_reports_runs:
  assumes "clear_terminal_reports enc p st = Some st'"
  shows "runs rp W (mirrors W X st) st (mirrors W X st') st'
    \<and> core st' = core (st\<lparr>rt_titles := (rt_titles st)(p := None), rt_progress := (rt_progress st)(p := None)\<rparr>)"
proof -
  from assms obtain st1 where a: "clear_title enc p st = Some st1" and b: "clear_progress enc p st1 = Some st'"
    by (auto simp: clear_terminal_reports_def bind_eq_Some_conv)
  note r = runs_then [OF clear_title_runs [OF a] clear_progress_runs [OF b]]
  show ?thesis using r by (simp add: core_eq)
qed

lemma forget_agent_runs:
  assumes "forget_agent enc p st = Some st'"
  shows "runs rp W (mirrors W X st) st (mirrors W X st') st'
    \<and> core st' = core (st\<lparr>rt_agents := (rt_agents st)(p := None),
        rt_unseen := (if rt_agents st p = None then rt_unseen st else rt_unseen st - {p})\<rparr>)"
proof (cases "rt_agents st p = None")
  case True
  then have "(rt_agents st)(p := None) = rt_agents st" by auto
  with True assms show ?thesis by (simp add: forget_agent_def runs_refl core_eq)
next
  case False
  with assms obtain st1
    where a: "publish_background enc (AgentChanged p None) (st\<lparr>rt_agents := (rt_agents st)(p := None)\<rparr>) = Some st1"
      and b: "set_agent_unseen enc p False st1 = Some st'"
    by (auto simp: forget_agent_def bind_eq_Some_conv)
  note r = runs_then [OF agent_published [OF a] set_agent_unseen_runs [OF b]]
  have "runs rp W (mirrors W X st) st (mirrors W X st') st'"
    by (rule runs_weaken [OF r(1)]) (assumption, erule mirrors_weaken, rule Diff_subset)
  then show ?thesis using r(2,3) False by (auto simp: core_eq)
qed

lemma exit_terminal_runs:
  assumes "exit_terminal enc p st = Some st'"
  shows "runs rp W (mirrors W X st) st (mirrors W X st') st'
    \<and> core st' = core (st\<lparr>rt_exited := insert p (rt_exited st)\<rparr>)"
  using assms unfolding exit_terminal_def
  by (rule published_change) (auto simp: core_eq mirrors_def hidden_def)

lemma note_title_runs:
  assumes "note_title enc p title st = Some st'"
  shows "runs rp W (mirrors W X st) st (mirrors W X st') st'
    \<and> core st' = core (case title of None \<Rightarrow> st | Some title \<Rightarrow> st\<lparr>rt_titles := (rt_titles st)(p := title)\<rparr>)"
proof (cases title)
  case (Some t)
  then have step: "(if rt_titles st p = t then Some (st\<lparr>rt_titles := (rt_titles st)(p := t)\<rparr>)
      else publish_background enc (TerminalTitleChanged p t) (st\<lparr>rt_titles := (rt_titles st)(p := t)\<rparr>)) = Some st'"
    using assms by (simp add: note_title_def Let_def split: if_splits)
  have "(if rt_titles st p = t then Some st
      else publish_background enc (TerminalTitleChanged p t) (st\<lparr>rt_titles := (rt_titles st)(p := t)\<rparr>)) = Some st'"
    using step by (cases "rt_titles st p = t") (auto simp: fun_upd_idem)
  then show ?thesis unfolding Some option.case
    by (rule published_change) (auto simp: core_eq mirrors_def hidden_def)
qed (use assms in \<open>simp add: note_title_def runs_refl\<close>)

lemma note_progress_runs:
  assumes "note_progress enc p progress st = Some st'"
  shows "runs rp W (mirrors W X st) st (mirrors W X st') st'
    \<and> core st' = core (case progress of None \<Rightarrow> st | Some progress \<Rightarrow> st\<lparr>rt_progress := (rt_progress st)(p := progress)\<rparr>)"
proof (cases progress)
  case (Some t)
  then have step: "(if rt_progress st p = t then Some (st\<lparr>rt_progress := (rt_progress st)(p := t)\<rparr>)
      else publish_background enc (TerminalProgressChanged p t) (st\<lparr>rt_progress := (rt_progress st)(p := t)\<rparr>)) = Some st'"
    using assms by (simp add: note_progress_def Let_def split: if_splits)
  have "(if rt_progress st p = t then Some st
      else publish_background enc (TerminalProgressChanged p t) (st\<lparr>rt_progress := (rt_progress st)(p := t)\<rparr>)) = Some st'"
    using step by (cases "rt_progress st p = t") (auto simp: fun_upd_idem)
  then show ?thesis unfolding Some option.case
    by (rule published_change) (auto simp: core_eq mirrors_def hidden_def apply_progress_def)
qed (use assms in \<open>simp add: note_progress_def runs_refl\<close>)

lemma note_bell_runs:
  assumes "note_bell enc p bells st = Some st'"
  shows "runs rp W (mirrors W X st) st (mirrors W X st') st'
    \<and> (core st' = core st \<or> core st' = core (st\<lparr>rt_bells := insert p (rt_bells st)\<rparr>))"
proof (cases "0 < bells \<and> \<not> is_focused st p \<and> p \<notin> rt_bells st")
  case True
  with assms have "(if False then Some st else publish_background enc (TerminalAttentionChanged p True)
      (st\<lparr>rt_bells := insert p (rt_bells st)\<rparr>)) = Some st'"
    by (simp add: note_bell_def)
  then have "runs rp W (mirrors W X st) st (mirrors W X st') st'
    \<and> core st' = core (st\<lparr>rt_bells := insert p (rt_bells st)\<rparr>)"
    by (rule published_change) (auto simp: mirrors_def hidden_def)
  then show ?thesis by blast
qed (use assms in \<open>auto simp: note_bell_def runs_refl\<close>)

text \<open>Events no Client keeps.\<close>

lemma publish_all_runs:
  assumes "publish_all enc events st = Some st'"
    and "\<And>event m nxt shown. event \<in> set events \<Longrightarrow> model_event rp nxt shown event m = Some m"
  shows "runs rp W (mirrors W X st) st (mirrors W X st') st' \<and> core st' = core st"
  using assms
proof (induction events arbitrary: st)
  case (Cons event events)
  from Cons.prems(1) obtain st1 where a: "publish_background enc event st = Some st1" and b: "publish_all enc events st1 = Some st'"
    by (auto simp: bind_eq_Some_conv)
  note core = publish_background_log(1) [OF a]
  have "runs rp W (mirrors W X st) st (mirrors W X st1) st1"
    by (rule publish_background_runs [OF a]) (use Cons.prems(2) in \<open>simp add: mirrors_core [OF core]\<close>)
  moreover have "runs rp W (mirrors W X st1) st1 (mirrors W X st') st' \<and> core st' = core st1"
    using Cons.IH [OF b] Cons.prems(2) by simp
  ultimately show ?case using core runs_trans by metis
qed (simp add: runs_refl)

end
