(* ===== verification/Mirror_Terminals.thy ===== *)
theory Mirror_Terminals
  imports Mirror
begin

text \<open>The terminals of the Server carry the relation along: every operation of \<open>Server_Terminals\<close> and \<open>Agent_Control\<close>.\<close>

section \<open>Operations no event speaks of\<close>

named_theorems silent

lemma silent_control [silent]:
  "core (set_control f st) = core st" "rt_log (set_control f st) = rt_log st"
  "rt_sequence (set_control f st) = rt_sequence st"
  by (simp_all add: set_control_def core_eq)

lemma silent_agents [silent]:
  "core (answer_waits enc result st) = core st" "rt_log (answer_waits enc result st) = rt_log st"
  "rt_sequence (answer_waits enc result st) = rt_sequence st"
  by (simp_all add: answer_waits_def Let_def silent core_eq set_control_def)

lemma silent_waits [silent]:
  "core (complete_agent_waits enc running st) = core st" "rt_log (complete_agent_waits enc running st) = rt_log st"
  "rt_sequence (complete_agent_waits enc running st) = rt_sequence st"
  "core (agent_state_changed enc running p st) = core st" "rt_log (agent_state_changed enc running p st) = rt_log st"
  "rt_sequence (agent_state_changed enc running p st) = rt_sequence st"
  "core (agent_process_update p nxt st) = core st" "rt_log (agent_process_update p nxt st) = rt_log st"
  "rt_sequence (agent_process_update p nxt st) = rt_sequence st"
  "core (expire_agent_operations enc now st) = core st" "rt_log (expire_agent_operations enc now st) = rt_log st"
  "rt_sequence (expire_agent_operations enc now st) = rt_sequence st"
  "core (stop_agent_waits enc st) = core st" "rt_log (stop_agent_waits enc st) = rt_log st"
  "rt_sequence (stop_agent_waits enc st) = rt_sequence st"
  "core (reply enc c r st) = core st" "rt_log (reply enc c r st) = rt_log st" "rt_sequence (reply enc c r st) = rt_sequence st"
  by (simp_all add: complete_agent_waits_def agent_state_changed_def agent_process_update_def
      expire_agent_operations_def stop_agent_waits_def reply_def Let_def silent)

lemma silent_forget [silent]:
  "core (forget_agent_control p st) = core st" "rt_log (forget_agent_control p st) = rt_log st"
  "rt_sequence (forget_agent_control p st) = rt_sequence st"
  by (simp_all add: forget_agent_control_def silent) (simp add: core_eq)

lemma silent_clipboard [silent]:
  "core (broadcast_clipboard enc p content st) = core st" "rt_log (broadcast_clipboard enc p content st) = rt_log st"
  "rt_sequence (broadcast_clipboard enc p content st) = rt_sequence st"
  by (simp_all add: broadcast_clipboard_def split: option.splits)

lemma add_agent_wait_silent:
  assumes "add_agent_wait c p kind until needs starting deadline st = (r, st')"
  shows "core st' = core st \<and> rt_log st' = rt_log st \<and> rt_sequence st' = rt_sequence st"
  using assms by (auto simp: add_agent_wait_def silent split: sum.splits)

lemma agent_start_silent:
  assumes "agent_start enc now c launch name kind p args timeout_ms st = (r, st')"
  shows "core st' = core st \<and> rt_log st' = rt_log st \<and> rt_sequence st' = rt_sequence st"
  using assms by (auto simp: agent_start_def Let_def silent dest!: add_agent_wait_silent
      split: if_splits sum.splits option.splits prod.splits)

lemma agent_request_silent:
  assumes "agent_request enc running typed now c installations launch command st = (r, st')"
  shows "core st' = core st \<and> rt_log st' = rt_log st \<and> rt_sequence st' = rt_sequence st"
proof (cases command)
  case (Start name kind p args timeout_ms)
  with assms agent_start_silent show ?thesis by simp
next
  case (Prompt target content until timeout)
  with assms show ?thesis
    by (auto simp: agent_prompt_def Let_def dest!: add_agent_wait_silent split: sum.splits option.splits prod.splits)
next
  case (Wait target until timeout)
  with assms show ?thesis
    by (auto simp: agent_wait_def Let_def dest!: add_agent_wait_silent split: sum.splits prod.splits)
qed (use assms in auto)

lemma handle_agent_silent:
  "core (handle_agent enc running typed now c installations launch command st) = core st
   \<and> rt_log (handle_agent enc running typed now c installations launch command st) = rt_log st
   \<and> rt_sequence (handle_agent enc running typed now c installations launch command st) = rt_sequence st"
proof (cases "ac_waiters (rt_control st) c = None")
  case False
  then show ?thesis by (simp add: handle_agent_def silent_waits)
next
  case True
  obtain r st' where e: "agent_request enc running typed now c installations launch command st = (r, st')" by (metis surj_pair)
  have "handle_agent enc running typed now c installations launch command st = (case r of
      Inr (Some response) \<Rightarrow> reply enc c (Inr response) st' | Inr None \<Rightarrow> complete_agent_waits enc running st'
    | Inl e \<Rightarrow> reply enc c (Inl e) st')"
    using True by (simp add: handle_agent_def e split: sum.split option.split)
  then show ?thesis using agent_request_silent [OF e] by (simp add: silent_waits split: sum.split option.split)
qed

section \<open>Views\<close>

lemma publish_terminal_shape:
  assumes "publish_terminal p frame st = Some (clients, st')"
  shows "(\<forall>view. frame \<noteq> view_frame.Full view) \<and> st' = st
    \<or> (\<exists>v subs. st' = st\<lparr>rt_views := (rt_views st)(p \<mapsto> v), rt_subscribers := subs\<rparr>)"
proof (cases frame)
  case (Full view)
  with assms show ?thesis by (auto simp: publish_terminal_def split: option.splits prod.splits)
next
  case (Delta delta)
  with assms show ?thesis by (auto simp: publish_terminal_def split: option.splits prod.splits sum.splits)
qed

lemma publish_terminal_silent:
  assumes "publish_terminal p frame st = Some (clients, st')"
  shows "rt_log st' = rt_log st" and "rt_sequence st' = rt_sequence st"
    and "core st' = core st \<or> (\<exists>v. core st' = core (st\<lparr>rt_views := (rt_views st)(p \<mapsto> v)\<rparr>))"
    and "frame = view_frame.Full view \<Longrightarrow> \<exists>v. core st' = core (st\<lparr>rt_views := (rt_views st)(p \<mapsto> v)\<rparr>)"
  using publish_terminal_shape [OF assms] by (elim disjE exE conjE; simp add: core_eq)+

lemma install_view_silent:
  assumes "install_view p view st = Some st'"
  shows "rt_log st' = rt_log st" and "rt_sequence st' = rt_sequence st"
    and "\<exists>v. core st' = core (st\<lparr>rt_views := (rt_views st)(p \<mapsto> v)\<rparr>)"
  using assms by (auto simp: install_view_def core_eq split: option.splits)

lemma mirrors_views: "mirrors W X (st\<lparr>rt_views := v\<rparr>) = mirrors W X st"
  by (intro ext) (simp add: mirrors_def hidden_def)

lemma server_ok_views: "server_ok rp nxt st \<Longrightarrow> server_ok rp nxt (st\<lparr>rt_views := (rt_views st)(p \<mapsto> v)\<rparr>)"
  by (auto simp: server_ok_def present_def hidden_def)

section \<open>Installing\<close>

lemma install_terminal_runs:
  assumes step: "install_terminal enc p view st = Some (instance_id, st')" and agent: "rt_agents st p = None"
  shows "runs rp W (mirrors W X st) st (mirrors W X st') st'"
    and "\<exists>v. core st' = core (st\<lparr>rt_titles := (rt_titles st)(p := None), rt_progress := (rt_progress st)(p := None),
      rt_bells := rt_bells st - {p}, rt_unseen := rt_unseen st - {p}, rt_views := (rt_views st)(p \<mapsto> v),
      rt_terminals := List.insert p (rt_terminals st), rt_instances := (rt_instances st)(p \<mapsto> instance_id),
      rt_closing := rt_closing st - {p}\<rparr>)"
proof -
  let ?st = "forget_agent_control p (st\<lparr>rt_next_instance := next_instance (rt_next_instance st)\<rparr>)"
  from step obtain st1 st2 st3 where a: "clear_terminal_reports enc p ?st = Some st1"
    and b: "clear_unseen enc p st1 = Some st2" and c: "install_view p view st2 = Some st3"
    and st': "st' = st3\<lparr>rt_terminals := List.insert p (rt_terminals st3),
        rt_instances := (rt_instances st3)(p \<mapsto> instance_id), rt_closing := rt_closing st3 - {p}\<rparr>"
    by (auto simp: install_terminal_def Let_def bind_eq_Some_conv)
  have start: "core ?st = core st" by (simp add: silent core_eq)
  note r = runs_then [OF clear_terminal_reports_runs [OF a] clear_unseen_runs [OF b]]
  from install_view_silent(3) [OF c] obtain v where v: "core st3 = core (st2\<lparr>rt_views := (rt_views st2)(p \<mapsto> v)\<rparr>)" by blast
  have c3: "core st3 = core (st\<lparr>rt_titles := (rt_titles st)(p := None), rt_progress := (rt_progress st)(p := None),
      rt_bells := rt_bells st - {p}, rt_unseen := rt_unseen st - {p}, rt_views := (rt_views st)(p \<mapsto> v)\<rparr>)"
    using v r(2,3) start by (simp add: core_eq)
  then show "\<exists>v. core st' = core (st\<lparr>rt_titles := (rt_titles st)(p := None), rt_progress := (rt_progress st)(p := None),
      rt_bells := rt_bells st - {p}, rt_unseen := rt_unseen st - {p}, rt_views := (rt_views st)(p \<mapsto> v),
      rt_terminals := List.insert p (rt_terminals st), rt_instances := (rt_instances st)(p \<mapsto> instance_id),
      rt_closing := rt_closing st - {p}\<rparr>)"
    unfolding st' by (intro exI [of _ v]) (simp add: core_eq)
  have m23: "mirrors W X st3 = mirrors W X st2" unfolding mirrors_core [OF v] by (rule mirrors_views)
  have agents: "rt_agents st3 p = None" and unseen: "p \<notin> rt_unseen st3" using c3 agent by (simp_all add: core_eq)
  have "mirrors W X st' m" if "mirrors W X st3 m" for m
    using that agents unseen unfolding st' by (auto simp: mirrors_def hidden_def)
  then have "runs rp W (mirrors W X st2) st2 (mirrors W X st') st'"
    using install_view_silent(1,2) [OF c] by (intro runs_silent) (simp_all add: st' m23)
  with r(1) have "runs rp W (mirrors W X ?st) ?st (mirrors W X st') st'" by (rule runs_trans)
  then show "runs rp W (mirrors W X st) st (mirrors W X st') st'"
    unfolding mirrors_core [OF start] by (rule runs_before [rotated 2]) (simp_all add: silent)
qed

text \<open>What a terminal adds and takes away, for the invariant.\<close>

lemma server_ok_install:
  assumes "server_ok rp nxt st" and "core st' = core (st\<lparr>rt_titles := (rt_titles st)(p := None), rt_progress := (rt_progress st)(p := None),
      rt_bells := rt_bells st - {p}, rt_unseen := rt_unseen st - {p}, rt_views := (rt_views st)(p \<mapsto> v),
      rt_terminals := List.insert p (rt_terminals st), rt_instances := (rt_instances st)(p \<mapsto> instance_id),
      rt_closing := rt_closing st - {p}\<rparr>)"
    and "p \<in> set (session_pane_ids (rt_session st))"
  shows "server_ok rp nxt st'"
proof -
  note c = assms(2) [unfolded core_eq, simplified]
  have here: "present st' = insert p (present st)" and away: "hidden st - {p} \<subseteq> hidden st'"
    using c by (auto simp: present_def hidden_def)
  note ok = server_okD [OF assms(1)]
  have eqs: "rt_unseen st' = rt_unseen st - {p}" "rt_agents st' = rt_agents st" "rt_bells st' = rt_bells st - {p}"
    "rt_exited st' = rt_exited st" "rt_session st' = rt_session st" "rt_git st' = rt_git st"
    "dom (rt_views st') = insert p (dom (rt_views st))" "set (rt_terminals st') = insert p (set (rt_terminals st))"
    "rt_titles st' = (rt_titles st)(p := None)" "rt_progress st' = (rt_progress st)(p := None)"
    "rt_instances st' = (rt_instances st)(p \<mapsto> instance_id)"
    using c by simp_all
  have unseen: "rt_unseen st' \<subseteq> dom (rt_agents st') \<union> hidden st'"
    unfolding eqs using ok(10) away by blast
  have inst: "dom (rt_instances st') \<subseteq> set (rt_terminals st')" unfolding eqs using ok(9) by auto
  show ?thesis
    unfolding server_ok_def here
    using ok(1-8) ok(11) assms(3) unseen inst by (simp add: eqs) blast
qed

section \<open>Working directories and resumes\<close>

lemma zoomed_panes_bare: "zoomed_panes (bare_session s) = zoomed_panes s"
proof -
  have app: "List.map_filter f (xs @ ys) = List.map_filter f xs @ List.map_filter f ys" for f :: "tab \<Rightarrow> pane_id option" and xs ys
    by (simp add: List.map_filter_def)
  have tabs: "List.map_filter tab_zoomed_pane_id (map bare_tab ts) = List.map_filter tab_zoomed_pane_id ts" for ts
    by (induction ts) (simp_all add: List.map_filter_simps split: option.split)
  have "List.map_filter tab_zoomed_pane_id (concat (map w_tabs (map (\<lambda>w. w\<lparr>w_tabs := map bare_tab (w_tabs w)\<rparr>) ws)))
      = List.map_filter tab_zoomed_pane_id (concat (map w_tabs ws))" for ws
    by (induction ws) (simp_all add: app tabs)
  from this [of "workspaces s"] show ?thesis by (simp add: zoomed_panes_def bare_session_def)
qed

text \<open>What those change of a Session.\<close>

definition same_bare :: "relpath_api \<Rightarrow> u64 \<Rightarrow> session \<Rightarrow> session \<Rightarrow> bool" where
  "same_bare rp nxt s s' \<longleftrightarrow> bare_session s' = bare_session s \<and> (session_inv rp nxt s \<longrightarrow> session_inv rp nxt s')"

lemma same_bare_refl [simp]: "same_bare rp nxt s s"
  by (simp add: same_bare_def)

lemma same_bare_trans: "same_bare rp nxt s s' \<Longrightarrow> same_bare rp nxt s' s'' \<Longrightarrow> same_bare rp nxt s s''"
  by (simp add: same_bare_def)

lemma put_cwd_same: "put_cwd s p cwd = Some s' \<Longrightarrow> same_bare rp nxt s s'"
  using set_pane_cwd_bare set_pane_cwd_inv by (fastforce simp: put_cwd_def same_bare_def)

lemma set_resume_same: "set_pane_agent_resume s p resume = Some (r, s') \<Longrightarrow> same_bare rp nxt s s'"
  using set_pane_agent_resume_bare set_pane_agent_resume_inv by (fastforce simp: same_bare_def)

lemma cwd_updates_same: "cwd_updates cwds s = Some (s', updates) \<Longrightarrow> same_bare rp nxt s s'"
proof (induction cwds arbitrary: s updates)
  case (Cons entry cwds)
  obtain p cwd where e: "entry = (p, cwd)" by (metis surj_pair)
  show ?case
  proof (cases "get_pane s p = None \<or> (\<exists>pane. get_pane s p = Some pane \<and> p_cwd pane = Some cwd)")
    case True
    with Cons show ?thesis by (auto simp: e split: option.splits)
  next
    case False
    with Cons.prems obtain s1 updates' where "put_cwd s p (Some cwd) = Some s1" "cwd_updates cwds s1 = Some (s', updates')"
      by (auto simp: e bind_eq_Some_conv split: option.splits if_splits)
    with Cons.IH put_cwd_same same_bare_trans show ?thesis by blast
  qed
qed simp

lemma cwd_accept_same: "cwd_accept persistable updates s = Some (s', accepted) \<Longrightarrow> same_bare rp nxt s s'"
proof (induction updates arbitrary: s accepted)
  case (Cons entry updates)
  obtain p cwd where e: "entry = (p, cwd)" by (metis surj_pair)
  from Cons.prems obtain s1 s2 accepted' where a: "put_cwd s p (Some cwd) = Some s1"
    and b: "s2 = s1 \<or> (\<exists>previous. put_cwd s1 p previous = Some s2)" and c: "cwd_accept persistable updates s2 = Some (s', accepted')"
    by (auto simp: e Let_def bind_eq_Some_conv split: if_splits)
  from b have "same_bare rp nxt s1 s2" using put_cwd_same by auto
  with put_cwd_same [OF a] Cons.IH [OF c] show ?case using same_bare_trans by blast
qed simp

lemma record_terminal_cwds_same:
  assumes "record_terminal_cwds persistable cwds st = Some (recorded, st')"
  shows "\<exists>s'. st' = st\<lparr>rt_session := s'\<rparr> \<and> (\<forall>rp nxt. same_bare rp nxt (rt_session st) s')"
proof -
  from assms obtain s1 updates where u: "cwd_updates cwds (rt_session st) = Some (s1, updates)"
    by (auto simp: record_terminal_cwds_def bind_eq_Some_conv)
  then consider "st' = st" | "st' = st\<lparr>rt_session := s1\<rparr>"
    | s2 accepted where "cwd_accept persistable updates (rt_session st) = Some (s2, accepted)" "st' = st\<lparr>rt_session := s2\<rparr>"
    using assms by (auto simp: record_terminal_cwds_def bind_eq_Some_conv split: if_splits)
  then show ?thesis
  proof cases
    case 1 then show ?thesis by (intro exI [of _ "rt_session st"]) simp
  next
    case 2 then show ?thesis using cwd_updates_same [OF u] by (intro exI [of _ s1]) simp
  next
    case 3 then show ?thesis using cwd_accept_same by (intro exI [of _ s2]) simp
  qed
qed

lemma record_agent_resume_same:
  assumes "record_agent_resume persistable p resume st = Some st'"
  shows "\<exists>s'. st' = st\<lparr>rt_session := s'\<rparr> \<and> (\<forall>rp nxt. same_bare rp nxt (rt_session st) s')"
proof -
  let ?resume = "if p \<in> rt_exited st then None else resume"
  let ?previous = "Option.bind (get_pane (rt_session st) p) p_resume"
  from assms obtain changed s1 where a: "set_pane_agent_resume (rt_session st) p ?resume = Some (changed, s1)"
    by (auto simp: record_agent_resume_def Let_def bind_eq_Some_conv)
  have "st' = st\<lparr>rt_session := s1\<rparr> \<or> (\<exists>r s2. set_pane_agent_resume s1 p ?previous = Some (r, s2) \<and> st' = st\<lparr>rt_session := s2\<rparr>)"
    using assms by (simp add: record_agent_resume_def Let_def a bind_eq_Some_conv split: if_splits prod.splits) blast
  then show ?thesis
  proof
    assume "st' = st\<lparr>rt_session := s1\<rparr>"
    then show ?thesis using set_resume_same [OF a] by blast
  next
    assume "\<exists>r s2. set_pane_agent_resume s1 p ?previous = Some (r, s2) \<and> st' = st\<lparr>rt_session := s2\<rparr>"
    then obtain r s2 where b: "set_pane_agent_resume s1 p ?previous = Some (r, s2)" and st': "st' = st\<lparr>rt_session := s2\<rparr>" by blast
    have "same_bare rp nxt (rt_session st) s2" for rp nxt
      using set_resume_same [OF a] set_resume_same [OF b] by (rule same_bare_trans)
    then show ?thesis using st' by blast
  qed
qed

lemma mirrors_session:
  assumes "same_bare rp nxt (rt_session st) s'"
  shows "mirrors W X (st\<lparr>rt_session := s'\<rparr>) = mirrors W X st"
proof -
  from assms have bare: "bare_session s' = bare_session (rt_session st)" by (simp add: same_bare_def)
  then have "zoomed_panes s' = zoomed_panes (rt_session st)" by (metis zoomed_panes_bare)
  with bare show ?thesis by (intro ext) (simp add: mirrors_def hidden_def)
qed

lemma server_ok_session:
  assumes ok: "server_ok rp nxt st" and same: "same_bare rp nxt (rt_session st) s'"
  shows "server_ok rp nxt (st\<lparr>rt_session := s'\<rparr>)"
proof -
  from same have bare: "bare_session s' = bare_session (rt_session st)"
    and inv: "session_inv rp nxt (rt_session st) \<Longrightarrow> session_inv rp nxt s'" by (simp_all add: same_bare_def)
  show ?thesis using ok inv by (simp add: server_ok_def present_def hidden_def bare_same_ids [OF bare])
qed

section \<open>A terminal that ended\<close>

text \<open>The exited Pane is told of; its agent may have been left out of a Bootstrap before, and may be now.\<close>

lemma exited_mirror:
  assumes "mirrors W X st m"
    and "rt_server_id st' = rt_server_id st" "rt_session_id st' = rt_session_id st" "rt_epoch st' = rt_epoch st"
      "bare_session (rt_session st') = bare_session (rt_session st)" "rt_settings st' = rt_settings st"
      "rt_exited st' = insert p (rt_exited st)" "rt_titles st' = rt_titles st" "rt_progress st' = rt_progress st"
      "rt_bells st' = rt_bells st" "rt_git st' = rt_git st" "rt_agents st' = rt_agents st" "rt_unseen st' = rt_unseen st"
      "rt_closing st - {p} \<subseteq> rt_closing st'"
  shows "mirrors W X st' (m\<lparr>sm_exited := insert p (sm_exited m)\<rparr>)"
proof -
  have zoom: "zoomed_panes (rt_session st') = zoomed_panes (rt_session st)" using assms(5) by (metis zoomed_panes_bare)
  have "hidden st \<subseteq> hidden st'" using assms(7,14) by (auto simp: hidden_def)
  then have agents: "\<forall>q. q \<notin> X \<longrightarrow> sm_agents m q = rt_agents st' q \<or> q \<in> hidden st' \<and> sm_agents m q = None"
    and unseen: "rt_unseen st' \<subseteq> sm_unseen m \<union> W \<union> hidden st'"
    using assms(1,12,13) unfolding mirrors_def by (metis subsetD, blast)
  show ?thesis using assms(1-13) zoom agents unseen by (simp add: mirrors_def)
qed

text \<open>Then its reports and its agent go.\<close>

lemma after_exit_runs:
  assumes "clear_terminal_reports enc p st = Some st1" and "forget_agent enc p st1 = Some st'"
  shows "runs rp W (mirrors W X st) st (mirrors W X st') st'"
    and "core st' = core (st\<lparr>rt_titles := (rt_titles st)(p := None), rt_progress := (rt_progress st)(p := None),
      rt_agents := (rt_agents st)(p := None),
      rt_unseen := (if rt_agents st p = None then rt_unseen st else rt_unseen st - {p})\<rparr>)"
proof -
  note r = runs_then [OF clear_terminal_reports_runs [OF assms(1)] forget_agent_runs [OF assms(2)]]
  show "runs rp W (mirrors W X st) st (mirrors W X st') st'" by (rule r(1))
  show "core st' = core (st\<lparr>rt_titles := (rt_titles st)(p := None), rt_progress := (rt_progress st)(p := None),
      rt_agents := (rt_agents st)(p := None),
      rt_unseen := (if rt_agents st p = None then rt_unseen st else rt_unseen st - {p})\<rparr>)"
    using r(2,3) by (simp add: core_eq)
qed

lemma server_ok_ended:
  assumes ok: "server_ok rp nxt st" and inv: "session_inv rp nxt (rt_session st')"
    and bare: "bare_session (rt_session st') = bare_session (rt_session st)" and p: "p \<in> set (session_pane_ids (rt_session st))"
    and eqs: "set (rt_terminals st') = insert p (set (rt_terminals st))" "rt_closing st' = rt_closing st - {p}"
      "rt_exited st' = insert p (rt_exited st)" "rt_bells st' = rt_bells st" "rt_git st' = rt_git st"
      "rt_titles st' = (rt_titles st)(p := None)" "rt_progress st' = (rt_progress st)(p := None)"
      "rt_agents st' = (rt_agents st)(p := None)" "rt_unseen st' \<subseteq> rt_unseen st"
      "dom (rt_instances st') \<subseteq> insert p (dom (rt_instances st))" "dom (rt_views st') = insert p (dom (rt_views st))"
  shows "server_ok rp nxt st'"
proof -
  note okd = server_okD [OF ok]
  have here: "present st' = insert p (present st)" and away: "hidden st' = insert p (hidden st)"
    using eqs(1,2,3) by (auto simp: present_def hidden_def)
  have unseen: "rt_unseen st' \<subseteq> dom (rt_agents st') \<union> hidden st'"
    unfolding away eqs(8) using okd(10) eqs(9) by auto
  have inst: "dom (rt_instances st') \<subseteq> set (rt_terminals st')" unfolding eqs(1) using okd(9) eqs(10) by blast
  show ?thesis
    unfolding server_ok_def here
    using okd(2-8) okd(11) inv p unseen inst by (simp add: eqs(3-8,11) bare_same_ids [OF bare]) blast
qed

lemma restore_exited_terminal_runs:
  assumes step: "restore_exited_terminal enc p view st = Some (restored, st')"
  shows "runs rp W (mirrors W X st) st (mirrors W X st') st'" and "server_ok rp nxt st \<Longrightarrow> server_ok rp nxt st'"
    and "rt_session st' = rt_session st" and "rt_exited st' \<subseteq> insert p (rt_exited st)"
    and "set (rt_terminals st) \<subseteq> set (rt_terminals st')" and "set (rt_terminals st') \<subseteq> insert p (set (rt_terminals st))"
proof -
  have "runs rp W (mirrors W X st) st (mirrors W X st') st' \<and> (server_ok rp nxt st \<longrightarrow> server_ok rp nxt st')
    \<and> rt_session st' = rt_session st \<and> rt_exited st' \<subseteq> insert p (rt_exited st)
    \<and> set (rt_terminals st) \<subseteq> set (rt_terminals st') \<and> set (rt_terminals st') \<subseteq> insert p (set (rt_terminals st))"
  proof (cases "get_pane (rt_session st) p = None \<or> p \<in> set (rt_terminals st)")
    case True
    with step have "st' = st" by (simp add: restore_exited_terminal_def)
    then show ?thesis by (auto simp: runs_refl)
  next
    case False
    let ?st = "forget_agent_control p (st\<lparr>rt_instances := (rt_instances st)(p := None)\<rparr>)"
    let ?st0 = "?st\<lparr>rt_closing := rt_closing ?st - {p}, rt_terminals := List.insert p (rt_terminals ?st)\<rparr>"
    from step False obtain clients st1 st2 st3 where a: "publish_terminal p (view_frame.Full view) ?st0 = Some (clients, st1)"
      and b: "exit_terminal enc p st1 = Some st2" and c: "clear_terminal_reports enc p st2 = Some st3"
      and d: "forget_agent enc p st3 = Some st'"
      by (auto simp: restore_exited_terminal_def Let_def bind_eq_Some_conv)
    have start: "core ?st0 = core (st\<lparr>rt_instances := (rt_instances st)(p := None), rt_closing := rt_closing st - {p},
        rt_terminals := List.insert p (rt_terminals st)\<rparr>)"
      using silent_forget(1) [of p "st\<lparr>rt_instances := (rt_instances st)(p := None)\<rparr>"] by (simp add: core_eq)
    from publish_terminal_silent(4) [OF a refl] obtain v where v: "core st1 = core (?st0\<lparr>rt_views := (rt_views ?st0)(p \<mapsto> v)\<rparr>)" by blast
    have log1: "rt_log st1 = rt_log st" "rt_sequence st1 = rt_sequence st"
      using publish_terminal_silent(1,2) [OF a] by (simp_all add: silent)
    have c1: "core st1 = core (st\<lparr>rt_instances := (rt_instances st)(p := None), rt_closing := rt_closing st - {p},
        rt_terminals := List.insert p (rt_terminals st), rt_views := (rt_views st)(p \<mapsto> v)\<rparr>)"
      using v start by (simp add: core_eq)
    let ?st2 = "st1\<lparr>rt_exited := insert p (rt_exited st1)\<rparr>"
    have c2: "core st2 = core ?st2" using exit_terminal_runs [OF b] by blast
    have mirror: "mirrors W X st m \<Longrightarrow> mirrors W X ?st2 (m\<lparr>sm_exited := insert p (sm_exited m)\<rparr>)" for m
      by (rule exited_mirror) (use c1 in \<open>auto simp: core_eq\<close>)
    have "runs rp W (mirrors W X st) st1 (mirrors W X st2) st2"
    proof (cases "p \<in> rt_exited st1")
      case True
      with b have "st2 = st1" "?st2 = st1" by (simp_all add: exit_terminal_def insert_absorb)
      moreover have "mirrors W X st m \<Longrightarrow> mirrors W X st1 m" for m
      proof -
        assume m: "mirrors W X st m"
        then have "p \<in> sm_exited m" using True c1 by (simp add: mirrors_def core_eq)
        then have "m\<lparr>sm_exited := insert p (sm_exited m)\<rparr> = m" by (simp add: insert_absorb)
        with mirror [OF m] \<open>?st2 = st1\<close> show "mirrors W X st1 m" by simp
      qed
      ultimately show ?thesis by (simp add: runs_silent)
    next
      case False
      with b have pub: "publish_background enc (TerminalExited p) ?st2 = Some st2" by (simp add: exit_terminal_def)
      have "runs rp W (mirrors W X st) ?st2 (mirrors W X ?st2) st2"
        by (rule publish_background_runs [OF pub]) (use mirror in simp)
      then show ?thesis unfolding mirrors_core [OF c2] by (rule runs_before [rotated 2]) simp_all
    qed
    then have first: "runs rp W (mirrors W X st) st (mirrors W X st2) st2" by (rule runs_before [OF log1])
    note after = after_exit_runs [OF c d]
    have eqs: "rt_session st' = rt_session st" "set (rt_terminals st') = insert p (set (rt_terminals st))"
      "rt_closing st' = rt_closing st - {p}" "rt_exited st' = insert p (rt_exited st)" "rt_bells st' = rt_bells st"
      "rt_git st' = rt_git st" "rt_titles st' = (rt_titles st)(p := None)" "rt_progress st' = (rt_progress st)(p := None)"
      "rt_agents st' = (rt_agents st)(p := None)" "rt_unseen st' \<subseteq> rt_unseen st"
      "rt_instances st' = (rt_instances st)(p := None)" "dom (rt_views st') = insert p (dom (rt_views st))"
      using after(2) c1 c2 by (auto simp: core_eq)
    have ok: "server_ok rp nxt st'" if "server_ok rp nxt st"
      using that False get_pane_ids by (intro server_ok_ended [OF that, of st' p])
        (auto simp: eqs server_okD(1) [OF that] simp del: fun_upd_apply)
    show ?thesis using runs_trans [OF first after(1)] ok by (auto simp: eqs(1-4))
  qed
  then show "runs rp W (mirrors W X st) st (mirrors W X st') st'" and "server_ok rp nxt st \<Longrightarrow> server_ok rp nxt st'"
    and "rt_session st' = rt_session st" and "rt_exited st' \<subseteq> insert p (rt_exited st)"
    and "set (rt_terminals st) \<subseteq> set (rt_terminals st')" and "set (rt_terminals st') \<subseteq> insert p (set (rt_terminals st))"
    by blast+
qed

section \<open>Steps\<close>

text \<open>What a whole critical section owes: it keeps the invariant and, from a state that has it, the relation.\<close>

definition carries where
  "carries rp W nxt st nxt' st' \<longleftrightarrow> (server_ok rp nxt st \<longrightarrow>
     server_ok rp nxt' st' \<and> runs rp W (mirrors W {} st) st (mirrors W {} st') st')"

lemma carries_refl [simp]: "carries rp W nxt st nxt st"
  by (simp add: carries_def runs_refl)

lemma carries_trans: "carries rp W nxt st nxt1 st1 \<Longrightarrow> carries rp W nxt1 st1 nxt2 st2 \<Longrightarrow> carries rp W nxt st nxt2 st2"
  unfolding carries_def using runs_trans by blast

lemma carries_silent:
  assumes "core st' = core st" and "rt_log st' = rt_log st" and "rt_sequence st' = rt_sequence st"
  shows "carries rp W nxt st nxt st'"
  unfolding carries_def core_cong(1) [OF assms(1)] mirrors_core [OF assms(1)]
  using assms(2,3) by (simp add: runs_silent)

lemma carries_core:
  assumes "\<And>X. runs rp W (mirrors W X st) st (mirrors W X st') st' \<and> core st' = core st1"
    and "server_ok rp nxt st \<Longrightarrow> server_ok rp nxt st1"
  shows "carries rp W nxt st nxt st'"
  unfolding carries_def using assms core_cong(1) [of st' st1] by blast

lemma carries_session:
  assumes "\<And>rp nxt. same_bare rp nxt (rt_session st) s'"
  shows "carries rp W nxt st nxt (st\<lparr>rt_session := s'\<rparr>)"
  unfolding carries_def mirrors_session [OF assms] using server_ok_session [OF _ assms] by (simp add: runs_silent)

lemma record_terminal_cwds_carries:
  "record_terminal_cwds persistable cwds st = Some (recorded, st') \<Longrightarrow> carries rp W nxt st nxt st'"
  using record_terminal_cwds_same carries_session by blast

lemma record_agent_resume_carries:
  "record_agent_resume persistable p resume st = Some st' \<Longrightarrow> carries rp W nxt st nxt st'"
  using record_agent_resume_same carries_session by blast

lemma server_ok_reports:
  assumes ok: "server_ok rp nxt st"
  shows "server_ok rp nxt (st\<lparr>rt_bells := rt_bells st - {p}, rt_unseen := rt_unseen st - {p}\<rparr>)"
    and "p \<in> present st \<Longrightarrow> server_ok rp nxt (st\<lparr>rt_titles := (rt_titles st)(p := title)\<rparr>)"
    and "p \<in> present st \<Longrightarrow> server_ok rp nxt (st\<lparr>rt_progress := (rt_progress st)(p := progress)\<rparr>)"
    and "p \<in> present st \<Longrightarrow> server_ok rp nxt (st\<lparr>rt_bells := insert p (rt_bells st)\<rparr>)"
  using server_okD [OF ok] by (auto simp: server_ok_def present_def hidden_def)

lemma clear_unseen_carries: "clear_unseen enc p st = Some st' \<Longrightarrow> carries rp W nxt st nxt st'"
  by (rule carries_core [OF clear_unseen_runs server_ok_reports(1)])

section \<open>Focus and leaving\<close>

lemma record_terminal_focus_carries:
  assumes "record_terminal_focus enc p c focused st = Some (hears, st')"
  shows "carries rp W nxt st nxt st'"
proof (cases focused)
  case True
  let ?st = "(case rt_focused st of Some (q, _) \<Rightarrow> if q \<noteq> p then clear_terminal_focus st else st | None \<Rightarrow> st)
    \<lparr>rt_focused := Some (p, c), rt_sizing := Some c\<rparr>"
  from assms True have "clear_unseen enc p ?st = Some st'"
    by (auto simp: record_terminal_focus_def Let_def bind_eq_Some_conv)
  moreover have "carries rp W nxt st nxt ?st"
    by (rule carries_silent) (auto simp: core_eq clear_terminal_focus_def split: option.split)
  ultimately show ?thesis using clear_unseen_carries carries_trans by blast
next
  case False
  with assms show ?thesis
    by (intro carries_silent) (auto simp: record_terminal_focus_def Let_def core_eq split: if_splits)
qed

lemma client_leaves_carries: "carries rp W nxt st nxt (client_leaves c st)"
proof -
  have "core (release_client_terminal_state c st) = core st \<and> rt_log (release_client_terminal_state c st) = rt_log st
      \<and> rt_sequence (release_client_terminal_state c st) = rt_sequence st" for st :: "('a, 'b) runtime"
    by (auto simp: release_client_terminal_state_def Let_def clear_terminal_focus_def core_eq split: option.split)
  then show ?thesis
    by (intro carries_silent) (simp_all add: client_leaves_def Let_def silent core_eq set_control_def)
qed

section \<open>Agents\<close>

lemma current_present:
  assumes "server_ok rp nxt st" and "terminal_is_current st p instance_id"
  shows "p \<in> present st" and "p \<in> set (rt_terminals st)"
  using server_okD(9) [OF assms(1)] assms(2) by (auto simp: terminal_is_current_def present_def)

lemma server_ok_agent:
  assumes ok: "server_ok rp nxt st" and p: "p \<in> present st"
    and unseen: "unseen' - {p} \<subseteq> rt_unseen st" "p \<in> unseen' \<Longrightarrow> agent \<noteq> None"
  shows "server_ok rp nxt (st\<lparr>rt_agents := (rt_agents st)(p := agent), rt_unseen := unseen'\<rparr>)"
proof -
  note okd = server_okD [OF ok]
  have "unseen' \<subseteq> dom ((rt_agents st)(p := agent)) \<union> hidden st"
  proof
    fix q assume "q \<in> unseen'"
    with unseen okd(10) show "q \<in> dom ((rt_agents st)(p := agent)) \<union> hidden st" by (cases "q = p") auto
  qed
  then show ?thesis using okd p by (simp add: server_ok_def present_def hidden_def) auto
qed

lemma apply_agent_refresh_carries:
  assumes step: "apply_agent_refresh enc running p nxt_agent st = Some st'" and current: "terminal_is_current st p instance_id"
  shows "carries rp W nxt st nxt st'"
proof (cases "rt_agents st p = nxt_agent")
  case True
  with step have "st' = complete_agent_waits enc running st" by (simp add: apply_agent_refresh_def)
  then show ?thesis by (simp add: carries_silent silent)
next
  case False
  let ?unseen = "unseen_after st p (rt_agents st p) nxt_agent"
  from step False obtain st1 st2
    where a: "publish_background enc (AgentChanged p nxt_agent) (st\<lparr>rt_agents := (rt_agents st)(p := nxt_agent)\<rparr>) = Some st1"
    and b: "(case ?unseen of Some unseen \<Rightarrow> set_agent_unseen enc p unseen st1 | None \<Rightarrow> Some st1) = Some st2"
    and st': "st' = agent_state_changed enc running p st2"
    by (auto simp: apply_agent_refresh_def Let_def bind_eq_Some_conv)
  define unseen' where "unseen' = (case ?unseen of Some True \<Rightarrow> insert p (rt_unseen st) | Some False \<Rightarrow> rt_unseen st - {p} | None \<Rightarrow> rt_unseen st)"
  have second: "runs rp W (mirrors W {} st1) st1 (mirrors W {} st2) st2 \<and> core st2 = core (st1\<lparr>rt_unseen := (case ?unseen of
      Some True \<Rightarrow> insert p (rt_unseen st1) | Some False \<Rightarrow> rt_unseen st1 - {p} | None \<Rightarrow> rt_unseen st1)\<rparr>)"
  proof (cases ?unseen)
    case (Some unseen)
    with b have "set_agent_unseen enc p unseen st1 = Some st2" by simp
    from set_agent_unseen_runs [OF this] show ?thesis by (cases unseen) (simp_all add: Some)
  qed (use b in \<open>simp add: runs_refl core_eq\<close>)
  have empty: "({} :: pane_id set) - {p} = {}" by simp
  note r = runs_then [OF agent_published [OF a, where X = "{}", unfolded empty] second]
  have core: "core st' = core (st\<lparr>rt_agents := (rt_agents st)(p := nxt_agent), rt_unseen := unseen'\<rparr>)"
  proof -
    have "core st' = core st2" by (simp add: st' silent)
    moreover have "rt_unseen st1 = rt_unseen st" using r(2) by (simp add: core_eq)
    ultimately show ?thesis using r(2,3)
      by (cases ?unseen) (auto simp: core_eq unseen'_def split: bool.splits)
  qed
  have runs: "runs rp W (mirrors W {} st) st (mirrors W {} st') st'"
    using r(1) unfolding st' mirrors_core [OF silent_waits(4)] by (rule runs_after [rotated 2]) (simp_all add: silent)
  have "server_ok rp nxt st'" if ok: "server_ok rp nxt st"
    unfolding core_cong(1) [OF core]
  proof (rule server_ok_agent [OF ok current_present(1) [OF ok current]])
    show "unseen' - {p} \<subseteq> rt_unseen st" by (auto simp: unseen'_def split: option.splits bool.splits)
    assume "p \<in> unseen'"
    then show "nxt_agent \<noteq> None" by (auto simp: unseen'_def unseen_after_def agent_done_def split: option.splits if_splits bool.splits)
  qed
  with runs show ?thesis by (simp add: carries_def)
qed

lemma probe_update_carries:
  assumes step: "probe_update enc persistable running p instance_id cwd resume agent update st = Some st'"
  shows "carries rp W nxt st nxt st'"
proof (cases "terminal_is_current st p instance_id")
  case True
  from step True obtain st1 st2
    where a: "(case cwd of Some cwd \<Rightarrow> map_option snd (record_terminal_cwds persistable [(p, cwd)] st) | None \<Rightarrow> Some st) = Some st1"
      and b: "(case resume of Some resume \<Rightarrow> record_agent_resume persistable p resume st1 | None \<Rightarrow> Some st1) = Some st2"
      and c: "(case update of Some nxt_agent \<Rightarrow> apply_agent_refresh enc running p nxt_agent (agent_process_update p agent st2)
          | None \<Rightarrow> Some st2) = Some st'"
    by (auto simp: probe_update_def bind_eq_Some_conv)
  have first: "carries rp W nxt st nxt st1 \<and> rt_instances st1 = rt_instances st"
    using a record_terminal_cwds_carries record_terminal_cwds_same by (fastforce split: option.splits)
  have second: "carries rp W nxt st1 nxt st2 \<and> rt_instances st2 = rt_instances st1"
    using b record_agent_resume_carries record_agent_resume_same by (fastforce split: option.splits)
  have process: "carries rp W nxt st2 nxt (agent_process_update p agent st2)" by (rule carries_silent) (simp_all add: silent)
  have "rt_instances (agent_process_update p agent st2) = rt_instances st2"
    using silent_waits(7) [of p agent st2] by (simp add: core_eq)
  with first second True have "terminal_is_current (agent_process_update p agent st2) p instance_id"
    by (simp add: terminal_is_current_def)
  then have "carries rp W nxt st2 nxt st'"
    using c apply_agent_refresh_carries process carries_trans by (fastforce split: option.splits)
  with first second carries_trans show ?thesis by blast
qed (use step in \<open>simp add: probe_update_def\<close>)

lemma probe_panicked_carries:
  assumes "probe_panicked enc running p instance_id st = Some st'"
  shows "carries rp W nxt st nxt st'"
  using assms apply_agent_refresh_carries by (fastforce simp: probe_panicked_def split: option.splits if_splits)

section \<open>Notices and frames\<close>

lemma note_title_carries:
  assumes "note_title enc p title st = Some st'" and "p \<in> present st"
  shows "carries rp W nxt st nxt st'"
  by (rule carries_core [OF note_title_runs [OF assms(1)]])
     (use assms(2) server_ok_reports(2) in \<open>auto split: option.split\<close>)

lemma note_progress_carries:
  assumes "note_progress enc p progress st = Some st'" and "p \<in> present st"
  shows "carries rp W nxt st nxt st'"
  by (rule carries_core [OF note_progress_runs [OF assms(1)]])
     (use assms(2) server_ok_reports(3) in \<open>auto split: option.split\<close>)

lemma note_bell_carries:
  assumes "note_bell enc p bells st = Some st'" and "p \<in> present st"
  shows "carries rp W nxt st nxt st'"
  unfolding carries_def
  using note_bell_runs [OF assms(1)] core_cong(1) server_ok_reports(4) [OF _ assms(2)] by metis

lemma publish_all_carries:
  assumes "publish_all enc events st = Some st'"
    and "\<And>event m nxt shown. event \<in> set events \<Longrightarrow> model_event rp nxt shown event m = Some m"
  shows "carries rp W nxt st nxt st' \<and> core st' = core st"
  using publish_all_runs [OF assms] carries_core [of rp W st st' st] by metis

lemma apply_terminal_notices_carries:
  assumes step: "apply_terminal_notices enc p notices st = Some st'" and p: "p \<in> present st"
  shows "carries rp W nxt st nxt st'"
proof -
  from step obtain st1 st2 where a: "note_title enc p (nb_title notices) st = Some st1"
    and b: "note_bell enc p (nb_bells notices) st1 = Some st2"
    by (auto simp: apply_terminal_notices_def Let_def bind_eq_Some_conv)
  define st3 where "st3 = (case nb_clipboard notices of Some content \<Rightarrow> broadcast_clipboard enc p content st2 | None \<Rightarrow> st2)"
  from step a b obtain st4 st5
    where d: "(if (case rt_agents st3 p of Some agent \<Rightarrow> sn_state agent \<noteq> Unknown | None \<Rightarrow> False) then Some st3
        else publish_all enc (map (\<lambda>(title, body). TerminalNotification p title body) (nb_notifications notices)) st3) = Some st4"
    and e: "publish_all enc (map (\<lambda>(exit_code, secs). CommandFinished p exit_code secs) (nb_finished_commands notices)) st4 = Some st5"
    and f: "note_progress enc p (nb_progress notices) st5 = Some st'"
    by (auto simp: apply_terminal_notices_def Let_def bind_eq_Some_conv simp flip: st3_def cong: if_cong)
  have p1: "present st1 = present st"
    using core_cong(2) [OF note_title_runs [OF a, THEN conjunct2]] by (simp add: present_def split: option.splits)
  have p2: "present st2 = present st1"
    using note_bell_runs [OF b, THEN conjunct2]
  proof
    assume "core st2 = core (st1\<lparr>rt_bells := insert p (rt_bells st1)\<rparr>)"
    from core_cong(2) [OF this] show ?thesis by (simp add: present_def)
  qed (rule core_cong(2))
  have c3: "core st3 = core st2" by (simp add: st3_def silent split: option.split)
  have third: "carries rp W nxt st2 nxt st3"
    by (rule carries_silent) (simp_all add: st3_def silent split: option.split)
  have fourth: "carries rp W nxt st3 nxt st4 \<and> core st4 = core st3"
  proof (cases "case rt_agents st3 p of Some agent \<Rightarrow> sn_state agent \<noteq> Unknown | None \<Rightarrow> False")
    case True
    with d have "st4 = st3" by simp
    then show ?thesis by simp
  next
    case False
    with d have "publish_all enc (map (\<lambda>(title, body). TerminalNotification p title body) (nb_notifications notices)) st3 = Some st4"
      by (simp only: if_False)
    then show ?thesis by (rule publish_all_carries) auto
  qed
  have fifth: "carries rp W nxt st4 nxt st5 \<and> core st5 = core st4"
    using e by (rule publish_all_carries) auto
  have "present st5 = present st" 
    using p1 p2 core_cong(2) [OF c3] core_cong(2) [OF conjunct2 [OF fourth]] core_cong(2) [OF conjunct2 [OF fifth]] by simp
  with p have "p \<in> present st5" by simp
  from note_progress_carries [OF f this] have sixth: "carries rp W nxt st5 nxt st'" .
  from note_title_carries [OF a p] have first: "carries rp W nxt st nxt st1" .
  from p p1 have "p \<in> present st1" by simp
  from note_bell_carries [OF b this] have second: "carries rp W nxt st1 nxt st2" .
  show ?thesis
    using carries_trans [OF carries_trans [OF carries_trans [OF first second] third]
        carries_trans [OF conjunct1 [OF fourth] carries_trans [OF conjunct1 [OF fifth] sixth]]] .
qed

lemma take_notices_carries:
  assumes step: "take_notices enc p instance_id notices st = Some (alive, st')"
  shows "carries rp W nxt st nxt st'"
proof (cases "server_ok rp nxt st \<and> terminal_is_current st p instance_id")
  case True
  with step obtain "apply_terminal_notices enc p notices st = Some st'" by (auto simp: take_notices_def)
  then show ?thesis using apply_terminal_notices_carries current_present(1) True by blast
next
  case False
  show ?thesis
  proof (cases "server_ok rp nxt st")
    case True
    with False step have "st' = st" by (simp add: take_notices_def)
    then show ?thesis by simp
  qed (simp add: carries_def)
qed

lemma publish_terminal_carries:
  assumes step: "publish_terminal p frame st = Some (clients, st')"
  shows "carries rp W nxt st nxt st'"
proof -
  have "mirrors W X st' = mirrors W X st" for X
    using publish_terminal_silent(3) [OF step] mirrors_core mirrors_views by metis
  moreover have "server_ok rp nxt st \<Longrightarrow> server_ok rp nxt st'"
    using publish_terminal_silent(3) [OF step] core_cong(1) server_ok_views by metis
  ultimately show ?thesis unfolding carries_def
    using publish_terminal_silent(1,2) [OF step] by (simp add: runs_silent)
qed

lemma publish_terminal_frame_carries:
  assumes step: "publish_terminal_frame p instance_id frame whole st = Some (clients, st')"
  shows "carries rp W nxt st nxt st'"
proof (cases "terminal_is_current st p instance_id")
  case True
  with step obtain cs st1 where a: "publish_terminal p frame st = Some (cs, st1)"
    and b: "(if cs = None then publish_terminal p (view_frame.Full whole) st1 else Some (cs, st1)) = Some (clients, st')"
    by (auto simp: publish_terminal_frame_def bind_eq_Some_conv)
  have "carries rp W nxt st1 nxt st'" using b publish_terminal_carries by (auto split: if_splits)
  with publish_terminal_carries [OF a] show ?thesis by (rule carries_trans)
qed (use step in \<open>simp add: publish_terminal_frame_def\<close>)

section \<open>The end of a terminal\<close>

lemma mirrors_hide:
  assumes "mirrors W X st m"
    and "rt_server_id st' = rt_server_id st" "rt_session_id st' = rt_session_id st" "rt_epoch st' = rt_epoch st"
      "rt_session st' = rt_session st" "rt_settings st' = rt_settings st" "rt_exited st' = rt_exited st"
      "rt_titles st' = rt_titles st" "rt_progress st' = rt_progress st" "rt_bells st' = rt_bells st"
      "rt_git st' = rt_git st" "rt_agents st' = rt_agents st" "rt_unseen st' = rt_unseen st"
      "rt_closing st \<subseteq> rt_closing st'"
  shows "mirrors W X st' m"
proof -
  have "hidden st \<subseteq> hidden st'" using assms(7,14) by (auto simp: hidden_def)
  then have agents: "\<forall>q. q \<notin> X \<longrightarrow> sm_agents m q = rt_agents st' q \<or> q \<in> hidden st' \<and> sm_agents m q = None"
    and unseen: "rt_unseen st' \<subseteq> sm_unseen m \<union> W \<union> hidden st'"
    using assms(1,12,13) unfolding mirrors_def by (metis subsetD, blast)
  show ?thesis using assms(1-13) agents unseen by (simp add: mirrors_def)
qed

lemma end_terminal_begin_carries:
  assumes step: "end_terminal_begin p instance_id st = (found, st')"
  shows "carries rp W nxt st nxt st'"
proof (cases "terminal_is_current st p instance_id")
  case True
  with step have st': "st' = st\<lparr>rt_instances := (rt_instances st)(p := None), rt_closing := insert p (rt_closing st),
      rt_terminals := filter (\<lambda>q. q \<noteq> p) (rt_terminals st)\<rparr>" by (simp add: end_terminal_begin_def)
  show ?thesis unfolding carries_def
  proof (intro impI conjI)
    assume ok: "server_ok rp nxt st"
    note okd = server_okD [OF ok] and p = current_present [OF ok True]
    have here: "present st' = present st" using p(2) by (auto simp: st' present_def)
    have away: "hidden st' = insert p (hidden st)" by (simp add: st' hidden_def)
    show "server_ok rp nxt st'"
      unfolding server_ok_def here away using okd(1-8) okd(11) okd(9,10) by (simp add: st') blast
    have "mirrors W {} st' m" if "mirrors W {} st m" for m
      by (rule mirrors_hide [OF that]) (simp_all add: st' hidden_def subset_insertI)
    then show "runs rp W (mirrors W {} st) st (mirrors W {} st') st'"
      by (intro runs_silent) (simp_all add: st')
  qed
qed (use step in \<open>simp add: end_terminal_begin_def\<close>)

lemma end_terminal_finish_carries:
  assumes step: "end_terminal_finish enc persistable p instance_id final_view cwd st = Some st'"
  shows "carries rp W nxt st nxt st'"
proof (cases "get_pane (rt_session st) p = None \<or> p \<in> set (rt_terminals st)")
  case False
  let ?st = "st\<lparr>rt_terminals := List.insert p (rt_terminals st), rt_instances := (rt_instances st)(p \<mapsto> instance_id),
      rt_closing := rt_closing st - {p}\<rparr>"
  from step False obtain clients st1 st2 st3 st4 st5
    where a: "publish_terminal p (view_frame.Full final_view) ?st = Some (clients, st1)"
      and b: "(case cwd of Some cwd \<Rightarrow> map_option snd (record_terminal_cwds persistable [(p, cwd)] st1) | None \<Rightarrow> Some st1) = Some st2"
      and c: "record_agent_resume persistable p None (st2\<lparr>rt_exited := insert p (rt_exited st2)\<rparr>) = Some st3"
      and d: "publish_background enc (TerminalExited p) (forget_agent_control p st3) = Some st4"
      and e: "clear_terminal_reports enc p st4 = Some st5" and f: "forget_agent enc p st5 = Some st'"
    by (auto simp: end_terminal_finish_def Let_def bind_eq_Some_conv)
  from publish_terminal_silent(4) [OF a refl] obtain v where v: "core st1 = core (?st\<lparr>rt_views := (rt_views ?st)(p \<mapsto> v)\<rparr>)" by blast
  have "\<exists>s1. st2 = st1\<lparr>rt_session := s1\<rparr> \<and> (\<forall>rp nxt. same_bare rp nxt (rt_session st1) s1)"
  proof (cases cwd)
    case None
    with b show ?thesis by (intro exI [of _ "rt_session st1"]) simp
  next
    case (Some cwd)
    with b obtain r where "record_terminal_cwds persistable [(p, cwd)] st1 = Some (r, st2)" by auto
    then show ?thesis by (rule record_terminal_cwds_same)
  qed
  then obtain s1 where s1: "st2 = st1\<lparr>rt_session := s1\<rparr>" "same_bare rp nxt (rt_session st1) s1" by blast
  from record_agent_resume_same [OF c] obtain s2
    where s2: "st3 = st2\<lparr>rt_exited := insert p (rt_exited st2), rt_session := s2\<rparr>" "same_bare rp nxt (rt_session st2) s2" by auto
  have same: "same_bare rp nxt (rt_session st) s2"
    using same_bare_trans [OF s1(2)] s2(2) v by (simp add: s1(1) core_eq)
  have log: "rt_log (forget_agent_control p st3) = rt_log st" "rt_sequence (forget_agent_control p st3) = rt_sequence st"
    using publish_terminal_silent(1,2) [OF a] by (simp_all add: silent s1(1) s2(1))
  have c4: "core st4 = core (st\<lparr>rt_terminals := List.insert p (rt_terminals st), rt_instances := (rt_instances st)(p \<mapsto> instance_id),
      rt_closing := rt_closing st - {p}, rt_views := (rt_views st)(p \<mapsto> v), rt_exited := insert p (rt_exited st), rt_session := s2\<rparr>)"
    using publish_background_log(1) [OF d] silent_forget(1) [of p st3] v by (simp add: core_eq s1(1) s2(1))
  have "mirrors W {} st m \<Longrightarrow> mirrors W {} st4 (m\<lparr>sm_exited := insert p (sm_exited m)\<rparr>)" for m
    by (rule exited_mirror) (use c4 same in \<open>auto simp: core_eq same_bare_def\<close>)
  then have "runs rp W (mirrors W {} st) (forget_agent_control p st3) (mirrors W {} st4) st4"
    by (intro publish_background_runs [OF d]) simp
  then have first: "runs rp W (mirrors W {} st) st (mirrors W {} st4) st4" by (rule runs_before [OF log])
  note after = after_exit_runs [OF e f]
  have eqs: "rt_session st' = s2" "set (rt_terminals st') = insert p (set (rt_terminals st))"
      "rt_closing st' = rt_closing st - {p}" "rt_exited st' = insert p (rt_exited st)" "rt_bells st' = rt_bells st"
      "rt_git st' = rt_git st" "rt_titles st' = (rt_titles st)(p := None)" "rt_progress st' = (rt_progress st)(p := None)"
      "rt_agents st' = (rt_agents st)(p := None)" "rt_unseen st' \<subseteq> rt_unseen st"
      "rt_instances st' = (rt_instances st)(p \<mapsto> instance_id)" "dom (rt_views st') = insert p (dom (rt_views st))"
    using after(2) c4 by (auto simp: core_eq)
  have ok: "server_ok rp nxt st'" if "server_ok rp nxt st"
    using that False get_pane_ids same server_okD(1) [OF that] by (intro server_ok_ended [OF that, of st' p])
      (auto simp: eqs same_bare_def simp del: fun_upd_apply)
  show ?thesis using runs_trans [OF first after(1)] ok by (simp add: carries_def)
qed (use step in \<open>auto simp: end_terminal_finish_def\<close>)

end
