(* ===== verification/Mirror_Layout.thy ===== *)
theory Mirror_Layout
  imports Mirror_Terminals
begin

text \<open>
  Changes of the structure carry the relation along: the Server drops what belonged to closed Panes and
  adds the new Terminal without a word, and one event lets every Client do the same.
\<close>

lemma server_ok_unseen: "server_ok rp nxt st \<Longrightarrow> rt_unseen st \<subseteq> present st"
  using server_okD(4,8,10) [of rp nxt st] unfolding hidden_def present_def by blast

section \<open>What a commit leaves\<close>

definition without :: "pane_id set \<Rightarrow> ('set, 'git) runtime \<Rightarrow> ('set, 'git) runtime" where
  "without P st = st\<lparr>rt_exited := rt_exited st - P, rt_closing := rt_closing st - P, rt_agents := rt_agents st |` (- P),
     rt_titles := rt_titles st |` (- P), rt_progress := rt_progress st |` (- P), rt_bells := rt_bells st - P,
     rt_unseen := rt_unseen st - P, rt_views := rt_views st |` (- P), rt_instances := rt_instances st |` (- P),
     rt_terminals := filter (\<lambda>q. q \<notin> P) (rt_terminals st)\<rparr>"

lemma drop_pane_core:
  "core (drop_pane p st) = core (without {p} st)" "rt_log (drop_pane p st) = rt_log st"
  "rt_sequence (drop_pane p st) = rt_sequence st" "rt_session (drop_pane p st) = rt_session st"
proof -
  let ?st = "st\<lparr>rt_exited := rt_exited st - {p}, rt_closing := rt_closing st - {p}, rt_agents := (rt_agents st)(p := None)\<rparr>"
  have c: "core (forget_agent_control p ?st) = core ?st" by (rule silent_forget)
  have upd: "f(p := None) = f |` (- {p})" for f :: "pane_id \<Rightarrow> 'x option" by (auto simp: restrict_map_def)
  show "core (drop_pane p st) = core (without {p} st)"
    using c by (auto simp: drop_pane_def Let_def core_eq without_def upd)
  show "rt_log (drop_pane p st) = rt_log st" "rt_sequence (drop_pane p st) = rt_sequence st"
    by (simp_all add: drop_pane_def Let_def silent)
  show "rt_session (drop_pane p st) = rt_session st"
    using c by (simp add: drop_pane_def Let_def core_eq)
qed

lemma without_cong: "core st = core st' \<Longrightarrow> core (without P st) = core (without P st')"
  by (auto simp: core_eq without_def)

lemma without_without: "core (without P (without Q st)) = core (without (insert_set Q P) st)" if "insert_set = (\<union>)"
  by (auto simp: core_eq without_def that restrict_restrict Int_commute)

lemma drop_panes_core:
  "core (fold drop_pane ps st) = core (without (set ps) st)" "rt_log (fold drop_pane ps st) = rt_log st"
  "rt_sequence (fold drop_pane ps st) = rt_sequence st"
proof (induction ps arbitrary: st)
  case (Cons p ps)
  { case 1
    have "core (without (set ps) (drop_pane p st)) = core (without (set ps) (without {p} st))"
      by (rule without_cong) (rule drop_pane_core)
    also have "\<dots> = core (without (set (p # ps)) st)" by (subst without_without [OF refl]) simp
    finally show ?case using Cons.IH(1) by simp
  next
    case 2 show ?case using Cons.IH(2) by (simp add: drop_pane_core)
  next
    case 3 show ?case using Cons.IH(3) by (simp add: drop_pane_core) }
next
  case Nil
  { case 1 show ?case by (simp add: core_eq without_def restrict_map_def)
  next case 2 show ?case by simp
  next case 3 show ?case by simp }
qed

text \<open>A Terminal on a Pane nothing is known of is installed without an event.\<close>

definition with_terminal :: "pane_id \<Rightarrow> u64 \<Rightarrow> latest_view \<Rightarrow> ('set, 'git) runtime \<Rightarrow> ('set, 'git) runtime" where
  "with_terminal p instance_id v st = st\<lparr>rt_terminals := List.insert p (rt_terminals st),
     rt_instances := (rt_instances st)(p \<mapsto> instance_id), rt_views := (rt_views st)(p \<mapsto> v)\<rparr>"

lemma install_fresh:
  assumes step: "install_terminal enc p view st = Some (instance_id, st')"
    and fresh: "rt_titles st p = None" "rt_progress st p = None" "p \<notin> rt_bells st" "p \<notin> rt_unseen st" "p \<notin> rt_closing st"
  obtains v where "core st' = core (with_terminal p instance_id v st)" and "rt_log st' = rt_log st"
    and "rt_sequence st' = rt_sequence st"
proof -
  let ?st = "forget_agent_control p (st\<lparr>rt_next_instance := next_instance (rt_next_instance st)\<rparr>)"
  have c: "core ?st = core st" "rt_log ?st = rt_log st" "rt_sequence ?st = rt_sequence st"
    by (simp_all add: silent core_eq)
  have "clear_terminal_reports enc p ?st = Some ?st"
    using c(1) fresh by (simp add: clear_terminal_reports_def clear_title_def clear_progress_def core_eq)
  moreover have "clear_unseen enc p ?st = Some ?st"
    using c(1) fresh by (simp add: clear_unseen_def clear_bell_def set_agent_unseen_def core_eq)
  ultimately obtain st3 where a: "install_view p view ?st = Some st3"
    and st': "st' = st3\<lparr>rt_terminals := List.insert p (rt_terminals st3),
        rt_instances := (rt_instances st3)(p \<mapsto> instance_id), rt_closing := rt_closing st3 - {p}\<rparr>"
    using step by (auto simp: install_terminal_def Let_def bind_eq_Some_conv)
  from install_view_silent [OF a] obtain v where "core st3 = core (?st\<lparr>rt_views := (rt_views ?st)(p \<mapsto> v)\<rparr>)"
    and "rt_log st3 = rt_log ?st" "rt_sequence st3 = rt_sequence ?st" by blast
  with c fresh(5) show thesis by (intro that [of v]) (simp_all add: st' core_eq with_terminal_def)
qed

text \<open>The state after a commit: the new Session, the closed Panes gone, and perhaps a Terminal more.\<close>

definition with_new :: "(pane_id \<times> u64 \<times> latest_view) option \<Rightarrow> ('set, 'git) runtime \<Rightarrow> ('set, 'git) runtime" where
  "with_new new st = (case new of None \<Rightarrow> st | Some (p, instance_id, v) \<Rightarrow> with_terminal p instance_id v st)"

lemma with_new_cong: "core st = core st' \<Longrightarrow> core (with_new n st) = core (with_new n st')"
  by (cases n) (simp_all add: with_new_def with_terminal_def core_eq split: prod.splits)

definition committed ::
  "session \<Rightarrow> pane_id list \<Rightarrow> pane_id option \<Rightarrow> ('set, 'git) runtime \<Rightarrow> ('set, 'git) runtime \<Rightarrow> bool" where
  "committed candidate closed new st st' \<longleftrightarrow>
     rt_session st' = candidate \<and> rt_exited st' = rt_exited st - set closed \<and> rt_agents st' = rt_agents st |` (- set closed)
     \<and> rt_titles st' = rt_titles st |` (- set closed) \<and> rt_progress st' = rt_progress st |` (- set closed)
     \<and> rt_bells st' = rt_bells st - set closed \<and> rt_unseen st' = rt_unseen st - set closed
     \<and> rt_closing st' = rt_closing st - set closed \<and> rt_git st' = rt_git st |` set (session_workspace_ids candidate)
     \<and> rt_server_id st' = rt_server_id st \<and> rt_session_id st' = rt_session_id st \<and> rt_epoch st' = rt_epoch st
     \<and> rt_settings st' = rt_settings st
     \<and> set (rt_terminals st') = (set (rt_terminals st) - set closed) \<union> set_option new
     \<and> dom (rt_views st') = (dom (rt_views st) - set closed) \<union> set_option new
     \<and> dom (rt_instances st') = (dom (rt_instances st) - set closed) \<union> set_option new"

lemma committedI:
  fixes st st' :: "('set, 'git) runtime"
  assumes "core st' = core (with_new new (without (set closed)
     (st\<lparr>rt_session := candidate, rt_git := rt_git st |` set (session_workspace_ids candidate)\<rparr>)))"
  shows "committed candidate closed (map_option fst new) st st'"
proof (cases new)
  case None
  with assms show ?thesis by (simp add: committed_def core_eq with_new_def without_def) (auto simp: dom_def restrict_map_def)
next
  case (Some n)
  obtain p instance_id v where n: "n = (p, instance_id, v)" by (metis prod_cases3)
  from assms show ?thesis
    by (simp add: Some n committed_def core_eq with_new_def with_terminal_def without_def) (auto simp: dom_def restrict_map_def)
qed

lemma adopt_session_core:
  "core (adopt_session candidate closed st) = core (without (set closed)
     (st\<lparr>rt_session := candidate, rt_git := rt_git st |` set (session_workspace_ids candidate)\<rparr>))"
  "rt_log (adopt_session candidate closed st) = rt_log st" "rt_sequence (adopt_session candidate closed st) = rt_sequence st"
proof -
  have "(\<lambda>wid. if find_workspace candidate wid = None then None else rt_git st wid)
      = rt_git st |` set (session_workspace_ids candidate)"
    by (auto simp: zoomed_workspace_ids restrict_map_def)
  then show "core (adopt_session candidate closed st) = core (without (set closed)
     (st\<lparr>rt_session := candidate, rt_git := rt_git st |` set (session_workspace_ids candidate)\<rparr>))"
    by (simp add: adopt_session_def drop_panes_core)
  show "rt_log (adopt_session candidate closed st) = rt_log st" "rt_sequence (adopt_session candidate closed st) = rt_sequence st"
    by (simp_all add: adopt_session_def drop_panes_core)
qed

lemma commit_layout_candidate_effect:
  assumes step: "commit_layout_candidate enc persistable candidate closed started st = Some (Inr effect, st')"
    and ok: "server_ok rp nxt st" and change: "panes_change (rt_session st) (closed_panes closed) (map_option fst started) candidate"
  obtains snap where "committed candidate (closed_panes closed) (map_option fst started) st st'" and "rt_log st' = rt_log st" and "rt_sequence st' = rt_sequence st"
    and "session_to_snapshot candidate = Some snap" and "le_event effect = LayoutChanged snap (zoomed_panes candidate)"
proof -
  let ?st = "adopt_session candidate (closed_panes closed) st"
  note ad = adopt_session_core [of candidate "closed_panes closed" st]
  from step obtain snap0 starts event where snap0: "session_to_snapshot candidate = Some snap0"
    and new: "(case started of None \<Rightarrow> Some ([], ?st)
          | Some (p, view) \<Rightarrow> map_option (\<lambda>(instance_id, st). ([(p, instance_id)], st)) (install_terminal enc p view ?st)) = Some (starts, st')"
    and ev: "layout_changed_event st' = Some event" and effect: "le_event effect = event"
    by (auto simp: commit_layout_candidate_def Let_def bind_eq_Some_conv split: if_splits)
  have "\<exists>n. core st' = core (with_new n ?st) \<and> map_option fst n = map_option fst started
    \<and> rt_log st' = rt_log st \<and> rt_sequence st' = rt_sequence st"
  proof (cases started)
    case None
    with new ad(2,3) show ?thesis by (intro exI [of _ None]) (auto simp: with_new_def)
  next
    case (Some s)
    obtain p view where s: "s = (p, view)" by (metis surj_pair)
    from new obtain instance_id where inst: "install_terminal enc p view ?st = Some (instance_id, st')"
      by (auto simp: Some s)
    have "p \<notin> set (session_pane_ids (rt_session st))" using change by (auto simp: panes_change_def Some s)
    with server_okD(2) [OF ok] have p: "p \<notin> present st" by blast
    note okd = server_okD(5,6,7,8,10) [OF ok]
    have "rt_titles st p = None" "rt_progress st p = None" "p \<notin> rt_bells st" "p \<notin> rt_closing st"
      using okd(1-3) p by (auto simp: present_def)
    moreover have "p \<notin> rt_unseen st"
      using server_ok_unseen [OF ok] p by blast
    ultimately have "rt_titles ?st p = None" "rt_progress ?st p = None" "p \<notin> rt_bells ?st" "p \<notin> rt_unseen ?st" "p \<notin> rt_closing ?st"
      using ad(1) by (simp_all add: core_eq without_def restrict_map_def)
    with inst obtain v where "core st' = core (with_terminal p instance_id v ?st)" "rt_log st' = rt_log ?st"
      "rt_sequence st' = rt_sequence ?st" by (rule install_fresh)
    with ad(2,3) show ?thesis by (intro exI [of _ "Some (p, instance_id, v)"]) (simp add: with_new_def Some s)
  qed
  then obtain n where n: "core st' = core (with_new n ?st)" "map_option fst n = map_option fst started"
    "rt_log st' = rt_log st" "rt_sequence st' = rt_sequence st" by blast
  have "core (with_new n ?st) = core (with_new n (without (set (closed_panes closed))
     (st\<lparr>rt_session := candidate, rt_git := rt_git st |` set (session_workspace_ids candidate)\<rparr>)))"
    by (rule with_new_cong [OF ad(1)])
  with n(1,2) committedI [of st' n "closed_panes closed" st candidate]
  have c: "committed candidate (closed_panes closed) (map_option fst started) st st'" by simp
  then have "rt_session st' = candidate" by (simp add: committed_def)
  with ev effect snap0 have "le_event effect = LayoutChanged snap0 (zoomed_panes candidate)"
    by (simp add: layout_changed_event_def)
  with c n(3,4) snap0 show thesis by (intro that)
qed

section \<open>The relation across a commit\<close>

lemma committed_fields:
  assumes "committed candidate closed new st st'"
  shows "rt_session st' = candidate" "rt_exited st' = rt_exited st - set closed" "rt_agents st' = rt_agents st |` (- set closed)"
    "rt_titles st' = rt_titles st |` (- set closed)" "rt_progress st' = rt_progress st |` (- set closed)"
    "rt_bells st' = rt_bells st - set closed" "rt_unseen st' = rt_unseen st - set closed"
    "rt_closing st' = rt_closing st - set closed" "rt_git st' = rt_git st |` set (session_workspace_ids candidate)"
    "rt_server_id st' = rt_server_id st" "rt_session_id st' = rt_session_id st" "rt_epoch st' = rt_epoch st"
    "rt_settings st' = rt_settings st"
    "set (rt_terminals st') = (set (rt_terminals st) - set closed) \<union> set_option new"
    "dom (rt_views st') = (dom (rt_views st) - set closed) \<union> set_option new"
    "dom (rt_instances st') = (dom (rt_instances st) - set closed) \<union> set_option new"
  using assms unfolding committed_def by simp_all

lemma committed_present:
  assumes c: "committed candidate closed new st st'"
  shows "present st' = (present st - set closed) \<union> set_option new" and "hidden st' = hidden st - set closed"
  using committed_fields(2,8,14) [OF c] by (auto simp: present_def hidden_def)

text \<open>The Git state may have changed in between.\<close>

lemma server_ok_committed:
  assumes ok: "server_ok rp nxt st" and c: "committed candidate closed new st st'"
    and inv: "session_inv rp nxt' candidate"
    and change: "panes_change (rt_session st) closed new candidate"
  shows "server_ok rp nxt' st'"
proof -
  note okd = server_okD [OF ok] and f = committed_fields [OF c] and here = committed_present [OF c]
  note panes = change [unfolded panes_change_def, THEN conjunct1]
  have dom: "dom (g |` (- A)) = dom g - A" for g :: "'x \<Rightarrow> 'y option" and A by auto
  have "present st' \<subseteq> set (session_pane_ids (rt_session st'))"
    unfolding here f(1) panes using okd(2) by blast
  moreover have "present st' \<subseteq> dom (rt_views st')" unfolding here f(15) using okd(3) by blast
  moreover have "rt_exited st' \<subseteq> present st'" "rt_bells st' \<subseteq> present st'" "dom (rt_titles st') \<subseteq> present st'"
    "dom (rt_progress st') \<subseteq> present st'" "dom (rt_agents st') \<subseteq> present st'"
    unfolding here f(2-6) dom using okd(4-8) by blast+
  moreover have "dom (rt_instances st') \<subseteq> set (rt_terminals st')" unfolding f(14,16) using okd(9) by blast
  moreover have "rt_unseen st' \<subseteq> dom (rt_agents st') \<union> hidden st'" unfolding here f(3,7) dom using okd(10) by blast
  moreover have "\<forall>wid git. rt_git st' wid = Some git \<longrightarrow>
      wg_workspace_id git = wid \<and> wid \<in> set (session_workspace_ids (rt_session st'))"
    unfolding f(1,9) using okd(11) by (auto simp: restrict_map_def split: if_splits)
  ultimately show ?thesis using inv by (simp add: server_ok_def f(1))
qed

text \<open>A Client keeps what belongs to a Pane of the new layout, the Server drops what belonged to a closed one.\<close>

lemma live_or_closed:
  assumes same: "\<forall>q \<in> P. (q \<in> live) = (q \<notin> closed)"
  shows "A \<subseteq> P \<Longrightarrow> A \<inter> live = A - closed" and "dom f \<subseteq> P \<Longrightarrow> f |` live = f |` (- closed)"
proof -
  show "A \<subseteq> P \<Longrightarrow> A \<inter> live = A - closed" using assms by blast
  assume d: "dom f \<subseteq> P"
  show "f |` live = f |` (- closed)"
  proof
    fix q
    show "(f |` live) q = (f |` (- closed)) q"
      using d same by (cases "f q") (auto simp: restrict_map_def)
  qed
qed

lemma layout_mirror:
  assumes ok: "server_ok rp nxt0 st" and c: "committed candidate closed new st st1"
    and change: "panes_change (rt_session st) closed new candidate"
    and inv: "session_inv rp nxt' candidate" and snap: "session_to_snapshot candidate = Some snap"
    and m: "mirrors W {} st m" and st2: "core st2 = core (st1\<lparr>rt_git := g |` set (session_workspace_ids candidate)\<rparr>)"
  shows "\<exists>m'. model_event rp nxt shown (LayoutChanged snap (zoomed_panes candidate)) (m\<lparr>sm_git := g\<rparr>) = Some m'
    \<and> mirrors W {} st2 m'"
proof -
  note okd = server_okD [OF ok] and f = committed_fields [OF c] and here = committed_present [OF c]
  from saved_restores_anywhere [OF inv] snap obtain x where r: "session_restore rp snap nxt = Some (Inr (unzoomed candidate, x))"
    by (metis option.inject)
  define live where "live = set (session_pane_ids candidate)"
  define m' where "m' = m\<lparr>sm_git := g |` set (session_workspace_ids candidate), sm_session := Some (unzoomed candidate),
      sm_zoomed := set (zoomed_panes candidate), sm_terminals := sm_terminals m |` live,
      sm_exited := sm_exited m \<inter> live, sm_hyperlinks := sm_hyperlinks m |` live, sm_titles := sm_titles m |` live,
      sm_progress := sm_progress m |` live, sm_agents := sm_agents m |` live, sm_unseen := sm_unseen m \<inter> live,
      sm_attention := sm_attention m \<inter> live\<rparr>"
  have workspaces: "set (map w_id (workspaces (unzoomed candidate))) = set (session_workspace_ids candidate)"
    using unzoomed_ids(2) [of candidate] by (simp add: session_workspace_ids_def)
  have e: "model_event rp nxt shown (LayoutChanged snap (zoomed_panes candidate)) (m\<lparr>sm_git := g\<rparr>) = Some m'"
    using workspaces by (simp add: model_event_def apply_layout_def r m'_def live_def Let_def del: set_map)
  have split: "\<forall>q \<in> present st. (q \<in> live) = (q \<notin> set closed)"
    using okd(2) change unfolding panes_change_def live_def by blast
  note keep = live_or_closed [OF split]
  note md = m [unfolded mirrors_def]
  have exited: "sm_exited m' = rt_exited st2" and titles: "sm_titles m' = rt_titles st2" and progress: "sm_progress m' = rt_progress st2"
    and attention: "sm_attention m' = rt_bells st2"
    using md st2 f(2,4,5,6) keep(1) [OF okd(4)] keep(1) [OF okd(5)] keep(2) [OF okd(6)] keep(2) [OF okd(7)]
    by (simp_all add: m'_def core_eq)
  have h: "hidden st2 = hidden st - set closed" using st2 here(2) by (simp add: hidden_def core_eq)
  have agents2: "rt_agents st2 = rt_agents st |` (- set closed)" and unseen2: "rt_unseen st2 = rt_unseen st - set closed"
    using st2 f(3,7) by (simp_all add: core_eq)
  have disjoint: "q \<notin> set closed" if "q \<in> live" for q
    using that change unfolding panes_change_def live_def by blast
  have agents: "sm_agents m' q = rt_agents st2 q \<or> q \<in> hidden st2 \<and> sm_agents m' q = None" for q
  proof (cases "q \<in> live")
    case True
    with disjoint md show ?thesis by (simp add: m'_def agents2 h)
  next
    case False
    have "rt_agents st2 q = None"
      using False split okd(8) by (cases "rt_agents st q") (auto simp: agents2 restrict_map_def)
    with False show ?thesis by (simp add: m'_def)
  qed
  note inside = server_ok_unseen [OF ok]
  have "sm_unseen m' \<subseteq> rt_unseen st2"
    using md disjoint by (auto simp: m'_def unseen2)
  moreover have "rt_unseen st2 \<subseteq> sm_unseen m' \<union> W \<union> hidden st2"
  proof
    fix q assume q: "q \<in> rt_unseen st2"
    then have "q \<in> live" using inside split unseen2 by blast
    moreover have "q \<in> sm_unseen m \<union> W \<union> hidden st" using q md unseen2 by blast
    ultimately show "q \<in> sm_unseen m' \<union> W \<union> hidden st2" using disjoint by (auto simp: m'_def h)
  qed
  moreover have "sm_git m' = rt_git st2" "map_option bare_session (sm_session m') = Some (unzoomed (bare_session (rt_session st2)))"
    "sm_zoomed m' = set (zoomed_panes (rt_session st2))" "sm_server_id m' = Some (rt_server_id st2)"
    "sm_session_id m' = Some (rt_session_id st2)" "sm_runtime_epoch m' = Some (rt_epoch st2)" "sm_settings m' = rt_settings st2"
    using md st2 f(1,10,11,12,13) by (simp_all add: m'_def core_eq bare_unzoomed)
  ultimately have "mirrors W {} st2 m'"
    using exited titles progress attention agents by (simp add: mirrors_def)
  with e show ?thesis by blast
qed

section \<open>Git\<close>

definition git_ok :: "session \<Rightarrow> (workspace_id \<Rightarrow> 'git workspace_git option) \<Rightarrow> bool" where
  "git_ok s g \<longleftrightarrow> (\<forall>wid git. g wid = Some git \<longrightarrow> wg_workspace_id git = wid \<and> wid \<in> set (session_workspace_ids s))"

lemma git_ok_upd: "git_ok s g \<Longrightarrow> wid \<in> set (session_workspace_ids s) \<Longrightarrow> git_ok s (g(wid := map_option (workspace_git_snapshot wid) git))"
  by (auto simp: git_ok_def workspace_git_snapshot_def)

lemma server_ok_git:
  "server_ok rp nxt st \<Longrightarrow> git_ok (rt_session st) g \<Longrightarrow> server_ok rp nxt (st\<lparr>rt_git := g\<rparr>)"
  "server_ok rp nxt st \<Longrightarrow> git_ok (rt_session st) (rt_git st)"
  by (simp_all add: server_ok_def git_ok_def present_def hidden_def)

lemma publish_git_core:
  assumes "publish_git enc wid git st = Some st'"
  shows "core st' = core (st\<lparr>rt_git := (rt_git st)(wid := map_option (workspace_git_snapshot wid) git)\<rparr>)"
  using assms publish_background_log(1) by (auto simp: publish_git_def Let_def split: if_splits)

lemma publish_git_runs:
  assumes step: "publish_git enc wid git st = Some st'"
    and told: "\<And>m. P m \<Longrightarrow> Q (m\<lparr>sm_git := (sm_git m)(wid := map_option (workspace_git_snapshot wid) git)\<rparr>)"
    and same: "\<And>m. P m \<Longrightarrow> sm_git m wid = rt_git st wid"
  shows "runs rp W P st Q st'"
proof (cases "rt_git st wid = map_option (workspace_git_snapshot wid) git")
  case True
  have "Q m" if "P m" for m
    using told [OF that] same [OF that] True by (simp add: fun_upd_idem)
  with step True show ?thesis by (intro runs_silent) (auto simp: publish_git_def Let_def)
next
  case False
  let ?st = "st\<lparr>rt_git := (rt_git st)(wid := map_option (workspace_git_snapshot wid) git)\<rparr>"
  from step False have pub: "publish_background enc (WorkspaceGitChanged wid (map_option (workspace_git_snapshot wid) git)) ?st = Some st'"
    by (simp add: publish_git_def Let_def)
  have "runs rp W P ?st Q st'" by (rule publish_background_runs [OF pub]) (simp add: told)
  then show ?thesis by (rule runs_before [rotated 2]) simp_all
qed

lemma publish_git_carries:
  assumes step: "publish_git enc wid git st = Some st'" and wid: "wid \<in> set (session_workspace_ids (rt_session st))"
  shows "carries rp W nxt st nxt st'"
proof -
  note core = publish_git_core [OF step]
  have "runs rp W (mirrors W {} st) st (mirrors W {} st') st'"
    by (rule publish_git_runs [OF step]) (simp_all add: mirrors_core [OF core] mirrors_def hidden_def)
  moreover have "server_ok rp nxt st \<Longrightarrow> server_ok rp nxt st'"
    unfolding core_cong(1) [OF core] using server_ok_git git_ok_upd [OF _ wid] by blast
  ultimately show ?thesis by (simp add: carries_def)
qed

lemma git_scanned_carries:
  assumes step: "git_scanned enc wid root git changed st = Some st'"
  shows "carries rp W nxt st nxt st'"
proof -
  from step obtain applied st1 where a: "apply_workspace_git_refresh enc wid root git st = Some (applied, st1)"
    and b: "(if applied \<and> changed then publish_background enc (WorkspaceFilesChanged wid) st1 else Some st1) = Some st'"
    by (auto simp: git_scanned_def bind_eq_Some_conv)
  have first: "carries rp W nxt st nxt st1"
  proof (cases "st1 = st")
    case False
    with a have "publish_git enc wid git st = Some st1" "find_workspace (rt_session st) wid \<noteq> None"
      by (auto simp: apply_workspace_git_refresh_def split: option.splits if_splits)
    then show ?thesis using publish_git_carries zoomed_workspace_ids by metis
  qed simp
  have "carries rp W nxt st1 nxt st'"
  proof (cases "applied \<and> changed")
    case True
    with b have "publish_all enc [WorkspaceFilesChanged wid] st1 = Some st'" by (simp add: bind_eq_Some_conv)
    then show ?thesis by (rule publish_all_carries [THEN conjunct1]) simp
  next
    case False
    with b have "st' = st1" by (simp only: if_False option.inject)
    then show ?thesis by simp
  qed
  with first show ?thesis by (rule carries_trans)
qed

lemma set_settings_carries:
  assumes step: "set_settings enc settings origin st = Some (closed, st')"
  shows "carries rp W nxt st nxt st'"
proof (cases "rt_settings st = settings")
  case False
  let ?st = "st\<lparr>rt_settings := settings\<rparr>"
  from step False have pub: "publish_event enc (ServerSettingsChanged settings) origin ?st = Some (closed, st')"
    by (simp add: set_settings_def)
  note core = publish_event_log(1) [OF pub]
  have "runs rp W (mirrors W {} st) ?st (mirrors W {} st') st'"
    by (rule publish_event_runs [OF pub]) (simp add: mirrors_core [OF core] mirrors_def hidden_def)
  then have "runs rp W (mirrors W {} st) st (mirrors W {} st') st'" by (rule runs_before [rotated 2]) simp_all
  moreover have "server_ok rp nxt st \<Longrightarrow> server_ok rp nxt st'"
    unfolding core_cong(1) [OF core] by (simp add: server_ok_def present_def hidden_def)
  ultimately show ?thesis by (simp add: carries_def)
qed (use step in \<open>simp add: set_settings_def\<close>)

section \<open>A commit and its event\<close>

lemma carries_grows:
  assumes "unat nxt \<le> unat nxt'"
  shows "carries rp W nxt st nxt' st"
  using session_inv_mono [OF _ assms] by (auto simp: carries_def server_ok_def runs_refl)

text \<open>The Git state of a Workspace of the new layout may be told of in between.\<close>

lemma published_layout:
  assumes commit: "commit_layout_candidate enc persistable candidate closed started st = Some (Inr effect, st1)"
    and change: "panes_change (rt_session st) (closed_panes closed) (map_option fst started) candidate"
    and inv: "session_inv rp nxt' candidate"
    and git: "st2 = st1 \<or> publish_git enc wid git st1 = Some st2 \<and> wid \<in> set (session_workspace_ids candidate)"
    and quiet: "core st2' = core st2" "rt_log st2' = rt_log st2" "rt_sequence st2' = rt_sequence st2"
    and pub: "publish_event enc (le_event effect) origin st2' = Some (lost, st3)"
  shows "carries rp W nxt st nxt' st3"
  unfolding carries_def
proof (intro impI conjI)
  assume ok: "server_ok rp nxt st"
  from commit ok change obtain snap where c: "committed candidate (closed_panes closed) (map_option fst started) st st1"
    and log: "rt_log st1 = rt_log st" "rt_sequence st1 = rt_sequence st" and snap: "session_to_snapshot candidate = Some snap"
    and ev: "le_event effect = LayoutChanged snap (zoomed_panes candidate)"
    by (rule commit_layout_candidate_effect)
  note f = committed_fields(1,9) [OF c]
  note ok1 = server_ok_committed [OF ok c inv change]
  have core3: "core st3 = core st2" using publish_event_log(1) [OF pub] quiet(1) by simp
  let ?ids = "set (session_workspace_ids candidate)"
  have "\<exists>g. core st2 = core (st1\<lparr>rt_git := g |` ?ids\<rparr>) \<and> git_ok candidate (g |` ?ids)
      \<and> runs rp W (mirrors W {} st) st1 (\<lambda>m. \<exists>m0. mirrors W {} st m0 \<and> m = m0\<lparr>sm_git := g\<rparr>) st2"
    using git
  proof
    assume st2: "st2 = st1"
    have "\<exists>m0. mirrors W {} st m0 \<and> m = m0\<lparr>sm_git := rt_git st\<rparr>" if "mirrors W {} st m" for m
      using that by (intro exI [of _ m]) (simp add: mirrors_def)
    moreover have "core st2 = core (st1\<lparr>rt_git := rt_git st |` ?ids\<rparr>)" by (simp add: st2 core_eq f(2))
    moreover have "git_ok candidate (rt_git st |` ?ids)" using server_ok_git(2) [OF ok1] by (simp add: f)
    ultimately show ?thesis by (intro exI [of _ "rt_git st"]) (simp add: st2 runs_silent)
  next
    assume "publish_git enc wid git st1 = Some st2 \<and> wid \<in> ?ids"
    then have p: "publish_git enc wid git st1 = Some st2" and wid: "wid \<in> ?ids" by simp_all
    define new where "new = map_option (workspace_git_snapshot wid) git"
    let ?g = "(rt_git st)(wid := new)"
    have g: "?g |` ?ids = (rt_git st1)(wid := new)" using wid by (auto simp: f(2) restrict_map_def)
    have "runs rp W (mirrors W {} st) st1 (\<lambda>m. \<exists>m0. mirrors W {} st m0 \<and> m = m0\<lparr>sm_git := ?g\<rparr>) st2"
    proof (rule publish_git_runs [OF p])
      fix m assume m: "mirrors W {} st m"
      then have "sm_git m = rt_git st" by (simp add: mirrors_def)
      with m show "\<exists>m0. mirrors W {} st m0 \<and> m\<lparr>sm_git := (sm_git m)(wid := map_option (workspace_git_snapshot wid) git)\<rparr>
          = m0\<lparr>sm_git := ?g\<rparr>" by (intro exI [of _ m]) (simp add: new_def)
      show "sm_git m wid = rt_git st1 wid" using \<open>sm_git m = rt_git st\<close> wid by (simp add: f(2))
    qed
    moreover have "git_ok candidate (?g |` ?ids)"
      unfolding g using server_ok_git(2) [OF ok1] wid by (simp add: new_def f(1) git_ok_upd)
    moreover have "core st2 = core (st1\<lparr>rt_git := ?g |` ?ids\<rparr>)" using publish_git_core [OF p] unfolding g unfolding new_def .
    ultimately show ?thesis by blast
  qed
  then obtain g where core2: "core st2 = core (st1\<lparr>rt_git := g |` ?ids\<rparr>)" and g: "git_ok candidate (g |` ?ids)"
    and first: "runs rp W (mirrors W {} st) st1 (\<lambda>m. \<exists>m0. mirrors W {} st m0 \<and> m = m0\<lparr>sm_git := g\<rparr>) st2" by blast
  have "runs rp W (\<lambda>m. \<exists>m0. mirrors W {} st m0 \<and> m = m0\<lparr>sm_git := g\<rparr>) st2' (mirrors W {} st3) st3"
  proof (rule publish_event_runs [OF pub])
    fix m n shown assume "\<exists>m0. mirrors W {} st m0 \<and> m = m0\<lparr>sm_git := g\<rparr>"
    then show "\<exists>m'. model_event rp n shown (le_event effect) m = Some m' \<and> mirrors W {} st3 m'"
      unfolding ev mirrors_core [OF core3] using layout_mirror [OF ok c change inv snap _ core2] by blast
  qed
  from runs_before [OF quiet(2,3) this] first have "runs rp W (mirrors W {} st) st1 (mirrors W {} st3) st3" by (rule runs_trans [rotated])
  then show "runs rp W (mirrors W {} st) st (mirrors W {} st3) st3" by (rule runs_before [OF log])
  show "server_ok rp nxt' st3"
    unfolding core_cong(1) [OF core3] core_cong(1) [OF core2] using server_ok_git(1) [OF ok1] g by (simp add: f(1))
qed

section \<open>Commands\<close>

text \<open>An effect that waits for its event: the candidate behind it is a good successor of the Session.\<close>

definition ready where
  "ready enc persistable rp st nxt' effect st1 ids \<longleftrightarrow> (\<exists>candidate closed started effect0.
     commit_layout_candidate enc persistable candidate closed started st = Some (Inr effect0, st1)
     \<and> le_event effect = le_event effect0 \<and> panes_change (rt_session st) (closed_panes closed) (map_option fst started) candidate
     \<and> session_inv rp nxt' candidate \<and> ids = set (session_workspace_ids candidate))"

lemma ready_published:
  assumes "ready enc persistable rp st nxt' effect st1 ids"
    and "st2 = st1 \<or> publish_git enc wid git st1 = Some st2 \<and> wid \<in> ids"
    and "core st2' = core st2" "rt_log st2' = rt_log st2" "rt_sequence st2' = rt_sequence st2"
    and "publish_event enc (le_event effect) origin st2' = Some (lost, st3)"
  shows "carries rp W nxt st nxt' st3"
  using assms(1) published_layout [OF _ _ _ _ assms(3-5)] assms(2,6) unfolding ready_def by metis

lemma commit_refused:
  assumes "commit_layout_candidate enc persistable candidate closed started st = Some (Inl reason, st1)"
  shows "st1 = st"
  using assms by (auto simp: commit_layout_candidate_def Let_def bind_eq_Some_conv split: if_splits)

lemma activated_published:
  assumes "publish_event enc (Activated wid tid) origin st = Some (lost, st')"
  shows "carries rp W nxt st nxt st'"
proof -
  note core = publish_event_log(1) [OF assms]
  have "runs rp W (mirrors W {} st) st (mirrors W {} st') st'"
    by (rule publish_event_runs [OF assms]) (simp add: mirrors_core [OF core])
  then show ?thesis by (simp add: carries_def core_cong(1) [OF core])
qed

lemma start_terminal_pane: "start_terminal spawn s new_pane = Inr started \<Longrightarrow> map_option fst started = new_pane"
  by (auto simp: start_terminal_def split: option.splits sum.splits)

lemma plan_workspace_result:
  assumes "plan_workspace root name s nxt = Some (Edits candidate new_pane closed (WorkspaceCreated wid tid p) preserve, nxt')"
  shows "wid \<in> set (session_workspace_ids candidate) \<and> \<not> preserve"
proof -
  have "opens_on candidate wid \<noteq> None \<and> \<not> preserve"
    using assms by (auto simp: plan_workspace_def refuse_def Let_def bind_eq_Some_conv split: prod.splits option.splits if_splits)
  then have "find_workspace candidate wid \<noteq> None \<and> \<not> preserve" by (auto simp: opens_on_def bind_eq_Some_conv)
  then show ?thesis by (simp add: zoomed_workspace_ids)
qed

lemma apply_layout_command_ready:
  assumes step: "apply_layout_command enc persistable spawn rp command st nxt = Some (r, st1, nxt')"
    and ok: "server_ok rp nxt st"
  shows "unat nxt \<le> unat nxt'" and "r = Inl reason \<Longrightarrow> st1 = st"
    and "r = Inr effect \<Longrightarrow> st1 = st \<and> le_result effect = LayoutChangedResult \<and> (\<exists>wid tid. le_event effect = Activated wid tid)
      \<or> (\<exists>ids. ready enc persistable rp st nxt' effect st1 ids
          \<and> (\<forall>root name wid tid p. command = CreateWorkspace root name \<longrightarrow> le_result effect = WorkspaceCreated wid tid p \<longrightarrow> wid \<in> ids))"
proof -
  obtain plan nxt1 where plan: "layout_plan_of rp command (rt_session st) nxt = Some (plan, nxt1)" and grows: "unat nxt \<le> unat nxt1"
    and owes: "plan_owes rp (rt_session st) nxt1 plan"
    using layout_plan_owes [OF server_okD(1) [OF ok]] by blast
  have "unat nxt \<le> unat nxt' \<and> (r = Inl reason \<longrightarrow> st1 = st)
    \<and> (r = Inr effect \<longrightarrow> st1 = st \<and> le_result effect = LayoutChangedResult \<and> (\<exists>wid tid. le_event effect = Activated wid tid)
      \<or> (\<exists>ids. ready enc persistable rp st nxt' effect st1 ids
          \<and> (\<forall>root name wid tid p. command = CreateWorkspace root name \<longrightarrow> le_result effect = WorkspaceCreated wid tid p \<longrightarrow> wid \<in> ids)))"
  proof (cases plan)
    case (Refused reason)
    with step plan grows show ?thesis by (simp add: apply_layout_command_def) blast
  next
    case (Activates wid tid)
    with step plan grows show ?thesis by (auto simp: apply_layout_command_def activated_def)
  next
    case (Edits candidate new_pane closed result preserve)
    let ?candidate = "kept_focus preserve candidate (rt_session st)"
    from owes have inv: "session_inv rp nxt1 ?candidate"
      and change: "panes_change (rt_session st) (closed_panes closed) new_pane ?candidate" by (simp_all add: Edits)
    have step: "(case start_terminal spawn ?candidate new_pane of
             Inl reason \<Rightarrow> Some (Inl reason, st, nxt1)
           | Inr started \<Rightarrow>
               map_option (\<lambda>(r, st). (with_result result r, st, nxt1))
                 (commit_layout_candidate enc persistable ?candidate closed started st)) = Some (r, st1, nxt')"
      using step unfolding apply_layout_command_def plan Edits by (simp add: Let_def flip: kept_focus_def)
    show ?thesis
    proof (cases "start_terminal spawn ?candidate new_pane")
      case (Inl reason)
      with step grows show ?thesis by auto
    next
      case (Inr started)
      from step obtain r0 where commit: "commit_layout_candidate enc persistable ?candidate closed started st = Some (r0, st1)"
        and r: "r = with_result result r0" and nxt': "nxt' = nxt1" by (auto simp: Inr)
      show ?thesis
      proof (cases r0)
        case (Inl reason)
        with commit commit_refused have "st1 = st" by blast
        then show ?thesis using grows by (simp add: r nxt' Inl with_result_def)
      next
        case (Inr effect0)
        have rd: "ready enc persistable rp st nxt' (effect0\<lparr>le_result := result\<rparr>) st1 (set (session_workspace_ids ?candidate))"
          unfolding ready_def nxt' using commit inv change start_terminal_pane [OF \<open>start_terminal spawn _ _ = Inr started\<close>] Inr
          by (intro exI [of _ ?candidate] exI [of _ closed] exI [of _ started] exI [of _ effect0]) simp
        have "wid \<in> set (session_workspace_ids ?candidate)"
          if "command = CreateWorkspace root name" "result = WorkspaceCreated wid tid p" for root name wid tid p
          using plan that plan_workspace_result [of root name "rt_session st" nxt candidate] by (simp add: Edits kept_focus_def)
        with rd grows show ?thesis by (auto simp: r nxt' Inr with_result_def)
      qed
    qed
  qed
  then show "unat nxt \<le> unat nxt'" and "r = Inl reason \<Longrightarrow> st1 = st"
    and "r = Inr effect \<Longrightarrow> st1 = st \<and> le_result effect = LayoutChangedResult \<and> (\<exists>wid tid. le_event effect = Activated wid tid)
      \<or> (\<exists>ids. ready enc persistable rp st nxt' effect st1 ids
          \<and> (\<forall>root name wid tid p. command = CreateWorkspace root name \<longrightarrow> le_result effect = WorkspaceCreated wid tid p \<longrightarrow> wid \<in> ids))"
    by blast+
qed

lemma publish_effect_event:
  assumes "publish_effect enc c request effect st = Some (response, st')"
  obtains lost where "publish_event enc (le_event effect) (Some c) st = Some (lost, st')"
  using assms by (auto simp: publish_effect_def bind_eq_Some_conv)

lemma record_terminal_cwd_observations_carries:
  "record_terminal_cwd_observations persistable observations st = Some (recorded, st') \<Longrightarrow> carries rp W nxt st nxt st'"
  unfolding record_terminal_cwd_observations_def by (rule record_terminal_cwds_carries)

lemma carries_ok: "(server_ok rp nxt st \<Longrightarrow> carries rp W nxt st nxt' st') \<Longrightarrow> carries rp W nxt st nxt' st'"
  by (simp add: carries_def)

lemma execute_local_carries:
  assumes step: "execute_local enc persistable spawn rp stopping c request command observations st nxt = Some (r, st', nxt')"
  shows "carries rp W nxt st nxt' st'"
proof (cases "layout_authority_error st (lr_server_id request) (lr_session_id request) stopping")
  case None
  with step obtain recorded st1 r1 st2 nxt2
    where a: "record_terminal_cwd_observations persistable observations st = Some (recorded, st1)"
      and b: "apply_layout_command enc persistable spawn rp command st1 nxt = Some (r1, st2, nxt2)"
      and c: "(case r1 of Inl reason \<Rightarrow> Some (Inl reason, st2, nxt2)
         | Inr effect \<Rightarrow> map_option (\<lambda>(response, st). (Inr response, st, nxt2)) (publish_effect enc c request effect st2)) = Some (r, st', nxt')"
    by (auto simp: execute_local_def bind_eq_Some_conv)
  have "carries rp W nxt st1 nxt' st'"
  proof (rule carries_ok)
    assume ok: "server_ok rp nxt st1"
    note rd = apply_layout_command_ready [OF b ok]
    show "carries rp W nxt st1 nxt' st'"
    proof (cases r1)
      case (Inl reason)
      with c rd(2) have "st' = st1" "nxt' = nxt2" by auto
      then show ?thesis using carries_grows [OF rd(1)] by simp
    next
      case (Inr effect)
      with c obtain response where "publish_effect enc c request effect st2 = Some (response, st')" and nxt': "nxt' = nxt2" by auto
      from this(1) obtain lost where pub: "publish_event enc (le_event effect) (Some c) st2 = Some (lost, st')"
        by (rule publish_effect_event)
      from rd(3) [OF Inr] show ?thesis
      proof
        assume "st2 = st1 \<and> le_result effect = LayoutChangedResult \<and> (\<exists>wid tid. le_event effect = Activated wid tid)"
        with pub activated_published have "carries rp W nxt st1 nxt st'" by fastforce
        then show ?thesis unfolding nxt' using carries_grows [OF rd(1)] by (rule carries_trans)
      next
        assume "\<exists>ids. ready enc persistable rp st1 nxt2 effect st2 ids \<and>
          (\<forall>root name wid tid p. command = CreateWorkspace root name \<longrightarrow> le_result effect = WorkspaceCreated wid tid p \<longrightarrow> wid \<in> ids)"
        then obtain ids where rd: "ready enc persistable rp st1 nxt2 effect st2 ids" by blast
        show ?thesis unfolding nxt' by (rule ready_published [OF rd _ _ _ _ pub]) simp_all
      qed
    qed
  qed
  with record_terminal_cwd_observations_carries [OF a] show ?thesis by (rule carries_trans)
qed (use step in \<open>simp add: execute_local_def\<close>)

section \<open>External operations\<close>

text \<open>What waits for its event after an external operation: perhaps with the Git state of its Workspace told of,
  perhaps with a clone queued.\<close>

definition ready_external where
  "ready_external enc persistable rp st nxt' effect st' \<longleftrightarrow> (\<exists>st1 ids wid git st2.
     ready enc persistable rp st nxt' effect st1 ids \<and> (st2 = st1 \<or> publish_git enc wid git st1 = Some st2 \<and> wid \<in> ids)
     \<and> core st' = core st2 \<and> rt_log st' = rt_log st2 \<and> rt_sequence st' = rt_sequence st2)"

definition owes_external where
  "owes_external enc persistable rp st nxt r st' nxt' \<longleftrightarrow> unat nxt \<le> unat nxt'
     \<and> (case r of Inl reason \<Rightarrow> st' = st | Inr effect \<Rightarrow> ready_external enc persistable rp st nxt' effect st')"

lemma ready_external_published:
  assumes "ready_external enc persistable rp st nxt' effect st'" and "publish_effect enc c request effect st' = Some (response, st3)"
  shows "carries rp W nxt st nxt' st3"
proof -
  from assms(2) obtain lost where pub: "publish_event enc (le_event effect) (Some c) st' = Some (lost, st3)"
    by (rule publish_effect_event)
  from assms(1) show ?thesis unfolding ready_external_def using ready_published [OF _ _ _ _ _ pub] by blast
qed

lemma ready_external_plain: "ready enc persistable rp st nxt' effect st1 ids \<Longrightarrow> ready_external enc persistable rp st nxt' effect st1"
  unfolding ready_external_def by (intro exI [of _ st1] exI [of _ ids] exI) simp

lemma ready_external_git:
  assumes "ready enc persistable rp st nxt' effect st1 ids" and "publish_git enc wid git st1 = Some st2" and "wid \<in> ids"
  shows "ready_external enc persistable rp st nxt' effect st2"
  unfolding ready_external_def using assms by (intro exI [of _ st1] exI [of _ ids] exI [of _ wid] exI [of _ git] exI [of _ st2]) simp

lemma apply_prepared_workspace_owes:
  assumes step: "apply_prepared_workspace enc persistable spawn rp now root git name clone_url st nxt = Some (r, st', nxt')"
    and ok: "server_ok rp nxt st"
  shows "owes_external enc persistable rp st nxt r st' nxt'"
proof -
  from step obtain r1 st1 nxt1 where a: "apply_layout_command enc persistable spawn rp (CreateWorkspace root name) st nxt = Some (r1, st1, nxt1)"
    by (auto simp: apply_prepared_workspace_def bind_eq_Some_conv)
  note rd = apply_layout_command_ready [OF a ok]
  show ?thesis
  proof (cases r1)
    case (Inl reason)
    with step a rd show ?thesis by (auto simp: apply_prepared_workspace_def owes_external_def)
  next
    case (Inr effect)
    with step a obtain wid tid p st2 where res: "le_result effect = WorkspaceCreated wid tid p"
      and g: "set_workspace_git enc wid git st1 = Some st2" and r: "r = Inr effect" "nxt' = nxt1"
      and st': "st' = (case clone_url of Some url \<Rightarrow> queue_clone now p url root st2 | None \<Rightarrow> st2)"
      by (auto simp: apply_prepared_workspace_def bind_eq_Some_conv split: layout_result.splits)
    from rd(3) [OF Inr] res obtain ids where "ready enc persistable rp st nxt1 effect st1 ids" "wid \<in> ids"
      by auto
    with g have "ready_external enc persistable rp st nxt1 effect st'"
      unfolding ready_external_def set_workspace_git_def st'
      by (intro exI [of _ st1] exI [of _ ids] exI [of _ wid] exI [of _ git] exI [of _ st2])
        (simp add: queue_clone_def core_eq split: option.split)
    with rd(1) show ?thesis by (simp add: owes_external_def r)
  qed
qed

lemma commit_worktree_owes:
  assumes step: "commit_worktree enc persistable spawn child_root child wid candidate st nxt = Some (r, st', nxt')"
    and opens: "opens_on candidate wid = Some (tid, p)" and inv: "session_inv rp nxt candidate"
    and change: "panes_change (rt_session st) [] (Some p) candidate"
  shows "nxt' = nxt \<and> (case r of Inl reason \<Rightarrow> st' = st | Inr effect \<Rightarrow> ready_external enc persistable rp st nxt effect st')"
proof (cases "spawn p child_root")
  case (Inr view)
  with step opens obtain r1 st1 where a: "commit_layout_candidate enc persistable candidate None (Some (p, view)) st = Some (r1, st1)"
    by (auto simp: commit_worktree_def bind_eq_Some_conv)
  show ?thesis
  proof (cases r1)
    case (Inl reason)
    with a commit_refused have "st1 = st" by blast
    with step opens Inr a show ?thesis by (auto simp: commit_worktree_def Inl)
  next
    case b: (Inr effect)
    with step opens Inr a obtain st2 where g: "set_workspace_git enc wid (Some child) st1 = Some st2"
      and r: "r = Inr (effect\<lparr>le_result := WorkspaceCreated wid tid p\<rparr>)" "nxt' = nxt" "st' = st2"
      by (auto simp: commit_worktree_def bind_eq_Some_conv)
    have wid: "wid \<in> set (session_workspace_ids candidate)"
      using opens zoomed_workspace_ids [of candidate wid] by (auto simp: opens_on_def bind_eq_Some_conv)
    have "ready enc persistable rp st nxt (effect\<lparr>le_result := WorkspaceCreated wid tid p\<rparr>) st1 (set (session_workspace_ids candidate))"
      unfolding ready_def using a b inv change
      by (intro exI [of _ candidate] exI [of _ None] exI [of _ "Some (p, view)"] exI [of _ effect]) (simp add: closed_panes_def)
    with g wid have "ready_external enc persistable rp st nxt (effect\<lparr>le_result := WorkspaceCreated wid tid p\<rparr>) st2"
      unfolding set_workspace_git_def by (intro ready_external_git)
    then show ?thesis by (simp add: r)
  qed
qed (use step opens in \<open>auto simp: commit_worktree_def\<close>)

lemma live_workspace_id:
  assumes inv: "session_inv rp nxt s" and live: "find_workspace s wid \<noteq> None"
  shows "valid_id (workspace_u64 wid)"
proof -
  from live obtain i where "i < length (workspaces s)" "w_id (workspaces s ! i) = wid"
    by (auto simp: find_workspace_def find_Some_iff)
  then show ?thesis using session_inv_workspace [OF inv] by (auto simp: wf_simps)
qed

lemma associate_worktree_ids:
  assumes "associate_worktree s wid parent root m base = (r, s')"
  shows "session_workspace_ids s' = session_workspace_ids s"
  using assms by (auto simp: associate_worktree_def session_workspace_ids_def set_workspace_def map_update list_update_same_conv
      dest!: position_lessD split: if_splits option.splits)

lemma new_worktree_candidate:
  assumes inv: "session_inv rp nxt s" and create: "create_workspace s nxt root = (Some wid, s1, nxt1)"
    and parent: "find_workspace s parent \<noteq> None" and assoc: "associate_worktree s1 wid parent parent_root m base = (a, s2)"
  obtains tid p where "opens_on s2 wid = Some (tid, p)" and "session_inv rp nxt1 s2" and "panes_change s [] (Some p) s2"
    and "unat nxt \<le> unat nxt1"
proof -
  have pos: "0 < unat nxt" using inv by (simp add: session_inv_def)
  note inv1 = create_workspace_inv [OF inv create] and grows = create_workspace_grows [OF create pos]
  have "valid_id (workspace_u64 parent)" by (rule live_workspace_id [OF inv parent])
  note inv2 = associate_worktree_inv [OF inv1 this assoc]
  from inv create show thesis
  proof (rule opens_on_created)
    fix tid p assume o: "opens_on s1 wid = Some (tid, p)" and c: "panes_change s [] (Some p) s1"
    have "panes_change s [] (Some p) s2"
      using c same_panes_set [OF associate_worktree_panes [OF assoc]] by (simp add: panes_change_def)
    moreover have "opens_on s2 wid = Some (tid, p)" using o opens_on_associate [OF assoc] by simp
    ultimately show thesis using that inv2 grows by blast
  qed
qed

lemma apply_prepared_worktree_owes:
  assumes step: "apply_prepared_worktree enc persistable spawn parent parent_root child_root child base st nxt = Some (r, st', nxt')"
    and ok: "server_ok rp nxt st"
  shows "owes_external enc persistable rp st nxt r st' nxt'"
proof (cases "parent_moved (rt_session st) parent parent_root")
  case False
  note inv = server_okD(1) [OF ok]
  have parent: "find_workspace (rt_session st) parent \<noteq> None" using False by (auto simp: parent_moved_def split: option.splits)
  obtain res s1 nxt1 where create: "create_workspace (rt_session st) nxt child_root = (res, s1, nxt1)" by (metis prod_cases3)
  show ?thesis
  proof (cases res)
    case None
    with step False create create_workspace_grows [OF create] inv show ?thesis
      by (auto simp: apply_prepared_worktree_def owes_external_def session_inv_def)
  next
    case (Some wid)
    obtain a s2 where assoc: "associate_worktree s1 wid parent parent_root True base = (a, s2)" by (metis surj_pair)
    note create = create [unfolded Some]
    from inv create parent assoc show ?thesis
    proof (rule new_worktree_candidate)
      fix tid p assume o: "opens_on s2 wid = Some (tid, p)" and inv2: "session_inv rp nxt1 s2"
        and change: "panes_change (rt_session st) [] (Some p) s2" and grows: "unat nxt \<le> unat nxt1"
      from step False create assoc o have "(\<exists>reason. r = Inl reason) \<and> st' = st \<and> nxt' = nxt1
          \<or> commit_worktree enc persistable spawn child_root child wid s2 st nxt1 = Some (r, st', nxt')"
        by (auto simp: apply_prepared_worktree_def Let_def bind_eq_Some_conv split: if_splits)
      then show ?thesis
        using commit_worktree_owes [OF _ o inv2 change] grows by (fastforce simp: owes_external_def)
    qed
  qed
qed (use step in \<open>auto simp: apply_prepared_worktree_def owes_external_def\<close>)

lemma apply_prepared_open_owes:
  assumes step: "apply_prepared_open enc persistable spawn parent parent_root child_root child st nxt = Some (r, st', nxt')"
    and ok: "server_ok rp nxt st"
  shows "owes_external enc persistable rp st nxt r st' nxt'"
proof (cases "parent_moved (rt_session st) parent parent_root")
  case False
  note inv = server_okD(1) [OF ok]
  have parent: "find_workspace (rt_session st) parent \<noteq> None" using False by (auto simp: parent_moved_def split: option.splits)
  show ?thesis
  proof (cases "workspace_by_root (rt_session st) child_root")
    case (Some w)
    define s where "s = (if w_worktree w = None then snd (associate_worktree (rt_session st) (w_id w) parent parent_root False None)
        else rt_session st)"
    from step False Some obtain r1 st1 where a: "commit_layout_candidate enc persistable s None None st = Some (r1, st1)"
      and b: "(case r1 of Inl reason \<Rightarrow> Some (Inl reason, st1, nxt)
             | Inr effect \<Rightarrow> do {
                 st \<leftarrow> set_workspace_git enc (w_id w) (Some child) st1;
                 Some (Inr (effect\<lparr>le_result := WorkspaceOpened (w_id w)\<rparr>), st, nxt)}) = Some (r, st', nxt')"
      by (auto simp: apply_prepared_open_def bind_eq_Some_conv simp flip: s_def)
    have s: "session_inv rp nxt s \<and> same_panes (rt_session st) s \<and> session_workspace_ids s = session_workspace_ids (rt_session st)"
    proof (cases "w_worktree w = None")
      case True
      obtain a s' where assoc: "associate_worktree (rt_session st) (w_id w) parent parent_root False None = (a, s')" by (metis surj_pair)
      with True associate_worktree_inv [OF inv live_workspace_id [OF inv parent] assoc] associate_worktree_panes [OF assoc]
        associate_worktree_ids [OF assoc] show ?thesis by (simp add: s_def)
    next
      case False
      then have "s = rt_session st" by (simp only: s_def if_False)
      with inv show ?thesis by simp
    qed
    have wid: "w_id w \<in> set (session_workspace_ids s)"
      using s Some by (auto simp: workspace_by_root_def find_Some_iff session_workspace_ids_def)
    show ?thesis
    proof (cases r1)
      case (Inl reason)
      with a b commit_refused show ?thesis by (auto simp: owes_external_def)
    next
      case (Inr effect)
      with b obtain st2 where g: "publish_git enc (w_id w) (Some child) st1 = Some st2"
        and r: "r = Inr (effect\<lparr>le_result := WorkspaceOpened (w_id w)\<rparr>)" "st' = st2" "nxt' = nxt"
        by (auto simp: bind_eq_Some_conv set_workspace_git_def)
      have "ready enc persistable rp st nxt (effect\<lparr>le_result := WorkspaceOpened (w_id w)\<rparr>) st1 (set (session_workspace_ids s))"
        unfolding ready_def using a Inr s same_panes_change
        by (intro exI [of _ s] exI [of _ None] exI [of _ "None :: (pane_id \<times> terminal_view) option"] exI [of _ effect]) (simp add: closed_panes_def)
      then have "ready_external enc persistable rp st nxt (effect\<lparr>le_result := WorkspaceOpened (w_id w)\<rparr>) st2"
        using g wid by (rule ready_external_git)
      then show ?thesis by (simp add: r owes_external_def)
    qed
  next
    case None
    obtain res s1 nxt1 where create: "create_workspace (rt_session st) nxt child_root = (res, s1, nxt1)" by (metis prod_cases3)
    show ?thesis
    proof (cases res)
      case none: None
      with step False None create create_workspace_grows [OF create] inv show ?thesis
        by (auto simp: apply_prepared_open_def owes_external_def session_inv_def)
    next
      case (Some wid)
      obtain a s2 where assoc: "associate_worktree s1 wid parent parent_root False None = (a, s2)" by (metis surj_pair)
      note create = create [unfolded Some]
      from inv create parent assoc show ?thesis
      proof (rule new_worktree_candidate)
        fix tid p assume o: "opens_on s2 wid = Some (tid, p)" and inv2: "session_inv rp nxt1 s2"
          and change: "panes_change (rt_session st) [] (Some p) s2" and grows: "unat nxt \<le> unat nxt1"
        from step False None create assoc
        have "commit_worktree enc persistable spawn child_root child wid s2 st nxt1 = Some (r, st', nxt')"
          by (simp add: apply_prepared_open_def Let_def)
        then show ?thesis
          using commit_worktree_owes [OF _ o inv2 change] grows by (fastforce simp: owes_external_def)
      qed
    qed
  qed
qed (use step in \<open>auto simp: apply_prepared_open_def owes_external_def\<close>)

lemma apply_removal_owes:
  assumes step: "apply_removal enc persistable wid st = Some (r, st')" and ok: "server_ok rp nxt st"
  shows "owes_external enc persistable rp st nxt r st' nxt"
proof (cases "managed (rt_session st) wid")
  case True
  note inv = server_okD(1) [OF ok]
  from step True obtain closed s where close: "close_workspace (rt_session st) wid = (Some closed, s)"
    and a: "commit_layout_candidate enc persistable s (Some closed) None st = Some (r, st')"
    by (auto simp: apply_removal_def split: prod.splits option.splits)
  show ?thesis
  proof (cases r)
    case (Inl reason)
    with a commit_refused show ?thesis by (auto simp: owes_external_def)
  next
    case (Inr effect)
    have "ready enc persistable rp st nxt effect st' (set (session_workspace_ids s))"
      unfolding ready_def
      using a Inr close_workspace_inv [OF inv close] closes_panes_change [OF inv close_workspace_exactly [OF close]]
      by (intro exI [of _ s] exI [of _ "Some closed"] exI [of _ "None :: (pane_id \<times> terminal_view) option"] exI [of _ effect])
        (simp add: closed_panes_def)
    then show ?thesis by (simp add: owes_external_def Inr ready_external_plain)
  qed
qed (use step in \<open>auto simp: apply_removal_def owes_external_def\<close>)

lemma apply_prepared_external_layout_owes:
  assumes step: "apply_prepared_external_layout enc persistable spawn rp now prepared st nxt = Some (r, st', nxt')"
    and ok: "server_ok rp nxt st"
  shows "owes_external enc persistable rp st nxt r st' nxt'"
proof (cases prepared)
  case (PreparedWorkspace root git name clone_url)
  with step ok show ?thesis by (simp add: apply_prepared_workspace_owes)
next
  case (PreparedWorktree parent parent_root child_root child base)
  with step ok show ?thesis by (simp add: apply_prepared_worktree_owes)
next
  case (PreparedOpen parent parent_root child_root child)
  with step ok show ?thesis by (simp add: apply_prepared_open_owes)
next
  case (RemovalReady wid child_root)
  with step show ?thesis by (auto simp: owes_external_def)
next
  case (Removal wid)
  with step ok show ?thesis by (auto simp: apply_removal_owes)
qed

lemma commit_prepared_carries:
  assumes step: "commit_prepared enc persistable spawn rp now stopping c request prepared st nxt = Some (r, st', nxt')"
  shows "carries rp W nxt st nxt' st'"
proof (cases "layout_authority_error st (lr_server_id request) (lr_session_id request)
    (stopping \<and> (case prepared of Removal _ \<Rightarrow> False | _ \<Rightarrow> True))")
  case None
  with step obtain r1 st1 nxt1
    where a: "apply_prepared_external_layout enc persistable spawn rp now prepared st nxt = Some (r1, st1, nxt1)"
      and b: "(case r1 of Inl reason \<Rightarrow> Some (Inl reason, st1, nxt1)
         | Inr effect \<Rightarrow> map_option (\<lambda>(response, st). (Inr response, st, nxt1)) (publish_effect enc c request effect st1)) = Some (r, st', nxt')"
    by (auto simp: commit_prepared_def Let_def bind_eq_Some_conv)
  show ?thesis
  proof (rule carries_ok)
    assume "server_ok rp nxt st"
    from apply_prepared_external_layout_owes [OF a this] have owes: "owes_external enc persistable rp st nxt r1 st1 nxt1" .
    show ?thesis
    proof (cases r1)
      case (Inl reason)
      with b owes show ?thesis by (auto simp: owes_external_def carries_grows)
    next
      case (Inr effect)
      with b obtain response where "publish_effect enc c request effect st1 = Some (response, st')" "nxt' = nxt1" by auto
      with owes ready_external_published show ?thesis by (fastforce simp: owes_external_def Inr)
    qed
  qed
qed (use step in \<open>simp add: commit_prepared_def Let_def\<close>)

lemma answer_layout_carries: "carries rp W nxt st nxt (answer_layout enc c request r st)"
  by (rule carries_silent) (simp_all add: answer_layout_def)

lemma follow_renamed_file_carries:
  assumes step: "follow_renamed_file enc persistable rp wid from dest st = Some st'"
    and rp: "relpath_ok rp" and dest: "valid_diff_path rp dest"
  shows "carries rp W nxt st nxt st'"
proof (rule carries_ok)
  assume ok: "server_ok rp nxt st"
  obtain followed s where f: "follow_rename rp (rt_session st) wid from dest = (followed, s)" by (metis surj_pair)
  note inv = follow_rename_inv [OF server_okD(1) [OF ok] rp dest f]
    and change = same_panes_change [OF follow_rename_panes [OF f]]
  show ?thesis
  proof (cases followed)
    case True
    with step f obtain r st1 where a: "commit_layout_candidate enc persistable s None None st = Some (r, st1)"
      and b: "(case r of Inl _ \<Rightarrow> Some st1 | Inr effect \<Rightarrow> publish_background enc (le_event effect) st1) = Some st'"
      by (auto simp: follow_renamed_file_def bind_eq_Some_conv)
    show ?thesis
    proof (cases r)
      case (Inl reason)
      with a b commit_refused show ?thesis by fastforce
    next
      case (Inr effect)
      with b obtain lost where pub: "publish_event enc (le_event effect) None st1 = Some (lost, st')"
        by (auto simp: publish_background_def)
      show ?thesis
        by (rule published_layout [OF a [unfolded Inr] _ inv _ _ _ _ pub]) (simp_all add: closed_panes_def change)
    qed
  qed (use step f in \<open>simp add: follow_renamed_file_def\<close>)
qed

section \<open>Removals that wait, and those that fail\<close>

lemma stop_terminal_carries: "carries rp W nxt st nxt (stop_terminal p st)"
proof (cases "p \<in> set (rt_terminals st)")
  case True
  let ?st = "stop_terminal p st"
  have st': "?st = st\<lparr>rt_instances := (rt_instances st)(p := None), rt_closing := insert p (rt_closing st),
      rt_terminals := filter (\<lambda>q. q \<noteq> p) (rt_terminals st)\<rparr>" using True by (simp add: stop_terminal_def)
  show ?thesis unfolding carries_def
  proof (intro impI conjI)
    assume ok: "server_ok rp nxt st"
    note okd = server_okD [OF ok]
    have here: "present ?st = present st" using True by (auto simp: st' present_def)
    have away: "hidden ?st = insert p (hidden st)" by (simp add: st' hidden_def)
    show "server_ok rp nxt ?st"
      unfolding server_ok_def here away using okd(1-8) okd(11) okd(9,10) by (simp add: st') blast
    have "mirrors W {} ?st m" if "mirrors W {} st m" for m
      by (rule mirrors_hide [OF that]) (simp_all add: st' hidden_def subset_insertI)
    then show "runs rp W (mirrors W {} st) st (mirrors W {} ?st) ?st"
      by (intro runs_silent) (simp_all add: st')
  qed
qed (simp add: stop_terminal_def)

lemma stop_terminals_carries: "carries rp W nxt st nxt (fold stop_terminal panes st)"
proof (induction panes arbitrary: st)
  case (Cons p panes)
  show ?case using carries_trans [OF stop_terminal_carries Cons.IH] by simp
qed simp

lemma approve_removal_shape:
  assumes "approve_removal wid child_root st = (r, st')"
  shows "(\<exists>reason. r = Inl reason) \<and> st' = st
    \<or> (\<exists>root panes. r = Inr (map (\<lambda>p. (p, restart_cwd st root p)) panes) \<and> st' = fold stop_terminal panes st
        \<and> set panes \<subseteq> set (rt_terminals st))"
proof (cases "find_workspace (rt_session st) wid")
  case (Some w)
  define panes where "panes = filter (\<lambda>p. p \<in> set (rt_terminals st)) (map p_id (concat (map tab_panes (w_tabs w))))"
  have "set panes \<subseteq> set (rt_terminals st)" by (auto simp: panes_def)
  show ?thesis
  proof (cases "w_root w \<noteq> child_root \<or> \<not> managed (rt_session st) wid")
    case False
    with Some have "approve_removal wid child_root st
        = (Inr (map (\<lambda>p. (p, restart_cwd st (w_root w) p)) panes), fold stop_terminal panes st)"
      by (simp only: approve_removal_def option.case if_False Let_def panes_def)
    with assms have "r = Inr (map (\<lambda>p. (p, restart_cwd st (w_root w) p)) panes)" "st' = fold stop_terminal panes st"
      by simp_all
    with \<open>set panes \<subseteq> _\<close> show ?thesis by (intro disjI2 exI [of _ "w_root w"] exI [of _ panes]) simp
  qed (use assms Some in \<open>auto simp: approve_removal_def\<close>)
qed (use assms in \<open>auto simp: approve_removal_def\<close>)

lemma approve_removal_carries: "approve_removal wid child_root st = (r, st') \<Longrightarrow> carries rp W nxt st nxt st'"
  using approve_removal_shape stop_terminals_carries carries_refl by metis

lemma approve_external_layout_carries:
  assumes "approve_external_layout prepared st = (r, st')"
  shows "carries rp W nxt st nxt st'"
  using assms by (cases prepared) (simp_all add: approve_removal_carries)

text \<open>Only a terminal that had not exited is to be restarted.\<close>

lemma approved_not_exited:
  assumes "approve_removal wid child_root st = (Inr stopped, st')" and "(p, Some cwd) \<in> set stopped"
  shows "p \<in> set (rt_terminals st) \<and> p \<notin> rt_exited st"
  using approve_removal_shape [OF assms(1)] assms(2) by (auto simp: restart_cwd_def split: if_splits)

lemma agents_dropped:
  assumes ok: "server_ok rp nxt st" and p: "p \<notin> set (rt_terminals st)" and alive: "p \<notin> rt_exited st"
  shows "server_ok rp nxt (st\<lparr>rt_exited := rt_exited st - {p}, rt_agents := (rt_agents st)(p := None)\<rparr>)"
    and "mirrors W X st m \<Longrightarrow> mirrors W (if rt_agents st p \<noteq> None then insert p X else X)
      (st\<lparr>rt_exited := rt_exited st - {p}, rt_agents := (rt_agents st)(p := None)\<rparr>) m"
proof -
  note okd = server_okD [OF ok]
  have same: "rt_exited st - {p} = rt_exited st" using alive by simp
  have "rt_unseen st \<subseteq> dom ((rt_agents st)(p := None)) \<union> hidden st"
    using okd(10) server_ok_unseen [OF ok] p by (auto simp: present_def hidden_def)
  then show "server_ok rp nxt (st\<lparr>rt_exited := rt_exited st - {p}, rt_agents := (rt_agents st)(p := None)\<rparr>)"
    using okd by (auto simp: server_ok_def present_def hidden_def same)
  show "mirrors W X st m \<Longrightarrow> mirrors W (if rt_agents st p \<noteq> None then insert p X else X)
      (st\<lparr>rt_exited := rt_exited st - {p}, rt_agents := (rt_agents st)(p := None)\<rparr>) m"
    unfolding same by (auto simp: mirrors_def hidden_def)
qed

lemma reinstall_terminals_runs:
  assumes "reinstall_terminals enc restarted st = Some (cleared, st')" and "\<forall>(p, view) \<in> set restarted. p \<notin> rt_exited st"
    and "server_ok rp nxt st"
  shows "server_ok rp nxt st' \<and> runs rp W (mirrors W X st) st (mirrors W (X \<union> set cleared) st') st'
    \<and> (\<forall>p. p \<in> set cleared \<or> rt_agents st p = None \<longrightarrow> rt_agents st' p = None)"
  using assms
proof (induction restarted arbitrary: st cleared X)
  case Nil
  then show ?case by (simp add: runs_refl)
next
  case (Cons r rest)
  obtain p view where r: "r = (p, view)" by (metis surj_pair)
  note ok = Cons.prems(3)
  show ?case
  proof (cases "get_pane (rt_session st) p = None \<or> p \<in> set (rt_terminals st)")
    case True
    with Cons.prems Cons.IH [of st cleared X] show ?thesis by (simp add: r)
  next
    case False
    let ?st = "st\<lparr>rt_exited := rt_exited st - {p}, rt_agents := (rt_agents st)(p := None)\<rparr>"
    let ?X = "if rt_agents st p \<noteq> None then insert p X else X"
    from Cons.prems(1) False obtain instance_id st1 cleared1
      where a: "install_terminal enc p view ?st = Some (instance_id, st1)"
        and b: "reinstall_terminals enc rest st1 = Some (cleared1, st')"
        and cleared: "cleared = (if rt_agents st p \<noteq> None then p # cleared1 else cleared1)"
      by (auto simp: r Let_def bind_eq_Some_conv split: if_splits)
    have alive: "p \<notin> rt_exited st" using Cons.prems(2) by (simp add: r)
    from False have pane: "p \<in> set (session_pane_ids (rt_session st))" and out: "p \<notin> set (rt_terminals st)"
      by (simp_all add: get_pane_ids)
    note dropped = agents_dropped [OF ok out alive]
    have none: "rt_agents ?st p = None" by simp
    note inst = install_terminal_runs [OF a none]
    from inst(2) obtain v where c: "core st1 = core (?st\<lparr>rt_titles := (rt_titles ?st)(p := None), rt_progress := (rt_progress ?st)(p := None),
      rt_bells := rt_bells ?st - {p}, rt_unseen := rt_unseen ?st - {p}, rt_views := (rt_views ?st)(p \<mapsto> v),
      rt_terminals := List.insert p (rt_terminals ?st), rt_instances := (rt_instances ?st)(p \<mapsto> instance_id),
      rt_closing := rt_closing ?st - {p}\<rparr>)" by blast
    have ok1: "server_ok rp nxt st1" by (rule server_ok_install [OF dropped(1) c]) (simp add: pane)
    have exited: "rt_exited st1 = rt_exited st - {p}" and agents: "rt_agents st1 = (rt_agents st)(p := None)"
      using c by (simp_all add: core_eq)
    have "\<forall>(p, view) \<in> set rest. p \<notin> rt_exited st1" using Cons.prems(2) by (auto simp: exited)
    from Cons.IH [OF b this ok1, of ?X]
    have ih: "server_ok rp nxt st'" "runs rp W (mirrors W ?X st1) st1 (mirrors W (?X \<union> set cleared1) st') st'"
      "\<forall>q. q \<in> set cleared1 \<or> rt_agents st1 q = None \<longrightarrow> rt_agents st' q = None" by blast+
    have "runs rp W (mirrors W X st) st (mirrors W ?X ?st) ?st"
      by (rule runs_silent) (simp, simp, rule dropped(2))
    from runs_trans [OF runs_trans [OF this inst(1)] ih(2)]
    have "runs rp W (mirrors W X st) st (mirrors W (?X \<union> set cleared1) st') st'" .
    moreover have "?X \<union> set cleared1 = X \<union> set cleared" by (auto simp: cleared)
    moreover have "\<forall>q. q \<in> set cleared \<or> rt_agents st q = None \<longrightarrow> rt_agents st' q = None"
      using ih(3) by (auto simp: cleared agents)
    ultimately show ?thesis using ih(1) by simp
  qed
qed

lemma agents_cleared_runs:
  assumes "publish_all enc (map (\<lambda>p. AgentChanged p None) cleared) st = Some st'" and "\<forall>p \<in> set cleared. rt_agents st p = None"
  shows "runs rp W (mirrors W X st) st (mirrors W (X - set cleared) st') st' \<and> core st' = core st"
  using assms
proof (induction cleared arbitrary: st X)
  case Nil
  then show ?case by (simp add: runs_refl)
next
  case (Cons p cleared)
  from Cons.prems(1) obtain st1 where a: "publish_background enc (AgentChanged p None) st = Some st1"
    and b: "publish_all enc (map (\<lambda>p. AgentChanged p None) cleared) st1 = Some st'" by (auto simp: bind_eq_Some_conv)
  have same: "st\<lparr>rt_agents := (rt_agents st)(p := None)\<rparr> = st" using Cons.prems(2) by (simp add: fun_upd_idem)
  note pub = agent_published [where st = st and agent = None and p = p, unfolded same, OF a]
  have "\<forall>q \<in> set cleared. rt_agents st1 q = None" using Cons.prems(2) pub by (simp add: core_eq)
  note rest = Cons.IH [OF b this, of "X - {p}"]
  have "X - {p} - set cleared = X - set (p # cleared)" by auto
  with runs_then [OF pub rest] show ?case by simp
qed

lemma restore_exited_terminals_carries:
  assumes "restore_exited_terminals enc exited st = Some st'"
  shows "carries rp W nxt st nxt st'"
  using assms
proof (induction exited arbitrary: st)
  case (Cons e rest)
  obtain p view where e: "e = (p, view)" by (metis surj_pair)
  from Cons.prems obtain restored st1 where a: "restore_exited_terminal enc p view st = Some (restored, st1)"
    and b: "restore_exited_terminals enc rest st1 = Some st'" by (auto simp: e bind_eq_Some_conv)
  have "carries rp W nxt st nxt st1" using restore_exited_terminal_runs(1,2) [OF a] by (simp add: carries_def)
  from this Cons.IH [OF b] show ?case by (rule carries_trans)
qed simp

lemma restore_failed_removal_carries:
  assumes step: "restore_failed_removal enc persistable stopping cwds restarted exited st = Some st'"
    and alive: "\<forall>(p, view) \<in> set restarted. p \<notin> rt_exited st"
  shows "carries rp W nxt st nxt st'"
proof -
  from step obtain recorded st1 where a: "record_terminal_cwds persistable cwds st = Some (recorded, st1)"
    and rest: "(if stopping then Some st1 else do {
       (cleared, st) \<leftarrow> reinstall_terminals enc restarted st1;
       st \<leftarrow> publish_all enc (map (\<lambda>p. AgentChanged p None) cleared) st;
       restore_exited_terminals enc exited st}) = Some st'"
    by (auto simp: restore_failed_removal_def bind_eq_Some_conv)
  have first: "carries rp W nxt st nxt st1" by (rule record_terminal_cwds_carries [OF a])
  from record_terminal_cwds_same [OF a] have exited: "rt_exited st1 = rt_exited st" by auto
  have "carries rp W nxt st1 nxt st'"
  proof (cases stopping)
    case True
    with rest show ?thesis by simp
  next
    case False
    with rest obtain cleared st2 st3 where b: "reinstall_terminals enc restarted st1 = Some (cleared, st2)"
      and c: "publish_all enc (map (\<lambda>p. AgentChanged p None) cleared) st2 = Some st3"
      and d: "restore_exited_terminals enc exited st3 = Some st'" by (auto simp: bind_eq_Some_conv)
    have "carries rp W nxt st1 nxt st3"
      unfolding carries_def
    proof (intro impI)
      assume ok: "server_ok rp nxt st1"
      have alive1: "\<forall>(p, view) \<in> set restarted. p \<notin> rt_exited st1" using alive by (simp add: exited)
      note re = reinstall_terminals_runs [OF b alive1 ok, of W "{}"]
      have "\<forall>p \<in> set cleared. rt_agents st2 p = None" using re by blast
      note cl = agents_cleared_runs [OF c this, of rp W "set cleared"]
      have "runs rp W (mirrors W {} st1) st1 (mirrors W (set cleared) st2) st2" using re by simp
      moreover have "runs rp W (mirrors W (set cleared) st2) st2 (mirrors W {} st3) st3" using cl by simp
      ultimately have "runs rp W (mirrors W {} st1) st1 (mirrors W {} st3) st3" by (rule runs_trans)
      moreover have "server_ok rp nxt st3" using re cl core_cong(1) by metis
      ultimately show "server_ok rp nxt st3 \<and> runs rp W (mirrors W {} st1) st1 (mirrors W {} st3) st3" by blast
    qed
    then show ?thesis using restore_exited_terminals_carries [OF d] by (rule carries_trans)
  qed
  with first show ?thesis by (rule carries_trans)
qed

end
