(* ===== verification/Mirror_Bootstrap.thy ===== *)
theory Mirror_Bootstrap
  imports Mirror_Layout
begin

text \<open>
  Where the relation starts: a Client that applies the Bootstrap captured from a state mirrors that state.
  And the rest of the Server's operations, of which no event speaks.
\<close>

section \<open>Subscribers\<close>

lemma subscribers_silent:
  "carries rp W nxt st nxt (set_subscriber c sub st)" "carries rp W nxt st nxt (set_writer c q st)"
  "carries rp W nxt st nxt (remove_subscriber c st)"
  by (rule carries_silent; simp)+

lemma subscribe_carries:
  assumes "subscribe enc c session_id after_sequence st = (flush, close, st')"
  shows "carries rp W nxt st nxt st'"
proof -
  have "core st' = core st \<and> rt_log st' = rt_log st \<and> rt_sequence st' = rt_sequence st"
    using assms by (auto simp: subscribe_def ensure_subscriber_def Let_def split: if_splits prod.splits option.splits)
  then show ?thesis by (simp add: carries_silent)
qed

lemma watch_terminals_carries: "carries rp W nxt st nxt (watch_terminals c panes st)"
  by (rule carries_silent) (auto simp: watch_terminals_def Let_def core_eq set_subscriber_def split: option.split)

lemma bootstrap_fence_carries:
  "carries rp W nxt st nxt (begin_bootstrap c st)" "carries rp W nxt st nxt (abort_bootstrap c st)"
  "finish_bootstrap c framed st = (r, st') \<Longrightarrow> carries rp W nxt st nxt st'"
proof -
  show "carries rp W nxt st nxt (begin_bootstrap c st)"
    by (rule carries_silent) (auto simp: begin_bootstrap_def split: option.split)
  show "carries rp W nxt st nxt (abort_bootstrap c st)"
    by (rule carries_silent) (auto simp: abort_bootstrap_def Let_def split: option.split)
  assume step: "finish_bootstrap c framed st = (r, st')"
  have "\<exists>sub q. st' = set_subscriber c sub (set_writer c q st) \<or> st' = st"
    using step by (auto simp: finish_bootstrap_def Let_def split: option.splits prod.splits sum.splits)
  then show "carries rp W nxt st nxt st'" by (auto intro!: carries_silent)
qed

lemma flush_terminal_render_carries:
  assumes "flush_terminal_render co enc c st = Some (again, st')"
  shows "carries rp W nxt st nxt st'"
proof -
  have snap: "core (snd (terminal_render_snapshot c st)) = core st \<and> rt_log (snd (terminal_render_snapshot c st)) = rt_log st
      \<and> rt_sequence (snd (terminal_render_snapshot c st)) = rt_sequence st" for st :: "('a, 'b) runtime"
    by (auto simp: terminal_render_snapshot_def Let_def split: option.split)
  have settle: "core (settle_render p st) = core st \<and> rt_log (settle_render p st) = rt_log st
      \<and> rt_sequence (settle_render p st) = rt_sequence st" for p and st :: "('a, 'b) runtime"
    by (auto simp: settle_render_def split: option.split)
  have commit: "commit_terminal_render p frames st = Some (x, st') \<Longrightarrow> core st' = core st \<and> rt_log st' = rt_log st
      \<and> rt_sequence st' = rt_sequence st" for p frames x and st st' :: "('a, 'b) runtime"
    using settle by (auto simp: commit_terminal_render_def try_send_terminal_render_def Let_def
      split: option.splits if_splits sum.splits bool.splits prod.splits render_send_error.splits)
  obtain snapshot st1 where a: "terminal_render_snapshot c st = (snapshot, st1)" by (metis surj_pair)
  have "core st1 = core st \<and> rt_log st1 = rt_log st \<and> rt_sequence st1 = rt_sequence st" using snap [of st] a by simp
  moreover have "st' = st1 \<or> (\<exists>p frames x. commit_terminal_render p frames st1 = Some (x, st'))"
    using assms by (auto simp: flush_terminal_render_def a split: option.splits sum.splits prod.splits)
  ultimately have "core st' = core st \<and> rt_log st' = rt_log st \<and> rt_sequence st' = rt_sequence st" using commit by metis
  then show ?thesis by (simp add: carries_silent)
qed

section \<open>What a Bootstrap brings\<close>

lemma map_of_graph:
  assumes "\<And>k v. (k, v) \<in> set xs \<Longrightarrow> f k = Some v" and "\<And>k v. f k = Some v \<Longrightarrow> (k, v) \<in> set xs"
  shows "map_of xs = f"
proof
  fix k
  show "map_of xs k = f k"
  proof (cases "f k")
    case None
    with assms(1) have "k \<notin> fst ` set xs" by fastforce
    with None show ?thesis by (simp add: map_of_eq_None_iff)
  next
    case (Some v)
    with assms(2) obtain v' where "map_of xs k = Some v'" by (metis weak_map_of_SomeI)
    with assms(1) [OF map_of_SomeD [OF this]] Some show ?thesis by simp
  qed
qed

lemma insert_all_graph:
  assumes "\<And>k v. (k, v) \<in> set xs \<longleftrightarrow> f k = Some v"
  shows "insert_all xs = f"
  unfolding insert_all_def by (rule map_of_graph) (simp_all add: assms)

lemma set_map_filter: "set (List.map_filter f xs) = {y. \<exists>x \<in> set xs. f x = Some y}"
  by (induction xs) (auto simp: List.map_filter_simps split: option.splits)

definition captured :: "('set, 'git) runtime \<Rightarrow> pane_id list option \<Rightarrow> pane_id \<Rightarrow> pane_terminal" where
  "captured st watched p = \<lparr>pt_pane_id = p,
     pt_view = (if watches (map_option set watched) p then Some (lt_view (the (rt_views st p))) else None),
     pt_exited = (p \<in> rt_exited st), pt_title = rt_titles st p, pt_attention = (p \<in> rt_bells st), pt_progress = rt_progress st p\<rparr>"

lemma captured_terminals:
  assumes ok: "server_ok rp nxt st"
  shows "set (List.map_filter (capture_terminal st watched) (session_pane_ids (rt_session st))) = captured st watched ` present st"
proof -
  have "capture_terminal st watched p = (if p \<in> present st then Some (captured st watched p) else None)" for p
    using server_okD(3) [OF ok] by (auto simp: capture_terminal_def captured_def present_def)
  then show ?thesis using server_okD(2) [OF ok] by (auto simp: set_map_filter split: if_splits)
qed

lemma captured_fields [simp]:
  "pt_pane_id (captured st watched p) = p" "pt_exited (captured st watched p) = (p \<in> rt_exited st)"
  "pt_title (captured st watched p) = rt_titles st p" "pt_attention (captured st watched p) = (p \<in> rt_bells st)"
  "pt_progress (captured st watched p) = rt_progress st p"
  by (simp_all add: captured_def)

lemma captured_panes:
  assumes ok: "server_ok rp nxt st"
    and ts: "set ts = captured st watched ` present st"
  shows "set (map pt_pane_id (filter pt_exited ts)) = rt_exited st"
    and "set (map pt_pane_id (filter pt_attention ts)) = rt_bells st"
    and "insert_all (records pt_pane_id pt_title ts) = rt_titles st"
    and "insert_all (records pt_pane_id pt_progress ts) = rt_progress st"
proof -
  note okd = server_okD(4-7) [OF ok]
  have pick: "set (map pt_pane_id (filter Q ts)) = {p \<in> present st. Q (captured st watched p)}" for Q
  proof -
    have "set (filter Q ts) = captured st watched ` {p \<in> present st. Q (captured st watched p)}" by (auto simp: ts)
    then show ?thesis by (simp only: set_map image_image captured_fields image_ident)
  qed
  show "set (map pt_pane_id (filter pt_exited ts)) = rt_exited st"
    unfolding pick using okd(1) by auto
  show "set (map pt_pane_id (filter pt_attention ts)) = rt_bells st"
    unfolding pick using okd(2) by auto
  show "insert_all (records pt_pane_id pt_title ts) = rt_titles st"
    using okd(3) by (intro insert_all_graph) (auto simp: records_def set_map_filter ts)
  show "insert_all (records pt_pane_id pt_progress ts) = rt_progress st"
    using okd(4) by (intro insert_all_graph) (auto simp: records_def set_map_filter ts)
qed

lemma captured_agents:
  assumes ok: "server_ok rp nxt st"
  shows "insert_all (map (\<lambda>a. (pa_pane_id a, pa_agent a)) (pane_agent_snapshots st)) = rt_agents st |` (- hidden st)"
    and "set (map pa_pane_id (filter pa_unseen (pane_agent_snapshots st))) = rt_unseen st \<inter> (dom (rt_agents st) - hidden st)"
proof -
  have "dom (rt_agents st) \<subseteq> set (session_pane_ids (rt_session st))" using server_okD(2,8) [OF ok] by blast
  then have mem: "a \<in> set (pane_agent_snapshots st) \<longleftrightarrow> (\<exists>p agent. p \<notin> hidden st \<and> rt_agents st p = Some agent
      \<and> a = \<lparr>pa_pane_id = p, pa_agent = agent, pa_unseen = (p \<in> rt_unseen st)\<rparr>)" for a
    by (auto simp: pane_agent_snapshots_def set_map_filter hidden_def split: if_splits)
  show "insert_all (map (\<lambda>a. (pa_pane_id a, pa_agent a)) (pane_agent_snapshots st)) = rt_agents st |` (- hidden st)"
    by (intro insert_all_graph) (force simp: mem restrict_map_def image_iff)
  show "set (map pa_pane_id (filter pa_unseen (pane_agent_snapshots st))) = rt_unseen st \<inter> (dom (rt_agents st) - hidden st)"
    by (force simp: mem image_iff)
qed

lemma captured_git:
  assumes ok: "server_ok rp nxt st"
  shows "insert_all (map (\<lambda>git. (wg_workspace_id git, git)) (List.map_filter (rt_git st) (map w_id (workspaces (rt_session st))))) = rt_git st"
  using server_okD(11) [OF ok] by (intro insert_all_graph) (force simp: set_map_filter session_workspace_ids_def)

lemma device_subscribe_model [simp]:
  "dv_model (device_subscribe d) = dv_model d"
  by (simp add: device_subscribe_def device_send_def split: option.split)

lemma mark_seen_sequence [simp]: "sm_sequence (mark_seen p m) = sm_sequence m"
  by (simp add: mark_seen_def)

text \<open>Whatever the Client kept before, and whichever of its Panes is in front.\<close>

lemma bootstrap_mirrors:
  assumes ok: "server_ok rp nxt st" and captured: "capture_bootstrap watched st = Some b"
    and received: "receive_bootstrap rp k shown b d = Some d'" and shown: "shown \<in> on_screen W"
  shows "mirrors W {} st (dv_model d') \<and> sm_sequence (dv_model d') = rt_sequence st"
proof -
  from captured obtain snap where snap: "session_to_snapshot (rt_session st) = Some snap"
    and b: "b = \<lparr>sb_server_id = rt_server_id st, sb_runtime_epoch = rt_epoch st,
     sb_session_id = rt_session_id st, sb_sequence = rt_sequence st, sb_snapshot = snap, sb_settings = rt_settings st,
     sb_terminals = List.map_filter (capture_terminal st watched) (session_pane_ids (rt_session st)),
     sb_agents = pane_agent_snapshots st,
     sb_workspace_git = List.map_filter (rt_git st) (map w_id (workspaces (rt_session st))),
     sb_zoomed_panes = zoomed_panes (rt_session st)\<rparr>"
    by (auto simp: capture_bootstrap_def)
  from saved_restores_anywhere [OF server_okD(1) [OF ok]] snap
  obtain x where restored: "session_restore rp snap k = Some (Inr (unzoomed (rt_session st), x))" by (metis option.inject)
  let ?ts = "List.map_filter (capture_terminal st watched) (session_pane_ids (rt_session st))"
  note panes = captured_panes [OF ok captured_terminals [OF ok, of watched]]
  obtain views budgets change where applied: "apply_bootstrap rp k b (dv_model d) = Some (Inr change,
      (dv_model d)\<lparr>sm_server_id := Some (rt_server_id st), sm_runtime_epoch := Some (rt_epoch st),
         sm_session_id := Some (rt_session_id st), sm_sequence := rt_sequence st,
         sm_session := Some (unzoomed (rt_session st)), sm_attention := rt_bells st, sm_terminals := views,
         sm_hyperlinks := budgets, sm_exited := rt_exited st, sm_titles := rt_titles st, sm_progress := rt_progress st,
         sm_unseen := rt_unseen st \<inter> (dom (rt_agents st) - hidden st), sm_agents := rt_agents st |` (- hidden st),
         sm_git := rt_git st, sm_zoomed := set (zoomed_panes (rt_session st)), sm_settings := rt_settings st\<rparr>)"
  proof -
    from received obtain held where "keep_views (sm_watched (dv_model d)) ?ts (Map.empty, Map.empty) = Some held"
      by (cases "keep_views (sm_watched (dv_model d)) ?ts (Map.empty, Map.empty)")
        (simp_all add: receive_bootstrap_def apply_bootstrap_def restored b)
    moreover obtain views budgets where "held = (views, budgets)" by (metis surj_pair)
    ultimately show thesis
      by (intro that [of _ budgets views])
        (simp add: apply_bootstrap_def restored b panes captured_agents [OF ok] captured_git [OF ok] del: set_map)
  qed
  let ?m = "(dv_model d)\<lparr>sm_server_id := Some (rt_server_id st), sm_runtime_epoch := Some (rt_epoch st),
         sm_session_id := Some (rt_session_id st), sm_sequence := rt_sequence st,
         sm_session := Some (unzoomed (rt_session st)), sm_attention := rt_bells st, sm_terminals := views,
         sm_hyperlinks := budgets, sm_exited := rt_exited st, sm_titles := rt_titles st, sm_progress := rt_progress st,
         sm_unseen := rt_unseen st \<inter> (dom (rt_agents st) - hidden st), sm_agents := rt_agents st |` (- hidden st),
         sm_git := rt_git st, sm_zoomed := set (zoomed_panes (rt_session st)), sm_settings := rt_settings st\<rparr>"
  have m': "dv_model d' = (case shown of Some p \<Rightarrow> mark_seen p ?m | None \<Rightarrow> ?m)"
    using received by (simp add: receive_bootstrap_def applied Let_def) (auto simp: device_subscribe_model)
  have "mirrors W {} st ?m"
    using server_okD(10) [OF ok] by (auto simp: mirrors_def bare_unzoomed restrict_map_def)
  moreover have "mirrors W {} st (mark_seen p m)" if "p \<in> W" "mirrors W {} st m" for p m
    using that by (auto simp: mirrors_def mark_seen_def)
  ultimately show ?thesis using shown by (auto simp: m' split: option.splits)
qed

end
