(* ===== verification/Server_Run.thy ===== *)
theory Server_Run
  imports Mirror_Bootstrap
begin

text \<open>
  Runs of the whole Server: one step is one critical section, whichever thread makes it, so a run is any
  interleaving of connections, terminals, probes, timers and the Git watcher. Over any run the Server keeps
  its invariant, and a Client that took a Bootstrap and then applied every event mirrors the Server.
\<close>

section \<open>Steps\<close>

text \<open>What programs, peers, the file system and Git answer is whatever it may be. A Pane to be restarted after a
  failed removal had not exited when the removal took its terminal out (\<open>approved_not_exited\<close>), and without a
  terminal it cannot exit. The target of a rename was checked where the file was renamed.\<close>

inductive server_step ::
  "('set, 'git, 'r) encode \<Rightarrow> (session_snapshot \<Rightarrow> bool) \<Rightarrow> relpath_api
   \<Rightarrow> ('set, 'git) runtime \<times> u64 \<Rightarrow> ('set, 'git) runtime \<times> u64 \<Rightarrow> bool" for enc persistable rp where
  step_focus: "record_terminal_focus enc p c focused st = Some (hears, st') \<Longrightarrow> server_step enc persistable rp (st, nxt) (st', nxt)"
| step_leave: "server_step enc persistable rp (st, nxt) (client_leaves c st, nxt)"
| step_subscribe: "subscribe enc c session_id after_sequence st = (flush, close, st') \<Longrightarrow> server_step enc persistable rp (st, nxt) (st', nxt)"
| step_watch: "server_step enc persistable rp (st, nxt) (watch_terminals c panes st, nxt)"
| step_begin_bootstrap: "server_step enc persistable rp (st, nxt) (begin_bootstrap c st, nxt)"
| step_finish_bootstrap: "finish_bootstrap c framed st = (sent, st') \<Longrightarrow> server_step enc persistable rp (st, nxt) (st', nxt)"
| step_abort_bootstrap: "server_step enc persistable rp (st, nxt) (abort_bootstrap c st, nxt)"
| step_flush: "flush_terminal_render co encode c st = Some (again, st') \<Longrightarrow> server_step enc persistable rp (st, nxt) (st', nxt)"
| step_agent: "server_step enc persistable rp (st, nxt) (handle_agent enc running typed now c installations launch command st, nxt)"
| step_expire: "server_step enc persistable rp (st, nxt) (expire_agent_operations enc now st, nxt)"
| step_stop_waits: "server_step enc persistable rp (st, nxt) (stop_agent_waits enc st, nxt)"
| step_probe: "probe_update enc persistable running p instance_id cwd resume agent update st = Some st'
    \<Longrightarrow> server_step enc persistable rp (st, nxt) (st', nxt)"
| step_probe_panicked: "probe_panicked enc running p instance_id st = Some st' \<Longrightarrow> server_step enc persistable rp (st, nxt) (st', nxt)"
| step_notices: "take_notices enc p instance_id notices st = Some (alive, st') \<Longrightarrow> server_step enc persistable rp (st, nxt) (st', nxt)"
| step_frame: "publish_terminal_frame p instance_id frame whole st = Some (clients, st') \<Longrightarrow> server_step enc persistable rp (st, nxt) (st', nxt)"
| step_end: "end_terminal_begin p instance_id st = (found, st') \<Longrightarrow> server_step enc persistable rp (st, nxt) (st', nxt)"
| step_ended: "end_terminal_finish enc persistable p instance_id final_view cwd st = Some st'
    \<Longrightarrow> server_step enc persistable rp (st, nxt) (st', nxt)"
| step_cwds: "record_terminal_cwd_observations persistable observations st = Some (recorded, st')
    \<Longrightarrow> server_step enc persistable rp (st, nxt) (st', nxt)"
| step_local: "execute_local enc persistable spawn rp stopping c request command observations st nxt = Some (r, st', nxt')
    \<Longrightarrow> server_step enc persistable rp (st, nxt) (st', nxt')"
| step_approve: "approve_external_layout prepared st = (r, st') \<Longrightarrow> server_step enc persistable rp (st, nxt) (st', nxt)"
| step_prepared: "commit_prepared enc persistable spawn rp now stopping c request prepared st nxt = Some (r, st', nxt')
    \<Longrightarrow> server_step enc persistable rp (st, nxt) (st', nxt')"
| step_restore: "restore_failed_removal enc persistable stopping cwds restarted exited st = Some st'
    \<Longrightarrow> \<forall>(p, view) \<in> set restarted. p \<notin> rt_exited st \<Longrightarrow> server_step enc persistable rp (st, nxt) (st', nxt)"
| step_renamed: "follow_renamed_file enc persistable rp wid from dest st = Some st'
    \<Longrightarrow> relpath_ok rp \<Longrightarrow> valid_diff_path rp dest \<Longrightarrow> server_step enc persistable rp (st, nxt) (st', nxt)"
| step_answer: "server_step enc persistable rp (st, nxt) (answer_layout enc c request r st, nxt)"
| step_git: "git_scanned enc wid root git changed st = Some st' \<Longrightarrow> server_step enc persistable rp (st, nxt) (st', nxt)"
| step_settings: "set_settings enc settings origin st = Some (lost, st') \<Longrightarrow> server_step enc persistable rp (st, nxt) (st', nxt)"

lemma server_step_carries:
  assumes "server_step enc persistable rp a b"
  shows "carries rp W (snd a) (fst a) (snd b) (fst b)"
  using assms
proof cases
  case step_focus then show ?thesis by (simp add: record_terminal_focus_carries)
next
  case step_leave then show ?thesis by (simp add: client_leaves_carries)
next
  case step_subscribe then show ?thesis by (simp add: subscribe_carries)
next
  case step_watch then show ?thesis by (simp add: watch_terminals_carries)
next
  case step_begin_bootstrap then show ?thesis by (simp add: bootstrap_fence_carries)
next
  case step_finish_bootstrap then show ?thesis by (simp add: bootstrap_fence_carries)
next
  case step_abort_bootstrap then show ?thesis by (simp add: bootstrap_fence_carries)
next
  case step_flush then show ?thesis by (simp add: flush_terminal_render_carries)
next
  case step_agent then show ?thesis by (simp add: carries_silent handle_agent_silent)
next
  case step_expire then show ?thesis by (simp add: carries_silent silent)
next
  case step_stop_waits then show ?thesis by (simp add: carries_silent silent)
next
  case step_probe then show ?thesis by (simp add: probe_update_carries)
next
  case step_probe_panicked then show ?thesis by (simp add: probe_panicked_carries)
next
  case step_notices then show ?thesis by (simp add: take_notices_carries)
next
  case step_frame then show ?thesis by (simp add: publish_terminal_frame_carries)
next
  case step_end then show ?thesis by (simp add: end_terminal_begin_carries)
next
  case step_ended then show ?thesis by (simp add: end_terminal_finish_carries)
next
  case step_cwds then show ?thesis by (simp add: record_terminal_cwd_observations_carries)
next
  case step_local then show ?thesis by (simp add: execute_local_carries)
next
  case step_approve then show ?thesis by (simp add: approve_external_layout_carries)
next
  case step_prepared then show ?thesis by (simp add: commit_prepared_carries)
next
  case step_restore then show ?thesis by (simp add: restore_failed_removal_carries)
next
  case step_renamed then show ?thesis by (simp add: follow_renamed_file_carries)
next
  case step_answer then show ?thesis by (simp add: answer_layout_carries)
next
  case step_git then show ?thesis by (simp add: git_scanned_carries)
next
  case step_settings then show ?thesis by (simp add: set_settings_carries)
qed

lemma server_run_carries:
  "(server_step enc persistable rp)\<^sup>*\<^sup>* a b \<Longrightarrow> carries rp W (snd a) (fst a) (snd b) (fst b)"
proof (induction rule: rtranclp_induct)
  case base show ?case by simp
next
  case (step b c)
  show ?case by (rule carries_trans [OF step.IH server_step_carries [OF step.hyps(2)]])
qed

section \<open>A Client that hears every event\<close>

text \<open>The numbers events are published with, and a Client's work on them: each with its own id counter and the Pane
  in front at that moment.\<close>

fun numbered :: "u64 \<Rightarrow> 'e list \<Rightarrow> (u64 \<times> 'e) list" where
  "numbered n [] = []"
| "numbered n (event # events) = (saturating_succ n, event) # numbered (saturating_succ n) events"

fun follow ::
  "relpath_api \<Rightarrow> u64 \<Rightarrow> u64 \<Rightarrow> (u64 \<times> pane_id option \<times> u64 \<times> ('set, 'git) session_event) list \<Rightarrow> ('set, 'git) device
   \<Rightarrow> ('set, 'git) device option" where
  "follow rp server session_id [] d = Some d"
| "follow rp server session_id ((nxt, shown, sequence, event) # rest) d =
     Option.bind (apply_session_event rp nxt shown server session_id sequence event d) (follow rp server session_id rest)"

lemma model_event_ids:
  assumes "model_event rp nxt shown event m = Some m'"
  shows "sm_server_id m' = sm_server_id m" and "sm_session_id m' = sm_session_id m"
  using assms
  by (auto simp: model_event_def apply_layout_def Let_def apply_agent_def apply_progress_def apply_agent_unseen_def
      split: session_event.splits option.splits sum.splits)

lemma model_event_sequence:
  "model_event rp nxt shown event (m\<lparr>sm_sequence := n\<rparr>) = map_option (\<lambda>m. m\<lparr>sm_sequence := n\<rparr>) (model_event rp nxt shown event m)"
  by (cases event)
    (auto simp: model_event_def apply_layout_def Let_def apply_agent_def apply_progress_def apply_agent_unseen_def
      split: option.splits sum.splits)

lemma applied_next:
  assumes "model_event rp nxt shown event (dv_model d) = Some m"
    and "sm_server_id (dv_model d) = Some server" "sm_session_id (dv_model d) = Some session_id"
    and "sequence = saturating_succ (sm_sequence (dv_model d))"
  shows "apply_session_event rp nxt shown server session_id sequence event d = Some (d\<lparr>dv_model := m\<lparr>sm_sequence := sequence\<rparr>\<rparr>)"
proof (cases "\<exists>snap zoomed. event = LayoutChanged snap zoomed")
  case True
  with assms show ?thesis
    by (auto simp: apply_session_event_def model_event_def Let_def split: option.splits sum.splits)
next
  case False
  then have "model_event rp nxt shown event (dv_model d) = Some (apply_event shown event (dv_model d))"
    "model_event rp nxt shown event ((dv_model d)\<lparr>sm_sequence := sequence\<rparr>)
      = Some (apply_event shown event ((dv_model d)\<lparr>sm_sequence := sequence\<rparr>))"
    by (auto simp: model_event_def split: session_event.split)
  with model_event_sequence [of rp nxt shown event sequence "dv_model d"] assms(1)
  have "apply_event shown event ((dv_model d)\<lparr>sm_sequence := sequence\<rparr>) = m\<lparr>sm_sequence := sequence\<rparr>" by simp
  then show ?thesis using False assms(2-4)
    by (cases event) (auto simp: apply_session_event_def on_model_def Let_def)
qed

lemma always_sequence:
  assumes "always rp W Q events m" and "\<And>m n. Q m \<Longrightarrow> Q (m\<lparr>sm_sequence := n\<rparr>)"
  shows "always rp W Q events (m\<lparr>sm_sequence := n\<rparr>)"
  using assms(1)
proof (induction events arbitrary: m)
  case Nil
  with assms(2) show ?case by simp
next
  case (Cons event events)
  show ?case unfolding always.simps
  proof (intro allI ballI)
    fix nxt shown assume "shown \<in> on_screen W"
    with Cons.prems obtain m' where "model_event rp nxt shown event m = Some m'" "always rp W Q events m'"
      unfolding always.simps by blast
    with Cons.IH show "\<exists>m'. model_event rp nxt shown event (m\<lparr>sm_sequence := n\<rparr>) = Some m' \<and> always rp W Q events m'"
      by (simp add: model_event_sequence)
  qed
qed

lemma follow_always:
  assumes "always rp W Q events (dv_model d)" and Q: "\<And>m n. Q m \<Longrightarrow> Q (m\<lparr>sm_sequence := n\<rparr>)"
    and "sm_server_id (dv_model d) = Some server" "sm_session_id (dv_model d) = Some session_id"
    and "map (\<lambda>x. snd (snd x)) heard = numbered (sm_sequence (dv_model d)) events"
    and "\<forall>x \<in> set heard. fst (snd x) \<in> on_screen W"
  shows "\<exists>m. follow rp server session_id heard d = Some (d\<lparr>dv_model := m\<rparr>) \<and> Q m
    \<and> sm_sequence m = (saturating_succ ^^ length events) (sm_sequence (dv_model d))"
  using assms(1,3-6)
proof (induction events arbitrary: d heard)
  case Nil
  then show ?case by (intro exI [of _ "dv_model d"]) simp
next
  case (Cons event events)
  from Cons.prems(4) obtain nxt shown rest where heard: "heard = (nxt, shown, saturating_succ (sm_sequence (dv_model d)), event) # rest"
    and rest: "map (\<lambda>x. snd (snd x)) rest = numbered (saturating_succ (sm_sequence (dv_model d))) events"
    by (cases heard) (auto simp: comp_def)
  from Cons.prems(5) have "shown \<in> on_screen W" by (simp add: heard)
  with Cons.prems(1) obtain m where m: "model_event rp nxt shown event (dv_model d) = Some m" and al: "always rp W Q events m"
    by fastforce
  let ?d = "d\<lparr>dv_model := m\<lparr>sm_sequence := saturating_succ (sm_sequence (dv_model d))\<rparr>\<rparr>"
  have step: "apply_session_event rp nxt shown server session_id (saturating_succ (sm_sequence (dv_model d))) event d = Some ?d"
    by (rule applied_next [OF m Cons.prems(2,3) refl])
  have "always rp W Q events (dv_model ?d)"
    using always_sequence [OF al Q] by simp
  from Cons.IH [OF this] obtain m' where "follow rp server session_id rest ?d = Some (?d\<lparr>dv_model := m'\<rparr>)" "Q m'"
    "sm_sequence m' = (saturating_succ ^^ length events) (sm_sequence (dv_model ?d))"
    using model_event_ids [OF m] Cons.prems(2,3,5) rest by (auto simp: heard)
  then show ?case using step by (intro exI [of _ m']) (simp add: heard funpow_swap1)
qed

section \<open>What holds over any run\<close>

text \<open>A Server that has just been made for a Session: nothing runs in it yet.\<close>

definition with_session ::
  "u64 \<Rightarrow> 128 word \<Rightarrow> 'set \<Rightarrow> (u64 \<Rightarrow> writer_queue) \<Rightarrow> session \<Rightarrow> ('set, 'git) runtime" where
  "with_session server epoch settings writers s = \<lparr>rt_server_id = server, rt_session_id = 1, rt_sequence = 0, rt_session = s,
     rt_terminals = [], rt_views = Map.empty, rt_events = [], rt_subscribers = Map.empty, rt_watched = Map.empty,
     rt_writers = writers, rt_epoch = epoch, rt_settings = settings, rt_closing = {}, rt_exited = {},
     rt_instances = Map.empty, rt_next_instance = 1, rt_agents = Map.empty, rt_unseen = {}, rt_titles = Map.empty,
     rt_progress = Map.empty, rt_bells = {}, rt_git = Map.empty, rt_focused = None, rt_mouse = None, rt_sizing = None,
     rt_control = \<lparr>ac_resumes = Map.empty, ac_names = [], ac_live = [], ac_generations = Map.empty, ac_waiters = Map.empty\<rparr>,
     rt_clones = Map.empty, rt_log = []\<rparr>"

lemma with_session_ok: "session_inv rp nxt s \<Longrightarrow> server_ok rp nxt (with_session server epoch settings writers s)"
  by (simp add: server_ok_def with_session_def present_def hidden_def)

text \<open>C2: The Server's invariant holds after any run, whatever ran and however it was interleaved: the Session is
  well-formed, every terminal, title, report, bell, agent and Git state belongs to a live Pane or Workspace, exited
  Panes have a terminal or one being closed, every terminal has a view to send, and only a Pane with an agent, or one
  hidden from Bootstraps, counts as unseen.\<close>

theorem server_run_ok:
  assumes "session_inv rp nxt s"
    and "(server_step enc persistable rp)\<^sup>*\<^sup>* (with_session server epoch settings writers s, nxt) (st, nxt')"
  shows "server_ok rp nxt' st"
  using server_run_carries [OF assms(2), of "{}"] by (simp add: carries_def with_session_ok [OF assms(1)])

definition shown_panes :: "pane_id option \<Rightarrow> (u64 \<times> pane_id option \<times> 'x) list \<Rightarrow> pane_id set" where
  "shown_panes shown heard = set_option shown \<union> (\<Union>x \<in> set heard. set_option (fst (snd x)))"

lemma shown_panes_on_screen:
  "shown \<in> on_screen (shown_panes shown heard)" "\<forall>x \<in> set heard. fst (snd x) \<in> on_screen (shown_panes shown heard)"
proof -
  show "shown \<in> on_screen (shown_panes shown heard)" by (cases shown) (simp_all add: shown_panes_def)
  have "set_option (fst (snd x)) \<subseteq> shown_panes shown heard" if "x \<in> set heard" for x
    using that by (auto simp: shown_panes_def)
  then show "\<forall>x \<in> set heard. fst (snd x) \<in> on_screen (shown_panes shown heard)"
    by (metis image_eqI insertCI insert_subset not_None_eq option.set(2))
qed

text \<open>C1: Client and Server agree. From any state of the Server, a Client that applies the Bootstrap captured there
  and then every event the Server publishes until some later state, in order, never needs another Bootstrap: no
  request is sent, no event is refused, and what it keeps is the Server's state at that point (\<open>mirrors\<close>), whatever the
  Server's threads did in between. Only an agent on a Pane that is closing or has exited may be unknown to it, and a
  Pane it had on screen itself is not marked unseen.\<close>

theorem client_follows_server:
  assumes ok: "server_ok rp nxt st" and run: "(server_step enc persistable rp)\<^sup>*\<^sup>* (st, nxt) (st', nxt')"
    and captured: "capture_bootstrap watched st = Some b" and received: "receive_bootstrap rp k shown b d = Some d'"
    and heard: "map (\<lambda>x. snd (snd x)) heard = numbered (rt_sequence st) (drop (length (rt_log st)) (rt_log st'))"
  shows "\<exists>m. follow rp (rt_server_id st) (rt_session_id st) heard d' = Some (d'\<lparr>dv_model := m\<rparr>)
    \<and> mirrors (shown_panes shown heard) {} st' m \<and> sm_sequence m = rt_sequence st'"
proof -
  let ?W = "shown_panes shown heard"
  from server_run_carries [OF run, of ?W] ok obtain events where log: "rt_log st' = rt_log st @ events"
    and sequence: "rt_sequence st' = (saturating_succ ^^ length events) (rt_sequence st)"
    and told: "\<And>m. mirrors ?W {} st m \<Longrightarrow> always rp ?W (mirrors ?W {} st') events m"
    by (auto simp: carries_def runs_def)
  have m: "mirrors ?W {} st (dv_model d')" "sm_sequence (dv_model d') = rt_sequence st"
    using bootstrap_mirrors [OF ok captured received shown_panes_on_screen(1)] by blast+
  have "mirrors ?W {} st' m \<Longrightarrow> mirrors ?W {} st' (m\<lparr>sm_sequence := n\<rparr>)" for m n by (simp add: mirrors_def)
  from follow_always [OF told [OF m(1)] this, of "rt_server_id st" "rt_session_id st" heard] show ?thesis
    using m heard shown_panes_on_screen(2) [where heard = heard and shown = shown] by (simp add: mirrors_def log sequence)
qed

end
