(* ===== verification/Server_Properties.thy ===== *)
theory Server_Properties
  imports Server_Run
begin

text \<open>Properties of the whole Server, with a run to apply them to: a Workspace is renamed.\<close>

section \<open>A run\<close>

definition demo_server :: "(unit, unit) runtime" where
  "demo_server = with_session 7 0 () (\<lambda>_. channel_inner None) demo_split"

definition demo_enc :: "(unit, unit, unit) encode" where
  "demo_enc message = Some []"

definition demo_renamed :: session where
  "demo_renamed = snd (rename_workspace demo_split (WorkspaceId 1) [120])"

definition demo_snap :: session_snapshot where
  "demo_snap = the (session_to_snapshot demo_renamed)"

definition demo_ran ::
  "(rstr + (unit, unit, unit) server_message) \<times> (unit, unit) runtime \<times> u64" where
  "demo_ran = the (execute_local demo_enc (\<lambda>_. True) (\<lambda>p cwd. Inl []) demo_rp False 1
      \<lparr>lr_server_id = 7, lr_session_id = 1, lr_request_id = 1\<rparr> (RenameWorkspace (WorkspaceId 1) [120]) [] demo_server 5)"

lemma demo_rename: "rename_workspace demo_split (WorkspaceId 1) [120] = (True, demo_renamed)"
  by (simp add: demo_renamed_def rename_workspace_def demo_simps trim_def trim_end_def is_whitespace_def)

lemma demo_renamed_saved: "session_to_snapshot demo_renamed = Some demo_snap"
  using saved_restores [OF rename_workspace_inv [OF demo_split_inv demo_rename]]
  by (auto simp: demo_snap_def)

lemma demo_zoomed: "zoomed_panes demo_renamed = []"
  by (simp add: demo_renamed_def rename_workspace_def zoomed_panes_def demo_simps demo_lookup tab_zoomed_pane_id_def trim_def trim_end_def is_whitespace_def
     List.map_filter_simps)

lemma demo_step:
  "execute_local demo_enc (\<lambda>_. True) (\<lambda>p cwd. Inl []) demo_rp False 1
      \<lparr>lr_server_id = 7, lr_session_id = 1, lr_request_id = 1\<rparr> (RenameWorkspace (WorkspaceId 1) [120]) [] demo_server 5
    = Some demo_ran \<and> rt_log (fst (snd demo_ran)) = [LayoutChanged demo_snap []] \<and> snd (snd demo_ran) = 5"
  by (simp add: demo_ran_def execute_local_def layout_authority_error_def demo_server_def with_session_def record_terminal_cwd_observations_def
     record_terminal_cwds_def apply_layout_command_def demo_rename edits_when_def edits_def commit_layout_candidate_def
    start_terminal_def demo_renamed_saved adopt_session_def closed_panes_def layout_changed_event_def with_result_def
    publish_effect_def publish_event_def demo_enc_def Let_def record_event_def demo_zoomed split: prod.split)

lemma demo_server_run: "(server_step demo_enc (\<lambda>_. True) demo_rp)\<^sup>*\<^sup>* (demo_server, 5) (fst (snd demo_ran), 5)"
proof -
  obtain r st' nxt' where ran: "demo_ran = (r, st', nxt')" by (metis prod_cases3)
  have "execute_local demo_enc (\<lambda>_. True) (\<lambda>p cwd. Inl []) demo_rp False 1
      \<lparr>lr_server_id = 7, lr_session_id = 1, lr_request_id = 1\<rparr> (RenameWorkspace (WorkspaceId 1) [120]) [] demo_server 5
    = Some (r, st', 5)" using demo_step by (simp add: ran)
  from r_into_rtranclp [of "server_step demo_enc (\<lambda>_. True) demo_rp", OF server_step.step_local [OF this]] show ?thesis by (simp add: ran)
qed

lemma demo_server_ok: "server_ok demo_rp 5 demo_server"
  unfolding demo_server_def by (rule with_session_ok [OF demo_split_inv])

definition demo_boot :: "(session_snapshot, unit, unit) session_bootstrap" where
  "demo_boot = the (capture_bootstrap None demo_server)"

lemma demo_captured: "capture_bootstrap None demo_server = Some demo_boot"
  using saved_restores [OF demo_split_inv] by (auto simp: demo_boot_def capture_bootstrap_def demo_server_def with_session_def)

definition demo_blank :: "(unit, unit) device" where
  "demo_blank = \<lparr>dv_model = \<lparr>sm_server_id = None, sm_runtime_epoch = None, sm_session_id = None, sm_sequence = 0,
       sm_session = None, sm_terminals = Map.empty, sm_exited = {}, sm_watched = None, sm_titles = Map.empty,
       sm_progress = Map.empty, sm_hyperlinks = Map.empty, sm_agents = Map.empty, sm_unseen = {}, sm_attention = {},
       sm_git = Map.empty, sm_zoomed = {}, sm_settings = ()\<rparr>,
     dv_subscription = NotSubscribed, dv_snapshot_pending = False, dv_connected = True, dv_sent = []\<rparr>"

definition demo_device :: "(unit, unit) device" where
  "demo_device = the (receive_bootstrap demo_rp 1 None demo_boot demo_blank)"

lemma demo_received: "receive_bootstrap demo_rp 1 None demo_boot demo_blank = Some demo_device"
proof -
  obtain snap where snap: "session_to_snapshot demo_split = Some snap"
    and r: "\<exists>x. session_restore demo_rp snap 1 = Some (Inr (unzoomed demo_split, x))"
    using saved_restores_anywhere [OF demo_split_inv] by metis
  then obtain x where r: "session_restore demo_rp snap 1 = Some (Inr (unzoomed demo_split, x))" by blast
  have "sb_snapshot demo_boot = snap" "sb_terminals demo_boot = []"
    by (simp_all add: demo_boot_def capture_bootstrap_def demo_server_def with_session_def snap capture_terminal_def List.map_filter_def)
  then have "receive_bootstrap demo_rp 1 None demo_boot demo_blank \<noteq> None"
    by (simp add: receive_bootstrap_def apply_bootstrap_def r Let_def)
  then show ?thesis by (simp add: demo_device_def)
qed

theorem server_run_ok_witness: "server_ok demo_rp 5 (fst (snd demo_ran))"
  by (rule server_run_ok [OF demo_split_inv demo_server_run [unfolded demo_server_def]])

theorem client_follows_server_witness:
  "\<exists>m. follow demo_rp 7 1 [(9, Some (PaneId 3), 1, LayoutChanged demo_snap [])] demo_device = Some (demo_device\<lparr>dv_model := m\<rparr>)
    \<and> mirrors {PaneId 3} {} (fst (snd demo_ran)) m \<and> sm_sequence m = rt_sequence (fst (snd demo_ran))"
proof -
  have ids: "rt_server_id demo_server = 7" "rt_session_id demo_server = 1" "rt_sequence demo_server = 0" "rt_log demo_server = []"
    by (simp_all add: demo_server_def with_session_def)
  have "map (\<lambda>x. snd (snd x)) [(9 :: u64, Some (PaneId 3), 1 :: u64, LayoutChanged demo_snap [])]
      = numbered (rt_sequence demo_server) (drop (length (rt_log demo_server)) (rt_log (fst (snd demo_ran))))"
    using demo_step by (simp add: ids saturating_succ_def)
  from client_follows_server [OF demo_server_ok demo_server_run demo_captured demo_received this] show ?thesis
    by (simp add: ids shown_panes_def)
qed

section \<open>Layout commands\<close>

lemma install_fresh_total:
  assumes "length (tv_cells view) \<le> usize_max"
    and fresh: "rt_titles st p = None" "rt_progress st p = None" "p \<notin> rt_bells st" "p \<notin> rt_unseen st"
  shows "install_terminal enc p view st \<noteq> None"
proof -
  let ?st = "forget_agent_control p (st\<lparr>rt_next_instance := next_instance (rt_next_instance st)\<rparr>)"
  have c: "core ?st = core st" by (simp add: silent core_eq)
  have "clear_terminal_reports enc p ?st = Some ?st"
    using c fresh by (simp add: clear_terminal_reports_def clear_title_def clear_progress_def core_eq)
  moreover have "clear_unseen enc p ?st = Some ?st"
    using c fresh by (simp add: clear_unseen_def clear_bell_def set_agent_unseen_def core_eq)
  moreover have "install_view p view ?st \<noteq> None"
    using budget_new_inv [OF assms(1)] by (auto simp: install_view_def)
  ultimately show ?thesis by (auto simp: install_terminal_def Let_def)
qed

lemma install_terminal_session:
  assumes "install_terminal enc p view st = Some (instance_id, st')"
  shows "rt_session st' = rt_session st"
proof -
  let ?st = "forget_agent_control p (st\<lparr>rt_next_instance := next_instance (rt_next_instance st)\<rparr>)"
  have c: "core ?st = core st" by (simp add: silent core_eq)
  from assms obtain st1 st2 st3 where a: "clear_terminal_reports enc p ?st = Some st1"
    and b: "clear_unseen enc p st1 = Some st2" and d: "install_view p view st2 = Some st3" and st': "rt_session st' = rt_session st3"
    by (auto simp: install_terminal_def Let_def bind_eq_Some_conv)
  have "rt_session st3 = rt_session st2" using d by (auto simp: install_view_def split: option.splits)
  moreover have "rt_session st2 = rt_session st1" using clear_unseen_runs [OF b, THEN conjunct2] by (simp add: core_eq)
  moreover have "rt_session st1 = rt_session ?st" using clear_terminal_reports_runs [OF a, THEN conjunct2] by (simp add: core_eq)
  moreover have "rt_session ?st = rt_session st" using c by (simp add: core_eq)
  ultimately show ?thesis using st' by simp
qed

lemma start_terminal_view:
  "start_terminal spawn s new_pane = Inr (Some (p, view)) \<Longrightarrow> \<exists>cwd. spawn p cwd = Inr view"
  by (cases "spawn p (the (Option.bind (get_pane s p) p_cwd))")
    (auto simp: start_terminal_def split: option.splits)

lemma commit_layout_candidate_total:
  assumes ok: "server_ok rp nxt st" and inv: "session_inv rp nxt' candidate"
    and change: "panes_change (rt_session st) (closed_panes closed) (map_option fst started) candidate"
    and views: "\<And>p view. started = Some (p, view) \<Longrightarrow> length (tv_cells view) \<le> usize_max"
  shows "commit_layout_candidate enc persistable candidate closed started st \<noteq> None"
proof -
  let ?st = "adopt_session candidate (closed_panes closed) st"
  note ad = adopt_session_core(1) [of candidate "closed_panes closed" st]
  obtain snap where snap: "session_to_snapshot candidate = Some snap" using saved_restores_anywhere [OF inv] by metis
  have session: "rt_session ?st = candidate" using ad by (simp add: core_eq without_def)
  show ?thesis
  proof (cases started)
    case None
    then show ?thesis by (simp add: commit_layout_candidate_def snap Let_def layout_changed_event_def session)
  next
    case (Some s)
    obtain p view where s: "s = (p, view)" by (metis surj_pair)
    have "p \<notin> set (session_pane_ids (rt_session st))" using change by (auto simp: panes_change_def Some s)
    with server_okD(2) [OF ok] have p: "p \<notin> present st" by blast
    have "rt_titles st p = None" "rt_progress st p = None" "p \<notin> rt_bells st" "p \<notin> rt_unseen st"
      using server_okD(5,6,7) [OF ok] server_ok_unseen [OF ok] p by auto
    then have "install_terminal enc p view ?st \<noteq> None"
      using ad by (intro install_fresh_total [OF views [OF Some [unfolded s]]]) (simp_all add: core_eq without_def restrict_map_def)
    then obtain instance_id st' where inst: "install_terminal enc p view ?st = Some (instance_id, st')" by auto
    have "rt_session st' = candidate"
      using install_terminal_session [OF inst] session by simp
    then show ?thesis by (simp add: commit_layout_candidate_def snap Let_def layout_changed_event_def Some s inst)
  qed
qed

text \<open>C4: No layout command panics. On a Server that keeps its invariant every command, with any arguments, is
  carried out or answered with a reason: no \<open>expect\<close> on the way fails, whatever the shell does, as long as a
  new terminal's screen has at most \<open>usize::MAX\<close> cells.\<close>

theorem layout_never_panics:
  assumes ok: "server_ok rp nxt st"
    and screens: "\<forall>p cwd view. spawn p cwd = Inr view \<longrightarrow> length (tv_cells view) \<le> usize_max"
  shows "\<exists>r st' nxt'. apply_layout_command enc persistable spawn rp command st nxt = Some (r, st', nxt')"
proof -
  obtain plan nxt' where plan: "layout_plan_of rp command (rt_session st) nxt = Some (plan, nxt')"
    and owes: "plan_owes rp (rt_session st) nxt' plan"
    using layout_plan_owes [OF server_okD(1) [OF ok]] by blast
  show ?thesis
  proof (cases plan)
    case (Edits candidate new_pane closed result preserve)
    let ?candidate = "kept_focus preserve candidate (rt_session st)"
    from owes have inv: "session_inv rp nxt' ?candidate"
      and change: "panes_change (rt_session st) (closed_panes closed) new_pane ?candidate" by (simp_all add: Edits)
    show ?thesis
    proof (cases "start_terminal spawn ?candidate new_pane")
      case (Inl reason)
      then show ?thesis unfolding apply_layout_command_def plan Edits by (simp add: Let_def flip: kept_focus_def)
    next
      case (Inr started)
      have "length (tv_cells view) \<le> usize_max" if "started = Some (p, view)" for p view
        using Inr that screens start_terminal_view by metis
      then have "commit_layout_candidate enc persistable ?candidate closed started st \<noteq> None"
        using start_terminal_pane [OF Inr] change by (intro commit_layout_candidate_total [OF ok inv]) simp_all
      then show ?thesis unfolding apply_layout_command_def plan Edits
        using Inr by (auto simp: Let_def simp flip: kept_focus_def)
    qed
  qed (use plan in \<open>simp_all add: apply_layout_command_def\<close>)
qed

theorem layout_never_panics_witness:
  "\<exists>r st' nxt'. apply_layout_command demo_enc (\<lambda>_. True) (\<lambda>p cwd. Inl []) demo_rp (ClosePane (PaneId 4)) demo_server 5
    = Some (r, st', nxt')"
  by (rule layout_never_panics [OF demo_server_ok]) simp



end
