(* ===== verification/Session_Wire.thy ===== *)
theory Session_Wire
  imports Terminal_Wire Session_Kept Server_State
begin

text \<open>
  The Session Snapshot and the agent, Git and file types as protobuf messages
  (\<open>protocol/pb/session.rs\<close>, the messages of \<open>proto/condr/v1/session.proto\<close>, the helpers of
  \<open>protocol/pb.rs\<close>): what is written to disk and sent to Clients. A path is its UTF-8 text, so
  \<open>path_text\<close> has nothing to refuse. A decoder answers an error for what a peer may not send; an
  \<open>unreachable!\<close> is an outer \<open>None\<close>. The bytes below the messages are the protobuf library's.
\<close>

section \<open>Helpers of the conversions\<close>

text \<open>A decimal number, as \<open>format!\<close> writes it.\<close>

fun decimal :: "nat \<Rightarrow> string" where
  "decimal n = (if n < 10 then [char_of (48 + n)] else decimal (n div 10) @ [char_of (48 + n mod 10)])"

declare decimal.simps [simp del]

definition member_field :: "'a option \<Rightarrow> wire_error + 'a" where
  "member_field v = (case v of Some x \<Rightarrow> Inr x | None \<Rightarrow> Inl UnknownValue)"

definition bounded :: "nat \<Rightarrow> nat \<Rightarrow> string \<Rightarrow> wire_error + unit" where
  "bounded n limit what =
     (if limit < n
      then Inl (Malformed (decimal n @ '' '' @ what @ '' exceed the limit of '' @ decimal limit))
      else Inr ())"

definition is_relative_text :: "rstr \<Rightarrow> bool" where
  "is_relative_text p \<longleftrightarrow> \<not> (p \<noteq> [] \<and> hd p = 47 \<or> 92 \<in> set p)"

definition relative_path :: "rstr \<Rightarrow> wire_error + rstr" where
  "relative_path p = (if is_relative_text p then Inr p else Inl (Malformed ''not a relative path''))"

text \<open>\<open>map(f).collect::<Result<_, _>>()\<close>: the first error stops it.\<close>

fun map_try :: "('a \<Rightarrow> ('e + 'b) option) \<Rightarrow> 'a list \<Rightarrow> ('e + 'b list) option" where
  "map_try f [] = Some (Inr [])"
| "map_try f (x # xs) = bind_try (f x) (\<lambda>y. bind_try (map_try f xs) (\<lambda>ys. Some (Inr (y # ys))))"

text \<open>A generated enum: \<open>Unspecified\<close> is 0 (\<open>None\<close> here), the named values follow from 1 in the
  order of the declaration. The matches of the conversions pair values of the same name.\<close>

definition enum_number :: "'e list \<Rightarrow> 'e \<Rightarrow> i32" where
  "enum_number members e =
     (case position (\<lambda>x. x = e) members of Some i \<Rightarrow> of_nat (Suc i) | None \<Rightarrow> 0)"

definition pb_enum :: "'e list \<Rightarrow> i32 \<Rightarrow> 'e option option" where
  "pb_enum members = enum_try_from (None # map Some members)"

definition named_value :: "'e option \<Rightarrow> (wire_error + 'e) option" where
  "named_value e = (case e of None \<Rightarrow> None | Some e \<Rightarrow> Some (Inr e))"

definition decode_enum :: "'e list \<Rightarrow> string \<Rightarrow> i32 \<Rightarrow> (wire_error + 'e) option" where
  "decode_enum members field raw = bind_try (Some (enum_value (pb_enum members) raw field)) named_value"

definition decode_enum_or :: "'e list \<Rightarrow> 'e \<Rightarrow> string \<Rightarrow> i32 \<Rightarrow> (wire_error + 'e) option" where
  "decode_enum_or members fallback field raw =
     bind_try (Some (enum_or (pb_enum members) raw field (Some fallback))) named_value"

section \<open>Messages\<close>

record pb_resume =
  qr_kind :: i32
  qr_session_id :: rstr

record pb_pane =
  qp_id :: u64
  qp_cwd :: "rstr option"
  qp_resume :: "pb_resume option"

record pb_split =
  qs_direction :: i32
  qs_ratio :: f32
  qs_first :: u32
  qs_second :: u32

datatype pb_node = PbPaneNode u64 | PbSplitNode pb_split

record pb_layout =
  ql_root :: u32
  ql_nodes :: "pb_node option list"

record pb_terminals =
  qt_panes :: "pb_pane list"
  qt_focused :: u64
  qt_history :: "u64 list"
  qt_layout :: "pb_layout option"

datatype pb_tab_content = PbTerminals pb_terminals | PbDiff rstr | PbFile rstr

record pb_tab =
  qb_id :: u64
  qb_name :: rstr
  qb_content :: "pb_tab_content option"

record pb_worktree =
  qa_parent :: u64
  qa_root :: rstr
  qa_managed :: bool
  qa_base :: "rstr option"

record pb_workspace =
  qw_id :: u64
  qw_name :: rstr
  qw_root :: rstr
  qw_worktree :: "pb_worktree option"
  qw_tabs :: "pb_tab list"

record pb_session =
  qz_workspaces :: "pb_workspace list"

section \<open>Enums of the Session\<close>

definition split_directions :: "split_direction list" where
  "split_directions = [Horizontal, Vertical]"

definition pane_directions :: "pane_direction list" where
  "pane_directions = [Left, Right, Up, Down]"

definition wire_agent_kinds :: "agent_kind list" where
  "wire_agent_kinds = [Claude, Codex, OpenCode, Pi, Omp, Antigravity, Grok, Cursor, Copilot, Kimi, Other]"

definition wire_agent_states :: "agent_state list" where
  "wire_agent_states = [Unknown, Idle, Working, Blocked, Done, Error]"

definition decode_split_direction :: "i32 \<Rightarrow> (wire_error + split_direction) option" where
  "decode_split_direction = decode_enum split_directions ''split direction''"

definition decode_pane_direction :: "i32 \<Rightarrow> (wire_error + pane_direction) option" where
  "decode_pane_direction = decode_enum pane_directions ''pane direction''"

definition decode_agent_kind :: "i32 \<Rightarrow> (wire_error + agent_kind) option" where
  "decode_agent_kind = decode_enum_or wire_agent_kinds Other ''agent kind''"

definition decode_agent_state :: "i32 \<Rightarrow> (wire_error + agent_state) option" where
  "decode_agent_state = decode_enum_or wire_agent_states Unknown ''agent state''"

definition command_agent_kind :: "i32 \<Rightarrow> (wire_error + agent_kind) option" where
  "command_agent_kind raw =
     bind_try (Some (enum_value (pb_enum wire_agent_kinds) raw ''agent kind'')) (\<lambda>kind.
       if kind = Some Other then Some (Inl UnknownValue) else decode_agent_kind raw)"

section \<open>The Session Snapshot\<close>

definition encode_resume :: "agent_resume \<Rightarrow> pb_resume" where
  "encode_resume r = \<lparr>qr_kind = enum_number wire_agent_kinds (ar_kind r), qr_session_id = ar_session_id r\<rparr>"

definition decode_resume :: "pb_resume \<Rightarrow> (wire_error + agent_resume) option" where
  "decode_resume m = bind_try (decode_agent_kind (qr_kind m)) (\<lambda>kind.
     Some (Inr \<lparr>ar_kind = kind, ar_session_id = qr_session_id m\<rparr>))"

definition encode_pane :: "pane_snapshot \<Rightarrow> pb_pane" where
  "encode_pane p = \<lparr>qp_id = pane_u64 (ps_id p), qp_cwd = ps_cwd p,
     qp_resume = map_option encode_resume (ps_resume p)\<rparr>"

text \<open>A resume whose agent this build does not know is left out.\<close>

definition decode_pane :: "pb_pane \<Rightarrow> (wire_error + pane_snapshot) option" where
  "decode_pane m = bind_try (map_transpose decode_resume (qp_resume m)) (\<lambda>resume.
     Some (Inr \<lparr>ps_id = PaneId (qp_id m), ps_cwd = qp_cwd m,
       ps_resume = (case resume of
           Some r \<Rightarrow> if ar_kind r \<noteq> Other then Some r else None
         | None \<Rightarrow> None)\<rparr>))"

fun encode_node :: "layout_node_snapshot \<Rightarrow> pb_node option" where
  "encode_node (PaneNode p) = Some (PbPaneNode (pane_u64 p))"
| "encode_node (SplitNode d r first second) =
     Some (PbSplitNode \<lparr>qs_direction = enum_number split_directions d, qs_ratio = r,
       qs_first = first, qs_second = second\<rparr>)"

definition decode_node :: "pb_node option \<Rightarrow> (wire_error + layout_node_snapshot) option" where
  "decode_node m = bind_try (Some (member_field m)) (\<lambda>node. case node of
       PbPaneNode p \<Rightarrow> Some (Inr (PaneNode (PaneId p)))
     | PbSplitNode s \<Rightarrow> bind_try (decode_split_direction (qs_direction s)) (\<lambda>d.
         Some (Inr (SplitNode d (qs_ratio s) (qs_first s) (qs_second s)))))"

definition encode_layout :: "layout_snapshot \<Rightarrow> pb_layout" where
  "encode_layout l = \<lparr>ql_root = ls_root l, ql_nodes = map encode_node (ls_nodes l)\<rparr>"

definition decode_layout :: "pb_layout \<Rightarrow> (wire_error + layout_snapshot) option" where
  "decode_layout m =
     bind_try (Some (bounded (length (ql_nodes m)) MAX_SNAPSHOT_LAYOUT_NODES ''layout nodes'')) (\<lambda>_.
     bind_try (map_try decode_node (ql_nodes m)) (\<lambda>nodes.
       Some (Inr \<lparr>ls_root = ql_root m, ls_nodes = nodes\<rparr>)))"

fun encode_tab_content :: "tab_content_snapshot \<Rightarrow> pb_tab_content" where
  "encode_tab_content (TerminalsSnapshot panes focused history layout) =
     PbTerminals \<lparr>qt_panes = map encode_pane panes, qt_focused = pane_u64 focused,
       qt_history = map pane_u64 history, qt_layout = Some (encode_layout layout)\<rparr>"
| "encode_tab_content (DiffSnapshot p) = PbDiff p"
| "encode_tab_content (FileSnapshot p) = PbFile p"

fun decode_tab_content :: "pb_tab_content \<Rightarrow> (wire_error + tab_content_snapshot) option" where
  "decode_tab_content (PbTerminals t) =
     bind_try (Some (bounded (length (qt_panes t)) MAX_SNAPSHOT_PANES ''Panes'')) (\<lambda>_.
     bind_try (Some (bounded (length (qt_history t)) MAX_SNAPSHOT_PANES ''focus history entries'')) (\<lambda>_.
     bind_try (map_try decode_pane (qt_panes t)) (\<lambda>panes.
     bind_try (Some (required_field (qt_layout t) ''layout'')) (\<lambda>layout.
     bind_try (decode_layout layout) (\<lambda>layout.
       Some (Inr (TerminalsSnapshot panes (PaneId (qt_focused t)) (map PaneId (qt_history t)) layout)))))))"
| "decode_tab_content (PbDiff p) = bind_try (Some (relative_path p)) (\<lambda>p. Some (Inr (DiffSnapshot p)))"
| "decode_tab_content (PbFile p) = bind_try (Some (relative_path p)) (\<lambda>p. Some (Inr (FileSnapshot p)))"

definition encode_tab :: "tab_snapshot \<Rightarrow> pb_tab" where
  "encode_tab t = \<lparr>qb_id = tab_u64 (ts_id t), qb_name = ts_name t,
     qb_content = Some (encode_tab_content (ts_content t))\<rparr>"

definition decode_tab :: "pb_tab \<Rightarrow> (wire_error + tab_snapshot) option" where
  "decode_tab m =
     bind_try (Some (member_field (qb_content m))) (\<lambda>content.
     bind_try (decode_tab_content content) (\<lambda>content.
       Some (Inr \<lparr>ts_id = TabId (qb_id m), ts_name = qb_name m, ts_content = content\<rparr>)))"

definition encode_worktree :: "worktree_association \<Rightarrow> pb_worktree" where
  "encode_worktree a = \<lparr>qa_parent = workspace_u64 (wt_parent_id a), qa_root = wt_parent_root a,
     qa_managed = wt_managed a, qa_base = wt_base_branch a\<rparr>"

definition decode_worktree :: "pb_worktree \<Rightarrow> worktree_association" where
  "decode_worktree m = \<lparr>wt_parent_id = WorkspaceId (qa_parent m), wt_parent_root = qa_root m,
     wt_managed = qa_managed m, wt_base_branch = qa_base m\<rparr>"

definition encode_workspace :: "workspace_snapshot \<Rightarrow> pb_workspace" where
  "encode_workspace w = \<lparr>qw_id = workspace_u64 (ws_id w), qw_name = ws_name w, qw_root = ws_root w,
     qw_worktree = map_option encode_worktree (ws_worktree w), qw_tabs = map encode_tab (ws_tabs w)\<rparr>"

definition decode_workspace :: "pb_workspace \<Rightarrow> (wire_error + workspace_snapshot) option" where
  "decode_workspace m =
     bind_try (Some (bounded (length (qw_tabs m)) MAX_SNAPSHOT_TABS ''Tabs'')) (\<lambda>_.
     bind_try (map_try decode_tab (qw_tabs m)) (\<lambda>tabs.
       Some (Inr \<lparr>ws_id = WorkspaceId (qw_id m), ws_name = qw_name m, ws_root = qw_root m,
         ws_worktree = map_option decode_worktree (qw_worktree m), ws_tabs = tabs\<rparr>)))"

definition encode_session :: "session_snapshot \<Rightarrow> pb_session" where
  "encode_session s = \<lparr>qz_workspaces = map encode_workspace (ss_workspaces s)\<rparr>"

definition decode_session :: "pb_session \<Rightarrow> (wire_error + session_snapshot) option" where
  "decode_session m =
     bind_try (Some (bounded (length (qz_workspaces m)) MAX_SNAPSHOT_WORKSPACES ''Workspaces'')) (\<lambda>_.
     bind_try (map_try decode_workspace (qz_workspaces m)) (\<lambda>workspaces.
       Some (Inr \<lparr>ss_workspaces = workspaces\<rparr>)))"

section \<open>Agents and their hooks\<close>

record pb_agent =
  qg_session_id :: "rstr option"
  qg_kind :: i32
  qg_state :: i32
  qg_detail :: "rstr option"

datatype hooks_state = HooksInstalled | HooksOutdated | HooksMissing | HooksUnsupported
datatype hooks_action = HooksInstall | HooksUninstall | HooksStatus

record hooks_report =
  hr_agent :: agent_kind
  hr_path :: path
  hr_state :: hooks_state
  hr_note :: "rstr option"
  hr_warning :: "rstr option"

record pb_hooks_report =
  qh_agent :: i32
  qh_path :: rstr
  qh_state :: i32
  qh_note :: "rstr option"
  qh_warning :: "rstr option"

record pb_installation =
  qi_kind :: i32
  qi_executable :: rstr

definition wire_hooks_states :: "hooks_state list" where
  "wire_hooks_states = [HooksInstalled, HooksOutdated, HooksMissing, HooksUnsupported]"

definition wire_hooks_actions :: "hooks_action list" where
  "wire_hooks_actions = [HooksInstall, HooksUninstall, HooksStatus]"

definition decode_hooks_action :: "i32 \<Rightarrow> (wire_error + hooks_action) option" where
  "decode_hooks_action = decode_enum wire_hooks_actions ''hooks action''"

definition encode_agent :: "agent_snapshot \<Rightarrow> pb_agent" where
  "encode_agent a = \<lparr>qg_session_id = sn_session_id a, qg_kind = enum_number wire_agent_kinds (sn_kind a),
     qg_state = enum_number wire_agent_states (sn_state a), qg_detail = sn_detail a\<rparr>"

definition decode_agent :: "pb_agent \<Rightarrow> (wire_error + agent_snapshot) option" where
  "decode_agent m =
     bind_try (decode_agent_kind (qg_kind m)) (\<lambda>kind.
     bind_try (decode_agent_state (qg_state m)) (\<lambda>state.
       Some (Inr \<lparr>sn_session_id = qg_session_id m, sn_kind = kind, sn_state = state,
         sn_detail = qg_detail m\<rparr>)))"

definition encode_hooks_report :: "hooks_report \<Rightarrow> pb_hooks_report" where
  "encode_hooks_report r = \<lparr>qh_agent = enum_number wire_agent_kinds (hr_agent r), qh_path = hr_path r,
     qh_state = enum_number wire_hooks_states (hr_state r), qh_note = hr_note r, qh_warning = hr_warning r\<rparr>"

definition decode_hooks_report :: "pb_hooks_report \<Rightarrow> (wire_error + hooks_report) option" where
  "decode_hooks_report m =
     bind_try (decode_enum_or wire_hooks_states HooksUnsupported ''hooks state'' (qh_state m)) (\<lambda>state.
     bind_try (decode_agent_kind (qh_agent m)) (\<lambda>agent.
       Some (Inr \<lparr>hr_agent = agent, hr_path = qh_path m, hr_state = state, hr_note = qh_note m,
         hr_warning = qh_warning m\<rparr>)))"

definition encode_installation :: "agent_installation \<Rightarrow> pb_installation" where
  "encode_installation i = \<lparr>qi_kind = enum_number wire_agent_kinds (in_kind i), qi_executable = in_executable i\<rparr>"

definition decode_installation :: "pb_installation \<Rightarrow> (wire_error + agent_installation) option" where
  "decode_installation m = bind_try (decode_agent_kind (qi_kind m)) (\<lambda>kind.
     Some (Inr \<lparr>in_kind = kind, in_executable = qi_executable m\<rparr>))"

section \<open>Git changes and History\<close>

datatype git_change_status =
  ChangeAdded | ChangeModified | ChangeDeleted | ChangeRenamed | ChangeUntracked | ChangeConflicted

record git_diff_stat =
  gd_added :: u32
  gd_deleted :: u32

record git_change_entry =
  gc_path :: rstr
  gc_old_path :: "rstr option"
  gc_status :: git_change_status
  gc_stat :: "git_diff_stat option"

record git_changes =
  gs_entries :: "git_change_entry list"
  gs_truncated :: bool

record git_upstream =
  gu_ahead :: u32
  gu_behind :: u32

record commit_summary =
  cs_id :: rstr
  cs_subject :: rstr
  cs_author :: rstr
  cs_time :: "64 word"

record git_log =
  gl_from :: "rstr option"
  gl_commits :: "commit_summary list"
  gl_more :: bool

record commit_details =
  cd_id :: rstr
  cd_parents :: "rstr list"
  cd_author :: rstr
  cd_time :: "64 word"
  cd_message :: rstr
  cd_changes :: git_changes

text \<open>Messages whose fields are those of the domain type are that type; the others follow.\<close>

record pb_change_entry =
  qe_path :: rstr
  qe_old_path :: "rstr option"
  qe_status :: i32
  qe_stat :: "git_diff_stat option"

record pb_changes =
  qc_entries :: "pb_change_entry list"
  qc_truncated :: bool

record pb_commit =
  qd_id :: rstr
  qd_parents :: "rstr list"
  qd_author :: rstr
  qd_time :: "64 word"
  qd_message :: rstr
  qd_changes :: "pb_changes option"

definition wire_change_statuses :: "git_change_status list" where
  "wire_change_statuses =
     [ChangeAdded, ChangeModified, ChangeDeleted, ChangeRenamed, ChangeUntracked, ChangeConflicted]"

definition encode_change :: "git_change_entry \<Rightarrow> pb_change_entry" where
  "encode_change e = \<lparr>qe_path = gc_path e, qe_old_path = gc_old_path e,
     qe_status = enum_number wire_change_statuses (gc_status e), qe_stat = gc_stat e\<rparr>"

definition decode_change :: "pb_change_entry \<Rightarrow> (wire_error + git_change_entry) option" where
  "decode_change m =
     bind_try (decode_enum_or wire_change_statuses ChangeModified ''change status'' (qe_status m)) (\<lambda>status.
     bind_try (Some (relative_path (qe_path m))) (\<lambda>path.
     bind_try (map_transpose (\<lambda>p. Some (relative_path p)) (qe_old_path m)) (\<lambda>old.
       Some (Inr \<lparr>gc_path = path, gc_old_path = old, gc_status = status, gc_stat = qe_stat m\<rparr>))))"

definition encode_changes :: "git_changes \<Rightarrow> pb_changes" where
  "encode_changes c = \<lparr>qc_entries = map encode_change (gs_entries c), qc_truncated = gs_truncated c\<rparr>"

definition decode_changes :: "pb_changes \<Rightarrow> (wire_error + git_changes) option" where
  "decode_changes m = bind_try (map_try decode_change (qc_entries m)) (\<lambda>entries.
     Some (Inr \<lparr>gs_entries = entries, gs_truncated = qc_truncated m\<rparr>))"

definition MAX_LOG_COMMITS :: nat where "MAX_LOG_COMMITS = 1000"

definition decode_git_log :: "git_log \<Rightarrow> (wire_error + git_log) option" where
  "decode_git_log m =
     bind_try (Some (bounded (length (gl_commits m)) MAX_LOG_COMMITS ''History commits'')) (\<lambda>_.
       Some (Inr \<lparr>gl_from = gl_from m, gl_commits = gl_commits m, gl_more = gl_more m\<rparr>))"

definition encode_commit :: "commit_details \<Rightarrow> pb_commit" where
  "encode_commit c = \<lparr>qd_id = cd_id c, qd_parents = cd_parents c, qd_author = cd_author c,
     qd_time = cd_time c, qd_message = cd_message c, qd_changes = Some (encode_changes (cd_changes c))\<rparr>"

definition decode_commit :: "pb_commit \<Rightarrow> (wire_error + commit_details) option" where
  "decode_commit m =
     bind_try (Some (required_field (qd_changes m) ''commit changes'')) (\<lambda>changes.
     bind_try (decode_changes changes) (\<lambda>changes.
       Some (Inr \<lparr>cd_id = qd_id m, cd_parents = qd_parents m, cd_author = qd_author m,
         cd_time = qd_time m, cd_message = qd_message m, cd_changes = changes\<rparr>)))"

section \<open>Diffs and files\<close>

datatype diff_line_kind = LineContext | LineAdded | LineRemoved

record diff_line =
  dl_kind :: diff_line_kind
  dl_old_number :: "u32 option"
  dl_new_number :: "u32 option"
  dl_text :: rstr

record diff_hunk =
  dh_old_start :: u32
  dh_old_lines :: u32
  dh_new_start :: u32
  dh_new_lines :: u32
  dh_lines :: "diff_line list"

datatype file_diff_content = DiffText "diff_hunk list" | DiffBinary | DiffTooLarge u64

record file_diff =
  fd_path :: rstr
  fd_content :: file_diff_content

datatype file_kind = KindDirectory | KindFile

record directory_entry =
  de_name :: rstr
  de_kind :: file_kind
  de_ignored :: bool

record directory_listing =
  dy_entries :: "directory_entry list"
  dy_truncated :: bool

datatype file_content =
    FileText rstr "u64 option" bool
  | FileImage "u8 list"
  | FileBinary
  | FileTooLarge u64

record pb_diff_line =
  qx_kind :: i32
  qx_old_number :: "u32 option"
  qx_new_number :: "u32 option"
  qx_text :: rstr

record pb_hunk =
  qk_old_start :: u32
  qk_old_lines :: u32
  qk_new_start :: u32
  qk_new_lines :: u32
  qk_lines :: "pb_diff_line list"

datatype pb_diff_content = PbDiffText "pb_hunk list" | PbDiffBinary | PbDiffTooLarge u64

record pb_file_diff =
  qf_path :: rstr
  qf_content :: "pb_diff_content option"

record pb_directory_entry =
  qy_name :: rstr
  qy_kind :: i32
  qy_ignored :: bool

record pb_listing =
  ql_entries :: "pb_directory_entry list"
  ql_truncated :: bool

datatype pb_file_body = PbText rstr | PbBinary | PbTooLarge u64 | PbImage "u8 list"

record pb_file_content =
  qv_content :: "pb_file_body option"
  qv_version :: "u64 option"
  qv_lossy :: bool

definition wire_line_kinds :: "diff_line_kind list" where
  "wire_line_kinds = [LineContext, LineAdded, LineRemoved]"

definition wire_file_kinds :: "file_kind list" where
  "wire_file_kinds = [KindDirectory, KindFile]"

definition encode_diff_line :: "diff_line \<Rightarrow> pb_diff_line" where
  "encode_diff_line l = \<lparr>qx_kind = enum_number wire_line_kinds (dl_kind l), qx_old_number = dl_old_number l,
     qx_new_number = dl_new_number l, qx_text = dl_text l\<rparr>"

definition decode_diff_line :: "pb_diff_line \<Rightarrow> (wire_error + diff_line) option" where
  "decode_diff_line m =
     bind_try (decode_enum_or wire_line_kinds LineContext ''diff line kind'' (qx_kind m)) (\<lambda>kind.
       Some (Inr \<lparr>dl_kind = kind, dl_old_number = qx_old_number m, dl_new_number = qx_new_number m,
         dl_text = qx_text m\<rparr>))"

definition encode_hunk :: "diff_hunk \<Rightarrow> pb_hunk" where
  "encode_hunk h = \<lparr>qk_old_start = dh_old_start h, qk_old_lines = dh_old_lines h,
     qk_new_start = dh_new_start h, qk_new_lines = dh_new_lines h,
     qk_lines = map encode_diff_line (dh_lines h)\<rparr>"

definition decode_hunk :: "pb_hunk \<Rightarrow> (wire_error + diff_hunk) option" where
  "decode_hunk m = bind_try (map_try decode_diff_line (qk_lines m)) (\<lambda>lines.
     Some (Inr \<lparr>dh_old_start = qk_old_start m, dh_old_lines = qk_old_lines m,
       dh_new_start = qk_new_start m, dh_new_lines = qk_new_lines m, dh_lines = lines\<rparr>))"

fun encode_diff_content :: "file_diff_content \<Rightarrow> pb_diff_content" where
  "encode_diff_content (DiffText hunks) = PbDiffText (map encode_hunk hunks)"
| "encode_diff_content DiffBinary = PbDiffBinary"
| "encode_diff_content (DiffTooLarge n) = PbDiffTooLarge n"

fun decode_diff_content :: "pb_diff_content \<Rightarrow> (wire_error + file_diff_content) option" where
  "decode_diff_content (PbDiffText hunks) =
     bind_try (map_try decode_hunk hunks) (\<lambda>hunks. Some (Inr (DiffText hunks)))"
| "decode_diff_content PbDiffBinary = Some (Inr DiffBinary)"
| "decode_diff_content (PbDiffTooLarge n) = Some (Inr (DiffTooLarge n))"

definition encode_file_diff :: "file_diff \<Rightarrow> pb_file_diff" where
  "encode_file_diff d = \<lparr>qf_path = fd_path d, qf_content = Some (encode_diff_content (fd_content d))\<rparr>"

definition decode_file_diff :: "pb_file_diff \<Rightarrow> (wire_error + file_diff) option" where
  "decode_file_diff m =
     bind_try (Some (member_field (qf_content m))) (\<lambda>content.
     bind_try (decode_diff_content content) (\<lambda>content.
     bind_try (Some (relative_path (qf_path m))) (\<lambda>path.
       Some (Inr \<lparr>fd_path = path, fd_content = content\<rparr>))))"

definition encode_directory_entry :: "directory_entry \<Rightarrow> pb_directory_entry" where
  "encode_directory_entry e = \<lparr>qy_name = de_name e, qy_kind = enum_number wire_file_kinds (de_kind e),
     qy_ignored = de_ignored e\<rparr>"

definition decode_directory_entry :: "pb_directory_entry \<Rightarrow> (wire_error + directory_entry) option" where
  "decode_directory_entry m =
     bind_try (decode_enum_or wire_file_kinds KindFile ''file kind'' (qy_kind m)) (\<lambda>kind.
       Some (Inr \<lparr>de_name = qy_name m, de_kind = kind, de_ignored = qy_ignored m\<rparr>))"

definition encode_listing :: "directory_listing \<Rightarrow> pb_listing" where
  "encode_listing l = \<lparr>ql_entries = map encode_directory_entry (dy_entries l), ql_truncated = dy_truncated l\<rparr>"

definition decode_listing :: "pb_listing \<Rightarrow> (wire_error + directory_listing) option" where
  "decode_listing m = bind_try (map_try decode_directory_entry (ql_entries m)) (\<lambda>entries.
     Some (Inr \<lparr>dy_entries = entries, dy_truncated = ql_truncated m\<rparr>))"

fun encode_file_body :: "file_content \<Rightarrow> pb_file_body" where
  "encode_file_body (FileText text _ _) = PbText text"
| "encode_file_body (FileImage bytes) = PbImage bytes"
| "encode_file_body FileBinary = PbBinary"
| "encode_file_body (FileTooLarge n) = PbTooLarge n"

definition encode_file_content :: "file_content \<Rightarrow> pb_file_content" where
  "encode_file_content c =
     (let (version, lossy) = (case c of FileText _ version lossy \<Rightarrow> (version, lossy) | _ \<Rightarrow> (None, False))
      in \<lparr>qv_content = Some (encode_file_body c), qv_version = version, qv_lossy = lossy\<rparr>)"

definition decode_file_content :: "pb_file_content \<Rightarrow> (wire_error + file_content) option" where
  "decode_file_content m =
     bind_try (Some (member_field (qv_content m))) (\<lambda>content. Some (Inr (case content of
         PbText text \<Rightarrow> FileText text (qv_version m) (qv_lossy m)
       | PbImage bytes \<Rightarrow> FileImage bytes
       | PbBinary \<Rightarrow> FileBinary
       | PbTooLarge n \<Rightarrow> FileTooLarge n)))"

section \<open>A message and its value\<close>

text \<open>What a pair of conversions promises: a value the wire can carry comes back, and no message
  makes the decoder panic.\<close>

locale wire_codec =
  fixes encode :: "'a \<Rightarrow> 'm"
    and decode :: "'m \<Rightarrow> (wire_error + 'a) option"
    and carried :: "'a \<Rightarrow> bool"
  assumes roundtrip: "carried x \<Longrightarrow> decode (encode x) = Some (Inr x)"
    and total: "decode m \<noteq> None"
begin

lemma list_roundtrip: "(\<And>x. x \<in> set xs \<Longrightarrow> carried x) \<Longrightarrow> map_try decode (map encode xs) = Some (Inr xs)"
  by (induction xs) (simp_all add: roundtrip)

lemma list_total: "map_try decode ms \<noteq> None"
  by (induction ms) (auto simp: bind_try_cases total)

lemma option_roundtrip:
  "(\<And>x. v = Some x \<Longrightarrow> carried x) \<Longrightarrow> map_transpose decode (map_option encode v) = Some (Inr v)"
  by (cases v) (simp_all add: map_transpose_def roundtrip)

lemma option_total: "map_transpose decode v \<noteq> None"
  by (simp add: map_transpose_None total)

end

section \<open>Enums\<close>

lemma bind_try_total:
  "m \<noteq> None \<Longrightarrow> (\<And>x. m = Some (Inr x) \<Longrightarrow> f x \<noteq> None) \<Longrightarrow> bind_try m f \<noteq> None"
  by (auto simp: bind_try_cases)

lemma position_self: "e \<in> set xs \<Longrightarrow> \<exists>i. position (\<lambda>x. x = e) xs = Some i \<and> i < length xs \<and> xs ! i = e"
proof (cases "position (\<lambda>x. x = e) xs")
  case None
  then show "e \<in> set xs \<Longrightarrow> ?thesis" by (auto simp: position_None)
qed (auto dest: position_Some)

text \<open>Every enum of the protocol has few values, so none of them is 0 by wrapping.\<close>

lemma enum_value_number:
  assumes "e \<in> set members" and "length members < 2 ^ 32 - 1"
  shows "enum_value (pb_enum members) (enum_number members e) field = Inr (Some e)"
proof -
  from position_self [OF assms(1)] obtain i
    where i: "position (\<lambda>x. x = e) members = Some i" "i < length members" "members ! i = e" by blast
  have n: "unat (enum_number members e) = Suc i"
    using i(2) assms(2) by (simp add: enum_number_def i(1) unat_of_nat del: of_nat_Suc)
  then have "enum_number members e \<noteq> 0" by auto
  with n i show ?thesis by (simp add: enum_value_def pb_enum_def enum_try_from_def)
qed

lemma decode_enum_number:
  "e \<in> set members \<Longrightarrow> length members < 2 ^ 32 - 1
   \<Longrightarrow> decode_enum members field (enum_number members e) = Some (Inr e)"
  by (simp add: decode_enum_def enum_value_number named_value_def)

lemma decode_enum_or_number:
  "e \<in> set members \<Longrightarrow> length members < 2 ^ 32 - 1
   \<Longrightarrow> decode_enum_or members fallback field (enum_number members e) = Some (Inr e)"
  by (simp add: decode_enum_or_def enum_or_def enum_value_number named_value_def)

lemma decode_enum_total: "decode_enum members field raw \<noteq> None"
  by (cases "unat raw")
    (auto simp: unat_eq_zero decode_enum_def enum_value_def pb_enum_def enum_try_from_def named_value_def)

lemma decode_enum_or_total: "decode_enum_or members fallback field raw \<noteq> None"
  by (cases "unat raw")
    (auto simp: unat_eq_zero decode_enum_or_def enum_or_def enum_value_def pb_enum_def enum_try_from_def
      named_value_def)

text \<open>An enum with a fallback refuses only the number 0.\<close>

lemma decode_enum_or_accepts: "raw \<noteq> 0 \<Longrightarrow> \<exists>e. decode_enum_or members fallback field raw = Some (Inr e)"
  by (cases "unat raw")
    (auto simp: unat_eq_zero decode_enum_or_def enum_or_def enum_value_def pb_enum_def enum_try_from_def
      named_value_def)

lemma decode_enum_or_newer:
  "length members < unat raw \<Longrightarrow> decode_enum_or members fallback field raw = Some (Inr fallback)"
  by (auto simp: decode_enum_or_def enum_or_def enum_value_def pb_enum_def enum_try_from_def named_value_def)

text \<open>Each list names every value of its type.\<close>

lemma all_split_directions [simp]: "e \<in> set split_directions"
  by (cases e) (simp_all add: split_directions_def)

lemma all_pane_directions [simp]: "e \<in> set pane_directions"
  by (cases e) (simp_all add: pane_directions_def)

lemma all_wire_agent_kinds [simp]: "e \<in> set wire_agent_kinds"
  by (cases e) (simp_all add: wire_agent_kinds_def)

lemma all_wire_agent_states [simp]: "e \<in> set wire_agent_states"
  by (cases e) (simp_all add: wire_agent_states_def)

lemma all_wire_hooks_states [simp]: "e \<in> set wire_hooks_states"
  by (cases e) (simp_all add: wire_hooks_states_def)

lemma all_wire_hooks_actions [simp]: "e \<in> set wire_hooks_actions"
  by (cases e) (simp_all add: wire_hooks_actions_def)

lemma all_wire_change_statuses [simp]: "e \<in> set wire_change_statuses"
  by (cases e) (simp_all add: wire_change_statuses_def)

lemma all_wire_line_kinds [simp]: "e \<in> set wire_line_kinds"
  by (cases e) (simp_all add: wire_line_kinds_def)

lemma all_wire_file_kinds [simp]: "e \<in> set wire_file_kinds"
  by (cases e) (simp_all add: wire_file_kinds_def)

lemma enum_sizes [simp]:
  "length split_directions = 2" "length pane_directions = 4" "length wire_agent_kinds = 11"
  "length wire_agent_states = 6" "length wire_hooks_states = 4" "length wire_hooks_actions = 3"
  "length wire_change_statuses = 6" "length wire_line_kinds = 3" "length wire_file_kinds = 2"
  by (simp_all add: split_directions_def pane_directions_def wire_agent_kinds_def wire_agent_states_def
      wire_hooks_states_def wire_hooks_actions_def wire_change_statuses_def wire_line_kinds_def wire_file_kinds_def)

lemmas enum_codec = decode_enum_number decode_enum_or_number decode_split_direction_def
  decode_pane_direction_def decode_agent_kind_def decode_agent_state_def decode_hooks_action_def
lemmas enum_total = decode_enum_total decode_enum_or_total

lemma decoder_totals [simp]:
  "decode_split_direction raw \<noteq> None" "decode_pane_direction raw \<noteq> None" "decode_agent_kind raw \<noteq> None"
  "decode_agent_state raw \<noteq> None" "decode_hooks_action raw \<noteq> None"
  "decode_enum ms f raw \<noteq> None" "decode_enum_or ms b f raw \<noteq> None"
  by (simp_all add: enum_codec enum_total)

section \<open>The messages of a Session\<close>

lemma bounded_ok [simp]: "n \<le> limit \<Longrightarrow> bounded n limit what = Inr ()"
  by (simp add: bounded_def)

lemma relative_path_ok [simp]: "is_relative_text p \<Longrightarrow> relative_path p = Inr p"
  by (simp add: relative_path_def)

definition carried_resume :: "pane_snapshot \<Rightarrow> bool" where
  "carried_resume p \<longleftrightarrow> (case ps_resume p of Some r \<Rightarrow> ar_kind r \<noteq> Other | None \<Rightarrow> True)"

definition carried_content :: "tab_content_snapshot \<Rightarrow> bool" where
  "carried_content c \<longleftrightarrow> (case c of
       TerminalsSnapshot panes _ history layout \<Rightarrow>
         length panes \<le> MAX_SNAPSHOT_PANES \<and> length history \<le> MAX_SNAPSHOT_PANES
         \<and> length (ls_nodes layout) \<le> MAX_SNAPSHOT_LAYOUT_NODES \<and> list_all carried_resume panes
     | DiffSnapshot p \<Rightarrow> is_relative_text p
     | FileSnapshot p \<Rightarrow> is_relative_text p)"

definition carried_workspace :: "workspace_snapshot \<Rightarrow> bool" where
  "carried_workspace w \<longleftrightarrow> length (ws_tabs w) \<le> MAX_SNAPSHOT_TABS
     \<and> list_all (carried_content \<circ> ts_content) (ws_tabs w)"

definition carried_session :: "session_snapshot \<Rightarrow> bool" where
  "carried_session s \<longleftrightarrow> length (ss_workspaces s) \<le> MAX_SNAPSHOT_WORKSPACES
     \<and> list_all carried_workspace (ss_workspaces s)"

interpretation resume_codec: wire_codec encode_resume decode_resume "\<lambda>_. True"
  by unfold_locales (simp_all add: encode_resume_def decode_resume_def enum_codec bind_try_cases enum_total)

interpretation pane_codec: wire_codec encode_pane decode_pane carried_resume
proof
  show "decode_pane (encode_pane p) = Some (Inr p)" if "carried_resume p" for p
    using that by (cases "ps_resume p")
      (simp_all add: encode_pane_def decode_pane_def carried_resume_def resume_codec.roundtrip map_transpose_def)
  show "decode_pane m \<noteq> None" for m
    by (simp add: decode_pane_def bind_try_cases resume_codec.option_total)
qed

interpretation node_codec: wire_codec encode_node decode_node "\<lambda>_. True"
proof
  show "decode_node (encode_node n) = Some (Inr n)" for n
    by (cases n) (simp_all add: decode_node_def member_field_def enum_codec)
  show "decode_node m \<noteq> None" for m
    by (cases m) (auto simp: decode_node_def bind_try_cases member_field_def
        simp del: not_None_eq split: pb_node.split)
qed

interpretation layout_codec: wire_codec encode_layout decode_layout
  "\<lambda>l. length (ls_nodes l) \<le> MAX_SNAPSHOT_LAYOUT_NODES"
  by unfold_locales (simp_all add: encode_layout_def decode_layout_def node_codec.list_roundtrip
      node_codec.list_total bind_try_cases)

interpretation content_codec: wire_codec encode_tab_content decode_tab_content carried_content
proof
  show "decode_tab_content (encode_tab_content c) = Some (Inr c)" if "carried_content c" for c
    using that by (cases c)
      (simp_all add: carried_content_def list_all_iff pane_codec.list_roundtrip layout_codec.roundtrip
        required_field_def comp_def)
  show "decode_tab_content m \<noteq> None" for m
    by (cases m) (simp_all add: bind_try_cases pane_codec.list_total layout_codec.total)
qed

interpretation tab_codec: wire_codec encode_tab decode_tab "carried_content \<circ> ts_content"
  by unfold_locales (simp_all add: encode_tab_def decode_tab_def member_field_def content_codec.roundtrip
      content_codec.total bind_try_cases)

lemma worktree_roundtrip [simp]: "decode_worktree (encode_worktree a) = a"
  by (simp add: decode_worktree_def encode_worktree_def)

interpretation workspace_codec: wire_codec encode_workspace decode_workspace carried_workspace
proof
  show "decode_workspace (encode_workspace w) = Some (Inr w)" if "carried_workspace w" for w
  proof -
    from that have "map_try decode_tab (map encode_tab (ws_tabs w)) = Some (Inr (ws_tabs w))"
      by (intro tab_codec.list_roundtrip) (simp add: carried_workspace_def list_all_iff)
    with that show ?thesis
      by (simp add: encode_workspace_def decode_workspace_def carried_workspace_def option.map_comp comp_def option.map_ident)
  qed
  show "decode_workspace m \<noteq> None" for m
    by (simp add: decode_workspace_def bind_try_cases tab_codec.list_total)
qed

interpretation session_codec: wire_codec encode_session decode_session carried_session
proof
  show "decode_session (encode_session s) = Some (Inr s)" if "carried_session s" for s
  proof -
    from that have "map_try decode_workspace (map encode_workspace (ss_workspaces s)) = Some (Inr (ss_workspaces s))"
      by (intro workspace_codec.list_roundtrip) (simp add: carried_session_def list_all_iff)
    with that show ?thesis by (simp add: encode_session_def decode_session_def carried_session_def)
  qed
  show "decode_session m \<noteq> None" for m
    by (simp add: decode_session_def bind_try_cases workspace_codec.list_total)
qed

section \<open>The messages of agents, Git and files\<close>

interpretation agent_codec: wire_codec encode_agent decode_agent "\<lambda>_. True"
  by unfold_locales (simp_all add: encode_agent_def decode_agent_def enum_codec bind_try_cases enum_total)

interpretation hooks_codec: wire_codec encode_hooks_report decode_hooks_report "\<lambda>_. True"
  by unfold_locales (simp_all add: encode_hooks_report_def decode_hooks_report_def enum_codec bind_try_cases enum_total)

interpretation installation_codec: wire_codec encode_installation decode_installation "\<lambda>_. True"
  by unfold_locales (simp_all add: encode_installation_def decode_installation_def enum_codec bind_try_cases enum_total)

definition carried_change :: "git_change_entry \<Rightarrow> bool" where
  "carried_change e \<longleftrightarrow> is_relative_text (gc_path e)
     \<and> (case gc_old_path e of Some p \<Rightarrow> is_relative_text p | None \<Rightarrow> True)"

interpretation change_codec: wire_codec encode_change decode_change carried_change
proof
  show "decode_change (encode_change e) = Some (Inr e)" if "carried_change e" for e
    using that by (cases "gc_old_path e")
      (simp_all add: encode_change_def decode_change_def carried_change_def enum_codec map_transpose_def)
  show "decode_change m \<noteq> None" for m
    by (simp add: decode_change_def bind_try_cases enum_total map_transpose_None)
qed

interpretation changes_codec: wire_codec encode_changes decode_changes "\<lambda>c. list_all carried_change (gs_entries c)"
  by unfold_locales (simp_all add: encode_changes_def decode_changes_def change_codec.list_roundtrip
      list_all_iff bind_try_cases change_codec.list_total)

interpretation log_codec: wire_codec "\<lambda>l. l" decode_git_log "\<lambda>l. length (gl_commits l) \<le> MAX_LOG_COMMITS"
  by unfold_locales (simp_all add: decode_git_log_def bind_try_cases)

interpretation commit_codec: wire_codec encode_commit decode_commit
  "\<lambda>c. list_all carried_change (gs_entries (cd_changes c))"
  by unfold_locales (simp_all add: encode_commit_def decode_commit_def required_field_def
      changes_codec.roundtrip bind_try_cases changes_codec.total)

interpretation line_codec: wire_codec encode_diff_line decode_diff_line "\<lambda>_. True"
  by unfold_locales (simp_all add: encode_diff_line_def decode_diff_line_def enum_codec bind_try_cases enum_total)

interpretation hunk_codec: wire_codec encode_hunk decode_hunk "\<lambda>_. True"
  by unfold_locales (simp_all add: encode_hunk_def decode_hunk_def line_codec.list_roundtrip
      bind_try_cases line_codec.list_total)

interpretation diff_content_codec: wire_codec encode_diff_content decode_diff_content "\<lambda>_. True"
proof
  show "decode_diff_content (encode_diff_content c) = Some (Inr c)" for c
    by (cases c) (simp_all add: hunk_codec.list_roundtrip)
  show "decode_diff_content m \<noteq> None" for m
    by (cases m) (simp_all add: bind_try_cases hunk_codec.list_total)
qed

interpretation diff_codec: wire_codec encode_file_diff decode_file_diff "\<lambda>d. is_relative_text (fd_path d)"
  by unfold_locales (simp_all add: encode_file_diff_def decode_file_diff_def member_field_def
      diff_content_codec.roundtrip diff_content_codec.total bind_try_cases)

interpretation entry_codec: wire_codec encode_directory_entry decode_directory_entry "\<lambda>_. True"
  by unfold_locales (simp_all add: encode_directory_entry_def decode_directory_entry_def enum_codec
      bind_try_cases enum_total)

interpretation listing_codec: wire_codec encode_listing decode_listing "\<lambda>_. True"
  by unfold_locales (simp_all add: encode_listing_def decode_listing_def entry_codec.list_roundtrip
      bind_try_cases entry_codec.list_total)

interpretation file_codec: wire_codec encode_file_content decode_file_content "\<lambda>_. True"
proof
  show "decode_file_content (encode_file_content c) = Some (Inr c)" for c
    by (cases c) (simp_all add: encode_file_content_def decode_file_content_def member_field_def)
  show "decode_file_content m \<noteq> None" for m
    by (simp add: decode_file_content_def bind_try_cases)
qed

section \<open>What a peer may not send, and what a newer one may\<close>

lemma decode_session_oversized:
  "MAX_SNAPSHOT_WORKSPACES < length (qz_workspaces m) \<Longrightarrow> \<exists>why. decode_session m = Some (Inl (Malformed why))"
  by (simp add: decode_session_def bounded_def)

text \<open>The Panes' resumes of an agent this build does not know are left out; the rest stays.\<close>

lemma decode_pane_newer_agent:
  assumes "qp_resume m = Some r" and "11 < unat (qr_kind r)"
  shows "decode_pane m = Some (Inr \<lparr>ps_id = PaneId (qp_id m), ps_cwd = qp_cwd m, ps_resume = None\<rparr>)"
  using assms by (simp add: decode_pane_def map_transpose_def decode_resume_def decode_agent_kind_def
      decode_enum_or_newer)

text \<open>A file name may hold a backslash on Unix. One such file among the changes of a repository makes
  the whole message undecodable.\<close>

lemma map_try_error:
  "x \<in> set xs \<Longrightarrow> (\<And>y. f y \<noteq> None) \<Longrightarrow> (\<And>y. f x \<noteq> Some (Inr y)) \<Longrightarrow> \<exists>e. map_try f xs = Some (Inl e)"
proof (induction xs)
  case (Cons z xs)
  from Cons.prems(2) obtain r where r: "f z = Some r" by blast
  then show ?case
  proof (cases r)
    case (Inr v)
    with r Cons.prems have "x \<in> set xs" by auto
    with Cons obtain e where "map_try f xs = Some (Inl e)" by blast
    with r Inr show ?thesis by simp
  qed (use r in simp)
qed simp

lemma backslash_change_refused:
  assumes "e \<in> set (gs_entries c)" and "92 \<in> set (gc_path e)"
  shows "\<exists>err. decode_changes (encode_changes c) = Some (Inl err)"
proof -
  have "decode_change (encode_change e) \<noteq> Some (Inr y)" for y
    using assms(2) by (simp add: decode_change_def encode_change_def enum_codec relative_path_def is_relative_text_def)
  with assms(1) map_try_error [of "encode_change e" "map encode_change (gs_entries c)" decode_change]
    change_codec.total
  obtain err where "map_try decode_change (map encode_change (gs_entries c)) = Some (Inl err)" by auto
  then show ?thesis by (simp add: decode_changes_def encode_changes_def)
qed

section \<open>A saved Session\<close>

text \<open>A Session whose viewers name relative paths and whose resumes name known agents.\<close>

definition content_on_wire :: "tab_content \<Rightarrow> bool" where
  "content_on_wire c \<longleftrightarrow> (case c of
       Terminals tm \<Rightarrow> list_all (\<lambda>p. \<forall>r. p_resume p = Some r \<longrightarrow> ar_kind r \<noteq> Other) (tl_panes tm)
     | Diff p \<Rightarrow> is_relative_text p
     | File p \<Rightarrow> is_relative_text p)"

definition session_on_wire :: "session \<Rightarrow> bool" where
  "session_on_wire s \<longleftrightarrow> list_all (content_on_wire \<circ> t_content) (session_tabs s)"

text \<open>What a Session inside the limits saves is what the wire carries.\<close>

lemma history_small:
  assumes "wf_terminals tm" and "length (tl_panes tm) \<le> n"
  shows "length (tl_history tm) \<le> n"
proof -
  from assms(1) have "length (tl_history tm) = card (set (tl_history tm))"
    by (simp add: wf_terminals_def distinct_card)
  also have "\<dots> \<le> card (set (pane_ids_of tm))"
    using assms(1) by (intro card_mono) (auto simp: wf_terminals_def)
  also have "\<dots> \<le> length (tl_panes tm)" using card_length [of "pane_ids_of tm"] by simp
  finally show ?thesis using assms(2) by simp
qed

lemma saved_tab_carried:
  assumes wf: "wf_tab rp t" and small: "length (tab_panes t) \<le> MAX_SNAPSHOT_PANES"
    and wire: "content_on_wire (t_content t)" and saved: "tab_to_snapshot t = Some ts"
  shows "carried_content (ts_content ts)"
proof (cases "t_content t")
  case (Terminals tm)
  from tab_roundtrip [OF wf small] saved have nodes: "snap_nodes ts \<le> 2 * length (tab_panes t) - 1"
    by (metis option.inject)
  have panes: "tab_panes t = tl_panes tm" using Terminals by (simp add: tab_panes_def tab_terminals_def)
  have "wf_terminals tm" using wf Terminals by (simp add: wf_tab_def live_terminals_def)
  then have history: "length (tl_history tm) \<le> MAX_SNAPSHOT_PANES"
    using history_small small panes by metis
  from saved Terminals obtain ls where ls: "from_layout (tl_layout tm) = Some ls"
    "ts_content ts = TerminalsSnapshot (map pane_to_snapshot (tl_panes tm)) (tl_focused tm) (tl_history tm) ls"
    by (auto simp: tab_to_snapshot_def)
  then have "length (ls_nodes ls) \<le> MAX_SNAPSHOT_LAYOUT_NODES"
    using nodes small panes by (simp add: snap_nodes_def MAX_SNAPSHOT_LAYOUT_NODES_def)
  moreover have "list_all carried_resume (map pane_to_snapshot (tl_panes tm))"
    using wire Terminals
    by (auto simp: content_on_wire_def carried_resume_def pane_to_snapshot_def list_all_iff split: option.split)
  ultimately show ?thesis using history small panes by (simp add: carried_content_def ls(2))
next
  case (Diff p)
  with saved wire show ?thesis by (auto simp: tab_to_snapshot_def carried_content_def content_on_wire_def)
next
  case (File p)
  with saved wire show ?thesis by (auto simp: tab_to_snapshot_def carried_content_def content_on_wire_def)
qed

lemma saved_carried:
  assumes inv: "session_inv rp nxt s" and wire: "session_on_wire s" and saved: "session_to_snapshot s = Some snap"
  shows "carried_session snap"
proof -
  from saved obtain ws where ws: "list_all2 (\<lambda>w w'. workspace_to_snapshot w = Some w') (workspaces s) ws"
    and snap: "snap = \<lparr>ss_workspaces = ws\<rparr>"
    by (auto simp: session_to_snapshot_def those_map_Some)
  have limits: "length (workspaces s) \<le> MAX_SNAPSHOT_WORKSPACES" "tab_count s \<le> MAX_SNAPSHOT_TABS"
    "pane_count s \<le> MAX_SNAPSHOT_PANES"
    using inv by (simp_all add: session_inv_def within_limits_def)
  have "carried_workspace w'" if w': "w' \<in> set ws" for w'
  proof -
    from list_all2_origin [OF ws w'] obtain w where w: "w \<in> set (workspaces s)"
      and "workspace_to_snapshot w = Some w'" by blast
    then have tabs: "list_all2 (\<lambda>t t'. tab_to_snapshot t = Some t') (w_tabs w) (ws_tabs w')"
      by (auto simp: workspace_to_snapshot_def those_map_Some)
    have "length (w_tabs w) \<le> tab_count s"
      using w member_le_sum_list [of "length (w_tabs w)" "map (length \<circ> w_tabs) (workspaces s)"]
      by (simp add: tab_count_def comp_def)
    with limits(2) have count: "length (ws_tabs w') \<le> MAX_SNAPSHOT_TABS"
      using list_all2_lengthD [OF tabs] by simp
    have "carried_content (ts_content t')" if t': "t' \<in> set (ws_tabs w')" for t'
    proof -
      from list_all2_origin [OF tabs t'] obtain t where t: "t \<in> set (w_tabs w)"
        and r: "tab_to_snapshot t = Some t'" by blast
      then have in_session: "t \<in> set (session_tabs s)" using w by (auto simp: session_tabs_def)
      have "wf_tab rp t" using inv w t by (auto simp: session_inv_def wf_session_def wf_workspace_def)
      moreover have "length (tab_panes t) \<le> MAX_SNAPSHOT_PANES"
        using pane_count_tab [OF in_session] limits(3) by linarith
      moreover have "content_on_wire (t_content t)"
        using wire in_session by (simp add: session_on_wire_def list_all_iff)
      ultimately show ?thesis using r by (rule saved_tab_carried)
    qed
    with count show ?thesis by (simp add: carried_workspace_def list_all_iff)
  qed
  then show ?thesis
    using limits(1) list_all2_lengthD [OF ws] by (simp add: carried_session_def snap list_all_iff)
qed

end
