(* ===== verification/Snapshot_Store.thy ===== *)
theory Snapshot_Store
  imports Session_Wire
begin

text \<open>
  The Session Snapshot on disk: its bytes (\<open>snapshot.rs\<close>), reading it back and the worker that
  writes it (\<open>condr-server/src/persistence.rs\<close>). The worker is a thread of its own; what it shares
  with the Server is behind one lock, so its turns interleave with \<open>schedule\<close> and \<open>shutdown\<close> at
  the points where it takes the lock, writes the file or sleeps. A run is the list of these turns.
  The protobuf library's encoder and parser are parameters; the file is replaced atomically, so a
  write that fails leaves what was there.
\<close>

section \<open>Bytes\<close>

definition MAX_SNAPSHOT_BYTES :: nat where "MAX_SNAPSHOT_BYTES = 8 * 1024 * 1024"

type_synonym pb_writer = "pb_session \<Rightarrow> u8 list"
type_synonym pb_reader = "u8 list \<Rightarrow> string + pb_session"

definition too_many_bytes :: "nat \<Rightarrow> string" where
  "too_many_bytes n =
     ''Session Snapshot is '' @ decimal n @ '' bytes; limit is '' @ decimal MAX_SNAPSHOT_BYTES @ '' bytes''"

definition snapshot_to_bytes :: "pb_writer \<Rightarrow> session_snapshot \<Rightarrow> string + u8 list" where
  "snapshot_to_bytes writer snap =
     (let bytes = writer (encode_session snap) in
      if MAX_SNAPSHOT_BYTES < length bytes then Inl (too_many_bytes (length bytes)) else Inr bytes)"

fun wire_error_text :: "wire_error \<Rightarrow> string" where
  "wire_error_text (Malformed reason) = reason"
| "wire_error_text UnknownValue = ''a value from a newer protocol''"

definition snapshot_from_bytes :: "pb_reader \<Rightarrow> u8 list \<Rightarrow> (string + session_snapshot) option" where
  "snapshot_from_bytes parse bytes =
     (if MAX_SNAPSHOT_BYTES < length bytes then Some (Inl (too_many_bytes (length bytes)))
      else case parse bytes of
        Inl error \<Rightarrow> Some (Inl error)
      | Inr message \<Rightarrow>
          (case decode_session message of
             None \<Rightarrow> None
           | Some (Inl error) \<Rightarrow> Some (Inl (wire_error_text error))
           | Some (Inr snap) \<Rightarrow> Some (Inr snap)))"

section \<open>Reading the file\<close>

text \<open>What opening and reading the file gives: it is not there, it cannot be read, or its bytes.\<close>

datatype file_read = NoFile | Unreadable string | FileBytes "u8 list"

datatype snapshot_load = Missing | Loaded session_snapshot | Rejected string

definition load_snapshot :: "pb_reader \<Rightarrow> file_read \<Rightarrow> snapshot_load option" where
  "load_snapshot parse file =
     (case file of
        NoFile \<Rightarrow> Some Missing
      | Unreadable error \<Rightarrow> Some (Rejected (''cannot read Session Snapshot: '' @ error))
      | FileBytes bytes \<Rightarrow>
          if MAX_SNAPSHOT_BYTES < length bytes then Some (Rejected (too_many_bytes (length bytes)))
          else case snapshot_from_bytes parse bytes of
            None \<Rightarrow> None
          | Some (Inl error) \<Rightarrow> Some (Rejected (''cannot decode Session Snapshot: '' @ error))
          | Some (Inr snap) \<Rightarrow> Some (Loaded snap))"

section \<open>The worker\<close>

definition DEFAULT_DEBOUNCE :: nat where "DEFAULT_DEBOUNCE = 250"
definition RETRY_DELAY :: nat where "RETRY_DELAY = 1000"
definition SHUTDOWN_WRITE_ATTEMPTS :: nat where "SHUTDOWN_WRITE_ATTEMPTS = 4"

text \<open>What the lock guards. Times are milliseconds.\<close>

record worker_state =
  wk_pending :: "session_snapshot option"
  wk_deadline :: "nat option"
  wk_stopping :: bool

text \<open>Where the worker is: in \<open>wait_for_snapshot\<close>, writing, back from the write and about to take
  the lock, in the pause between two attempts of a shutdown, or returned.\<close>

datatype worker_place =
    WorkerWaiting
  | WorkerWriting session_snapshot
  | WorkerWrote session_snapshot bool
  | WorkerSleeping
  | WorkerReturned bool

record snapshot_store =
  st_state :: worker_state
  st_place :: worker_place
  st_attempts :: nat
  st_file :: "u8 list option"

definition store_open :: "u8 list option \<Rightarrow> snapshot_store" where
  "store_open file = \<lparr>st_state = \<lparr>wk_pending = None, wk_deadline = None, wk_stopping = False\<rparr>,
     st_place = WorkerWaiting, st_attempts = 0, st_file = file\<rparr>"

definition schedule_snapshot :: "nat \<Rightarrow> session_snapshot \<Rightarrow> worker_state \<Rightarrow> worker_state" where
  "schedule_snapshot now snap w =
     (if wk_stopping w then w
      else w\<lparr>wk_pending := Some snap, wk_deadline := Some (now + DEFAULT_DEBOUNCE)\<rparr>)"

definition stop_worker :: "worker_state \<Rightarrow> worker_state" where
  "stop_worker w = w\<lparr>wk_stopping := True\<rparr>"

text \<open>One look of \<open>wait_for_snapshot\<close> at the state: \<open>None\<close> waits on, \<open>Some\<close> is what it returns.\<close>

definition wait_for_snapshot :: "nat \<Rightarrow> worker_state \<Rightarrow> session_snapshot option option \<times> worker_state" where
  "wait_for_snapshot now w =
     (if wk_stopping w then (Some (wk_pending w), w\<lparr>wk_pending := None\<rparr>)
      else case wk_deadline w of
        None \<Rightarrow> (None, w)
      | Some deadline \<Rightarrow>
          if deadline \<le> now then (Some (wk_pending w), w\<lparr>wk_deadline := None, wk_pending := None\<rparr>)
          else (None, w))"

text \<open>\<open>write_snapshot\<close>: what could go wrong in the file system is an input.\<close>

definition write_snapshot ::
  "pb_writer \<Rightarrow> bool \<Rightarrow> session_snapshot \<Rightarrow> u8 list option \<Rightarrow> bool \<times> u8 list option" where
  "write_snapshot writer io_ok snap file =
     (case snapshot_to_bytes writer snap of
        Inl _ \<Rightarrow> (False, file)
      | Inr bytes \<Rightarrow>
          if MAX_SNAPSHOT_BYTES < length bytes then (False, file)
          else if io_ok then (True, Some bytes) else (False, file))"

text \<open>The worker's failed write, under the lock.\<close>

definition write_failed :: "nat \<Rightarrow> session_snapshot \<Rightarrow> snapshot_store \<Rightarrow> snapshot_store" where
  "write_failed now snap st =
     (let w = st_state st in
      if wk_stopping w then
        if wk_pending w \<noteq> None then st\<lparr>st_attempts := 0, st_place := WorkerWaiting\<rparr>
        else let attempts = st_attempts st + 1 in
          if SHUTDOWN_WRITE_ATTEMPTS \<le> attempts
          then st\<lparr>st_attempts := attempts, st_place := WorkerReturned False\<rparr>
          else st\<lparr>st_attempts := attempts, st_state := w\<lparr>wk_pending := Some snap\<rparr>, st_place := WorkerSleeping\<rparr>
      else if wk_pending w = None
      then st\<lparr>st_state := w\<lparr>wk_pending := Some snap, wk_deadline := Some (now + RETRY_DELAY)\<rparr>,
             st_place := WorkerWaiting\<rparr>
      else st\<lparr>st_place := WorkerWaiting\<rparr>)"

definition write_done :: "snapshot_store \<Rightarrow> snapshot_store" where
  "write_done st =
     (let w = st_state st in
      if wk_stopping w \<and> wk_pending w = None
      then st\<lparr>st_attempts := 0, st_place := WorkerReturned True\<rparr>
      else st\<lparr>st_attempts := 0, st_place := WorkerWaiting\<rparr>)"

text \<open>\<open>run_worker_with\<close>, from one of its places to the next.\<close>

definition worker_turn :: "pb_writer \<Rightarrow> nat \<Rightarrow> bool \<Rightarrow> snapshot_store \<Rightarrow> snapshot_store" where
  "worker_turn writer now io_ok st =
     (case st_place st of
        WorkerWaiting \<Rightarrow>
          (case wait_for_snapshot now (st_state st) of
             (None, w) \<Rightarrow> st\<lparr>st_state := w\<rparr>
           | (Some None, w) \<Rightarrow> st\<lparr>st_state := w, st_place := WorkerReturned True\<rparr>
           | (Some (Some snap), w) \<Rightarrow> st\<lparr>st_state := w, st_place := WorkerWriting snap\<rparr>)
      | WorkerWriting snap \<Rightarrow>
          (let (ok, file) = write_snapshot writer io_ok snap (st_file st)
           in st\<lparr>st_file := file, st_place := WorkerWrote snap ok\<rparr>)
      | WorkerWrote snap ok \<Rightarrow> if ok then write_done st else write_failed now snap st
      | WorkerSleeping \<Rightarrow> st\<lparr>st_place := WorkerWaiting\<rparr>
      | WorkerReturned _ \<Rightarrow> st)"

section \<open>A run\<close>

datatype store_action =
    Schedule nat session_snapshot
  | StopStore
  | WorkerTurn nat bool

fun store_act :: "pb_writer \<Rightarrow> store_action \<Rightarrow> snapshot_store \<Rightarrow> snapshot_store" where
  "store_act writer (Schedule now snap) st = st\<lparr>st_state := schedule_snapshot now snap (st_state st)\<rparr>"
| "store_act writer StopStore st = st\<lparr>st_state := stop_worker (st_state st)\<rparr>"
| "store_act writer (WorkerTurn now io_ok) st = worker_turn writer now io_ok st"

fun store_run :: "pb_writer \<Rightarrow> store_action list \<Rightarrow> snapshot_store \<Rightarrow> snapshot_store" where
  "store_run writer [] st = st"
| "store_run writer (a # acts) st = store_run writer acts (store_act writer a st)"

text \<open>The last Snapshot scheduled before the shutdown.\<close>

fun last_scheduled :: "store_action list \<Rightarrow> session_snapshot option \<Rightarrow> session_snapshot option" where
  "last_scheduled [] latest = latest"
| "last_scheduled (Schedule _ snap # acts) latest = last_scheduled acts (Some snap)"
| "last_scheduled (StopStore # acts) latest = latest"
| "last_scheduled (WorkerTurn _ _ # acts) latest = last_scheduled acts latest"

section \<open>Nothing scheduled is lost\<close>

text \<open>The file holds the last Snapshot scheduled, or what it held when there was none.\<close>

definition file_current :: "pb_writer \<Rightarrow> u8 list option \<Rightarrow> session_snapshot option \<Rightarrow> snapshot_store \<Rightarrow> bool" where
  "file_current writer file0 latest st \<longleftrightarrow>
     (case latest of None \<Rightarrow> st_file st = file0
      | Some snap \<Rightarrow> \<exists>bytes. snapshot_to_bytes writer snap = Inr bytes \<and> st_file st = Some bytes)"

text \<open>A pending Snapshot is the last one scheduled; with none pending the last one is being written
  or in the file. A Snapshot waits for a deadline until the shutdown, which waits for none.\<close>

definition store_ok :: "pb_writer \<Rightarrow> u8 list option \<Rightarrow> session_snapshot option \<Rightarrow> snapshot_store \<Rightarrow> bool" where
  "store_ok writer file0 latest st \<longleftrightarrow>
     (let w = st_state st in
      (\<forall>snap. wk_pending w = Some snap \<longrightarrow> latest = Some snap)
      \<and> (\<not> wk_stopping w \<longrightarrow> (wk_deadline w = None) = (wk_pending w = None) \<and> st_attempts st = 0)
      \<and> (case st_place st of
           WorkerWaiting \<Rightarrow> (wk_pending w = None \<longrightarrow> file_current writer file0 latest st)
             \<and> st_attempts st < SHUTDOWN_WRITE_ATTEMPTS
         | WorkerWriting snap \<Rightarrow> (wk_pending w = None \<longrightarrow> latest = Some snap)
             \<and> st_attempts st < SHUTDOWN_WRITE_ATTEMPTS
         | WorkerWrote snap ok \<Rightarrow> (wk_pending w = None \<longrightarrow> latest = Some snap \<and> (ok \<longrightarrow> file_current writer file0 latest st))
             \<and> st_attempts st < SHUTDOWN_WRITE_ATTEMPTS
         | WorkerSleeping \<Rightarrow> wk_stopping w \<and> wk_pending w \<noteq> None \<and> st_attempts st < SHUTDOWN_WRITE_ATTEMPTS
         | WorkerReturned ok \<Rightarrow> wk_stopping w \<and> wk_pending w = None \<and> (ok \<longrightarrow> file_current writer file0 latest st)))"

lemma store_open_ok: "store_ok writer file None (store_open file)"
  by (simp add: store_ok_def store_open_def file_current_def SHUTDOWN_WRITE_ATTEMPTS_def)

lemma file_current_state [simp]:
  "file_current writer file0 latest (st\<lparr>st_state := w\<rparr>) = file_current writer file0 latest st"
  "file_current writer file0 latest (st\<lparr>st_place := p\<rparr>) = file_current writer file0 latest st"
  "file_current writer file0 latest (st\<lparr>st_attempts := n\<rparr>) = file_current writer file0 latest st"
  by (simp_all add: file_current_def split: option.split)

lemma schedule_ok:
  assumes "store_ok writer file0 latest st" and "\<not> wk_stopping (st_state st)"
  shows "store_ok writer file0 (Some snap) (store_act writer (Schedule now snap) st)"
  using assms
  by (cases "st_place st") (auto simp: store_ok_def schedule_snapshot_def Let_def)

lemma schedule_stopped: "wk_stopping (st_state st) \<Longrightarrow> store_act writer (Schedule now snap) st = st"
  by (simp add: schedule_snapshot_def)

lemma stop_ok: "store_ok writer file0 latest st \<Longrightarrow> store_ok writer file0 latest (store_act writer StopStore st)"
  by (cases "st_place st") (auto simp: store_ok_def stop_worker_def Let_def)

lemma write_snapshot_cases:
  assumes "write_snapshot writer io_ok snap file = (ok, file')"
  obtains "ok" and "\<exists>bytes. snapshot_to_bytes writer snap = Inr bytes \<and> file' = Some bytes"
  | "\<not> ok" and "file' = file"
  using assms by (auto simp: write_snapshot_def split: sum.splits if_splits)

lemma turn_ok:
  assumes ok: "store_ok writer file0 latest st"
  shows "store_ok writer file0 latest (worker_turn writer now io_ok st)"
proof (cases "st_place st")
  case WorkerWaiting
  with ok show ?thesis
    by (cases "wk_pending (st_state st)"; cases "wk_deadline (st_state st)"; cases "wk_stopping (st_state st)")
      (auto simp: store_ok_def worker_turn_def wait_for_snapshot_def Let_def)
next
  case (WorkerWriting snap)
  obtain wrote bytes where w: "write_snapshot writer io_ok snap (st_file st) = (wrote, bytes)" by fastforce
  then show ?thesis
  proof (cases rule: write_snapshot_cases)
    case 1
    with ok WorkerWriting w show ?thesis
      by (auto simp: store_ok_def worker_turn_def Let_def file_current_def)
  next
    case 2
    with ok WorkerWriting w show ?thesis
      by (auto simp: store_ok_def worker_turn_def Let_def)
  qed
next
  case (WorkerWrote snap wrote)
  with ok show ?thesis
    by (cases wrote; cases "wk_pending (st_state st)"; cases "wk_stopping (st_state st)")
      (auto simp: store_ok_def worker_turn_def write_done_def write_failed_def Let_def SHUTDOWN_WRITE_ATTEMPTS_def)
next
  case WorkerSleeping
  with ok show ?thesis by (auto simp: store_ok_def worker_turn_def Let_def)
next
  case (WorkerReturned b)
  with ok show ?thesis by (simp add: worker_turn_def)
qed

lemma turn_stopping [simp]: "wk_stopping (st_state (worker_turn writer now io_ok st)) = wk_stopping (st_state st)"
  by (auto simp: worker_turn_def wait_for_snapshot_def write_done_def write_failed_def Let_def
      split: worker_place.split option.split prod.split)

lemma stopped_run_ok:
  "store_ok writer file0 latest st \<Longrightarrow> wk_stopping (st_state st) \<Longrightarrow>
     store_ok writer file0 latest (store_run writer acts st) \<and> wk_stopping (st_state (store_run writer acts st))"
proof (induction acts arbitrary: st)
  case (Cons a acts)
  show ?case
  proof (cases a)
    case (Schedule now snap)
    with Cons show ?thesis using schedule_stopped [OF Cons.prems(2), of writer now snap] by simp
  next
    case StopStore
    then show ?thesis using Cons.IH [OF stop_ok [OF Cons.prems(1)]] by (simp add: stop_worker_def)
  next
    case (WorkerTurn now io_ok)
    then show ?thesis using Cons.IH [OF turn_ok [OF Cons.prems(1)]] Cons.prems(2) by simp
  qed
qed simp

lemma store_run_ok:
  "store_ok writer file0 latest st \<Longrightarrow> \<not> wk_stopping (st_state st) \<Longrightarrow>
     store_ok writer file0 (last_scheduled acts latest) (store_run writer acts st)"
proof (induction acts arbitrary: st latest)
  case (Cons a acts)
  show ?case
  proof (cases a)
    case (Schedule now snap)
    then show ?thesis using Cons.IH [OF schedule_ok [OF Cons.prems]] Cons.prems(2)
      by (simp add: schedule_snapshot_def)
  next
    case StopStore
    then show ?thesis using stopped_run_ok [OF stop_ok [OF Cons.prems(1)]] by (simp add: stop_worker_def)
  next
    case (WorkerTurn now io_ok)
    then show ?thesis using Cons.IH [OF turn_ok [OF Cons.prems(1)]] Cons.prems(2) by simp
  qed
qed simp

section \<open>A shutdown ends\<close>

text \<open>The turns the worker may still take after the shutdown.\<close>

fun turns_left :: "snapshot_store \<Rightarrow> nat" where
  "turns_left st =
     (let full = 4 * (SHUTDOWN_WRITE_ATTEMPTS - st_attempts st) - 1; again = 4 * SHUTDOWN_WRITE_ATTEMPTS;
          pending = (wk_pending (st_state st) \<noteq> None) in
      case st_place st of
        WorkerWaiting \<Rightarrow> if pending then full else 1
      | WorkerWriting _ \<Rightarrow> if pending then again + 1 else full - 1
      | WorkerWrote _ _ \<Rightarrow> if pending then again else full - 2
      | WorkerSleeping \<Rightarrow> full + 1
      | WorkerReturned _ \<Rightarrow> 0)"

lemma turn_decreases:
  assumes "store_ok writer file0 latest st" and "wk_stopping (st_state st)" and "turns_left st \<noteq> 0"
  shows "turns_left (worker_turn writer now io_ok st) < turns_left st"
  using assms
  by (cases "st_place st"; cases "wk_pending (st_state st)")
    (auto simp: store_ok_def worker_turn_def wait_for_snapshot_def write_done_def write_failed_def Let_def
      SHUTDOWN_WRITE_ATTEMPTS_def split: prod.split)

lemma turns_left_bound: "turns_left st \<le> 17"
  by (auto simp: Let_def SHUTDOWN_WRITE_ATTEMPTS_def split: worker_place.split)

lemma turns_left_returned:
  "store_ok writer file0 latest st \<Longrightarrow> turns_left st = 0 \<Longrightarrow> \<exists>ok. st_place st = WorkerReturned ok"
  by (cases "st_place st") (auto simp: store_ok_def Let_def SHUTDOWN_WRITE_ATTEMPTS_def split: if_splits)

definition is_turn :: "store_action \<Rightarrow> bool" where
  "is_turn a = (case a of WorkerTurn _ _ \<Rightarrow> True | _ \<Rightarrow> False)"

lemma turns_run_out:
  assumes "store_ok writer file0 latest st" and "wk_stopping (st_state st)"
    and "list_all is_turn acts" and "turns_left st \<le> length acts"
  shows "turns_left (store_run writer acts st) = 0"
  using assms
proof (induction acts arbitrary: st)
  case (Cons a acts)
  then obtain now io where a: "a = WorkerTurn now io" by (cases a) (auto simp: is_turn_def)
  have "turns_left (worker_turn writer now io st) \<le> length acts"
  proof (cases "turns_left st = 0")
    case True
    with turns_left_returned [OF Cons.prems(1)] show ?thesis by (auto simp: worker_turn_def)
  next
    case False
    with turn_decreases [OF Cons.prems(1,2) False, of now io] Cons.prems(4) show ?thesis
      by (simp del: turns_left.simps)
  qed
  with Cons a show ?case by (simp add: turn_ok del: turns_left.simps)
qed simp

text \<open>Whatever the writes do, the worker of a stopped store is back after 17 turns.\<close>

lemma shutdown_ends:
  assumes "store_ok writer file0 latest st" and "wk_stopping (st_state st)"
    and "list_all is_turn turns" and "17 \<le> length turns"
  shows "\<exists>ok. st_place (store_run writer turns st) = WorkerReturned ok"
proof -
  have "turns_left st \<le> length turns" using turns_left_bound [of st] assms(4) by (rule order_trans)
  then have "turns_left (store_run writer turns st) = 0" using assms by (intro turns_run_out)
  then show ?thesis using stopped_run_ok [OF assms(1,2)] turns_left_returned by blast
qed

text \<open>Once the file can be written again, the one failed write a shutdown may find is not repeated.\<close>

definition saving :: "snapshot_store \<Rightarrow> bool" where
  "saving st \<longleftrightarrow> (case st_place st of
       WorkerWrote _ False \<Rightarrow> wk_pending (st_state st) \<noteq> None \<or> st_attempts st = 0
     | WorkerReturned ok \<Rightarrow> ok
     | _ \<Rightarrow> True)"

definition is_good_turn :: "store_action \<Rightarrow> bool" where
  "is_good_turn a = (case a of WorkerTurn _ io_ok \<Rightarrow> io_ok | _ \<Rightarrow> False)"

lemma saving_turn:
  assumes "store_ok writer file0 (Some snap) st" and "wk_stopping (st_state st)" and "saving st"
    and fits: "snapshot_to_bytes writer snap = Inr bytes"
  shows "saving (worker_turn writer now True st)"
proof -
  have size: "length bytes \<le> MAX_SNAPSHOT_BYTES"
    using fits by (auto simp: snapshot_to_bytes_def Let_def split: if_splits)
  show ?thesis
  proof (cases "st_place st")
    case (WorkerWriting other)
    show ?thesis
    proof (cases "wk_pending (st_state st)")
      case None
      with assms(1) WorkerWriting have "other = snap" by (auto simp: store_ok_def Let_def)
      with fits size WorkerWriting show ?thesis
        by (simp add: worker_turn_def write_snapshot_def saving_def not_less)
    next
      case (Some newer)
      with WorkerWriting show ?thesis
        by (simp add: worker_turn_def saving_def split: prod.split bool.split)
    qed
  qed (use assms(1-3) in \<open>auto simp: saving_def worker_turn_def wait_for_snapshot_def write_done_def write_failed_def
      Let_def SHUTDOWN_WRITE_ATTEMPTS_def store_ok_def split: option.splits bool.splits\<close>)
qed

lemma saving_run:
  assumes "store_ok writer file0 (Some snap) st" and "wk_stopping (st_state st)" and "saving st"
    and "snapshot_to_bytes writer snap = Inr bytes" and "list_all is_good_turn turns"
  shows "saving (store_run writer turns st)"
  using assms
proof (induction turns arbitrary: st)
  case (Cons a turns)
  then obtain now where "a = WorkerTurn now True" by (cases a) (auto simp: is_good_turn_def)
  with Cons show ?case by (simp add: turn_ok saving_turn)
qed simp

lemma store_run_append: "store_run writer (xs @ ys) st = store_run writer ys (store_run writer xs st)"
  by (induction xs arbitrary: st) simp_all

lemma not_stopped: "StopStore \<notin> set acts \<Longrightarrow> \<not> wk_stopping (st_state st)
   \<Longrightarrow> \<not> wk_stopping (st_state (store_run writer acts st))"
proof (induction acts arbitrary: st)
  case (Cons a acts)
  then show ?case by (cases a) (auto simp: schedule_snapshot_def)
qed simp

section \<open>Properties\<close>

text \<open>C7: a shutdown saves. When the file can be written from then on and the last scheduled Snapshot
  is not too large, the worker returns successfully within 17 turns, and the file holds that
  Snapshot, whatever was being written or had failed before.\<close>

theorem shutdown_saves:
  assumes "last_scheduled acts None = Some snap" and "StopStore \<notin> set acts"
    and "snapshot_to_bytes writer snap = Inr bytes"
    and "list_all is_good_turn turns" and "17 \<le> length turns"
  shows "st_place (store_run writer (acts @ StopStore # turns) (store_open file0)) = WorkerReturned True
    \<and> st_file (store_run writer (acts @ StopStore # turns) (store_open file0)) = Some bytes"
proof -
  let ?before = "store_run writer acts (store_open file0)"
  let ?stopped = "store_act writer StopStore ?before"
  let ?final = "store_run writer turns ?stopped"
  have running: "\<not> wk_stopping (st_state ?before)"
    by (rule not_stopped [OF assms(2)]) (simp add: store_open_def)
  have before: "store_ok writer file0 (Some snap) ?before"
    using store_run_ok [OF store_open_ok, where acts = acts and writer = writer] assms(1) by (simp add: store_open_def)
  then have ok: "store_ok writer file0 (Some snap) ?stopped" by (rule stop_ok)
  have stop: "wk_stopping (st_state ?stopped)" by (simp add: stop_worker_def)
  have "saving ?stopped"
    using before running by (auto simp: store_ok_def saving_def Let_def split: worker_place.splits bool.splits)
  then have saving: "saving ?final" using saving_run ok stop assms(3,4) by blast
  have "list_all is_turn turns"
    using assms(4) by (auto simp: list_all_iff is_turn_def is_good_turn_def split: store_action.splits)
  from shutdown_ends [OF ok stop this assms(5)] obtain b where b: "st_place ?final = WorkerReturned b" by blast
  with saving have "st_place ?final = WorkerReturned True" by (simp add: saving_def)
  moreover from this have "st_file ?final = Some bytes"
    using conjunct1 [OF stopped_run_ok [OF ok stop, of turns]] assms(3)
    by (simp add: store_ok_def file_current_def Let_def)
  ultimately show ?thesis by (simp add: store_run_append)
qed

definition demo_snapshot :: session_snapshot where
  "demo_snapshot = \<lparr>ss_workspaces = []\<rparr>"

theorem shutdown_saves_witness:
  "st_place (store_run (\<lambda>_. [1, 2]) ([Schedule 0 demo_snapshot, WorkerTurn 300 True, WorkerTurn 301 False]
      @ StopStore # replicate 17 (WorkerTurn 400 True)) (store_open None)) = WorkerReturned True
   \<and> st_file (store_run (\<lambda>_. [1, 2]) ([Schedule 0 demo_snapshot, WorkerTurn 300 True, WorkerTurn 301 False]
      @ StopStore # replicate 17 (WorkerTurn 400 True)) (store_open None)) = Some [1, 2]"
  by (rule shutdown_saves [of _ demo_snapshot])
    (simp_all add: snapshot_to_bytes_def MAX_SNAPSHOT_BYTES_def list_all_iff is_good_turn_def)


lemma demo_split_on_wire: "session_on_wire demo_split"
  by (simp add: session_on_wire_def content_on_wire_def demo_simps session_tabs_def)

definition demo_saved :: session_snapshot where
  "demo_saved = the (session_to_snapshot demo_split)"

lemma demo_saved: "session_to_snapshot demo_split = Some demo_saved"
  using saved_restores [OF demo_split_inv] by (auto simp: demo_saved_def)


end
