(* ===== verification/Server_Recovery.thy ===== *)
theory Server_Recovery
  imports Server_Properties Snapshot_Store
begin

text \<open>
  How a Server starts (\<open>condr-server/src/server/recovery.rs\<close>, with the checks of
  \<open>server/bootstrap.rs\<close>): the saved Session is checked and restored, worktree associations that no
  longer hold are cleared, a fresh shell is started in every Pane, Panes without one are pruned, and
  the shared state is made of what is left. What the shells, Git and the file system answer is given.
  \<open>None\<close> is a panic.
\<close>

section \<open>The saved Session\<close>

text \<open>\<open>Path::is_absolute\<close> on Unix.\<close>

definition is_absolute :: "path \<Rightarrow> bool" where
  "is_absolute p \<longleftrightarrow> p \<noteq> [] \<and> hd p = 47"

definition root_paths :: "session_snapshot \<Rightarrow> path list" where
  "root_paths snap = concat (map (\<lambda>w. ws_root w #
     (case ws_worktree w of Some a \<Rightarrow> [wt_parent_root a] | None \<Rightarrow> [])) (ss_workspaces snap))"

definition BOOTSTRAP_METADATA_HEADROOM :: nat where "BOOTSTRAP_METADATA_HEADROOM = 64 * 1024"

definition MAX_PERSISTED_SNAPSHOT_BYTES :: nat where
  "MAX_PERSISTED_SNAPSHOT_BYTES = MAX_FRAME_SIZE - BOOTSTRAP_METADATA_HEADROOM"

definition validate_persistable_snapshot :: "pb_writer \<Rightarrow> session_snapshot \<Rightarrow> string + unit" where
  "validate_persistable_snapshot writer snap =
     (case snapshot_to_bytes writer snap of
        Inl error \<Rightarrow> Inl (''Session Snapshot cannot be encoded: '' @ error)
      | Inr bytes \<Rightarrow>
          if MAX_PERSISTED_SNAPSHOT_BYTES < length bytes
          then Inl (''Session Snapshot is '' @ decimal (length bytes) @ '' bytes; Server limit is ''
                 @ decimal MAX_PERSISTED_SNAPSHOT_BYTES @ '' bytes'')
          else Inr ())"

definition validate_snapshot_root_paths :: "session_snapshot \<Rightarrow> string + unit" where
  "validate_snapshot_root_paths snap =
     (if list_all is_absolute (root_paths snap) then Inr ()
      else Inl ''Workspace root is not absolute on this Server'')"

text \<open>The Session to start with, whether it was restored, and the word under which a file that was not
  is set aside.\<close>

definition recover_session ::
  "pb_writer \<Rightarrow> relpath_api \<Rightarrow> snapshot_load \<Rightarrow> u64 \<Rightarrow> (session \<times> bool \<times> string option \<times> u64) option" where
  "recover_session writer rp load nxt =
     (case load of
        Missing \<Rightarrow> Some (session_new, False, None, nxt)
      | Rejected _ \<Rightarrow> Some (session_new, False, Some ''unreadable'', nxt)
      | Loaded snap \<Rightarrow>
          (case bind_ok (validate_persistable_snapshot writer snap) (\<lambda>_. validate_snapshot_root_paths snap) of
             Inl _ \<Rightarrow> Some (session_new, False, Some ''invalid'', nxt)
           | Inr _ \<Rightarrow>
               (case session_restore rp snap nxt of
                  None \<Rightarrow> None
                | Some (Inl _) \<Rightarrow> Some (session_new, False, Some ''invalid'', nxt)
                | Some (Inr (s, nxt')) \<Rightarrow> Some (s, True, None, nxt'))))"

section \<open>Worktrees\<close>

definition worktree_associations :: "session \<Rightarrow> (workspace_id \<times> path \<times> path) list" where
  "worktree_associations s = concat (map (\<lambda>w. case w_worktree w of
       Some a \<Rightarrow> [(w_id w, w_root w, wt_parent_root a)] | None \<Rightarrow> []) (workspaces s))"

fun clear_worktrees :: "(path \<Rightarrow> path \<Rightarrow> bool) \<Rightarrow> (workspace_id \<times> path \<times> path) list \<Rightarrow> session \<Rightarrow> nat \<times> session" where
  "clear_worktrees valid [] s = (0, s)"
| "clear_worktrees valid ((wid, root, parent) # rest) s =
     (if valid root parent then clear_worktrees valid rest s
      else let (cleared, s) = clear_worktree_association s wid; (n, s) = clear_worktrees valid rest s
           in (if cleared then n + 1 else n, s))"

definition clear_invalid_restored_worktrees :: "(path \<Rightarrow> path \<Rightarrow> bool) \<Rightarrow> session \<Rightarrow> nat \<times> session" where
  "clear_invalid_restored_worktrees valid s = clear_worktrees valid (worktree_associations s) s"

section \<open>Fresh shells\<close>

definition launch_specs :: "session \<Rightarrow> (pane_id \<times> path option \<times> path) list" where
  "launch_specs s = concat (map (\<lambda>w. concat (map (\<lambda>t. map (\<lambda>p. (p_id p, p_cwd p, w_root w)) (tab_panes t))
     (w_tabs w))) (workspaces s))"

text \<open>The first view of the shell and the directory it started in: the saved one when it is absolute,
  else, or when that fails, the Workspace's root.\<close>

definition start_shell :: "spawn \<Rightarrow> pane_id \<Rightarrow> path option \<Rightarrow> path \<Rightarrow> (terminal_view \<times> path) option" where
  "start_shell spawn p saved root =
     (let requested = (case saved of Some cwd \<Rightarrow> if is_absolute cwd then cwd else root | None \<Rightarrow> root) in
      case spawn p requested of
        Inr view \<Rightarrow> Some (view, requested)
      | Inl _ \<Rightarrow>
          if \<not> path_eq requested root
          then case spawn p root of Inr view \<Rightarrow> Some (view, root) | Inl _ \<Rightarrow> None
          else None)"

text \<open>A Pane whose shell started elsewhere has its directory put right.\<close>

definition repair_cwd :: "pane_id \<Rightarrow> path option \<Rightarrow> path \<Rightarrow> session \<Rightarrow> (bool \<times> session) option" where
  "repair_cwd p saved cwd s =
     (case saved of
        Some previous \<Rightarrow> if path_eq previous cwd then Some (False, s) else set_pane_cwd s p (Some cwd)
      | None \<Rightarrow> Some (False, s))"

text \<open>The loop over the Panes: the shells started, the Panes without one, the directories put right.\<close>

fun start_shells ::
  "spawn \<Rightarrow> (pane_id \<times> path option \<times> path) list \<Rightarrow> session
   \<Rightarrow> ((pane_id \<times> terminal_view) list \<times> pane_id list \<times> nat \<times> session) option" where
  "start_shells spawn [] s = Some ([], [], 0, s)"
| "start_shells spawn ((p, saved, root) # specs) s =
     (case start_shell spawn p saved root of
        None \<Rightarrow> map_option (\<lambda>(started, failed, n, s). (started, p # failed, n, s)) (start_shells spawn specs s)
      | Some (view, cwd) \<Rightarrow> do {
          (repaired, s) \<leftarrow> repair_cwd p saved cwd s;
          (started, failed, n, s) \<leftarrow> start_shells spawn specs s;
          Some ((p, view) # started, failed, if repaired then n + 1 else n, s)})"

fun prune_panes :: "pane_id list \<Rightarrow> session \<Rightarrow> session option" where
  "prune_panes [] s = Some s"
| "prune_panes (p # ps) s =
     (case close_pane s p of Some (Some _, s) \<Rightarrow> prune_panes ps s | _ \<Rightarrow> None)"

section \<open>The shared state\<close>

fun discover_git ::
  "('set, 'git, 'r) encode \<Rightarrow> (path \<Rightarrow> 'git workspace_git option) \<Rightarrow> (workspace_id \<times> path) list
   \<Rightarrow> ('set, 'git) runtime \<Rightarrow> ('set, 'git) runtime option" where
  "discover_git enc git [] st = Some st"
| "discover_git enc git ((wid, root) # rest) st =
     Option.bind (set_workspace_git enc wid (git root) st) (discover_git enc git rest)"

fun install_terminals ::
  "('set, 'git, 'r) encode \<Rightarrow> (pane_id \<times> terminal_view) list \<Rightarrow> ('set, 'git) runtime \<Rightarrow> ('set, 'git) runtime option" where
  "install_terminals enc [] st = Some st"
| "install_terminals enc ((p, view) # rest) st =
     (case install_terminal enc p view st of None \<Rightarrow> None | Some (_, st) \<Rightarrow> install_terminals enc rest st)"

definition RESUME_TIMEOUT_MS :: nat where "RESUME_TIMEOUT_MS = 30000"

definition queue_agent_resumes :: "nat \<Rightarrow> ('set, 'git) runtime \<Rightarrow> ('set, 'git) runtime" where
  "queue_agent_resumes now st =
     (let resumes = (\<lambda>p. if p \<in> set (rt_terminals st)
          then case Option.bind (get_pane (rt_session st) p) p_resume of
                 Some resume \<Rightarrow> Some \<lparr>rg_resume = resume, rg_deadline = now + RESUME_TIMEOUT_MS, rg_submitted = False\<rparr>
               | None \<Rightarrow> ac_resumes (rt_control st) p
          else ac_resumes (rt_control st) p)
      in st\<lparr>rt_control := (rt_control st)\<lparr>ac_resumes := resumes\<rparr>\<rparr>)"

text \<open>\<open>recover\<close>: the word under which the file is set aside, the Snapshot to save at once when what was
  restored had to be changed, the state and the id counter.\<close>

definition recover ::
  "('set, 'git, 'r) encode \<Rightarrow> pb_writer \<Rightarrow> relpath_api \<Rightarrow> (path \<Rightarrow> path \<Rightarrow> bool) \<Rightarrow> spawn \<Rightarrow> (path \<Rightarrow> 'git workspace_git option)
   \<Rightarrow> nat \<Rightarrow> u64 \<Rightarrow> 128 word \<Rightarrow> 'set \<Rightarrow> (u64 \<Rightarrow> writer_queue) \<Rightarrow> snapshot_load \<Rightarrow> u64
   \<Rightarrow> (string option \<times> session_snapshot option \<times> ('set, 'git) runtime \<times> u64) option" where
  "recover enc writer rp valid spawn git now server epoch settings writers load nxt = do {
     (s, restored, aside, nxt) \<leftarrow> recover_session writer rp load nxt;
     let (cleared, s) = (if restored then clear_invalid_restored_worktrees valid s else (0, s));
     (started, failed, repaired, s) \<leftarrow> start_shells spawn (launch_specs s) s;
     s \<leftarrow> prune_panes failed s;
     st \<leftarrow> discover_git enc git (map (\<lambda>w. (w_id w, w_root w)) (workspaces s))
       (with_session server epoch settings writers s);
     st \<leftarrow> install_terminals enc started st;
     let st = queue_agent_resumes now st;
     scheduled \<leftarrow> (if restored \<and> (failed \<noteq> [] \<or> cleared \<noteq> 0 \<or> repaired \<noteq> 0)
       then map_option Some (session_to_snapshot (rt_session st)) else Some None);
     Some (aside, scheduled, st, nxt)}"

section \<open>The Session that is left\<close>

lemma session_new_any: "0 < unat nxt \<Longrightarrow> session_inv rp nxt session_new"
  by (simp add: session_inv_def wf_session_def within_limits_def session_ids_below_def
      session_new_def session_workspace_ids_def session_tab_ids_def session_pane_ids_def
      session_tabs_def session_panes_def tab_count_def pane_count_def)

lemma restored_ok:
  "\<exists>r. session_restore rp snap nxt = Some r \<and> (\<forall>s nxt'. r = Inr (s, nxt') \<longrightarrow> session_inv rp nxt' s)"
proof -
  have "session_restore rp snap nxt \<noteq> None"
    using checked_workspaces_restore [of snap]
    by (cases "validate_snapshot_resources snap") (auto simp: session_restore_def Let_def)
  then obtain r where "session_restore rp snap nxt = Some r" by blast
  moreover have "session_inv rp nxt' s" if "session_restore rp snap nxt = Some (Inr (s, nxt'))" for s nxt'
    using session_restore_Inr [OF that] restored_session_inv(1) by metis
  ultimately show ?thesis by blast
qed

lemma recover_session_ok:
  assumes nxt: "0 < unat nxt"
  obtains s restored aside nxt' where "recover_session writer rp load nxt = Some (s, restored, aside, nxt')"
    and "session_inv rp nxt' s"
proof (cases load)
  case (Loaded snap)
  note invalid = that [of session_new False "Some ''invalid''" nxt, OF _ session_new_any [OF nxt]]
  obtain r where r: "session_restore rp snap nxt = Some r" "\<And>s nxt'. r = Inr (s, nxt') \<Longrightarrow> session_inv rp nxt' s"
    using restored_ok by blast
  show ?thesis
  proof (cases "bind_ok (validate_persistable_snapshot writer snap) (\<lambda>_. validate_snapshot_root_paths snap)")
    case (Inl e)
    show ?thesis by (rule invalid) (simp add: recover_session_def Loaded Inl)
  next
    case checked: (Inr u)
    show ?thesis
    proof (cases r)
      case (Inl e)
      show ?thesis by (rule invalid) (simp add: recover_session_def Loaded checked r(1) Inl)
    next
      case (Inr a)
      show ?thesis
        by (rule that [of "fst a" True None "snd a"])
          (simp_all add: recover_session_def Loaded checked r(1) Inr r(2) split_beta)
    qed
  qed
next
  case Missing
  show ?thesis by (rule that [of session_new False None nxt, OF _ session_new_any [OF nxt]]) (simp add: recover_session_def Missing)
next
  case (Rejected reason)
  show ?thesis
    by (rule that [of session_new False "Some ''unreadable''" nxt, OF _ session_new_any [OF nxt]])
      (simp add: recover_session_def Rejected)
qed

lemma clear_association_same:
  assumes "clear_worktree_association s wid = (r, s')"
  shows "launch_specs s' = launch_specs s"
proof (cases "position (\<lambda>w. w_id w = wid) (workspaces s)")
  case (Some i)
  with assms have "s' = set_workspace i ((workspaces s ! i)\<lparr>w_worktree := None\<rparr>) s"
    by (simp add: clear_worktree_association_def)
  then show ?thesis using position_lessD [OF Some] by (simp add: launch_specs_def set_workspace_def map_update_same)
qed (use assms in \<open>simp add: clear_worktree_association_def\<close>)

lemma clear_worktrees_ok:
  assumes "session_inv rp nxt s" and "clear_worktrees valid associations s = (n, s')"
  shows "session_inv rp nxt s'" and "launch_specs s' = launch_specs s"
proof -
  from assms have "session_inv rp nxt s' \<and> launch_specs s' = launch_specs s"
  proof (induction associations arbitrary: s n s')
    case (Cons a rest)
    obtain wid root parent where a: "a = (wid, root, parent)" by (metis prod_cases3)
    show ?case
    proof (cases "valid root parent")
      case True
      with Cons show ?thesis by (auto simp: a)
    next
      case False
      obtain cleared s1 where c: "clear_worktree_association s wid = (cleared, s1)" by fastforce
      obtain k s2 where k: "clear_worktrees valid rest s1 = (k, s2)" by fastforce
      from Cons.prems(2) False have "s' = s2" by (simp add: a c k split: if_splits)
      with Cons.IH [OF clear_worktree_association_inv [OF Cons.prems(1) c] k] clear_association_same [OF c]
      show ?thesis by simp
    qed
  qed simp
  then show "session_inv rp nxt s'" and "launch_specs s' = launch_specs s" by simp_all
qed

lemma launch_specs_ids: "map fst (launch_specs s) = session_pane_ids s"
  by (simp add: launch_specs_def session_pane_ids_concat workspace_pane_ids_def [abs_def] tab_pane_ids_def [abs_def]
      map_concat comp_def)

definition has_shell :: "spawn \<Rightarrow> pane_id \<times> path option \<times> path \<Rightarrow> bool" where
  "has_shell spawn spec \<longleftrightarrow> (case spec of (p, saved, root) \<Rightarrow> start_shell spawn p saved root \<noteq> None)"

lemma start_shell_spawned: "start_shell spawn p saved root = Some (view, cwd) \<Longrightarrow> spawn p cwd = Inr view"
  by (auto simp: start_shell_def Let_def split: sum.splits if_splits)

lemma repair_cwd_ok:
  assumes "session_inv rp nxt s"
  obtains repaired s' where "repair_cwd p saved cwd s = Some (repaired, s')" and "session_inv rp nxt s'"
    and "bare_session s' = bare_session s"
proof (cases "saved = None \<or> path_eq (the saved) cwd")
  case True
  then show ?thesis using assms that by (cases saved) (auto simp: repair_cwd_def)
next
  case False
  have "set_pane_cwd s p (Some cwd) \<noteq> None" using cwd_edit.no_panic by (auto simp: set_pane_cwd_def)
  then obtain r s' where "set_pane_cwd s p (Some cwd) = Some (r, s')" by (metis option.exhaust surj_pair)
  with False show ?thesis
    using that set_pane_cwd_inv [OF assms] set_pane_cwd_bare by (cases saved) (auto simp: repair_cwd_def)
qed

lemma start_shells_ok:
  assumes "session_inv rp nxt s"
  obtains started n s' where
    "start_shells spawn specs s = Some (started, map fst (filter (\<lambda>x. \<not> has_shell spawn x) specs), n, s')"
    and "map fst started = map fst (filter (has_shell spawn) specs)"
    and "session_inv rp nxt s'" and "bare_session s' = bare_session s"
    and "\<forall>(p, view) \<in> set started. \<exists>cwd. spawn p cwd = Inr view"
proof -
  from assms have "\<exists>started n s'. start_shells spawn specs s
        = Some (started, map fst (filter (\<lambda>x. \<not> has_shell spawn x) specs), n, s')
      \<and> map fst started = map fst (filter (has_shell spawn) specs)
      \<and> session_inv rp nxt s' \<and> bare_session s' = bare_session s
      \<and> (\<forall>(p, view) \<in> set started. \<exists>cwd. spawn p cwd = Inr view)"
  proof (induction specs arbitrary: s)
    case (Cons spec specs)
    obtain p saved root where spec: "spec = (p, saved, root)" by (metis prod_cases3)
    show ?case
    proof (cases "start_shell spawn p saved root")
      case None
      with Cons.IH [OF Cons.prems] show ?thesis by (auto simp: spec has_shell_def)
    next
      case (Some a)
      obtain view cwd where a: "a = (view, cwd)" by fastforce
      obtain repaired s1 where r: "repair_cwd p saved cwd s = Some (repaired, s1)" "session_inv rp nxt s1"
        "bare_session s1 = bare_session s" using repair_cwd_ok [OF Cons.prems] by blast
      from Cons.IH [OF r(2)] r Some a start_shell_spawned [of spawn p saved root view cwd] show ?thesis
        by (fastforce simp: spec has_shell_def)
    qed
  qed simp
  then show ?thesis using that by blast
qed

lemma close_pane_one:
  assumes inv: "session_inv rp nxt s" and p: "p \<in> set (session_pane_ids s)"
  obtains c s' where "close_pane s p = Some (Some c, s')" and "session_inv rp nxt s'"
    and "set (session_pane_ids s') = set (session_pane_ids s) - {p}"
proof -
  from close_pane_total [OF inv, of p] obtain r s' where c: "close_pane s p = Some (r, s')"
    by (metis option.exhaust surj_pair)
  from p obtain ijk where "find_pane s p = Some ijk" using find_pane_None [of s p] by blast
  with c obtain c where r: "r = Some c" and panes: "co_panes c = [p]"
    by (cases ijk) (auto simp: close_pane_def Let_def split: option.splits if_splits)
  have "add_mset p (mset (session_pane_ids s')) = mset (session_pane_ids s)"
    using close_pane_exactly [OF inv c [unfolded r]] panes by (simp add: closes_exactly_def)
  then have "mset (p # session_pane_ids s') = mset (session_pane_ids s)" by simp
  moreover have "distinct (session_pane_ids s)" using inv by (simp add: session_inv_def wf_session_def)
  ultimately have "distinct (p # session_pane_ids s')" "set (p # session_pane_ids s') = set (session_pane_ids s)"
    using mset_eq_imp_distinct_iff mset_eq_setD by blast+
  then have "set (session_pane_ids s') = set (session_pane_ids s) - {p}" by auto
  then show ?thesis using that c r close_pane_inv [OF inv c] by blast
qed

lemma prune_panes_ok:
  assumes "session_inv rp nxt s" and "distinct ps" and "set ps \<subseteq> set (session_pane_ids s)"
  obtains s' where "prune_panes ps s = Some s'" and "session_inv rp nxt s'"
    and "set (session_pane_ids s') = set (session_pane_ids s) - set ps"
proof -
  from assms have "\<exists>s'. prune_panes ps s = Some s' \<and> session_inv rp nxt s'
      \<and> set (session_pane_ids s') = set (session_pane_ids s) - set ps"
  proof (induction ps arbitrary: s)
    case (Cons p ps)
    obtain c s1 where c: "close_pane s p = Some (Some c, s1)" "session_inv rp nxt s1"
      "set (session_pane_ids s1) = set (session_pane_ids s) - {p}"
      using close_pane_one [OF Cons.prems(1)] Cons.prems(3) by (metis list.set_intros(1) subsetD)
    moreover have "set ps \<subseteq> set (session_pane_ids s1)" using Cons.prems(2,3) c(3) by auto
    ultimately obtain s' where "prune_panes ps s1 = Some s'" "session_inv rp nxt s'"
      "set (session_pane_ids s') = set (session_pane_ids s1) - set ps" using Cons.IH Cons.prems(2) by force
    with c show ?case by (intro exI [of _ s']) auto
  qed simp
  then show ?thesis using that by blast
qed

section \<open>The state that is made of it\<close>

lemma discover_git_ok:
  assumes "server_ok rp nxt st" and "\<forall>(wid, root) \<in> set roots. wid \<in> set (session_workspace_ids (rt_session st))"
    and "\<forall>sequence wid root. enc (SessionEvent (rt_server_id st) (rt_session_id st) sequence
      (WorkspaceGitChanged wid (map_option (workspace_git_snapshot wid) (git root)))) \<noteq> None"
  obtains st' g where "discover_git enc git roots st = Some st'" and "server_ok rp nxt st'"
    and "core st' = core (st\<lparr>rt_git := g\<rparr>)"
proof -
  from assms have "\<exists>st' g. discover_git enc git roots st = Some st' \<and> server_ok rp nxt st' \<and> core st' = core (st\<lparr>rt_git := g\<rparr>)"
  proof (induction roots arbitrary: st)
    case Nil
    show ?case by (intro exI [of _ st] exI [of _ "rt_git st"]) (simp add: Nil)
  next
    case (Cons r roots)
    obtain wid root where r: "r = (wid, root)" by fastforce
    obtain bytes where "enc (SessionEvent (rt_server_id st) (rt_session_id st) (saturating_succ (rt_sequence st))
        (WorkspaceGitChanged wid (map_option (workspace_git_snapshot wid) (git root)))) = Some bytes"
      using Cons.prems(3) by blast
    then have "publish_git enc wid (git root) st \<noteq> None"
      by (simp add: publish_git_def publish_background_def publish_event_def record_event_def Let_def)
    then obtain st1 where st1: "publish_git enc wid (git root) st = Some st1" by blast
    note core1 = publish_git_core [OF st1]
    have "wid \<in> set (session_workspace_ids (rt_session st))" using Cons.prems(2) by (simp add: r)
    from publish_git_carries [OF st1 this] Cons.prems(1) have ok: "server_ok rp nxt st1" by (auto simp: carries_def)
    moreover have "\<forall>(wid, root) \<in> set roots. wid \<in> set (session_workspace_ids (rt_session st1))"
      using Cons.prems(2) core1 by (simp add: core_eq)
    moreover have "rt_server_id st1 = rt_server_id st" "rt_session_id st1 = rt_session_id st"
      using core1 by (simp_all add: core_eq)
    ultimately obtain st' g where "discover_git enc git roots st1 = Some st'" "server_ok rp nxt st'"
      "core st' = core (st1\<lparr>rt_git := g\<rparr>)" using Cons.IH [of st1] Cons.prems(3) by auto
    then show ?case
      using core1 st1 by (intro exI [of _ st'] exI [of _ g]) (simp add: r set_workspace_git_def core_eq)
  qed
  then show ?thesis using that by blast
qed

text \<open>A Server in which nothing but terminals and Git state was ever seen.\<close>

definition starting :: "relpath_api \<Rightarrow> u64 \<Rightarrow> ('set, 'git) runtime \<Rightarrow> bool" where
  "starting rp nxt st \<longleftrightarrow> server_ok rp nxt st \<and> rt_titles st = Map.empty \<and> rt_progress st = Map.empty
     \<and> rt_bells st = {} \<and> rt_unseen st = {} \<and> rt_closing st = {} \<and> rt_exited st = {} \<and> rt_agents st = Map.empty"

lemma install_one:
  assumes st: "starting rp nxt st" and p: "p \<in> set (session_pane_ids (rt_session st))" and view: "length (tv_cells view) \<le> usize_max"
  obtains instance_id st' where "install_terminal enc p view st = Some (instance_id, st')" and "starting rp nxt st'"
    and "set (rt_terminals st') = insert p (set (rt_terminals st))" and "rt_session st' = rt_session st"
proof -
  note d = st [unfolded starting_def]
  have "install_terminal enc p view st \<noteq> None" by (rule install_fresh_total [OF view]) (use d in simp_all)
  then obtain instance_id st' where i: "install_terminal enc p view st = Some (instance_id, st')" by auto
  obtain v where core: "core st' = core (with_terminal p instance_id v st)"
    by (rule install_fresh [OF i]) (use d in simp_all)
  have "server_ok rp nxt (with_terminal p instance_id v st)"
    using p server_okD [OF conjunct1 [OF d]] d
    by (simp add: server_ok_def with_terminal_def present_def hidden_def) blast
  then have "server_ok rp nxt st'" by (simp only: core_cong(1) [OF core])
  then have "starting rp nxt st'" using d core by (simp add: starting_def core_eq with_terminal_def)
  with i core show ?thesis by (intro that [OF i]) (simp_all add: core_eq with_terminal_def)
qed

lemma install_terminals_ok:
  assumes "starting rp nxt st" and "\<forall>(p, view) \<in> set started. p \<in> set (session_pane_ids (rt_session st))
      \<and> length (tv_cells view) \<le> usize_max"
  obtains st' where "install_terminals enc started st = Some st'" and "starting rp nxt st'"
    and "set (rt_terminals st') = fst ` set started \<union> set (rt_terminals st)" and "rt_session st' = rt_session st"
proof -
  from assms have "\<exists>st'. install_terminals enc started st = Some st' \<and> starting rp nxt st'
      \<and> set (rt_terminals st') = fst ` set started \<union> set (rt_terminals st) \<and> rt_session st' = rt_session st"
  proof (induction started arbitrary: st)
    case (Cons a started)
    obtain p view where a: "a = (p, view)" by fastforce
    obtain instance_id st1 where i: "install_terminal enc p view st = Some (instance_id, st1)" "starting rp nxt st1"
      "set (rt_terminals st1) = insert p (set (rt_terminals st))" "rt_session st1 = rt_session st"
      by (rule install_one [OF Cons.prems(1)]) (use Cons.prems(2) in \<open>auto simp: a\<close>)
    from Cons.IH [OF i(2)] Cons.prems(2) i(4) obtain st' where "install_terminals enc started st1 = Some st'"
      "starting rp nxt st'" "set (rt_terminals st') = fst ` set started \<union> set (rt_terminals st1)" "rt_session st' = rt_session st1"
      by auto
    with i show ?case by (intro exI [of _ st']) (simp add: a)
  qed simp
  then show ?thesis using that by blast
qed

lemma queue_agent_resumes_core: "core (queue_agent_resumes now st) = core st"
  by (simp add: queue_agent_resumes_def core_eq Let_def)



end
