(* ===== verification/Spec2Isabelle.thy ===== *)
theory Spec2Isabelle
  imports Session_Behaviour Session_Restore Agent_Properties Input_Queue Terminal_Wire Render_Properties
    Server_Recovery
begin

text \<open>
  A verification development for Condr (\<open>crates/\<close>): a Server that owns Workspaces, Tabs, Panes and
  their terminals, and Clients (a desktop GUI, a CLI, a mobile companion) that show them.

  \<^bold>\<open>The program.\<close> The Server keeps one Session (\<open>condr-core/src/session*\<close>), the structure every
  Client sees: Workspaces own Tabs, a Tab holds a tree of Panes or a viewer. Each Pane runs a
  terminal. A monitor reads what its program writes, makes a view of the screen
  (\<open>terminal/view.rs\<close>) and tells which coding agent runs in it and how it is doing (\<open>agent/\<close>).
  The Server sends a Client one Bootstrap, the whole state (\<open>server/bootstrap.rs\<close>), then reliable
  events and droppable terminal frames through a bounded queue (\<open>client_writer.rs\<close>). The Client puts the
  Bootstrap together (\<open>protocol/bootstrap.rs\<close>), merges and applies frames (\<open>condr-client/src/frames.rs\<close>).
  Keys go back through a bounded queue into the PTY (\<open>terminal/input_queue.rs\<close>). The Session is
  saved as a Snapshot and restored at the next start (\<open>snapshot.rs\<close>, \<open>session/snapshot.rs\<close>).

  \<^bold>\<open>How the source is rendered.\<close> A struct is a record, an enum a datatype, a fixed-width integer a
  word; \<open>usize\<close> is \<open>nat\<close> with its 64-bit bound written out where the source checks it; a string is the
  list of its Unicode scalar values and a byte count is that of its UTF-8 form; an \<open>f32\<close> is a sign and
  a magnitude with the IEEE rounding computed (\<open>Float32\<close>). An operation on \<open>&mut self\<close> returns the new
  state. An error is an \<open>Inl\<close> or a \<open>None\<close> as the source has it; a panic (\<open>expect\<close>, an index out of
  range) is an outer \<open>None\<close>, so that not panicking is a theorem. An operation under a mutex is one step.
  What is not under \<open>src/\<close> is an argument with its documented law as a hypothesis: the protobuf bytes
  of a record (prost), JSON text (serde), \<open>relative_path\<close>, Unicode lowercasing.

  \<^bold>\<open>The Session.\<close> \<open>Session_Ids\<close> models the id counter, \<open>Pane_Layout\<close> the split tree
  (\<open>session/layout.rs\<close>), \<open>Session_Model\<close> the data and the look-ups of \<open>session.rs\<close>,
  \<open>Session_Workspaces\<close> and \<open>Session_Panes\<close> the operations (\<open>session/workspace.rs\<close>,
  \<open>session/pane.rs\<close>), each with its proof that it keeps \<open>session_inv\<close>. Pane operations are edits of one
  terminal layout: the locale \<open>terminal_edit\<close> says what such an edit owes, each operation interprets it.
  \<open>Session_Steps\<close> is the step relation; \<open>Session_Properties\<close> and \<open>Session_Behaviour\<close> say what
  the operations do. \<open>Session_Snapshot\<close>, \<open>Session_Validate\<close> and \<open>Session_Restore\<close> model saving,
  checking and restoring: a saved Session comes back, no Snapshot makes restoring panic or loop, and
  what it accepts satisfies the invariant.

  \<^bold>\<open>Agents.\<close> \<open>Agent_Model\<close> holds the kinds and their specifications (\<open>agent/mod.rs\<close> and one file
  per agent), \<open>Agent_Detector\<close> the hook events, Program Status and the detector (\<open>event.rs\<close>,
  \<open>program_status.rs\<close>, \<open>detector.rs\<close>), \<open>Agent_Process\<close> the naming of processes and the hook's side
  (\<open>process.rs\<close>, \<open>hook.rs\<close>, \<open>hook/report.rs\<close>), \<open>Agent_Properties\<close> what holds of them.

  \<^bold>\<open>Queues.\<close> \<open>Client_Writer\<close> and \<open>Input_Queue\<close> model the two bounded queues, with invariants
  on their budgets, order of delivery (locale \<open>fifo\<close>) and behaviour past the bounds.

  \<^bold>\<open>Terminal frames.\<close> \<open>Terminal_View\<close> models views, deltas and their checks; \<open>Hyperlink_Budget\<close>
  the limits on links (\<open>terminal/view/wire.rs\<close>); \<open>Terminal_Wire\<close> the messages of a frame and their decoding from
  an untrusted peer; \<open>Terminal_Merge\<close> and \<open>Terminal_Slot\<close> the Client's merging, its slot and the
  application of a batch; \<open>Chunked_Transfer\<close> and \<open>Bootstrap_Transfer\<close> the Bootstrap. The locale
  \<open>replica\<close> is the contract of a reporter and its follower; the detector and the view keep it.

  \<^bold>\<open>Bounds and fuel.\<close> No definition has fuel: every loop of the source is a terminating recursion,
  with the measure the source's bound gives (the depth and node limits of a Snapshot, the ancestors of
  a process, the bytes of a record). Limits are the source's constants.

  \<^bold>\<open>Not modelled.\<close> The GUI, the mobile bridge and the CLI (views and glue over third-party
  frameworks), the VT engine (a C library) and its bindings, sockets, encryption and port forwarding (libraries
  over the network), files, Git and hook installation (the file system at every step), threads, timers and
  processes. Within the modelled files, logging, \<open>Display\<close> texts and pure getters are left out.
\<close>

end
